(* ===== verification/Prelude.thy ===== *)
theory Prelude
  imports Complex_Main "HOL-Library.AList" "HOL-Library.Char_ord"
    "HOL-Library.List_Lexorder" "HOL-Library.Product_Lexorder"
begin

text \<open>
  Shared vocabulary of the development: the Python exceptions the modelled code raises, the
  result type that carries them, sequencing of fallible computations, the insertion-ordered
  dictionary of Python as an association list, Python slices, and the generic facts about
  these that the component proofs use.
\<close>

named_theorems result_simps
named_theorems dict_simps

section \<open>Exceptions and results\<close>

text \<open>
  One constructor per exception class the modelled code raises or lets through. The message
  is kept where the code fixes it. \<open>NonTermination\<close> is no exception: it is the value the model
  gives to a computation that never returns.
\<close>

datatype py_error =
    ValueError string
  | ZeroDivision
  | InvalidOperation
  | KeyError string
  | AssertionError
  | BenchmarkUnavailable string
  | StateConflict string
  | IdempotencyConflict string
  | AuthenticationError string
  | AccessDenied string
  | DataUnavailable string
  | DependencyError string
  | StopIteration
  | TypeError
  | FileNotFound
  | ConfigurationError string
  | DatabaseError string
  | RuleViolation string
  | FileExists
  | OSError string
  | RuntimeError string
  | ContractError string
  | ProviderDataError string
  | IngestionError string
  | NonTermination

type_synonym 'a res = "py_error + 'a"

text \<open>Sequencing: an exception leaves the rest of the code unexecuted.\<close>

definition andThen :: "'e + 'a \<Rightarrow> ('a \<Rightarrow> 'e + 'b) \<Rightarrow> 'e + 'b" where
  "andThen m f = (case m of Inl e \<Rightarrow> Inl e | Inr x \<Rightarrow> f x)"

definition guardE :: "bool \<Rightarrow> 'e \<Rightarrow> 'e + unit" where
  "guardE b e = (if b then Inl e else Inr ())"

fun map_res :: "('a \<Rightarrow> 'e + 'b) \<Rightarrow> 'a list \<Rightarrow> 'e + 'b list" where
  "map_res f [] = Inr []"
| "map_res f (x # xs) = andThen (f x) (\<lambda>y. andThen (map_res f xs) (\<lambda>ys. Inr (y # ys)))"

fun fold_res :: "('s \<Rightarrow> 'a \<Rightarrow> 'e + 's) \<Rightarrow> 's \<Rightarrow> 'a list \<Rightarrow> 'e + 's" where
  "fold_res f s [] = Inr s"
| "fold_res f s (x # xs) = andThen (f s x) (\<lambda>s'. fold_res f s' xs)"

lemma andThen_simps [simp]:
  "andThen (Inl e) f = Inl e"
  "andThen (Inr x) f = f x"
  by (simp_all add: andThen_def)

lemma andThen_Inr_iff [result_simps]:
  "andThen m f = Inr y \<longleftrightarrow> (\<exists>x. m = Inr x \<and> f x = Inr y)"
  by (cases m) auto

lemma andThen_Inl_iff:
  "andThen m f = Inl e \<longleftrightarrow> m = Inl e \<or> (\<exists>x. m = Inr x \<and> f x = Inl e)"
  by (cases m) auto

lemma andThen_InrE:
  assumes "andThen m f = Inr y"
  obtains x where "m = Inr x" and "f x = Inr y"
  using assms by (auto simp: andThen_Inr_iff)

lemma andThen_cong [fundef_cong]:
  "m = m' \<Longrightarrow> (\<And>x. m' = Inr x \<Longrightarrow> f x = g x) \<Longrightarrow> andThen m f = andThen m' g"
  by (cases m') auto

lemma guardE_Inr_iff [result_simps]: "guardE b e = Inr u \<longleftrightarrow> \<not> b"
  by (simp add: guardE_def)

lemma guardE_simps [simp]: "guardE True e = Inl e" "guardE False e = Inr ()"
  by (simp_all add: guardE_def)

text \<open>The outcome of a computation that may not return.\<close>

definition returning :: "('a res) option \<Rightarrow> 'a res" where
  "returning r = (case r of None \<Rightarrow> Inl NonTermination | Some x \<Rightarrow> x)"

lemma returning_Inr_iff [result_simps]: "returning r = Inr x \<longleftrightarrow> r = Some (Inr x)"
  by (simp add: returning_def split: option.splits)

lemma map_res_length: "map_res f xs = Inr ys \<Longrightarrow> length ys = length xs"
  by (induction xs arbitrary: ys) (auto simp: andThen_Inr_iff)

lemma map_res_list_all2: "map_res f xs = Inr ys \<Longrightarrow> list_all2 (\<lambda>x y. f x = Inr y) xs ys"
  by (induction xs arbitrary: ys) (auto simp: andThen_Inr_iff)

lemma map_res_in:
  assumes "map_res f xs = Inr ys" and "y \<in> set ys"
  shows "\<exists>x\<in>set xs. f x = Inr y"
  using assms by (induction xs arbitrary: ys) (auto simp: andThen_Inr_iff)

lemma map_res_cong [fundef_cong]:
  "xs = ys \<Longrightarrow> (\<And>x. x \<in> set ys \<Longrightarrow> f x = g x) \<Longrightarrow> map_res f xs = map_res g ys"
  by (induction ys arbitrary: xs) auto

lemma fold_res_append:
  "fold_res f s (xs @ ys) = andThen (fold_res f s xs) (\<lambda>s'. fold_res f s' ys)"
proof (induction xs arbitrary: s)
  case (Cons x xs)
  then show ?case by (cases "f s x") auto
qed simp

text \<open>The invariant rule of a loop that may raise.\<close>

lemma fold_res_invariant:
  assumes "fold_res f s xs = Inr t" and "I s"
    and "\<And>s x s'. I s \<Longrightarrow> x \<in> set xs \<Longrightarrow> f s x = Inr s' \<Longrightarrow> I s'"
  shows "I t"
  using assms
proof (induction xs arbitrary: s)
  case (Cons x xs)
  from Cons.prems(1) obtain s' where s': "f s x = Inr s'" "fold_res f s' xs = Inr t"
    by (auto simp: andThen_Inr_iff)
  with Cons.prems(2,3) have "I s'" by auto
  with s'(2) Cons.prems(3) show ?case by (intro Cons.IH) auto
qed simp

section \<open>Dictionaries in insertion order\<close>

text \<open>
  A Python \<open>dict\<close> keeps insertion order: assigning to a present key keeps its place, a new
  key goes to the end, \<open>pop\<close> removes the entry. \<open>AList.update\<close> and \<open>AList.delete\<close> do this.
\<close>

type_synonym ('k, 'v) dict = "('k \<times> 'v) list"

abbreviation dict_set :: "'k \<Rightarrow> 'v \<Rightarrow> ('k, 'v) dict \<Rightarrow> ('k, 'v) dict" where
  "dict_set k v d \<equiv> AList.update k v d"

abbreviation dict_pop :: "'k \<Rightarrow> ('k, 'v) dict \<Rightarrow> ('k, 'v) dict" where
  "dict_pop k d \<equiv> AList.delete k d"

abbreviation dict_ok :: "('k, 'v) dict \<Rightarrow> bool" where
  "dict_ok d \<equiv> distinct (map fst d)"

definition dict_get :: "('k, 'v) dict \<Rightarrow> 'k \<Rightarrow> 'v \<Rightarrow> 'v" where
  "dict_get d k v = (case map_of d k of None \<Rightarrow> v | Some w \<Rightarrow> w)"

text \<open>\<open>d.setdefault(k, []).append(x)\<close>\<close>

definition dict_append :: "'k \<Rightarrow> 'x \<Rightarrow> ('k, 'x list) dict \<Rightarrow> ('k, 'x list) dict" where
  "dict_append k x d = dict_set k (dict_get d k [] @ [x]) d"

text \<open>\<open>{key(x): value(x) for x in xs}\<close>: later elements overwrite earlier ones.\<close>

definition dict_of :: "('x \<Rightarrow> 'k) \<Rightarrow> ('x \<Rightarrow> 'v) \<Rightarrow> 'x list \<Rightarrow> ('k, 'v) dict" where
  "dict_of key val xs = foldl (\<lambda>d x. dict_set (key x) (val x) d) [] xs"

lemmas dict_map_of [dict_simps] = AList.update_conv' AList.delete_conv'

lemma dict_ok_set [simp, intro]: "dict_ok d \<Longrightarrow> dict_ok (dict_set k v d)"
  by (rule AList.distinct_update)

lemma dict_ok_pop [simp, intro]: "dict_ok d \<Longrightarrow> dict_ok (dict_pop k d)"
  by (rule AList.distinct_delete)

lemma dict_set_in:
  "(k', v') \<in> set (dict_set k v d) \<Longrightarrow> (k', v') = (k, v) \<or> (k', v') \<in> set d"
  by (induction d) (auto split: if_splits)

lemma dict_set_in_distinct:
  assumes "dict_ok d" and "(k', v') \<in> set (dict_set k v d)"
  shows "k' = k \<and> v' = v \<or> k' \<noteq> k \<and> (k', v') \<in> set d"
proof -
  have "map_of (dict_set k v d) k' = Some v'" using assms by (simp add: map_of_is_SomeI)
  then show ?thesis by (auto simp: dict_simps fun_upd_def split: if_splits dest: map_of_SomeD)
qed

lemma dict_set_new: "k \<notin> fst ` set d \<Longrightarrow> dict_set k v d = d @ [(k, v)]"
  by (induction d) auto

lemma dict_pop_in: "(k', v') \<in> set (dict_pop k d) \<Longrightarrow> k' \<noteq> k \<and> (k', v') \<in> set d"
  by (auto simp: AList.delete_eq)

lemma dict_ok_dict_of: "dict_ok (dict_of key val xs)"
proof -
  have "dict_ok d \<Longrightarrow> dict_ok (foldl (\<lambda>d x. dict_set (key x) (val x) d) d xs)" for d
    by (induction xs arbitrary: d) auto
  from this[of "[]"] show ?thesis by (simp add: dict_of_def)
qed

lemma dict_of_in:
  assumes "(k, v) \<in> set (dict_of key val xs)"
  shows "\<exists>x\<in>set xs. k = key x \<and> v = val x"
proof -
  have "(k, v) \<in> set (foldl (\<lambda>d x. dict_set (key x) (val x) d) d xs) \<Longrightarrow>
      (k, v) \<in> set d \<or> (\<exists>x\<in>set xs. k = key x \<and> v = val x)" for d
    by (induction xs arbitrary: d) (force dest: dict_set_in)+
  from this[of "[]"] assms show ?thesis by (auto simp: dict_of_def)
qed

section \<open>Slices, searching and sorting\<close>

text \<open>\<open>xs[i:]\<close> for any Python integer \<open>i\<close>: a negative start counts from the end.\<close>

definition slice_from :: "int \<Rightarrow> 'a list \<Rightarrow> 'a list" where
  "slice_from i xs = drop (nat (if i < 0 then max 0 (int (length xs) + i) else i)) xs"

text \<open>\<open>next((x for x in reversed(xs) if P(x)), None)\<close>\<close>

definition find_last :: "('a \<Rightarrow> bool) \<Rightarrow> 'a list \<Rightarrow> 'a option" where
  "find_last P xs = List.find P (rev xs)"

text \<open>
  \<open>sorted({...})\<close>: the elements without duplicates in increasing order.
\<close>

definition sorted_set :: "'a::linorder list \<Rightarrow> 'a list" where
  "sorted_set xs = sort (remdups xs)"

lemma slice_from_suffix: "set (slice_from i xs) \<subseteq> set xs"
  by (auto simp: slice_from_def dest: in_set_dropD)

lemma length_slice_from_neg:
  "0 < n \<Longrightarrow> n \<le> int (length xs) \<Longrightarrow> length (slice_from (- n) xs) = nat n"
  by (auto simp: slice_from_def)

lemma find_Some_in: "List.find P xs = Some x \<Longrightarrow> x \<in> set xs \<and> P x"
  by (induction xs) (auto split: if_splits)

lemma find_last_Some_in: "find_last P xs = Some x \<Longrightarrow> x \<in> set xs \<and> P x"
  unfolding find_last_def by (auto dest: find_Some_in)

lemma set_sorted_set [simp]: "set (sorted_set xs) = set xs"
  by (simp add: sorted_set_def)

lemma sorted_sorted_set [simp]: "sorted (sorted_set xs)"
  by (simp add: sorted_set_def)

lemma distinct_sorted_set [simp]: "distinct (sorted_set xs)"
  by (simp add: sorted_set_def)

text \<open>\<open>xs[i:j]\<close> for any Python integers.\<close>

definition slice_between :: "int \<Rightarrow> int \<Rightarrow> 'a list \<Rightarrow> 'a list" where
  "slice_between i j xs =
     (let place = \<lambda>k. nat (if k < 0 then max 0 (int (length xs) + k) else k)
      in drop (place i) (take (place j) xs))"

lemma slice_between_pos:
  "slice_between (int a) (int b) xs = drop a (take b xs)"
  by (simp add: slice_between_def)

text \<open>Overwriting the first and the last element with a property.\<close>

fun update_first :: "('a \<Rightarrow> bool) \<Rightarrow> 'a \<Rightarrow> 'a list \<Rightarrow> 'a list" where
  "update_first P y [] = []"
| "update_first P y (x # xs) = (if P x then y # xs else x # update_first P y xs)"

definition update_last :: "('a \<Rightarrow> bool) \<Rightarrow> 'a \<Rightarrow> 'a list \<Rightarrow> 'a list" where
  "update_last P y xs = rev (update_first P y (rev xs))"

lemma update_first_map:
  assumes "distinct (map f xs)" and "\<And>x. x \<in> set xs \<Longrightarrow> P x \<longleftrightarrow> f x = k"
  shows "update_first P y xs = map (\<lambda>x. if f x = k then y else x) xs"
  using assms
proof (induction xs)
  case (Cons x xs)
  have "update_first P y xs = map (\<lambda>x. if f x = k then y else x) xs"
    using Cons by (intro Cons.IH) auto
  moreover have "f x = k \<Longrightarrow> map (\<lambda>x. if f x = k then y else x) xs = xs"
    using Cons.prems(1) by (intro map_idI) (metis distinct.simps(2) image_eqI list.set_map list.simps(9))
  ultimately show ?case using Cons.prems(2) by auto
qed simp

lemma update_last_map:
  assumes "distinct (map f xs)" and "\<And>x. x \<in> set xs \<Longrightarrow> P x \<longleftrightarrow> f x = k"
  shows "update_last P y xs = map (\<lambda>x. if f x = k then y else x) xs"
proof -
  have "update_first P y (rev xs) = map (\<lambda>x. if f x = k then y else x) (rev xs)"
    by (rule update_first_map) (use assms in \<open>simp_all add: rev_map [symmetric]\<close>)
  then show ?thesis by (simp add: update_last_def rev_map)
qed

lemma find_last_snoc [simp]: "find_last P (xs @ [x]) = (if P x then Some x else find_last P xs)"
  by (simp add: find_last_def)

lemma find_last_Nil [simp]: "find_last P [] = None"
  by (simp add: find_last_def)

lemma find_last_filter:
  "find_last P xs = (if filter P xs = [] then None else Some (last (filter P xs)))"
  by (induction xs rule: rev_induct) auto

lemma find_last_map: "find_last P (map f xs) = map_option f (find_last (\<lambda>x. P (f x)) xs)"
  by (induction xs rule: rev_induct) auto

lemma find_last_cong: "(\<And>x. x \<in> set xs \<Longrightarrow> P x = Q x) \<Longrightarrow> find_last P xs = find_last Q xs"
  by (induction xs rule: rev_induct) auto

lemma find_last_None_iff: "find_last P xs = None \<longleftrightarrow> (\<forall>x\<in>set xs. \<not> P x)"
  by (induction xs rule: rev_induct) auto

lemma fold_res_skip:
  assumes "\<And>s x. x \<in> set xs \<Longrightarrow> \<not> P x \<Longrightarrow> f s x = Inr s"
  shows "fold_res f s (filter P xs) = fold_res f s xs"
  using assms
proof (induction xs arbitrary: s)
  case (Cons x xs)
  then show ?case by (cases "f s x") auto
qed simp

end
