(* ===== verification/Decimal28.thy ===== *)
theory Decimal28
  imports Prelude
begin

text \<open>
  Python's \<open>decimal.Decimal\<close> under the default context: every value is a finite decimal,
  represented by its rational value, and every arithmetic operation returns the exact result
  rounded to 28 significant digits, ties to even. Comparisons, \<open>max\<close>, \<open>min\<close> and the conversion
  from an integer are exact. Division by zero raises. The exponent limits of the context
  (magnitudes beyond \<open>10 ^ 999999\<close>) and the number of trailing zeros of a value, which no
  comparison or operation depends on, are not modelled.
\<close>

section \<open>Digits and the adjusted exponent\<close>

fun ndigits :: "nat \<Rightarrow> nat" where
  "ndigits n = (if n < 10 then 1 else Suc (ndigits (n div 10)))"

declare ndigits.simps [simp del]

text \<open>\<open>adjusted x\<close> is the exponent of the leading digit: \<open>10 ^ e \<le> |x| < 10 ^ (e + 1)\<close>.\<close>

definition adjusted :: "rat \<Rightarrow> int" where
  "adjusted x = (case quotient_of \<bar>x\<bar> of (n, d) \<Rightarrow>
     let e = int (ndigits (nat n)) - int (ndigits (nat d))
     in if \<bar>x\<bar> < 10 powi e then e - 1 else e)"

definition round_half_even :: "rat \<Rightarrow> int" where
  "round_half_even x =
     (let f = \<lfloor>x\<rfloor>; r = x - of_int f
      in if r < 1/2 then f else if r > 1/2 then f + 1 else if even f then f else f + 1)"

definition drnd :: "rat \<Rightarrow> rat" where
  "drnd x = (if x = 0 then 0
     else let s = 10 powi (adjusted x - 27) in of_int (round_half_even (x / s)) * s)"

text \<open>The values the context can represent: a coefficient of at most 28 digits.\<close>

definition dec28 :: "rat \<Rightarrow> bool" where
  "dec28 x \<longleftrightarrow> (\<exists>c q. x = of_int c * 10 powi q \<and> \<bar>c\<bar> \<le> 10 ^ 28)"

lemma ndigits_pos: "0 < ndigits n"
  by (subst ndigits.simps) simp

lemma ndigits_bounds: "0 < n \<Longrightarrow> 10 ^ (ndigits n - 1) \<le> n \<and> n < 10 ^ ndigits n"
proof (induction n rule: ndigits.induct)
  case (1 n)
  show ?case
  proof (cases "n < 10")
    case True
    with 1 show ?thesis by (subst (1 2) ndigits.simps) simp
  next
    case False
    then have IH: "10 ^ (ndigits (n div 10) - 1) \<le> n div 10" "n div 10 < 10 ^ ndigits (n div 10)"
      using 1 by auto
    have e: "ndigits n = Suc (ndigits (n div 10))" using False by (subst ndigits.simps) simp
    have "10 * 10 ^ (ndigits (n div 10) - 1) \<le> n" using IH(1) by linarith
    then have "10 ^ ndigits (n div 10) \<le> n"
      using ndigits_pos[of "n div 10"] by (cases "ndigits (n div 10)") auto
    moreover have "n < 10 * 10 ^ ndigits (n div 10)" using IH(2) by linarith
    ultimately show ?thesis by (simp add: e)
  qed
qed

lemma ndigits_powi:
  assumes "0 < (n :: int)"
  shows "10 powi (int (ndigits (nat n)) - 1) \<le> (of_int n :: rat)"
    and "(of_int n :: rat) < 10 powi (int (ndigits (nat n)))"
proof -
  let ?k = "ndigits (nat n)"
  have b: "10 ^ (?k - 1) \<le> nat n" "nat n < 10 ^ ?k" using ndigits_bounds[of "nat n"] assms by auto
  have k: "int ?k - 1 = int (?k - 1)" using ndigits_pos[of "nat n"] by simp
  have "(of_nat (10 ^ (?k - 1)) :: rat) \<le> of_nat (nat n)" using b(1) by (rule of_nat_mono)
  then show "10 powi (int ?k - 1) \<le> (of_int n :: rat)"
    unfolding k power_int_of_nat using assms by simp
  have "(of_nat (nat n) :: rat) < of_nat (10 ^ ?k)" using b(2) by (simp only: of_nat_less_iff)
  then show "(of_int n :: rat) < 10 powi (int ?k)"
    unfolding power_int_of_nat using assms by simp
qed

lemma powi10_add: "(10::rat) powi a * 10 powi b = 10 powi (a + b)"
  by (simp add: power_int_add)

lemma powi10_pos [simp]: "0 < (10::rat) powi a"
  by (simp add: zero_less_power_int)

lemma powi10_27: "(10::rat) ^ 27 * 10 powi (k - 27) = 10 powi k"
proof -
  have "(10::rat) ^ 27 = 10 powi 27" by simp
  then show ?thesis by (simp only: powi10_add) simp
qed

lemma powi10_28: "(10::rat) ^ 28 * 10 powi k = 10 powi (k + 28)"
proof -
  have "(10::rat) ^ 28 = 10 powi 28" by simp
  then show ?thesis by (simp only: powi10_add) (simp add: add.commute)
qed

lemma adjusted_bounds:
  assumes "x \<noteq> 0"
  shows "10 powi (adjusted x) \<le> \<bar>x\<bar> \<and> \<bar>x\<bar> < 10 powi (adjusted x + 1)"
proof -
  obtain n d where q: "quotient_of \<bar>x\<bar> = (n, d)" by (cases "quotient_of \<bar>x\<bar>")
  have d: "0 < d" using quotient_of_denom_pos[OF q] .
  have x: "\<bar>x\<bar> = of_int n / of_int d" using quotient_of_div[OF q] .
  have "0 < (of_int n / of_int d :: rat)" using assms by (simp flip: x)
  with d have n: "0 < n" by (simp add: zero_less_divide_iff)
  let ?a = "int (ndigits (nat n))" and ?b = "int (ndigits (nat d))"
  have dr: "0 < (of_int d :: rat)" using d by simp
  have low: "10 powi (?a - ?b - 1) < \<bar>x\<bar>"
  proof -
    have "10 powi (?a - ?b - 1) * of_int d < (10 powi (?a - ?b - 1) * 10 powi ?b :: rat)"
      using ndigits_powi(2)[OF d] by (intro mult_strict_left_mono) auto
    also have "\<dots> = 10 powi (?a - 1)" unfolding powi10_add by simp
    also have "\<dots> \<le> of_int n" by (rule ndigits_powi(1)[OF n])
    finally show ?thesis using dr by (simp add: x pos_less_divide_eq)
  qed
  have high: "\<bar>x\<bar> < 10 powi (?a - ?b + 1)"
  proof -
    have "(of_int n :: rat) < 10 powi ?a" by (rule ndigits_powi(2)[OF n])
    also have "\<dots> = 10 powi (?a - ?b + 1) * 10 powi (?b - 1)" unfolding powi10_add by simp
    also have "\<dots> \<le> 10 powi (?a - ?b + 1) * of_int d"
      using ndigits_powi(1)[OF d] by (intro mult_left_mono) auto
    finally show ?thesis using dr by (simp add: x pos_divide_less_eq)
  qed
  show ?thesis
    using low high q by (auto simp: adjusted_def Let_def)
qed

lemma powi10_less_iff: "(10 :: rat) powi a < 10 powi b \<longleftrightarrow> a < b"
proof
  show "a < b \<Longrightarrow> (10 :: rat) powi a < 10 powi b" by (rule power_int_strict_increasing) auto
  assume "(10 :: rat) powi a < 10 powi b"
  then show "a < b"
    using power_int_increasing[of b a "10 :: rat"] by (cases "a < b") auto
qed

lemma adjusted_unique:
  assumes "10 powi e \<le> \<bar>x\<bar>" and "\<bar>x\<bar> < 10 powi (e + 1)"
  shows "adjusted x = e"
proof -
  have "0 < \<bar>x\<bar>" using powi10_pos[of e] assms(1) by linarith
  then have "x \<noteq> 0" by simp
  note b = adjusted_bounds[OF this]
  have "(10::rat) powi e < 10 powi (adjusted x + 1)" "(10::rat) powi (adjusted x) < 10 powi (e + 1)"
    using b assms by auto
  then show ?thesis by (simp add: powi10_less_iff)
qed

lemma adjusted_minus [simp]: "adjusted (- x) = adjusted x"
  by (simp add: adjusted_def)

lemma adjusted_mono:
  assumes "0 < x" and "x \<le> y" shows "adjusted x \<le> adjusted y"
proof -
  have "(10::rat) powi (adjusted x) < 10 powi (adjusted y + 1)"
    using adjusted_bounds[of x] adjusted_bounds[of y] assms by auto
  then show ?thesis by (simp add: powi10_less_iff)
qed

section \<open>Rounding half to even\<close>

lemma round_half_even_of_int [simp]: "round_half_even (of_int n) = n"
  by (simp add: round_half_even_def)

lemma round_half_even_bounds: "\<lfloor>x\<rfloor> \<le> round_half_even x \<and> round_half_even x \<le> \<lfloor>x\<rfloor> + 1"
  by (simp add: round_half_even_def Let_def)

lemma round_half_even_error: "\<bar>of_int (round_half_even x) - x\<bar> \<le> 1/2"
  unfolding round_half_even_def Let_def by (auto simp: abs_if not_less) linarith+

lemma round_half_even_mono:
  assumes "x \<le> y" shows "round_half_even x \<le> round_half_even y"
proof (cases "\<lfloor>x\<rfloor> = \<lfloor>y\<rfloor>")
  case True
  with assms show ?thesis by (auto simp: round_half_even_def Let_def)
next
  case False
  with floor_mono[OF assms] have "\<lfloor>x\<rfloor> + 1 \<le> \<lfloor>y\<rfloor>" by simp
  with round_half_even_bounds[of x] round_half_even_bounds[of y] show ?thesis by linarith
qed

lemma round_half_even_minus: "round_half_even (- x) = - round_half_even x"
proof (cases "x = of_int \<lfloor>x\<rfloor>")
  case True
  then show ?thesis by (metis of_int_minus round_half_even_of_int)
next
  case False
  with of_int_floor_le[of x] have "of_int \<lfloor>x\<rfloor> < x" by linarith
  then have f: "\<lfloor>- x\<rfloor> = - \<lfloor>x\<rfloor> - 1"
    using floor_correct[of x] by (intro floor_unique) auto
  show ?thesis unfolding round_half_even_def Let_def f by auto
qed

lemma drnd_0 [simp]: "drnd 0 = 0"
  by (simp add: drnd_def)

lemma drnd_minus [simp]: "drnd (- x) = - drnd x"
  by (simp add: drnd_def Let_def round_half_even_minus)

lemma scaled_bounds:
  assumes "0 < x"
  shows "10 ^ 27 \<le> x / 10 powi (adjusted x - 27)" "x / 10 powi (adjusted x - 27) < 10 ^ 28"
proof -
  let ?s = "(10::rat) powi (adjusted x - 27)"
  have s: "0 < ?s" by (simp add: zero_less_power_int)
  have e: "(10::rat) ^ 27 * ?s = 10 powi (adjusted x)" "(10::rat) ^ 28 * ?s = 10 powi (adjusted x + 1)"
    unfolding powi10_27 powi10_28 by (simp_all add: add.commute)
  have b: "10 powi (adjusted x) \<le> x" "x < 10 powi (adjusted x + 1)"
    using adjusted_bounds[of x] assms by auto
  show "10 ^ 27 \<le> x / ?s" using b(1) s e(1) by (simp add: pos_le_divide_eq)
  show "x / ?s < 10 ^ 28" using b(2) s e(2) by (simp add: pos_divide_less_eq)
qed

lemma drnd_pos_bounds:
  assumes "0 < x"
  shows "10 powi (adjusted x) \<le> drnd x \<and> drnd x \<le> 10 powi (adjusted x + 1)"
proof -
  let ?s = "(10::rat) powi (adjusted x - 27)" and ?y = "x / 10 powi (adjusted x - 27)"
  have s: "0 < ?s" by (simp add: zero_less_power_int)
  have "round_half_even (of_int (10 ^ 27)) \<le> round_half_even ?y"
       "round_half_even ?y \<le> round_half_even (of_int (10 ^ 28))"
    using scaled_bounds[OF assms] by (intro round_half_even_mono; simp)+
  then have r: "10 ^ 27 \<le> round_half_even ?y" "round_half_even ?y \<le> 10 ^ 28"
    by (simp_all only: round_half_even_of_int)
  have "(of_int (10 ^ 27) :: rat) \<le> of_int (round_half_even ?y)"
       "(of_int (round_half_even ?y) :: rat) \<le> of_int (10 ^ 28)"
    using r by (simp_all only: of_int_le_iff)
  then have m: "(10::rat) ^ 27 * ?s \<le> of_int (round_half_even ?y) * ?s"
    "of_int (round_half_even ?y) * ?s \<le> (10::rat) ^ 28 * ?s"
    using s by (auto intro!: mult_right_mono)
  have e: "(10::rat) ^ 27 * ?s = 10 powi (adjusted x)" "(10::rat) ^ 28 * ?s = 10 powi (adjusted x + 1)"
    unfolding powi10_27 powi10_28 by (simp_all add: add.commute)
  have d: "drnd x = of_int (round_half_even ?y) * ?s" using assms by (simp add: drnd_def Let_def)
  show ?thesis using m unfolding e d by simp
qed

lemma drnd_mono_pos:
  assumes "0 < x" and "x \<le> y" shows "drnd x \<le> drnd y"
proof (cases "adjusted x = adjusted y")
  case True
  have "x / 10 powi (adjusted y - 27) \<le> y / 10 powi (adjusted y - 27)"
    using assms by (intro divide_right_mono) (auto simp: zero_le_power_int)
  from round_half_even_mono[OF this] assms True show ?thesis
    by (auto simp: drnd_def Let_def intro!: mult_right_mono zero_le_power_int)
next
  case False
  with adjusted_mono[OF assms] have l: "adjusted x + 1 \<le> adjusted y" by simp
  have "drnd x \<le> 10 powi (adjusted x + 1)" using drnd_pos_bounds[OF assms(1)] by simp
  also have "\<dots> \<le> 10 powi (adjusted y)" using l by (intro power_int_increasing) auto
  also have "\<dots> \<le> drnd y" using drnd_pos_bounds[of y] assms by auto
  finally show ?thesis .
qed

lemma drnd_nonneg:
  assumes "0 \<le> x" shows "0 \<le> drnd x"
proof (cases "x = 0")
  case False
  with assms drnd_pos_bounds[of x] powi10_pos[of "adjusted x"] show ?thesis by linarith
qed simp

lemma drnd_pos: "0 < x \<Longrightarrow> 0 < drnd x"
  using drnd_pos_bounds[of x] powi10_pos[of "adjusted x"] by linarith

lemma drnd_mono: "x \<le> y \<Longrightarrow> drnd x \<le> drnd y"
proof -
  assume le: "x \<le> y"
  consider "0 < x" | "y < 0" | "x \<le> 0" "0 \<le> y" by linarith
  then show ?thesis
  proof cases
    case 1
    then show ?thesis using le by (rule drnd_mono_pos)
  next
    case 2
    then have "drnd (- y) \<le> drnd (- x)" using le by (intro drnd_mono_pos) auto
    then show ?thesis by simp
  next
    case 3
    have "0 \<le> drnd (- x)" using 3 by (intro drnd_nonneg) simp
    moreover have "0 \<le> drnd y" using 3 by (intro drnd_nonneg)
    ultimately show ?thesis by simp
  qed
qed

lemma dec28_minus: "dec28 x \<Longrightarrow> dec28 (- x)"
  unfolding dec28_def by (elim exE conjE, rule_tac x = "- c" in exI) auto

lemma dec28_drnd: "dec28 (drnd x)"
proof -
  have pos: "dec28 (drnd x)" if "0 < x" for x
  proof -
    let ?y = "x / 10 powi (adjusted x - 27)"
    have "round_half_even ?y \<le> round_half_even (of_int (10 ^ 28))"
      using scaled_bounds[OF that] by (intro round_half_even_mono) simp
    moreover have "round_half_even (of_int 0) \<le> round_half_even ?y"
      using scaled_bounds[OF that] by (intro round_half_even_mono) simp
    ultimately have "\<bar>round_half_even ?y\<bar> \<le> 10 ^ 28" unfolding round_half_even_of_int by simp
    then show ?thesis using that unfolding dec28_def drnd_def Let_def by auto
  qed
  consider "0 < x" | "x = 0" | "0 < - x" by linarith
  then show ?thesis
  proof cases
    case 2 then show ?thesis unfolding dec28_def by (auto intro!: exI[of _ 0])
  next
    case 3
    from dec28_minus[OF pos[OF 3]] show ?thesis by simp
  qed (rule pos)
qed

lemma drnd_exact:
  assumes "dec28 x" shows "drnd x = x"
proof (cases "x = 0")
  case False
  obtain c q where x: "x = of_int c * 10 powi q" and c: "\<bar>c\<bar> < 10 ^ 28"
  proof -
    obtain c q where cq: "x = of_int c * 10 powi q" "\<bar>c\<bar> \<le> 10 ^ 28"
      using assms by (auto simp: dec28_def)
    show thesis
    proof (cases "\<bar>c\<bar> = 10 ^ 28")
      case True
      then have "c = sgn c * 10 ^ 28" by (auto simp: sgn_if abs_if split: if_splits)
      then have "of_int c = (of_int (sgn c * 10 ^ 28) :: rat)" by (rule arg_cong)
      then have "x = of_int (sgn c * 10 ^ 27) * 10 powi (q + 1)"
        by (simp add: cq(1) power_int_add)
      then show thesis by (rule that) (simp add: sgn_if)
    qed (use cq that in auto)
  qed
  have "\<bar>x\<bar> < 10 ^ 28 * 10 powi q"
  proof -
    have "(of_int \<bar>c\<bar> :: rat) < of_int (10 ^ 28)" using c by (simp only: of_int_less_iff)
    then show ?thesis by (auto simp: x abs_mult zero_less_power_int intro!: mult_strict_right_mono)
  qed
  also have "(10::rat) ^ 28 * 10 powi q = 10 powi (q + 28)" by (rule powi10_28)
  finally have "(10::rat) powi (adjusted x) < 10 powi (q + 28)"
    using adjusted_bounds[OF False] by simp
  then have "0 \<le> q - (adjusted x - 27)" by (simp add: powi10_less_iff)
  then obtain k where k: "q - (adjusted x - 27) = int k" by (metis zero_le_imp_eq_int)
  have "x / 10 powi (adjusted x - 27) = of_int c * 10 powi (q - (adjusted x - 27))"
    by (simp add: x power_int_diff)
  also have "\<dots> = of_int (c * 10 ^ k)" unfolding k by simp
  finally have y: "x / 10 powi (adjusted x - 27) = of_int (c * 10 ^ k)" .
  have "drnd x = of_int (c * 10 ^ k) * 10 powi (adjusted x - 27)"
    using False unfolding drnd_def Let_def y round_half_even_of_int by simp
  also have "\<dots> = x" using y by (simp add: field_simps zero_less_power_int)
  finally show ?thesis .
qed simp

text \<open>The relative error of one operation is at most half a unit in the 28th digit.\<close>

lemma drnd_error: "\<bar>drnd x - x\<bar> \<le> \<bar>x\<bar> / (2 * 10 ^ 27)"
proof (cases "x = 0")
  case False
  let ?s = "(10::rat) powi (adjusted x - 27)"
  have s: "0 < ?s" by (simp add: zero_less_power_int)
  have "drnd x - x = (of_int (round_half_even (x / ?s)) - x / ?s) * ?s"
    using False s by (simp add: drnd_def Let_def algebra_simps)
  then have "\<bar>drnd x - x\<bar> = \<bar>of_int (round_half_even (x / ?s)) - x / ?s\<bar> * ?s"
    using s by (simp add: abs_mult)
  also have "\<dots> \<le> 1/2 * ?s" using s round_half_even_error by (intro mult_right_mono) auto
  also have "\<dots> \<le> 1/2 * (\<bar>x\<bar> / 10 ^ 27)"
  proof -
    have "(10::rat) ^ 27 * ?s = 10 powi (adjusted x)" by (rule powi10_27)
    also have "\<dots> \<le> \<bar>x\<bar>" using adjusted_bounds[OF False] by simp
    finally show ?thesis by (simp add: field_simps)
  qed
  finally show ?thesis by (simp add: field_simps)
qed simp

section \<open>The rounding context as an interface\<close>

text \<open>
  What the components rely on of the decimal context: rounding is monotone and symmetric, and
  leaves the representable values alone. Everything about signs and comparisons of rounded
  results follows from these laws.
\<close>

locale rounding_context =
  fixes rnd :: "rat \<Rightarrow> rat" and fits :: "rat \<Rightarrow> bool"
  assumes rnd_mono: "x \<le> y \<Longrightarrow> rnd x \<le> rnd y"
    and rnd_minus: "rnd (- x) = - rnd x"
    and rnd_fits: "fits x \<Longrightarrow> rnd x = x"
    and fits_rnd: "fits (rnd x)"
begin

lemma rnd_zero: "rnd 0 = 0"
  using rnd_minus[of 0] by simp

lemma rnd_nonneg: "0 \<le> x \<Longrightarrow> 0 \<le> rnd x"
  using rnd_mono[of 0 x] by (simp add: rnd_zero)

lemma rnd_nonpos: "x \<le> 0 \<Longrightarrow> rnd x \<le> 0"
  using rnd_mono[of x 0] by (simp add: rnd_zero)

lemma rnd_idem: "rnd (rnd x) = rnd x"
  by (rule rnd_fits[OF fits_rnd])

text \<open>A representable bound of the exact value bounds the rounded one.\<close>

lemma rnd_le_fits: "x \<le> y \<Longrightarrow> fits y \<Longrightarrow> rnd x \<le> y"
  using rnd_mono[of x y] by (simp add: rnd_fits)

lemma fits_le_rnd: "fits x \<Longrightarrow> x \<le> y \<Longrightarrow> x \<le> rnd y"
  using rnd_mono[of x y] by (simp add: rnd_fits)

lemma rnd_sub_nonneg: "y \<le> x \<Longrightarrow> 0 \<le> rnd (x - y)"
  by (rule rnd_nonneg) simp

lemma rnd_sub_le: "0 \<le> y \<Longrightarrow> fits x \<Longrightarrow> rnd (x - y) \<le> x"
  by (rule rnd_le_fits) simp_all

lemma rnd_add_ge: "0 \<le> y \<Longrightarrow> fits x \<Longrightarrow> x \<le> rnd (x + y)"
  by (rule fits_le_rnd) simp_all

end

interpretation d28: rounding_context drnd dec28
  by unfold_locales (auto intro: drnd_mono drnd_exact dec28_drnd)

section \<open>Operations\<close>

type_synonym dec = rat

definition dadd :: "dec \<Rightarrow> dec \<Rightarrow> dec" where "dadd a b = drnd (a + b)"
definition dsub :: "dec \<Rightarrow> dec \<Rightarrow> dec" where "dsub a b = drnd (a - b)"
definition dmul :: "dec \<Rightarrow> dec \<Rightarrow> dec" where "dmul a b = drnd (a * b)"
definition dneg :: "dec \<Rightarrow> dec" where "dneg a = drnd (- a)"
definition dabs :: "dec \<Rightarrow> dec" where "dabs a = drnd \<bar>a\<bar>"

text \<open>\<open>a / 0\<close> raises \<open>DivisionByZero\<close>, \<open>0 / 0\<close> raises \<open>InvalidOperation\<close>.\<close>

definition ddiv :: "dec \<Rightarrow> dec \<Rightarrow> dec res" where
  "ddiv a b = (if b = 0 then Inl (if a = 0 then InvalidOperation else ZeroDivision)
     else Inr (drnd (a / b)))"

text \<open>\<open>sum(xs, Decimal("0"))\<close>: one rounded addition per element, from the left.\<close>

definition dsum :: "dec list \<Rightarrow> dec" where
  "dsum xs = foldl dadd 0 xs"

text \<open>\<open>to_integral_value(rounding=ROUND_DOWN)\<close> truncates towards zero.\<close>

definition dtrunc :: "dec \<Rightarrow> int" where
  "dtrunc x = (if 0 \<le> x then \<lfloor>x\<rfloor> else \<lceil>x\<rceil>)"

text \<open>
  \<open>a // b\<close>: the integer part of the exact quotient, truncated towards zero. It raises
  \<open>InvalidOperation\<close> when that integer has more than 28 digits.
\<close>

definition dfloordiv :: "dec \<Rightarrow> dec \<Rightarrow> dec res" where
  "dfloordiv a b =
     (if b = 0 then Inl (if a = 0 then InvalidOperation else ZeroDivision)
      else let q = dtrunc (a / b) in
        if \<bar>q\<bar> < 10 ^ 28 then Inr (of_int q) else Inl InvalidOperation)"

lemmas dec_ops = dadd_def dsub_def dmul_def dneg_def dabs_def

lemma dec28_0 [simp]: "dec28 0"
  using dec28_drnd[of 0] by simp

lemma dec28_ops [simp]:
  "dec28 (dadd a b)" "dec28 (dsub a b)" "dec28 (dmul a b)" "dec28 (dneg a)"
  by (simp_all add: dec_ops dec28_drnd dec28_minus)

lemma dec28_ddiv: "ddiv a b = Inr c \<Longrightarrow> dec28 c"
  by (auto simp: ddiv_def dec28_drnd split: if_splits)

lemma dec28_of_int: "\<bar>n\<bar> \<le> 10 ^ 28 \<Longrightarrow> dec28 (of_int n)"
  unfolding dec28_def by (rule exI[of _ n], rule exI[of _ 0]) simp

lemma ddiv_Inr_iff [result_simps]: "ddiv a b = Inr c \<longleftrightarrow> b \<noteq> 0 \<and> c = drnd (a / b)"
  by (auto simp: ddiv_def)

lemma ddiv_nonneg: "ddiv a b = Inr c \<Longrightarrow> 0 \<le> a \<Longrightarrow> 0 \<le> b \<Longrightarrow> 0 \<le> c"
  by (auto simp: ddiv_Inr_iff intro: d28.rnd_nonneg)

lemma dadd_nonneg: "0 \<le> a \<Longrightarrow> 0 \<le> b \<Longrightarrow> 0 \<le> dadd a b"
  by (simp add: dadd_def d28.rnd_nonneg)

lemma dmul_nonneg: "0 \<le> a \<Longrightarrow> 0 \<le> b \<Longrightarrow> 0 \<le> dmul a b"
  by (simp add: dmul_def d28.rnd_nonneg)

lemma dsub_nonneg: "b \<le> a \<Longrightarrow> 0 \<le> dsub a b"
  by (simp add: dsub_def d28.rnd_sub_nonneg)

lemma dadd_ge_left: "dec28 a \<Longrightarrow> 0 \<le> b \<Longrightarrow> a \<le> dadd a b"
  by (simp add: dadd_def d28.rnd_add_ge)

lemma dsub_le_left: "dec28 a \<Longrightarrow> 0 \<le> b \<Longrightarrow> dsub a b \<le> a"
  by (simp add: dsub_def d28.rnd_sub_le)

lemma dadd_mono: "a \<le> a' \<Longrightarrow> b \<le> b' \<Longrightarrow> dadd a b \<le> dadd a' b'"
  by (simp add: dadd_def drnd_mono)

lemma dsum_nonneg:
  assumes "\<And>x. x \<in> set xs \<Longrightarrow> 0 \<le> x" shows "0 \<le> dsum xs"
proof -
  have "0 \<le> a \<Longrightarrow> (\<And>x. x \<in> set xs \<Longrightarrow> 0 \<le> x) \<Longrightarrow> 0 \<le> foldl dadd a xs" for a
    by (induction xs arbitrary: a) (auto intro: dadd_nonneg)
  then show ?thesis using assms by (simp add: dsum_def)
qed

lemma dec28_dsum [simp]: "dec28 (dsum xs)"
  by (induction xs rule: rev_induct) (simp_all add: dsum_def)

lemma dtrunc_of_int [simp]: "dtrunc (of_int n) = n"
  by (simp add: dtrunc_def)

section \<open>Evaluation\<close>

text \<open>Conditional rewrite rules that evaluate rounding on decimal literals.\<close>

lemma drnd_of_int: "\<bar>n\<bar> \<le> 10 ^ 28 \<Longrightarrow> drnd (of_int n) = of_int n"
  by (intro drnd_exact dec28_of_int)

lemma drnd_numeral [simp]:
  assumes "(numeral k :: int) \<le> 10 ^ 28" shows "drnd (numeral k) = numeral k"
  using drnd_of_int[of "numeral k"] assms by simp

lemma drnd_1 [simp]: "drnd 1 = 1"
  using drnd_of_int[of 1] by simp

lemma dec28_frac:
  assumes "10 ^ 12 mod b = (0::int)" and "\<bar>a * (10 ^ 12 div b)\<bar> \<le> 10 ^ 28"
  shows "dec28 (of_int a / of_int b)"
proof (cases "b = 0")
  case False
  from assms(1) obtain k where k: "(10::int) ^ 12 = b * k" by (auto simp: mod_eq_0_iff_dvd dvd_def)
  then have kd: "10 ^ 12 div b = k" using False by (metis nonzero_mult_div_cancel_left)
  have r: "(10::rat) ^ 12 = of_int b * of_int k" using arg_cong[OF k, of rat_of_int] by simp
  have "(10::rat) powi (-12) = 1 / 10 ^ 12" by (simp add: power_int_minus divide_simps)
  then have "of_int a / of_int b = (of_int (a * k) :: rat) * 10 powi (-12)"
    using False r by (auto simp: field_simps)
  then show ?thesis using assms(2) unfolding dec28_def kd by blast
qed simp

lemma drnd_frac_int:
  assumes "0 < b" and "0 \<le> a" and "10 ^ 12 mod b = (0::int)" and "a * (10 ^ 12 div b) \<le> 10 ^ 28"
  shows "drnd (of_int a / of_int b) = of_int a / of_int b"
proof -
  have "0 \<le> a * (10 ^ 12 div b)" using assms(1,2) by (simp add: pos_imp_zdiv_nonneg_iff)
  then show ?thesis using assms by (intro drnd_exact dec28_frac) auto
qed

lemma drnd_frac [simp]:
  assumes "(10 ^ 12 :: int) mod numeral b = 0"
    and "(numeral a :: int) * (10 ^ 12 div numeral b) \<le> 10 ^ 28"
  shows "drnd (numeral a / numeral b) = numeral a / numeral b"
  using drnd_frac_int[OF zero_less_numeral zero_le_numeral assms] by (simp only: of_int_numeral)

lemma drnd_unit_frac [simp]:
  assumes "(10 ^ 12 :: int) mod numeral b = 0" and "(10 ^ 12 :: int) div numeral b \<le> 10 ^ 28"
  shows "drnd (1 / numeral b) = 1 / numeral b"
  using drnd_frac_int[OF zero_less_numeral zero_le_one assms(1)] assms(2)
  by (simp only: of_int_numeral of_int_1 mult_1)

lemma dadd_eval_example: "dadd (1/10) (2/10) = 3/10"
  by (simp add: dadd_def)

end
