(* ===== verification/PyText.thy ===== *)
theory PyText
  imports Prelude
begin

text \<open>
  The operations of Python's \<open>str\<close> the program uses, on ASCII text: case folding, stripping,
  splitting at a separator from the left and from the right, prefixes.
\<close>

definition upper_char :: "char \<Rightarrow> char" where
  "upper_char c = (if 97 \<le> (of_char c :: nat) \<and> (of_char c :: nat) \<le> 122
     then char_of ((of_char c :: nat) - 32) else c)"

definition lower_char :: "char \<Rightarrow> char" where
  "lower_char c = (if 65 \<le> (of_char c :: nat) \<and> (of_char c :: nat) \<le> 90
     then char_of ((of_char c :: nat) + 32) else c)"

definition upper :: "string \<Rightarrow> string" where "upper s = map upper_char s"
definition lower :: "string \<Rightarrow> string" where "lower s = map lower_char s"

definition is_space :: "char \<Rightarrow> bool" where
  "is_space c \<longleftrightarrow> (of_char c :: nat) \<in> {9, 10, 11, 12, 13, 28, 29, 30, 31, 32}"

definition strip :: "string \<Rightarrow> string" where
  "strip s = rev (dropWhile is_space (rev (dropWhile is_space s)))"

text \<open>\<open>s.split(sep)\<close> for a one-character separator.\<close>

fun split_on :: "char \<Rightarrow> string \<Rightarrow> string list" where
  "split_on sep [] = [[]]"
| "split_on sep (c # cs) =
     (if c = sep then [] # split_on sep cs
      else (case split_on sep cs of [] \<Rightarrow> [[c]] | w # ws \<Rightarrow> (c # w) # ws))"

text \<open>\<open>s.rsplit(sep, 1)\<close>: at the last separator, if there is one.\<close>

definition rsplit1 :: "char \<Rightarrow> string \<Rightarrow> string list" where
  "rsplit1 sep s =
     (let r = rev s; tl_part = takeWhile (\<lambda>c. c \<noteq> sep) r
      in if sep \<in> set s then [rev (drop (Suc (length tl_part)) r), rev tl_part] else [s])"

definition starts_with :: "string \<Rightarrow> string \<Rightarrow> bool" where
  "starts_with p s \<longleftrightarrow> take (length p) s = p"

lemma upper_literals [simp]:
  "upper ''BUY'' = ''BUY''" "upper ''SELL'' = ''SELL''" "upper ''PARTIAL'' = ''PARTIAL''"
  "upper ''FULL_OR_NONE'' = ''FULL_OR_NONE''" "upper ''CASH'' = ''CASH''"
  "upper ''COMMON'' = ''COMMON''" "upper ''MAIN'' = ''MAIN''"
  by (simp_all add: upper_def upper_char_def)

lemma upper_char_idem [simp]: "upper_char (upper_char c) = upper_char c"
proof (cases "97 \<le> (of_char c :: nat) \<and> (of_char c :: nat) \<le> 122")
  case True
  moreover have "(of_char c :: nat) - 32 < 256" using True by linarith
  ultimately have "(of_char (upper_char c) :: nat) = of_char c - 32"
    by (simp add: upper_char_def)
  with True have "\<not> 97 \<le> (of_char (upper_char c) :: nat)" by linarith
  then show ?thesis by (simp add: upper_char_def[of "upper_char c"])
next
  case False
  then show ?thesis by (auto simp: upper_char_def)
qed

lemma upper_idem [simp]: "upper (upper s) = upper s"
  by (simp add: upper_def)

lemma split_on_nonempty: "split_on sep s \<noteq> []"
  by (induction s) (auto split: list.splits)

lemma split_on_no_sep: "sep \<notin> set s \<Longrightarrow> split_on sep s = [s]"
  by (induction s) auto

lemma split_on_append:
  assumes "sep \<notin> set s"
  shows "split_on sep (s @ sep # t) = s # split_on sep t"
  using assms by (induction s) auto

lemma rsplit1_append:
  assumes "sep \<notin> set t"
  shows "rsplit1 sep (s @ sep # t) = [s, t]"
proof -
  have "takeWhile (\<lambda>c. c \<noteq> sep) (rev t @ sep # rev s) = rev t"
    using assms by (subst takeWhile_append2) auto
  then show ?thesis by (simp add: rsplit1_def Let_def)
qed

lemma sep_cancel:
  assumes "sep \<notin> set a" and "sep \<notin> set b"
  shows "a @ sep # s = b @ sep # t \<longleftrightarrow> a = b \<and> s = t"
  using assms
proof (induction a arbitrary: b)
  case Nil
  then show ?case by (cases b) auto
next
  case (Cons x a)
  then show ?case by (cases b) auto
qed

lemma starts_with_iff: "starts_with p s \<longleftrightarrow> (\<exists>r. s = p @ r)"
proof
  assume "starts_with p s"
  then have "s = p @ drop (length p) s" by (metis starts_with_def append_take_drop_id)
  then show "\<exists>r. s = p @ r" by blast
qed (auto simp: starts_with_def)

lemma starts_with_field:
  assumes "sep \<notin> set p" and "sep \<notin> set a"
  shows "starts_with (p @ [sep]) (a @ sep # s) \<longleftrightarrow> p = a"
  using assms by (auto simp: starts_with_iff sep_cancel)

end
