(* ===== verification/Costs.thy ===== *)
theory Costs
  imports Decimal28 PyText
begin

text \<open>
  The transaction cost model of \<open>app/domain/execution/costs.py\<close>: the rates, the costs of a
  fill and the execution price with slippage. The section at the end collects what the sizing
  and execution components rely on.
\<close>

record cost_breakdown =
  commission :: dec
  stamp_duty :: dec
  transfer_fee :: dec
  regulatory_fee :: dec
  handling_fee :: dec

definition cost_total :: "cost_breakdown \<Rightarrow> dec" where
  "cost_total c = dadd (dadd (dadd (dadd (commission c) (stamp_duty c)) (transfer_fee c))
     (regulatory_fee c)) (handling_fee c)"

record cost_model =
  commission_rate :: dec
  minimum_commission :: dec
  sell_stamp_duty_rate :: dec
  transfer_fee_rate :: dec
  regulatory_fee_rate :: dec
  handling_fee_rate :: dec
  commission_includes_regulatory :: bool
  commission_includes_handling :: bool
  slippage_buy :: dec
  slippage_sell :: dec
  cost_version :: string

definition default_cost_model :: cost_model where
  "default_cost_model = \<lparr>commission_rate = 3/10000, minimum_commission = 5,
     sell_stamp_duty_rate = 5/10000, transfer_fee_rate = 1/100000,
     regulatory_fee_rate = 0, handling_fee_rate = 0,
     commission_includes_regulatory = True, commission_includes_handling = True,
     slippage_buy = 2/1000, slippage_sell = 2/1000, cost_version = ''cost-v1''\<rparr>"

text \<open>A configuration entry; the text of a decimal is represented by its value, and a stored configuration holds another.\<close>

datatype config_value = CfgText string | CfgDecimal dec | CfgBool bool | CfgEntries "(string \<times> config_value) list"

definition configuration :: "cost_model \<Rightarrow> (string, config_value) dict" where
  "configuration m =
     [(''version'', CfgText (cost_version m)),
      (''commission_rate'', CfgDecimal (commission_rate m)),
      (''minimum_commission'', CfgDecimal (minimum_commission m)),
      (''sell_stamp_duty_rate'', CfgDecimal (sell_stamp_duty_rate m)),
      (''transfer_fee_rate'', CfgDecimal (transfer_fee_rate m)),
      (''regulatory_fee_rate'', CfgDecimal (regulatory_fee_rate m)),
      (''handling_fee_rate'', CfgDecimal (handling_fee_rate m)),
      (''commission_includes_regulatory'', CfgBool (commission_includes_regulatory m)),
      (''commission_includes_handling'', CfgBool (commission_includes_handling m)),
      (''slippage_buy'', CfgDecimal (slippage_buy m)),
      (''slippage_sell'', CfgDecimal (slippage_sell m))]"

text \<open>\<open>digest\<close> is SHA-256 over the sorted JSON text of the configuration.\<close>

definition configuration_hash :: "((string, config_value) dict \<Rightarrow> string) \<Rightarrow> cost_model \<Rightarrow> string" where
  "configuration_hash digest m = digest (configuration m)"

definition execution_price :: "cost_model \<Rightarrow> string \<Rightarrow> dec \<Rightarrow> dec" where
  "execution_price m side open_price =
     (let slippage = (if upper side = ''BUY'' then slippage_buy m else slippage_sell m);
          direction = (if upper side = ''BUY'' then 1 else - 1)
      in dmul open_price (dadd 1 (dmul direction slippage)))"

definition calculate :: "cost_model \<Rightarrow> string \<Rightarrow> int \<Rightarrow> dec \<Rightarrow> cost_breakdown res" where
  "calculate m side quantity price =
     (if upper side \<notin> {''BUY'', ''SELL''} \<or> quantity < 0 \<or> price < 0
      then Inl (ValueError ''quantity and price cannot be negative'')
      else let notional = dmul price (of_int quantity);
               comm = max (dmul notional (commission_rate m)) (minimum_commission m);
               stamp = (if upper side = ''SELL'' then dmul notional (sell_stamp_duty_rate m) else 0);
               transfer = dmul notional (transfer_fee_rate m);
               regulatory = (if commission_includes_regulatory m then 0
                             else dmul notional (regulatory_fee_rate m));
               handling = (if commission_includes_handling m then 0
                           else dmul notional (handling_fee_rate m))
        in Inr \<lparr>commission = comm, stamp_duty = stamp, transfer_fee = transfer,
                regulatory_fee = regulatory, handling_fee = handling\<rparr>)"

section \<open>Costs are bounded below by the minimum commission\<close>

text \<open>The rates of a cost model: none is negative, and the minimum is a decimal.\<close>

definition rates_ok :: "cost_model \<Rightarrow> bool" where
  "rates_ok m \<longleftrightarrow> 0 \<le> commission_rate m \<and> 0 \<le> minimum_commission m \<and>
     dec28 (minimum_commission m) \<and> 0 \<le> sell_stamp_duty_rate m \<and> 0 \<le> transfer_fee_rate m \<and>
     0 \<le> regulatory_fee_rate m \<and> 0 \<le> handling_fee_rate m \<and>
     0 \<le> slippage_buy m \<and> 0 \<le> slippage_sell m \<and> slippage_sell m \<le> 1"

lemma rates_ok_default: "rates_ok default_cost_model"
  using dec28_of_int[of 5] by (simp add: rates_ok_def default_cost_model_def)

lemma calculate_defined:
  "(\<exists>c. calculate m side q p = Inr c) \<longleftrightarrow> upper side \<in> {''BUY'', ''SELL''} \<and> 0 \<le> q \<and> 0 \<le> p"
  by (auto simp: calculate_def Let_def)

lemma calculate_InrD:
  assumes "calculate m side q p = Inr c"
  shows "commission c = max (dmul (dmul p (of_int q)) (commission_rate m)) (minimum_commission m)"
    and "stamp_duty c = (if upper side = ''SELL''
           then dmul (dmul p (of_int q)) (sell_stamp_duty_rate m) else 0)"
    and "transfer_fee c = dmul (dmul p (of_int q)) (transfer_fee_rate m)"
    and "regulatory_fee c = (if commission_includes_regulatory m then 0
           else dmul (dmul p (of_int q)) (regulatory_fee_rate m))"
    and "handling_fee c = (if commission_includes_handling m then 0
           else dmul (dmul p (of_int q)) (handling_fee_rate m))"
    and "0 \<le> q" and "0 \<le> p" and "upper side \<in> {''BUY'', ''SELL''}"
proof -
  have ok: "upper side \<in> {''BUY'', ''SELL''}" "0 \<le> q" "0 \<le> p"
    using assms by (auto simp: calculate_def split: if_splits)
  then show "0 \<le> q" "0 \<le> p" "upper side \<in> {''BUY'', ''SELL''}" by auto
  have c: "c = \<lparr>commission = max (dmul (dmul p (of_int q)) (commission_rate m)) (minimum_commission m),
      stamp_duty = (if upper side = ''SELL''
           then dmul (dmul p (of_int q)) (sell_stamp_duty_rate m) else 0),
      transfer_fee = dmul (dmul p (of_int q)) (transfer_fee_rate m),
      regulatory_fee = (if commission_includes_regulatory m then 0
           else dmul (dmul p (of_int q)) (regulatory_fee_rate m)),
      handling_fee = (if commission_includes_handling m then 0
           else dmul (dmul p (of_int q)) (handling_fee_rate m))\<rparr>"
    using assms ok by (simp only: calculate_def Let_def) (simp add: not_less)
  show "commission c = max (dmul (dmul p (of_int q)) (commission_rate m)) (minimum_commission m)"
    "stamp_duty c = (if upper side = ''SELL''
           then dmul (dmul p (of_int q)) (sell_stamp_duty_rate m) else 0)"
    "transfer_fee c = dmul (dmul p (of_int q)) (transfer_fee_rate m)"
    "regulatory_fee c = (if commission_includes_regulatory m then 0
           else dmul (dmul p (of_int q)) (regulatory_fee_rate m))"
    "handling_fee c = (if commission_includes_handling m then 0
           else dmul (dmul p (of_int q)) (handling_fee_rate m))"
    unfolding c by simp_all
qed

lemma calculate_parts:
  assumes "rates_ok m" and "calculate m side q p = Inr c"
  shows "minimum_commission m \<le> commission c" "dec28 (commission c)" "0 \<le> stamp_duty c"
    "0 \<le> transfer_fee c" "0 \<le> regulatory_fee c" "0 \<le> handling_fee c"
proof -
  note c = calculate_InrD[OF assms(2)]
  have n: "0 \<le> dmul p (of_int q)" using c(6,7) by (intro dmul_nonneg) auto
  show "minimum_commission m \<le> commission c" unfolding c(1) by simp
  show "dec28 (commission c)" unfolding c(1) using assms(1) by (simp add: max_def rates_ok_def)
  show "0 \<le> stamp_duty c" "0 \<le> transfer_fee c" "0 \<le> regulatory_fee c" "0 \<le> handling_fee c"
    unfolding c(2-5) using n assms(1) by (auto simp: rates_ok_def intro: dmul_nonneg)
qed

lemma cost_total_ge_commission:
  assumes "dec28 (commission c)" and "0 \<le> stamp_duty c" "0 \<le> transfer_fee c"
    "0 \<le> regulatory_fee c" "0 \<le> handling_fee c"
  shows "commission c \<le> cost_total c"
proof -
  have "commission c \<le> dadd (commission c) (stamp_duty c)" by (intro dadd_ge_left assms)
  also have "\<dots> \<le> dadd (dadd (commission c) (stamp_duty c)) (transfer_fee c)"
    by (intro dadd_ge_left assms) simp
  also have "\<dots> \<le> dadd (dadd (dadd (commission c) (stamp_duty c)) (transfer_fee c)) (regulatory_fee c)"
    by (intro dadd_ge_left assms) simp
  also have "\<dots> \<le> cost_total c" unfolding cost_total_def by (intro dadd_ge_left assms) simp
  finally show ?thesis .
qed

lemma calculate_total_ge:
  assumes "rates_ok m" and "calculate m side q p = Inr c"
  shows "minimum_commission m \<le> cost_total c" and "0 \<le> cost_total c"
proof -
  show "minimum_commission m \<le> cost_total c"
    using calculate_parts[OF assms] cost_total_ge_commission[of c] by linarith
  then show "0 \<le> cost_total c" using assms(1) by (simp add: rates_ok_def)
qed

lemma dec28_cost_total [simp]: "dec28 (cost_total c)"
  by (simp add: cost_total_def)

text \<open>More shares never cost less.\<close>

lemma calculate_mono:
  assumes "rates_ok m" and "q \<le> q'"
    and "calculate m side q p = Inr c" and "calculate m side q' p = Inr c'"
  shows "cost_total c \<le> cost_total c'"
proof -
  note p = calculate_InrD(7)[OF assms(3)]
  have n: "dmul p (of_int q) \<le> dmul p (of_int q')"
    using p assms(2) by (auto simp: dmul_def intro!: drnd_mono mult_left_mono)
  then have r: "0 \<le> x \<Longrightarrow> dmul (dmul p (of_int q)) x \<le> dmul (dmul p (of_int q')) x" for x
    by (auto simp: dmul_def[of _ x] intro!: drnd_mono mult_right_mono)
  note a = calculate_InrD(1-5)[OF assms(3)] and b = calculate_InrD(1-5)[OF assms(4)]
  have "commission c \<le> commission c'" unfolding a(1) b(1)
    using r assms(1) by (intro max.mono) (auto simp: rates_ok_def)
  moreover have "stamp_duty c \<le> stamp_duty c'" "transfer_fee c \<le> transfer_fee c'"
    "regulatory_fee c \<le> regulatory_fee c'" "handling_fee c \<le> handling_fee c'"
    unfolding a(2-5) b(2-5) using r assms(1) by (auto simp: rates_ok_def)
  ultimately show ?thesis unfolding cost_total_def by (intro dadd_mono)
qed

section \<open>Slippage moves the price against the order\<close>

lemma execution_price_buy_ge:
  assumes "rates_ok m" and "upper side = ''BUY''" and "dec28 p" and "0 \<le> p"
  shows "p \<le> execution_price m side p"
proof -
  have "0 \<le> dmul 1 (slippage_buy m)" using assms(1) by (intro dmul_nonneg) (auto simp: rates_ok_def)
  then have "1 \<le> dadd 1 (dmul 1 (slippage_buy m))"
    using dec28_of_int[of 1] by (intro dadd_ge_left) auto
  then have "p * 1 \<le> p * dadd 1 (dmul 1 (slippage_buy m))" using assms(4) by (rule mult_left_mono)
  then show ?thesis
    using d28.fits_le_rnd[OF assms(3)] assms(2) by (simp add: execution_price_def dmul_def[of p])
qed

lemma execution_price_sell_le:
  assumes "rates_ok m" and "upper side \<noteq> ''BUY''" and "dec28 p" and "0 \<le> p"
  shows "execution_price m side p \<le> p" and "0 \<le> execution_price m side p"
proof -
  let ?s = "dmul (- 1) (slippage_sell m)"
  have s: "?s = - drnd (slippage_sell m)" by (simp add: dmul_def)
  have one: "dec28 1" using dec28_of_int[of 1] by simp
  have r: "0 \<le> drnd (slippage_sell m)" "drnd (slippage_sell m) \<le> 1"
    using assms(1) d28.rnd_le_fits[OF _ one] by (auto simp: rates_ok_def intro: drnd_nonneg)
  have f: "dadd 1 ?s \<le> 1" "0 \<le> dadd 1 ?s"
    unfolding s dadd_def using r one by (auto intro!: d28.rnd_le_fits drnd_nonneg)
  have "p * dadd 1 ?s \<le> p * 1" using f(1) assms(4) by (rule mult_left_mono)
  then show "execution_price m side p \<le> p"
    using d28.rnd_le_fits[OF _ assms(3)] assms(2) by (simp add: execution_price_def dmul_def[of p])
  show "0 \<le> execution_price m side p"
    using f(2) assms(2,4) by (auto simp: execution_price_def dmul_def[of p] intro!: drnd_nonneg)
qed

section \<open>Properties\<close>

text \<open>
  Every calculated cost is at least the minimum commission and grows with the quantity: with
  non-negative rates, whenever the costs of two quantities of one side and price are defined, the
  total is never below the minimum commission and the larger quantity never costs less.
\<close>

theorem costs_floor_and_monotone:
  assumes "rates_ok m" and "q \<le> q'"
    and "calculate m side q p = Inr c" and "calculate m side q' p = Inr c'"
  shows "minimum_commission m \<le> cost_total c \<and> cost_total c \<le> cost_total c'"
  using calculate_total_ge(1)[OF assms(1,3)] calculate_mono[OF assms] by blast

lemma costs_floor_and_monotone_witness:
  "\<exists>c c'. calculate default_cost_model ''SELL'' 100 10 = Inr c \<and>
     calculate default_cost_model ''SELL'' 2000 10 = Inr c' \<and>
     5 \<le> cost_total c \<and> cost_total c \<le> cost_total c'"
proof -
  obtain c c' where c: "calculate default_cost_model ''SELL'' 100 10 = Inr c"
    "calculate default_cost_model ''SELL'' 2000 10 = Inr c'"
    using calculate_defined[of default_cost_model "''SELL''" 100 10]
      calculate_defined[of default_cost_model "''SELL''" 2000 10]
    by auto
  from costs_floor_and_monotone[OF rates_ok_default _ c] c show ?thesis
    by (simp add: default_cost_model_def)
qed

end
