(* ===== verification/Timestamps.thy ===== *)
theory Timestamps
  imports Decimal28
begin

text \<open>
  Python's \<open>date\<close> and \<open>datetime\<close> as far as the program uses them, and the causality helpers
  of \<open>app/domain/causality.py\<close>. A date is its proleptic ordinal (\<open>date.toordinal\<close>), so
  comparison and subtraction of dates are those of the ordinals. A datetime is the reading of
  its local clock in microseconds since ordinal 0 and, when it is timezone-aware, its UTC offset
  in microseconds.
\<close>

section \<open>Dates\<close>

type_synonym date = int

definition days_before_year :: "int \<Rightarrow> int" where
  "days_before_year y = (y - 1) * 365 + (y - 1) div 4 - (y - 1) div 100 + (y - 1) div 400"

definition days_before_month :: "bool \<Rightarrow> int \<Rightarrow> int" where
  "days_before_month leap m =
     (if m \<le> 1 then 0 else if m = 2 then 31
      else (if m = 3 then 59 else if m = 4 then 90 else if m = 5 then 120 else if m = 6 then 151
        else if m = 7 then 181 else if m = 8 then 212 else if m = 9 then 243
        else if m = 10 then 273 else if m = 11 then 304 else 334) + (if leap then 1 else 0))"

definition is_leap :: "int \<Rightarrow> bool" where
  "is_leap y \<longleftrightarrow> y mod 4 = 0 \<and> (y mod 100 \<noteq> 0 \<or> y mod 400 = 0)"

definition ymd_to_ord :: "int \<times> int \<times> int \<Rightarrow> date" where
  "ymd_to_ord = (\<lambda>(y, m, d). days_before_year y + days_before_month (is_leap y) m + d)"

definition month_at :: "bool \<Rightarrow> int \<Rightarrow> int" where
  "month_at leap n =
     (if n < 31 then 1 else if n < days_before_month leap 3 then 2
      else if n < days_before_month leap 4 then 3 else if n < days_before_month leap 5 then 4
      else if n < days_before_month leap 6 then 5 else if n < days_before_month leap 7 then 6
      else if n < days_before_month leap 8 then 7 else if n < days_before_month leap 9 then 8
      else if n < days_before_month leap 10 then 9 else if n < days_before_month leap 11 then 10
      else if n < days_before_month leap 12 then 11 else 12)"

definition ord_to_ymd :: "date \<Rightarrow> int \<times> int \<times> int" where
  "ord_to_ymd ord =
     (let n = ord - 1; n400 = n div 146097; n = n mod 146097;
          n100 = n div 36524; n = n mod 36524;
          n4 = n div 1461; n = n mod 1461;
          n1 = n div 365; n = n mod 365;
          y = n400 * 400 + 1 + n100 * 100 + n4 * 4 + n1
      in if n1 = 4 \<or> n100 = 4 then (y - 1, 12, 31)
         else let leap = (n1 = 3 \<and> (n4 \<noteq> 24 \<or> n100 = 3)); m = month_at leap n
           in (y, m, n - days_before_month leap m + 1))"

lemma mod_last: "0 \<le> t \<Longrightarrow> t < m \<Longrightarrow> (k * m + t + 1) mod m = (0::int) \<longleftrightarrow> t = m - 1"
proof -
  assume t: "0 \<le> t" "t < m"
  have "(k * m + t + 1) mod m = (t + 1) mod m"
    using mod_mult_self3[of k m "t + 1"] by (simp only: add.assoc)
  also have "\<dots> = 0 \<longleftrightarrow> t = m - 1"
    using t by (cases "t + 1 = m") (auto simp: mod_pos_pos_trivial)
  finally show ?thesis .
qed

lemma year_days:
  assumes "0 \<le> a" "a < 4" "0 \<le> b" "b < 25" "0 \<le> c" "c < 4"
  shows "days_before_year (n400 * 400 + 1 + a * 100 + b * 4 + c) =
         n400 * 146097 + a * 36524 + b * 1461 + c * 365"
    and "is_leap (n400 * 400 + 1 + a * 100 + b * 4 + c) \<longleftrightarrow> c = 3 \<and> (b \<noteq> 24 \<or> a = 3)"
proof -
  let ?z = "n400 * 400 + a * 100 + b * 4 + c"
  have d4: "?z div 4 = n400 * 100 + a * 25 + b"
    by (rule int_div_pos_eq[of _ _ _ c]) (use assms in simp_all)
  have d100: "?z div 100 = n400 * 4 + a"
    by (rule int_div_pos_eq[of _ _ _ "b * 4 + c"]) (use assms in simp_all)
  have d400: "?z div 400 = n400"
    by (rule int_div_pos_eq[of _ _ _ "a * 100 + b * 4 + c"]) (use assms in simp_all)
  note d = d4 d100 d400
  show "days_before_year (n400 * 400 + 1 + a * 100 + b * 4 + c) =
         n400 * 146097 + a * 36524 + b * 1461 + c * 365"
    unfolding days_before_year_def using d by (simp add: algebra_simps)
  show "is_leap (n400 * 400 + 1 + a * 100 + b * 4 + c) \<longleftrightarrow> c = 3 \<and> (b \<noteq> 24 \<or> a = 3)"
  proof -
    have "(n400 * 400 + 1 + a * 100 + b * 4 + c) mod 4 = 0 \<longleftrightarrow> c = 3"
      using mod_last[of c 4 "n400 * 100 + a * 25 + b"] assms by (simp add: algebra_simps)
    moreover have "(n400 * 400 + 1 + a * 100 + b * 4 + c) mod 100 = 0 \<longleftrightarrow> b * 4 + c = 99"
      using mod_last[of "b * 4 + c" 100 "n400 * 4 + a"] assms by (simp add: algebra_simps)
    moreover have "(n400 * 400 + 1 + a * 100 + b * 4 + c) mod 400 = 0 \<longleftrightarrow> a * 100 + b * 4 + c = 399"
      using mod_last[of "a * 100 + b * 4 + c" 400 n400] assms by (simp add: algebra_simps)
    ultimately show ?thesis unfolding is_leap_def using assms by auto
  qed
qed

lemma ymd_to_ord_of_ord: "ymd_to_ord (ord_to_ymd n) = n"
proof -
  define n400 r400 where "n400 = (n - 1) div 146097" and "r400 = (n - 1) mod 146097"
  define n100 r100 where "n100 = r400 div 36524" and "r100 = r400 mod 36524"
  define n4 r4 where "n4 = r100 div 1461" and "r4 = r100 mod 1461"
  define n1 r where "n1 = r4 div 365" and "r = r4 mod 365"
  note defs = n400_def r400_def n100_def r100_def n4_def r4_def n1_def r_def
  have split: "n = n400 * 146097 + n100 * 36524 + n4 * 1461 + n1 * 365 + r + 1"
    using div_mult_mod_eq[of "n - 1" 146097] div_mult_mod_eq[of r400 36524]
      div_mult_mod_eq[of r100 1461] div_mult_mod_eq[of r4 365] unfolding defs by linarith
  have rng: "0 \<le> n100" "n100 \<le> 4" "0 \<le> n4" "n4 \<le> 24" "0 \<le> n1" "n1 \<le> 4" "0 \<le> r" "r < 365"
    "0 \<le> r400" "r400 < 146097" "0 \<le> r100" "r100 < 36524" "0 \<le> r4" "r4 < 1461"
    unfolding defs by (auto simp: div_int_pos_iff intro: pos_mod_sign pos_mod_bound)
  have e: "r400 = n100 * 36524 + r100" "r100 = n4 * 1461 + r4" "r4 = n1 * 365 + r"
    using div_mult_mod_eq[of r400 36524] div_mult_mod_eq[of r100 1461] div_mult_mod_eq[of r4 365]
    unfolding n100_def r100_def n4_def r4_def n1_def r_def by linarith+
  have z1: "n1 = 4 \<Longrightarrow> r = 0" using rng e by linarith
  have "n100 = 4 \<Longrightarrow> r100 = 0" using rng e by linarith
  then have z100: "n100 = 4 \<Longrightarrow> n4 = 0 \<and> n1 = 0 \<and> r = 0"
    using rng e by (metis add_nonneg_eq_0_iff mult_eq_0_iff mult_nonneg_nonneg
        zero_le_numeral zero_neq_numeral)
  show ?thesis
  proof (cases "n1 = 4 \<or> n100 = 4")
    case True
    have o: "ord_to_ymd n = (n400 * 400 + n100 * 100 + n4 * 4 + n1, 12, 31)"
      using True unfolding ord_to_ymd_def Let_def defs [symmetric] by simp
    show ?thesis
    proof (cases "n100 = 4")
      case a: True
      have y: "n400 * 400 + n100 * 100 + n4 * 4 + n1 = n400 * 400 + 1 + 3 * 100 + 24 * 4 + 3"
        using a z100 by simp
      show ?thesis unfolding o y ymd_to_ord_def using year_days[of 3 24 3 n400] split a z100
        by (simp add: days_before_month_def)
    next
      case b: False
      with True have c: "n1 = 4" "r = 0" using z1 by auto
      have y: "n400 * 400 + n100 * 100 + n4 * 4 + n1 = n400 * 400 + 1 + n100 * 100 + n4 * 4 + 3"
        using c by simp
      have "n4 \<noteq> 24 \<or> n100 = 3"
        using c rng e by auto
      then show ?thesis unfolding o y ymd_to_ord_def
        using year_days[of n100 n4 3 n400] split b c rng by (simp add: days_before_month_def)
    qed
  next
    case False
    let ?l = "n1 = 3 \<and> (n4 \<noteq> 24 \<or> n100 = 3)"
    have o: "ord_to_ymd n = (n400 * 400 + 1 + n100 * 100 + n4 * 4 + n1, month_at ?l r,
        r - days_before_month ?l (month_at ?l r) + 1)"
      using False unfolding ord_to_ymd_def Let_def defs [symmetric] by simp
    show ?thesis unfolding o ymd_to_ord_def
      using year_days[of n100 n4 n1 n400] split False rng by simp
  qed
qed

section \<open>ISO strings\<close>

definition digit_char :: "nat \<Rightarrow> char" where
  "digit_char k = char_of (48 + k)"

fun nat_str :: "nat \<Rightarrow> string" where
  "nat_str n = (if n < 10 then [digit_char n] else nat_str (n div 10) @ [digit_char (n mod 10)])"

declare nat_str.simps [simp del]

definition int_str :: "int \<Rightarrow> string" where
  "int_str i = (if i < 0 then ''-'' @ nat_str (nat (- i)) else nat_str (nat i))"

definition pad0 :: "nat \<Rightarrow> string \<Rightarrow> string" where
  "pad0 w s = replicate (w - length s) CHR ''0'' @ s"

text \<open>\<open>date.isoformat()\<close> and \<open>strftime("%Y-%m")\<close>, \<open>strftime("%Y")\<close>.\<close>

definition isoformat :: "date \<Rightarrow> string" where
  "isoformat d = (case ord_to_ymd d of (y, m, dd) \<Rightarrow>
     pad0 4 (int_str y) @ ''-'' @ pad0 2 (int_str m) @ ''-'' @ pad0 2 (int_str dd))"

definition year_month :: "date \<Rightarrow> int \<times> int" where
  "year_month d = (case ord_to_ymd d of (y, m, dd) \<Rightarrow> (y, m))"

definition year_key :: "date \<Rightarrow> string" where
  "year_key d = pad0 4 (int_str (fst (year_month d)))"

definition month_key :: "date \<Rightarrow> string" where
  "month_key d = year_key d @ ''-'' @ pad0 2 (int_str (snd (year_month d)))"

section \<open>Datetimes and causality\<close>

record datetime =
  wall :: int
  utcoff :: "int option"

definition day_us :: int where "day_us = 86400000000"

text \<open>\<open>datetime.date()\<close> reads the local clock, whatever the offset.\<close>

definition dt_date :: "datetime \<Rightarrow> date" where
  "dt_date t = wall t div day_us"

definition is_naive :: "datetime \<Rightarrow> bool" where
  "is_naive t \<longleftrightarrow> utcoff t = None"

definition as_utc :: "datetime \<Rightarrow> datetime" where
  "as_utc t = (case utcoff t of
       None \<Rightarrow> t\<lparr>utcoff := Some 0\<rparr>
     | Some off \<Rightarrow> t\<lparr>wall := wall t - off, utcoff := Some 0\<rparr>)"

text \<open>Aware datetimes compare by the instant they denote.\<close>

definition instant :: "datetime \<Rightarrow> int" where
  "instant t = wall t - (case utcoff t of None \<Rightarrow> 0 | Some off \<Rightarrow> off)"

definition dt_le :: "datetime \<Rightarrow> datetime \<Rightarrow> bool" where
  "dt_le a b \<longleftrightarrow> instant a \<le> instant b"

text \<open>\<open>a == b\<close> on datetimes: a naive and an aware one are never equal.\<close>

definition dt_eq :: "datetime \<Rightarrow> datetime \<Rightarrow> bool" where
  "dt_eq a b \<longleftrightarrow> is_naive a = is_naive b \<and> instant a = instant b"

lemma dt_eq_refl [simp]: "dt_eq a a"
  by (simp add: dt_eq_def)

lemma dt_eq_sym: "dt_eq a b \<longleftrightarrow> dt_eq b a"
  by (auto simp: dt_eq_def)

definition available_at_or_before :: "datetime option \<Rightarrow> datetime option \<Rightarrow> bool" where
  "available_at_or_before available_at cutoff =
     (case cutoff of
        None \<Rightarrow> True
      | Some c \<Rightarrow> (case available_at of None \<Rightarrow> False | Some a \<Rightarrow> dt_le (as_utc a) (as_utc c)))"

lemma instant_as_utc [simp]: "instant (as_utc t) = instant t"
  by (simp add: instant_def as_utc_def split: option.splits)

lemma as_utc_idem [simp]: "as_utc (as_utc t) = as_utc t"
  by (simp add: as_utc_def split: option.splits)

lemma as_utc_aware [simp]: "\<not> is_naive (as_utc t)"
  by (simp add: as_utc_def is_naive_def split: option.splits)

lemma available_iff:
  "available_at_or_before a (Some c) \<longleftrightarrow> (\<exists>t. a = Some t \<and> instant t \<le> instant c)"
  by (auto simp: available_at_or_before_def dt_le_def split: option.splits)

lemma available_no_cutoff [simp]: "available_at_or_before a None"
  by (simp add: available_at_or_before_def)

lemma available_mono:
  "available_at_or_before a (Some c) \<Longrightarrow> instant c \<le> instant c' \<Longrightarrow> available_at_or_before a (Some c')"
  by (auto simp: available_iff)

end
