(* ===== verification/Simulator.thy ===== *)
theory Simulator
  imports Costs Timestamps
begin

text \<open>
  The next-open execution simulator of \<open>app/domain/execution/simulator.py\<close>: market bars,
  orders, fills, and \<open>ExecutionSimulator.execute\<close>, branch by branch in the order of the code.
\<close>

record market_bar =
  mb_symbol :: string
  mb_date :: date
  mb_open :: "dec option"
  mb_low :: "dec option"
  mb_high :: "dec option"
  mb_close :: "dec option"
  mb_suspended :: bool
  limit_up :: bool
  limit_down :: bool
  limit_status_known :: bool
  close_limit_up :: "bool option"
  close_limit_down :: "bool option"
  mb_available_quantity :: "int option"
  mb_amount :: "dec option"
  mb_available_at :: "datetime option"
  mb_st :: bool
  mb_delisted :: bool
  mb_industry :: "string option"
  mb_list_date :: "date option"
  security_type :: "string option"
  board :: "string option"
  universe_eligible :: "bool option"

record order =
  o_side :: string
  o_symbol :: string
  o_quantity :: int
  o_fill_mode :: string
  o_signal_date :: "date option"
  o_industry :: "string option"
  o_reasons :: "string list"

record fill =
  f_status :: string
  f_side :: string
  f_symbol :: string
  f_quantity :: int
  f_price :: "dec option"
  f_costs :: "cost_breakdown option"
  f_reason :: "string option"
  f_unfilled :: int
  f_execution_date :: "date option"
  f_signal_date :: "date option"
  f_industry :: "string option"
  f_reasons :: "string list"

definition unfilled :: "string \<Rightarrow> order \<Rightarrow> string \<Rightarrow> string list \<Rightarrow> fill" where
  "unfilled side ord reason reasons =
     \<lparr>f_status = ''UNFILLED'', f_side = side, f_symbol = o_symbol ord, f_quantity = 0,
      f_price = None, f_costs = None, f_reason = Some reason, f_unfilled = o_quantity ord,
      f_execution_date = None, f_signal_date = None, f_industry = None, f_reasons = reasons\<rparr>"

definition fill_available :: "order \<Rightarrow> market_bar \<Rightarrow> int" where
  "fill_available ord bar = (case mb_available_quantity bar of
     None \<Rightarrow> o_quantity ord | Some a \<Rightarrow> min (o_quantity ord) a)"

text \<open>The part of \<open>execute\<close> after the tradability checks: price range, quantity, costs.\<close>

definition execute_at ::
    "cost_model \<Rightarrow> order \<Rightarrow> market_bar \<Rightarrow> string \<Rightarrow> dec \<Rightarrow> dec \<Rightarrow> dec \<Rightarrow> fill res" where
  "execute_at m ord bar side open_price low high =
     (let price = execution_price m side open_price in
      if price < low \<or> price > high then Inr (unfilled side ord ''OUT_OF_RANGE'' [])
      else let available = fill_available ord bar in
        if available < o_quantity ord \<and> upper (o_fill_mode ord) \<noteq> ''PARTIAL''
        then Inr (unfilled side ord ''FULL_OR_NONE'' [])
        else andThen (calculate m side available price) (\<lambda>costs.
          Inr \<lparr>f_status = (if available = o_quantity ord then ''FILLED'' else ''PARTIALLY_FILLED''),
            f_side = side, f_symbol = o_symbol ord, f_quantity = available, f_price = Some price,
            f_costs = Some costs, f_reason = None, f_unfilled = o_quantity ord - available,
            f_execution_date = None, f_signal_date = None, f_industry = None, f_reasons = []\<rparr>))"

definition execute :: "cost_model \<Rightarrow> order \<Rightarrow> market_bar \<Rightarrow> fill res" where
  "execute m ord bar =
     (let side = upper (o_side ord) in
      if side \<notin> {''BUY'', ''SELL''} \<or> o_quantity ord \<le> 0
      then Inl (ValueError ''order must have a positive quantity and BUY or SELL side'')
      else (case (mb_open bar, mb_low bar, mb_high bar) of
        (Some open_price, Some low, Some high) \<Rightarrow>
          if mb_symbol bar \<noteq> o_symbol ord \<or> mb_suspended bar
          then Inr (unfilled side ord ''MISSING_OPEN_OR_SUSPENDED'' [])
          else if \<not> limit_status_known bar
          then Inr (unfilled side ord ''LIMIT_STATUS_UNKNOWN'' (o_reasons ord))
          else if side = ''BUY'' \<and> limit_up bar \<or> side = ''SELL'' \<and> limit_down bar
          then Inr (unfilled side ord ''PRICE_LIMIT'' [])
          else if (case mb_available_quantity bar of None \<Rightarrow> False | Some a \<Rightarrow> a < 0)
          then Inl (ValueError ''available quantity cannot be negative'')
          else execute_at m ord bar side open_price low high
      | _ \<Rightarrow> Inr (unfilled side ord ''MISSING_OPEN_OR_SUSPENDED'' [])))"

section \<open>What an executed fill guarantees\<close>

definition is_executed :: "fill \<Rightarrow> bool" where
  "is_executed f \<longleftrightarrow> f_status f \<in> {''FILLED'', ''PARTIALLY_FILLED''}"

lemma unfilled_simps [simp]:
  "f_status (unfilled s ord r rs) = ''UNFILLED''" "f_quantity (unfilled s ord r rs) = 0"
  "f_unfilled (unfilled s ord r rs) = o_quantity ord" "f_price (unfilled s ord r rs) = None"
  "f_costs (unfilled s ord r rs) = None" "f_symbol (unfilled s ord r rs) = o_symbol ord"
  "f_side (unfilled s ord r rs) = s" "\<not> is_executed (unfilled s ord r rs)"
  by (simp_all add: unfilled_def is_executed_def)

lemma execute_cases:
  assumes "execute m ord bar = Inr f"
  obtains (not_executed) reason rs where "f = unfilled (upper (o_side ord)) ord reason rs"
    | (executed) p lo hi opn costs where
        "mb_open bar = Some opn" "mb_low bar = Some lo" "mb_high bar = Some hi"
        "mb_symbol bar = o_symbol ord" "\<not> mb_suspended bar" "limit_status_known bar"
        "\<not> (upper (o_side ord) = ''BUY'' \<and> limit_up bar)"
        "\<not> (upper (o_side ord) = ''SELL'' \<and> limit_down bar)"
        "p = execution_price m (upper (o_side ord)) opn" "lo \<le> p" "p \<le> hi"
        "0 \<le> fill_available ord bar" "fill_available ord bar \<le> o_quantity ord"
        "fill_available ord bar = o_quantity ord \<or> upper (o_fill_mode ord) = ''PARTIAL''"
        "calculate m (upper (o_side ord)) (fill_available ord bar) p = Inr costs"
        "f_quantity f = fill_available ord bar" "f_price f = Some p" "f_costs f = Some costs"
        "f_unfilled f = o_quantity ord - fill_available ord bar"
        "f_status f = (if fill_available ord bar = o_quantity ord
           then ''FILLED'' else ''PARTIALLY_FILLED'')"
        "f_symbol f = o_symbol ord" "f_side f = upper (o_side ord)"
proof -
  note [split] = if_splits option.splits
  show thesis
  proof (cases "\<exists>reason rs. f = unfilled (upper (o_side ord)) ord reason rs")
    case True
    then show thesis using not_executed by blast
  next
    case False
    then obtain opn lo hi where b: "mb_open bar = Some opn" "mb_low bar = Some lo" "mb_high bar = Some hi"
      and t: "mb_symbol bar = o_symbol ord" "\<not> mb_suspended bar" "limit_status_known bar"
        "\<not> (upper (o_side ord) = ''BUY'' \<and> limit_up bar)"
        "\<not> (upper (o_side ord) = ''SELL'' \<and> limit_down bar)" "0 < o_quantity ord"
        "\<forall>a. mb_available_quantity bar = Some a \<longrightarrow> 0 \<le> a"
      and e: "execute_at m ord bar (upper (o_side ord)) opn lo hi = Inr f"
      using assms by (auto simp: execute_def Let_def not_less)
    have av: "0 \<le> fill_available ord bar" "fill_available ord bar \<le> o_quantity ord"
      using t by (auto simp: fill_available_def)
    from e False obtain costs where
      "lo \<le> execution_price m (upper (o_side ord)) opn" "execution_price m (upper (o_side ord)) opn \<le> hi"
      "\<not> (fill_available ord bar < o_quantity ord \<and> upper (o_fill_mode ord) \<noteq> ''PARTIAL'')"
      and c: "calculate m (upper (o_side ord)) (fill_available ord bar)
        (execution_price m (upper (o_side ord)) opn) = Inr costs"
      and f: "f = \<lparr>f_status = (if fill_available ord bar = o_quantity ord then ''FILLED'' else ''PARTIALLY_FILLED''),
            f_side = upper (o_side ord), f_symbol = o_symbol ord, f_quantity = fill_available ord bar,
            f_price = Some (execution_price m (upper (o_side ord)) opn),
            f_costs = Some costs, f_reason = None, f_unfilled = o_quantity ord - fill_available ord bar,
            f_execution_date = None, f_signal_date = None, f_industry = None, f_reasons = []\<rparr>"
      by (simp only: execute_at_def Let_def) (auto simp: andThen_Inr_iff)
    with b t av show thesis by (intro executed[of opn lo hi _ costs]) auto
  qed
qed

lemma execute_is_executed_iff:
  "execute m ord bar = Inr f \<Longrightarrow> is_executed f \<longleftrightarrow> f_price f \<noteq> None"
  by (erule execute_cases) (auto simp: is_executed_def)

section \<open>Properties\<close>

text \<open>
  C10: A simulated fill that counts as executed had a tradable bar of its own symbol with known
  limit status, no price limit against its side, a slippage-adjusted open price inside the bar's
  range, no more than the available volume, and its executed and unfilled quantities add up to the
  order; part of it is left only when the order asked for partial fills.
\<close>

theorem execute_fill_guarantees:
  assumes "execute m ord bar = Inr f" and "is_executed f"
  shows "\<exists>opn lo hi costs. mb_open bar = Some opn \<and> mb_low bar = Some lo \<and> mb_high bar = Some hi \<and>
    f_price f = Some (execution_price m (f_side f) opn) \<and>
    lo \<le> execution_price m (f_side f) opn \<and> execution_price m (f_side f) opn \<le> hi \<and>
    f_side f = upper (o_side ord) \<and> f_side f \<in> {''BUY'', ''SELL''} \<and>
    f_symbol f = o_symbol ord \<and> mb_symbol bar = o_symbol ord \<and>
    \<not> mb_suspended bar \<and> limit_status_known bar \<and>
    \<not> (f_side f = ''BUY'' \<and> limit_up bar) \<and> \<not> (f_side f = ''SELL'' \<and> limit_down bar) \<and>
    0 \<le> f_quantity f \<and> f_quantity f + f_unfilled f = o_quantity ord \<and> 0 \<le> f_unfilled f \<and>
    (0 < f_unfilled f \<longrightarrow> upper (o_fill_mode ord) = ''PARTIAL'') \<and>
    (\<forall>a. mb_available_quantity bar = Some a \<longrightarrow> f_quantity f \<le> a) \<and>
    f_costs f = Some costs \<and> calculate m (f_side f) (f_quantity f) (the (f_price f)) = Inr costs"
  using assms(1)
proof (cases rule: execute_cases)
  case (not_executed reason rs)
  with assms(2) show ?thesis by simp
next
  case (executed p lo hi opn costs)
  note side = calculate_InrD(8)[OF executed(15)]
  have avail: "\<forall>a. mb_available_quantity bar = Some a \<longrightarrow> fill_available ord bar \<le> a"
    by (auto simp: fill_available_def)
  from executed side avail show ?thesis by (auto simp: executed(16-22))
qed

definition sample_bar :: "dec \<Rightarrow> dec \<Rightarrow> dec \<Rightarrow> market_bar" where
  "sample_bar opn lo hi = \<lparr>mb_symbol = ''600000.SH'', mb_date = 738000, mb_open = Some opn,
     mb_low = Some lo, mb_high = Some hi, mb_close = Some opn, mb_suspended = False,
     limit_up = False, limit_down = False, limit_status_known = True, close_limit_up = Some False,
     close_limit_down = Some False, mb_available_quantity = Some 100, mb_amount = None,
     mb_available_at = None, mb_st = False, mb_delisted = False, mb_industry = None,
     mb_list_date = None, security_type = None, board = None, universe_eligible = Some True\<rparr>"

definition sample_order :: "int \<Rightarrow> string \<Rightarrow> order" where
  "sample_order q mode = \<lparr>o_side = ''BUY'', o_symbol = ''600000.SH'', o_quantity = q,
     o_fill_mode = mode, o_signal_date = None, o_industry = None, o_reasons = []\<rparr>"

lemma sample_execution:
  "execute default_cost_model (sample_order 300 ''PARTIAL'') (sample_bar 10 9 11) =
   Inr \<lparr>f_status = ''PARTIALLY_FILLED'', f_side = ''BUY'', f_symbol = ''600000.SH'',
     f_quantity = 100, f_price = Some (1002/100),
     f_costs = Some \<lparr>commission = 5, stamp_duty = 0, transfer_fee = 1002/100000,
       regulatory_fee = 0, handling_fee = 0\<rparr>,
     f_reason = None, f_unfilled = 200, f_execution_date = None, f_signal_date = None,
     f_industry = None, f_reasons = []\<rparr>"
  by (simp add: execute_def sample_order_def sample_bar_def execute_at_def Let_def
      execution_price_def default_cost_model_def dmul_def dadd_def fill_available_def calculate_def)

lemma execute_fill_guarantees_witness:
  "\<exists>f. execute default_cost_model (sample_order 300 ''PARTIAL'') (sample_bar 10 9 11) = Inr f \<and>
     f_quantity f = 100 \<and> f_unfilled f = 200 \<and> 9 \<le> the (f_price f) \<and> the (f_price f) \<le> 11"
proof -
  let ?bar = "sample_bar 10 9 11"
  have bar: "mb_low ?bar = Some 9" "mb_high ?bar = Some 11" by (simp_all add: sample_bar_def)
  obtain f where f: "execute default_cost_model (sample_order 300 ''PARTIAL'') ?bar = Inr f"
    "is_executed f" "f_quantity f = 100" "f_unfilled f = 200"
    using sample_execution by (auto simp: is_executed_def)
  from execute_fill_guarantees[OF f(1,2)] bar f show ?thesis by (intro exI[of _ f]) auto
qed

end
