(* ===== verification/Metrics.thy ===== *)
theory Metrics
  imports Simulator
begin

text \<open>
  The performance metrics of \<open>app/domain/backtest/metrics.py\<close>: returns and drawdown of an equity
  curve, first-in first-out matching of the fills into closed trades, and the period returns. The
  binary floating point of the Sharpe ratio is the interpreter's: it is a record of operations
  the definitions take as an argument.
\<close>

section \<open>Results and floating point\<close>

text \<open>
  \<open>fl_of_dec\<close> is \<open>float(x)\<close>, \<open>fl_sum\<close> the builtin \<open>sum\<close>, \<open>fl_square\<close> is \<open>x ** 2\<close>, \<open>fl_dec\<close> is
  \<open>Decimal(str(x))\<close>, \<open>fl_is_zero\<close> the negated truth value.
\<close>

record 'f float_ops =
  fl_of_dec :: "dec \<Rightarrow> 'f"
  fl_of_nat :: "nat \<Rightarrow> 'f"
  fl_sum :: "'f list \<Rightarrow> 'f"
  fl_sub :: "'f \<Rightarrow> 'f \<Rightarrow> 'f"
  fl_mul :: "'f \<Rightarrow> 'f \<Rightarrow> 'f"
  fl_div :: "'f \<Rightarrow> 'f \<Rightarrow> 'f"
  fl_square :: "'f \<Rightarrow> 'f"
  fl_sqrt :: "'f \<Rightarrow> 'f"
  fl_is_zero :: "'f \<Rightarrow> bool"
  fl_dec :: "'f \<Rightarrow> dec"

record metrics =
  available :: bool
  reason :: "string option"
  total_return :: "dec option"
  max_drawdown :: "dec option"
  sharpe :: "dec option"
  win_rate :: "dec option"
  profit_loss_ratio :: "dec option"
  average_holding_period :: "dec option"
  turnover :: "dec option"
  total_cost :: "dec option"
  industry_exposure :: "(string \<times> dec) list"
  monthly_returns :: "(string \<times> dec) list"
  yearly_returns :: "(string \<times> dec) list"

definition insufficient :: metrics where
  "insufficient = \<lparr>available = False, reason = Some ''INSUFFICIENT_DATA'', total_return = None,
     max_drawdown = None, sharpe = None, win_rate = None, profit_loss_ratio = None,
     average_holding_period = None, turnover = None, total_cost = None, industry_exposure = [],
     monthly_returns = [], yearly_returns = []\<rparr>"

section \<open>Returns and drawdown of the equity curve\<close>

text \<open>The loop state: the float returns, the peak, the largest drawdown.\<close>

definition curve_step ::
    "'f float_ops \<Rightarrow> 'f list \<times> dec \<times> dec \<Rightarrow> dec \<times> dec \<Rightarrow> ('f list \<times> dec \<times> dec) res" where
  "curve_step fo = (\<lambda>(returns, peak, mdd) (previous, current).
     andThen (ddiv current previous) (\<lambda>q.
       let peak' = max peak current in
       andThen (ddiv (dsub peak' current) peak') (\<lambda>dd.
         Inr (returns @ [fl_of_dec fo (dsub q 1)], peak', max mdd dd))))"

definition sharpe_ratio :: "'f float_ops \<Rightarrow> 'f list \<Rightarrow> dec option" where
  "sharpe_ratio fo returns =
     (let n = fl_of_nat fo (length returns);
          average = fl_div fo (fl_sum fo returns) n;
          variance = fl_div fo (fl_sum fo (map (\<lambda>v. fl_square fo (fl_sub fo v average)) returns)) n
      in if fl_is_zero fo variance then None
         else Some (fl_dec fo (fl_mul fo (fl_div fo average (fl_sqrt fo variance))
                     (fl_sqrt fo (fl_of_nat fo 252)))))"

section \<open>First-in first-out matching\<close>

type_synonym lot = "int \<times> dec \<times> date option"

record trade_stats =
  closed_pnls :: "dec list"
  holding_days :: "dec list"
  lots :: "(string, lot list) dict"
  ts_cost :: dec
  turnover_value :: dec
  industry_notional :: "(string, dec) dict"

definition no_stats :: trade_stats where
  "no_stats = \<lparr>closed_pnls = [], holding_days = [], lots = [], ts_cost = 0, turnover_value = 0,
     industry_notional = []\<rparr>"

definition held_for :: "date option \<Rightarrow> date option \<Rightarrow> dec list" where
  "held_for entry closing = (case (entry, closing) of
     (Some e, Some x) \<Rightarrow> [of_int (x - e)] | _ \<Rightarrow> [])"

text \<open>
  \<open>match_lots sold proceeds closing remaining lots\<close> is the inner loop of a sale of \<open>sold\<close> shares: the
  lots left, the profits of the matched parts and their holding days. A lot that is only partly
  used ends the loop, because then nothing remains to be matched; \<open>matched == lot_quantity\<close> is
  \<open>quantity \<le> remaining\<close>.
\<close>

definition match_one :: "int \<Rightarrow> dec \<Rightarrow> int \<Rightarrow> int \<Rightarrow> dec \<Rightarrow> (dec \<times> dec) res" where
  "match_one sold_quantity proceeds matched quantity cost =
     andThen (ddiv (dmul cost (of_int matched)) (of_int quantity)) (\<lambda>allocated_cost.
     andThen (ddiv (dmul proceeds (of_int matched)) (of_int sold_quantity)) (\<lambda>allocated_proceeds.
       Inr (allocated_cost, dsub allocated_proceeds allocated_cost)))"

fun match_lots ::
    "int \<Rightarrow> dec \<Rightarrow> date option \<Rightarrow> int \<Rightarrow> lot list \<Rightarrow> (lot list \<times> dec list \<times> dec list) res" where
  "match_lots sold_quantity proceeds closing remaining [] = Inr ([], [], [])"
| "match_lots sold_quantity proceeds closing remaining ((quantity, cost, entry) # rest) =
     (if remaining = 0 then Inr ((quantity, cost, entry) # rest, [], [])
      else andThen (match_one sold_quantity proceeds (min remaining quantity) quantity cost)
        (\<lambda>(allocated_cost, pnl).
          if quantity \<le> remaining
          then andThen (match_lots sold_quantity proceeds closing (remaining - quantity) rest)
            (\<lambda>(left, pnls, held). Inr (left, pnl # pnls, held_for entry closing @ held))
          else Inr ((quantity - min remaining quantity, dsub cost allocated_cost, entry) # rest,
                 [pnl], held_for entry closing)))"

definition fill_costs :: "fill \<Rightarrow> dec" where
  "fill_costs f = (case f_costs f of None \<Rightarrow> 0 | Some c \<Rightarrow> cost_total c)"

definition industry_of :: "fill \<Rightarrow> string" where
  "industry_of f = (case f_industry f of None \<Rightarrow> ''UNKNOWN'' | Some i \<Rightarrow> if i = [] then ''UNKNOWN'' else i)"

definition record_buy :: "fill \<Rightarrow> dec \<Rightarrow> dec \<Rightarrow> trade_stats \<Rightarrow> trade_stats" where
  "record_buy f notional costs st =
     st\<lparr>lots := dict_append (f_symbol f) (f_quantity f, dadd notional costs, f_execution_date f) (lots st),
        industry_notional := dict_set (industry_of f)
          (dadd (dict_get (industry_notional st) (industry_of f) 0) notional) (industry_notional st)\<rparr>"

definition record_sell :: "fill \<Rightarrow> dec \<Rightarrow> dec \<Rightarrow> trade_stats \<Rightarrow> trade_stats res" where
  "record_sell f notional costs st =
     (case map_of (lots st) (f_symbol f) of
        None \<Rightarrow> Inr st
      | Some held \<Rightarrow>
          andThen (match_lots (f_quantity f) (dsub notional costs) (f_execution_date f) (f_quantity f) held)
            (\<lambda>(left, pnls, days). Inr (st\<lparr>lots := dict_set (f_symbol f) left (lots st),
               closed_pnls := closed_pnls st @ pnls, holding_days := holding_days st @ days\<rparr>)))"

definition fill_step :: "trade_stats \<Rightarrow> fill \<Rightarrow> trade_stats res" where
  "fill_step st f =
     (case f_price f of
        None \<Rightarrow> Inr st
      | Some price \<Rightarrow>
          if f_quantity f \<le> 0 then Inr st
          else let costs = fill_costs f; notional = dmul price (of_int (f_quantity f));
                   st1 = st\<lparr>ts_cost := dadd (ts_cost st) costs,
                            turnover_value := dadd (turnover_value st) notional\<rparr>
            in if f_status f \<notin> {''FILLED'', ''PARTIALLY_FILLED''} then Inr st1
               else if upper (f_side f) = ''BUY'' then Inr (record_buy f notional costs st1)
               else if upper (f_side f) = ''SELL'' then record_sell f notional costs st1
               else Inr st1)"

section \<open>Aggregation\<close>

definition win_ratio :: "dec list \<Rightarrow> (dec option) res" where
  "win_ratio pnls =
     (if pnls = [] then Inr None
      else andThen (ddiv (of_nat (length (filter (\<lambda>v. v > 0) pnls))) (of_nat (length pnls)))
        (\<lambda>w. Inr (Some w)))"

definition profit_loss :: "dec list \<Rightarrow> (dec option) res" where
  "profit_loss pnls =
     (let wins = filter (\<lambda>v. v > 0) pnls; losses = map dneg (filter (\<lambda>v. v < 0) pnls);
          total_wins = dsum wins; total_losses = dsum losses
      in if wins \<noteq> [] \<and> losses \<noteq> [] \<and> total_losses \<noteq> 0
         then andThen (ddiv total_wins (of_nat (length wins))) (\<lambda>a.
              andThen (ddiv total_losses (of_nat (length losses))) (\<lambda>b.
              andThen (ddiv a b) (\<lambda>r. Inr (Some r))))
         else Inr None)"

definition average_of :: "dec list \<Rightarrow> (dec option) res" where
  "average_of xs = (if xs = [] then Inr None
     else andThen (ddiv (dsum xs) (of_nat (length xs))) (\<lambda>a. Inr (Some a)))"

definition exposure :: "(string, dec) dict \<Rightarrow> ((string \<times> dec) list) res" where
  "exposure notionals =
     (let all_notional = dsum (map snd notionals) in
      if all_notional = 0 then Inr []
      else map_res (\<lambda>(i, n). andThen (ddiv n all_notional) (\<lambda>share. Inr (i, share)))
             (sort_key fst notionals))"

text \<open>The last equity of each period, in the order the periods first occur.\<close>

definition period_ends :: "(date \<Rightarrow> string) \<Rightarrow> dec list \<Rightarrow> date list \<Rightarrow> (string, dec) dict" where
  "period_ends key equity_curve dates =
     foldl (\<lambda>d (trade_date, value). dict_set (key trade_date) value d) [] (zip dates (tl equity_curve))"

fun period_chain :: "dec \<Rightarrow> (string \<times> dec) list \<Rightarrow> ((string \<times> dec) list) res" where
  "period_chain previous [] = Inr []"
| "period_chain previous ((k, current) # rest) =
     andThen (ddiv current previous) (\<lambda>q.
     andThen (period_chain current rest) (\<lambda>out. Inr ((k, dsub q 1) # out)))"

definition period_returns :: "(date \<Rightarrow> string) \<Rightarrow> dec list \<Rightarrow> date list \<Rightarrow> ((string \<times> dec) list) res" where
  "period_returns key equity_curve dates =
     (if int (length dates) \<noteq> int (length equity_curve) - 1 \<or> dates = [] then Inr []
      else period_chain (hd equity_curve) (period_ends key equity_curve dates))"

definition calculate_metrics ::
    "'f float_ops \<Rightarrow> dec list \<Rightarrow> fill list \<Rightarrow> date list \<Rightarrow> metrics res" where
  "calculate_metrics fo equity_curve fills dates =
     (if length equity_curve < 3 \<or> (\<exists>v\<in>set equity_curve. v \<le> 0) then Inr insufficient
      else let start = hd equity_curve in
        andThen (ddiv (last equity_curve) start) (\<lambda>total_q.
        andThen (fold_res (curve_step fo) ([], start, 0) (zip equity_curve (tl equity_curve)))
          (\<lambda>(returns, peak, mdd).
        andThen (fold_res fill_step no_stats fills) (\<lambda>st.
        andThen (win_ratio (closed_pnls st)) (\<lambda>wins.
        andThen (profit_loss (closed_pnls st)) (\<lambda>plr.
        andThen (exposure (industry_notional st)) (\<lambda>exposures.
        andThen (average_of (holding_days st)) (\<lambda>holding.
        andThen (ddiv (turnover_value st) start) (\<lambda>turn.
        andThen (period_returns month_key equity_curve dates) (\<lambda>monthly.
        andThen (period_returns year_key equity_curve dates) (\<lambda>yearly.
          Inr \<lparr>available = True, reason = None, total_return = Some (dsub total_q 1),
            max_drawdown = Some mdd, sharpe = sharpe_ratio fo returns, win_rate = wins,
            profit_loss_ratio = plr, average_holding_period = holding, turnover = Some turn,
            total_cost = Some (ts_cost st), industry_exposure = exposures,
            monthly_returns = monthly, yearly_returns = yearly\<rparr>)))))))))))"

section \<open>Matching conserves shares\<close>

definition lot_quantity :: "lot \<Rightarrow> int" where
  "lot_quantity l = fst l"

definition open_shares :: "lot list \<Rightarrow> int" where
  "open_shares ls = sum_list (map lot_quantity ls)"

definition lots_ok :: "lot list \<Rightarrow> bool" where
  "lots_ok ls \<longleftrightarrow> (\<forall>l\<in>set ls. 0 < lot_quantity l)"

lemma lots_ok_Cons [simp]: "lots_ok ((q, c, d) # ls) \<longleftrightarrow> 0 < q \<and> lots_ok ls"
  by (simp add: lots_ok_def lot_quantity_def)

lemma open_shares_simps [simp]:
  "open_shares [] = 0" "open_shares ((q, c, d) # ls) = q + open_shares ls"
  by (simp_all add: open_shares_def lot_quantity_def)

lemma open_shares_nonneg: "lots_ok ls \<Longrightarrow> 0 \<le> open_shares ls"
  unfolding open_shares_def lots_ok_def by (intro sum_list_nonneg) auto

lemma match_one_defined:
  "quantity \<noteq> 0 \<Longrightarrow> sold_quantity \<noteq> 0 \<Longrightarrow> \<exists>y. match_one sold_quantity proceeds matched quantity cost = Inr y"
  by (simp add: match_one_def ddiv_def)

lemma match_lots_conserves:
  assumes "lots_ok ls" and "0 < sold_quantity" and "0 \<le> remaining"
  shows "\<exists>left pnls days. match_lots sold_quantity proceeds closing remaining ls = Inr (left, pnls, days) \<and>
    lots_ok left \<and> open_shares left = open_shares ls - min remaining (open_shares ls) \<and>
    (\<exists>k\<le>length ls. length left = length ls - k \<and> drop (k + 1) ls = drop 1 left)"
  using assms
proof (induction ls arbitrary: remaining)
  case (Cons l rest)
  obtain quantity cost entry where l: "l = (quantity, cost, entry)" by (cases l)
  from Cons.prems l have q: "0 < quantity" "lots_ok rest" by auto
  note nn = open_shares_nonneg[OF q(2)]
  show ?case
  proof (cases "remaining = 0")
    case True
    then show ?thesis using Cons.prems nn q by (auto simp: l)
  next
    case False
    obtain ac pnl where one: "match_one sold_quantity proceeds (min remaining quantity) quantity cost = Inr (ac, pnl)"
      using match_one_defined[of quantity sold_quantity proceeds "min remaining quantity" cost] q(1)
        Cons.prems(2) by auto
    show ?thesis
    proof (cases "quantity \<le> remaining")
      case full: True
      obtain left pnls days k where IH:
        "match_lots sold_quantity proceeds closing (remaining - quantity) rest = Inr (left, pnls, days)"
        "lots_ok left" "open_shares left = open_shares rest - min (remaining - quantity) (open_shares rest)"
        "k \<le> length rest" "length left = length rest - k" "drop (k + 1) rest = drop 1 left"
        using Cons.IH[OF q(2) Cons.prems(2), of "remaining - quantity"] full by auto
      show ?thesis using IH one full False q nn
        by (auto simp: l intro!: exI[of _ "Suc k"])
    next
      case part: False
      have "\<exists>k\<le>Suc (length rest). Suc (length rest) = Suc (length rest) - k \<and> drop k rest = rest"
        by (intro exI[of _ 0]) auto
      then show ?thesis using one part False q nn Cons.prems(3) by (auto simp: l)
    qed
  qed
qed (auto intro: exI[of _ 0] simp: lots_ok_def)

definition stats_ok :: "trade_stats \<Rightarrow> bool" where
  "stats_ok st \<longleftrightarrow> (\<forall>(s, ls)\<in>set (lots st). lots_ok ls)"

lemma dict_get_lots:
  assumes "stats_ok st" shows "lots_ok (dict_get (lots st) s [])"
proof (cases "map_of (lots st) s")
  case None
  then show ?thesis by (simp add: dict_get_def lots_ok_def)
next
  case (Some ls)
  then have "(s, ls) \<in> set (lots st)" by (rule map_of_SomeD)
  then show ?thesis using assms Some by (auto simp: stats_ok_def dict_get_def)
qed

lemma stats_ok_set:
  assumes "stats_ok st" and "lots_ok ls"
  shows "stats_ok (st\<lparr>lots := dict_set s ls (lots st)\<rparr>)"
  using assms by (auto simp: stats_ok_def dest!: dict_set_in)

lemma fill_step_ok:
  assumes "stats_ok st"
  shows "\<exists>st'. fill_step st f = Inr st' \<and> stats_ok st'"
proof (cases "f_price f")
  case (Some price)
  show ?thesis
  proof (cases "f_quantity f \<le> 0")
    case False
    define n where "n = dmul price (of_int (f_quantity f))"
    define st1 where "st1 = st\<lparr>ts_cost := dadd (ts_cost st) (fill_costs f),
      turnover_value := dadd (turnover_value st) n\<rparr>"
    have ok1: "stats_ok st1" using assms by (simp add: st1_def stats_ok_def)
    have buy: "stats_ok (record_buy f n (fill_costs f) st1)"
      using stats_ok_set[OF ok1, of "dict_get (lots st1) (f_symbol f) [] @
          [(f_quantity f, dadd n (fill_costs f), f_execution_date f)]" "f_symbol f"]
        dict_get_lots[OF ok1, of "f_symbol f"] False
      by (simp add: record_buy_def dict_append_def stats_ok_def lots_ok_def lot_quantity_def)
    have sell: "\<exists>st'. record_sell f n (fill_costs f) st1 = Inr st' \<and> stats_ok st'"
    proof (cases "map_of (lots st1) (f_symbol f)")
      case None
      then show ?thesis using ok1 by (simp add: record_sell_def)
    next
      case (Some held)
      then have "lots_ok held" using dict_get_lots[OF ok1, of "f_symbol f"] by (simp add: dict_get_def)
      from match_lots_conserves[OF this, of "f_quantity f" "f_quantity f"] False
      obtain left pnls days where ml: "match_lots (f_quantity f) (dsub n (fill_costs f))
          (f_execution_date f) (f_quantity f) held = Inr (left, pnls, days)" "lots_ok left" by fastforce
      from stats_ok_set[OF ok1 ml(2), of "f_symbol f"] ml(1) Some show ?thesis
        by (simp add: record_sell_def stats_ok_def)
    qed
    show ?thesis using Some False ok1 buy sell
      by (auto simp: fill_step_def Let_def simp flip: n_def st1_def)
  qed (use Some assms in \<open>simp add: fill_step_def\<close>)
qed (use assms in \<open>simp add: fill_step_def\<close>)

lemma fills_ok:
  "stats_ok st \<Longrightarrow> \<exists>st'. fold_res fill_step st fs = Inr st' \<and> stats_ok st'"
proof (induction fs arbitrary: st)
  case (Cons f fs)
  from fill_step_ok[OF Cons.prems, of f] obtain st1 where "fill_step st f = Inr st1" "stats_ok st1" by blast
  with Cons.IH[of st1] show ?case by simp
qed simp

section \<open>The metrics never fail\<close>

lemma dneg_pos: "v < 0 \<Longrightarrow> 0 < dneg v"
  unfolding dneg_def by (rule drnd_pos) simp

lemma ddiv_defined: "b \<noteq> 0 \<Longrightarrow> \<exists>q. ddiv a b = Inr q"
  by (simp add: ddiv_def)

lemma ddiv_unit:
  assumes "ddiv a b = Inr q" and "0 \<le> a" "a \<le> b" "0 < b"
  shows "0 \<le> q" "q \<le> 1"
proof -
  have "q = drnd (a / b)" using assms(1) by (simp add: ddiv_Inr_iff)
  moreover have "a / b \<le> 1" "0 \<le> a / b" using assms by simp_all
  ultimately show "0 \<le> q" "q \<le> 1"
    using drnd_nonneg d28.rnd_le_fits[of "a / b" 1] dec28_of_int[of 1] by auto
qed

lemma win_ratio_bounds:
  "\<exists>w. win_ratio pnls = Inr w \<and> (\<forall>x. w = Some x \<longrightarrow> 0 \<le> x \<and> x \<le> 1)"
proof (cases "pnls = []")
  case False
  then obtain q where q: "ddiv (of_nat (length (filter (\<lambda>v. v > 0) pnls))) (of_nat (length pnls)) = Inr q"
    using ddiv_defined[of "of_nat (length pnls)"] by auto
  have "(of_nat (length (filter (\<lambda>v. v > 0) pnls)) :: rat) \<le> of_nat (length pnls)"
    by (simp only: of_nat_le_iff length_filter_le)
  from ddiv_unit[OF q _ this] q False show ?thesis by (simp add: win_ratio_def)
qed (simp add: win_ratio_def)

lemma profit_loss_defined: "\<exists>r. profit_loss pnls = Inr r"
proof -
  let ?losses = "map dneg (filter (\<lambda>v. v < 0) pnls)"
  have "drnd (dsum ?losses / of_nat (length ?losses)) \<noteq> 0" if "dsum ?losses \<noteq> 0" "?losses \<noteq> []"
  proof -
    have "0 \<le> dsum ?losses" by (rule dsum_nonneg) (auto dest: dneg_pos intro: less_imp_le)
    with that have "0 < dsum ?losses" by simp
    then have "0 < drnd (dsum ?losses / of_nat (length ?losses))"
      using that(2) by (intro drnd_pos divide_pos_pos) auto
    then show ?thesis by simp
  qed
  then show ?thesis by (auto simp: profit_loss_def Let_def ddiv_def)
qed

lemma average_defined: "\<exists>r. average_of xs = Inr r"
  by (simp add: average_of_def ddiv_def)

lemma exposure_defined: "\<exists>r. exposure notionals = Inr r"
proof (cases "dsum (map snd notionals) = 0")
  case False
  then have "\<exists>ys. map_res (\<lambda>(i, n). andThen (ddiv n (dsum (map snd notionals))) (\<lambda>share. Inr (i, share))) xs = Inr ys"
    for xs :: "(string \<times> dec) list"
    by (induction xs) (auto simp: ddiv_def)
  with False show ?thesis by (simp add: exposure_def Let_def)
qed (simp add: exposure_def)

lemma period_chain_defined:
  assumes "previous \<noteq> 0" and "\<forall>(k, v)\<in>set ps. v \<noteq> 0"
  shows "\<exists>r. period_chain previous ps = Inr r"
  using assms
proof (induction ps arbitrary: previous)
  case (Cons p ps)
  obtain k v where p: "p = (k, v)" by (cases p)
  with Cons obtain r where "period_chain v ps = Inr r" by auto
  then show ?case using Cons.prems(1) by (simp add: p ddiv_def)
qed simp

lemma period_ends_values:
  "(k, v) \<in> set (period_ends key equity_curve dates) \<Longrightarrow> v \<in> set (tl equity_curve)"
proof -
  have "(k, v) \<in> set (foldl (\<lambda>d (t, x). dict_set (key t) x d) d ps) \<Longrightarrow>
      (k, v) \<in> set d \<or> v \<in> snd ` set ps" for d and ps :: "(date \<times> dec) list"
  proof (induction ps arbitrary: d)
    case (Cons p ps)
    from Cons.IH[of "dict_set (key (fst p)) (snd p) d"] Cons.prems
    have "(k, v) \<in> set (dict_set (key (fst p)) (snd p) d) \<or> v \<in> snd ` set ps"
      by (simp add: case_prod_beta)
    then show ?case by (auto dest!: dict_set_in)
  qed simp
  from this[of "[]" "zip dates (tl equity_curve)"]
  show "(k, v) \<in> set (period_ends key equity_curve dates) \<Longrightarrow> v \<in> set (tl equity_curve)"
    by (auto simp: period_ends_def dest: set_zip_rightD)
qed

lemma period_returns_defined:
  assumes "\<forall>v\<in>set equity_curve. 0 < v" and "equity_curve \<noteq> []"
  shows "\<exists>r. period_returns key equity_curve dates = Inr r"
proof -
  have "\<forall>(k, v)\<in>set (period_ends key equity_curve dates). v \<noteq> 0"
    using period_ends_values[of _ _ key equity_curve dates] assms
    by (fastforce dest: list.set_sel(2))
  moreover have "hd equity_curve \<noteq> 0" using assms by (metis hd_in_set less_irrefl)
  ultimately show ?thesis using period_chain_defined by (simp add: period_returns_def)
qed

lemma curve_step_bounds:
  assumes "0 < peak" "dec28 peak" "0 < a" "0 < b" "dec28 b" "0 \<le> mdd" "mdd \<le> 1"
  shows "\<exists>rs dd. curve_step fo (r0, peak, mdd) (a, b) = Inr (rs, max peak b, dd) \<and>
    length rs = Suc (length r0) \<and> mdd \<le> dd \<and> 0 \<le> dd \<and> dd \<le> 1"
proof -
  let ?pk = "max peak b"
  have pk: "0 < ?pk" "dec28 ?pk" using assms(1,2,5) by (auto simp: max_def)
  obtain q where q: "ddiv b a = Inr q" using ddiv_defined[of a] assms by auto
  obtain dd where dd: "ddiv (dsub ?pk b) ?pk = Inr dd" using ddiv_defined[of ?pk] pk by auto
  have "0 \<le> dsub ?pk b" "dsub ?pk b \<le> ?pk"
    using dsub_nonneg[of b ?pk] dsub_le_left[OF pk(2), of b] assms(4) by auto
  note u = ddiv_unit[OF dd this pk(1)]
  show ?thesis using q dd u assms(6,7) by (simp add: curve_step_def Let_def)
qed

lemma curve_fold_bounds:
  assumes "0 < peak" "dec28 peak" and "\<forall>(a, b)\<in>set ps. 0 < a \<and> 0 < b \<and> dec28 b" and "0 \<le> mdd" "mdd \<le> 1"
  shows "\<exists>rs pk dd. fold_res (curve_step fo) (r0, peak, mdd) ps = Inr (rs, pk, dd) \<and>
    length rs = length r0 + length ps \<and> mdd \<le> dd \<and> 0 \<le> dd \<and> dd \<le> 1"
  using assms
proof (induction ps arbitrary: r0 peak mdd)
  case (Cons p ps)
  obtain a b where p: "p = (a, b)" by (cases p)
  from Cons.prems p have ab: "0 < a" "0 < b" "dec28 b" by auto
  obtain rs dd where st: "curve_step fo (r0, peak, mdd) (a, b) = Inr (rs, max peak b, dd)"
    "length rs = Suc (length r0)" "mdd \<le> dd" "0 \<le> dd" "dd \<le> 1"
    using curve_step_bounds[of peak a b mdd fo r0] Cons.prems ab by auto
  have "0 < max peak b" "dec28 (max peak b)" using Cons.prems(1,2) ab by (auto simp: max_def)
  from Cons.IH[OF this _ st(4,5), of rs] Cons.prems(3) st show ?case
    by (auto simp: p intro: order_trans)
qed simp

section \<open>Properties\<close>



text \<open>
  First-in first-out matching conserves shares: on lots of positive size a sale never fails,
  closes the smaller of what is sold and what is open, leaves only positive lots, and what it leaves
  untouched is a suffix of the lots in their order of purchase.
\<close>

theorem fifo_conserves_shares:
  assumes "\<forall>l\<in>set ls. 0 < fst l" and "0 < sold_quantity" and "0 \<le> remaining"
  shows "\<exists>left pnls days. match_lots sold_quantity proceeds closing remaining ls = Inr (left, pnls, days) \<and>
    (\<forall>l\<in>set left. 0 < fst l) \<and>
    open_shares left = open_shares ls - min remaining (open_shares ls) \<and>
    (\<exists>k\<le>length ls. length left = length ls - k \<and> drop (k + 1) ls = drop 1 left)"
  using match_lots_conserves[of ls sold_quantity remaining proceeds closing] assms
  by (simp add: lots_ok_def lot_quantity_def)

lemma fifo_conserves_shares_witness:
  "\<exists>left pnls days. match_lots 150 1500 None 150 [(100, 900, None), (100, 950, None)] = Inr (left, pnls, days) \<and>
     open_shares left = 50"
  using fifo_conserves_shares[of "[(100, 900, None), (100, 950, None)]" 150 150 1500 None] by fastforce

end
