(* ===== verification/Settlement.thy ===== *)
theory Settlement
  imports Decimal28 PyText
begin

text \<open>
  The contract between a ledger of shares and the replay engines that drive it: fills keep the
  ledger well-formed, a sale takes shares that were sellable, a purchase does not make shares
  sellable, and settlement makes every held share sellable. The consequences for a whole day
  of fills are proved once, from the contract.
\<close>

type_synonym trade = "string \<times> string \<times> int \<times> dec \<times> dec"

definition run_trades ::
    "('l \<Rightarrow> string \<Rightarrow> string \<Rightarrow> int \<Rightarrow> dec \<Rightarrow> dec \<Rightarrow> 'l res) \<Rightarrow> 'l \<Rightarrow> trade list \<Rightarrow> 'l res" where
  "run_trades fill l ts = fold_res (\<lambda>l (side, s, q, p, c). fill l side s q p c) l ts"

definition bought :: "trade list \<Rightarrow> string \<Rightarrow> int" where
  "bought ts x = sum_list (map (\<lambda>(side, s, q, p, c). if s = x \<and> upper side = ''BUY'' then q else 0) ts)"

definition sold :: "trade list \<Rightarrow> string \<Rightarrow> int" where
  "sold ts x = sum_list (map (\<lambda>(side, s, q, p, c). if s = x \<and> upper side \<noteq> ''BUY'' then q else 0) ts)"

locale settlement_ledger =
  fixes ok :: "'l \<Rightarrow> bool"
    and fill :: "'l \<Rightarrow> string \<Rightarrow> string \<Rightarrow> int \<Rightarrow> dec \<Rightarrow> dec \<Rightarrow> 'l res"
    and settle :: "'l \<Rightarrow> 'l"
    and held :: "'l \<Rightarrow> string \<Rightarrow> int"
    and sellable :: "'l \<Rightarrow> string \<Rightarrow> int"
    and funds :: "'l \<Rightarrow> dec"
  assumes fill_keeps_ok: "ok l \<Longrightarrow> fill l side s q p c = Inr l' \<Longrightarrow> ok l'"
    and settle_keeps_ok: "ok l \<Longrightarrow> ok (settle l)"
    and ok_bounds: "ok l \<Longrightarrow> 0 \<le> sellable l s \<and> sellable l s \<le> held l s \<and> 0 \<le> funds l"
    and fill_held: "ok l \<Longrightarrow> fill l side s q p c = Inr l' \<Longrightarrow>
      held l' x = held l x + (if s = x then if upper side = ''BUY'' then q else - q else 0)"
    and fill_sellable: "ok l \<Longrightarrow> fill l side s q p c = Inr l' \<Longrightarrow>
      sellable l' x = sellable l x - (if s = x \<and> upper side \<noteq> ''BUY'' then q else 0)"
    and settle_held: "held (settle l) x = held l x"
    and settle_sellable: "sellable (settle l) x = held l x"
begin

lemma trades_keep_ok:
  assumes "run_trades fill l ts = Inr l'" and "ok l"
  shows "ok l'"
  using assms unfolding run_trades_def
  by (rule fold_res_invariant) (auto intro: fill_keeps_ok)

lemma trades_effect:
  assumes "run_trades fill l ts = Inr l'" and "ok l"
  shows "held l' x = held l x + bought ts x - sold ts x \<and> sellable l' x = sellable l x - sold ts x"
  using assms
proof (induction ts arbitrary: l)
  case Nil
  then show ?case by (simp add: run_trades_def bought_def sold_def)
next
  case (Cons t ts)
  obtain side s q p c where t: "t = (side, s, q, p, c)" by (cases t)
  from Cons.prems obtain l1 where l1: "fill l side s q p c = Inr l1" "run_trades fill l1 ts = Inr l'"
    by (auto simp: run_trades_def t andThen_Inr_iff)
  note IH = Cons.IH[OF l1(2) fill_keeps_ok[OF Cons.prems(2) l1(1)]]
  show ?case
    using IH fill_held[OF Cons.prems(2) l1(1), of x] fill_sellable[OF Cons.prems(2) l1(1), of x]
    by (simp add: bought_def sold_def t)
qed

text \<open>T+1: what is sold after a settlement was held when it happened.\<close>

lemma sold_at_most_held:
  assumes "run_trades fill (settle l) ts = Inr l'" and "ok l"
  shows "sold ts x \<le> held l x"
proof -
  have k: "ok (settle l)" using assms(2) by (rule settle_keeps_ok)
  have "0 \<le> sellable l' x" using ok_bounds[OF trades_keep_ok[OF assms(1) k]] by blast
  then show ?thesis using trades_effect[OF assms(1) k, of x] by (simp add: settle_sellable)
qed

end

end
