(* ===== verification/Ledger.thy ===== *)
theory Ledger
  imports Settlement
begin

text \<open>
  The cash and position ledger of \<open>app/domain/portfolio/ledger.py\<close>. The positions are the
  insertion-ordered dictionary of the code. Operations return the new ledger or the exception;
  \<open>snapshot\<close> also returns the snapshot, because it raises the high-water mark it reports.
\<close>

record ledger_position =
  lp_symbol :: string
  lp_quantity :: int
  cost_basis :: dec
  lp_available :: int

record ledger_snapshot =
  ls_cash :: dec
  ls_positions :: "ledger_position list"
  equity :: dec
  ls_high_water_mark :: dec
  ls_drawdown :: dec

record ledger =
  cash :: dec
  positions :: "(string, ledger_position) dict"
  entries :: "ledger_snapshot list"
  high_water :: dec

definition new_ledger :: "dec \<Rightarrow> ledger res" where
  "new_ledger initial_cash =
     (if initial_cash < 0 then Inl (ValueError ''initial cash cannot be negative'')
      else Inr \<lparr>cash = initial_cash, positions = [], entries = [], high_water = initial_cash\<rparr>)"

definition position :: "ledger \<Rightarrow> string \<Rightarrow> ledger_position" where
  "position l s = dict_get (positions l) s
     \<lparr>lp_symbol = s, lp_quantity = 0, cost_basis = 0, lp_available = 0\<rparr>"

text \<open>The marked value of one position, added to the running total.\<close>

definition add_mark :: "(string, dec) dict \<Rightarrow> dec \<Rightarrow> ledger_position \<Rightarrow> dec res" where
  "add_mark prices acc p =
     andThen (ddiv (cost_basis p) (of_int (lp_quantity p))) (\<lambda>at_cost.
       Inr (dadd acc (dmul (dict_get prices (lp_symbol p) at_cost) (of_int (lp_quantity p)))))"

definition snapshot :: "(string, dec) dict \<Rightarrow> ledger \<Rightarrow> (ledger_snapshot \<times> ledger) res" where
  "snapshot prices l =
     andThen (fold_res (add_mark prices) 0 (map snd (positions l))) (\<lambda>position_value.
       let eq = dadd (cash l) position_value;
           hwm = max (high_water l) eq
       in andThen (if hwm \<noteq> 0 then ddiv (dsub hwm eq) hwm else Inr 0) (\<lambda>dd.
            Inr (\<lparr>ls_cash = cash l, ls_positions = sort_key lp_symbol (map snd (positions l)),
                  equity = eq, ls_high_water_mark = hwm, ls_drawdown = dd\<rparr>,
                 l\<lparr>high_water := hwm\<rparr>)))"

text \<open>The cash and the position after the fill, before they are written back.\<close>

definition buy_effect :: "ledger \<Rightarrow> string \<Rightarrow> int \<Rightarrow> dec \<Rightarrow> dec \<Rightarrow> (dec \<times> ledger_position) res" where
  "buy_effect l symbol quantity price costs =
     (let current = position l symbol; total = dadd (dmul price (of_int quantity)) costs in
      if total > cash l then Inl (ValueError ''insufficient cash'')
      else Inr (dsub (cash l) total,
        \<lparr>lp_symbol = symbol, lp_quantity = lp_quantity current + quantity,
         cost_basis = dadd (cost_basis current) total, lp_available = lp_available current\<rparr>))"

definition sell_effect :: "ledger \<Rightarrow> string \<Rightarrow> int \<Rightarrow> dec \<Rightarrow> dec \<Rightarrow> (dec \<times> ledger_position) res" where
  "sell_effect l symbol quantity price costs =
     (let current = position l symbol in
      if quantity > lp_available current then Inl (ValueError ''insufficient shares'')
      else let next_cash = dadd (cash l) (dsub (dmul price (of_int quantity)) costs) in
        if next_cash < 0 then Inl (ValueError ''sale would make cash negative'')
        else andThen (ddiv (dmul (cost_basis current) (of_int quantity)) (of_int (lp_quantity current)))
          (\<lambda>released. Inr (next_cash,
            \<lparr>lp_symbol = symbol, lp_quantity = lp_quantity current - quantity,
             cost_basis = max 0 (dsub (cost_basis current) released),
             lp_available = lp_available current - quantity\<rparr>)))"

definition fill_effect :: "ledger \<Rightarrow> string \<Rightarrow> string \<Rightarrow> int \<Rightarrow> dec \<Rightarrow> dec \<Rightarrow> (dec \<times> ledger_position) res" where
  "fill_effect l side symbol quantity price costs =
     (if quantity \<le> 0 \<or> price \<le> 0 \<or> costs < 0 then Inl (ValueError ''invalid fill'')
      else if upper side = ''BUY'' then buy_effect l symbol quantity price costs
      else if upper side = ''SELL'' then sell_effect l symbol quantity price costs
      else Inl (ValueError ''side must be BUY or SELL''))"

definition write_position :: "ledger \<Rightarrow> string \<Rightarrow> dec \<Rightarrow> ledger_position \<Rightarrow> ledger" where
  "write_position l symbol next_cash p =
     l\<lparr>cash := next_cash,
       positions := (if lp_quantity p = 0 then dict_pop symbol (positions l)
                     else dict_set symbol p (positions l))\<rparr>"

definition apply_fill :: "ledger \<Rightarrow> string \<Rightarrow> string \<Rightarrow> int \<Rightarrow> dec \<Rightarrow> dec \<Rightarrow> ledger res" where
  "apply_fill l side symbol quantity price costs =
     andThen (fill_effect l side symbol quantity price costs) (\<lambda>(next_cash, p).
       andThen (snapshot [] (write_position l symbol next_cash p)) (\<lambda>(snap, l').
         Inr (l'\<lparr>entries := entries l' @ [snap]\<rparr>)))"

definition settle_all :: "ledger \<Rightarrow> ledger" where
  "settle_all l = l\<lparr>positions :=
     map (\<lambda>(s, p). (s, p\<lparr>lp_available := lp_quantity p\<rparr>)) (positions l)\<rparr>"

section \<open>The ledger invariant\<close>

definition position_ok :: "ledger_position \<Rightarrow> bool" where
  "position_ok p \<longleftrightarrow> 0 < lp_quantity p \<and> 0 \<le> lp_available p \<and>
     lp_available p \<le> lp_quantity p \<and> 0 \<le> cost_basis p"

definition ledger_ok :: "ledger \<Rightarrow> bool" where
  "ledger_ok l \<longleftrightarrow> 0 \<le> cash l \<and> dec28 (cash l) \<and> 0 \<le> high_water l \<and> dec28 (high_water l) \<and>
     dict_ok (positions l) \<and>
     (\<forall>(s, p) \<in> set (positions l). lp_symbol p = s \<and> position_ok p)"

lemma new_ledger_ok: "new_ledger c = Inr l \<Longrightarrow> dec28 c \<Longrightarrow> ledger_ok l"
  by (auto simp: new_ledger_def ledger_ok_def split: if_splits)

lemma position_in:
  assumes "ledger_ok l" and "lp_quantity (position l s) \<noteq> 0"
  shows "(s, position l s) \<in> set (positions l)"
  using assms by (auto simp: position_def dict_get_def split: option.splits dest: map_of_SomeD)

lemma position_bounds:
  assumes "ledger_ok l"
  shows "0 \<le> lp_quantity (position l s)" "0 \<le> lp_available (position l s)"
    "lp_available (position l s) \<le> lp_quantity (position l s)" "0 \<le> cost_basis (position l s)"
proof -
  have "map_of (positions l) s = Some p \<Longrightarrow> position_ok p" for p
    using assms by (auto simp: ledger_ok_def dest!: map_of_SomeD)
  then show "0 \<le> lp_quantity (position l s)" "0 \<le> lp_available (position l s)"
    "lp_available (position l s) \<le> lp_quantity (position l s)" "0 \<le> cost_basis (position l s)"
    by (auto simp: position_def dict_get_def position_ok_def split: option.splits)
qed

lemma position_symbol: "ledger_ok l \<Longrightarrow> lp_symbol (position l s) = s"
  by (auto simp: position_def dict_get_def ledger_ok_def split: option.splits dest!: map_of_SomeD)

section \<open>Valuation never fails on a well-formed ledger\<close>

lemma marks_defined:
  assumes "\<forall>p\<in>set ps. lp_quantity p \<noteq> 0"
  shows "\<exists>v. fold_res (add_mark prices) acc ps = Inr v"
  using assms
  by (induction ps arbitrary: acc) (auto simp: add_mark_def ddiv_def)

lemma marks_nonneg:
  assumes "fold_res (add_mark prices) acc ps = Inr v" and "0 \<le> acc"
    and "\<forall>p\<in>set ps. position_ok p" and "\<forall>(s, x)\<in>set prices. 0 \<le> x"
  shows "0 \<le> v"
  using assms(1,2)
proof (rule fold_res_invariant[where I = "\<lambda>v. 0 \<le> v"])
  fix acc' p v'
  assume a: "0 \<le> acc'" "p \<in> set ps" "add_mark prices acc' p = Inr v'"
  then have ok: "position_ok p" using assms(3) by blast
  from a(3) obtain m where m: "ddiv (cost_basis p) (of_int (lp_quantity p)) = Inr m"
    and v': "v' = dadd acc' (dmul (dict_get prices (lp_symbol p) m) (of_int (lp_quantity p)))"
    by (auto simp: add_mark_def andThen_Inr_iff)
  have "0 \<le> m" using ddiv_nonneg[OF m] ok by (auto simp: position_ok_def)
  then have "0 \<le> dict_get prices (lp_symbol p) m"
    using assms(4) by (auto simp: dict_get_def split: option.splits dest: map_of_SomeD)
  then show "0 \<le> v'" unfolding v' using a(1) ok
    by (intro dadd_nonneg dmul_nonneg) (auto simp: position_ok_def)
qed

lemma snapshot_defined:
  assumes "ledger_ok l"
  shows "\<exists>s. snapshot prices l = Inr (s, l\<lparr>high_water := ls_high_water_mark s\<rparr>)"
proof -
  have "\<forall>p\<in>set (map snd (positions l)). lp_quantity p \<noteq> 0"
    using assms by (auto simp: ledger_ok_def position_ok_def)
  then obtain v where "fold_res (add_mark prices) 0 (map snd (positions l)) = Inr v"
    using marks_defined by blast
  then show ?thesis by (simp add: snapshot_def Let_def ddiv_def)
qed

lemma snapshot_InrD:
  assumes "snapshot prices l = Inr (s, l')"
  shows "l' = l\<lparr>high_water := ls_high_water_mark s\<rparr>"
    and "ls_high_water_mark s = max (high_water l) (equity s)"
    and "ls_cash s = cash l" and "ls_positions s = sort_key lp_symbol (map snd (positions l))"
    and "ls_high_water_mark s \<noteq> 0 \<Longrightarrow>
      ls_drawdown s = drnd (dsub (ls_high_water_mark s) (equity s) / ls_high_water_mark s)"
    and "ls_high_water_mark s = 0 \<Longrightarrow> ls_drawdown s = 0"
    and "\<exists>v. fold_res (add_mark prices) 0 (map snd (positions l)) = Inr v \<and> equity s = dadd (cash l) v"
proof -
  obtain v dd where v: "fold_res (add_mark prices) 0 (map snd (positions l)) = Inr v"
    and dd: "(if max (high_water l) (dadd (cash l) v) \<noteq> 0
       then ddiv (dsub (max (high_water l) (dadd (cash l) v)) (dadd (cash l) v))
            (max (high_water l) (dadd (cash l) v)) else Inr 0) = Inr dd"
    and s: "s = \<lparr>ls_cash = cash l, ls_positions = sort_key lp_symbol (map snd (positions l)),
       equity = dadd (cash l) v, ls_high_water_mark = max (high_water l) (dadd (cash l) v),
       ls_drawdown = dd\<rparr>"
    and l': "l' = l\<lparr>high_water := max (high_water l) (dadd (cash l) v)\<rparr>"
    using assms by (auto simp: snapshot_def Let_def andThen_Inr_iff)
  show "l' = l\<lparr>high_water := ls_high_water_mark s\<rparr>"
    "ls_high_water_mark s = max (high_water l) (equity s)"
    "ls_cash s = cash l" "ls_positions s = sort_key lp_symbol (map snd (positions l))"
    "\<exists>v. fold_res (add_mark prices) 0 (map snd (positions l)) = Inr v \<and> equity s = dadd (cash l) v"
    using v by (auto simp: s l')
  show "ls_high_water_mark s \<noteq> 0 \<Longrightarrow>
      ls_drawdown s = drnd (dsub (ls_high_water_mark s) (equity s) / ls_high_water_mark s)"
    "ls_high_water_mark s = 0 \<Longrightarrow> ls_drawdown s = 0"
    using dd by (auto simp: s ddiv_Inr_iff split: if_splits)
qed

lemma snapshot_keeps_ok:
  assumes "snapshot prices l = Inr (s, l')" and "ledger_ok l" shows "ledger_ok l'"
proof -
  have "dec28 (equity s)" using snapshot_InrD(7)[OF assms(1)] by auto
  then show ?thesis
    using assms(2) snapshot_InrD(2)[OF assms(1)] unfolding snapshot_InrD(1)[OF assms(1)]
    by (auto simp: ledger_ok_def le_max_iff_disj max_def)
qed

lemma position_high_water [simp]: "position (l\<lparr>high_water := h\<rparr>) s = position l s"
  "position (l\<lparr>entries := es\<rparr>) s = position l s"
  by (simp_all add: position_def)

lemma ledger_ok_entries [simp]: "ledger_ok (l\<lparr>entries := es\<rparr>) = ledger_ok l"
  by (simp add: ledger_ok_def)

section \<open>Settlement and valuation bounds\<close>

lemma settle_all_ok: "ledger_ok l \<Longrightarrow> ledger_ok (settle_all l)"
  by (auto simp: ledger_ok_def settle_all_def position_ok_def comp_def case_prod_beta)

lemma map_of_settle:
  "map_of (positions (settle_all l)) s =
     map_option (\<lambda>p. p\<lparr>lp_available := lp_quantity p\<rparr>) (map_of (positions l) s)"
  by (simp add: settle_all_def map_of_map)

lemma settle_all_position:
  "lp_quantity (position (settle_all l) s) = lp_quantity (position l s)"
  "lp_available (position (settle_all l) s) = lp_quantity (position l s)"
  "cost_basis (position (settle_all l) s) = cost_basis (position l s)"
  unfolding position_def dict_get_def map_of_settle by (simp_all split: option.splits)

lemma settle_all_frame [simp]: "cash (settle_all l) = cash l" "high_water (settle_all l) = high_water l"
  by (simp_all add: settle_all_def)

lemma snapshot_bounds:
  assumes "snapshot prices l = Inr (s, l')" and "ledger_ok l" and "\<forall>(k, x)\<in>set prices. 0 \<le> x"
  shows "0 \<le> equity s" "equity s \<le> ls_high_water_mark s" "high_water l \<le> ls_high_water_mark s"
    "0 \<le> ls_drawdown s" "ls_drawdown s \<le> 1"
proof -
  note D = snapshot_InrD[OF assms(1)]
  obtain v where v: "fold_res (add_mark prices) 0 (map snd (positions l)) = Inr v"
    and e: "equity s = dadd (cash l) v" using D(7) by blast
  have "0 \<le> v"
    by (rule marks_nonneg[OF v]) (use assms(2,3) in \<open>auto simp: ledger_ok_def\<close>)
  then show eq: "0 \<le> equity s" unfolding e using assms(2) by (auto simp: ledger_ok_def intro: dadd_nonneg)
  show le: "equity s \<le> ls_high_water_mark s" and "high_water l \<le> ls_high_water_mark s"
    using D(2) by auto
  have one: "dec28 1" using dec28_of_int[of 1] by simp
  show "0 \<le> ls_drawdown s" "ls_drawdown s \<le> 1"
  proof -
    let ?h = "ls_high_water_mark s"
    have "0 \<le> ls_drawdown s \<and> ls_drawdown s \<le> 1"
    proof (cases "?h = 0")
      case False
      then have h: "0 < ?h" using eq le by linarith
      have d: "0 \<le> dsub ?h (equity s)" using le by (rule dsub_nonneg)
      have "dec28 (equity s)" unfolding e by simp
      then have hd: "dec28 ?h" using D(2) assms(2) by (auto simp: max_def ledger_ok_def)
      have "dsub ?h (equity s) / ?h \<le> 1" using dsub_le_left[OF hd eq] h by (simp add: divide_le_eq)
      then show ?thesis using D(5)[OF False] d h one
        by (auto intro!: drnd_nonneg d28.rnd_le_fits)
    qed (use D(6) in simp)
    then show "0 \<le> ls_drawdown s" "ls_drawdown s \<le> 1" by auto
  qed
qed

section \<open>The share book: what the ledger promises\<close>

text \<open>
  The abstract view of the ledger: for each security the shares held and the shares that may
  be sold today. A buy adds shares that cannot be sold before the next settlement (T+1), a
  sale takes sellable shares, settlement makes every held share sellable.
\<close>

type_synonym book = "string \<Rightarrow> int \<times> int"

definition abs_book :: "ledger \<Rightarrow> book" where
  "abs_book l s = (lp_quantity (position l s), lp_available (position l s))"

definition book_fill :: "book \<Rightarrow> string \<Rightarrow> string \<Rightarrow> int \<Rightarrow> book" where
  "book_fill b side s q =
     (if upper side = ''BUY'' then b(s := (fst (b s) + q, snd (b s)))
      else b(s := (fst (b s) - q, snd (b s) - q)))"

definition book_settle :: "book \<Rightarrow> book" where
  "book_settle b = (\<lambda>s. (fst (b s), fst (b s)))"

lemma fill_effect_cases:
  assumes "fill_effect l side s q price costs = Inr (c, p)"
  obtains (buy) "upper side = ''BUY''" "0 < q" "0 < price" "0 \<le> costs"
      "dadd (dmul price (of_int q)) costs \<le> cash l"
      "c = dsub (cash l) (dadd (dmul price (of_int q)) costs)"
      "p = \<lparr>lp_symbol = s, lp_quantity = lp_quantity (position l s) + q,
         cost_basis = dadd (cost_basis (position l s)) (dadd (dmul price (of_int q)) costs),
         lp_available = lp_available (position l s)\<rparr>"
    | (sell) released where "upper side = ''SELL''" "0 < q" "0 < price" "0 \<le> costs"
      "q \<le> lp_available (position l s)"
      "c = dadd (cash l) (dsub (dmul price (of_int q)) costs)" "0 \<le> c"
      "p = \<lparr>lp_symbol = s, lp_quantity = lp_quantity (position l s) - q,
         cost_basis = max 0 (dsub (cost_basis (position l s)) released),
         lp_available = lp_available (position l s) - q\<rparr>"
proof -
  have g: "0 < q" "0 < price" "0 \<le> costs" "upper side = ''BUY'' \<or> upper side = ''SELL''"
    using assms by (auto simp: fill_effect_def not_le split: if_splits)
  show thesis
  proof (cases "upper side = ''BUY''")
    case True
    then have "buy_effect l s q price costs = Inr (c, p)" using assms g by (simp add: fill_effect_def)
    then show thesis using True g by (intro buy) (auto simp: buy_effect_def Let_def split: if_splits)
  next
    case False
    then have "sell_effect l s q price costs = Inr (c, p)" using assms g by (simp add: fill_effect_def)
    then show thesis using False g
      by (auto simp: sell_effect_def Let_def andThen_Inr_iff split: if_splits intro: sell)
  qed
qed

lemma fill_effect_ok:
  assumes "ledger_ok l" and "fill_effect l side s q price costs = Inr (c, p)"
  shows "0 \<le> c" "dec28 c" "lp_symbol p = s" "lp_quantity p \<noteq> 0 \<Longrightarrow> position_ok p"
    "lp_quantity p = fst (book_fill (abs_book l) side s q s)"
    "lp_available p = snd (book_fill (abs_book l) side s q s)"
    "0 \<le> lp_available p" "lp_available p \<le> lp_quantity p"
proof -
  note b = position_bounds[OF assms(1), of s]
  have "0 \<le> c \<and> dec28 c \<and> lp_symbol p = s \<and> (lp_quantity p \<noteq> 0 \<longrightarrow> position_ok p) \<and>
    lp_quantity p = fst (book_fill (abs_book l) side s q s) \<and>
    lp_available p = snd (book_fill (abs_book l) side s q s) \<and>
    0 \<le> lp_available p \<and> lp_available p \<le> lp_quantity p"
    using assms(2)
  proof (cases rule: fill_effect_cases)
    case buy
    have "0 \<le> dadd (dmul price (of_int q)) costs" using buy by (intro dadd_nonneg dmul_nonneg) auto
    then show ?thesis using buy b
      by (auto simp: position_ok_def book_fill_def abs_book_def intro: dsub_nonneg dadd_nonneg)
  next
    case (sell released)
    then show ?thesis using b by (auto simp: position_ok_def book_fill_def abs_book_def)
  qed
  then show "0 \<le> c" "dec28 c" "lp_symbol p = s" "lp_quantity p \<noteq> 0 \<Longrightarrow> position_ok p"
    "lp_quantity p = fst (book_fill (abs_book l) side s q s)"
    "lp_available p = snd (book_fill (abs_book l) side s q s)"
    "0 \<le> lp_available p" "lp_available p \<le> lp_quantity p" by auto
qed

lemma write_position_ok:
  assumes "ledger_ok l" and "0 \<le> c" "dec28 c" "lp_symbol p = s" "lp_quantity p \<noteq> 0 \<Longrightarrow> position_ok p"
  shows "ledger_ok (write_position l s c p)"
  using assms by (auto simp: ledger_ok_def write_position_def
      dest!: dict_set_in_distinct[rotated] dict_pop_in)

lemma position_write:
  assumes "ledger_ok l" and "lp_symbol p = s" and "lp_quantity p = 0 \<Longrightarrow> lp_available p = 0"
  shows "abs_book (write_position l s c p) =
    (abs_book l)(s := (lp_quantity p, lp_available p))"
  using assms(3) by (auto simp: abs_book_def position_def dict_get_def write_position_def
      dict_simps fun_eq_iff split: option.splits)

lemma apply_fill_steps:
  assumes "apply_fill l side s q price costs = Inr l'"
  obtains c p snap where "fill_effect l side s q price costs = Inr (c, p)"
    and "snapshot [] (write_position l s c p) = Inr (snap, l'\<lparr>entries := entries l\<rparr>)"
    and "l' = (write_position l s c p)\<lparr>high_water := ls_high_water_mark snap,
       entries := entries l @ [snap]\<rparr>"
proof -
  obtain c p where e: "fill_effect l side s q price costs = Inr (c, p)"
    and sn: "andThen (snapshot [] (write_position l s c p)) (\<lambda>(snap, l').
         Inr (l'\<lparr>entries := entries l' @ [snap]\<rparr>)) = Inr l'"
    using assms by (auto simp: apply_fill_def andThen_Inr_iff)
  then obtain snap l1 where s1: "snapshot [] (write_position l s c p) = Inr (snap, l1)"
    and l': "l' = l1\<lparr>entries := entries l1 @ [snap]\<rparr>" by (auto simp: andThen_Inr_iff)
  have l1: "l1 = (write_position l s c p)\<lparr>high_water := ls_high_water_mark snap\<rparr>"
    by (rule snapshot_InrD(1)[OF s1])
  have en: "entries (write_position l s c p) = entries l" by (simp add: write_position_def)
  show thesis
  proof (rule that[OF e])
    show "snapshot [] (write_position l s c p) = Inr (snap, l'\<lparr>entries := entries l\<rparr>)"
      unfolding s1 l' l1 by (simp add: write_position_def)
    show "l' = (write_position l s c p)\<lparr>high_water := ls_high_water_mark snap,
       entries := entries l @ [snap]\<rparr>" unfolding l' l1 by (simp add: en)
  qed
qed

lemma apply_fill_ok:
  assumes "ledger_ok l" and "apply_fill l side s q price costs = Inr l'"
  shows "ledger_ok l'"
proof -
  obtain c p snap where e: "fill_effect l side s q price costs = Inr (c, p)"
    and sn: "snapshot [] (write_position l s c p) = Inr (snap, l'\<lparr>entries := entries l\<rparr>)"
    using apply_fill_steps[OF assms(2)] by metis
  have "ledger_ok (write_position l s c p)"
    using write_position_ok[OF assms(1) fill_effect_ok(1-4)[OF assms(1) e]] by blast
  from snapshot_keeps_ok[OF sn this] show ?thesis by simp
qed

lemma apply_fill_book:
  assumes "ledger_ok l" and "apply_fill l side s q price costs = Inr l'"
  shows "abs_book l' = book_fill (abs_book l) side s q"
proof -
  obtain c p snap where e: "fill_effect l side s q price costs = Inr (c, p)"
    and l': "l' = (write_position l s c p)\<lparr>high_water := ls_high_water_mark snap,
       entries := entries l @ [snap]\<rparr>"
    using apply_fill_steps[OF assms(2)] by metis
  note f = fill_effect_ok[OF assms(1) e]
  have "abs_book l' = abs_book (write_position l s c p)" by (simp add: l' abs_book_def fun_eq_iff)
  also have "\<dots> = (abs_book l)(s := (lp_quantity p, lp_available p))"
    using f(7,8) by (intro position_write[OF assms(1) f(3)]) auto
  also have "\<dots> = book_fill (abs_book l) side s q"
    unfolding f(5,6) by (auto simp: book_fill_def fun_eq_iff)
  finally show ?thesis .
qed

lemma settle_all_book: "abs_book (settle_all l) = book_settle (abs_book l)"
  by (simp add: abs_book_def book_settle_def settle_all_position fun_eq_iff)

text \<open>A fill is rejected exactly where the code raises; otherwise the ledger accepts it.\<close>

lemma apply_fill_accepts:
  assumes "ledger_ok l" and "fill_effect l side s q price costs = Inr (c, p)"
  shows "\<exists>l'. apply_fill l side s q price costs = Inr l'"
proof -
  have "ledger_ok (write_position l s c p)"
    using write_position_ok[OF assms(1) fill_effect_ok(1-4)[OF assms]] by blast
  from snapshot_defined[OF this, of "[]"] obtain sn where
    "snapshot [] (write_position l s c p) =
       Inr (sn, (write_position l s c p)\<lparr>high_water := ls_high_water_mark sn\<rparr>)" by blast
  then show ?thesis using assms(2) by (simp add: apply_fill_def)
qed

lemma buy_accepts:
  assumes "ledger_ok l" and "0 < q" "0 < price" "0 \<le> costs"
    and "dadd (dmul price (of_int q)) costs \<le> cash l"
  shows "\<exists>l'. apply_fill l ''BUY'' s q price costs = Inr l'"
  by (rule apply_fill_accepts[OF assms(1)])
     (use assms in \<open>simp add: fill_effect_def buy_effect_def Let_def not_less\<close>)

section \<open>The ledger satisfies the settlement contract\<close>

definition held_shares :: "ledger \<Rightarrow> string \<Rightarrow> int" where
  "held_shares l s = lp_quantity (position l s)"

definition sellable_shares :: "ledger \<Rightarrow> string \<Rightarrow> int" where
  "sellable_shares l s = lp_available (position l s)"

lemma book_shares: "abs_book l s = (held_shares l s, sellable_shares l s)"
  by (simp add: abs_book_def held_shares_def sellable_shares_def)

interpretation lg: settlement_ledger ledger_ok apply_fill settle_all held_shares sellable_shares cash
proof unfold_locales
  fix l side s q p c l' x
  assume a: "ledger_ok l" "apply_fill l side s q p c = Inr l'"
  show "ledger_ok l'" using a by (rule apply_fill_ok)
  have b: "abs_book l' x = book_fill (abs_book l) side s q x" using apply_fill_book[OF a] by simp
  show "held_shares l' x = held_shares l x +
      (if s = x then if upper side = ''BUY'' then q else - q else 0)"
    using b by (auto simp: book_shares book_fill_def)
  show "sellable_shares l' x = sellable_shares l x - (if s = x \<and> upper side \<noteq> ''BUY'' then q else 0)"
    using b by (auto simp: book_shares book_fill_def split: if_splits)
next
  fix l s
  assume a: "ledger_ok l"
  show "ledger_ok (settle_all l)" using a by (rule settle_all_ok)
  show "0 \<le> sellable_shares l s \<and> sellable_shares l s \<le> held_shares l s \<and> 0 \<le> cash l"
    using position_bounds[OF a] a by (auto simp: held_shares_def sellable_shares_def ledger_ok_def)
next
  fix l x
  show "held_shares (settle_all l) x = held_shares l x"
    "sellable_shares (settle_all l) x = held_shares l x"
    by (simp_all add: held_shares_def sellable_shares_def settle_all_position)
qed

section \<open>Properties\<close>

text \<open>
  C7: Trading after settlement keeps the ledger well formed and counts shares exactly: over any
  sequence of accepted fills after \<open>settle_all\<close>, each holding moves by what was bought minus what
  was sold, and no symbol is sold beyond what was held at settlement, so shares bought on a day
  cannot be sold on the same day (T+1), and cash never becomes negative.
\<close>

theorem ledger_settled_trading:
  assumes "ledger_ok l" and "run_trades apply_fill (settle_all l) ts = Inr l'"
  shows "ledger_ok l' \<and> 0 \<le> cash l' \<and> sold ts x \<le> held_shares l x \<and>
    held_shares l' x = held_shares l x + bought ts x - sold ts x"
  using lg.trades_keep_ok[OF assms(2) settle_all_ok[OF assms(1)]]
    lg.trades_effect[OF assms(2) settle_all_ok[OF assms(1)], of x]
    lg.sold_at_most_held[OF assms(2,1), of x] lg.ok_bounds[of l' x] lg.settle_held[of l x]
  by simp

definition sample_ledger :: ledger where
  "sample_ledger = \<lparr>cash = 20000, positions = [(''A'', \<lparr>lp_symbol = ''A'', lp_quantity = 200,
     cost_basis = 2000, lp_available = 0\<rparr>)], entries = [], high_water = 22000\<rparr>"

lemma sample_ledger_ok: "ledger_ok sample_ledger"
  by (simp add: sample_ledger_def ledger_ok_def position_ok_def dec28_of_int[of 20000, simplified]
      dec28_of_int[of 22000, simplified])

lemma sample_buy:
  "\<exists>l'. apply_fill (settle_all sample_ledger) ''BUY'' ''A'' 100 10 5 = Inr l'"
proof (rule buy_accepts)
  show "ledger_ok (settle_all sample_ledger)" by (rule settle_all_ok[OF sample_ledger_ok])
qed (simp_all add: sample_ledger_def dadd_def dmul_def settle_all_def)

lemma ledger_settled_trading_witness:
  "\<exists>l'. run_trades apply_fill (settle_all sample_ledger) [(''BUY'', ''A'', 100, 10, 5)] = Inr l' \<and>
     ledger_ok l' \<and> held_shares l' ''A'' = 300"
proof -
  obtain l' where l': "run_trades apply_fill (settle_all sample_ledger) [(''BUY'', ''A'', 100, 10, 5)] = Inr l'"
    using sample_buy by (auto simp: run_trades_def)
  have held: "held_shares sample_ledger ''A'' = 200"
    by (simp add: held_shares_def position_def dict_get_def sample_ledger_def)
  show ?thesis
    using ledger_settled_trading[OF sample_ledger_ok l', of "''A''"] l' held
    by (auto simp: bought_def sold_def)
qed

text \<open>
  \<open>apply_fill\<close> accepts exactly the fills the account can carry: on a well-formed ledger it
  succeeds if and only if quantity and price are positive, costs are not negative, and either the
  side is BUY and the cash covers the rounded total, or the side is SELL, the settled shares cover
  the quantity and the proceeds do not make the cash negative.
\<close>

theorem apply_fill_accepts_iff:
  assumes "ledger_ok l"
  shows "(\<exists>l'. apply_fill l side s q p c = Inr l') \<longleftrightarrow>
    0 < q \<and> 0 < p \<and> 0 \<le> c \<and>
    (upper side = ''BUY'' \<and> dadd (dmul p (of_int q)) c \<le> cash l \<or>
     upper side = ''SELL'' \<and> q \<le> sellable_shares l s \<and>
     0 \<le> dadd (cash l) (dsub (dmul p (of_int q)) c))"
    (is "?accepts \<longleftrightarrow> ?covered")
proof
  assume ?accepts
  then obtain l' where "apply_fill l side s q p c = Inr l'" ..
  then obtain cc pp snap where "fill_effect l side s q p c = Inr (cc, pp)"
    by (rule apply_fill_steps)
  then show ?covered
    by (cases rule: fill_effect_cases) (auto simp: sellable_shares_def)
next
  assume a: ?covered
  have "\<exists>cc pp. fill_effect l side s q p c = Inr (cc, pp)"
    using a position_bounds[OF assms, of s]
    by (auto simp: fill_effect_def buy_effect_def sell_effect_def Let_def sellable_shares_def ddiv_def)
  then show ?accepts using apply_fill_accepts[OF assms] by blast
qed

lemma apply_fill_accepts_iff_witness:
  "\<exists>l'. apply_fill sample_ledger ''BUY'' ''A'' 100 10 5 = Inr l'"
  using apply_fill_accepts_iff[OF sample_ledger_ok, of "''BUY''" "''A''" 100 10 5]
  by (simp add: sample_ledger_def dadd_def dmul_def)

text \<open>
  C13: The ledger refines the share book: an accepted fill changes the held and sellable shares
  exactly as the abstract book does, and settlement makes all held shares sellable, with every
  rounding of money invisible at that level.
\<close>

theorem ledger_refines_book:
  assumes "ledger_ok l" and "apply_fill l side s q p c = Inr l'"
  shows "abs_book l' = book_fill (abs_book l) side s q \<and>
    abs_book (settle_all l') = book_settle (book_fill (abs_book l) side s q)"
  using apply_fill_book[OF assms] settle_all_book[of l'] by simp

lemma ledger_refines_book_witness:
  "\<exists>l'. apply_fill (settle_all sample_ledger) ''BUY'' ''A'' 100 10 5 = Inr l' \<and>
     abs_book l' ''A'' = (300, 200)"
proof -
  obtain l' where l': "apply_fill (settle_all sample_ledger) ''BUY'' ''A'' 100 10 5 = Inr l'"
    using sample_buy by blast
  have "abs_book (settle_all sample_ledger) ''A'' = (200, 200)"
    by (simp add: abs_book_def position_def dict_get_def sample_ledger_def settle_all_def)
  then show ?thesis
    using ledger_refines_book[OF settle_all_ok[OF sample_ledger_ok] l'] l'
    by (simp add: book_fill_def)
qed

text \<open>
  A snapshot of a well-formed ledger never fails, and with non-negative prices its equity lies
  between zero and the reported high-water mark, its drawdown between zero and one, and the
  high-water mark never falls.
\<close>

theorem snapshot_report:
  assumes "ledger_ok l" and "\<forall>(k, x)\<in>set prices. 0 \<le> x"
  shows "\<exists>s l'. snapshot prices l = Inr (s, l') \<and> ledger_ok l' \<and> cash l' = cash l \<and>
    positions l' = positions l \<and> 0 \<le> equity s \<and> equity s \<le> ls_high_water_mark s \<and>
    high_water l \<le> high_water l' \<and> high_water l' = ls_high_water_mark s \<and>
    0 \<le> ls_drawdown s \<and> ls_drawdown s \<le> 1"
proof -
  obtain s where s: "snapshot prices l = Inr (s, l\<lparr>high_water := ls_high_water_mark s\<rparr>)"
    using snapshot_defined[OF assms(1)] by blast
  from snapshot_bounds[OF s assms] snapshot_keeps_ok[OF s assms(1)] s show ?thesis by auto
qed

lemma snapshot_report_witness:
  "\<exists>s l'. snapshot [(''A'', 9)] sample_ledger = Inr (s, l') \<and> ls_drawdown s \<le> 1"
  using snapshot_report[OF sample_ledger_ok, of "[(''A'', 9)]"] by auto

section \<open>Amounts are decimals of the context\<close>

definition position_typed :: "ledger_position \<Rightarrow> bool" where
  "position_typed p \<longleftrightarrow> dec28 (cost_basis p)"

definition entry_typed :: "ledger_snapshot \<Rightarrow> bool" where
  "entry_typed e \<longleftrightarrow> dec28 (ls_cash e) \<and> dec28 (equity e) \<and> dec28 (ls_high_water_mark e) \<and>
     dec28 (ls_drawdown e) \<and> list_all position_typed (ls_positions e)"

definition amounts_typed :: "ledger \<Rightarrow> bool" where
  "amounts_typed l \<longleftrightarrow> dec28 (cash l) \<and> dec28 (high_water l) \<and>
     list_all position_typed (map snd (positions l)) \<and> list_all entry_typed (entries l)"

lemma dec28_max [simp]: "dec28 a \<Longrightarrow> dec28 b \<Longrightarrow> dec28 (max a b)"
  by (simp add: max_def)

lemma snapshot_typed:
  assumes "amounts_typed l" and "snapshot prices l = Inr (s, l')"
  shows "entry_typed s" and "amounts_typed l'"
proof -
  note d = snapshot_InrD[OF assms(2)]
  have eq: "dec28 (equity s)" using d(7) by auto
  then have hw: "dec28 (ls_high_water_mark s)" using assms(1) d(2) by (simp add: amounts_typed_def)
  have "dec28 (ls_drawdown s)"
    using d(5,6) by (cases "ls_high_water_mark s = 0") (auto simp: dec28_drnd)
  then show "entry_typed s"
    using assms(1) eq hw d(3,4) by (auto simp: entry_typed_def amounts_typed_def list_all_iff)
  show "amounts_typed l'" using assms(1) hw d(1) by (simp add: amounts_typed_def)
qed

lemma fill_effect_typed:
  assumes "fill_effect l side s q price costs = Inr (c, p)"
  shows "dec28 c" and "position_typed p"
  using assms by (cases rule: fill_effect_cases; simp add: position_typed_def)+

lemma write_position_typed:
  assumes "amounts_typed l" and "dec28 c" and "position_typed p"
  shows "amounts_typed (write_position l s c p)"
  using assms by (auto simp: amounts_typed_def write_position_def list_all_iff
      dest!: dict_set_in dict_pop_in)

lemma apply_fill_typed:
  assumes "amounts_typed l" and "apply_fill l side s q price costs = Inr l'"
  shows "amounts_typed l'"
proof -
  obtain c p snap where e: "fill_effect l side s q price costs = Inr (c, p)"
    and sn: "snapshot [] (write_position l s c p) = Inr (snap, l'\<lparr>entries := entries l\<rparr>)"
    and l': "l' = (write_position l s c p)\<lparr>high_water := ls_high_water_mark snap, entries := entries l @ [snap]\<rparr>"
    using apply_fill_steps[OF assms(2)] by metis
  have "amounts_typed (write_position l s c p)"
    by (rule write_position_typed[OF assms(1) fill_effect_typed[OF e]])
  from snapshot_typed[OF this sn] assms(1) show ?thesis by (simp add: amounts_typed_def l')
qed



end
