(* ===== verification/Runner.thy ===== *)
theory Runner
  imports Metrics Ledger
begin

text \<open>
  The engine-v1 replay of \<open>app/domain/backtest/runner.py\<close>: it executes given orders against daily
  bars, books the fills in the ledger and reports the curve. The SHA-256 of the canonical JSON is an
  argument of the definitions; what is hashed is modelled field by field.
\<close>

record backtest_config =
  bc_start :: date
  bc_end :: date
  initial_equity :: dec
  benchmark :: string
  training_end :: "date option"
  validation_end :: "date option"
  execution_mode :: string
  fill_mode :: string
  oos_start :: "date option"

record run_snapshot =
  rs_data_version :: string
  rs_strategy_version :: string
  rs_cost_version :: string
  rs_benchmark :: string
  rs_start :: date
  rs_end :: date
  rs_training_end :: "date option"
  rs_validation_end :: "date option"
  rs_input_hash :: string
  rs_initial_equity :: dec
  rs_execution_mode :: string
  rs_fill_mode :: string

record skipped_order =
  sk_date :: date
  sk_symbol :: string
  sk_reason :: string

record backtest_series =
  series_code :: string
  points :: "(date \<times> dec) list"
  availability :: string

record segment_metrics =
  sm_series :: string
  sm_segment :: string
  sm_metrics :: metrics

record backtest_result =
  br_snapshot :: run_snapshot
  br_snapshot_hash :: string
  equity_curve :: "dec list"
  br_metrics :: metrics
  br_ledger_snapshots :: "ledger_snapshot list"
  br_skipped :: "skipped_order list"
  br_fills :: "fill list"
  engine_version :: string
  br_series :: "backtest_series list"
  br_segments :: "segment_metrics list"
  br_risk_state :: string

section \<open>What the run hashes\<close>

type_synonym bar_payload = "string \<times> date \<times> dec option \<times> dec option \<times> dec option \<times> dec option \<times>
  bool \<times> bool \<times> bool \<times> bool option \<times> bool option \<times> int option"

type_synonym order_payload = "string \<times> string \<times> int \<times> string \<times> date option"

definition bar_payload_of :: "market_bar \<Rightarrow> bar_payload" where
  "bar_payload_of b = (mb_symbol b, mb_date b, mb_open b, mb_low b, mb_high b, mb_close b,
     mb_suspended b, limit_up b, limit_down b, close_limit_up b, close_limit_down b,
     mb_available_quantity b)"

definition order_payload_of :: "order \<Rightarrow> order_payload" where
  "order_payload_of o1 = (o_side o1, o_symbol o1, o_quantity o1, o_fill_mode o1, o_signal_date o1)"

type_synonym raw_payload = "bar_payload list \<times> (string \<times> order_payload list) list"

definition raw_payload_of :: "market_bar list \<Rightarrow> (date, order list) dict \<Rightarrow> raw_payload" where
  "raw_payload_of bars orders = (map bar_payload_of bars,
     map (\<lambda>(d, os). (isoformat d, map order_payload_of os)) (sort_key fst orders))"

section \<open>One trading day\<close>

record v1_state =
  v1_ledger :: ledger
  v1_equity :: "dec list"
  v1_snapshots :: "ledger_snapshot list"
  v1_skipped :: "skipped_order list"
  v1_fills :: "fill list"
  v1_closes :: "(string, dec) dict"

definition skip :: "date \<Rightarrow> order \<Rightarrow> string \<Rightarrow> v1_state \<Rightarrow> v1_state" where
  "skip trade_date o1 why st = st\<lparr>v1_skipped := v1_skipped st @
     [\<lparr>sk_date = trade_date, sk_symbol = o_symbol o1, sk_reason = why\<rparr>]\<rparr>"

text \<open>The fill is booked when it was executed at a price with costs.\<close>

definition book_fill_in :: "ledger \<Rightarrow> fill \<Rightarrow> ledger res" where
  "book_fill_in l f =
     (case (f_price f, f_costs f) of
        (Some price, Some costs) \<Rightarrow>
          if f_status f \<in> {''FILLED'', ''PARTIALLY_FILLED''}
          then apply_fill l (f_side f) (f_symbol f) (f_quantity f) price (cost_total costs)
          else Inr l
      | _ \<Rightarrow> Inr l)"

definition v1_order_step ::
    "cost_model \<Rightarrow> backtest_config \<Rightarrow> date \<Rightarrow> (string, market_bar) dict \<Rightarrow> v1_state \<Rightarrow> order \<Rightarrow> v1_state res"
where
  "v1_order_step m config trade_date bars_by_symbol st o1 =
     (case map_of bars_by_symbol (o_symbol o1) of
        None \<Rightarrow> Inr (skip trade_date o1 ''MISSING_EXECUTION_BAR'' st)
      | Some bar \<Rightarrow>
        (case o_signal_date o1 of
           None \<Rightarrow> Inr (skip trade_date o1 ''MISSING_SIGNAL_DATE'' st)
         | Some signal \<Rightarrow>
           if signal \<ge> trade_date
           then Inr (skip trade_date o1 ''SIGNAL_DATE_NOT_BEFORE_EXECUTION'' st)
           else andThen (execute m (o1\<lparr>o_fill_mode := fill_mode config\<rparr>) bar) (\<lambda>simulated.
             let f = simulated\<lparr>f_execution_date := Some trade_date, f_signal_date := o_signal_date o1,
                       f_industry := o_industry o1\<rparr> in
             andThen (book_fill_in (v1_ledger st) f) (\<lambda>l.
               Inr (st\<lparr>v1_fills := v1_fills st @ [f], v1_ledger := l\<rparr>)))))"

definition update_closes :: "(string, dec) dict \<Rightarrow> market_bar list \<Rightarrow> (string, dec) dict" where
  "update_closes closes bars =
     foldl (\<lambda>d b. case mb_close b of None \<Rightarrow> d | Some x \<Rightarrow> dict_set (mb_symbol b) x d) closes bars"

definition v1_day ::
    "cost_model \<Rightarrow> backtest_config \<Rightarrow> (date, order list) dict \<Rightarrow> v1_state \<Rightarrow> date \<times> market_bar list \<Rightarrow> v1_state res"
where
  "v1_day m config orders st day =
     (let trade_date = fst day; day_bars = snd day;
          bars_by_symbol = dict_of mb_symbol id day_bars;
          st1 = st\<lparr>v1_ledger := settle_all (v1_ledger st), v1_closes := update_closes (v1_closes st) day_bars\<rparr>
      in andThen (fold_res (v1_order_step m config trade_date bars_by_symbol) st1 (dict_get orders trade_date []))
        (\<lambda>st2. andThen (snapshot (v1_closes st2) (v1_ledger st2)) (\<lambda>(snap, l).
          Inr (st2\<lparr>v1_ledger := l, v1_snapshots := v1_snapshots st2 @ [snap],
                  v1_equity := v1_equity st2 @ [equity snap]\<rparr>))))"

section \<open>The run\<close>

definition bar_order :: "market_bar \<Rightarrow> date \<times> string" where
  "bar_order b = (mb_date b, mb_symbol b)"

definition group_by_date :: "market_bar list \<Rightarrow> (date, market_bar list) dict" where
  "group_by_date bars = foldl (\<lambda>d b. dict_append (mb_date b) b d) [] bars"

definition v1_run ::
    "'f float_ops \<Rightarrow> (raw_payload \<Rightarrow> string) \<Rightarrow> (run_snapshot \<Rightarrow> string) \<Rightarrow> cost_model \<Rightarrow> backtest_config \<Rightarrow>
     market_bar list \<Rightarrow> string \<Rightarrow> string \<Rightarrow> string option \<Rightarrow> (date, order list) dict \<Rightarrow> backtest_result res"
where
  "v1_run fo hash_raw hash_snapshot m config bars data_ver strategy_ver input_hash orders =
     (if execution_mode config \<noteq> ''NEXT_OPEN_ADJUSTED'' \<or> fill_mode config \<noteq> ''FULL_OR_NONE''
      then Inl (ValueError ''backtest requires NEXT_OPEN_ADJUSTED and FULL_OR_NONE'')
      else let ordered = sort_key bar_order
                 (filter (\<lambda>b. bc_start config \<le> mb_date b \<and> mb_date b \<le> bc_end config) bars);
               raw = (case input_hash of Some h \<Rightarrow> if h = [] then hash_raw (raw_payload_of ordered orders) else h
                      | None \<Rightarrow> hash_raw (raw_payload_of ordered orders));
               snap = \<lparr>rs_data_version = data_ver, rs_strategy_version = strategy_ver,
                 rs_cost_version = cost_version m, rs_benchmark = benchmark config,
                 rs_start = bc_start config, rs_end = bc_end config,
                 rs_training_end = training_end config, rs_validation_end = validation_end config,
                 rs_input_hash = raw, rs_initial_equity = initial_equity config,
                 rs_execution_mode = execution_mode config, rs_fill_mode = fill_mode config\<rparr>;
               by_date = sort_key fst (group_by_date ordered)
        in andThen (new_ledger (initial_equity config)) (\<lambda>l0.
           andThen (fold_res (v1_day m config orders)
               \<lparr>v1_ledger = l0, v1_equity = [initial_equity config], v1_snapshots = [], v1_skipped = [],
                v1_fills = [], v1_closes = []\<rparr> by_date) (\<lambda>st.
           andThen (calculate_metrics fo (v1_equity st) (v1_fills st) (map fst by_date)) (\<lambda>met.
             Inr \<lparr>br_snapshot = snap, br_snapshot_hash = hash_snapshot snap, equity_curve = v1_equity st,
                 br_metrics = met, br_ledger_snapshots = v1_snapshots st, br_skipped = v1_skipped st,
                 br_fills = v1_fills st, engine_version = ''engine-v1'', br_series = [],
                 br_segments = [], br_risk_state = ''NORMAL''\<rparr>))))"

section \<open>Invariants of the replay\<close>

lemma dict_append_in:
  "(k', xs) \<in> set (dict_append k x d) \<Longrightarrow> (k', xs) \<in> set d \<or> k' = k \<and> set xs \<subseteq> insert x (set (dict_get d k []))"
  by (auto simp: dict_append_def dest!: dict_set_in)

lemma dict_get_in: "dict_get d k v = v \<or> (k, dict_get d k v) \<in> set d"
  by (auto simp: dict_get_def split: option.splits dest: map_of_SomeD)

lemma group_by_date_in:
  assumes "(d, bs) \<in> set (group_by_date bars)"
  shows "\<forall>b\<in>set bs. b \<in> set bars \<and> mb_date b = d" "\<exists>b\<in>set bars. mb_date b = d"
proof -
  have "\<forall>(d, bs)\<in>set g. (\<forall>b\<in>set bs. b \<in> B \<and> mb_date b = d) \<and> (\<exists>b\<in>B. mb_date b = d) \<Longrightarrow> set bars \<subseteq> B \<Longrightarrow>
    \<forall>(d, bs)\<in>set (foldl (\<lambda>d b. dict_append (mb_date b) b d) g bars).
      (\<forall>b\<in>set bs. b \<in> B \<and> mb_date b = d) \<and> (\<exists>b\<in>B. mb_date b = d)" for g B
  proof (induction bars arbitrary: g)
    case (Cons b bars)
    have "\<forall>(d, bs)\<in>set (dict_append (mb_date b) b g).
      (\<forall>b\<in>set bs. b \<in> B \<and> mb_date b = d) \<and> (\<exists>b\<in>B. mb_date b = d)"
      using Cons.prems dict_get_in[of g "mb_date b" "[]"] by (fastforce dest!: dict_append_in)
    from Cons.IH[OF this] Cons.prems(2) show ?case by simp
  qed simp
  from this[of "[]" "set bars"] assms
  show "\<forall>b\<in>set bs. b \<in> set bars \<and> mb_date b = d" "\<exists>b\<in>set bars. mb_date b = d"
    by (auto simp: group_by_date_def)
qed

lemma book_fill_in_ok:
  "ledger_ok l \<Longrightarrow> book_fill_in l f = Inr l' \<Longrightarrow> ledger_ok l'"
  by (auto simp: book_fill_in_def intro: apply_fill_ok split: option.splits if_splits)

definition causal_fill :: "backtest_config \<Rightarrow> fill \<Rightarrow> bool" where
  "causal_fill config f \<longleftrightarrow> (\<exists>s d. f_signal_date f = Some s \<and> f_execution_date f = Some d \<and> s < d \<and>
     bc_start config \<le> d \<and> d \<le> bc_end config)"

definition v1_ok :: "backtest_config \<Rightarrow> v1_state \<Rightarrow> bool" where
  "v1_ok config st \<longleftrightarrow> ledger_ok (v1_ledger st) \<and> (\<forall>f\<in>set (v1_fills st). causal_fill config f) \<and>
     (\<forall>(s, x)\<in>set (v1_closes st). 0 \<le> x) \<and>
     v1_equity st = initial_equity config # map equity (v1_snapshots st) \<and>
     (\<forall>s\<in>set (v1_snapshots st). 0 \<le> equity s \<and> equity s \<le> ls_high_water_mark s \<and>
        0 \<le> ls_drawdown s \<and> ls_drawdown s \<le> 1 \<and> 0 \<le> ls_cash s)"

lemma update_closes_nonneg:
  assumes "\<forall>(s, x)\<in>set closes. 0 \<le> x" and "\<forall>b\<in>set bars. \<forall>x. mb_close b = Some x \<longrightarrow> 0 \<le> x"
  shows "\<forall>(s, x)\<in>set (update_closes closes bars). 0 \<le> x"
  using assms unfolding update_closes_def
proof (induction bars arbitrary: closes)
  case (Cons b bars)
  have "\<forall>(s, x)\<in>set (case mb_close b of None \<Rightarrow> closes | Some x \<Rightarrow> dict_set (mb_symbol b) x closes). 0 \<le> x"
    using Cons.prems by (auto split: option.splits dest!: dict_set_in)
  from Cons.IH[OF this] Cons.prems(2) show ?case by simp
qed simp

lemma v1_order_step_ok:
  assumes "v1_ok config st" and "v1_order_step m config d bars st o1 = Inr st'"
    and "bc_start config \<le> d" "d \<le> bc_end config"
  shows "v1_ok config st'"
proof (cases "v1_skipped st' = v1_skipped st")
  case True
  then obtain bar signal simulated l where b: "map_of bars (o_symbol o1) = Some bar"
    "o_signal_date o1 = Some signal" "signal < d"
    "book_fill_in (v1_ledger st) (simulated\<lparr>f_execution_date := Some d, f_signal_date := o_signal_date o1,
       f_industry := o_industry o1\<rparr>) = Inr l"
    "st' = st\<lparr>v1_fills := v1_fills st @ [simulated\<lparr>f_execution_date := Some d,
       f_signal_date := o_signal_date o1, f_industry := o_industry o1\<rparr>], v1_ledger := l\<rparr>"
    using assms(2)
    by (auto simp: v1_order_step_def andThen_Inr_iff skip_def not_le Let_def split: option.splits if_splits)
  then show ?thesis using assms(1,3,4) book_fill_in_ok[OF _ b(4)]
    by (auto simp: v1_ok_def causal_fill_def)
next
  case False
  then obtain why where "st' = skip d o1 why st"
    using assms(2)
    by (auto simp: v1_order_step_def andThen_Inr_iff Let_def split: option.splits if_splits)
  then show ?thesis using assms(1) by (auto simp: v1_ok_def skip_def)
qed

lemma v1_day_ok:
  assumes "v1_ok config st" and "v1_day m config orders st (d, bars) = Inr st'"
    and "bc_start config \<le> d" "d \<le> bc_end config"
    and "\<forall>b\<in>set bars. \<forall>x. mb_close b = Some x \<longrightarrow> 0 \<le> x"
  shows "v1_ok config st' \<and> length (v1_snapshots st') = Suc (length (v1_snapshots st))"
proof -
  let ?st1 = "st\<lparr>v1_ledger := settle_all (v1_ledger st), v1_closes := update_closes (v1_closes st) bars\<rparr>"
  obtain st2 snap l where st2: "fold_res (v1_order_step m config d (dict_of mb_symbol id bars)) ?st1
      (dict_get orders d []) = Inr st2"
    and snap: "snapshot (v1_closes st2) (v1_ledger st2) = Inr (snap, l)"
    and st': "st' = st2\<lparr>v1_ledger := l, v1_snapshots := v1_snapshots st2 @ [snap],
                  v1_equity := v1_equity st2 @ [equity snap]\<rparr>"
    using assms(2) by (auto simp: v1_day_def Let_def andThen_Inr_iff split: prod.splits)
  have "\<forall>(s, x)\<in>set (v1_closes st). 0 \<le> x" using assms(1) by (simp add: v1_ok_def)
  from update_closes_nonneg[OF this assms(5)] have ok1: "v1_ok config ?st1"
    using assms(1) settle_all_ok by (simp add: v1_ok_def)
  have "v1_ok config st2 \<and> length (v1_snapshots st2) = length (v1_snapshots st)"
  proof (rule fold_res_invariant[OF st2,
      where I = "\<lambda>s. v1_ok config s \<and> length (v1_snapshots s) = length (v1_snapshots st)"])
    fix s x s' assume "v1_ok config s \<and> length (v1_snapshots s) = length (v1_snapshots st)"
      and step: "v1_order_step m config d (dict_of mb_symbol id bars) s x = Inr s'"
    moreover have "v1_snapshots s' = v1_snapshots s"
      using step by (auto simp: v1_order_step_def andThen_Inr_iff skip_def Let_def split: option.splits if_splits)
    ultimately show "v1_ok config s' \<and> length (v1_snapshots s') = length (v1_snapshots st)"
      using v1_order_step_ok[of config s m d _ x s'] assms(3,4) by simp
  qed (use ok1 in simp)
  then have ok2: "v1_ok config st2" "length (v1_snapshots st2) = length (v1_snapshots st)" by auto
  from ok2(1) have lok: "ledger_ok (v1_ledger st2)" and pr: "\<forall>(k, x)\<in>set (v1_closes st2). 0 \<le> x"
    by (simp_all add: v1_ok_def)
  note b = snapshot_bounds[OF snap lok pr] snapshot_InrD(3)[OF snap]
  have "0 \<le> cash (v1_ledger st2)" using lok by (simp add: ledger_ok_def)
  then show ?thesis
    using ok2 b snapshot_keeps_ok[OF snap lok] st' by (auto simp: v1_ok_def)
qed

section \<open>Properties\<close>

text \<open>
  The replay is causal and solvent: with non-negative closes, in every result of a run each fill
  was signalled strictly before its execution date, which lies in the configured period, the curve
  starts with the initial equity and has one point per trading day, and on each day cash and equity
  are not negative, equity is at most the high-water mark and the drawdown lies in [0, 1].
\<close>

theorem v1_run_causal:
  assumes "v1_run fo hr hs m config bars dv sv ih orders = Inr r"
    and "dec28 (initial_equity config)"
    and "\<forall>b\<in>set bars. \<forall>x. mb_close b = Some x \<longrightarrow> 0 \<le> x"
  shows "(\<forall>f\<in>set (br_fills r). \<exists>s d. f_signal_date f = Some s \<and> f_execution_date f = Some d \<and> s < d \<and>
      bc_start config \<le> d \<and> d \<le> bc_end config) \<and>
    equity_curve r = initial_equity config # map equity (br_ledger_snapshots r) \<and>
    (\<forall>s\<in>set (br_ledger_snapshots r). 0 \<le> ls_cash s \<and> 0 \<le> equity s \<and>
      equity s \<le> ls_high_water_mark s \<and> 0 \<le> ls_drawdown s \<and> ls_drawdown s \<le> 1)"
proof -
  let ?in = "filter (\<lambda>b. bc_start config \<le> mb_date b \<and> mb_date b \<le> bc_end config) bars"
  let ?days = "sort_key fst (group_by_date (sort_key bar_order ?in))"
  obtain l0 st where l0: "new_ledger (initial_equity config) = Inr l0"
    and st: "fold_res (v1_day m config orders) \<lparr>v1_ledger = l0, v1_equity = [initial_equity config],
       v1_snapshots = [], v1_skipped = [], v1_fills = [], v1_closes = []\<rparr> ?days = Inr st"
    and r: "br_fills r = v1_fills st" "equity_curve r = v1_equity st" "br_ledger_snapshots r = v1_snapshots st"
    using assms(1) by (auto simp: v1_run_def Let_def andThen_Inr_iff split: if_splits)
  have "v1_ok config st"
  proof (rule fold_res_invariant[OF st])
    show "v1_ok config \<lparr>v1_ledger = l0, v1_equity = [initial_equity config],
       v1_snapshots = [], v1_skipped = [], v1_fills = [], v1_closes = []\<rparr>"
      using new_ledger_ok[OF l0 assms(2)] by (simp add: v1_ok_def)
  next
    fix s day s' assume s: "v1_ok config s" "day \<in> set ?days" "v1_day m config orders s day = Inr s'"
    obtain d bs where day: "day = (d, bs)" by (cases day)
    have "(d, bs) \<in> set (group_by_date (sort_key bar_order ?in))" using s(2) by (simp add: day)
    note g = group_by_date_in[OF this]
    show "v1_ok config s'"
      using v1_day_ok[OF s(1) s(3)[unfolded day]] g assms(3) by auto
  qed
  then show ?thesis by (auto simp: v1_ok_def causal_fill_def r)
qed

definition sample_config :: backtest_config where
  "sample_config = \<lparr>bc_start = 737990, bc_end = 738010, initial_equity = 20000, benchmark = ''000300.SH'',
     training_end = None, validation_end = None, execution_mode = ''NEXT_OPEN_ADJUSTED'',
     fill_mode = ''FULL_OR_NONE'', oos_start = None\<rparr>"

definition sample_v1_order :: order where
  "sample_v1_order = (sample_order 100 ''FULL_OR_NONE'')\<lparr>o_signal_date := Some 737999\<rparr>"

lemma sample_v1_execution:
  "execute default_cost_model (sample_v1_order\<lparr>o_fill_mode := ''FULL_OR_NONE''\<rparr>) (sample_bar 10 9 11) =
   Inr \<lparr>f_status = ''FILLED'', f_side = ''BUY'', f_symbol = ''600000.SH'', f_quantity = 100,
     f_price = Some (1002/100), f_costs = Some \<lparr>commission = 5, stamp_duty = 0,
       transfer_fee = 1002/100000, regulatory_fee = 0, handling_fee = 0\<rparr>,
     f_reason = None, f_unfilled = 0, f_execution_date = None, f_signal_date = None,
     f_industry = None, f_reasons = []\<rparr>"
  by (simp add: execute_def sample_v1_order_def sample_order_def sample_bar_def execute_at_def Let_def
      execution_price_def default_cost_model_def dmul_def dadd_def fill_available_def calculate_def)

lemma sample_v1_day:
  "\<exists>st. v1_day default_cost_model sample_config [(738000, [sample_v1_order])]
     \<lparr>v1_ledger = \<lparr>cash = 20000, positions = [], entries = [], high_water = 20000\<rparr>, v1_equity = [20000],
       v1_snapshots = [], v1_skipped = [], v1_fills = [], v1_closes = []\<rparr>
     (738000, [sample_bar 10 9 11]) = Inr st \<and> length (v1_fills st) = 1"
proof -
  let ?l = "\<lparr>cash = 20000, positions = [], entries = [], high_water = 20000\<rparr>"
  have ok: "ledger_ok ?l"
    using new_ledger_ok[of 20000 ?l] dec28_of_int[of 20000] by (simp add: new_ledger_def)
  have c: "cost_total \<lparr>commission = 5, stamp_duty = 0, transfer_fee = 501/50000,
       regulatory_fee = 0, handling_fee = 0\<rparr> = 250501/50000"
    by (simp add: cost_total_def dadd_def)
  obtain l1 where l1: "apply_fill ?l ''BUY'' ''600000.SH'' 100 (501/50) (250501/50000) = Inr l1"
    using buy_accepts[OF ok, of 100 "501/50" "250501/50000" "''600000.SH''"]
    by (auto simp: dadd_def dmul_def)
  obtain snap where "snapshot [(''600000.SH'', 10)] l1 = Inr (snap, l1\<lparr>high_water := ls_high_water_mark snap\<rparr>)"
    using snapshot_defined[OF apply_fill_ok[OF ok l1]] by blast
  then show ?thesis
    using sample_v1_execution
    by (simp add: c l1 v1_day_def Let_def v1_order_step_def dict_get_def dict_of_def sample_config_def
        sample_v1_order_def sample_order_def book_fill_in_def settle_all_def update_closes_def sample_bar_def)
qed

lemma v1_run_causal_witness:
  "\<exists>r. v1_run \<lparr>fl_of_dec = id, fl_of_nat = of_nat, fl_sum = sum_list, fl_sub = (-), fl_mul = (*),
       fl_div = (/), fl_square = (\<lambda>x. x * x), fl_sqrt = id, fl_is_zero = (\<lambda>x. x = 0), fl_dec = id\<rparr>
     (\<lambda>_. ''h'') (\<lambda>_. ''s'') default_cost_model sample_config [sample_bar 10 9 11] ''d'' ''v'' None
     [(738000, [sample_v1_order])] = Inr r \<and> (\<forall>s\<in>set (br_ledger_snapshots r). 0 \<le> ls_cash s)"
proof -
  let ?fo = "\<lparr>fl_of_dec = id, fl_of_nat = of_nat, fl_sum = sum_list, fl_sub = (-), fl_mul = (*),
       fl_div = (/), fl_square = (\<lambda>x. x * x), fl_sqrt = id, fl_is_zero = (\<lambda>x. x = 0), fl_dec = id\<rparr> :: rat float_ops"
  let ?run = "v1_run ?fo (\<lambda>_. ''h'') (\<lambda>_. ''s'') default_cost_model sample_config [sample_bar 10 9 11] ''d'' ''v'' None
     [(738000, [sample_v1_order])]"
  obtain st where st: "v1_day default_cost_model sample_config [(738000, [sample_v1_order])]
     \<lparr>v1_ledger = \<lparr>cash = 20000, positions = [], entries = [], high_water = 20000\<rparr>, v1_equity = [20000],
       v1_snapshots = [], v1_skipped = [], v1_fills = [], v1_closes = []\<rparr>
     (738000, [sample_bar 10 9 11]) = Inr st"
    using sample_v1_day by blast
  have bar: "mb_date (sample_bar 10 9 11) = 738000" "mb_close (sample_bar 10 9 11) = Some 10"
    by (simp_all add: sample_bar_def)
  have len: "length (v1_equity st) = 2" using st
    by (auto simp: v1_day_def Let_def andThen_Inr_iff dict_get_def v1_order_step_def skip_def
        split: option.splits if_splits prod.splits)
  then have "calculate_metrics ?fo (v1_equity st) (v1_fills st) [738000] = Inr insufficient"
    by (simp add: calculate_metrics_def)
  with st bar obtain r where r: "?run = Inr r"
    by (auto simp: v1_run_def sample_config_def new_ledger_def group_by_date_def dict_append_def
        dict_get_def Let_def)
  have "dec28 (initial_equity sample_config)"
    using dec28_of_int[of 20000] by (simp add: sample_config_def)
  from v1_run_causal[OF r this] bar r show ?thesis by auto
qed

end
