(* ===== verification/PyValue.thy ===== *)
theory PyValue
  imports Timestamps PyText
begin

text \<open>
  Dynamically typed values as the code meets them in configuration mappings and data rows, with the
  conversions the code applies: \<open>str\<close>, \<open>int(str(x))\<close>, \<open>Decimal(str(x))\<close>. A \<open>Decimal\<close> or
  \<open>float\<close> value is represented by its \<open>str\<close>, from which it is recovered exactly.
\<close>

datatype pyval =
    PNone
  | PBool bool
  | PInt int
  | PText string
  | PDecimal string
  | PFloat string
  | PDate date
  | PDatetime datetime

type_synonym row = "(string, pyval) dict"

definition row_get :: "row \<Rightarrow> string \<Rightarrow> pyval" where
  "row_get r k = dict_get r k PNone"

section \<open>Decimal strings\<close>

datatype dec_value = Finite dec | Infinite bool | NotANumber

definition is_digit :: "char \<Rightarrow> bool" where
  "is_digit c \<longleftrightarrow> 48 \<le> (of_char c :: nat) \<and> (of_char c :: nat) \<le> 57"

definition digits_value :: "string \<Rightarrow> nat" where
  "digits_value s = foldl (\<lambda>n c. 10 * n + (of_char c - 48)) 0 s"

text \<open>An optional sign and the text after it.\<close>

definition split_sign :: "string \<Rightarrow> bool \<times> string" where
  "split_sign s = (case s of
     c # cs \<Rightarrow> if c = CHR ''-'' then (True, cs) else if c = CHR ''+'' then (False, cs) else (False, s)
   | [] \<Rightarrow> (False, []))"

definition parse_exponent :: "string \<Rightarrow> int option" where
  "parse_exponent s = (case s of
     [] \<Rightarrow> Some 0
   | _ # rest \<Rightarrow> (case split_sign rest of (neg, ds) \<Rightarrow>
       if ds = [] \<or> \<not> list_all is_digit ds then None
       else Some (if neg then - int (digits_value ds) else int (digits_value ds))))"

text \<open>Digits with at most one point and an optional exponent; at least one digit.\<close>

definition parse_number :: "string \<Rightarrow> dec option" where
  "parse_number s =
     (let mantissa = takeWhile (\<lambda>c. c \<noteq> CHR ''e'') s;
          whole = takeWhile (\<lambda>c. c \<noteq> CHR ''.'') mantissa;
          fraction = drop (Suc (length whole)) mantissa
      in if list_all is_digit (whole @ fraction) \<and> whole @ fraction \<noteq> []
         then map_option (\<lambda>e. of_nat (digits_value (whole @ fraction)) * 10 powi (e - int (length fraction)))
                (parse_exponent (drop (length mantissa) s))
         else None)"

text \<open>\<open>Decimal(s)\<close>, or \<open>None\<close> where it raises \<open>InvalidOperation\<close>.\<close>

definition parse_decimal :: "string \<Rightarrow> dec_value option" where
  "parse_decimal text =
     (case split_sign (filter (\<lambda>c. c \<noteq> CHR ''_'') (lower (strip text))) of (neg, s) \<Rightarrow>
        if s = ''inf'' \<or> s = ''infinity'' then Some (Infinite neg)
        else if starts_with ''nan'' s \<and> list_all is_digit (drop 3 s) then Some NotANumber
        else if starts_with ''snan'' s \<and> list_all is_digit (drop 4 s) then Some NotANumber
        else map_option (\<lambda>v. Finite (if neg then - v else v)) (parse_number s))"

definition decimal_of :: "pyval \<Rightarrow> dec_value option" where
  "decimal_of v = (case v of
     PText s \<Rightarrow> parse_decimal s | PDecimal s \<Rightarrow> parse_decimal s | PFloat s \<Rightarrow> parse_decimal s
   | PInt i \<Rightarrow> Some (Finite (of_int i))
   | _ \<Rightarrow> None)"

section \<open>Integer strings\<close>

text \<open>\<open>int(s)\<close>: surrounding blanks, a sign, digits with single underscores between them.\<close>

definition parse_int :: "string \<Rightarrow> int option" where
  "parse_int text =
     (case split_sign (strip text) of (neg, s) \<Rightarrow>
        let parts = split_on (CHR ''_'') s in
        if list_all (\<lambda>p. p \<noteq> [] \<and> list_all is_digit p) parts
        then Some (if neg then - int (digits_value (concat parts)) else int (digits_value (concat parts)))
        else None)"

definition int_of :: "pyval \<Rightarrow> int option" where
  "int_of v = (case v of
     PText s \<Rightarrow> parse_int s | PDecimal s \<Rightarrow> parse_int s | PFloat s \<Rightarrow> parse_int s
   | PInt i \<Rightarrow> Some i
   | _ \<Rightarrow> None)"

lemma parse_examples:
  "parse_decimal ''0.70'' = Some (Finite (7/10))" "parse_decimal '' -1_0E2 '' = Some (Finite (-1000))"
  "parse_decimal ''.'' = None" "parse_int '' +1_00'' = Some 100" "parse_int ''1__0'' = None"
  by code_simp+

text \<open>The definitions that evaluate a parse by simplification.\<close>

lemmas parse_simps = parse_decimal_def split_sign_def strip_def lower_def lower_char_def is_space_def
  parse_number_def is_digit_def digits_value_def starts_with_def parse_exponent_def

lemma default_rule_numbers:
  "parse_decimal ''0.70'' = Some (Finite (7/10))" "parse_decimal ''0.20'' = Some (Finite (2/10))"
  "parse_decimal ''0.35'' = Some (Finite (35/100))" "parse_decimal ''3500'' = Some (Finite 3500)"
  "parse_decimal ''0.06'' = Some (Finite (6/100))" "parse_decimal ''0.08'' = Some (Finite (8/100))"
  by (simp_all add: parse_simps)

end
