(* ===== verification/Features.thy ===== *)
theory Features
  imports Timestamps
begin

text \<open>
  Strategy bars and the causal rolling features of \<open>app/domain/strategy/features.py\<close>. The
  histories a feature is computed from are filtered by date and by the information cutoff;
  every feature reads them only.
\<close>

record strategy_bar =
  sb_symbol :: string
  sb_date :: date
  sb_close :: dec
  sb_amount :: dec
  sb_available_at :: "datetime option"
  sb_suspended :: bool
  sb_st :: bool
  sb_delisted :: bool
  sb_limit_up :: bool
  sb_industry :: "string option"
  sb_list_date :: "date option"

record feature_snapshot =
  fs_symbol :: string
  fs_date :: date
  fs_close :: "dec option"
  ma10 :: "dec option"
  market_close :: "dec option"
  market_ma20 :: "dec option"
  return_5d :: "dec option"
  return_20d :: "dec option"
  amount_ratio :: "dec option"
  reliably_buyable :: bool
  fs_available_at :: "datetime option"
  fs_industry :: "string option"
  fs_st :: bool
  fs_suspended :: bool
  fs_delisted :: bool
  fs_limit_up :: bool

definition mean :: "dec list \<Rightarrow> dec option" where
  "mean xs = (if xs = [] then None else Some (drnd (dsum xs / of_nat (length xs))))"

text \<open>A bar of the past that is proven available by the cutoff.\<close>

definition visible :: "date \<Rightarrow> datetime option \<Rightarrow> strategy_bar \<Rightarrow> bool" where
  "visible trade_date cutoff b \<longleftrightarrow>
     sb_date b \<le> trade_date \<and> available_at_or_before (sb_available_at b) cutoff"

definition stock_history ::
    "strategy_bar list \<Rightarrow> string \<Rightarrow> date \<Rightarrow> datetime option \<Rightarrow> strategy_bar list" where
  "stock_history bars symbol trade_date cutoff =
     sort_key sb_date (filter (\<lambda>b. sb_symbol b = symbol \<and> visible trade_date cutoff b) bars)"

definition market_history ::
    "strategy_bar list \<Rightarrow> date \<Rightarrow> datetime option \<Rightarrow> strategy_bar list" where
  "market_history bars trade_date cutoff = sort_key sb_date (filter (visible trade_date cutoff) bars)"

definition bar_on :: "date \<Rightarrow> strategy_bar list \<Rightarrow> strategy_bar option" where
  "bar_on d bars = find_last (\<lambda>b. sb_date b = d) bars"

text \<open>\<open>_mean(xs[-n:]) if len(xs) >= n else None\<close>\<close>

definition moving_average :: "int \<Rightarrow> dec list \<Rightarrow> dec option" where
  "moving_average n xs = (if int (length xs) \<ge> n then mean (slice_from (- n) xs) else None)"

text \<open>\<open>xs[-1] / xs[-1 - n] - 1 if len(xs) >= n + 1 else None\<close>\<close>

definition return_over :: "nat \<Rightarrow> dec list \<Rightarrow> (dec option) res" where
  "return_over n xs =
     (if length xs < n + 1 then Inr None
      else andThen (ddiv (last xs) (xs ! (length xs - (n + 1)))) (\<lambda>q. Inr (Some (dsub q 1))))"

definition ratio_of :: "dec option \<Rightarrow> dec option \<Rightarrow> (dec option) res" where
  "ratio_of a b = (case (a, b) of
     (Some x, Some y) \<Rightarrow> if y \<noteq> 0 then andThen (ddiv x y) (\<lambda>q. Inr (Some q)) else Inr None
   | _ \<Rightarrow> Inr None)"

definition empty_snapshot :: "string \<Rightarrow> date \<Rightarrow> feature_snapshot" where
  "empty_snapshot symbol trade_date =
     \<lparr>fs_symbol = symbol, fs_date = trade_date, fs_close = None, ma10 = None, market_close = None,
      market_ma20 = None, return_5d = None, return_20d = None, amount_ratio = None,
      reliably_buyable = False, fs_available_at = None, fs_industry = None, fs_st = False,
      fs_suspended = False, fs_delisted = False, fs_limit_up = False\<rparr>"

text \<open>The snapshot from the two histories and today's bar.\<close>

definition snapshot_from ::
    "string \<Rightarrow> date \<Rightarrow> strategy_bar list \<Rightarrow> strategy_bar list \<Rightarrow> strategy_bar \<Rightarrow> feature_snapshot res" where
  "snapshot_from symbol trade_date stock market current =
     (let closes = map sb_close stock; amounts = map sb_amount stock;
          market_closes = map sb_close market in
      andThen (return_over 5 closes) (\<lambda>r5.
      andThen (return_over 20 closes) (\<lambda>r20.
      andThen (ratio_of (moving_average 5 amounts) (moving_average 20 amounts)) (\<lambda>ratio.
        Inr \<lparr>fs_symbol = symbol, fs_date = trade_date, fs_close = Some (sb_close current),
          ma10 = moving_average 10 closes,
          market_close = map_option sb_close (bar_on trade_date market),
          market_ma20 = moving_average 20 market_closes,
          return_5d = r5, return_20d = r20, amount_ratio = ratio,
          reliably_buyable = (\<not> sb_suspended current \<and> \<not> sb_limit_up current),
          fs_available_at = sb_available_at current, fs_industry = sb_industry current,
          fs_st = sb_st current, fs_suspended = sb_suspended current,
          fs_delisted = sb_delisted current, fs_limit_up = sb_limit_up current\<rparr>))))"

definition build_feature_snapshot ::
    "strategy_bar list \<Rightarrow> strategy_bar list \<Rightarrow> string \<Rightarrow> date \<Rightarrow> datetime option \<Rightarrow> feature_snapshot res"
where
  "build_feature_snapshot bars market_bars symbol trade_date cutoff =
     (let stock = stock_history bars symbol trade_date cutoff;
          market = market_history market_bars trade_date cutoff in
      case bar_on trade_date stock of
        None \<Rightarrow> Inr (empty_snapshot symbol trade_date)
      | Some current \<Rightarrow> snapshot_from symbol trade_date stock market current)"

section \<open>Features read visible bars only\<close>

lemma stock_history_visible:
  "stock_history bars symbol d c = stock_history (filter (visible d c) bars) symbol d c"
  unfolding stock_history_def by (simp add: filter_filter conj_commute cong: conj_cong)

lemma market_history_visible:
  "market_history bars d c = market_history (filter (visible d c) bars) d c"
  by (simp add: market_history_def)

lemma build_feature_visible:
  "build_feature_snapshot bars mkt symbol d c =
   build_feature_snapshot (filter (visible d c) bars) (filter (visible d c) mkt) symbol d c"
  unfolding build_feature_snapshot_def Let_def
  by (simp only: flip: stock_history_visible market_history_visible)

lemma stock_history_in:
  "b \<in> set (stock_history bars symbol d c) \<Longrightarrow> b \<in> set bars \<and> sb_symbol b = symbol \<and> visible d c b"
  by (auto simp: stock_history_def)

lemma snapshot_from_InrD:
  assumes "snapshot_from symbol d stock market current = Inr f"
  shows "fs_symbol f = symbol" "fs_date f = d" "fs_close f = Some (sb_close current)"
    "fs_available_at f = sb_available_at current" "fs_industry f = sb_industry current"
    "fs_suspended f = sb_suspended current" "fs_st f = sb_st current"
    "fs_delisted f = sb_delisted current" "fs_limit_up f = sb_limit_up current"
    "ma10 f = moving_average 10 (map sb_close stock)"
    "market_ma20 f = moving_average 20 (map sb_close market)"
    "return_5d f \<noteq> None \<longleftrightarrow> 6 \<le> length stock" "return_20d f \<noteq> None \<longleftrightarrow> 21 \<le> length stock"
  using assms
  by (auto simp: snapshot_from_def Let_def andThen_Inr_iff return_over_def split: if_splits)

lemma build_feature_basic:
  assumes "build_feature_snapshot bars mkt symbol d c = Inr f"
  shows "fs_symbol f = symbol" "fs_date f = d"
  using assms by (auto simp: build_feature_snapshot_def Let_def empty_snapshot_def
      dest: snapshot_from_InrD(1,2) split: option.splits)

lemma build_feature_close:
  assumes "build_feature_snapshot bars mkt symbol d c = Inr f" and "fs_close f = Some x"
  shows "\<exists>b\<in>set bars. sb_symbol b = symbol \<and> sb_date b = d \<and>
    available_at_or_before (sb_available_at b) c \<and> sb_close b = x \<and>
    fs_available_at f = sb_available_at b"
proof -
  obtain cur where cur: "bar_on d (stock_history bars symbol d c) = Some cur"
    and f: "snapshot_from symbol d (stock_history bars symbol d c) (market_history mkt d c) cur = Inr f"
    using assms by (auto simp: build_feature_snapshot_def Let_def empty_snapshot_def split: option.splits)
  from cur have "cur \<in> set (stock_history bars symbol d c)" "sb_date cur = d"
    by (auto simp: bar_on_def dest: find_last_Some_in)
  with stock_history_in[of cur bars symbol d c] snapshot_from_InrD(3,4)[OF f] assms(2)
  show ?thesis by (auto simp: visible_def)
qed

text \<open>Short histories yield missing features, not invented ones.\<close>

lemma mean_nonempty: "xs \<noteq> [] \<Longrightarrow> mean xs \<noteq> None"
  by (simp add: mean_def)

lemma moving_average_defined:
  "0 < n \<Longrightarrow> moving_average n xs \<noteq> None \<longleftrightarrow> n \<le> int (length xs)"
  using length_slice_from_neg[of n xs]
  by (auto simp: moving_average_def mean_def simp del: length_0_conv simp flip: length_0_conv)

section \<open>Properties\<close>

text \<open>
  Features do not look ahead: two data sets that agree on the bars visible at the trade date
  (dated no later, published no later than the information cutoff) give the same snapshot, whatever
  the other bars say, and a close it reports comes from a visible bar of that symbol and date.
\<close>

theorem features_ignore_future:
  assumes "filter (visible d c) bars = filter (visible d c) bars'"
    and "filter (visible d c) mkt = filter (visible d c) mkt'"
  shows "build_feature_snapshot bars mkt s d c = build_feature_snapshot bars' mkt' s d c \<and>
    (\<forall>f x. build_feature_snapshot bars mkt s d c = Inr f \<and> fs_close f = Some x \<longrightarrow>
      (\<exists>b\<in>set bars. sb_symbol b = s \<and> sb_date b = d \<and> sb_close b = x \<and>
        available_at_or_before (sb_available_at b) c))"
proof -
  have "build_feature_snapshot bars mkt s d c = build_feature_snapshot bars' mkt' s d c"
    unfolding build_feature_visible[of bars mkt] build_feature_visible[of bars' mkt'] assms ..
  then show ?thesis using build_feature_close[of bars mkt s d c] by blast
qed

definition sample_strategy_bar :: "string \<Rightarrow> date \<Rightarrow> dec \<Rightarrow> int \<Rightarrow> strategy_bar" where
  "sample_strategy_bar s d x us = \<lparr>sb_symbol = s, sb_date = d, sb_close = x, sb_amount = 1000,
     sb_available_at = Some \<lparr>wall = us, utcoff = Some 0\<rparr>, sb_suspended = False, sb_st = False,
     sb_delisted = False, sb_limit_up = False, sb_industry = None, sb_list_date = None\<rparr>"

lemma features_ignore_future_witness:
  "build_feature_snapshot [sample_strategy_bar ''A'' 5 10 50, sample_strategy_bar ''A'' 6 99 70] [] ''A'' 5
     (Some \<lparr>wall = 60, utcoff = Some 0\<rparr>) =
   build_feature_snapshot [sample_strategy_bar ''A'' 5 10 50] [] ''A'' 5 (Some \<lparr>wall = 60, utcoff = Some 0\<rparr>)"
  by (rule features_ignore_future[THEN conjunct1])
     (simp_all add: visible_def sample_strategy_bar_def available_iff instant_def)

end
