(* ===== verification/StrongTrend.thy ===== *)
theory StrongTrend
  imports Features
begin

text \<open>
  The strong-trend strategy, \<open>app/domain/strategy/strong_trend.py\<close>: candidate filter,
  percentile scoring and ranking, selection under the position and industry caps, exits.
\<close>

record strong_config =
  st_max_positions :: int
  st_max_per_industry :: int
  min_return_5d :: dec
  max_return_5d :: dec
  min_amount_ratio :: dec
  max_amount_ratio :: dec
  st_max_holding_days :: int
  drawdown_exit :: dec

definition default_strong_config :: strong_config where
  "default_strong_config = \<lparr>st_max_positions = 4, st_max_per_industry = 2,
     min_return_5d = 2/100, max_return_5d = 12/100, min_amount_ratio = 12/10,
     max_amount_ratio = 3, st_max_holding_days = 3, drawdown_exit = 4/100\<rparr>"

record entry_signal =
  en_symbol :: string
  en_date :: date
  en_score :: dec
  en_rank :: int
  en_industry :: "string option"

record exit_signal =
  ex_symbol :: string
  ex_date :: date
  ex_plan_date :: date
  ex_reason :: string
  ex_reasons :: "string list"

text \<open>The 1-based positions of a value in a list.\<close>

definition places :: "dec list \<Rightarrow> dec \<Rightarrow> int list" where
  "places xs v = map (\<lambda>i. int i + 1) (filter (\<lambda>i. xs ! i = v) [0..<length xs])"

definition rank_pct :: "dec list \<Rightarrow> dec \<Rightarrow> dec res" where
  "rank_pct values v =
     (let ordered = rev (sort values); ps = places ordered v in
      andThen (ddiv (of_int (sum_list ps)) (of_nat (length ps))) (\<lambda>average.
        if length ordered = 1 then Inr 1
        else ddiv (dsub (of_nat (length ordered)) average) (of_nat (length ordered) - 1)))"

definition strong_complete :: "feature_snapshot \<Rightarrow> bool" where
  "strong_complete f \<longleftrightarrow> fs_close f \<noteq> None \<and> ma10 f \<noteq> None \<and> market_close f \<noteq> None \<and>
     market_ma20 f \<noteq> None \<and> return_5d f \<noteq> None \<and> return_20d f \<noteq> None \<and> amount_ratio f \<noteq> None"

definition is_candidate :: "strong_config \<Rightarrow> datetime option \<Rightarrow> feature_snapshot \<Rightarrow> bool" where
  "is_candidate cfg cutoff f \<longleftrightarrow>
     available_at_or_before (fs_available_at f) cutoff \<and> strong_complete f \<and>
     fs_date f \<le> (case cutoff of None \<Rightarrow> fs_date f | Some c \<Rightarrow> dt_date c) \<and>
     the (market_close f) > the (market_ma20 f) \<and>
     the (fs_close f) > the (ma10 f) \<and>
     min_return_5d cfg \<le> the (return_5d f) \<and> the (return_5d f) \<le> max_return_5d cfg \<and>
     min_amount_ratio cfg \<le> the (amount_ratio f) \<and> the (amount_ratio f) \<le> max_amount_ratio cfg \<and>
     reliably_buyable f \<and> \<not> fs_st f \<and> \<not> fs_suspended f \<and> \<not> fs_delisted f \<and> \<not> fs_limit_up f"

definition strong_score ::
    "dec list \<Rightarrow> dec list \<Rightarrow> dec list \<Rightarrow> feature_snapshot \<Rightarrow> (dec \<times> feature_snapshot) res" where
  "strong_score returns5 returns20 ratios f =
     andThen (rank_pct returns5 (the (return_5d f))) (\<lambda>r5.
     andThen (rank_pct returns20 (the (return_20d f))) (\<lambda>r20.
     andThen (rank_pct ratios (the (amount_ratio f))) (\<lambda>ra.
       Inr (dadd (dadd (dmul (1/2) r5) (dmul (1/4) r20)) (dmul (1/4) ra), f))))"

text \<open>\<open>enumerate(scored, start=1)\<close> after the sort by descending score, then symbol.\<close>

definition ranked_signals ::
    "('f \<Rightarrow> string) \<Rightarrow> ('f \<Rightarrow> date) \<Rightarrow> ('f \<Rightarrow> string option) \<Rightarrow> (dec \<times> 'f) list \<Rightarrow> entry_signal list" where
  "ranked_signals gsym dat ind scored =
     (let s = sort_key (\<lambda>(score, f). (dneg score, gsym f)) scored in
      map (\<lambda>(i, score, f). \<lparr>en_symbol = gsym f, en_date = dat f, en_score = score,
             en_rank = int i, en_industry = ind f\<rparr>) (zip [1..<length s + 1] s))"

definition strong_rank_candidates ::
    "strong_config \<Rightarrow> datetime option \<Rightarrow> feature_snapshot list \<Rightarrow> (entry_signal list) res" where
  "strong_rank_candidates cfg cutoff features =
     (let eligible = filter (is_candidate cfg cutoff) features;
          returns5 = List.map_filter return_5d eligible;
          returns20 = List.map_filter return_20d eligible;
          ratios = List.map_filter amount_ratio eligible
      in if eligible = [] then Inr []
         else andThen (map_res (strong_score returns5 returns20 ratios) eligible)
           (\<lambda>scored. Inr (ranked_signals fs_symbol fs_date fs_industry scored)))"

text \<open>The selection loop shared by both strategies.\<close>

fun select_loop ::
    "int \<Rightarrow> int \<Rightarrow> entry_signal list \<Rightarrow> (string option, int) dict \<Rightarrow> entry_signal list \<Rightarrow> entry_signal list" where
  "select_loop max_pos max_ind selected industries [] = selected"
| "select_loop max_pos max_ind selected industries (s # rest) =
     (if int (length selected) \<ge> max_pos then selected
      else let count = dict_get industries (en_industry s) 0 in
        if count \<ge> max_ind then select_loop max_pos max_ind selected industries rest
        else select_loop max_pos max_ind
               (selected @ [s\<lparr>en_rank := int (length selected) + 1\<rparr>])
               (dict_set (en_industry s) (count + 1) industries) rest)"

definition strong_select_candidates ::
    "strong_config \<Rightarrow> datetime option \<Rightarrow> feature_snapshot list \<Rightarrow> (entry_signal list) res" where
  "strong_select_candidates cfg cutoff features =
     andThen (strong_rank_candidates cfg cutoff features) (\<lambda>ranked.
       Inr (select_loop (st_max_positions cfg) (st_max_per_industry cfg) [] [] ranked))"

definition make_exit :: "string \<Rightarrow> date \<Rightarrow> date \<Rightarrow> string list \<Rightarrow> exit_signal option" where
  "make_exit symbol d next_date reasons =
     (case reasons of [] \<Rightarrow> None
      | r # _ \<Rightarrow> Some \<lparr>ex_symbol = symbol, ex_date = d, ex_plan_date = next_date,
          ex_reason = r, ex_reasons = reasons\<rparr>)"

definition strong_exit_signal ::
    "strong_config \<Rightarrow> feature_snapshot \<Rightarrow> dec \<Rightarrow> int \<Rightarrow> int \<Rightarrow> int \<Rightarrow> int \<Rightarrow> date \<Rightarrow> bool \<Rightarrow> exit_signal option"
where
  "strong_exit_signal cfg f entry_price held_days rank candidate_count closed_streak next_date eligible =
     make_exit (fs_symbol f) (fs_date f) next_date
       ((if held_days \<ge> st_max_holding_days cfg then [''MAX_HOLDING_DAYS''] else []) @
        (if \<not> eligible then [''NOT_ELIGIBLE'']
         else if candidate_count > 0 \<and> of_int rank > drnd (of_int candidate_count / 2)
         then [''RANK_OUT_OF_POOL''] else []) @
        (case fs_close f of None \<Rightarrow> []
         | Some c \<Rightarrow> if c \<le> dmul entry_price (dsub 1 (drawdown_exit cfg)) then [''ENTRY_DRAWDOWN''] else []) @
        (if closed_streak \<ge> 2 then [''MARKET_SWITCH_OFF''] else []))"

section \<open>The selection loop respects its caps\<close>

text \<open>How many of the selected signals are in an industry.\<close>

definition industry_count :: "string option \<Rightarrow> entry_signal list \<Rightarrow> nat" where
  "industry_count i xs = length (filter (\<lambda>s. en_industry s = i) xs)"

definition select_inv :: "int \<Rightarrow> int \<Rightarrow> entry_signal list \<Rightarrow> (string option, int) dict \<Rightarrow> bool" where
  "select_inv mp mi sel inds \<longleftrightarrow> int (length sel) \<le> max 0 mp \<and>
     (\<forall>i. dict_get inds i 0 = int (industry_count i sel) \<and> int (industry_count i sel) \<le> max 0 mi) \<and>
     map en_rank sel = map (\<lambda>k. int k + 1) [0..<length sel]"

lemma select_inv_step:
  assumes "select_inv mp mi sel inds" and "int (length sel) < mp"
    and "dict_get inds (en_industry s) 0 < mi"
  shows "select_inv mp mi (sel @ [s\<lparr>en_rank := int (length sel) + 1\<rparr>])
    (dict_set (en_industry s) (dict_get inds (en_industry s) 0 + 1) inds)"
proof -
  have d: "dict_get (dict_set (en_industry s) v inds) i 0 =
      (if i = en_industry s then v else dict_get inds i 0)" for v i
    by (simp add: dict_get_def dict_simps)
  show ?thesis
    using assms unfolding select_inv_def d by (auto simp: industry_count_def)
qed

lemma select_loop_inv:
  assumes "select_inv mp mi sel inds"
  shows "\<exists>inds'. select_inv mp mi (select_loop mp mi sel inds xs) inds'"
  using assms
proof (induction mp mi sel inds xs rule: select_loop.induct)
  case (2 mp mi sel inds s rest)
  then show ?case by (auto simp: Let_def not_le intro: select_inv_step)
qed auto

lemma select_loop_caps:
  fixes mp mi :: int and xs :: "entry_signal list"
  defines "r \<equiv> select_loop mp mi [] [] xs"
  shows "int (length r) \<le> max 0 mp" "int (industry_count i r) \<le> max 0 mi"
    "map en_rank r = map (\<lambda>k. int k + 1) [0..<length r]"
proof -
  have "select_inv mp mi [] []" by (simp add: select_inv_def industry_count_def dict_get_def)
  from select_loop_inv[OF this, of xs] show "int (length r) \<le> max 0 mp"
    "int (industry_count i r) \<le> max 0 mi" "map en_rank r = map (\<lambda>k. int k + 1) [0..<length r]"
    unfolding r_def select_inv_def by auto
qed

text \<open>Selected signals are ranked signals with a new rank number.\<close>

lemma select_loop_from:
  assumes "s \<in> set (select_loop mp mi sel inds xs)" and "s \<notin> set sel"
  shows "\<exists>t\<in>set xs. en_symbol s = en_symbol t \<and> en_date s = en_date t \<and>
    en_score s = en_score t \<and> en_industry s = en_industry t"
  using assms
proof (induction mp mi sel inds xs rule: select_loop.induct)
  case (2 mp mi sel inds t rest)
  show ?case
  proof (cases "int (length sel) \<ge> mp \<or> dict_get inds (en_industry t) 0 \<ge> mi")
    case True
    then show ?thesis using 2 by (auto simp: Let_def split: if_splits)
  next
    case False
    then show ?thesis using 2
      by (cases "s = t\<lparr>en_rank := int (length sel) + 1\<rparr>") (auto simp: Let_def)
  qed
qed auto

section \<open>Ranking\<close>

lemma ranked_signals_length [simp]: "length (ranked_signals gsym dat ind scored) = length scored"
  by (simp add: ranked_signals_def Let_def del: upt_Suc)

lemma ranked_signals_nth:
  assumes "i < length scored"
  shows "ranked_signals gsym dat ind scored ! i =
    (case sort_key (\<lambda>(score, f). (dneg score, gsym f)) scored ! i of (score, f) \<Rightarrow>
      \<lparr>en_symbol = gsym f, en_date = dat f, en_score = score, en_rank = int i + 1, en_industry = ind f\<rparr>)"
  using assms by (simp add: ranked_signals_def Let_def case_prod_beta del: upt_Suc)

lemma ranked_signals_in:
  assumes "s \<in> set (ranked_signals gsym dat ind scored)"
  shows "\<exists>(score, f)\<in>set scored. en_symbol s = gsym f \<and> en_date s = dat f \<and> en_score s = score \<and>
    en_industry s = ind f"
proof -
  let ?k = "\<lambda>(score, f). (dneg score, gsym f)"
  obtain i where i: "i < length scored" "s = ranked_signals gsym dat ind scored ! i"
    using assms by (auto simp: in_set_conv_nth)
  have "sort_key ?k scored ! i \<in> set scored"
    using nth_mem[of i "sort_key ?k scored"] i(1) by simp
  then show ?thesis unfolding i(2) ranked_signals_nth[OF i(1)]
    by (intro bexI[of _ "sort_key ?k scored ! i"]) (auto split: prod.splits)
qed

lemma ranked_signals_ordered:
  fixes gsym :: "'f \<Rightarrow> string" and scored :: "(dec \<times> 'f) list"
  assumes "i < j" and "j < length scored" and "\<forall>(score, f)\<in>set scored. dec28 score"
    and "r = ranked_signals gsym dat ind scored"
  shows "en_score (r ! j) < en_score (r ! i) \<or>
    en_score (r ! j) = en_score (r ! i) \<and> en_symbol (r ! i) \<le> en_symbol (r ! j)"
proof -
  define k where "k = (\<lambda>(score, f). (dneg score, gsym f))"
  define srt where "srt = sort_key k scored"
  have set_srt: "set srt = set scored" "length srt = length scored" by (simp_all add: srt_def)
  have "sorted (map k srt)" unfolding srt_def by (rule sorted_sort_key)
  from sorted_nth_mono[OF this, of i j] assms(1,2) have le: "k (srt ! i) \<le> k (srt ! j)"
    by (simp add: set_srt)
  have in_srt: "srt ! i \<in> set scored" "srt ! j \<in> set scored"
    using assms(1,2) nth_mem[of i srt] nth_mem[of j srt] by (simp_all add: set_srt)
  obtain a f b g where ab: "srt ! i = (a, f)" "srt ! j = (b, g)" by (metis surj_pair)
  have "dec28 a" "dec28 b" using in_srt assms(3) unfolding ab by auto
  then have "- a < - b \<or> - a = - b \<and> gsym f \<le> gsym g"
    using le unfolding ab k_def by (auto simp: less_eq_prod_def dneg_def drnd_exact less_le)
  moreover have "en_score (r ! i) = a" "en_symbol (r ! i) = gsym f"
    "en_score (r ! j) = b" "en_symbol (r ! j) = gsym g"
    using ranked_signals_nth[of _ scored gsym dat ind] assms(1,2) ab
    by (simp_all add: assms(4) k_def [symmetric] srt_def [symmetric])
  ultimately show ?thesis by auto
qed

section \<open>Percentile ranks\<close>

lemma places_in: "v \<in> set xs \<Longrightarrow> places xs v \<noteq> []"
  by (auto simp: places_def in_set_conv_nth filter_empty_conv)

lemma places_bounds: "k \<in> set (places xs v) \<Longrightarrow> 1 \<le> k \<and> k \<le> int (length xs)"
  by (auto simp: places_def)

lemma sum_list_bounds:
  assumes "\<forall>k\<in>set ks. (1::int) \<le> k \<and> k \<le> n"
  shows "int (length ks) \<le> sum_list ks \<and> sum_list ks \<le> n * int (length ks)"
  using assms by (induction ks) (auto simp: algebra_simps)

lemma rank_pct_bounds:
  assumes "v \<in> set values" and "length values \<le> 10 ^ 28"
  shows "\<exists>r. rank_pct values v = Inr r \<and> 0 \<le> r \<and> r \<le> 1"
proof -
  let ?xs = "rev (sort values)" and ?n = "of_nat (length values) :: rat"
  let ?ps = "places ?xs v"
  have ps: "?ps \<noteq> []" using places_in[of v ?xs] assms(1) by simp
  have b: "int (length ?ps) \<le> sum_list ?ps" "sum_list ?ps \<le> int (length values) * int (length ?ps)"
    using sum_list_bounds[of ?ps "int (length values)"] places_bounds[of _ ?xs v] by auto
  have len: "length values \<noteq> 0" "(0::rat) < of_nat (length ?ps)" using assms(1) ps by auto
  define avg where "avg = drnd (of_int (sum_list ?ps) / of_nat (length ?ps))"
  have n28: "dec28 ?n" "dec28 (?n - 1)" "dec28 (1::rat)"
    using dec28_of_int[of "int (length values)"] dec28_of_int[of "int (length values) - 1"]
      dec28_of_int[of 1] assms(2) by simp_all
  have "of_int (int (length ?ps)) \<le> (of_int (sum_list ?ps) :: rat)"
    "of_int (sum_list ?ps) \<le> (of_int (int (length values) * int (length ?ps)) :: rat)"
    using b by (simp_all only: of_int_le_iff)
  then have q: "1 \<le> (of_int (sum_list ?ps) / of_nat (length ?ps) :: rat)"
    "(of_int (sum_list ?ps) / of_nat (length ?ps) :: rat) \<le> ?n"
    using len(2) by (simp_all add: field_simps)
  have a: "1 \<le> avg" "avg \<le> ?n"
    unfolding avg_def using d28.fits_le_rnd[OF n28(3) q(1)] d28.rnd_le_fits[OF q(2) n28(1)] by simp_all
  have d: "0 \<le> dsub ?n avg" "dsub ?n avg \<le> ?n - 1"
    using a dsub_nonneg[OF a(2)] d28.rnd_le_fits[OF _ n28(2), of "?n - avg"] by (auto simp: dsub_def)
  show ?thesis
  proof (cases "length values = 1")
    case True
    then show ?thesis using len(2) ps by (simp add: rank_pct_def Let_def ddiv_def)
  next
    case False
    then have "2 \<le> length values" using len(1) by linarith
    then have "of_nat 2 \<le> ?n" by (simp only: of_nat_le_iff)
    then have n1: "0 < ?n - 1" by simp
    have "rank_pct values v = Inr (drnd (dsub ?n avg / (?n - 1)))"
      using False n1 ps by (simp add: rank_pct_def Let_def ddiv_def avg_def)
    moreover have "0 \<le> dsub ?n avg / (?n - 1)" "dsub ?n avg / (?n - 1) \<le> 1"
      using d n1 by (simp_all add: field_simps)
    ultimately show ?thesis
      using drnd_nonneg d28.rnd_le_fits[OF _ n28(3)] by auto
  qed
qed

lemma candidate_complete:
  assumes "is_candidate cfg c f"
  shows "return_5d f = Some (the (return_5d f))" "return_20d f = Some (the (return_20d f))"
    "amount_ratio f = Some (the (amount_ratio f))"
  using assms by (auto simp: is_candidate_def strong_complete_def)

lemma map_filter_in: "x \<in> set xs \<Longrightarrow> g x = Some y \<Longrightarrow> y \<in> set (List.map_filter g xs)"
  by (force simp: List.map_filter_def)

lemma map_filter_length: "length (List.map_filter g xs) \<le> length xs"
  by (simp add: List.map_filter_def)

lemma score_weights:
  assumes "0 \<le> a" "a \<le> 1" "0 \<le> b" "b \<le> 1" "0 \<le> e" "e \<le> (1::rat)"
  shows "0 \<le> dadd (dadd (dmul (1/2) a) (dmul (1/4) b)) (dmul (1/4) e)"
    "dadd (dadd (dmul (1/2) a) (dmul (1/4) b)) (dmul (1/4) e) \<le> 1"
proof -
  show "0 \<le> dadd (dadd (dmul (1/2) a) (dmul (1/4) b)) (dmul (1/4) e)"
    using assms by (intro dadd_nonneg dmul_nonneg) auto
  have d: "dec28 (1/2)" "dec28 (1/4)" "dec28 (3/4)" "dec28 1"
    using dec28_drnd[of "1/2"] dec28_drnd[of "1/4"] dec28_drnd[of "3/4"] dec28_drnd[of 1] by simp_all
  have "dmul (1/2) a \<le> 1/2" unfolding dmul_def by (rule d28.rnd_le_fits) (use assms d in auto)
  moreover have "dmul (1/4) b \<le> 1/4" "dmul (1/4) e \<le> 1/4"
    unfolding dmul_def by (rule d28.rnd_le_fits; use assms d in auto)+
  ultimately have "dadd (dmul (1/2) a) (dmul (1/4) b) \<le> 3/4"
    unfolding dadd_def by (intro d28.rnd_le_fits) (use d in auto)
  then show "dadd (dadd (dmul (1/2) a) (dmul (1/4) b)) (dmul (1/4) e) \<le> 1"
    using \<open>dmul (1/4) e \<le> 1/4\<close> unfolding dadd_def[of _ "dmul (1/4) e"]
    by (intro d28.rnd_le_fits) (use d in auto)
qed

lemma strong_score_defined:
  assumes "f \<in> set fs" and "\<forall>g\<in>set fs. is_candidate cfg c g" and "length fs \<le> 10 ^ 28"
  shows "\<exists>s. strong_score (List.map_filter return_5d fs) (List.map_filter return_20d fs)
    (List.map_filter amount_ratio fs) f = Inr (s, f) \<and> 0 \<le> s \<and> s \<le> 1 \<and> dec28 s"
proof -
  have f: "is_candidate cfg c f" using assms(1,2) by blast
  have len: "length (List.map_filter g fs) \<le> 10 ^ 28" for g :: "feature_snapshot \<Rightarrow> dec option"
    using map_filter_length[of g fs] assms(3) by linarith
  obtain r5 r20 ra where
    "rank_pct (List.map_filter return_5d fs) (the (return_5d f)) = Inr r5 \<and> 0 \<le> r5 \<and> r5 \<le> 1"
    "rank_pct (List.map_filter return_20d fs) (the (return_20d f)) = Inr r20 \<and> 0 \<le> r20 \<and> r20 \<le> 1"
    "rank_pct (List.map_filter amount_ratio fs) (the (amount_ratio f)) = Inr ra \<and> 0 \<le> ra \<and> ra \<le> 1"
    using rank_pct_bounds[OF map_filter_in[where g = return_5d, OF assms(1) candidate_complete(1)[OF f]] len]
      rank_pct_bounds[OF map_filter_in[where g = return_20d, OF assms(1) candidate_complete(2)[OF f]] len]
      rank_pct_bounds[OF map_filter_in[where g = amount_ratio, OF assms(1) candidate_complete(3)[OF f]] len]
    by blast
  then show ?thesis using score_weights[of r5 r20 ra] by (simp add: strong_score_def)
qed

lemma map_res_defined:
  "\<forall>x\<in>set xs. \<exists>y. f x = Inr y \<Longrightarrow> \<exists>ys. map_res f xs = Inr ys"
  by (induction xs) auto

lemma strong_rank_result:
  assumes "length features \<le> 10 ^ 28"
  shows "\<exists>scored. strong_rank_candidates cfg c features =
      Inr (ranked_signals fs_symbol fs_date fs_industry scored) \<and>
    map snd scored = filter (is_candidate cfg c) features \<and>
    (\<forall>(s, f)\<in>set scored. 0 \<le> s \<and> s \<le> 1 \<and> dec28 s)"
proof (cases "filter (is_candidate cfg c) features = []")
  case True
  then show ?thesis by (intro exI[of _ "[]"]) (simp add: strong_rank_candidates_def ranked_signals_def)
next
  case False
  let ?el = "filter (is_candidate cfg c) features"
  let ?score = "strong_score (List.map_filter return_5d ?el) (List.map_filter return_20d ?el)
    (List.map_filter amount_ratio ?el)"
  have len: "length ?el \<le> 10 ^ 28" using assms length_filter_le[of "is_candidate cfg c" features] by linarith
  have each: "\<exists>s. ?score f = Inr (s, f) \<and> 0 \<le> s \<and> s \<le> 1 \<and> dec28 s" if "f \<in> set ?el" for f
    by (rule strong_score_defined[where cfg = cfg and c = c, OF that _ len]) simp
  obtain scored where sc: "map_res ?score ?el = Inr scored"
    using map_res_defined[of ?el ?score] each by blast
  from map_res_list_all2[OF sc] have "list_all2 (\<lambda>f y. snd y = f \<and> 0 \<le> fst y \<and> fst y \<le> 1 \<and> dec28 (fst y)) ?el scored"
    by (rule list.rel_mono_strong) (use each in fastforce)
  then have "map snd scored = ?el \<and> (\<forall>y\<in>set scored. 0 \<le> fst y \<and> fst y \<le> 1 \<and> dec28 (fst y))"
    by (induction rule: list_all2_induct) auto
  then show ?thesis using sc False
    by (intro exI[of _ scored]) (auto simp: strong_rank_candidates_def Let_def)
qed

section \<open>Exit reasons\<close>

lemma make_exit_reasons:
  "make_exit s d n rs = Some x \<Longrightarrow> ex_reasons x = rs \<and> rs \<noteq> [] \<and> ex_reason x = hd rs \<and>
    ex_symbol x = s \<and> ex_date x = d \<and> ex_plan_date x = n"
  by (cases rs) (auto simp: make_exit_def)

lemma make_exit_None: "make_exit s d n rs = None \<longleftrightarrow> rs = []"
  by (cases rs) (simp_all add: make_exit_def)

lemma strong_selection:
  assumes "length features \<le> 10 ^ 28"
  shows "\<exists>r. strong_select_candidates cfg c features = Inr r \<and>
    int (length r) \<le> max 0 (st_max_positions cfg) \<and>
    (\<forall>i. int (length (filter (\<lambda>s. en_industry s = i) r)) \<le> max 0 (st_max_per_industry cfg)) \<and>
    map en_rank r = map (\<lambda>k. int k + 1) [0..<length r] \<and>
    (\<forall>s\<in>set r. \<exists>f\<in>set features. is_candidate cfg c f \<and> en_symbol s = fs_symbol f \<and>
      en_date s = fs_date f \<and> en_industry s = fs_industry f)"
proof -
  obtain sc where sc: "strong_rank_candidates cfg c features =
      Inr (ranked_signals fs_symbol fs_date fs_industry sc)"
    "map snd sc = filter (is_candidate cfg c) features"
    using strong_rank_result[OF assms] by blast
  let ?rk = "ranked_signals fs_symbol fs_date fs_industry sc"
  let ?r = "select_loop (st_max_positions cfg) (st_max_per_industry cfg) [] [] ?rk"
  have "\<exists>f\<in>set features. is_candidate cfg c f \<and> en_symbol s = fs_symbol f \<and>
      en_date s = fs_date f \<and> en_industry s = fs_industry f" if s: "s \<in> set ?r" for s
  proof -
    obtain t where t: "t \<in> set ?rk" "en_symbol s = en_symbol t" "en_date s = en_date t"
      "en_industry s = en_industry t" using select_loop_from[OF s] by auto
    from ranked_signals_in[OF t(1)] obtain sc1 f where f: "(sc1, f) \<in> set sc"
      "en_symbol t = fs_symbol f" "en_date t = fs_date f" "en_industry t = fs_industry f" by blast
    then have "f \<in> set (filter (is_candidate cfg c) features)" by (force simp flip: sc(2))
    with f t show ?thesis by auto
  qed
  then show ?thesis
    using sc(1) select_loop_caps[where mp = "st_max_positions cfg" and mi = "st_max_per_industry cfg" and xs = ?rk]
    by (intro exI[of _ ?r]) (simp add: strong_select_candidates_def industry_count_def)
qed

text \<open>Distinct symbols stay distinct.\<close>

lemma select_loop_distinct:
  "distinct (map en_symbol (sel @ xs)) \<Longrightarrow> distinct (map en_symbol (select_loop mp mi sel inds xs))"
proof (induction mp mi sel inds xs rule: select_loop.induct)
  case (2 mp mi sel inds t rest)
  then show ?case by (auto simp: Let_def)
qed simp

lemma strong_selection_distinct:
  assumes "length features \<le> 10 ^ 28" and "distinct (map fs_symbol features)"
    and "strong_select_candidates cfg c features = Inr r"
  shows "distinct (map en_symbol r)"
proof -
  obtain sc where sc: "strong_rank_candidates cfg c features =
      Inr (ranked_signals fs_symbol fs_date fs_industry sc)"
    "map snd sc = filter (is_candidate cfg c) features"
    using strong_rank_result[OF assms(1)] by blast
  let ?rk = "ranked_signals fs_symbol fs_date fs_industry sc"
  let ?s = "sort_key (\<lambda>(score, f). (dneg score, fs_symbol f)) sc"
  have "map en_symbol ?rk = map (\<lambda>x. fs_symbol (snd x)) ?s"
    by (rule nth_equalityI) (simp_all add: ranked_signals_nth case_prod_beta)
  moreover have "distinct (map fs_symbol (map snd sc))"
    unfolding sc(2) by (rule distinct_map_filter[OF assms(2)])
  then have "distinct (map (\<lambda>x. fs_symbol (snd x)) ?s)"
    by (simp only: map_map comp_def distinct_map distinct_sort set_sort)
  ultimately have "distinct (map en_symbol ?rk)" by simp
  then have "distinct (map en_symbol ([] @ ?rk))" by simp
  moreover have "r = select_loop (st_max_positions cfg) (st_max_per_industry cfg) [] [] ?rk"
    using assms(3) sc(1) by (simp add: strong_select_candidates_def)
  ultimately show ?thesis by (simp only: select_loop_distinct)
qed

section \<open>Properties\<close>


definition sample_feature :: "string \<Rightarrow> feature_snapshot" where
  "sample_feature s = \<lparr>fs_symbol = s, fs_date = 5, fs_close = Some 10, ma10 = Some 9,
     market_close = Some 3000, market_ma20 = Some 2900, return_5d = Some (5/100),
     return_20d = Some (10/100), amount_ratio = Some 2, reliably_buyable = True,
     fs_available_at = None, fs_industry = Some ''BANK'', fs_st = False, fs_suspended = False,
     fs_delisted = False, fs_limit_up = False\<rparr>"

lemma sample_candidate: "is_candidate default_strong_config None (sample_feature s)"
  by (simp add: is_candidate_def sample_feature_def strong_complete_def default_strong_config_def)


text \<open>
  Selection respects the caps and picks candidates only: it keeps at most the configured number
  of signals and at most the configured number per industry, renumbers the ranks from one, and each
  selected symbol belongs to a feature that passed every entry condition (market and price above
  their moving averages, return and volume ratio in range, tradable, published by the cutoff).
\<close>

theorem strong_selection_sound:
  assumes "length features \<le> 10 ^ 28"
  shows "\<exists>r. strong_select_candidates cfg c features = Inr r \<and>
    int (length r) \<le> max 0 (st_max_positions cfg) \<and>
    (\<forall>i. int (length (filter (\<lambda>s. en_industry s = i) r)) \<le> max 0 (st_max_per_industry cfg)) \<and>
    map en_rank r = map (\<lambda>k. int k + 1) [0..<length r] \<and>
    (\<forall>s\<in>set r. \<exists>f\<in>set features. is_candidate cfg c f \<and> en_symbol s = fs_symbol f \<and>
      en_date s = fs_date f \<and> en_industry s = fs_industry f)"
  using assms by (rule strong_selection)

lemma strong_selection_sound_witness:
  "\<exists>r. strong_select_candidates default_strong_config None [sample_feature ''A'', sample_feature ''B''] = Inr r \<and>
     length r \<le> 4"
  using strong_selection_sound[of "[sample_feature ''A'', sample_feature ''B'']" default_strong_config None]
  by (auto simp: default_strong_config_def)

text \<open>
  The exit rules: an exit signal is raised exactly when the holding period is over, the position
  is no longer eligible, its rank fell out of the better half of the pool, the close is at or below
  the entry price less the drawdown, or the market has been closed for two days; it is planned for
  the next trade date and its leading reason follows that order.
\<close>

theorem strong_exit_rules:
  "(strong_exit_signal cfg f entry held rank count streak next_date eligible = None) =
     (held < st_max_holding_days cfg \<and> eligible \<and> \<not> (count > 0 \<and> of_int rank > drnd (of_int count / 2)) \<and>
      \<not> (\<exists>p. fs_close f = Some p \<and> p \<le> dmul entry (dsub 1 (drawdown_exit cfg))) \<and> streak < 2) \<and>
   (\<forall>e. strong_exit_signal cfg f entry held rank count streak next_date eligible = Some e \<longrightarrow>
      ex_symbol e = fs_symbol f \<and> ex_plan_date e = next_date \<and> ex_reason e = hd (ex_reasons e) \<and>
      (held \<ge> st_max_holding_days cfg \<longrightarrow> ex_reason e = ''MAX_HOLDING_DAYS'') \<and>
      (''NOT_ELIGIBLE'' \<in> set (ex_reasons e)) = (\<not> eligible) \<and>
      (''RANK_OUT_OF_POOL'' \<in> set (ex_reasons e)) =
        (eligible \<and> count > 0 \<and> of_int rank > drnd (of_int count / 2)) \<and>
      (''ENTRY_DRAWDOWN'' \<in> set (ex_reasons e)) =
        (\<exists>p. fs_close f = Some p \<and> p \<le> dmul entry (dsub 1 (drawdown_exit cfg))) \<and>
      (''MARKET_SWITCH_OFF'' \<in> set (ex_reasons e)) = (streak \<ge> 2))"
proof (intro conjI allI impI)
  show "(strong_exit_signal cfg f entry held rank count streak next_date eligible = None) =
     (held < st_max_holding_days cfg \<and> eligible \<and> \<not> (count > 0 \<and> of_int rank > drnd (of_int count / 2)) \<and>
      \<not> (\<exists>p. fs_close f = Some p \<and> p \<le> dmul entry (dsub 1 (drawdown_exit cfg))) \<and> streak < 2)"
    unfolding strong_exit_signal_def make_exit_None by (auto split: option.splits)
next
  fix e assume "strong_exit_signal cfg f entry held rank count streak next_date eligible = Some e"
  note e = make_exit_reasons[OF this[unfolded strong_exit_signal_def]]
  then show "ex_symbol e = fs_symbol f" "ex_plan_date e = next_date" "ex_reason e = hd (ex_reasons e)"
    by auto
  show "held \<ge> st_max_holding_days cfg \<Longrightarrow> ex_reason e = ''MAX_HOLDING_DAYS''"
    "(''NOT_ELIGIBLE'' \<in> set (ex_reasons e)) = (\<not> eligible)"
    "(''RANK_OUT_OF_POOL'' \<in> set (ex_reasons e)) =
        (eligible \<and> count > 0 \<and> of_int rank > drnd (of_int count / 2))"
    "(''ENTRY_DRAWDOWN'' \<in> set (ex_reasons e)) =
        (\<exists>p. fs_close f = Some p \<and> p \<le> dmul entry (dsub 1 (drawdown_exit cfg)))"
    "(''MARKET_SWITCH_OFF'' \<in> set (ex_reasons e)) = (streak \<ge> 2)"
    using e by (auto split: option.splits)
qed

lemma strong_exit_rules_witness:
  "\<exists>e. strong_exit_signal default_strong_config (sample_feature ''A'') 10 3 1 1 2 6 True = Some e \<and>
     ex_reason e = ''MAX_HOLDING_DAYS'' \<and> ''MARKET_SWITCH_OFF'' \<in> set (ex_reasons e)"
proof -
  have held: "st_max_holding_days default_strong_config = 3" by (simp add: default_strong_config_def)
  obtain e where "strong_exit_signal default_strong_config (sample_feature ''A'') 10 3 1 1 2 6 True = Some e"
    by (simp add: strong_exit_signal_def make_exit_def held)
  with strong_exit_rules[of default_strong_config "sample_feature ''A''" 10 3 1 1 2 6 True] held
  show ?thesis by auto
qed

end
