(* ===== verification/MATrend.thy ===== *)
theory MATrend
  imports StrongTrend
begin

text \<open>
  The moving-average trend strategy, \<open>app/domain/strategy/ma_trend.py\<close>. Its selection loop is
  the one of the strong-trend strategy over its own caps.
\<close>

record ma_config =
  short_window :: int
  long_window :: int
  ma_max_positions :: int
  ma_max_per_industry :: int
  ma_max_holding_days :: int
  require_market_above_long_ma :: bool

definition default_ma_config :: ma_config where
  "default_ma_config = \<lparr>short_window = 20, long_window = 60, ma_max_positions = 4,
     ma_max_per_industry = 2, ma_max_holding_days = 20, require_market_above_long_ma = True\<rparr>"

record ma_feature =
  mf_symbol :: string
  mf_date :: date
  mf_close :: "dec option"
  short_ma :: "dec option"
  long_ma :: "dec option"
  mf_market_close :: "dec option"
  market_long_ma :: "dec option"
  mf_available_at :: "datetime option"
  mf_industry :: "string option"
  mf_st :: bool
  mf_suspended :: bool
  mf_delisted :: bool
  mf_limit_up :: bool

definition empty_ma_feature :: "string \<Rightarrow> date \<Rightarrow> ma_feature" where
  "empty_ma_feature symbol trade_date =
     \<lparr>mf_symbol = symbol, mf_date = trade_date, mf_close = None, short_ma = None, long_ma = None,
      mf_market_close = None, market_long_ma = None, mf_available_at = None, mf_industry = None,
      mf_st = False, mf_suspended = False, mf_delisted = False, mf_limit_up = False\<rparr>"

definition build_ma_feature ::
    "strategy_bar list \<Rightarrow> strategy_bar list \<Rightarrow> string \<Rightarrow> date \<Rightarrow> int \<Rightarrow> int \<Rightarrow> datetime option \<Rightarrow> ma_feature"
where
  "build_ma_feature bars market_bars symbol trade_date short long cutoff =
     (let stock = stock_history bars symbol trade_date cutoff;
          market = market_history market_bars trade_date cutoff;
          closes = map sb_close stock; market_closes = map sb_close market in
      case bar_on trade_date stock of
        None \<Rightarrow> empty_ma_feature symbol trade_date
      | Some current \<Rightarrow>
          \<lparr>mf_symbol = symbol, mf_date = trade_date, mf_close = Some (sb_close current),
           short_ma = moving_average short closes, long_ma = moving_average long closes,
           mf_market_close = map_option sb_close (bar_on trade_date market),
           market_long_ma = moving_average long market_closes,
           mf_available_at = sb_available_at current, mf_industry = sb_industry current,
           mf_st = sb_st current, mf_suspended = sb_suspended current,
           mf_delisted = sb_delisted current, mf_limit_up = sb_limit_up current\<rparr>)"

definition ma_complete :: "ma_feature \<Rightarrow> bool" where
  "ma_complete f \<longleftrightarrow> mf_close f \<noteq> None \<and> short_ma f \<noteq> None \<and> long_ma f \<noteq> None \<and>
     mf_market_close f \<noteq> None \<and> market_long_ma f \<noteq> None"

definition ma_is_candidate :: "ma_config \<Rightarrow> datetime option \<Rightarrow> ma_feature \<Rightarrow> bool" where
  "ma_is_candidate cfg cutoff f \<longleftrightarrow>
     available_at_or_before (mf_available_at f) cutoff \<and> ma_complete f \<and>
     (\<not> require_market_above_long_ma cfg \<or> the (mf_market_close f) > the (market_long_ma f)) \<and>
     the (mf_close f) > the (short_ma f) \<and> the (short_ma f) > the (long_ma f) \<and>
     \<not> mf_st f \<and> \<not> mf_suspended f \<and> \<not> mf_delisted f \<and> \<not> mf_limit_up f"

definition ma_score :: "ma_feature \<Rightarrow> (dec \<times> ma_feature) res" where
  "ma_score f =
     andThen (ddiv (the (mf_close f)) (the (short_ma f))) (\<lambda>a.
     andThen (ddiv (the (short_ma f)) (the (long_ma f))) (\<lambda>b.
       Inr (dadd (dsub a 1) (dsub b 1), f)))"

definition ma_rank_candidates ::
    "ma_config \<Rightarrow> datetime option \<Rightarrow> ma_feature list \<Rightarrow> (entry_signal list) res" where
  "ma_rank_candidates cfg cutoff features =
     andThen (map_res ma_score (filter (ma_is_candidate cfg cutoff) features))
       (\<lambda>scored. Inr (ranked_signals mf_symbol mf_date mf_industry scored))"

definition ma_select_candidates ::
    "ma_config \<Rightarrow> datetime option \<Rightarrow> ma_feature list \<Rightarrow> (entry_signal list) res" where
  "ma_select_candidates cfg cutoff features =
     andThen (ma_rank_candidates cfg cutoff features) (\<lambda>ranked.
       Inr (select_loop (ma_max_positions cfg) (ma_max_per_industry cfg) [] [] ranked))"

definition ma_exit_signal :: "ma_config \<Rightarrow> ma_feature \<Rightarrow> int \<Rightarrow> date \<Rightarrow> exit_signal option" where
  "ma_exit_signal cfg f held_days next_date =
     make_exit (mf_symbol f) (mf_date f) next_date
       ((case (mf_close f, short_ma f) of
           (Some c, Some s) \<Rightarrow> if c < s then [''CLOSE_BELOW_SHORT_MA''] else []
         | _ \<Rightarrow> []) @
        (if held_days \<ge> ma_max_holding_days cfg then [''MAX_HOLDING_DAYS''] else []))"

lemma build_ma_visible:
  "build_ma_feature bars mkt symbol d sw lw c =
   build_ma_feature (filter (visible d c) bars) (filter (visible d c) mkt) symbol d sw lw c"
  unfolding build_ma_feature_def Let_def
  by (simp only: flip: stock_history_visible market_history_visible)

lemma build_ma_basic:
  "mf_symbol (build_ma_feature bars mkt symbol d sw lw c) = symbol"
  "mf_date (build_ma_feature bars mkt symbol d sw lw c) = d"
  by (simp_all add: build_ma_feature_def Let_def empty_ma_feature_def split: option.splits)

text \<open>
  On candidates with a positive long average the ranking never raises: the prices and the
  averages it divides by are positive.
\<close>

lemma ma_score_defined:
  assumes "ma_is_candidate cfg c f" and "0 < the (long_ma f)"
  shows "\<exists>s. ma_score f = Inr s"
  using assms by (auto simp: ma_score_def ma_is_candidate_def ddiv_def)

lemma ma_score_nonneg:
  assumes "ma_is_candidate cfg c f" and "0 < the (long_ma f)"
  shows "\<exists>s. ma_score f = Inr (s, f) \<and> 0 \<le> s"
proof -
  have lt: "the (long_ma f) < the (short_ma f)" "the (short_ma f) < the (mf_close f)"
    using assms(1) by (auto simp: ma_is_candidate_def)
  have 1: "1 \<le> drnd (a / b)" if "0 < b" "b < a" for a b :: rat
    using d28.fits_le_rnd[of 1 "a / b"] dec28_of_int[of 1] that by simp
  have "0 \<le> dadd (dsub (drnd (the (mf_close f) / the (short_ma f))) 1)
      (dsub (drnd (the (short_ma f) / the (long_ma f))) 1)"
    using assms(2) lt by (intro dadd_nonneg dsub_nonneg 1) auto
  then show ?thesis using assms(2) lt by (simp add: ma_score_def ddiv_def)
qed

lemma ma_rank_result:
  assumes "\<forall>f\<in>set features. \<forall>x. long_ma f = Some x \<longrightarrow> 0 < x"
  shows "\<exists>scored. ma_rank_candidates cfg c features =
      Inr (ranked_signals mf_symbol mf_date mf_industry scored) \<and>
    map snd scored = filter (ma_is_candidate cfg c) features \<and> (\<forall>y\<in>set scored. 0 \<le> fst y)"
proof -
  let ?el = "filter (ma_is_candidate cfg c) features"
  have each: "\<exists>s. ma_score f = Inr (s, f) \<and> 0 \<le> s" if "f \<in> set ?el" for f
  proof (rule ma_score_nonneg[of cfg c])
    show "ma_is_candidate cfg c f" using that by simp
    then have "long_ma f \<noteq> None" by (simp add: ma_is_candidate_def ma_complete_def)
    then show "0 < the (long_ma f)" using assms that by auto
  qed
  obtain scored where sc: "map_res ma_score ?el = Inr scored"
    using map_res_defined[of ?el ma_score] each by blast
  from map_res_list_all2[OF sc] have "list_all2 (\<lambda>f y. snd y = f \<and> 0 \<le> fst y) ?el scored"
    by (rule list.rel_mono_strong) (use each in fastforce)
  then have "map snd scored = ?el \<and> (\<forall>y\<in>set scored. 0 \<le> fst y)"
    by (induction rule: list_all2_induct) auto
  then show ?thesis using sc by (intro exI[of _ scored]) (simp add: ma_rank_candidates_def)
qed

section \<open>Properties\<close>

text \<open>
  The moving-average strategy selects uptrends only: with positive long averages selection never
  fails, respects the position and industry caps, and every selected symbol has its close above the
  short average, the short above the long average, a non-negative score, and is neither ST,
  suspended, delisted nor at its upper limit.
\<close>

theorem ma_selection_sound:
  assumes "\<forall>f\<in>set features. \<forall>x. long_ma f = Some x \<longrightarrow> 0 < x"
  shows "\<exists>r. ma_select_candidates cfg c features = Inr r \<and>
    int (length r) \<le> max 0 (ma_max_positions cfg) \<and>
    (\<forall>i. int (length (filter (\<lambda>s. en_industry s = i) r)) \<le> max 0 (ma_max_per_industry cfg)) \<and>
    (\<forall>s\<in>set r. 0 \<le> en_score s \<and> (\<exists>f\<in>set features. en_symbol s = mf_symbol f \<and>
      the (short_ma f) < the (mf_close f) \<and> the (long_ma f) < the (short_ma f) \<and>
      \<not> mf_st f \<and> \<not> mf_suspended f \<and> \<not> mf_delisted f \<and> \<not> mf_limit_up f))"
proof -
  obtain sc where sc: "ma_rank_candidates cfg c features =
      Inr (ranked_signals mf_symbol mf_date mf_industry sc)"
    "map snd sc = filter (ma_is_candidate cfg c) features" "\<forall>y\<in>set sc. 0 \<le> fst y"
    using ma_rank_result[OF assms] by blast
  let ?rk = "ranked_signals mf_symbol mf_date mf_industry sc"
  let ?r = "select_loop (ma_max_positions cfg) (ma_max_per_industry cfg) [] [] ?rk"
  have "0 \<le> en_score s \<and> (\<exists>f\<in>set features. en_symbol s = mf_symbol f \<and>
      the (short_ma f) < the (mf_close f) \<and> the (long_ma f) < the (short_ma f) \<and>
      \<not> mf_st f \<and> \<not> mf_suspended f \<and> \<not> mf_delisted f \<and> \<not> mf_limit_up f)" if s: "s \<in> set ?r" for s
  proof -
    obtain t where t: "t \<in> set ?rk" "en_symbol s = en_symbol t" "en_score s = en_score t"
      using select_loop_from[OF s] by auto
    from ranked_signals_in[OF t(1)] obtain x f where f: "(x, f) \<in> set sc"
      "en_symbol t = mf_symbol f" "en_score t = x" by blast
    then have "f \<in> set (filter (ma_is_candidate cfg c) features)" by (force simp flip: sc(2))
    with f t sc(3) show ?thesis by (auto simp: ma_is_candidate_def)
  qed
  then show ?thesis
    using sc(1) select_loop_caps[where mp = "ma_max_positions cfg" and mi = "ma_max_per_industry cfg" and xs = ?rk]
    by (intro exI[of _ ?r]) (simp add: ma_select_candidates_def industry_count_def)
qed

lemma ma_selection_sound_witness:
  "\<exists>r. ma_select_candidates default_ma_config None
     [(empty_ma_feature ''A'' 5)\<lparr>mf_close := Some 12, short_ma := Some 11, long_ma := Some 10,
       mf_market_close := Some 3, market_long_ma := Some 2\<rparr>] = Inr r \<and> length r \<le> 4"
  using ma_selection_sound[of "[(empty_ma_feature ''A'' 5)\<lparr>mf_close := Some 12, short_ma := Some 11,
       long_ma := Some 10, mf_market_close := Some 3, market_long_ma := Some 2\<rparr>]" default_ma_config None]
  by (auto simp: default_ma_config_def)

end
