(* ===== verification/Registry.thy ===== *)
theory Registry
  imports MATrend
begin

text \<open>
  The strategy registry, \<open>app/domain/strategy/registry.py\<close>: the two strategies, the declared
  bounds of their parameters, the cross-field checks and \<open>build\<close>. The parameters are typed;
  how pydantic turns the raw dictionary into typed fields is not the program's code.
\<close>

datatype strategy_type = STRONG_TREND | MA_TREND

datatype parameters = StrongParams strong_config | MAParams ma_config

datatype strategy = StrongStrategy strong_config | MAStrategy ma_config

record strategy_definition =
  sd_type :: strategy_type
  minimum_history :: int
  supports_backtest :: bool
  approved_for_daily :: bool
  implementation_version :: string

definition registry :: "strategy_type \<Rightarrow> strategy_definition" where
  "registry t = (case t of
     STRONG_TREND \<Rightarrow> \<lparr>sd_type = STRONG_TREND, minimum_history = 21, supports_backtest = True,
       approved_for_daily = True, implementation_version = ''strong-trend-v2''\<rparr>
   | MA_TREND \<Rightarrow> \<lparr>sd_type = MA_TREND, minimum_history = 60, supports_backtest = True,
       approved_for_daily = False, implementation_version = ''ma-trend-v1''\<rparr>)"

definition get_strategy_definition :: "string \<Rightarrow> strategy_definition res" where
  "get_strategy_definition s =
     (if s = ''STRONG_TREND'' then Inr (registry STRONG_TREND)
      else if s = ''MA_TREND'' then Inr (registry MA_TREND)
      else Inl (ValueError (''unknown strategy_type: '' @ s)))"

text \<open>The \<open>ge\<close>, \<open>le\<close>, \<open>gt\<close> and \<open>lt\<close> of the declared fields.\<close>

definition strong_fields_ok :: "strong_config \<Rightarrow> bool" where
  "strong_fields_ok p \<longleftrightarrow>
     1 \<le> st_max_positions p \<and> st_max_positions p \<le> 20 \<and>
     1 \<le> st_max_per_industry p \<and> st_max_per_industry p \<le> 20 \<and>
     - 1 \<le> min_return_5d p \<and> min_return_5d p \<le> 5 \<and>
     - 1 \<le> max_return_5d p \<and> max_return_5d p \<le> 5 \<and>
     0 \<le> min_amount_ratio p \<and> min_amount_ratio p \<le> 100 \<and>
     0 \<le> max_amount_ratio p \<and> max_amount_ratio p \<le> 100 \<and>
     1 \<le> st_max_holding_days p \<and> st_max_holding_days p \<le> 252 \<and>
     0 < drawdown_exit p \<and> drawdown_exit p < 1"

definition ma_fields_ok :: "ma_config \<Rightarrow> bool" where
  "ma_fields_ok p \<longleftrightarrow>
     2 \<le> short_window p \<and> short_window p \<le> 250 \<and>
     3 \<le> long_window p \<and> long_window p \<le> 500 \<and>
     1 \<le> ma_max_positions p \<and> ma_max_positions p \<le> 20 \<and>
     1 \<le> ma_max_per_industry p \<and> ma_max_per_industry p \<le> 20 \<and>
     1 \<le> ma_max_holding_days p \<and> ma_max_holding_days p \<le> 252"

text \<open>
  \<open>validate_parameters\<close>: the parameters must be of the definition's model, every field in its
  declared range, and the cross-field conditions must hold.
\<close>

definition validate_parameters :: "strategy_definition \<Rightarrow> parameters \<Rightarrow> parameters res" where
  "validate_parameters d ps =
     (case (sd_type d, ps) of
        (STRONG_TREND, StrongParams p) \<Rightarrow>
          if \<not> strong_fields_ok p then Inl (ValueError ''validation error'')
          else if min_return_5d p > max_return_5d p
          then Inl (ValueError ''min_return_5d must not exceed max_return_5d'')
          else if min_amount_ratio p > max_amount_ratio p
          then Inl (ValueError ''min_amount_ratio must not exceed max_amount_ratio'')
          else Inr ps
      | (MA_TREND, MAParams p) \<Rightarrow>
          if \<not> ma_fields_ok p then Inl (ValueError ''validation error'')
          else if short_window p \<ge> long_window p
          then Inl (ValueError ''short_window must be less than long_window'')
          else Inr ps
      | _ \<Rightarrow> Inl (ValueError ''validation error''))"

definition build :: "strategy_definition \<Rightarrow> parameters \<Rightarrow> strategy res" where
  "build d ps = andThen (validate_parameters d ps) (\<lambda>v.
     Inr (case v of StrongParams p \<Rightarrow> StrongStrategy p | MAParams p \<Rightarrow> MAStrategy p))"

definition expand_parameters :: "string \<Rightarrow> parameters \<Rightarrow> parameters res" where
  "expand_parameters t ps = andThen (get_strategy_definition t) (\<lambda>d. validate_parameters d ps)"

text \<open>What a built strategy guarantees to the engine that runs it.\<close>

definition strategy_ok :: "strategy \<Rightarrow> bool" where
  "strategy_ok s = (case s of
     StrongStrategy p \<Rightarrow> strong_fields_ok p \<and> min_return_5d p \<le> max_return_5d p \<and>
       min_amount_ratio p \<le> max_amount_ratio p
   | MAStrategy p \<Rightarrow> ma_fields_ok p \<and> short_window p < long_window p)"

lemma validate_idempotent:
  "validate_parameters d ps = Inr v \<Longrightarrow> v = ps \<and> validate_parameters d v = Inr v"
  by (cases "sd_type d"; cases ps) (auto simp: validate_parameters_def split: if_splits)

lemma validate_parameters_ok:
  assumes "validate_parameters d ps = Inr v"
  shows "v = ps \<and> (case ps of
      StrongParams p \<Rightarrow> sd_type d = STRONG_TREND \<and> strategy_ok (StrongStrategy p)
    | MAParams p \<Rightarrow> sd_type d = MA_TREND \<and> strategy_ok (MAStrategy p))"
  using assms by (cases "sd_type d"; cases ps)
    (auto simp: validate_parameters_def strategy_ok_def split: if_splits)

lemma build_from:
  assumes "build d ps = Inr s"
  shows "strategy_ok s \<and> (case ps of
      StrongParams p \<Rightarrow> sd_type d = STRONG_TREND \<and> s = StrongStrategy p
    | MAParams p \<Rightarrow> sd_type d = MA_TREND \<and> s = MAStrategy p)"
proof -
  from assms obtain v where v: "validate_parameters d ps = Inr v"
    and s: "s = (case v of StrongParams p \<Rightarrow> StrongStrategy p | MAParams p \<Rightarrow> MAStrategy p)"
    by (auto simp: build_def elim!: andThen_InrE)
  from validate_parameters_ok[OF v] s show ?thesis by (cases ps) auto
qed

lemma get_strategy_definition_type:
  "get_strategy_definition t = Inr d \<Longrightarrow> d = registry (sd_type d) \<and>
    t = (case sd_type d of STRONG_TREND \<Rightarrow> ''STRONG_TREND'' | MA_TREND \<Rightarrow> ''MA_TREND'')"
  by (auto simp: get_strategy_definition_def registry_def split: if_splits)

section \<open>Properties\<close>

text \<open>
  Only checked parameters reach the engine: \<open>build\<close> succeeds exactly when the parameters belong
  to the definition's strategy, every field is in its declared range and the cross-field conditions
  hold, and it then returns the strategy with those parameters unchanged.
\<close>

theorem build_checked:
  "(build d (StrongParams p) = Inr s) = (sd_type d = STRONG_TREND \<and> s = StrongStrategy p \<and>
      strong_fields_ok p \<and> min_return_5d p \<le> max_return_5d p \<and> min_amount_ratio p \<le> max_amount_ratio p) \<and>
   (build d (MAParams q) = Inr s) = (sd_type d = MA_TREND \<and> s = MAStrategy q \<and>
      ma_fields_ok q \<and> short_window q < long_window q)"
  by (cases "sd_type d") (auto simp: build_def validate_parameters_def)

end
