(* ===== verification/Drawdown.thy ===== *)
theory Drawdown
  imports Decimal28
begin

text \<open>
  The drawdown monitor of \<open>app/domain/risk/drawdown.py\<close>: a state machine over the high-water
  mark with two thresholds, whose last state is left only by two different confirmations.
\<close>

datatype drawdown_state = NORMAL | STOP_NEW | REVIEW_REQUIRED

definition state_value :: "drawdown_state \<Rightarrow> string" where
  "state_value s = (case s of NORMAL \<Rightarrow> ''NORMAL'' | STOP_NEW \<Rightarrow> ''STOP_NEW''
     | REVIEW_REQUIRED \<Rightarrow> ''REVIEW_REQUIRED'')"

text \<open>\<open>DrawdownState(value)\<close> raises on an unknown value.\<close>

definition parse_state :: "string \<Rightarrow> drawdown_state res" where
  "parse_state v =
     (if v = ''NORMAL'' then Inr NORMAL else if v = ''STOP_NEW'' then Inr STOP_NEW
      else if v = ''REVIEW_REQUIRED'' then Inr REVIEW_REQUIRED
      else Inl (ValueError ''not a valid DrawdownState''))"

text \<open>States are ordered by severity.\<close>

instantiation drawdown_state :: linorder
begin

definition severity :: "drawdown_state \<Rightarrow> nat" where
  "severity s = (case s of NORMAL \<Rightarrow> 0 | STOP_NEW \<Rightarrow> 1 | REVIEW_REQUIRED \<Rightarrow> 2)"

definition less_eq_drawdown_state :: "drawdown_state \<Rightarrow> drawdown_state \<Rightarrow> bool" where
  "less_eq_drawdown_state a b \<longleftrightarrow> severity a \<le> severity b"

definition less_drawdown_state :: "drawdown_state \<Rightarrow> drawdown_state \<Rightarrow> bool" where
  "less_drawdown_state a b \<longleftrightarrow> severity a < severity b"

instance
  by standard
     (auto simp: less_eq_drawdown_state_def less_drawdown_state_def severity_def
           split: drawdown_state.splits)

end

record audit_event =
  ae_action :: string
  ae_drawdown :: dec
  ae_confirmation :: "string option"

record monitor =
  dm_high_water :: dec
  warning_threshold :: dec
  stop_threshold :: dec
  dm_state :: drawdown_state
  dm_drawdown :: dec
  confirmations :: "string list"
  audit_events :: "audit_event list"

definition new_monitor :: "dec \<Rightarrow> dec \<Rightarrow> dec \<Rightarrow> monitor res" where
  "new_monitor initial_equity warning stop =
     (if \<not> (0 < warning \<and> warning < stop \<and> stop < 1)
      then Inl (ValueError ''drawdown thresholds must be ordered between zero and one'')
      else Inr \<lparr>dm_high_water = initial_equity, warning_threshold = warning, stop_threshold = stop,
        dm_state = NORMAL, dm_drawdown = 0, confirmations = [], audit_events = []\<rparr>)"

definition add_audit :: "string \<Rightarrow> dec \<Rightarrow> string option \<Rightarrow> monitor \<Rightarrow> monitor" where
  "add_audit action dd cid m =
     m\<lparr>audit_events := audit_events m @
        [\<lparr>ae_action = action, ae_drawdown = dd, ae_confirmation = cid\<rparr>]\<rparr>"

text \<open>The state transition of \<open>observe\<close> for a measured drawdown.\<close>

definition classify :: "dec \<Rightarrow> monitor \<Rightarrow> monitor" where
  "classify dd m =
     (if dm_state m = REVIEW_REQUIRED then m
      else if stop_threshold m \<le> dd
      then (add_audit ''DRAWDOWN_REVIEW_REQUIRED'' dd None m)\<lparr>dm_state := REVIEW_REQUIRED\<rparr>
      else if dm_state m = STOP_NEW then m
      else if warning_threshold m \<le> dd
      then (if dm_state m = NORMAL then add_audit ''DRAWDOWN_STOP_NEW'' dd None m else m)
             \<lparr>dm_state := STOP_NEW\<rparr>
      else m)"

definition observe :: "dec \<Rightarrow> monitor \<Rightarrow> monitor res" where
  "observe eq m =
     (let m1 = (if eq > dm_high_water m then m\<lparr>dm_high_water := eq\<rparr> else m)
      in andThen (ddiv (dsub (dm_high_water m1) eq) (dm_high_water m1)) (\<lambda>dd.
           Inr (classify dd (m1\<lparr>dm_drawdown := dd\<rparr>))))"

definition recovery_allowed :: "bool \<Rightarrow> bool \<Rightarrow> dec option \<Rightarrow> monitor \<Rightarrow> bool" where
  "recovery_allowed authorized checklist_complete eq m \<longleftrightarrow>
     authorized \<and> checklist_complete \<and>
     (case eq of None \<Rightarrow> False
      | Some e \<Rightarrow> e > dmul (dm_high_water m) (dsub 1 (warning_threshold m)))"

definition confirm_recovery ::
    "string \<Rightarrow> bool \<Rightarrow> bool \<Rightarrow> dec option \<Rightarrow> monitor \<Rightarrow> bool \<times> monitor" where
  "confirm_recovery cid authorized checklist_complete eq m =
     (if dm_state m \<noteq> REVIEW_REQUIRED \<or> cid \<in> set (confirmations m) \<or>
         \<not> recovery_allowed authorized checklist_complete eq m
      then (False, m)
      else let m1 = m\<lparr>confirmations := confirmations m @ [cid]\<rparr>
        in if length (confirmations m1) < 2 then (False, m1)
           else (True, (add_audit ''DRAWDOWN_RECOVERY_CONFIRMED'' 0 (Some cid)
                   (m1\<lparr>dm_state := NORMAL\<rparr>))\<lparr>confirmations := []\<rparr>))"

section \<open>The monitor as a transition system\<close>

datatype dd_event = Observe dec | Confirm string bool bool "dec option"

inductive dd_step :: "monitor \<Rightarrow> dd_event \<Rightarrow> monitor \<Rightarrow> bool" where
  observed: "observe e m = Inr m' \<Longrightarrow> dd_step m (Observe e) m'"
| confirmed: "confirm_recovery c a k e m = (r, m') \<Longrightarrow> dd_step m (Confirm c a k e) m'"

inductive dd_run :: "monitor \<Rightarrow> dd_event list \<Rightarrow> monitor \<Rightarrow> bool" where
  dd_start: "dd_run m [] m"
| dd_next: "dd_run m es m1 \<Longrightarrow> dd_step m1 e m2 \<Longrightarrow> dd_run m (es @ [e]) m2"

inductive_simps dd_step_observe: "dd_step m (Observe e) m'"
inductive_simps dd_step_confirm: "dd_step m (Confirm c a k e) m'"
inductive_cases dd_stepE: "dd_step m e m'"

definition monitor_ok :: "monitor \<Rightarrow> bool" where
  "monitor_ok m \<longleftrightarrow> distinct (confirmations m) \<and> length (confirmations m) < 2 \<and>
     (dm_state m \<noteq> REVIEW_REQUIRED \<longrightarrow> confirmations m = []) \<and>
     0 < warning_threshold m \<and> warning_threshold m < stop_threshold m \<and> stop_threshold m < 1"

lemma add_audit_simps [simp]:
  "dm_state (add_audit a d c m) = dm_state m" "confirmations (add_audit a d c m) = confirmations m"
  "dm_high_water (add_audit a d c m) = dm_high_water m"
  "warning_threshold (add_audit a d c m) = warning_threshold m"
  "stop_threshold (add_audit a d c m) = stop_threshold m"
  "dm_drawdown (add_audit a d c m) = dm_drawdown m"
  by (simp_all add: add_audit_def)

lemma classify_frame [simp]:
  "confirmations (classify dd m) = confirmations m" "dm_high_water (classify dd m) = dm_high_water m"
  "warning_threshold (classify dd m) = warning_threshold m"
  "stop_threshold (classify dd m) = stop_threshold m" "dm_drawdown (classify dd m) = dm_drawdown m"
  by (simp_all add: classify_def)

lemma classify_state:
  "dm_state (classify dd m) =
     (if dm_state m = REVIEW_REQUIRED \<or> stop_threshold m \<le> dd then REVIEW_REQUIRED
      else if dm_state m = STOP_NEW \<or> warning_threshold m \<le> dd then STOP_NEW else NORMAL)"
  by (cases "dm_state m") (auto simp: classify_def)

lemma observe_InrD:
  assumes "observe e m = Inr m'"
  shows "dm_high_water m' = max (dm_high_water m) e" "confirmations m' = confirmations m"
    "warning_threshold m' = warning_threshold m" "stop_threshold m' = stop_threshold m"
    "dm_drawdown m' = drnd (dsub (dm_high_water m') e / dm_high_water m')" "dm_high_water m' \<noteq> 0"
    "dm_state m' = (if dm_state m = REVIEW_REQUIRED \<or> stop_threshold m \<le> dm_drawdown m'
        then REVIEW_REQUIRED
        else if dm_state m = STOP_NEW \<or> warning_threshold m \<le> dm_drawdown m' then STOP_NEW
        else NORMAL)"
  using assms
  by (auto simp: observe_def Let_def andThen_Inr_iff ddiv_Inr_iff classify_state max_def split: if_splits)

lemma severity_less_eq: "a \<le> b \<longleftrightarrow> severity a \<le> severity b"
  by (simp add: less_eq_drawdown_state_def)

lemma observe_latches:
  assumes "observe e m = Inr m'" shows "dm_state m \<le> dm_state m'"
  using observe_InrD(7)[OF assms]
  by (cases "dm_state m") (auto simp: severity_less_eq severity_def split: if_splits)

lemma new_monitor_ok: "new_monitor i w s = Inr m \<Longrightarrow> monitor_ok m"
  by (auto simp: new_monitor_def monitor_ok_def split: if_splits)

lemma observe_keeps_ok: "observe e m = Inr m' \<Longrightarrow> monitor_ok m \<Longrightarrow> monitor_ok m'"
  using observe_InrD[of e m m'] by (auto simp: monitor_ok_def split: if_splits)

lemma confirm_keeps_ok:
  assumes "confirm_recovery c a k e m = (r, m')" and "monitor_ok m" shows "monitor_ok m'"
  using assms by (auto simp: confirm_recovery_def monitor_ok_def Let_def split: if_splits)

lemma dd_step_ok: "dd_step m e m' \<Longrightarrow> monitor_ok m \<Longrightarrow> monitor_ok m'"
  by (erule dd_stepE) (auto intro: observe_keeps_ok confirm_keeps_ok)

lemma dd_run_ok: "dd_run m es m' \<Longrightarrow> monitor_ok m \<Longrightarrow> monitor_ok m'"
  by (induction rule: dd_run.induct) (auto intro: dd_step_ok)

text \<open>The confirmations that are accepted in a state.\<close>

definition accepted :: "monitor \<Rightarrow> dd_event \<Rightarrow> string option" where
  "accepted m ev = (case ev of Observe e \<Rightarrow> None
     | Confirm c a k e \<Rightarrow> if dm_state m = REVIEW_REQUIRED \<and> c \<notin> set (confirmations m) \<and>
         recovery_allowed a k e m then Some c else None)"

lemma dd_step_confirmations:
  assumes "dd_step m ev m'" and "monitor_ok m"
  shows "(case accepted m ev of
            None \<Rightarrow> confirmations m' = confirmations m \<and> dm_state m \<le> dm_state m'
          | Some c \<Rightarrow> (if confirmations m = [] then confirmations m' = [c] \<and> dm_state m' = REVIEW_REQUIRED
              else confirmations m' = [] \<and> dm_state m' = NORMAL \<and> confirmations m \<noteq> [c]))"
proof -
  have le: "length (confirmations m) < 2" using assms(2) by (simp add: monitor_ok_def)
  show ?thesis
  proof (cases ev)
    case (Observe e)
    then have "observe e m = Inr m'" using assms(1) by (simp add: dd_step_observe)
    then show ?thesis using observe_InrD(2) observe_latches by (simp add: accepted_def Observe)
  next
    case (Confirm c a k e)
    then obtain r where r: "confirm_recovery c a k e m = (r, m')"
      using assms(1) by (auto simp: dd_step_confirm)
    show ?thesis
    proof (cases "confirmations m")
      case Nil
      then show ?thesis using r
        by (auto simp: accepted_def Confirm confirm_recovery_def Let_def split: if_splits)
    next
      case (Cons x xs)
      with le have "confirmations m = [x]" by (cases xs) auto
      then show ?thesis using r
        by (auto simp: accepted_def Confirm confirm_recovery_def Let_def split: if_splits)
    qed
  qed
qed

text \<open>
  Leaving \<open>REVIEW_REQUIRED\<close> takes two accepted confirmations with different identifiers.
\<close>

lemma recovery_step:
  assumes "dd_step m ev m'" and "monitor_ok m"
    and "dm_state m = REVIEW_REQUIRED" and "dm_state m' \<noteq> REVIEW_REQUIRED"
  shows "\<exists>c1 c2. confirmations m = [c1] \<and> accepted m ev = Some c2 \<and> c1 \<noteq> c2 \<and>
    dm_state m' = NORMAL \<and> confirmations m' = []"
proof -
  have le: "length (confirmations m) < 2" using assms(2) by (simp add: monitor_ok_def)
  from dd_step_confirmations[OF assms(1,2)] assms(3,4) obtain c2 where
    a: "accepted m ev = Some c2" "confirmations m \<noteq> []" "confirmations m' = []"
      "dm_state m' = NORMAL" "confirmations m \<noteq> [c2]"
    by (cases "accepted m ev")
       (auto simp: severity_less_eq severity_def split: if_splits drawdown_state.splits)
  then obtain c1 where "confirmations m = [c1]" using le by (cases "confirmations m") auto
  with a show ?thesis by auto
qed

lemma dd_step_not_downgraded:
  assumes "dd_step m ev m'" and "monitor_ok m" and "dm_state m \<noteq> REVIEW_REQUIRED"
  shows "dm_state m \<le> dm_state m'"
proof -
  have "accepted m ev = None" using assms(3) by (cases ev) (auto simp: accepted_def)
  then show ?thesis using dd_step_confirmations[OF assms(1,2)] by simp
qed

section \<open>Properties\<close>

text \<open>Two different authorised confirmations with a complete checklist among the events.\<close>

definition two_confirmations :: "dd_event list \<Rightarrow> bool" where
  "two_confirmations es \<longleftrightarrow> (\<exists>c1 c2 e1 e2. c1 \<noteq> c2 \<and>
     Confirm c1 True True (Some e1) \<in> set es \<and> Confirm c2 True True (Some e2) \<in> set es)"

lemma accepted_approved:
  "accepted m ev = Some c \<Longrightarrow> \<exists>e. ev = Confirm c True True (Some e)"
  by (cases ev) (auto simp: accepted_def recovery_allowed_def split: if_splits option.splits)

lemma recovery_run_inv:
  assumes "dd_run m es m'" and "monitor_ok m" and "dm_state m = REVIEW_REQUIRED" and "confirmations m = []"
  shows "two_confirmations es \<or> dm_state m' = REVIEW_REQUIRED \<and>
    (\<forall>c\<in>set (confirmations m'). \<exists>e. Confirm c True True (Some e) \<in> set es)"
  using assms
proof (induction rule: dd_run.induct)
  case (dd_next m es m1 ev m2)
  note ok = dd_run_ok[OF dd_next.hyps(1) dd_next.prems(1)]
  show ?case
  proof (cases "two_confirmations es")
    case True
    then show ?thesis by (auto simp: two_confirmations_def)
  next
    case False
    with dd_next have st: "dm_state m1 = REVIEW_REQUIRED"
      and cs: "\<forall>c\<in>set (confirmations m1). \<exists>e. Confirm c True True (Some e) \<in> set es" by auto
    show ?thesis
    proof (cases "dm_state m2 = REVIEW_REQUIRED")
      case True
      have "confirmations m2 = confirmations m1 \<or> (\<exists>c. accepted m1 ev = Some c \<and> confirmations m2 = [c])"
        using dd_step_confirmations[OF dd_next.hyps(2) ok] True
        by (cases "accepted m1 ev") (auto split: if_splits)
      with True cs accepted_approved[of m1 ev] show ?thesis by fastforce
    next
      case False
      from recovery_step[OF dd_next.hyps(2) ok st False] obtain c1 c2
        where "confirmations m1 = [c1]" "accepted m1 ev = Some c2" "c1 \<noteq> c2" by auto
      with cs accepted_approved[of m1 ev c2] show ?thesis
        unfolding two_confirmations_def by (metis in_set_conv_decomp list.set_intros(1) UnCI set_append)
    qed
  qed
qed simp


definition sample_monitor :: "drawdown_state \<Rightarrow> monitor" where
  "sample_monitor st = \<lparr>dm_high_water = 100, warning_threshold = 6/100, stop_threshold = 8/100,
     dm_state = st, dm_drawdown = 10/100, confirmations = [], audit_events = []\<rparr>"

lemma sample_recovery:
  "\<exists>m'. dd_run (sample_monitor REVIEW_REQUIRED)
      [Confirm ''a'' True True (Some 99), Confirm ''b'' True True (Some 99)] m' \<and> dm_state m' = NORMAL"
proof -
  let ?m = "sample_monitor REVIEW_REQUIRED"
  let ?m1 = "?m\<lparr>confirmations := [''a'']\<rparr>"
  let ?m2 = "(add_audit ''DRAWDOWN_RECOVERY_CONFIRMED'' 0 (Some ''b'')
     (?m\<lparr>confirmations := [''a'', ''b''], dm_state := NORMAL\<rparr>))\<lparr>confirmations := []\<rparr>"
  have "confirm_recovery ''a'' True True (Some 99) ?m = (False, ?m1)"
    "confirm_recovery ''b'' True True (Some 99) ?m1 = (True, ?m2)"
    by (simp_all add: confirm_recovery_def sample_monitor_def recovery_allowed_def dmul_def dsub_def
        Let_def add_audit_def)
  then have "dd_step ?m (Confirm ''a'' True True (Some 99)) ?m1"
    "dd_step ?m1 (Confirm ''b'' True True (Some 99)) ?m2"
    by (auto simp: dd_step_confirm)
  with dd_next[OF dd_next[OF dd_start]]
  have "dd_run ?m ([] @ [Confirm ''a'' True True (Some 99)] @ [Confirm ''b'' True True (Some 99)]) ?m2"
    by (metis append.assoc)
  then show ?thesis by (intro exI[of _ ?m2]) simp
qed


text \<open>
  An observation never makes the monitor less careful and applies the thresholds: the high-water
  mark becomes the maximum with the equity, the state is at least as severe as before, and it is
  \<open>REVIEW_REQUIRED\<close> or at least \<open>STOP_NEW\<close> whenever the measured drawdown reaches the stop or the
  warning threshold.
\<close>

theorem observe_escalates:
  assumes "observe e m = Inr m'"
  shows "dm_high_water m' = max (dm_high_water m) e \<and> dm_state m \<le> dm_state m' \<and>
    (stop_threshold m \<le> dm_drawdown m' \<longrightarrow> dm_state m' = REVIEW_REQUIRED) \<and>
    (warning_threshold m \<le> dm_drawdown m' \<longrightarrow> STOP_NEW \<le> dm_state m') \<and>
    (dm_state m = NORMAL \<and> dm_drawdown m' < warning_threshold m \<and> warning_threshold m < stop_threshold m
      \<longrightarrow> dm_state m' = NORMAL) \<and>
    (0 \<le> dm_high_water m \<longrightarrow> 0 \<le> dm_drawdown m')"
proof -
  note o = observe_InrD[OF assms]
  have "0 \<le> dm_drawdown m'" if "0 \<le> dm_high_water m"
    using that o(1,5) by (auto intro!: drnd_nonneg divide_nonneg_nonneg dsub_nonneg)
  then show ?thesis
    using o(1,7) observe_latches[OF assms] by (auto simp: severity_less_eq severity_def)
qed

lemma observe_escalates_witness:
  "\<exists>m'. observe 91 (sample_monitor NORMAL) = Inr m' \<and> dm_state m' = REVIEW_REQUIRED"
proof -
  have d: "drnd (9 / 100) = 9 / 100" by simp
  obtain m' where m': "observe 91 (sample_monitor NORMAL) = Inr m'" "dm_drawdown m' = 9/100"
    by (simp add: observe_def sample_monitor_def dsub_def ddiv_def Let_def d)
  from observe_escalates[OF m'(1)] m' show ?thesis by (auto simp: sample_monitor_def)
qed

end
