(* ===== verification/Allocation.thy ===== *)
theory Allocation
  imports Costs Drawdown
begin

text \<open>
  Position sizing, \<open>app/domain/risk/allocation.py\<close>. The loop that gives up one lot at a time
  is a \<open>partial_function\<close>: \<open>None\<close> is a loop that does not end, as it would with a
  lot size that is not positive.
\<close>

record alloc_position =
  ap_symbol :: string
  ap_quantity :: int
  ap_value :: dec
  ap_industry :: "string option"

record limits =
  lim_initial_equity :: dec
  max_investment_ratio :: dec
  max_positions :: int
  target_position_value :: dec
  max_position_ratio :: dec
  max_industry_ratio :: dec
  per_trade_risk_ratio :: dec
  lot_size :: int

definition default_limits :: limits where
  "default_limits = \<lparr>lim_initial_equity = 20000, max_investment_ratio = 70/100, max_positions = 4,
     target_position_value = 3500, max_position_ratio = 20/100, max_industry_ratio = 35/100,
     per_trade_risk_ratio = 1/100, lot_size = 100\<rparr>"

record alloc_request =
  ar_price :: dec
  ar_cash :: dec
  ar_equity :: dec
  ar_positions :: "alloc_position list"
  ar_industry :: "string option"
  ar_limits :: limits
  ar_stop_distance :: "dec option"
  ar_symbol :: "string option"
  ar_cost_model :: cost_model
  ar_drawdown_state :: string
  ar_financing :: string
  ar_leverage :: dec
  ar_allow_short :: bool
  ar_account_type :: string

text \<open>What buying \<open>q\<close> shares takes from the cash, costs included.\<close>

definition purchase_total :: "cost_model \<Rightarrow> dec \<Rightarrow> int \<Rightarrow> dec res" where
  "purchase_total m price q =
     andThen (calculate m ''BUY'' q price) (\<lambda>c. Inr (dadd (dmul price (of_int q)) (cost_total c)))"

partial_function (option) reduce_lots ::
    "cost_model \<Rightarrow> dec \<Rightarrow> dec \<Rightarrow> int \<Rightarrow> int \<Rightarrow> (int res) option" where
  "reduce_lots m price funds lot q =
     (if q > 0
      then (case purchase_total m price q of
              Inl e \<Rightarrow> Some (Inl e)
            | Inr amount \<Rightarrow> if amount \<le> funds then Some (Inr q)
                else reduce_lots m price funds lot (q - lot))
      else Some (Inr q))"

definition current_position :: "alloc_request \<Rightarrow> alloc_position option" where
  "current_position r = List.find (\<lambda>p. Some (ap_symbol p) = ar_symbol r) (ar_positions r)"

definition position_count :: "alloc_request \<Rightarrow> int" where
  "position_count r =
     int (length (filter (\<lambda>p. ap_quantity p > 0 \<and> Some (ap_symbol p) \<noteq> ar_symbol r) (ar_positions r)))
     + (if current_position r = None then 1 else 0)"

definition invested :: "alloc_request \<Rightarrow> dec" where
  "invested r = dsum (map ap_value (ar_positions r))"

definition industry_value :: "alloc_request \<Rightarrow> dec" where
  "industry_value r = dsum (map ap_value (filter (\<lambda>p. ap_industry p = ar_industry r) (ar_positions r)))"

definition current_value :: "alloc_request \<Rightarrow> dec" where
  "current_value r = (case current_position r of None \<Rightarrow> 0 | Some p \<Rightarrow> ap_value p)"

definition remaining_investment :: "alloc_request \<Rightarrow> dec" where
  "remaining_investment r =
     max 0 (dsub (dmul (ar_equity r) (max_investment_ratio (ar_limits r))) (invested r))"

definition remaining_position :: "alloc_request \<Rightarrow> dec" where
  "remaining_position r =
     max 0 (dsub (dmul (ar_equity r) (max_position_ratio (ar_limits r))) (current_value r))"

definition remaining_industry :: "alloc_request \<Rightarrow> dec" where
  "remaining_industry r =
     max 0 (dsub (dmul (ar_equity r) (max_industry_ratio (ar_limits r))) (industry_value r))"

definition base_notional :: "alloc_request \<Rightarrow> dec" where
  "base_notional r = min (target_position_value (ar_limits r)) (min (remaining_position r)
     (min (remaining_industry r) (min (remaining_investment r) (ar_cash r))))"

text \<open>The notional after the stop-distance rule; \<open>None\<close> where the code returns 0.\<close>

definition risk_notional :: "alloc_request \<Rightarrow> (dec option) res" where
  "risk_notional r =
     (case ar_stop_distance r of
        None \<Rightarrow> Inr (Some (base_notional r))
      | Some d \<Rightarrow>
          if d \<le> 0 then Inr None
          else andThen (ddiv (dmul (ar_equity r) (per_trade_risk_ratio (ar_limits r))) d)
            (\<lambda>rq. Inr (Some (min (base_notional r) (dmul rq (ar_price r))))))"

text \<open>The quantity in whole lots before the loop.\<close>

definition start_quantity :: "limits \<Rightarrow> dec \<Rightarrow> dec \<Rightarrow> int res" where
  "start_quantity l price notional =
     andThen (ddiv notional price) (\<lambda>shares.
       andThen (dfloordiv (of_int (dtrunc shares)) (of_int (lot_size l))) (\<lambda>lots.
         Inr (dtrunc (dmul lots (of_int (lot_size l))))))"

definition allocate_quantity :: "alloc_request \<Rightarrow> (int res) option" where
  "allocate_quantity r =
     (if upper (ar_account_type r) \<noteq> ''CASH'' \<or> upper (ar_financing r) \<noteq> ''CASH'' \<or>
         ar_leverage r \<noteq> 1 \<or> ar_allow_short r
      then Some (Inl (ValueError ''only unleveraged cash long allocation is supported''))
      else case parse_state (ar_drawdown_state r) of
        Inl e \<Rightarrow> Some (Inl e)
      | Inr st \<Rightarrow>
        if st \<noteq> NORMAL then Some (Inr 0)
        else if ar_price r \<le> 0 \<or> ar_cash r \<le> 0 \<or> ar_equity r \<le> 0 \<or>
                position_count r > max_positions (ar_limits r)
        then Some (Inr 0)
        else case risk_notional r of
          Inl e \<Rightarrow> Some (Inl e)
        | Inr None \<Rightarrow> Some (Inr 0)
        | Inr (Some notional) \<Rightarrow>
            (case start_quantity (ar_limits r) (ar_price r) notional of
               Inl e \<Rightarrow> Some (Inl e)
             | Inr q \<Rightarrow> reduce_lots (ar_cost_model r) (ar_price r) (ar_cash r)
                 (lot_size (ar_limits r)) q))"

section \<open>The lot loop\<close>

lemma purchase_total_defined: "0 \<le> p \<Longrightarrow> 0 \<le> q \<Longrightarrow> \<exists>t. purchase_total m p q = Inr t"
  using calculate_defined[of m "''BUY''" q p] by (auto simp: purchase_total_def)

lemma reduce_lots_spec:
  assumes "0 < lot" and "0 < p"
  shows "\<exists>k. reduce_lots m p funds lot q = Some (Inr (q - int k * lot)) \<and>
    (0 < q - int k * lot \<longrightarrow> (\<exists>t. purchase_total m p (q - int k * lot) = Inr t \<and> t \<le> funds)) \<and>
    (\<forall>j<k. 0 < q - int j * lot \<and> (\<exists>t. purchase_total m p (q - int j * lot) = Inr t \<and> funds < t))"
proof (induction "nat q" arbitrary: q rule: less_induct)
  case less
  show ?case
  proof (cases "q > 0")
    case False
    then show ?thesis by (intro exI[of _ 0]) (simp add: reduce_lots.simps[of m p funds lot q])
  next
    case True
    obtain t where t: "purchase_total m p q = Inr t"
      using purchase_total_defined[of p q m] assms True by auto
    show ?thesis
    proof (cases "t \<le> funds")
      case le: True
      then show ?thesis using t True
        by (intro exI[of _ 0]) (simp add: reduce_lots.simps[of m p funds lot q])
    next
      case False
      have "nat (q - lot) < nat q" using True assms by simp
      from less[OF this] obtain k where
        k: "reduce_lots m p funds lot (q - lot) = Some (Inr (q - lot - int k * lot))"
          "0 < q - lot - int k * lot \<longrightarrow> (\<exists>t. purchase_total m p (q - lot - int k * lot) = Inr t \<and> t \<le> funds)"
          "\<forall>j<k. 0 < q - lot - int j * lot \<and> (\<exists>t. purchase_total m p (q - lot - int j * lot) = Inr t \<and> funds < t)"
        by blast
      have r: "reduce_lots m p funds lot q = reduce_lots m p funds lot (q - lot)"
        using t True False by (subst reduce_lots.simps) simp
      have e: "q - int (Suc i) * lot = q - lot - int i * lot" for i by (simp add: algebra_simps)
      show ?thesis
      proof (intro exI[of _ "Suc k"] conjI allI impI)
        show "reduce_lots m p funds lot q = Some (Inr (q - int (Suc k) * lot))"
          unfolding r e by (rule k(1))
        show "0 < q - int (Suc k) * lot \<Longrightarrow> \<exists>t. purchase_total m p (q - int (Suc k) * lot) = Inr t \<and> t \<le> funds"
          unfolding e using k(2) by blast
      next
        fix j assume "j < Suc k"
        then show "0 < q - int j * lot" "\<exists>t. purchase_total m p (q - int j * lot) = Inr t \<and> funds < t"
          using True t False k(3) by (cases j; simp add: e del: of_nat_Suc)+
      qed
    qed
  qed
qed

lemma reduce_lots_returns:
  assumes "0 < lot" "0 < p"
  obtains q' where "reduce_lots m p funds lot q = Some (Inr q')" "q' \<le> q" "lot dvd (q - q')"
    "0 < q' \<Longrightarrow> \<exists>t. purchase_total m p q' = Inr t \<and> t \<le> funds"
proof -
  obtain k where "reduce_lots m p funds lot q = Some (Inr (q - int k * lot))"
    "0 < q - int k * lot \<longrightarrow> (\<exists>t. purchase_total m p (q - int k * lot) = Inr t \<and> t \<le> funds)"
    using reduce_lots_spec[OF assms] by blast
  then show thesis using assms by (intro that[of "q - int k * lot"]) auto
qed

section \<open>Whole lots within the notional\<close>

lemma dtrunc_nonneg: "0 \<le> x \<Longrightarrow> 0 \<le> dtrunc x"
  by (simp add: dtrunc_def)

lemma dtrunc_le: "0 \<le> x \<Longrightarrow> of_int (dtrunc x) \<le> x"
  by (simp add: dtrunc_def)

lemma dec28_dtrunc:
  assumes "dec28 x" and "0 \<le> x" shows "dec28 (of_int (dtrunc x))"
proof -
  obtain c q where x: "x = of_int c * 10 powi q" and c: "\<bar>c\<bar> \<le> 10 ^ 28"
    using assms(1) by (auto simp: dec28_def)
  show ?thesis
  proof (cases "0 \<le> q")
    case True
    then have "x = of_int (c * 10 ^ nat q)" by (simp add: x power_int_def)
    then have "of_int (dtrunc x) = x" by (simp only: dtrunc_of_int)
    then show ?thesis using assms(1) by simp
  next
    case False
    have c0: "0 \<le> c"
      using assms(2) powi10_pos[of q] by (simp add: x zero_le_mult_iff not_le [symmetric])
    have "(10::rat) powi q \<le> 10 powi 0" using False by (intro power_int_increasing) auto
    then have "x \<le> of_int c" unfolding x using c0 by (intro mult_left_le) auto
    then have "dtrunc x \<le> c" using dtrunc_le[OF assms(2)] by (simp flip: of_int_le_iff)
    then show ?thesis using dtrunc_nonneg[OF assms(2)] c by (intro dec28_of_int) linarith
  qed
qed

lemma start_quantity_bound:
  assumes "start_quantity l p n = Inr q" and "0 < p" "0 \<le> n" "0 < lot_size l"
  shows "0 \<le> q" "of_int q \<le> drnd (n / p)"
proof -
  let ?sh = "drnd (n / p)" and ?lot = "of_int (lot_size l) :: rat"
  obtain k where k: "dfloordiv (of_int (dtrunc ?sh)) ?lot = Inr k" and q: "q = dtrunc (dmul k ?lot)"
    using assms(1) by (auto simp: start_quantity_def andThen_Inr_iff ddiv_Inr_iff)
  have sh: "0 \<le> ?sh" using assms(2,3) by (intro drnd_nonneg) auto
  have kd: "k = of_int (dtrunc (of_int (dtrunc ?sh) / ?lot))"
    using k assms(4) by (auto simp: dfloordiv_def Let_def split: if_splits)
  have d0: "0 \<le> of_int (dtrunc ?sh) / ?lot" using dtrunc_nonneg[OF sh] assms(4) by simp
  have k0: "0 \<le> k" unfolding kd using dtrunc_nonneg[OF d0] by simp
  have "k \<le> of_int (dtrunc ?sh) / ?lot" unfolding kd by (rule dtrunc_le[OF d0])
  then have "k * ?lot \<le> of_int (dtrunc ?sh)" using assms(4) by (simp add: pos_le_divide_eq)
  then have m: "dmul k ?lot \<le> of_int (dtrunc ?sh)"
    unfolding dmul_def by (rule d28.rnd_le_fits[OF _ dec28_dtrunc[OF dec28_drnd sh]])
  have m0: "0 \<le> dmul k ?lot" using k0 assms(4) by (intro dmul_nonneg) auto
  show "0 \<le> q" unfolding q by (rule dtrunc_nonneg[OF m0])
  show "of_int q \<le> ?sh" unfolding q using dtrunc_le[OF m0] m dtrunc_le[OF sh] by linarith
qed

lemma start_quantity_lots:
  assumes "start_quantity l p n = Inr q" and "0 < p" "0 \<le> n" "0 < lot_size l" "drnd (n / p) \<le> 10 ^ 28"
  shows "lot_size l dvd q"
proof -
  let ?sh = "drnd (n / p)" and ?lot = "of_int (lot_size l) :: rat"
  let ?k = "dtrunc (of_int (dtrunc ?sh) / ?lot)"
  have q: "q = dtrunc (dmul (of_int ?k) ?lot)"
    using assms(1,4) by (auto simp: start_quantity_def andThen_Inr_iff ddiv_Inr_iff dfloordiv_def Let_def
        split: if_splits)
  have sh: "0 \<le> ?sh" using assms(2,3) by (intro drnd_nonneg) auto
  have d0: "0 \<le> of_int (dtrunc ?sh) / ?lot" using dtrunc_nonneg[OF sh] assms(4) by simp
  have "of_int ?k \<le> of_int (dtrunc ?sh) / ?lot" by (rule dtrunc_le[OF d0])
  then have "of_int ?k * ?lot \<le> of_int (dtrunc ?sh)" using assms(4) by (simp add: pos_le_divide_eq)
  then have "of_int (?k * lot_size l) \<le> (10 ^ 28 :: rat)"
    using dtrunc_le[OF sh] assms(5) by simp
  then have "?k * lot_size l \<le> 10 ^ 28"
    by (metis of_int_le_iff of_int_numeral of_int_power)
  moreover have "0 \<le> ?k * lot_size l" using dtrunc_nonneg[OF d0] assms(4) by simp
  ultimately have "drnd (of_int (?k * lot_size l)) = of_int (?k * lot_size l)"
    by (intro drnd_of_int) simp
  then have "q = ?k * lot_size l" unfolding q dmul_def by (metis dtrunc_of_int of_int_mult)
  then show ?thesis by simp
qed

section \<open>The result of the allocation\<close>

text \<open>An allocation that buys: every check passed, and the loop ended on an affordable quantity.\<close>

lemma allocate_cases:
  assumes "allocate_quantity r = Some (Inr q)" and "0 < q"
  obtains n q0 where "parse_state (ar_drawdown_state r) = Inr NORMAL" "0 < ar_price r"
    "0 < ar_cash r" "0 < ar_equity r" "position_count r \<le> max_positions (ar_limits r)"
    "risk_notional r = Inr (Some n)" "start_quantity (ar_limits r) (ar_price r) n = Inr q0"
    "reduce_lots (ar_cost_model r) (ar_price r) (ar_cash r) (lot_size (ar_limits r)) q0 = Some (Inr q)"
  using assms unfolding allocate_quantity_def
  by (auto simp: not_le split: if_splits sum.splits option.splits)

lemma risk_notional_le:
  "risk_notional r = Inr (Some n) \<Longrightarrow> n \<le> base_notional r"
  by (auto simp: risk_notional_def andThen_Inr_iff split: option.splits if_splits)

lemma base_notional_bounds:
  "base_notional r \<le> target_position_value (ar_limits r)" "base_notional r \<le> remaining_position r"
  "base_notional r \<le> remaining_industry r" "base_notional r \<le> remaining_investment r"
  "base_notional r \<le> ar_cash r"
  by (auto simp: base_notional_def)

lemma drnd_le_rel: "0 \<le> x \<Longrightarrow> drnd x \<le> x * (1 + 1 / (2 * 10 ^ 27))"
proof -
  assume x: "0 \<le> x"
  have "drnd x - x \<le> \<bar>x\<bar> / (2 * 10 ^ 27)" using drnd_error[of x] by (rule abs_le_D1)
  then show ?thesis using x by (simp add: field_simps)
qed

lemma dtrunc_nonpos: "x \<le> 0 \<Longrightarrow> dtrunc x \<le> 0"
  by (auto simp: dtrunc_def ceiling_le_iff)

lemma start_quantity_nonpos:
  assumes "start_quantity l p n = Inr q" and "0 < p" "n \<le> 0" "0 < lot_size l"
  shows "q \<le> 0"
proof -
  let ?sh = "drnd (n / p)" and ?lot = "of_int (lot_size l) :: rat"
  let ?k = "dtrunc (of_int (dtrunc ?sh) / ?lot)"
  have q: "q = dtrunc (dmul (of_int ?k) ?lot)"
    using assms(1,4) by (auto simp: start_quantity_def andThen_Inr_iff ddiv_Inr_iff dfloordiv_def Let_def
        split: if_splits)
  have "?sh \<le> 0" using d28.rnd_nonpos[of "n / p"] assms(2,3) by (simp add: divide_nonpos_pos)
  then have "dtrunc ?sh \<le> 0" by (rule dtrunc_nonpos)
  then have "?k \<le> 0" using assms(4) by (intro dtrunc_nonpos) (simp add: divide_nonpos_pos)
  then have "of_int ?k * ?lot \<le> 0" using assms(4) by (simp add: mult_nonpos_nonneg)
  then show ?thesis unfolding q dmul_def by (intro dtrunc_nonpos d28.rnd_nonpos)
qed

lemma allocate_sized:
  assumes "0 < lot_size (ar_limits r)" and "allocate_quantity r = Some (Inr q)" and "0 < q"
  obtains n q0 where "risk_notional r = Inr (Some n)" "0 < n" "n \<le> base_notional r"
    "start_quantity (ar_limits r) (ar_price r) n = Inr q0" "q \<le> q0"
    "lot_size (ar_limits r) dvd (q0 - q)" "0 < ar_price r"
    "of_int q \<le> drnd (n / ar_price r)"
    "\<exists>t. purchase_total (ar_cost_model r) (ar_price r) q = Inr t \<and> t \<le> ar_cash r"
proof -
  from assms(2,3) show thesis
  proof (cases rule: allocate_cases)
    case (1 n q0)
    obtain k where k: "reduce_lots (ar_cost_model r) (ar_price r) (ar_cash r)
        (lot_size (ar_limits r)) q0 = Some (Inr (q0 - int k * lot_size (ar_limits r)))"
      "0 < q0 - int k * lot_size (ar_limits r) \<longrightarrow> (\<exists>t. purchase_total (ar_cost_model r) (ar_price r)
         (q0 - int k * lot_size (ar_limits r)) = Inr t \<and> t \<le> ar_cash r)"
      using reduce_lots_spec[OF assms(1) 1(2)] by blast
    then have q: "q = q0 - int k * lot_size (ar_limits r)" using 1(8) by simp
    have q': "q \<le> q0" "lot_size (ar_limits r) dvd (q0 - q)"
      "\<exists>t. purchase_total (ar_cost_model r) (ar_price r) q = Inr t \<and> t \<le> ar_cash r"
      using q k(2) assms(1,3) by auto
    have n: "0 < n"
      using start_quantity_nonpos[OF 1(7,2) _ assms(1)] q'(1) assms(3) by (cases "0 < n") auto
    show thesis
      using that[OF 1(6) n risk_notional_le[OF 1(6)] 1(7) q'(1,2) 1(2) _ q'(3)]
        start_quantity_bound(2)[OF 1(7,2) less_imp_le[OF n] assms(1)] q'(1)
      by (meson of_int_le_iff order_trans)
  qed
qed

lemma shares_within:
  assumes "of_int q \<le> drnd (n / p)" and "0 < p" "0 < n" "n \<le> b"
  shows "p * of_int q \<le> b * (1 + 1 / (2 * 10 ^ 27))"
proof -
  have "of_int q \<le> n / p * (1 + 1 / (2 * 10 ^ 27))"
    using assms(1) drnd_le_rel[of "n / p"] assms(2,3) by simp
  then have "p * of_int q \<le> p * (n / p * (1 + 1 / (2 * 10 ^ 27)))"
    using assms(2) by (intro mult_left_mono) auto
  also have "\<dots> = n * (1 + 1 / (2 * 10 ^ 27))" using assms(2) by simp
  also have "\<dots> \<le> b * (1 + 1 / (2 * 10 ^ 27))" using assms(4) by (intro mult_right_mono) auto
  finally show ?thesis .
qed

section \<open>Properties\<close>

definition sample_request :: alloc_request where
  "sample_request = \<lparr>ar_price = 10, ar_cash = 20000, ar_equity = 20000, ar_positions = [],
     ar_industry = Some ''BANK'', ar_limits = default_limits, ar_stop_distance = None,
     ar_symbol = Some ''A'', ar_cost_model = default_cost_model, ar_drawdown_state = ''NORMAL'',
     ar_financing = ''CASH'', ar_leverage = 1, ar_allow_short = False, ar_account_type = ''CASH''\<rparr>"

lemma floor_seven_halves: "\<lfloor>7 / 2 :: rat\<rfloor> = 3"
  by (rule floor_unique) auto

lemma sample_sizes:
  "base_notional sample_request = 3500" "risk_notional sample_request = Inr (Some 3500)"
  "start_quantity default_limits 10 3500 = Inr 300"
  by (simp_all add: base_notional_def sample_request_def default_limits_def remaining_position_def
      remaining_industry_def remaining_investment_def current_value_def current_position_def
      industry_value_def invested_def dsum_def dmul_def dsub_def risk_notional_def start_quantity_def
      ddiv_def dfloordiv_def dtrunc_def Let_def floor_seven_halves)

lemma sample_fields:
  "lot_size (ar_limits sample_request) = 100" "ar_cash sample_request = 20000"
  "ar_price sample_request = 10" "ar_cost_model sample_request = default_cost_model"
  by (simp_all add: sample_request_def default_limits_def)

lemma sample_allocation: "allocate_quantity sample_request = Some (Inr 300)"
proof -
  have "purchase_total default_cost_model 10 300 = Inr (3005 + 3/100)"
    by (simp add: purchase_total_def calculate_def default_cost_model_def dmul_def Let_def
        cost_total_def dadd_def)
  then have r: "reduce_lots default_cost_model 10 20000 100 300 = Some (Inr 300)"
    by (subst reduce_lots.simps) simp
  have p: "position_count sample_request = 1"
    by (simp add: position_count_def current_position_def sample_request_def)
  show ?thesis
    using r sample_sizes(2,3) p
    by (simp add: allocate_quantity_def sample_request_def parse_state_def default_limits_def)
qed





end
