(* ===== verification/EngineInputs.thy ===== *)
theory EngineInputs
  imports Runner PyValue Registry Allocation
begin

text \<open>
  The first part of the engine-v2 run of \<open>app/domain/backtest/event_loop.py\<close>: what it takes, the
  checks it makes before the first trading day, and the data it derives from the bars: the ordered
  causal bars, the trading dates, the strategy bars, the eligible symbols.
\<close>

section \<open>Rule configuration\<close>

definition default_rule_config :: row where
  "default_rule_config =
     [(''max_investment_ratio'', PText ''0.70''), (''max_positions'', PInt 4),
      (''max_position_ratio'', PText ''0.20''), (''max_industry_ratio'', PText ''0.35''),
      (''target_position_value'', PText ''3500''), (''lot_size'', PInt 100),
      (''drawdown_stop_new'', PText ''0.06''), (''drawdown_review_required'', PText ''0.08''),
      (''automatic_risk_recovery'', PBool False)]"

text \<open>
  \<open>Decimal(str(config[key]))\<close>; a rule value that is no number, or no finite number, is rejected.
  (The code lets the texts of infinities and NaN through; the model's decimals are finite.)
\<close>

definition decimal_rule :: "row \<Rightarrow> string \<Rightarrow> dec res" where
  "decimal_rule config key =
     (case map_of config key of
        None \<Rightarrow> Inl (ValueError (''rule configuration has invalid '' @ key))
      | Some v \<Rightarrow> (case decimal_of v of
          Some (Finite d) \<Rightarrow> Inr d
        | _ \<Rightarrow> Inl (ValueError (''rule configuration has invalid '' @ key))))"

definition int_rule :: "row \<Rightarrow> string \<Rightarrow> int res" where
  "int_rule config key =
     (case Option.bind (map_of config key) int_of of
        None \<Rightarrow> Inl (ValueError ''rule configuration has invalid integer limits'')
      | Some i \<Rightarrow> Inr i)"

definition per_trade_risk :: "row \<Rightarrow> dec res" where
  "per_trade_risk config =
     (case map_of config ''per_trade_risk_ratio'' of
        None \<Rightarrow> Inr (1/100)
      | Some v \<Rightarrow> (case decimal_of v of Some (Finite d) \<Rightarrow> Inr d | _ \<Rightarrow> Inl InvalidOperation))"

definition allocation_limits :: "dec \<Rightarrow> row \<Rightarrow> limits res" where
  "allocation_limits equity0 config =
     (if map_of config ''automatic_risk_recovery'' \<noteq> Some (PBool False)
      then Inl (ValueError ''engine-v2 requires automatic_risk_recovery=false'')
      else andThen (int_rule config ''max_positions'') (\<lambda>positions.
        andThen (int_rule config ''lot_size'') (\<lambda>lot.
        andThen (decimal_rule config ''max_investment_ratio'') (\<lambda>invest.
        andThen (decimal_rule config ''target_position_value'') (\<lambda>target.
        andThen (decimal_rule config ''max_position_ratio'') (\<lambda>pos_ratio.
        andThen (decimal_rule config ''max_industry_ratio'') (\<lambda>ind_ratio.
        andThen (per_trade_risk config) (\<lambda>risk.
          Inr \<lparr>lim_initial_equity = equity0, max_investment_ratio = invest, max_positions = positions,
               target_position_value = target, max_position_ratio = pos_ratio,
               max_industry_ratio = ind_ratio, per_trade_risk_ratio = risk, lot_size = lot\<rparr>))))))))"

section \<open>The request\<close>

text \<open>The arguments of \<open>run\<close>, with the cost model and limits of the runner.\<close>

record engine_request =
  er_config :: backtest_config
  er_bars :: "market_bar list"
  er_data_version :: string
  er_strategy_version :: string
  er_strategy_type :: string
  er_parameters :: parameters
  er_cutoff :: datetime
  er_implementation_version :: string
  er_trading_dates :: "date list"
  er_rule_version :: string
  er_rule_config :: "row option"
  er_secondary :: "string option"
  er_universe_enabled :: bool
  er_suspended :: "(date, string list) dict"
  er_batches :: "row list"
  er_cost_config :: "((string, config_value) dict) option"
  er_cost_hash :: "string option"
  er_cost_model :: cost_model
  er_limits :: "limits option"

definition effective_rule :: "engine_request \<Rightarrow> row" where
  "effective_rule q = (case er_rule_config q of None \<Rightarrow> default_rule_config
     | Some r \<Rightarrow> if r = [] then default_rule_config else r)"

definition effective_cost :: "engine_request \<Rightarrow> (string, config_value) dict" where
  "effective_cost q = (case er_cost_config q of None \<Rightarrow> configuration (er_cost_model q)
     | Some c \<Rightarrow> if c = [] then configuration (er_cost_model q) else c)"

text \<open>The checks of \<open>run\<close> up to the limits; \<open>hash_cost\<close> is the digest of the cost configuration.\<close>

definition check_request ::
    "((string, config_value) dict \<Rightarrow> string) \<Rightarrow> engine_request \<Rightarrow> (strategy \<times> limits) res" where
  "check_request hash_cost q =
     (if execution_mode (er_config q) \<noteq> ''NEXT_OPEN_ADJUSTED'' \<or> fill_mode (er_config q) \<noteq> ''FULL_OR_NONE''
      then Inl (ValueError ''backtest requires NEXT_OPEN_ADJUSTED and FULL_OR_NONE'')
      else andThen (get_strategy_definition (er_strategy_type q)) (\<lambda>d.
        if \<not> supports_backtest d
        then Inl (ValueError (''strategy '' @ er_strategy_type q @ '' is not approved for backtest''))
        else if implementation_version d \<noteq> er_implementation_version q
        then Inl (ValueError (''requested strategy implementation is unavailable: '' @ er_implementation_version q))
        else andThen (build d (er_parameters q)) (\<lambda>strategy.
          if (case er_cost_hash q of None \<Rightarrow> False | Some h \<Rightarrow> h \<noteq> hash_cost (effective_cost q))
          then Inl (ValueError ''cost configuration hash does not match its content'')
          else andThen (case er_limits q of Some l \<Rightarrow> Inr l
                 | None \<Rightarrow> allocation_limits (initial_equity (er_config q)) (effective_rule q))
            (\<lambda>lim. Inr (strategy, lim)))))"

section \<open>Bars, dates and symbols\<close>

definition causal_bars :: "engine_request \<Rightarrow> market_bar list" where
  "causal_bars q = sort_key bar_order (filter (\<lambda>b. mb_date b \<le> bc_end (er_config q) \<and>
     available_at_or_before (mb_available_at b) (Some (er_cutoff q))) (er_bars q))"

definition trade_dates :: "engine_request \<Rightarrow> date list" where
  "trade_dates q = sorted_set (filter (\<lambda>d. bc_start (er_config q) \<le> d \<and> d \<le> bc_end (er_config q))
     (er_trading_dates q))"

type_synonym bar_table = "(date, (string, market_bar) dict) dict"

definition bars_by_date :: "market_bar list \<Rightarrow> bar_table" where
  "bars_by_date bars =
     foldl (\<lambda>d b. dict_set (mb_date b) (dict_set (mb_symbol b) b (dict_get d (mb_date b) [])) d) [] bars"

definition bar_at :: "bar_table \<Rightarrow> date \<Rightarrow> string \<Rightarrow> market_bar option" where
  "bar_at table d s = map_of (dict_get table d []) s"

definition missing_primary :: "engine_request \<Rightarrow> bar_table \<Rightarrow> date list \<Rightarrow> date list" where
  "missing_primary q table dates = filter (\<lambda>d. case bar_at table d (benchmark (er_config q)) of
     None \<Rightarrow> True | Some b \<Rightarrow> mb_close b = None) dates"

definition to_strategy_bar :: "market_bar \<Rightarrow> dec \<Rightarrow> strategy_bar" where
  "to_strategy_bar b close =
     \<lparr>sb_symbol = mb_symbol b, sb_date = mb_date b, sb_close = close,
      sb_amount = (case mb_amount b of None \<Rightarrow> 0 | Some a \<Rightarrow> a), sb_available_at = mb_available_at b,
      sb_suspended = mb_suspended b, sb_st = mb_st b, sb_delisted = mb_delisted b,
      sb_limit_up = (close_limit_up b \<noteq> Some False), sb_industry = mb_industry b,
      sb_list_date = mb_list_date b\<rparr>"

definition strategy_bars :: "market_bar list \<Rightarrow> strategy_bar list" where
  "strategy_bars bars = List.map_filter (\<lambda>b. map_option (to_strategy_bar b) (mb_close b)) bars"

definition excluded :: "engine_request \<Rightarrow> string list" where
  "excluded q = benchmark (er_config q) #
     (case er_secondary q of None \<Rightarrow> [] | Some s \<Rightarrow> if s = [] then [] else [s])"

definition candidate_bars :: "engine_request \<Rightarrow> market_bar list \<Rightarrow> market_bar list" where
  "candidate_bars q bars = filter (\<lambda>b. mb_symbol b \<notin> set (excluded q)) bars"

definition eligible_on :: "engine_request \<Rightarrow> bar_table \<Rightarrow> date \<Rightarrow> string list" where
  "eligible_on q table d = map mb_symbol (filter (\<lambda>b. mb_symbol b \<notin> set (excluded q) \<and>
     universe_eligible b = Some True) (map snd (dict_get table d [])))"

definition candidate_symbols :: "engine_request \<Rightarrow> market_bar list \<Rightarrow> string list" where
  "candidate_symbols q bars = sorted_set (map mb_symbol
     (filter (\<lambda>b. universe_eligible b = Some True) (candidate_bars q bars)))"

text \<open>The prepared run: what the daily loop reads and never changes.\<close>

record prepared =
  pr_strategy :: strategy
  pr_limits :: limits
  pr_dates :: "date list"
  pr_table :: bar_table
  pr_strategy_bars :: "strategy_bar list"
  pr_market_bars :: "strategy_bar list"
  pr_symbols :: "string list"

definition prepare ::
    "((string, config_value) dict \<Rightarrow> string) \<Rightarrow> engine_request \<Rightarrow> prepared res" where
  "prepare hash_cost q =
     andThen (check_request hash_cost q) (\<lambda>(strategy, lim).
       let bars = causal_bars q; dates = trade_dates q; table = bars_by_date bars;
           sbars = strategy_bars bars in
       if dates = []
       then Inl (BenchmarkUnavailable ''authoritative trading calendar has no open dates'')
       else (case missing_primary q table dates of
         d # _ \<Rightarrow> Inl (BenchmarkUnavailable (''BENCHMARK_PRIMARY is missing price on '' @ isoformat d))
       | [] \<Rightarrow>
         (case List.find (\<lambda>b. universe_eligible b = None) (candidate_bars q bars) of
            Some b \<Rightarrow> Inl (BenchmarkUnavailable (''historical universe eligibility is unavailable for '' @
              mb_symbol b @ '' on '' @ isoformat (mb_date b)))
          | None \<Rightarrow> Inr \<lparr>pr_strategy = strategy, pr_limits = lim, pr_dates = dates, pr_table = table,
              pr_strategy_bars = sbars,
              pr_market_bars = filter (\<lambda>b. sb_symbol b = benchmark (er_config q)) sbars,
              pr_symbols = candidate_symbols q bars\<rparr>)))"

end
