(* ===== verification/EventLoop.thy ===== *)
theory EventLoop
  imports EngineInputs
begin

text \<open>
  The daily loop of the engine-v2 run, \<open>StatefulBacktestRunner.run\<close> in
  \<open>app/domain/backtest/event_loop.py\<close>: execute the orders planned on the previous day, mark the
  ledger to market, observe the drawdown, compute features from the bars visible by then, plan the
  exits and entries of the next day. One definition per phase, in the order of the code.
\<close>

record entry_state =
  es_price :: dec
  es_date :: date
  es_index :: int
  es_industry :: "string option"

record engine_state =
  ledger :: ledger
  drawdown :: monitor
  pending :: "(date, order list) dict"
  held_entries :: "(string, entry_state) dict"
  last_closes :: "(string, dec) dict"
  ledger_snapshots :: "ledger_snapshot list"
  fills :: "fill list"
  skipped :: "skipped_order list"
  closed_streak :: int

section \<open>Executing the orders of the day\<close>

text \<open>\<open>sorted(..., key=(0 if SELL else 1, symbol))\<close>\<close>

definition execution_order :: "order \<Rightarrow> int \<times> string" where
  "execution_order o1 = (if upper (o_side o1) = ''SELL'' then 0 else 1, o_symbol o1)"

definition no_cash :: "order \<Rightarrow> fill \<Rightarrow> fill" where
  "no_cash o1 f = f\<lparr>f_status := ''UNFILLED'', f_quantity := 0, f_price := None, f_costs := None,
     f_reason := Some ''INSUFFICIENT_CASH'', f_unfilled := o_quantity o1\<rparr>"

definition note_entry :: "date \<Rightarrow> int \<Rightarrow> fill \<Rightarrow> dec \<Rightarrow> ledger \<Rightarrow> (string, entry_state) dict \<Rightarrow>
    (string, entry_state) dict" where
  "note_entry trade_date index f price l es =
     (if f_side f = ''BUY''
      then dict_set (f_symbol f) \<lparr>es_price = price, es_date = trade_date, es_index = index,
             es_industry = f_industry f\<rparr> es
      else if lp_quantity (position l (f_symbol f)) = 0 then dict_pop (f_symbol f) es else es)"

text \<open>Booking one simulated fill: bought beyond the cash it is turned into an unfilled order.\<close>

definition settle_fill :: "date \<Rightarrow> int \<Rightarrow> order \<Rightarrow> fill \<Rightarrow> engine_state \<Rightarrow> engine_state res" where
  "settle_fill trade_date index o1 f st =
     (case (f_price f, f_costs f) of
        (Some price, Some costs) \<Rightarrow>
          if f_status f \<in> {''FILLED'', ''PARTIALLY_FILLED''}
          then if f_side f = ''BUY'' \<and>
                  dadd (dmul price (of_int (f_quantity f))) (cost_total costs) > cash (ledger st)
               then Inr (st\<lparr>fills := fills st @ [no_cash o1 f]\<rparr>)
               else andThen (apply_fill (ledger st) (f_side f) (f_symbol f) (f_quantity f) price (cost_total costs))
                 (\<lambda>l. Inr (st\<lparr>ledger := l,
                    held_entries := note_entry trade_date index f price l (held_entries st),
                    fills := fills st @ [f]\<rparr>))
          else Inr (st\<lparr>fills := fills st @ [f]\<rparr>)
      | _ \<Rightarrow> Inr (st\<lparr>fills := fills st @ [f]\<rparr>))"

definition execute_order ::
    "engine_request \<Rightarrow> date \<Rightarrow> int \<Rightarrow> (string, market_bar) dict \<Rightarrow> engine_state \<Rightarrow> order \<Rightarrow> engine_state res"
where
  "execute_order q trade_date index day_bars st o1 =
     (case map_of day_bars (o_symbol o1) of
        None \<Rightarrow> Inr (st\<lparr>skipped := skipped st @ [\<lparr>sk_date = trade_date, sk_symbol = o_symbol o1,
          sk_reason = ''MISSING_EXECUTION_BAR''\<rparr>]\<rparr>)
      | Some bar \<Rightarrow>
          andThen (execute (er_cost_model q) (o1\<lparr>o_fill_mode := fill_mode (er_config q)\<rparr>) bar) (\<lambda>simulated.
            settle_fill trade_date index o1 (simulated\<lparr>f_execution_date := Some trade_date,
              f_signal_date := o_signal_date o1, f_industry := o_industry o1, f_reasons := o_reasons o1\<rparr>) st))"

definition execute_orders ::
    "engine_request \<Rightarrow> prepared \<Rightarrow> date \<Rightarrow> int \<Rightarrow> engine_state \<Rightarrow> engine_state res" where
  "execute_orders q pr trade_date index st =
     (let orders = sort_key execution_order (dict_get (pending st) trade_date []) in
      fold_res (execute_order q trade_date index (dict_get (pr_table pr) trade_date []))
        (st\<lparr>ledger := settle_all (ledger st), pending := dict_pop trade_date (pending st)\<rparr>) orders)"

section \<open>Marking to market\<close>

definition mark_closes :: "(string, market_bar) dict \<Rightarrow> (string, dec) dict \<Rightarrow> (string, dec) dict" where
  "mark_closes day_bars closes =
     foldl (\<lambda>d (s, b). case mb_close b of None \<Rightarrow> d | Some x \<Rightarrow> dict_set s x d) closes day_bars"

definition mark_to_market ::
    "prepared \<Rightarrow> date \<Rightarrow> engine_state \<Rightarrow> (ledger_snapshot \<times> engine_state) res" where
  "mark_to_market pr trade_date st =
     (let closes = mark_closes (dict_get (pr_table pr) trade_date []) (last_closes st) in
      andThen (snapshot closes (ledger st)) (\<lambda>(snap, l).
      andThen (observe (equity snap) (drawdown st)) (\<lambda>m.
        Inr (snap, st\<lparr>last_closes := closes, ledger := l,
          ledger_snapshots := ledger_snapshots st @ [snap], drawdown := m\<rparr>))))"

section \<open>Features and ranking\<close>

datatype feature = StrongFeature feature_snapshot | MAFeature ma_feature

definition feature_symbol :: "feature \<Rightarrow> string" where
  "feature_symbol f = (case f of StrongFeature g \<Rightarrow> fs_symbol g | MAFeature g \<Rightarrow> mf_symbol g)"

definition feature_close :: "feature \<Rightarrow> dec option" where
  "feature_close f = (case f of StrongFeature g \<Rightarrow> fs_close g | MAFeature g \<Rightarrow> mf_close g)"

definition strong_features :: "feature list \<Rightarrow> feature_snapshot list" where
  "strong_features fs = List.map_filter (\<lambda>f. case f of StrongFeature g \<Rightarrow> Some g | _ \<Rightarrow> None) fs"

definition ma_features :: "feature list \<Rightarrow> ma_feature list" where
  "ma_features fs = List.map_filter (\<lambda>f. case f of MAFeature g \<Rightarrow> Some g | _ \<Rightarrow> None) fs"

definition day_features :: "engine_request \<Rightarrow> prepared \<Rightarrow> date \<Rightarrow> (feature list) res" where
  "day_features q pr trade_date =
     (if er_strategy_type q = ''STRONG_TREND''
      then map_res (\<lambda>s. andThen (build_feature_snapshot (pr_strategy_bars pr) (pr_market_bars pr) s
             trade_date (Some (er_cutoff q))) (\<lambda>g. Inr (StrongFeature g))) (pr_symbols pr)
      else (case pr_strategy pr of
        MAStrategy cfg \<Rightarrow> Inr (map (\<lambda>s. MAFeature (build_ma_feature (pr_strategy_bars pr) (pr_market_bars pr) s
          trade_date (short_window cfg) (long_window cfg) (Some (er_cutoff q)))) (pr_symbols pr))
      | StrongStrategy _ \<Rightarrow> Inl AssertionError))"

definition eligible_features :: "engine_request \<Rightarrow> prepared \<Rightarrow> date \<Rightarrow> feature list \<Rightarrow> feature list" where
  "eligible_features q pr trade_date fs =
     filter (\<lambda>f. feature_symbol f \<in> set (eligible_on q (pr_table pr) trade_date)) fs"

definition rank_features :: "strategy \<Rightarrow> datetime \<Rightarrow> feature list \<Rightarrow> (entry_signal list) res" where
  "rank_features strategy cutoff fs = (case strategy of
     StrongStrategy cfg \<Rightarrow> strong_rank_candidates cfg (Some cutoff) (strong_features fs)
   | MAStrategy cfg \<Rightarrow> ma_rank_candidates cfg (Some cutoff) (ma_features fs))"

definition select_features :: "strategy \<Rightarrow> datetime \<Rightarrow> feature list \<Rightarrow> (entry_signal list) res" where
  "select_features strategy cutoff fs = (case strategy of
     StrongStrategy cfg \<Rightarrow> strong_select_candidates cfg (Some cutoff) (strong_features fs)
   | MAStrategy cfg \<Rightarrow> ma_select_candidates cfg (Some cutoff) (ma_features fs))"

text \<open>The streak of days on which the market closed at or below its average.\<close>

definition update_streak :: "string \<Rightarrow> feature list \<Rightarrow> int \<Rightarrow> int" where
  "update_streak strategy_type fs streak =
     (if strategy_type \<noteq> ''STRONG_TREND'' then streak
      else (case fs of
        StrongFeature g # _ \<Rightarrow>
          (case market_close g of
             None \<Rightarrow> streak
           | Some c \<Rightarrow> (case market_ma20 g of
               Some a \<Rightarrow> if c > a then 0 else streak + 1
             | None \<Rightarrow> streak + 1))
      | _ \<Rightarrow> streak))"

section \<open>Planning the exits\<close>

definition exit_of ::
    "strategy \<Rightarrow> feature \<Rightarrow> entry_state \<Rightarrow> int \<Rightarrow> entry_signal list \<Rightarrow> string list \<Rightarrow> int \<Rightarrow> date \<Rightarrow>
     (exit_signal option) res"
where
  "exit_of strategy feature entry held_days ranked eligible_today streak next_date =
     (let ranks = dict_of en_symbol en_rank ranked; s = feature_symbol feature in
      case (strategy, feature) of
        (StrongStrategy cfg, StrongFeature g) \<Rightarrow>
          Inr (strong_exit_signal cfg g (es_price entry) held_days
            (dict_get ranks s (int (length ranked) + 1)) (int (length ranked)) streak next_date
            (s \<in> set eligible_today \<and> map_of ranks s \<noteq> None))
      | (MAStrategy cfg, MAFeature g) \<Rightarrow> Inr (ma_exit_signal cfg g held_days next_date)
      | _ \<Rightarrow> Inl AssertionError)"

definition plan_order :: "date \<Rightarrow> order \<Rightarrow> (date, order list) dict \<Rightarrow> (date, order list) dict" where
  "plan_order d o1 p = dict_append d o1 p"

definition sell_order :: "ledger_position \<Rightarrow> date \<Rightarrow> entry_state \<Rightarrow> exit_signal \<Rightarrow> order" where
  "sell_order p trade_date entry e =
     \<lparr>o_side = ''SELL'', o_symbol = lp_symbol p, o_quantity = lp_quantity p,
      o_fill_mode = ''FULL_OR_NONE'', o_signal_date = Some trade_date, o_industry = es_industry entry,
      o_reasons = (if ex_reasons e = [] then [ex_reason e] else ex_reasons e)\<rparr>"

text \<open>One held position: the symbols exiting and the planned orders so far.\<close>

definition exit_step ::
    "prepared \<Rightarrow> date \<Rightarrow> date \<Rightarrow> int \<Rightarrow> feature list \<Rightarrow> entry_signal list \<Rightarrow> string list \<Rightarrow> int \<Rightarrow>
     (string, entry_state) dict \<Rightarrow> string list \<times> (date, order list) dict \<Rightarrow> ledger_position \<Rightarrow>
     (string list \<times> (date, order list) dict) res"
where
  "exit_step pr trade_date next_date index fs ranked eligible_today streak es = (\<lambda>(exiting, p) pos.
     (case (List.find (\<lambda>f. feature_symbol f = lp_symbol pos) fs, map_of es (lp_symbol pos)) of
        (Some f, Some entry) \<Rightarrow>
          andThen (exit_of (pr_strategy pr) f entry (index - es_index entry + 1) ranked eligible_today
              streak next_date) (\<lambda>e.
            Inr (case e of
              None \<Rightarrow> (exiting, p)
            | Some sig \<Rightarrow> (exiting @ [lp_symbol pos], plan_order next_date (sell_order pos trade_date entry sig) p)))
      | _ \<Rightarrow> Inr (exiting, p)))"

section \<open>Planning the entries\<close>

definition engine_positions ::
    "ledger \<Rightarrow> (string, dec) dict \<Rightarrow> (string, entry_state) dict \<Rightarrow> (alloc_position list) res" where
  "engine_positions l prices es =
     map_res (\<lambda>p. andThen (ddiv (cost_basis p) (of_int (lp_quantity p))) (\<lambda>at_cost.
       Inr \<lparr>ap_symbol = lp_symbol p, ap_quantity = lp_quantity p,
            ap_value = dmul (dict_get prices (lp_symbol p) at_cost) (of_int (lp_quantity p)),
            ap_industry = Option.bind (map_of es (lp_symbol p)) es_industry\<rparr>))
     (map snd (positions l))"

definition count_industries :: "string list \<Rightarrow> alloc_position list \<Rightarrow> (string, int) dict" where
  "count_industries exiting projected =
     foldl (\<lambda>d p. case ap_industry p of
        None \<Rightarrow> d
      | Some i \<Rightarrow> if ap_quantity p > 0 \<and> ap_symbol p \<notin> set exiting
          then dict_set i (dict_get d i 0 + 1) d else d) [] projected"

definition strategy_industry_cap :: "strategy \<Rightarrow> int" where
  "strategy_industry_cap s = (case s of
     StrongStrategy cfg \<Rightarrow> st_max_per_industry cfg | MAStrategy cfg \<Rightarrow> ma_max_per_industry cfg)"

record planning =
  virtual_cash :: dec
  projected :: "alloc_position list"
  held_symbols :: "string list"
  industry_counts :: "(string, int) dict"
  planned :: "(date, order list) dict"

definition entry_request ::
    "engine_request \<Rightarrow> prepared \<Rightarrow> dec \<Rightarrow> drawdown_state \<Rightarrow> planning \<Rightarrow> entry_signal \<Rightarrow> dec \<Rightarrow> alloc_request"
where
  "entry_request q pr eq risk pl sig reference =
     \<lparr>ar_price = reference, ar_cash = virtual_cash pl, ar_equity = eq, ar_positions = projected pl,
      ar_industry = en_industry sig, ar_limits = pr_limits pr, ar_stop_distance = None,
      ar_symbol = Some (en_symbol sig), ar_cost_model = er_cost_model q,
      ar_drawdown_state = state_value risk, ar_financing = ''CASH'', ar_leverage = 1,
      ar_allow_short = False, ar_account_type = ''CASH''\<rparr>"

definition buy_order :: "entry_signal \<Rightarrow> date \<Rightarrow> int \<Rightarrow> order" where
  "buy_order sig trade_date quantity =
     \<lparr>o_side = ''BUY'', o_symbol = en_symbol sig, o_quantity = quantity, o_fill_mode = ''FULL_OR_NONE'',
      o_signal_date = Some trade_date, o_industry = en_industry sig, o_reasons = [''ENTRY_SIGNAL'']\<rparr>"

text \<open>The plan after buying \<open>quantity\<close> at \<open>reference\<close> with the estimated costs.\<close>

definition add_entry ::
    "date \<Rightarrow> date \<Rightarrow> planning \<Rightarrow> entry_signal \<Rightarrow> dec \<Rightarrow> int \<Rightarrow> cost_breakdown \<Rightarrow> planning" where
  "add_entry trade_date next_date pl sig reference quantity costs =
     pl\<lparr>virtual_cash := dsub (virtual_cash pl) (dadd (dmul reference (of_int quantity)) (cost_total costs)),
        projected := projected pl @ [\<lparr>ap_symbol = en_symbol sig, ap_quantity = quantity,
          ap_value = dmul reference (of_int quantity), ap_industry = en_industry sig\<rparr>],
        held_symbols := held_symbols pl @ [en_symbol sig],
        industry_counts := (case en_industry sig of None \<Rightarrow> industry_counts pl
          | Some i \<Rightarrow> dict_set i (dict_get (industry_counts pl) i 0 + 1) (industry_counts pl)),
        planned := plan_order next_date (buy_order sig trade_date quantity) (planned pl)\<rparr>"

definition entry_step ::
    "engine_request \<Rightarrow> prepared \<Rightarrow> date \<Rightarrow> date \<Rightarrow> dec \<Rightarrow> drawdown_state \<Rightarrow> feature list \<Rightarrow> string list \<Rightarrow>
     planning \<Rightarrow> entry_signal \<Rightarrow> planning res"
where
  "entry_step q pr trade_date next_date eq risk fs exiting pl sig =
     (if en_symbol sig \<in> set (held_symbols pl) \<or> en_symbol sig \<in> set exiting then Inr pl
      else if (case en_industry sig of None \<Rightarrow> False
               | Some i \<Rightarrow> dict_get (industry_counts pl) i 0 \<ge> strategy_industry_cap (pr_strategy pr))
      then Inr pl
      else (case List.find (\<lambda>f. feature_symbol f = en_symbol sig) fs of
        None \<Rightarrow> Inl StopIteration
      | Some f \<Rightarrow>
        (case feature_close f of
           None \<Rightarrow> Inr pl
         | Some reference \<Rightarrow>
           if reference \<le> 0 then Inr pl
           else andThen (returning (allocate_quantity (entry_request q pr eq risk pl sig reference))) (\<lambda>quantity.
             if quantity \<le> 0 then Inr pl
             else andThen (calculate (er_cost_model q) ''BUY'' quantity reference) (\<lambda>costs.
               Inr (add_entry trade_date next_date pl sig reference quantity costs))))))"

definition plan_next_day ::
    "engine_request \<Rightarrow> prepared \<Rightarrow> date \<Rightarrow> date \<Rightarrow> int \<Rightarrow> ledger_snapshot \<Rightarrow> engine_state \<Rightarrow> engine_state res"
where
  "plan_next_day q pr trade_date next_date index snap st =
     andThen (day_features q pr trade_date) (\<lambda>fs.
       let eligible_today = eligible_on q (pr_table pr) trade_date;
           efs = eligible_features q pr trade_date fs;
           streak = update_streak (er_strategy_type q) fs (closed_streak st) in
       andThen (rank_features (pr_strategy pr) (er_cutoff q) efs) (\<lambda>ranked.
       andThen (fold_res (exit_step pr trade_date next_date index fs ranked eligible_today streak (held_entries st))
           ([], pending st) (map snd (positions (ledger st)))) (\<lambda>(exiting, p).
       andThen (select_features (pr_strategy pr) (er_cutoff q) efs) (\<lambda>selected.
       andThen (engine_positions (ledger st) (last_closes st) (held_entries st)) (\<lambda>proj.
       andThen (fold_res (entry_step q pr trade_date next_date (equity snap) (dm_state (drawdown st)) fs exiting)
           \<lparr>virtual_cash = cash (ledger st), projected = proj, held_symbols = map ap_symbol proj,
            industry_counts = count_industries exiting proj, planned = p\<rparr> selected) (\<lambda>pl.
         Inr (st\<lparr>closed_streak := streak, pending := planned pl\<rparr>)))))))"

section \<open>The loop\<close>

definition trading_day ::
    "engine_request \<Rightarrow> prepared \<Rightarrow> engine_state \<Rightarrow> nat \<Rightarrow> engine_state res" where
  "trading_day q pr st i =
     (let trade_date = pr_dates pr ! i in
      andThen (execute_orders q pr trade_date (int i) st) (\<lambda>st1.
      andThen (mark_to_market pr trade_date st1) (\<lambda>(snap, st2).
        if i = length (pr_dates pr) - 1 then Inr st2
        else plan_next_day q pr trade_date (pr_dates pr ! (i + 1)) (int i) snap st2)))"

definition start_state :: "engine_request \<Rightarrow> engine_state res" where
  "start_state q =
     andThen (new_ledger (initial_equity (er_config q))) (\<lambda>l.
     andThen (decimal_rule (effective_rule q) ''drawdown_stop_new'') (\<lambda>warn.
     andThen (decimal_rule (effective_rule q) ''drawdown_review_required'') (\<lambda>stop.
     andThen (new_monitor (initial_equity (er_config q)) warn stop) (\<lambda>m.
       Inr \<lparr>ledger = l, drawdown = m, pending = [], held_entries = [], last_closes = [],
           ledger_snapshots = [], fills = [], skipped = [], closed_streak = 0\<rparr>))))"

definition trading_loop :: "engine_request \<Rightarrow> prepared \<Rightarrow> engine_state res" where
  "trading_loop q pr = andThen (start_state q) (\<lambda>st0.
     fold_res (trading_day q pr) st0 [0..<length (pr_dates pr)])"

section \<open>Invariants of the loop\<close>

definition orders_causal :: "(date, order list) dict \<Rightarrow> bool" where
  "orders_causal p \<longleftrightarrow>
     (\<forall>(d, os)\<in>set p. \<forall>o1\<in>set os. \<exists>s. o_signal_date o1 = Some s \<and> s < d)"

definition engine_fill_ok :: "date list \<Rightarrow> fill \<Rightarrow> bool" where
  "engine_fill_ok dates f \<longleftrightarrow> (\<exists>s d. f_signal_date f = Some s \<and> f_execution_date f = Some d \<and> s < d \<and>
     d \<in> set dates)"

definition good_snapshot :: "ledger_snapshot \<Rightarrow> bool" where
  "good_snapshot s \<longleftrightarrow> 0 \<le> ls_cash s \<and> 0 \<le> equity s \<and> equity s \<le> ls_high_water_mark s \<and>
     0 \<le> ls_drawdown s \<and> ls_drawdown s \<le> 1"

definition closes_ok :: "(string, dec) dict \<Rightarrow> bool" where
  "closes_ok closes \<longleftrightarrow> (\<forall>(s, x)\<in>set closes. 0 \<le> x)"

definition table_ok :: "bar_table \<Rightarrow> bool" where
  "table_ok table \<longleftrightarrow> (\<forall>(d, t)\<in>set table. \<forall>(s, b)\<in>set t. \<forall>x. mb_close b = Some x \<longrightarrow> 0 \<le> x)"

definition engine_ok :: "date list \<Rightarrow> engine_state \<Rightarrow> bool" where
  "engine_ok dates st \<longleftrightarrow> ledger_ok (ledger st) \<and> monitor_ok (drawdown st) \<and>
     (\<forall>f\<in>set (fills st). engine_fill_ok dates f) \<and> orders_causal (pending st) \<and>
     closes_ok (last_closes st) \<and> (\<forall>s\<in>set (ledger_snapshots st). good_snapshot s)"

lemma settle_fill_cases:
  assumes "settle_fill d i o1 f st = Inr st'"
  obtains (no_cash) "st' = st\<lparr>fills := fills st @ [no_cash o1 f]\<rparr>"
  | (booked) l es price costs where "apply_fill (ledger st) (f_side f) (f_symbol f) (f_quantity f) price (cost_total costs) = Inr l"
      "st' = st\<lparr>ledger := l, held_entries := es, fills := fills st @ [f]\<rparr>"
  | (kept) "st' = st\<lparr>fills := fills st @ [f]\<rparr>"
  using assms unfolding settle_fill_def
  by (auto simp: andThen_Inr_iff split: option.splits if_splits)

lemma execute_order_ok:
  assumes "engine_ok dates st" and "execute_order q d i day_bars st o1 = Inr st'"
    and "d \<in> set dates" and "o_signal_date o1 = Some s" "s < d"
  shows "engine_ok dates st'"
proof (cases "map_of day_bars (o_symbol o1)")
  case None
  then show ?thesis using assms(1,2) by (auto simp: execute_order_def engine_ok_def)
next
  case (Some bar)
  then obtain simulated where sf: "settle_fill d i o1 (simulated\<lparr>f_execution_date := Some d,
      f_signal_date := o_signal_date o1, f_industry := o_industry o1, f_reasons := o_reasons o1\<rparr>) st = Inr st'"
    using assms(2) by (auto simp: execute_order_def andThen_Inr_iff)
  let ?f = "simulated\<lparr>f_execution_date := Some d, f_signal_date := o_signal_date o1,
      f_industry := o_industry o1, f_reasons := o_reasons o1\<rparr>"
  have "engine_fill_ok dates ?f" "engine_fill_ok dates (no_cash o1 ?f)"
    using assms(3-5) by (auto simp: engine_fill_ok_def no_cash_def)
  with sf assms(1) show ?thesis
    by (cases rule: settle_fill_cases) (auto simp: engine_ok_def intro: apply_fill_ok)
qed

lemma orders_causal_pop: "orders_causal p \<Longrightarrow> orders_causal (dict_pop d p)"
  by (auto simp: orders_causal_def dest!: dict_pop_in)

lemma orders_causal_get:
  assumes "orders_causal p" and "o1 \<in> set (dict_get p d [])"
  shows "\<exists>s. o_signal_date o1 = Some s \<and> s < d"
  using assms dict_get_in[of p d "[]"] by (force simp: orders_causal_def)

lemma orders_causal_plan:
  assumes "orders_causal p" and "o_signal_date o1 = Some s" "s < d"
  shows "orders_causal (plan_order d o1 p)"
  using assms dict_get_in[of p d "[]"]
  by (fastforce simp: orders_causal_def plan_order_def dest!: dict_append_in)

lemma execute_orders_ok:
  assumes "engine_ok dates st" and "execute_orders q pr d i st = Inr st'" and "d \<in> set dates"
  shows "engine_ok dates st'"
proof -
  let ?os = "sort_key execution_order (dict_get (pending st) d [])"
  from assms(2) have run: "fold_res (execute_order q d i (dict_get (pr_table pr) d []))
      (st\<lparr>ledger := settle_all (ledger st), pending := dict_pop d (pending st)\<rparr>) ?os = Inr st'"
    by (simp add: execute_orders_def Let_def)
  show ?thesis
  proof (rule fold_res_invariant[OF run])
    show "engine_ok dates (st\<lparr>ledger := settle_all (ledger st), pending := dict_pop d (pending st)\<rparr>)"
      using assms(1) settle_all_ok orders_causal_pop by (simp add: engine_ok_def)
  next
    fix s o1 s' assume "engine_ok dates s" and o1: "o1 \<in> set ?os"
      and "execute_order q d i (dict_get (pr_table pr) d []) s o1 = Inr s'"
    moreover have "\<exists>s. o_signal_date o1 = Some s \<and> s < d"
      using orders_causal_get[of "pending st" o1 d] assms(1) o1 by (simp add: engine_ok_def)
    ultimately show "engine_ok dates s'" using execute_order_ok assms(3) by blast
  qed
qed

lemma mark_closes_ok:
  assumes "closes_ok closes" and "\<forall>(s, b)\<in>set t. \<forall>x. mb_close b = Some x \<longrightarrow> 0 \<le> x"
  shows "closes_ok (mark_closes t closes)"
  using assms unfolding mark_closes_def
proof (induction t arbitrary: closes)
  case (Cons p t)
  obtain s b where p: "p = (s, b)" by (cases p)
  have "closes_ok (case mb_close b of None \<Rightarrow> closes | Some x \<Rightarrow> dict_set s x closes)"
    using Cons.prems by (auto simp: closes_ok_def p split: option.splits dest!: dict_set_in)
  from Cons.IH[OF this] Cons.prems(2) show ?case by (simp add: p)
qed simp

lemma mark_to_market_ok:
  assumes "engine_ok dates st" and "mark_to_market pr d st = Inr (snap, st')" and "table_ok (pr_table pr)"
  shows "engine_ok dates st' \<and> ledger_snapshots st' = ledger_snapshots st @ [snap] \<and>
    ls_cash snap = cash (ledger st)"
proof -
  let ?closes = "mark_closes (dict_get (pr_table pr) d []) (last_closes st)"
  obtain l m where s: "snapshot ?closes (ledger st) = Inr (snap, l)" "observe (equity snap) (drawdown st) = Inr m"
    "st' = st\<lparr>last_closes := ?closes, ledger := l, ledger_snapshots := ledger_snapshots st @ [snap], drawdown := m\<rparr>"
    using assms(2) by (auto simp: mark_to_market_def Let_def andThen_Inr_iff split: prod.splits)
  have lok: "ledger_ok (ledger st)" using assms(1) by (simp add: engine_ok_def)
  have "\<forall>(s, b)\<in>set (dict_get (pr_table pr) d []). \<forall>x. mb_close b = Some x \<longrightarrow> 0 \<le> x"
    using assms(3) dict_get_in[of "pr_table pr" d "[]"] by (force simp: table_ok_def)
  then have c: "closes_ok ?closes" using mark_closes_ok assms(1) by (simp add: engine_ok_def)
  note b = snapshot_bounds[OF s(1) lok c[unfolded closes_ok_def]] snapshot_InrD(3)[OF s(1)]
  have "0 \<le> cash (ledger st)" using lok by (simp add: ledger_ok_def)
  then have "good_snapshot snap" using b by (simp add: good_snapshot_def)
  then show ?thesis
    using assms(1) s(3) snapshot_keeps_ok[OF s(1) lok] observe_keeps_ok[OF s(2)] c b(6)
    by (simp add: engine_ok_def)
qed

section \<open>Planning keeps the invariant\<close>

lemma exit_step_cases:
  assumes "exit_step pr d n i fs ranked el streak es (ex, p) pos = Inr (ex', p')"
  shows "(ex' = ex \<and> p' = p) \<or> (\<exists>entry sig. ex' = ex @ [lp_symbol pos] \<and>
    p' = plan_order n (sell_order pos d entry sig) p)"
  using assms
  by (auto simp: exit_step_def andThen_Inr_iff split: option.splits)

lemma exits_causal:
  assumes "fold_res (exit_step pr d n i fs ranked el streak es) (ex, p) ps = Inr (ex', p')"
    and "orders_causal p" and "d < n"
  shows "orders_causal p'"
proof -
  have "orders_causal (snd (ex', p'))"
  proof (rule fold_res_invariant[OF assms(1), where I = "\<lambda>x. orders_causal (snd x)"])
    fix s pos s' assume "orders_causal (snd s)" "exit_step pr d n i fs ranked el streak es s pos = Inr s'"
    then show "orders_causal (snd s')"
      using exit_step_cases[of pr d n i fs ranked el streak es "fst s" "snd s" pos "fst s'" "snd s'"]
        orders_causal_plan[OF _ _ assms(3)] by (auto simp: sell_order_def)
  qed (use assms(2) in simp)
  then show ?thesis by simp
qed

lemma entry_step_cases:
  assumes "entry_step q pr d n eq risk fs ex pl sig = Inr pl'"
  obtains (unchanged) "pl' = pl"
  | (added) f reference quantity costs where "en_symbol sig \<notin> set (held_symbols pl)" "en_symbol sig \<notin> set ex"
      "\<forall>j. en_industry sig = Some j \<longrightarrow> dict_get (industry_counts pl) j 0 < strategy_industry_cap (pr_strategy pr)"
      "List.find (\<lambda>f. feature_symbol f = en_symbol sig) fs = Some f" "feature_close f = Some reference"
      "0 < reference" "0 < quantity"
      "allocate_quantity (entry_request q pr eq risk pl sig reference) = Some (Inr quantity)"
      "calculate (er_cost_model q) ''BUY'' quantity reference = Inr costs"
      "pl' = add_entry d n pl sig reference quantity costs"
proof (cases "pl' = pl")
  case False
  let ?full = "case en_industry sig of None \<Rightarrow> False
    | Some j \<Rightarrow> dict_get (industry_counts pl) j 0 \<ge> strategy_industry_cap (pr_strategy pr)"
  from False assms have g: "\<not> (en_symbol sig \<in> set (held_symbols pl) \<or> en_symbol sig \<in> set ex)" "\<not> ?full"
    unfolding entry_step_def by (auto split: if_splits)
  then have n: "\<forall>j. en_industry sig = Some j \<longrightarrow>
      dict_get (industry_counts pl) j 0 < strategy_industry_cap (pr_strategy pr)"
    by (auto split: option.splits)
  note step = assms[unfolded entry_step_def if_not_P[OF g(1)] if_not_P[OF g(2)]]
  obtain f where f: "List.find (\<lambda>f. feature_symbol f = en_symbol sig) fs = Some f"
    using step by (cases "List.find (\<lambda>f. feature_symbol f = en_symbol sig) fs") auto
  obtain reference where r: "feature_close f = Some reference"
    using step f False by (cases "feature_close f") auto
  have pos: "0 < reference" using step f r False by (auto simp: not_le split: if_splits)
  obtain quantity where al:
    "allocate_quantity (entry_request q pr eq risk pl sig reference) = Some (Inr quantity)"
    "(if quantity \<le> 0 then Inr pl else andThen (calculate (er_cost_model q) ''BUY'' quantity reference)
       (\<lambda>costs. Inr (add_entry d n pl sig reference quantity costs))) = Inr pl'"
    using step f r pos by (auto simp: andThen_Inr_iff returning_Inr_iff)
  have qp: "0 < quantity" using al(2) False by (auto simp: not_le split: if_splits)
  obtain costs where "calculate (er_cost_model q) ''BUY'' quantity reference = Inr costs"
    "pl' = add_entry d n pl sig reference quantity costs"
    using al(2) qp by (auto simp: andThen_Inr_iff)
  with added[OF _ _ n f r pos qp al(1)] g(1) show thesis by blast
qed (use unchanged in blast)

text \<open>A state other than NORMAL, and cash that is used up, allocate nothing.\<close>

lemma allocate_needs_normal:
  "allocate_quantity r = Some (Inr q) \<Longrightarrow> 0 < q \<Longrightarrow> ar_drawdown_state r = ''NORMAL'' \<and> 0 < ar_cash r"
  by (auto simp: allocate_quantity_def parse_state_def split: if_splits)

lemma state_value_NORMAL: "state_value s = ''NORMAL'' \<Longrightarrow> s = NORMAL"
  by (cases s) (simp_all add: state_value_def)

lemma entry_step_cash:
  assumes "entry_step q pr d n eq risk fs ex pl sig = Inr pl'"
    and "0 \<le> virtual_cash pl" "dec28 (virtual_cash pl)"
    and "0 < lot_size (pr_limits pr)" and "rates_ok (er_cost_model q)"
  shows "0 \<le> virtual_cash pl' \<and> virtual_cash pl' \<le> virtual_cash pl \<and> dec28 (virtual_cash pl')"
  using assms(1)
proof (cases rule: entry_step_cases)
  case (added f reference quantity costs)
  let ?cost = "dadd (dmul reference (of_int quantity)) (cost_total costs)"
  obtain t where "purchase_total (er_cost_model q) reference quantity = Inr t" "t \<le> virtual_cash pl"
    using added(7,8) assms(4) by (elim allocate_sized[rotated]) (auto simp: entry_request_def)
  then have le: "?cost \<le> virtual_cash pl" using added(9) by (simp add: purchase_total_def)
  have "0 \<le> ?cost"
    using calculate_total_ge(2)[OF assms(5) added(9)] added(6,7) by (intro dadd_nonneg dmul_nonneg) auto
  from dsub_le_left[OF assms(3) this] dsub_nonneg[OF le] show ?thesis
    unfolding added(10) by (simp add: add_entry_def)
qed (use assms in simp)

definition planning_ok :: "prepared \<Rightarrow> dec \<Rightarrow> planning \<Rightarrow> bool" where
  "planning_ok pr c pl \<longleftrightarrow> 0 \<le> virtual_cash pl \<and> virtual_cash pl \<le> c \<and> dec28 (virtual_cash pl) \<and>
     orders_causal (planned pl)"

lemma entry_step_ok:
  assumes "entry_step q pr d n eq risk fs ex pl sig = Inr pl'" and "planning_ok pr c pl"
    and "d < n" and "0 < lot_size (pr_limits pr)" and "rates_ok (er_cost_model q)"
  shows "planning_ok pr c pl'"
proof -
  have "orders_causal (planned pl')"
    using assms(1)
  proof (cases rule: entry_step_cases)
    case (added f reference quantity costs)
    then show ?thesis
      using assms(2) orders_causal_plan[OF _ _ assms(3), of "planned pl" "buy_order sig d quantity"]
      by (simp add: planning_ok_def add_entry_def buy_order_def)
  qed (use assms(2) in \<open>simp add: planning_ok_def\<close>)
  then show ?thesis
    using entry_step_cash[OF assms(1) _ _ assms(4,5)] assms(2) by (auto simp: planning_ok_def)
qed

lemma plan_next_day_ok:
  assumes "engine_ok dates st" and "plan_next_day q pr d n i snap st = Inr st'"
    and "d < n" and "0 < lot_size (pr_limits pr)" and "rates_ok (er_cost_model q)"
  shows "engine_ok dates st'"
proof -
  obtain fs ranked ex p selected proj pl where
    ex: "fold_res (exit_step pr d n i fs ranked (eligible_on q (pr_table pr) d)
        (update_streak (er_strategy_type q) fs (closed_streak st)) (held_entries st))
        ([], pending st) (map snd (positions (ledger st))) = Inr (ex, p)"
    and en: "fold_res (entry_step q pr d n (equity snap) (dm_state (drawdown st)) fs ex)
       \<lparr>virtual_cash = cash (ledger st), projected = proj, held_symbols = map ap_symbol proj,
        industry_counts = count_industries ex proj, planned = p\<rparr> selected = Inr pl"
    and st': "st' = st\<lparr>closed_streak := update_streak (er_strategy_type q) fs (closed_streak st),
       pending := planned pl\<rparr>"
    using assms(2) by (auto simp: plan_next_day_def Let_def andThen_Inr_iff split: prod.splits)
  have lok: "0 \<le> cash (ledger st)" "dec28 (cash (ledger st))" "orders_causal (pending st)"
    using assms(1) by (simp_all add: engine_ok_def ledger_ok_def)
  have "planning_ok pr (cash (ledger st)) pl"
  proof (rule fold_res_invariant[OF en])
    show "planning_ok pr (cash (ledger st)) \<lparr>virtual_cash = cash (ledger st), projected = proj,
        held_symbols = map ap_symbol proj, industry_counts = count_industries ex proj, planned = p\<rparr>"
      using lok exits_causal[OF ex lok(3) assms(3)] by (simp add: planning_ok_def)
  qed (use entry_step_ok assms(3-5) in blast)
  then show ?thesis using assms(1) st' by (simp add: engine_ok_def planning_ok_def)
qed

lemma trading_day_ok:
  assumes "engine_ok (pr_dates pr) st" and "trading_day q pr st i = Inr st'" and "i < length (pr_dates pr)"
    and "sorted_wrt (<) (pr_dates pr)" and "table_ok (pr_table pr)"
    and "0 < lot_size (pr_limits pr)" and "rates_ok (er_cost_model q)"
  shows "engine_ok (pr_dates pr) st'"
proof -
  let ?d = "pr_dates pr ! i"
  obtain st1 snap st2 where s: "execute_orders q pr ?d (int i) st = Inr st1"
    "mark_to_market pr ?d st1 = Inr (snap, st2)"
    "(if i = length (pr_dates pr) - 1 then Inr st2
      else plan_next_day q pr ?d (pr_dates pr ! (i + 1)) (int i) snap st2) = Inr st'"
    using assms(2) by (auto simp: trading_day_def Let_def andThen_Inr_iff split: prod.splits)
  have d: "?d \<in> set (pr_dates pr)" using assms(3) by simp
  note ok1 = execute_orders_ok[OF assms(1) s(1) d]
  have ok2: "engine_ok (pr_dates pr) st2" using mark_to_market_ok[OF ok1 s(2) assms(5)] by simp
  show ?thesis
  proof (cases "i = length (pr_dates pr) - 1")
    case False
    then have i1: "i + 1 < length (pr_dates pr)" using assms(3) by simp
    have "?d < pr_dates pr ! (i + 1)"
      using sorted_wrt_nth_less[OF assms(4), of i "i + 1"] i1 by simp
    then show ?thesis using plan_next_day_ok[OF ok2 _ _ assms(6,7)] s(3) False by simp
  qed (use ok2 s(3) in simp)
qed

section \<open>Properties\<close>

definition entries_inv ::
    "int \<Rightarrow> string list \<Rightarrow> planning \<Rightarrow> planning \<Rightarrow> bool" where
  "entries_inv cap ex pl0 pl \<longleftrightarrow>
     (\<exists>new. held_symbols pl = held_symbols pl0 @ new \<and> distinct new \<and>
        set new \<inter> (set (held_symbols pl0) \<union> set ex) = {}) \<and>
     (\<forall>j. dict_get (industry_counts pl) j 0 \<le> max cap (dict_get (industry_counts pl0) j 0))"

lemma dict_get_update: "dict_get (dict_set k v t) k' w = (if k = k' then v else dict_get t k' w)"
  by (simp add: dict_get_def dict_simps)

lemma entry_step_inv:
  assumes "entry_step q pr d n eq risk fs ex pl sig = Inr pl'"
    and "entries_inv (strategy_industry_cap (pr_strategy pr)) ex pl0 pl"
  shows "entries_inv (strategy_industry_cap (pr_strategy pr)) ex pl0 pl'"
  using assms(1)
proof (cases rule: entry_step_cases)
  case unchanged
  then show ?thesis using assms(2) by simp
next
  case (added f reference quantity costs)
  from assms(2) obtain new where new: "held_symbols pl = held_symbols pl0 @ new" "distinct new"
    "set new \<inter> (set (held_symbols pl0) \<union> set ex) = {}" by (auto simp: entries_inv_def)
  have "held_symbols pl' = held_symbols pl0 @ (new @ [en_symbol sig])"
    by (simp add: added(10) add_entry_def new(1))
  moreover have "distinct (new @ [en_symbol sig])"
    "set (new @ [en_symbol sig]) \<inter> (set (held_symbols pl0) \<union> set ex) = {}"
    using new added(1,2) by auto
  moreover have "dict_get (industry_counts pl') j 0 \<le>
      max (strategy_industry_cap (pr_strategy pr)) (dict_get (industry_counts pl0) j 0)" for j
    using assms(2) added(3)
    by (auto simp: entries_inv_def added(10) add_entry_def dict_get_update split: option.splits)
  ultimately show ?thesis unfolding entries_inv_def by blast
qed

lemma entry_step_risk:
  assumes "entry_step q pr d n eq risk fs ex pl sig = Inr pl'" and "risk \<noteq> NORMAL"
  shows "pl' = pl"
  using assms(1)
proof (cases rule: entry_step_cases)
  case (added f reference quantity costs)
  from allocate_needs_normal[OF added(8,7)] state_value_NORMAL assms(2) show ?thesis
    by (simp add: entry_request_def)
qed


definition sample_engine :: engine_request where
  "sample_engine = \<lparr>er_config = sample_config,
     er_bars = [(sample_bar 10 9 11)\<lparr>mb_symbol := ''000300.SH'',
       mb_available_at := Some \<lparr>wall = 0, utcoff = Some 0\<rparr>\<rparr>],
     er_data_version = ''d1'', er_strategy_version = ''s1'', er_strategy_type = ''STRONG_TREND'',
     er_parameters = StrongParams default_strong_config, er_cutoff = \<lparr>wall = 5, utcoff = Some 0\<rparr>,
     er_implementation_version = ''strong-trend-v2'', er_trading_dates = [738000],
     er_rule_version = ''rule_v2'', er_rule_config = None, er_secondary = None,
     er_universe_enabled = False, er_suspended = [], er_batches = [], er_cost_config = None,
     er_cost_hash = None, er_cost_model = default_cost_model, er_limits = None\<rparr>"

definition sample_prepared :: prepared where
  "sample_prepared = \<lparr>pr_strategy = StrongStrategy default_strong_config, pr_limits = default_limits,
     pr_dates = [738000], pr_table = [], pr_strategy_bars = [], pr_market_bars = [],
     pr_symbols = [''A'']\<rparr>"

definition sample_planning :: planning where
  "sample_planning = \<lparr>virtual_cash = 20000, projected = [], held_symbols = [], industry_counts = [],
     planned = []\<rparr>"

definition sample_signal :: entry_signal where
  "sample_signal = \<lparr>en_symbol = ''A'', en_date = 5, en_score = 1, en_rank = 1, en_industry = Some ''BANK''\<rparr>"

lemma sample_entry:
  "\<exists>pl. fold_res (entry_step sample_engine sample_prepared 5 6 20000 NORMAL
     [StrongFeature (sample_feature ''A'')] []) sample_planning [sample_signal] = Inr pl \<and>
     held_symbols pl = [''A'']"
proof -
  have "entry_request sample_engine sample_prepared 20000 NORMAL sample_planning sample_signal 10 =
      sample_request"
    by (simp add: entry_request_def sample_engine_def sample_prepared_def sample_planning_def
        sample_signal_def sample_request_def state_value_def)
  then have al: "allocate_quantity (entry_request sample_engine sample_prepared 20000 NORMAL sample_planning
      sample_signal 10) = Some (Inr 300)" by (simp add: sample_allocation)
  obtain c where c: "calculate default_cost_model ''BUY'' 300 10 = Inr c"
    using calculate_defined[of default_cost_model "''BUY''" 300 10] by auto
  have f: "feature_symbol (StrongFeature (sample_feature ''A'')) = ''A''"
    "feature_close (StrongFeature (sample_feature ''A'')) = Some 10"
    by (simp_all add: feature_symbol_def feature_close_def sample_feature_def)
  have sg: "en_symbol sample_signal = ''A''" "en_industry sample_signal = Some ''BANK''"
    by (simp_all add: sample_signal_def)
  have pl: "held_symbols sample_planning = []" "industry_counts sample_planning = []"
    by (simp_all add: sample_planning_def)
  have cap: "strategy_industry_cap (pr_strategy sample_prepared) = 2"
    by (simp add: strategy_industry_cap_def sample_prepared_def default_strong_config_def)
  have m: "er_cost_model sample_engine = default_cost_model" by (simp add: sample_engine_def)
  show ?thesis
    by (simp add: entry_step_def f sg pl cap m al c dict_get_def returning_def add_entry_def)
qed


text \<open>
  The market switch is only seen through the first symbol: when the alphabetically first symbol
  of a strong-trend run has no visible bar on the day, its feature has no market close, and the
  streak of closed-market days is kept whatever the market did, so the exit rule that counts two
  such days misses the day.
\<close>

theorem market_streak_needs_first_symbol:
  assumes "er_strategy_type q = ''STRONG_TREND''" and "day_features q pr d = Inr fs"
    and "pr_symbols pr = s # ss"
    and "\<forall>b\<in>set (pr_strategy_bars pr). sb_symbol b = s \<longrightarrow> sb_date b \<noteq> d"
  shows "update_streak (er_strategy_type q) fs streak = streak"
proof -
  have "bar_on d (stock_history (pr_strategy_bars pr) s d c) = None" for c
    using assms(4) by (auto simp: bar_on_def find_last_def find_None_iff dest!: stock_history_in)
  then have "build_feature_snapshot (pr_strategy_bars pr) (pr_market_bars pr) s d c =
      Inr (empty_snapshot s d)" for c
    by (simp add: build_feature_snapshot_def Let_def)
  then obtain rest where "fs = StrongFeature (empty_snapshot s d) # rest"
    using assms(1-3) by (auto simp: day_features_def andThen_Inr_iff)
  then show ?thesis by (simp add: update_streak_def empty_snapshot_def)
qed

lemma market_streak_needs_first_symbol_witness:
  "\<exists>fs. day_features sample_engine sample_prepared 738000 = Inr fs \<and>
     update_streak (er_strategy_type sample_engine) fs 1 = 1"
proof -
  have e: "er_strategy_type sample_engine = ''STRONG_TREND''" by (simp add: sample_engine_def)
  have p: "pr_symbols sample_prepared = ''A'' # []" "pr_strategy_bars sample_prepared = []"
    by (simp_all add: sample_prepared_def)
  obtain fs where fs: "day_features sample_engine sample_prepared 738000 = Inr fs"
    by (simp add: day_features_def e p build_feature_snapshot_def stock_history_def bar_on_def
        find_last_def Let_def)
  from market_streak_needs_first_symbol[OF e fs p(1)] p(2) fs show ?thesis by auto
qed

end
