(* ===== verification/EngineRun.thy ===== *)
theory EngineRun
  imports EventLoop
begin

text \<open>
  The last part of the engine-v2 run of \<open>app/domain/backtest/event_loop.py\<close>: the benchmark series,
  the metrics per segment, what the two hashes cover, and the run as a whole.
\<close>

section \<open>Benchmark series\<close>

definition close_on :: "string \<Rightarrow> bar_table \<Rightarrow> string \<Rightarrow> date \<Rightarrow> dec res" where
  "close_on code table symbol d =
     (case Option.bind (bar_at table d symbol) mb_close of
        None \<Rightarrow> Inl (BenchmarkUnavailable (code @ '' is missing price on '' @ isoformat d))
      | Some x \<Rightarrow> Inr x)"

definition market_series ::
    "string \<Rightarrow> string \<Rightarrow> date list \<Rightarrow> bar_table \<Rightarrow> dec \<Rightarrow> backtest_series res" where
  "market_series code symbol dates table equity0 =
     andThen (map_res (close_on code table symbol) dates) (\<lambda>closes.
     andThen (map_res (\<lambda>(d, close). andThen (ddiv (dmul equity0 close) (hd closes)) (\<lambda>v. Inr (d, v)))
         (zip dates closes)) (\<lambda>pts.
       Inr \<lparr>series_code = code, points = pts, availability = ''AVAILABLE''\<rparr>))"

definition optional_market_series ::
    "string \<Rightarrow> string \<Rightarrow> date list \<Rightarrow> bar_table \<Rightarrow> dec \<Rightarrow> (backtest_series option) res" where
  "optional_market_series code symbol dates table equity0 =
     (if \<forall>d\<in>set dates. Option.bind (bar_at table d symbol) mb_close \<noteq> None
      then andThen (market_series code symbol dates table equity0) (\<lambda>s. Inr (Some s))
      else Inr None)"

text \<open>The return of one constituent from the previous to the current date.\<close>

definition member_return ::
    "bar_table \<Rightarrow> (date, string list) dict \<Rightarrow> date \<Rightarrow> date \<Rightarrow> string \<Rightarrow> dec res" where
  "member_return table suspended previous_date d s =
     (let missing = Inl (BenchmarkUnavailable
            (''UNIVERSE_EQUAL_WEIGHT missing non-suspended price for '' @ s @ '' on '' @ isoformat d)) in
      case bar_at table previous_date s of
        None \<Rightarrow> Inl (KeyError s)
      | Some previous \<Rightarrow>
        (case mb_close previous of
           None \<Rightarrow> Inl AssertionError
         | Some p \<Rightarrow>
           (case bar_at table d s of
              None \<Rightarrow> if s \<in> set (dict_get suspended d []) then Inr 0 else missing
            | Some current \<Rightarrow>
                if mb_suspended current then Inr 0
                else (case mb_close current of
                  None \<Rightarrow> missing
                | Some c \<Rightarrow> andThen (ddiv c p) (\<lambda>r. Inr (dsub r 1))))))"

definition universe_step ::
    "engine_request \<Rightarrow> bar_table \<Rightarrow> (date \<times> dec) list \<times> dec \<Rightarrow> date \<times> date \<Rightarrow>
     ((date \<times> dec) list \<times> dec) res"
where
  "universe_step q table = (\<lambda>(pts, value) (previous_date, d).
     (let members = sorted_set (eligible_on q table previous_date) in
      if members = []
      then Inl (BenchmarkUnavailable (''UNIVERSE_EQUAL_WEIGHT has no T-1 constituents on '' @ isoformat d))
      else andThen (map_res (member_return table (er_suspended q) previous_date d) members) (\<lambda>returns.
        andThen (ddiv (dsum returns) (of_nat (length returns))) (\<lambda>average.
          let next = dmul value (dadd 1 average) in Inr (pts @ [(d, next)], next)))))"

definition universe_series :: "engine_request \<Rightarrow> date list \<Rightarrow> bar_table \<Rightarrow> backtest_series res" where
  "universe_series q dates table =
     (let value = initial_equity (er_config q) in
      andThen (fold_res (universe_step q table) ([(hd dates, value)], value) (zip dates (tl dates)))
        (\<lambda>(pts, _). Inr \<lparr>series_code = ''UNIVERSE_EQUAL_WEIGHT'', points = pts,
           availability = ''SYNTHETIC_NOT_INVESTABLE''\<rparr>))"

section \<open>Metrics per segment\<close>

definition before_or_on :: "date \<Rightarrow> (date \<times> dec) list \<Rightarrow> (date \<times> dec) list" where
  "before_or_on d pts = filter (\<lambda>p. fst p \<le> d) pts"

definition anchor :: "((date \<times> dec) \<Rightarrow> bool) \<Rightarrow> (date \<times> dec) list \<Rightarrow> (date \<times> dec) list" where
  "anchor P pts = (case find_last P pts of None \<Rightarrow> [] | Some p \<Rightarrow> [p])"

definition segments :: "backtest_config \<Rightarrow> (date \<times> dec) list \<Rightarrow> (string \<times> (date \<times> dec) list) list" where
  "segments config pts =
     [(''FULL'', pts)] @
     (case training_end config of None \<Rightarrow> [] | Some t \<Rightarrow> [(''TRAIN'', before_or_on t pts)]) @
     (case (training_end config, validation_end config) of
        (Some t, Some v) \<Rightarrow> [(''VALIDATION'', anchor (\<lambda>p. fst p \<le> t) pts @
           filter (\<lambda>p. t < fst p \<and> fst p \<le> v) pts)]
      | _ \<Rightarrow> []) @
     (case oos_start config of None \<Rightarrow> []
      | Some o1 \<Rightarrow> [(''OOS'', anchor (\<lambda>p. fst p < o1) pts @ filter (\<lambda>p. fst p \<ge> o1) pts)])"

definition segment_metrics_of ::
    "'f float_ops \<Rightarrow> fill list \<Rightarrow> backtest_series \<Rightarrow> string \<times> (date \<times> dec) list \<Rightarrow> segment_metrics res" where
  "segment_metrics_of fo all_fills item seg =
     (let pts = snd seg;
          fill_points = (if fst seg \<in> {''FULL'', ''TRAIN''} then pts else tl pts);
          seg_fills = (if series_code item = ''STRATEGY''
            then filter (\<lambda>f. case f_execution_date f of None \<Rightarrow> False | Some d \<Rightarrow> d \<in> set (map fst fill_points)) all_fills
            else [])
      in andThen (calculate_metrics fo (map snd pts) seg_fills (map fst (tl pts))) (\<lambda>met.
           Inr \<lparr>sm_series = series_code item, sm_segment = fst seg, sm_metrics = met\<rparr>))"

definition all_segment_metrics ::
    "'f float_ops \<Rightarrow> backtest_config \<Rightarrow> fill list \<Rightarrow> backtest_series list \<Rightarrow> (segment_metrics list) res" where
  "all_segment_metrics fo config all_fills series =
     andThen (map_res (\<lambda>item. map_res (segment_metrics_of fo all_fills item) (segments config (points item))) series)
       (\<lambda>ms. Inr (concat ms))"

section \<open>What the hashes cover\<close>

text \<open>
  The canonical payloads of the two digests. The digests themselves, SHA-256 of the sorted JSON, are
  arguments of the run.
\<close>

record input_payload =
  ip_engine :: string
  ip_strategy_type :: string
  ip_parameters :: parameters
  ip_implementation :: string
  ip_cutoff :: datetime
  ip_config :: backtest_config
  ip_trading_dates :: "date list"
  ip_rule_version :: string
  ip_rule :: row
  ip_secondary :: "string option"
  ip_universe_enabled :: bool
  ip_cost :: "(string, config_value) dict"
  ip_cost_hash :: string
  ip_batches :: "row list"
  ip_suspended :: "(string \<times> string list) list"
  ip_bars :: "market_bar list"

record snapshot_payload =
  sp_run :: run_snapshot
  sp_engine :: string
  sp_strategy_type :: string
  sp_parameters :: parameters
  sp_implementation :: string
  sp_rule_version :: string
  sp_rule :: row
  sp_oos :: "date option"
  sp_secondary :: "string option"
  sp_universe_enabled :: bool
  sp_cost :: "(string, config_value) dict"
  sp_cost_hash :: string
  sp_batches :: "row list"
  sp_suspended :: "(string \<times> string list) list"

record digests =
  hash_cost :: "(string, config_value) dict \<Rightarrow> string"
  hash_input :: "input_payload \<Rightarrow> string"
  hash_snapshot :: "snapshot_payload \<Rightarrow> string"

definition suspended_payload :: "engine_request \<Rightarrow> (string \<times> string list) list" where
  "suspended_payload q =
     map (\<lambda>(d, ss). (isoformat d, sorted_set ss)) (sort_key fst (er_suspended q))"

definition input_payload_of :: "digests \<Rightarrow> engine_request \<Rightarrow> input_payload" where
  "input_payload_of dg q =
     \<lparr>ip_engine = ''engine-v2'', ip_strategy_type = er_strategy_type q, ip_parameters = er_parameters q,
      ip_implementation = er_implementation_version q, ip_cutoff = as_utc (er_cutoff q),
      ip_config = er_config q, ip_trading_dates = er_trading_dates q,
      ip_rule_version = er_rule_version q, ip_rule = effective_rule q, ip_secondary = er_secondary q,
      ip_universe_enabled = er_universe_enabled q, ip_cost = effective_cost q,
      ip_cost_hash = hash_cost dg (effective_cost q), ip_batches = er_batches q,
      ip_suspended = suspended_payload q, ip_bars = causal_bars q\<rparr>"

definition engine_snapshot :: "digests \<Rightarrow> engine_request \<Rightarrow> run_snapshot" where
  "engine_snapshot dg q =
     \<lparr>rs_data_version = er_data_version q, rs_strategy_version = er_strategy_version q,
      rs_cost_version = cost_version (er_cost_model q), rs_benchmark = benchmark (er_config q),
      rs_start = bc_start (er_config q), rs_end = bc_end (er_config q),
      rs_training_end = training_end (er_config q), rs_validation_end = validation_end (er_config q),
      rs_input_hash = hash_input dg (input_payload_of dg q),
      rs_initial_equity = initial_equity (er_config q), rs_execution_mode = execution_mode (er_config q),
      rs_fill_mode = fill_mode (er_config q)\<rparr>"

definition snapshot_payload_of :: "digests \<Rightarrow> engine_request \<Rightarrow> snapshot_payload" where
  "snapshot_payload_of dg q =
     \<lparr>sp_run = engine_snapshot dg q, sp_engine = ''engine-v2'', sp_strategy_type = er_strategy_type q,
      sp_parameters = er_parameters q, sp_implementation = er_implementation_version q,
      sp_rule_version = er_rule_version q, sp_rule = effective_rule q, sp_oos = oos_start (er_config q),
      sp_secondary = er_secondary q, sp_universe_enabled = er_universe_enabled q,
      sp_cost = effective_cost q, sp_cost_hash = hash_cost dg (effective_cost q),
      sp_batches = er_batches q, sp_suspended = suspended_payload q\<rparr>"

section \<open>The run\<close>

definition all_series :: "engine_request \<Rightarrow> prepared \<Rightarrow> ledger_snapshot list \<Rightarrow> (backtest_series list) res" where
  "all_series q pr snaps =
     (let equity0 = initial_equity (er_config q); dates = pr_dates pr; table = pr_table pr;
          own = \<lparr>series_code = ''STRATEGY'', points = zip dates (map equity snaps), availability = ''AVAILABLE''\<rparr>
      in andThen (market_series ''BENCHMARK_PRIMARY'' (benchmark (er_config q)) dates table equity0) (\<lambda>primary.
         andThen (case er_secondary q of
             None \<Rightarrow> Inr None
           | Some s \<Rightarrow> if s = [] then Inr None
               else optional_market_series ''BENCHMARK_SECONDARY'' s dates table equity0) (\<lambda>secondary.
         andThen (if er_universe_enabled q
             then andThen (universe_series q dates table) (\<lambda>u. Inr [u]) else Inr []) (\<lambda>universe.
           Inr ([own, primary] @ (case secondary of None \<Rightarrow> [] | Some s \<Rightarrow> [s]) @ universe)))))"

definition engine_run :: "'f float_ops \<Rightarrow> digests \<Rightarrow> engine_request \<Rightarrow> backtest_result res" where
  "engine_run fo dg q =
     andThen (prepare (hash_cost dg) q) (\<lambda>pr.
     andThen (trading_loop q pr) (\<lambda>st.
     andThen (all_series q pr (ledger_snapshots st)) (\<lambda>series.
       let curve = initial_equity (er_config q) # map equity (ledger_snapshots st) in
       andThen (calculate_metrics fo curve (fills st) (pr_dates pr)) (\<lambda>met.
       andThen (all_segment_metrics fo (er_config q) (fills st) series) (\<lambda>segs.
         Inr \<lparr>br_snapshot = engine_snapshot dg q, br_snapshot_hash = hash_snapshot dg (snapshot_payload_of dg q),
             equity_curve = curve, br_metrics = met, br_ledger_snapshots = ledger_snapshots st,
             br_skipped = skipped st, br_fills = fills st, engine_version = ''engine-v2'',
             br_series = series, br_segments = segs, br_risk_state = state_value (dm_state (drawdown st))\<rparr>)))))"

section \<open>From the request to the loop\<close>

definition table_in :: "market_bar set \<Rightarrow> bar_table \<Rightarrow> bool" where
  "table_in B table \<longleftrightarrow> (\<forall>d t s b. (d, t) \<in> set table \<longrightarrow> (s, b) \<in> set t \<longrightarrow>
     b \<in> B \<and> mb_date b = d \<and> mb_symbol b = s)"

lemma table_in_add:
  assumes "table_in B g" and "x \<in> B"
  shows "table_in B (dict_set (mb_date x) (dict_set (mb_symbol x) x (dict_get g (mb_date x) [])) g)"
  unfolding table_in_def
proof (intro allI impI)
  fix d t s b
  assume dt: "(d, t) \<in> set (dict_set (mb_date x) (dict_set (mb_symbol x) x (dict_get g (mb_date x) [])) g)"
    and sb: "(s, b) \<in> set t"
  show "b \<in> B \<and> mb_date b = d \<and> mb_symbol b = s"
  proof (cases "(d, t) \<in> set g")
    case True
    then show ?thesis using assms(1) sb by (simp add: table_in_def)
  next
    case False
    with dict_set_in[OF dt] have d: "d = mb_date x" "t = dict_set (mb_symbol x) x (dict_get g d [])" by auto
    with sb have "(s, b) = (mb_symbol x, x) \<or> (s, b) \<in> set (dict_get g d [])" using dict_set_in by fastforce
    moreover have "dict_get g d [] = [] \<or> (d, dict_get g d []) \<in> set g" by (rule dict_get_in)
    ultimately show ?thesis using assms d(1) by (auto simp: table_in_def)
  qed
qed

lemma table_in_bars: "table_in (set bars) (bars_by_date bars)"
proof -
  have main: "table_in B g \<Longrightarrow> set bars \<subseteq> B \<Longrightarrow>
    table_in B (foldl (\<lambda>d b. dict_set (mb_date b) (dict_set (mb_symbol b) b (dict_get d (mb_date b) [])) d) g bars)"
    for g B
  proof (induction bars arbitrary: g)
    case (Cons x bars)
    then have "x \<in> B" "set bars \<subseteq> B" by simp_all
    from Cons.IH[OF table_in_add[OF Cons.prems(1) this(1)] this(2)] show ?case by simp
  qed simp
  have "table_in (set bars) []" by (simp add: table_in_def)
  then show ?thesis unfolding bars_by_date_def by (rule main[OF _ subset_refl])
qed

lemma bars_by_date_in:
  "(d, t) \<in> set (bars_by_date bars) \<Longrightarrow> (s, b) \<in> set t \<Longrightarrow> b \<in> set bars \<and> mb_date b = d \<and> mb_symbol b = s"
  using table_in_bars[of bars] unfolding table_in_def by blast

lemma prepare_InrD:
  assumes "prepare hc q = Inr pr"
  shows "\<exists>s. check_request hc q = Inr (s, pr_limits pr) \<and> pr_strategy pr = s"
    "pr_dates pr = trade_dates q" "pr_dates pr \<noteq> []" "pr_table pr = bars_by_date (causal_bars q)"
    "pr_strategy_bars pr = strategy_bars (causal_bars q)"
    "pr_symbols pr = candidate_symbols q (causal_bars q)"
  using assms
  by (auto simp: prepare_def Let_def andThen_Inr_iff split: prod.splits if_splits list.splits option.splits)

lemma trade_dates_strict: "sorted_wrt (<) (trade_dates q)"
  unfolding trade_dates_def by (simp add: strict_sorted_iff)

lemma trade_dates_range: "d \<in> set (trade_dates q) \<Longrightarrow>
    bc_start (er_config q) \<le> d \<and> d \<le> bc_end (er_config q) \<and> d \<in> set (er_trading_dates q)"
  by (auto simp: trade_dates_def)

lemma prepared_table_ok:
  assumes "prepare hc q = Inr pr" and "\<forall>b\<in>set (er_bars q). \<forall>x. mb_close b = Some x \<longrightarrow> 0 \<le> x"
  shows "table_ok (pr_table pr)"
  unfolding prepare_InrD(4)[OF assms(1)] table_ok_def
proof (intro ballI case_prodI2 allI impI)
  fix p d t p' s b x
  assume "p \<in> set (bars_by_date (causal_bars q))" "p = (d, t)" "p' \<in> set t" "p' = (s, b)" "mb_close b = Some x"
  then have "b \<in> set (causal_bars q)" using bars_by_date_in by blast
  then show "0 \<le> x" using assms(2) \<open>mb_close b = Some x\<close> by (auto simp: causal_bars_def)
qed

lemma start_state_ok:
  assumes "start_state q = Inr st" and "dec28 (initial_equity (er_config q))"
  shows "engine_ok ds st" "ledger_snapshots st = []"
  using assms new_ledger_ok new_monitor_ok
  by (auto simp: start_state_def andThen_Inr_iff engine_ok_def orders_causal_def closes_ok_def)

lemma trading_day_snapshots:
  assumes "trading_day q pr st i = Inr st'"
  shows "length (ledger_snapshots st') = Suc (length (ledger_snapshots st))"
proof -
  obtain st1 snap st2 where s: "execute_orders q pr (pr_dates pr ! i) (int i) st = Inr st1"
    "mark_to_market pr (pr_dates pr ! i) st1 = Inr (snap, st2)"
    "(if i = length (pr_dates pr) - 1 then Inr st2
      else plan_next_day q pr (pr_dates pr ! i) (pr_dates pr ! (i + 1)) (int i) snap st2) = Inr st'"
    using assms by (auto simp: trading_day_def Let_def andThen_Inr_iff split: prod.splits)
  have "ledger_snapshots st1 = ledger_snapshots st"
  proof (rule fold_res_invariant[OF s(1)[unfolded execute_orders_def Let_def],
      where I = "\<lambda>s. ledger_snapshots s = ledger_snapshots st"])
    fix x o1 x' assume "ledger_snapshots x = ledger_snapshots st"
      and "execute_order q (pr_dates pr ! i) (int i) (dict_get (pr_table pr) (pr_dates pr ! i) []) x o1 = Inr x'"
    then show "ledger_snapshots x' = ledger_snapshots st"
      by (auto simp: execute_order_def andThen_Inr_iff elim!: settle_fill_cases split: option.splits)
  qed simp
  moreover have "length (ledger_snapshots st2) = Suc (length (ledger_snapshots st1))"
    using s(2) by (auto simp: mark_to_market_def Let_def andThen_Inr_iff split: prod.splits)
  moreover have "ledger_snapshots st' = ledger_snapshots st2"
    using s(3) by (auto simp: plan_next_day_def Let_def andThen_Inr_iff split: if_splits prod.splits)
  ultimately show ?thesis by simp
qed

lemma trading_loop_ok:
  assumes "prepare hc q = Inr pr" and "trading_loop q pr = Inr st"
    and "dec28 (initial_equity (er_config q))" and "rates_ok (er_cost_model q)"
    and "0 < lot_size (pr_limits pr)"
    and "\<forall>b\<in>set (er_bars q). \<forall>x. mb_close b = Some x \<longrightarrow> 0 \<le> x"
  shows "engine_ok (pr_dates pr) st \<and> length (ledger_snapshots st) = length (pr_dates pr)"
proof -
  obtain st0 where st0: "start_state q = Inr st0"
    and run: "fold_res (trading_day q pr) st0 [0..<length (pr_dates pr)] = Inr st"
    using assms(2) by (auto simp: trading_loop_def andThen_Inr_iff)
  have strict: "sorted_wrt (<) (pr_dates pr)"
    using trade_dates_strict prepare_InrD(2)[OF assms(1)] by simp
  have "engine_ok (pr_dates pr) st"
    by (rule fold_res_invariant[where I = "engine_ok (pr_dates pr)", OF run start_state_ok(1)[OF st0 assms(3)]])
       (use trading_day_ok strict prepared_table_ok[OF assms(1,6)] assms(4,5) in auto)
  moreover have "fold_res (trading_day q pr) s xs = Inr s' \<Longrightarrow>
      length (ledger_snapshots s') = length (ledger_snapshots s) + length xs" for s xs s'
    by (induction xs arbitrary: s) (auto simp: andThen_Inr_iff dest: trading_day_snapshots)
  from this[OF run] start_state_ok(2)[OF st0 assms(3)]
  have "length (ledger_snapshots st) = length (pr_dates pr)" by simp
  ultimately show ?thesis by simp
qed

section \<open>Properties\<close>

text \<open>
  C2: The engine is causal and solvent: in every result of a run, with non-negative rates and closes
  and a positive lot size, each fill was planned on a day strictly before its execution date, which
  is a configured trading date, the curve has one point per trading date after the initial equity,
  and on each day cash and equity are not negative and the drawdown lies between zero and one.
\<close>

theorem engine_run_causal:
  assumes "engine_run fo dg q = Inr r"
    and "dec28 (initial_equity (er_config q))" and "rates_ok (er_cost_model q)"
    and "\<forall>s lim. check_request (hash_cost dg) q = Inr (s, lim) \<longrightarrow> 0 < lot_size lim"
    and "\<forall>b\<in>set (er_bars q). \<forall>x. mb_close b = Some x \<longrightarrow> 0 \<le> x"
  shows "(\<forall>f\<in>set (br_fills r). \<exists>s d. f_signal_date f = Some s \<and> f_execution_date f = Some d \<and> s < d \<and>
      d \<in> set (trade_dates q)) \<and>
    equity_curve r = initial_equity (er_config q) # map equity (br_ledger_snapshots r) \<and>
    length (br_ledger_snapshots r) = length (trade_dates q) \<and>
    (\<forall>s\<in>set (br_ledger_snapshots r). 0 \<le> ls_cash s \<and> 0 \<le> equity s \<and>
      equity s \<le> ls_high_water_mark s \<and> 0 \<le> ls_drawdown s \<and> ls_drawdown s \<le> 1)"
proof -
  obtain pr st where pr: "prepare (hash_cost dg) q = Inr pr" and st: "trading_loop q pr = Inr st"
    and r: "br_fills r = fills st" "br_ledger_snapshots r = ledger_snapshots st"
      "equity_curve r = initial_equity (er_config q) # map equity (ledger_snapshots st)"
    using assms(1) by (auto simp: engine_run_def Let_def andThen_Inr_iff)
  have "0 < lot_size (pr_limits pr)" using prepare_InrD(1)[OF pr] assms(4) by blast
  from trading_loop_ok[OF pr st assms(2,3) this assms(5)] show ?thesis
    by (auto simp: r engine_ok_def engine_fill_ok_def good_snapshot_def prepare_InrD(2)[OF pr])
qed

lemma sample_engine_limits:
  "check_request hc sample_engine = Inr (StrongStrategy default_strong_config, default_limits)"
proof -
  have l: "allocation_limits 20000 default_rule_config = Inr default_limits"
    by (simp add: allocation_limits_def default_rule_config_def int_rule_def decimal_rule_def
        per_trade_risk_def int_of_def decimal_of_def default_rule_numbers default_limits_def)
  have b: "build (registry STRONG_TREND) (StrongParams default_strong_config) =
      Inr (StrongStrategy default_strong_config)"
    by (simp add: build_def validate_parameters_def registry_def default_strong_config_def strong_fields_ok_def)
  show ?thesis
    using l b
    by (simp add: check_request_def sample_engine_def sample_config_def get_strategy_definition_def
        effective_rule_def registry_def)
qed

definition sample_benchmark_bar :: market_bar where
  "sample_benchmark_bar = (sample_bar 10 9 11)\<lparr>mb_symbol := ''000300.SH'',
     mb_available_at := Some \<lparr>wall = 0, utcoff = Some 0\<rparr>\<rparr>"

lemma sample_benchmark_simps:
  "mb_date sample_benchmark_bar = 738000" "mb_close sample_benchmark_bar = Some 10"
  "mb_symbol sample_benchmark_bar = ''000300.SH''"
  "mb_available_at sample_benchmark_bar = Some \<lparr>wall = 0, utcoff = Some 0\<rparr>"
  "er_bars sample_engine = [sample_benchmark_bar]"
  by (simp_all add: sample_benchmark_bar_def sample_bar_def sample_engine_def)

lemma sample_engine_fields:
  "benchmark (er_config sample_engine) = ''000300.SH''" "initial_equity (er_config sample_engine) = 20000"
  "training_end (er_config sample_engine) = None" "oos_start (er_config sample_engine) = None"
  "bc_end (er_config sample_engine) = 738010" "er_cutoff sample_engine = \<lparr>wall = 5, utcoff = Some 0\<rparr>"
  "er_secondary sample_engine = None" "\<not> er_universe_enabled sample_engine"
  "excluded sample_engine = [''000300.SH'']" "trade_dates sample_engine = [738000]"
  by (simp_all add: sample_engine_def sample_config_def excluded_def trade_dates_def sorted_set_def)

lemma sample_engine_prepared:
  "\<exists>pr. prepare hc sample_engine = Inr pr \<and> pr_dates pr = [738000] \<and> pr_symbols pr = [] \<and>
     pr_table pr = [(738000, [(''000300.SH'', sample_benchmark_bar)])]"
  by (simp add: prepare_def sample_engine_limits causal_bars_def sample_benchmark_simps sample_engine_fields
      available_iff instant_def bars_by_date_def candidate_bars_def missing_primary_def bar_at_def
      dict_get_def Let_def candidate_symbols_def sorted_set_def)

lemma sample_engine_run:
  "\<exists>r. engine_run \<lparr>fl_of_dec = id, fl_of_nat = of_nat, fl_sum = sum_list, fl_sub = (-), fl_mul = (*),
       fl_div = (/), fl_square = (\<lambda>x. x * x), fl_sqrt = id, fl_is_zero = (\<lambda>x. x = 0), fl_dec = id\<rparr>
     \<lparr>hash_cost = \<lambda>_. ''c'', hash_input = \<lambda>_. ''i'', hash_snapshot = \<lambda>_. ''s''\<rparr> sample_engine = Inr r"
proof -
  let ?b = sample_benchmark_bar
  note bd = sample_benchmark_simps and bench = sample_engine_fields
  obtain pr where pr: "prepare (\<lambda>_. ''c'') sample_engine = Inr pr" "pr_dates pr = [738000]"
    "pr_table pr = [(738000, [(''000300.SH'', ?b)])]"
    using sample_engine_prepared by blast
  let ?l = "\<lparr>cash = 20000, positions = [], entries = [], high_water = 20000\<rparr>"
  obtain m st0 where st0: "start_state sample_engine = Inr st0" "ledger st0 = ?l" "pending st0 = []"
    "drawdown st0 = m" "dm_high_water m = 20000" "ledger_snapshots st0 = []" "fills st0 = []"
    by (simp add: start_state_def bench new_ledger_def decimal_rule_def effective_rule_def
        default_rule_config_def sample_engine_def sample_config_def decimal_of_def default_rule_numbers
        new_monitor_def)
  obtain snap where snap: "snapshot (mark_closes [(''000300.SH'', ?b)] (last_closes st0)) ?l = Inr (snap, ?l)"
    "equity snap = 20000"
    by (simp add: snapshot_def ddiv_def dadd_def dsub_def Let_def)
  obtain m1 where m1: "observe 20000 m = Inr m1"
    using st0(5) by (simp add: observe_def Let_def ddiv_def dsub_def)
  obtain st where st: "trading_loop sample_engine pr = Inr st" "ledger_snapshots st = [snap]" "fills st = []"
    using st0 snap m1 pr(2,3)
    by (simp add: trading_loop_def trading_day_def execute_orders_def settle_all_def mark_to_market_def
        dict_get_def Let_def)
  have ser: "all_series sample_engine pr [snap] = Inr [\<lparr>series_code = ''STRATEGY'', points = [(738000, 20000)],
      availability = ''AVAILABLE''\<rparr>, \<lparr>series_code = ''BENCHMARK_PRIMARY'', points = [(738000, 20000)],
      availability = ''AVAILABLE''\<rparr>]"
    by (simp add: all_series_def bench pr(2,3) snap(2) market_series_def close_on_def bar_at_def dict_get_def
        bd ddiv_def dmul_def Let_def)
  show ?thesis
    by (simp add: engine_run_def pr(1) st ser bench snap(2) calculate_metrics_def all_segment_metrics_def
        segments_def segment_metrics_of_def pr(2) Let_def)
qed

lemma engine_run_causal_witness:
  "\<exists>r. engine_run \<lparr>fl_of_dec = id, fl_of_nat = of_nat, fl_sum = sum_list, fl_sub = (-), fl_mul = (*),
       fl_div = (/), fl_square = (\<lambda>x. x * x), fl_sqrt = id, fl_is_zero = (\<lambda>x. x = 0), fl_dec = id\<rparr>
     \<lparr>hash_cost = \<lambda>_. ''c'', hash_input = \<lambda>_. ''i'', hash_snapshot = \<lambda>_. ''s''\<rparr> sample_engine = Inr r \<and>
     (\<forall>s\<in>set (br_ledger_snapshots r). 0 \<le> ls_cash s)"
proof -
  obtain r where r: "engine_run \<lparr>fl_of_dec = id, fl_of_nat = of_nat, fl_sum = sum_list, fl_sub = (-), fl_mul = (*),
       fl_div = (/), fl_square = (\<lambda>x. x * x), fl_sqrt = id, fl_is_zero = (\<lambda>x. x = 0), fl_dec = id\<rparr>
     \<lparr>hash_cost = \<lambda>_. ''c'', hash_input = \<lambda>_. ''i'', hash_snapshot = \<lambda>_. ''s''\<rparr> sample_engine = Inr r"
    using sample_engine_run by blast
  have "dec28 (initial_equity (er_config sample_engine))" "rates_ok (er_cost_model sample_engine)"
    "\<forall>b\<in>set (er_bars sample_engine). \<forall>x. mb_close b = Some x \<longrightarrow> 0 \<le> x"
    "\<forall>s lim. check_request (hash_cost \<lparr>hash_cost = \<lambda>_. ''c'', hash_input = \<lambda>_. ''i'', hash_snapshot = \<lambda>_. ''s''\<rparr>)
       sample_engine = Inr (s, lim) \<longrightarrow> 0 < lot_size lim"
    using dec28_of_int[of 20000] rates_ok_default sample_engine_limits
    by (simp_all add: sample_engine_def sample_config_def sample_bar_def default_limits_def)
  from engine_run_causal[OF r this(1,2,4,3)] r show ?thesis by auto
qed

end
