(* ===== verification/Lookahead.thy ===== *)
theory Lookahead
  imports EngineRun
begin

text \<open>
  What the engine-v2 run may depend on: nothing published after the information cutoff or dated after
  the end of the test, and, for the state after a trading day, nothing dated after that day except
  the list of symbols.
\<close>

section \<open>The bars enter through the causal bars only\<close>

lemma bars_frame_fields:
  "er_config (q\<lparr>er_bars := bs\<rparr>) = er_config q" "er_cutoff (q\<lparr>er_bars := bs\<rparr>) = er_cutoff q"
  "er_cost_model (q\<lparr>er_bars := bs\<rparr>) = er_cost_model q"
  "er_strategy_type (q\<lparr>er_bars := bs\<rparr>) = er_strategy_type q"
  "er_parameters (q\<lparr>er_bars := bs\<rparr>) = er_parameters q"
  "er_implementation_version (q\<lparr>er_bars := bs\<rparr>) = er_implementation_version q"
  "er_cost_hash (q\<lparr>er_bars := bs\<rparr>) = er_cost_hash q" "er_limits (q\<lparr>er_bars := bs\<rparr>) = er_limits q"
  "er_rule_config (q\<lparr>er_bars := bs\<rparr>) = er_rule_config q"
  "er_cost_config (q\<lparr>er_bars := bs\<rparr>) = er_cost_config q"
  "er_suspended (q\<lparr>er_bars := bs\<rparr>) = er_suspended q"
  "er_trading_dates (q\<lparr>er_bars := bs\<rparr>) = er_trading_dates q"
  "er_secondary (q\<lparr>er_bars := bs\<rparr>) = er_secondary q"
  "er_universe_enabled (q\<lparr>er_bars := bs\<rparr>) = er_universe_enabled q"
  "er_data_version (q\<lparr>er_bars := bs\<rparr>) = er_data_version q"
  "er_strategy_version (q\<lparr>er_bars := bs\<rparr>) = er_strategy_version q"
  "er_rule_version (q\<lparr>er_bars := bs\<rparr>) = er_rule_version q"
  "er_batches (q\<lparr>er_bars := bs\<rparr>) = er_batches q"
  by simp_all

lemma bars_frame:
  "effective_rule (q\<lparr>er_bars := bs\<rparr>) = effective_rule q"
  "effective_cost (q\<lparr>er_bars := bs\<rparr>) = effective_cost q"
  "trade_dates (q\<lparr>er_bars := bs\<rparr>) = trade_dates q"
  "missing_primary (q\<lparr>er_bars := bs\<rparr>) = missing_primary q"
  "excluded (q\<lparr>er_bars := bs\<rparr>) = excluded q"
  "suspended_payload (q\<lparr>er_bars := bs\<rparr>) = suspended_payload q"
  unfolding effective_rule_def[abs_def] effective_cost_def[abs_def] trade_dates_def[abs_def]
    missing_primary_def[abs_def] excluded_def[abs_def] suspended_payload_def[abs_def] bars_frame_fields
  by (rule refl)+

lemma bars_frame_data:
  "check_request hc (q\<lparr>er_bars := bs\<rparr>) = check_request hc q"
  "start_state (q\<lparr>er_bars := bs\<rparr>) = start_state q"
  "candidate_bars (q\<lparr>er_bars := bs\<rparr>) = candidate_bars q"
  "eligible_on (q\<lparr>er_bars := bs\<rparr>) = eligible_on q"
  unfolding check_request_def[abs_def] start_state_def[abs_def] candidate_bars_def[abs_def]
    eligible_on_def[abs_def] bars_frame bars_frame_fields
  by (rule refl)+

lemma bars_frame_loop:
  "candidate_symbols (q\<lparr>er_bars := bs\<rparr>) = candidate_symbols q"
  "execute_order (q\<lparr>er_bars := bs\<rparr>) = execute_order q"
  "day_features (q\<lparr>er_bars := bs\<rparr>) = day_features q"
  "eligible_features (q\<lparr>er_bars := bs\<rparr>) = eligible_features q"
  "entry_request (q\<lparr>er_bars := bs\<rparr>) = entry_request q"
  unfolding execute_order_def[abs_def] day_features_def[abs_def] eligible_features_def[abs_def]
    entry_request_def[abs_def] candidate_symbols_def[abs_def] bars_frame_fields bars_frame_data
  by (rule refl)+

lemma bars_frame_step:
  "execute_orders (q\<lparr>er_bars := bs\<rparr>) = execute_orders q"
  "entry_step (q\<lparr>er_bars := bs\<rparr>) = entry_step q"
  unfolding execute_orders_def[abs_def] entry_step_def[abs_def] bars_frame_loop bars_frame_fields
  by (rule refl)+

lemma bars_frame_plan: "plan_next_day (q\<lparr>er_bars := bs\<rparr>) = plan_next_day q"
  unfolding plan_next_day_def[abs_def] bars_frame_step bars_frame_loop bars_frame_data bars_frame_fields ..

lemma bars_frame_day: "trading_day (q\<lparr>er_bars := bs\<rparr>) = trading_day q"
  unfolding trading_day_def[abs_def] bars_frame_plan bars_frame_step ..

lemma bars_frame_run:
  "trading_loop (q\<lparr>er_bars := bs\<rparr>) = trading_loop q"
  "universe_step (q\<lparr>er_bars := bs\<rparr>) = universe_step q"
  unfolding trading_loop_def[abs_def] universe_step_def[abs_def] bars_frame_day bars_frame_data bars_frame_fields
  by (rule refl)+

lemma bars_frame_series: "universe_series (q\<lparr>er_bars := bs\<rparr>) = universe_series q"
  unfolding universe_series_def[abs_def] bars_frame_run bars_frame_fields ..

lemma bars_frame_all_series: "all_series (q\<lparr>er_bars := bs\<rparr>) = all_series q"
  unfolding all_series_def[abs_def] bars_frame_series bars_frame_fields ..

lemma run_depends_on_causal:
  assumes "causal_bars (q\<lparr>er_bars := bs\<rparr>) = causal_bars q"
  shows "engine_run fo dg (q\<lparr>er_bars := bs\<rparr>) = engine_run fo dg q"
proof -
  have prep: "prepare hc (q\<lparr>er_bars := bs\<rparr>) = prepare hc q" for hc
    unfolding prepare_def bars_frame_loop bars_frame_data bars_frame bars_frame_fields assms ..
  have ip: "input_payload_of dg (q\<lparr>er_bars := bs\<rparr>) = input_payload_of dg q"
    unfolding input_payload_of_def bars_frame bars_frame_fields assms ..
  have es: "engine_snapshot dg (q\<lparr>er_bars := bs\<rparr>) = engine_snapshot dg q"
    unfolding engine_snapshot_def bars_frame_fields ip ..
  have sp: "snapshot_payload_of dg (q\<lparr>er_bars := bs\<rparr>) = snapshot_payload_of dg q"
    unfolding snapshot_payload_of_def bars_frame bars_frame_fields es ..
  show ?thesis
    unfolding engine_run_def prep es sp bars_frame_run bars_frame_all_series bars_frame_fields ..
qed

section \<open>One day reads that day's bars and the visible history\<close>

definition day_table :: "date \<Rightarrow> market_bar list \<Rightarrow> (string, market_bar) dict" where
  "day_table d bars = foldl (\<lambda>t b. dict_set (mb_symbol b) b t) [] (filter (\<lambda>b. mb_date b = d) bars)"

lemma dict_get_set: "dict_get (dict_set k v t) k' w = (if k = k' then v else dict_get t k' w)"
  by (simp add: dict_get_def dict_simps)

lemma bars_by_date_get: "dict_get (bars_by_date bars) d [] = day_table d bars"
proof -
  have "dict_get (foldl (\<lambda>g b. dict_set (mb_date b) (dict_set (mb_symbol b) b (dict_get g (mb_date b) [])) g) g bars) d [] =
    foldl (\<lambda>t b. dict_set (mb_symbol b) b t) (dict_get g d []) (filter (\<lambda>b. mb_date b = d) bars)" for g
    by (induction bars arbitrary: g) (auto simp: dict_get_set)
  from this[of "[]"] show ?thesis by (simp add: bars_by_date_def day_table_def dict_get_def)
qed

lemma strategy_bars_filter:
  assumes "\<And>b x. mb_close b = Some x \<Longrightarrow> P (to_strategy_bar b x) = Q b"
  shows "filter P (strategy_bars bars) = strategy_bars (filter Q bars)"
  using assms by (induction bars) (auto simp: strategy_bars_def List.map_filter_def)

definition known :: "date \<Rightarrow> datetime \<Rightarrow> market_bar \<Rightarrow> bool" where
  "known d c b \<longleftrightarrow> mb_date b \<le> d \<and> available_at_or_before (mb_available_at b) (Some c)"

lemma strategy_bars_visible:
  "filter (visible d (Some c)) (strategy_bars bars) = strategy_bars (filter (known d c) bars)"
  by (rule strategy_bars_filter) (simp add: visible_def to_strategy_bar_def known_def)

lemma market_bars_visible:
  "filter (visible d (Some c)) (filter (\<lambda>b. sb_symbol b = s) (strategy_bars bars)) =
   filter (\<lambda>b. sb_symbol b = s) (strategy_bars (filter (known d c) bars))"
proof -
  have "filter (visible d (Some c)) (filter (\<lambda>b. sb_symbol b = s) (strategy_bars bars)) =
    filter (\<lambda>b. sb_symbol b = s) (filter (visible d (Some c)) (strategy_bars bars))"
    by (simp add: conj_commute)
  then show ?thesis by (simp only: strategy_bars_visible)
qed

text \<open>Two prepared runs that agree on everything dated up to \<open>d\<close>.\<close>

definition agree_to :: "date \<Rightarrow> datetime \<Rightarrow> prepared \<Rightarrow> prepared \<Rightarrow> bool" where
  "agree_to d c pr pr' \<longleftrightarrow> pr_strategy pr = pr_strategy pr' \<and> pr_limits pr = pr_limits pr' \<and>
     pr_dates pr = pr_dates pr' \<and> pr_symbols pr = pr_symbols pr' \<and>
     (\<forall>e\<le>d. dict_get (pr_table pr) e [] = dict_get (pr_table pr') e []) \<and>
     (\<forall>e\<le>d. filter (visible e (Some c)) (pr_strategy_bars pr) =
        filter (visible e (Some c)) (pr_strategy_bars pr')) \<and>
     (\<forall>e\<le>d. filter (visible e (Some c)) (pr_market_bars pr) =
        filter (visible e (Some c)) (pr_market_bars pr'))"

lemma trading_day_agree:
  assumes "agree_to d (er_cutoff q) pr pr'" and "pr_dates pr ! i \<le> d"
  shows "trading_day q pr st i = trading_day q pr' st i"
proof -
  define e where "e = pr_dates pr ! i"
  then have ed: "e \<le> d" using assms(2) by simp
  have same: "pr_strategy pr = pr_strategy pr'" "pr_limits pr = pr_limits pr'" "pr_dates pr = pr_dates pr'"
    "pr_symbols pr = pr_symbols pr'" "dict_get (pr_table pr) e [] = dict_get (pr_table pr') e []"
    using assms(1) ed by (auto simp: agree_to_def)
  have feat: "build_feature_snapshot (pr_strategy_bars pr) (pr_market_bars pr) s e (Some (er_cutoff q)) =
      build_feature_snapshot (pr_strategy_bars pr') (pr_market_bars pr') s e (Some (er_cutoff q))" for s
    using assms(1) ed by (subst (1 2) build_feature_visible) (simp add: agree_to_def)
  have ma: "build_ma_feature (pr_strategy_bars pr) (pr_market_bars pr) s e sw lw (Some (er_cutoff q)) =
      build_ma_feature (pr_strategy_bars pr') (pr_market_bars pr') s e sw lw (Some (er_cutoff q))" for s sw lw
    using assms(1) ed by (subst (1 2) build_ma_visible) (simp add: agree_to_def)
  have el: "eligible_on q (pr_table pr) e = eligible_on q (pr_table pr') e"
    by (simp add: eligible_on_def same(5))
  have df: "day_features q pr e = day_features q pr' e"
    using feat ma by (simp add: day_features_def same cong: strategy.case_cong)
  have ef: "eligible_features q pr e = eligible_features q pr' e"
    by (simp add: eligible_features_def el fun_eq_iff)
  have xs: "exit_step pr = exit_step pr'" unfolding exit_step_def[abs_def] same ..
  have er: "entry_request q pr = entry_request q pr'" by (simp add: entry_request_def same fun_eq_iff)
  have es: "entry_step q pr = entry_step q pr'" unfolding entry_step_def[abs_def] same er ..
  have pl: "plan_next_day q pr e n j snap s = plan_next_day q pr' e n j snap s" for n j snap s
    unfolding plan_next_day_def df ef el xs es same ..
  have mk: "mark_to_market pr e = mark_to_market pr' e" by (simp add: mark_to_market_def same fun_eq_iff)
  have ex: "execute_orders q pr e = execute_orders q pr' e"
    by (simp add: execute_orders_def same fun_eq_iff)
  have e': "pr_dates pr' ! i = e" using same(3) by (simp add: e_def)
  show ?thesis unfolding trading_day_def Let_def same(3) e' ex mk pl ..
qed

lemma days_agree:
  assumes "agree_to d (er_cutoff q) pr pr'" and "\<forall>i\<in>set is. pr_dates pr ! i \<le> d"
  shows "fold_res (trading_day q pr) st is = fold_res (trading_day q pr') st is"
  using assms(2)
proof (induction "is" arbitrary: st)
  case (Cons i "is")
  then show ?case using trading_day_agree[OF assms(1), of i st] by (auto intro: andThen_cong)
qed simp

section \<open>Prepared runs that share a past\<close>

lemma filter_causal:
  assumes "\<And>b. R b \<Longrightarrow> mb_date b \<le> d" and "filter (\<lambda>b. mb_date b \<le> d) bs = filter (\<lambda>b. mb_date b \<le> d) (er_bars q)"
  shows "filter R (causal_bars (q\<lparr>er_bars := bs\<rparr>)) = filter R (causal_bars q)"
proof -
  let ?C = "\<lambda>b. mb_date b \<le> bc_end (er_config q) \<and> available_at_or_before (mb_available_at b) (Some (er_cutoff q))"
  have f: "filter R (filter ?C xs) = filter R (filter ?C (filter (\<lambda>b. mb_date b \<le> d) xs))" for xs
    using assms(1) by (induction xs) auto
  have "filter R (filter ?C bs) = filter R (filter ?C (er_bars q))"
    by (subst (1 2) f) (simp only: assms(2))
  then show ?thesis by (simp add: causal_bars_def filter_sort)
qed

lemma prepared_agree:
  assumes pr: "prepare hc q = Inr pr" and pr': "prepare hc (q\<lparr>er_bars := bs\<rparr>) = Inr pr'"
    and past: "filter (\<lambda>b. mb_date b \<le> d) bs = filter (\<lambda>b. mb_date b \<le> d) (er_bars q)"
    and syms: "pr_symbols pr' = pr_symbols pr"
  shows "agree_to d (er_cutoff q) pr pr'"
proof -
  have market: "pr_market_bars pr = filter (\<lambda>b. sb_symbol b = benchmark (er_config q)) (pr_strategy_bars pr)"
    if "prepare hc q = Inr pr" for q pr
    using that by (auto simp: prepare_def Let_def andThen_Inr_iff split: prod.splits if_splits list.splits option.splits)
  note p = prepare_InrD[OF pr] and p' = prepare_InrD[OF pr']
  have lims: "pr_strategy pr = pr_strategy pr'" "pr_limits pr = pr_limits pr'"
  proof -
    have "check_request hc q = Inr (pr_strategy pr, pr_limits pr)" using p(1) by blast
    moreover have "check_request hc q = Inr (pr_strategy pr', pr_limits pr')"
      using p'(1) unfolding bars_frame_data by blast
    ultimately show "pr_strategy pr = pr_strategy pr'" "pr_limits pr = pr_limits pr'" by simp_all
  qed
  have tab: "dict_get (pr_table pr) e [] = dict_get (pr_table pr') e []" if "e \<le> d" for e
  proof -
    have "filter (\<lambda>b. mb_date b = e) (causal_bars (q\<lparr>er_bars := bs\<rparr>)) =
        filter (\<lambda>b. mb_date b = e) (causal_bars q)"
      by (rule filter_causal[OF _ past]) (use that in simp)
    then show ?thesis unfolding p(4) p'(4) bars_by_date_get day_table_def by simp
  qed
  have known: "filter (known e (er_cutoff q)) (causal_bars (q\<lparr>er_bars := bs\<rparr>)) =
      filter (known e (er_cutoff q)) (causal_bars q)" if "e \<le> d" for e
    by (rule filter_causal[OF _ past]) (use that in \<open>simp add: known_def\<close>)
  have sb: "filter (visible e (Some (er_cutoff q))) (pr_strategy_bars pr) =
      filter (visible e (Some (er_cutoff q))) (pr_strategy_bars pr')" if "e \<le> d" for e
    unfolding p(5) p'(5) strategy_bars_visible known[OF that] ..
  have mb: "filter (visible e (Some (er_cutoff q))) (pr_market_bars pr) =
      filter (visible e (Some (er_cutoff q))) (pr_market_bars pr')" if "e \<le> d" for e
    unfolding market[OF pr] market[OF pr'] p(5) p'(5) bars_frame_fields market_bars_visible known[OF that] ..
  have dates: "pr_dates pr = pr_dates pr'" unfolding p(2) p'(2) bars_frame ..
  show ?thesis unfolding agree_to_def
    by (intro conjI allI impI lims dates syms[symmetric] tab sb mb)
qed

section \<open>Properties\<close>

definition usable :: "engine_request \<Rightarrow> market_bar \<Rightarrow> bool" where
  "usable q b \<longleftrightarrow> mb_date b \<le> bc_end (er_config q) \<and>
     available_at_or_before (mb_available_at b) (Some (er_cutoff q))"

text \<open>
  A run sees published data only: replacing the bars by any others with the same bars dated
  within the test and published by the information cutoff leaves the whole result unchanged, fills,
  curve, series, metrics and both hashes, so later corrections cannot leak into a rerun.
\<close>

theorem engine_ignores_unpublished:
  assumes "filter (usable q) bs = filter (usable q) (er_bars q)"
  shows "engine_run fo dg (q\<lparr>er_bars := bs\<rparr>) = engine_run fo dg q"
proof (rule run_depends_on_causal)
  show "causal_bars (q\<lparr>er_bars := bs\<rparr>) = causal_bars q"
    using assms by (simp add: causal_bars_def usable_def[abs_def])
qed

lemma engine_ignores_unpublished_witness:
  "\<forall>(fo :: rat float_ops) dg. engine_run fo dg (sample_engine\<lparr>er_bars := er_bars sample_engine @
     [(sample_bar 99 90 100)\<lparr>mb_available_at := Some \<lparr>wall = 50, utcoff = Some 0\<rparr>\<rparr>]\<rparr>) =
   engine_run fo dg sample_engine"
  by (intro allI engine_ignores_unpublished) (simp add: usable_def sample_engine_def available_iff instant_def)

text \<open>
  C1: No look-ahead inside a run: if two data sets agree on the bars dated up to \<open>d\<close> and give the
  same list of candidate symbols, the loop goes through the same states, fills and plans over all
  trading days up to \<open>d\<close>, whatever the later bars are.
\<close>

theorem engine_no_lookahead:
  assumes "prepare hc q = Inr pr" and "prepare hc (q\<lparr>er_bars := bs\<rparr>) = Inr pr'"
    and "filter (\<lambda>b. mb_date b \<le> d) bs = filter (\<lambda>b. mb_date b \<le> d) (er_bars q)"
    and "pr_symbols pr' = pr_symbols pr"
    and "\<forall>i<k. pr_dates pr ! i \<le> d"
  shows "fold_res (trading_day (q\<lparr>er_bars := bs\<rparr>) pr') st [0..<k] = fold_res (trading_day q pr) st [0..<k]"
  unfolding bars_frame_day
  using days_agree[OF prepared_agree[OF assms(1-4)], of "[0..<k]" st] assms(5) by simp

definition sample_later_bar :: market_bar where
  "sample_later_bar = sample_benchmark_bar\<lparr>mb_date := 738005, mb_close := Some 77\<rparr>"

lemma sample_later_prepared:
  "\<exists>pr. prepare hc (sample_engine\<lparr>er_bars := [sample_benchmark_bar, sample_later_bar]\<rparr>) = Inr pr \<and>
     pr_symbols pr = []"
  by (simp add: prepare_def bars_frame_data bars_frame bars_frame_loop bars_frame_fields sample_engine_limits
      causal_bars_def sample_benchmark_simps sample_engine_fields sample_later_bar_def bar_order_def
      available_iff instant_def bars_by_date_def candidate_bars_def missing_primary_def bar_at_def
      dict_get_def Let_def candidate_symbols_def sorted_set_def)

lemma engine_no_lookahead_witness:
  "\<forall>hc st. \<exists>pr pr'. prepare hc sample_engine = Inr pr \<and>
     prepare hc (sample_engine\<lparr>er_bars := [sample_benchmark_bar, sample_later_bar]\<rparr>) = Inr pr' \<and>
     fold_res (trading_day (sample_engine\<lparr>er_bars := [sample_benchmark_bar, sample_later_bar]\<rparr>) pr') st [0..<1] =
     fold_res (trading_day sample_engine pr) st [0..<1]"
proof (intro allI)
  fix hc st
  obtain pr where pr: "prepare hc sample_engine = Inr pr" "pr_dates pr = [738000]" "pr_symbols pr = []"
    using sample_engine_prepared by blast
  obtain pr' where pr': "prepare hc (sample_engine\<lparr>er_bars := [sample_benchmark_bar, sample_later_bar]\<rparr>) = Inr pr'"
    "pr_symbols pr' = []" using sample_later_prepared by blast
  have f: "filter (\<lambda>b. mb_date b \<le> 738000) [sample_benchmark_bar, sample_later_bar] =
      filter (\<lambda>b. mb_date b \<le> 738000) (er_bars sample_engine)"
    by (simp add: sample_benchmark_simps sample_later_bar_def)
  have "fold_res (trading_day (sample_engine\<lparr>er_bars := [sample_benchmark_bar, sample_later_bar]\<rparr>) pr') st [0..<1] =
      fold_res (trading_day sample_engine pr) st [0..<1]"
    by (rule engine_no_lookahead[OF pr(1) pr'(1) f]) (simp_all add: pr pr'(2))
  with pr(1) pr'(1) show "\<exists>pr pr'. prepare hc sample_engine = Inr pr \<and>
     prepare hc (sample_engine\<lparr>er_bars := [sample_benchmark_bar, sample_later_bar]\<rparr>) = Inr pr' \<and>
     fold_res (trading_day (sample_engine\<lparr>er_bars := [sample_benchmark_bar, sample_later_bar]\<rparr>) pr') st [0..<1] =
     fold_res (trading_day sample_engine pr) st [0..<1]" by blast
qed

end
