(* ===== verification/Idempotency.thy ===== *)
theory Idempotency
  imports PyValue
begin

text \<open>
  The in-memory idempotency store of \<open>app/core/contracts.py\<close>, and its audit log: a write is reserved once per key,
  its response is kept, and a matching repetition gets that response. The clock is an argument of
  \<open>acquire\<close>. The lock makes each operation atomic, so runs are sequences of operations.
\<close>

record idem_request =
  ir_key :: string
  request_hash :: string
  actor_id :: string
  path :: string
  expires_at :: datetime

record idem_result =
  status_code :: int
  body :: "nat list"
  content_type :: "string option"
  headers :: "(string \<times> string) list"

record idem_store =
  requests :: "(string, idem_request) dict"
  results :: "(string, idem_result) dict"

definition empty_store :: idem_store where
  "empty_store = \<lparr>requests = [], results = []\<rparr>"

text \<open>\<open>expires_at <= now\<close> on aware datetimes compares instants.\<close>

definition expired :: "idem_request \<Rightarrow> datetime \<Rightarrow> bool" where
  "expired r now \<longleftrightarrow> dt_le (expires_at r) now"

definition same_write :: "idem_request \<Rightarrow> idem_request \<Rightarrow> bool" where
  "same_write a b \<longleftrightarrow> request_hash a = request_hash b \<and> actor_id a = actor_id b \<and> path a = path b"

definition acquire ::
    "idem_store \<Rightarrow> idem_request \<Rightarrow> datetime \<Rightarrow> (idem_result option) res \<times> idem_store" where
  "acquire s r now =
     (let reserve = (Inr None, s\<lparr>requests := dict_set (ir_key r) r (requests s)\<rparr>) in
      case map_of (requests s) (ir_key r) of
        None \<Rightarrow> reserve
      | Some existing \<Rightarrow>
          if expired existing now then reserve
          else if \<not> same_write existing r
          then (Inl (IdempotencyConflict ''Idempotency-Key was already used for another request''), s)
          else (case map_of (results s) (ir_key r) of
            None \<Rightarrow> (Inl (StateConflict ''A matching idempotent request is still in progress''), s)
          | Some x \<Rightarrow> (Inr (Some x), s)))"

text \<open>Equality of two requests as the dataclass has it: field by field.\<close>

definition same_request :: "idem_request \<Rightarrow> idem_request \<Rightarrow> bool" where
  "same_request a b \<longleftrightarrow> ir_key a = ir_key b \<and> same_write a b \<and> dt_eq (expires_at a) (expires_at b)"

definition complete :: "idem_store \<Rightarrow> idem_request \<Rightarrow> idem_result \<Rightarrow> idem_store" where
  "complete s r x =
     (case map_of (requests s) (ir_key r) of
        Some e \<Rightarrow> if same_request e r then s\<lparr>results := dict_set (ir_key r) x (results s)\<rparr> else s
      | None \<Rightarrow> s)"

text \<open>The development adapter of the audit log keeps the events in the order of the calls.\<close>

record audit_event =
  occurred_at :: datetime
  audit_actor :: "string option"
  actor_roles :: "string list"
  action :: string
  object_type :: string
  object_id :: "string option"
  request_id :: string
  audit_result :: string
  idempotency_ref :: "string option"
  before_summary :: "row option"
  after_summary :: "row option"

definition audit_append :: "audit_event list \<Rightarrow> audit_event \<Rightarrow> audit_event list" where
  "audit_append events event = events @ [event]"

section \<open>Runs\<close>

datatype idem_event = Acquire idem_request datetime | Complete idem_request idem_result

text \<open>A run of a store with the operations \<open>acq\<close> and \<open>fin\<close>.\<close>

definition request_step where
  "request_step acq fin s ev = (case ev of Acquire r now \<Rightarrow> snd (acq s r now) | Complete r x \<Rightarrow> fin s r x)"

definition request_run where
  "request_run acq fin s es = foldl (request_step acq fin) s es"

definition idem_run :: "idem_store \<Rightarrow> idem_event list \<Rightarrow> idem_store" where
  "idem_run = request_run acquire complete"

text \<open>The events up to which a reservation of \<open>r\<close> is still valid.\<close>

definition in_time :: "(idem_request \<Rightarrow> idem_request) \<Rightarrow> idem_request \<Rightarrow> idem_event list \<Rightarrow> bool" where
  "in_time kept r es \<longleftrightarrow> (\<forall>ev\<in>set es. case ev of
     Acquire r' now \<Rightarrow> (ir_key r' = ir_key r \<longrightarrow> \<not> expired (kept r) now)
   | Complete r' x \<Rightarrow> True)"

section \<open>The contract of a store\<close>

text \<open>
  \<open>held s k\<close> is the request a key is reserved for, \<open>answer s k\<close> the response stored for it,
  \<open>kept r\<close> the request as the store gives it back, and \<open>accepts e r\<close> says that a reservation of
  \<open>e\<close> takes the response of \<open>r\<close>. A key is free when it is not reserved or the reservation expired.
\<close>

definition free_key :: "idem_request option \<Rightarrow> datetime \<Rightarrow> bool" where
  "free_key h now \<longleftrightarrow> (case h of None \<Rightarrow> True | Some e \<Rightarrow> expired e now)"

locale request_store =
  fixes acq :: "'s \<Rightarrow> idem_request \<Rightarrow> datetime \<Rightarrow> (idem_result option) res \<times> 's"
    and fin :: "'s \<Rightarrow> idem_request \<Rightarrow> idem_result \<Rightarrow> 's"
    and held :: "'s \<Rightarrow> string \<Rightarrow> idem_request option"
    and answer :: "'s \<Rightarrow> string \<Rightarrow> idem_result option"
    and kept :: "idem_request \<Rightarrow> idem_request"
    and accepts :: "idem_request \<Rightarrow> idem_request \<Rightarrow> bool"
  assumes acq_held: "held (snd (acq s r now)) k =
      (if k = ir_key r \<and> free_key (held s k) now then Some (kept r) else held s k)"
    and acq_free: "free_key (held s (ir_key r)) now \<Longrightarrow> fst (acq s r now) = Inr None"
    and acq_taken: "held s (ir_key r) = Some e \<Longrightarrow> \<not> expired e now \<Longrightarrow> fst (acq s r now) =
      (if \<not> same_write e r
       then Inl (IdempotencyConflict ''Idempotency-Key was already used for another request'')
       else case answer s (ir_key r) of
         None \<Rightarrow> Inl (StateConflict ''A matching idempotent request is still in progress'')
       | Some x \<Rightarrow> Inr (Some x))"
    and acq_answer: "k \<noteq> ir_key r \<or> \<not> free_key (held s k) now \<Longrightarrow>
      answer (snd (acq s r now)) k = answer s k"
    and fin_held: "held (fin s r x) k = held s k"
    and fin_answer: "answer (fin s r x) k =
      (if k = ir_key r \<and> (\<exists>e. held s k = Some e \<and> accepts e r) then Some x else answer s k)"
    and kept_write: "same_write (kept r) r' = same_write r r'"
    and accepts_own: "accepts (kept r) r"
begin

abbreviation run :: "'s \<Rightarrow> idem_event list \<Rightarrow> 's" where
  "run \<equiv> request_run acq fin"

lemma step_keeps_reservation:
  assumes "held s (ir_key r) = Some (kept r)" and "in_time kept r [ev]"
  shows "held (request_step acq fin s ev) (ir_key r) = Some (kept r)"
  using assms by (cases ev) (auto simp: request_step_def acq_held fin_held in_time_def free_key_def)

lemma run_keeps_reservation:
  "held s (ir_key r) = Some (kept r) \<Longrightarrow> in_time kept r es \<Longrightarrow> held (run s es) (ir_key r) = Some (kept r)"
proof (induction es arbitrary: s)
  case (Cons ev es)
  have "held (request_step acq fin s ev) (ir_key r) = Some (kept r)"
    by (rule step_keeps_reservation) (use Cons.prems in \<open>simp_all add: in_time_def\<close>)
  with Cons.IH[of "request_step acq fin s ev"] Cons.prems(2) show ?case
    by (simp add: request_run_def in_time_def)
qed (simp add: request_run_def)

lemma step_keeps_result:
  assumes "held s (ir_key r) = Some (kept r)" and "answer s (ir_key r) = Some x" and "in_time kept r [ev]"
    and "\<forall>q x'. ev = Complete q x' \<longrightarrow> \<not> accepts (kept r) q"
  shows "answer (request_step acq fin s ev) (ir_key r) = Some x"
proof (cases ev)
  case (Acquire q now)
  then have "ir_key r \<noteq> ir_key q \<or> \<not> free_key (held s (ir_key r)) now"
    using assms(1,3) by (auto simp: in_time_def free_key_def)
  from acq_answer[OF this] show ?thesis using assms(2) by (simp add: request_step_def Acquire)
next
  case (Complete q y)
  then show ?thesis using assms(1,2,4) by (auto simp: request_step_def fin_answer)
qed

lemma run_keeps_result:
  assumes "held s (ir_key r) = Some (kept r)" and "answer s (ir_key r) = Some x"
    and "in_time kept r es" and "\<forall>q x'. Complete q x' \<in> set es \<longrightarrow> \<not> accepts (kept r) q"
  shows "answer (run s es) (ir_key r) = Some x"
  using assms
proof (induction es arbitrary: s)
  case (Cons ev es)
  have i: "in_time kept r [ev]" "in_time kept r es" using Cons.prems(3) by (simp_all add: in_time_def)
  have k: "held (request_step acq fin s ev) (ir_key r) = Some (kept r)"
    by (rule step_keeps_reservation[OF Cons.prems(1) i(1)])
  have x: "answer (request_step acq fin s ev) (ir_key r) = Some x"
    by (rule step_keeps_result[OF Cons.prems(1,2) i(1)]) (use Cons.prems(4) in auto)
  from Cons.IH[OF k x i(2)] Cons.prems(4) show ?case by (auto simp: request_run_def)
qed (simp add: request_run_def)

lemma reserved_once:
  assumes "free_key (held s (ir_key r)) now0" and "acq s r now0 = (out, s0)"
    and "in_time kept r (es @ [Acquire r' now])" and "ir_key r' = ir_key r"
  shows "out = Inr None \<and> fst (acq (run s0 es) r' now) \<noteq> Inr None \<and>
    (\<forall>x es1 es2. es = es1 @ Complete r x # es2 \<and> (\<forall>q x'. Complete q x' \<in> set es2 \<longrightarrow> \<not> accepts (kept r) q) \<longrightarrow>
      fst (acq (run s0 es) r' now) =
        (if same_write r r' then Inr (Some x)
         else Inl (IdempotencyConflict ''Idempotency-Key was already used for another request'')))"
proof -
  have s0: "held s0 (ir_key r) = Some (kept r)"
    using acq_held[of s r now0 "ir_key r"] assms(1,2) by simp
  have w: "in_time kept r es" and nx: "\<not> expired (kept r) now" using assms(3,4) by (auto simp: in_time_def)
  have "held (run s0 es) (ir_key r') = Some (kept r)" using run_keeps_reservation[OF s0 w] assms(4) by simp
  from acq_taken[OF this nx] have ans: "fst (acq (run s0 es) r' now) =
      (if \<not> same_write r r'
       then Inl (IdempotencyConflict ''Idempotency-Key was already used for another request'')
       else case answer (run s0 es) (ir_key r) of
         None \<Rightarrow> Inl (StateConflict ''A matching idempotent request is still in progress'')
       | Some x \<Rightarrow> Inr (Some x))"
    by (simp add: kept_write assms(4))
  have "answer (run s0 es) (ir_key r) = Some x"
    if es: "es = es1 @ Complete r x # es2" "\<forall>q x'. Complete q x' \<in> set es2 \<longrightarrow> \<not> accepts (kept r) q" for x es1 es2
  proof -
    have w1: "in_time kept r es1" and w2: "in_time kept r es2" using w by (auto simp: in_time_def es(1))
    note h = run_keeps_reservation[OF s0 w1]
    have a: "answer (fin (run s0 es1) r x) (ir_key r) = Some x" using h accepts_own by (simp add: fin_answer)
    have h': "held (fin (run s0 es1) r x) (ir_key r) = Some (kept r)" using h by (simp add: fin_held)
    have "run s0 es = run (fin (run s0 es1) r x) es2" by (simp add: request_run_def es(1) request_step_def)
    with run_keeps_result[OF h' a w2 es(2)] show ?thesis by simp
  qed
  with ans have "\<forall>x es1 es2. es = es1 @ Complete r x # es2 \<and>
      (\<forall>q x'. Complete q x' \<in> set es2 \<longrightarrow> \<not> accepts (kept r) q) \<longrightarrow>
      fst (acq (run s0 es) r' now) =
        (if same_write r r' then Inr (Some x)
         else Inl (IdempotencyConflict ''Idempotency-Key was already used for another request''))"
    by auto
  moreover have "fst (acq (run s0 es) r' now) \<noteq> Inr None" by (auto simp: ans split: option.splits)
  ultimately show ?thesis using acq_free[OF assms(1)] assms(2) by simp
qed

end

lemma acquire_requests:
  "requests (snd (acquire s r now)) =
     (if free_key (map_of (requests s) (ir_key r)) now then dict_set (ir_key r) r (requests s) else requests s)"
  by (auto simp: acquire_def free_key_def Let_def split: option.splits)

lemma acquire_results [simp]: "results (snd (acquire s r now)) = results s"
  by (auto simp: acquire_def Let_def split: option.splits)

lemma complete_requests [simp]: "requests (complete s r x) = requests s"
  by (simp add: complete_def split: option.splits)

lemma same_request_refl [simp]: "same_request r r"
  by (simp add: same_request_def same_write_def)

lemma complete_results:
  "map_of (results (complete s r x)) k =
     (if k = ir_key r \<and> (\<exists>e. map_of (requests s) k = Some e \<and> same_request e r)
      then Some x else map_of (results s) k)"
  by (auto simp: complete_def dict_simps split: option.splits)

interpretation mem_requests: request_store acquire complete "\<lambda>s. map_of (requests s)"
  "\<lambda>s. map_of (results s)" "\<lambda>r. r" same_request
  by unfold_locales
    (auto simp: acquire_requests complete_results dict_simps acquire_def free_key_def Let_def
      split: option.splits)

section \<open>Properties\<close>

text \<open>
  A write is executed at most once while its reservation is valid: after a request was reserved,
  whatever operations follow before it expires, no later request with its key is let through again;
  once it completed, a matching request gets exactly the stored response and any other one a
  conflict.
\<close>

theorem write_reserved_once:
  assumes "map_of (requests s) (ir_key r) = None" and "acquire s r now0 = (Inr None, s0)"
    and "in_time (\<lambda>q. q) r (es @ [Acquire r' now])" and "ir_key r' = ir_key r"
  shows "fst (acquire (idem_run s0 es) r' now) \<noteq> Inr None \<and>
    (\<forall>x es1 es2. es = es1 @ Complete r x # es2 \<and> (\<forall>q x'. Complete q x' \<in> set es2 \<longrightarrow> \<not> same_request r q) \<longrightarrow>
      fst (acquire (idem_run s0 es) r' now) =
        (if same_write r r' then Inr (Some x)
         else Inl (IdempotencyConflict ''Idempotency-Key was already used for another request'')))"
  using mem_requests.reserved_once[OF _ assms(2-4)] assms(1) by (simp add: free_key_def idem_run_def)

definition sample_idem :: "string \<Rightarrow> int \<Rightarrow> idem_request" where
  "sample_idem h us = \<lparr>ir_key = ''k'', request_hash = h, actor_id = ''u'', path = ''/p'',
     expires_at = \<lparr>wall = us, utcoff = Some 0\<rparr>\<rparr>"

definition sample_response :: "int \<Rightarrow> idem_result" where
  "sample_response c = \<lparr>status_code = c, body = [], content_type = None, headers = []\<rparr>"

lemma write_reserved_once_witness:
  "fst (acquire (idem_run (snd (acquire empty_store (sample_idem ''h'' 100) \<lparr>wall = 1, utcoff = Some 0\<rparr>))
     [Complete (sample_idem ''h'' 100) (sample_response 201)]) (sample_idem ''h'' 200)
     \<lparr>wall = 50, utcoff = Some 0\<rparr>) = Inr (Some (sample_response 201))"
proof -
  let ?r = "sample_idem ''h'' 100" and ?now = "\<lparr>wall = 1, utcoff = Some 0\<rparr> :: datetime"
  have a: "map_of (requests empty_store) (ir_key ?r) = None" by (simp add: empty_store_def)
  have b: "acquire empty_store ?r ?now = (Inr None, snd (acquire empty_store ?r ?now))"
    by (simp add: acquire_def empty_store_def)
  have c: "in_time (\<lambda>q. q) ?r ([Complete ?r (sample_response 201)] @ [Acquire (sample_idem ''h'' 200) \<lparr>wall = 50, utcoff = Some 0\<rparr>])"
    by (simp add: in_time_def expired_def dt_le_def instant_def sample_idem_def)
  have d: "ir_key (sample_idem ''h'' 200) = ir_key ?r" by (simp add: sample_idem_def)
  from write_reserved_once[OF a b c d] show ?thesis
    by (force simp: same_write_def sample_idem_def)
qed

end
