(* ===== verification/IsoDates.thy ===== *)
theory IsoDates
  imports PyValue
begin

text \<open>
  ISO strings: what \<open>date.fromisoformat\<close> and \<open>datetime.fromisoformat\<close> of Python 3.12 accept and
  return, on ASCII text, and the round trip with \<open>isoformat\<close>. \<open>None\<close> stands for \<open>ValueError\<close>.
\<close>

section \<open>Parsing\<close>

text \<open>A field of exactly \<open>n\<close> digits at the front of a text.\<close>

definition take_digits :: "nat \<Rightarrow> string \<Rightarrow> (nat \<times> string) option" where
  "take_digits n s =
     (if n \<le> length s \<and> list_all is_digit (take n s)
      then Some (digits_value (take n s), drop n s) else None)"

definition days_in_month :: "int \<Rightarrow> int \<Rightarrow> int" where
  "days_in_month y m =
     (if m = 2 then (if is_leap y then 29 else 28) else if m \<in> {4, 6, 9, 11} then 30 else 31)"

definition max_ordinal :: date where "max_ordinal = 3652059"

text \<open>\<open>date(y, m, d)\<close>\<close>

definition make_date :: "int \<Rightarrow> int \<Rightarrow> int \<Rightarrow> date option" where
  "make_date y m d =
     (if 1 \<le> y \<and> y \<le> 9999 \<and> 1 \<le> m \<and> m \<le> 12 \<and> 1 \<le> d \<and> d \<le> days_in_month y m
      then Some (ymd_to_ord (y, m, d)) else None)"

text \<open>Week \<open>w\<close> and weekday \<open>d\<close> (Monday is 1) of an ISO year.\<close>

definition iso_week_date :: "int \<Rightarrow> int \<Rightarrow> int \<Rightarrow> date option" where
  "iso_week_date y w d =
     (let first = days_before_year y + 1; wd = first mod 7; since_monday = (first + 6) mod 7;
          monday = first - since_monday + (if 3 < since_monday then 7 else 0);
          n = monday + (w - 1) * 7 + (d - 1)
      in if 1 \<le> y \<and> y \<le> 9999 \<and>
            (1 \<le> w \<and> w \<le> 52 \<or> w = 53 \<and> (wd = 4 \<or> wd = 3 \<and> is_leap y)) \<and>
            1 \<le> d \<and> d \<le> 7 \<and> 1 \<le> n \<and> n \<le> max_ordinal
         then Some n else None)"

definition skip_dash :: "bool \<Rightarrow> string \<Rightarrow> string option" where
  "skip_dash sep s = (if \<not> sep then Some s else case s of
     c # r \<Rightarrow> if c = CHR ''-'' then Some r else None | [] \<Rightarrow> None)"

definition parse_week :: "int \<Rightarrow> bool \<Rightarrow> string \<Rightarrow> date option" where
  "parse_week y sep s = (case take_digits 2 s of
     None \<Rightarrow> None
   | Some (w, r) \<Rightarrow>
       if r = [] then iso_week_date y (int w) 1
       else (case skip_dash sep r of
         None \<Rightarrow> None
       | Some r' \<Rightarrow> (case take_digits 1 r' of
           None \<Rightarrow> None | Some (d, _) \<Rightarrow> iso_week_date y (int w) (int d))))"

definition parse_month_day :: "int \<Rightarrow> bool \<Rightarrow> string \<Rightarrow> date option" where
  "parse_month_day y sep s = (case take_digits 2 s of
     None \<Rightarrow> None
   | Some (m, r) \<Rightarrow> (case skip_dash sep r of
       None \<Rightarrow> None
     | Some r' \<Rightarrow> (case take_digits 2 r' of
         None \<Rightarrow> None | Some (d, _) \<Rightarrow> make_date y (int m) (int d))))"

definition date_fromisoformat :: "string \<Rightarrow> date option" where
  "date_fromisoformat s =
     (if length s \<notin> {7, 8, 10} then None
      else case take_digits 4 s of
        None \<Rightarrow> None
      | Some (y, r) \<Rightarrow>
          let sep = starts_with ''-'' r; r' = (if sep then tl r else r)
          in if starts_with ''W'' r' then parse_week (int y) sep (tl r')
             else parse_month_day (int y) sep r')"

text \<open>Where the date part of a datetime text ends.\<close>

definition char_at :: "string \<Rightarrow> nat \<Rightarrow> char \<Rightarrow> bool" where
  "char_at s i c \<longleftrightarrow> i < length s \<and> s ! i = c"

definition separator_at :: "string \<Rightarrow> nat option" where
  "separator_at s =
     (if length s = 7 then Some 7
      else if char_at s 4 (CHR ''-'') then
        (if char_at s 5 (CHR ''W'') then
           (if char_at s 8 (CHR ''-'') then
              (if length s = 9 then None
               else if 10 < length s \<and> is_digit (s ! 10) then Some 8 else Some 10)
            else Some 8)
         else Some 10)
      else if char_at s 4 (CHR ''W'') then
        (let i = 7 + length (takeWhile is_digit (drop 7 s))
         in if i < 9 then Some i else if even i then Some 7 else Some 8)
      else Some 8)"

text \<open>
  Up to \<open>n\<close> two-digit fields of a time, with colons between all or none; then \<open>Inl\<close> whether one
  more character is left, or \<open>Inr\<close> the text of a fraction.
\<close>

fun scan_clock :: "nat \<Rightarrow> bool \<Rightarrow> bool \<Rightarrow> string \<Rightarrow> (nat list \<times> (bool + string)) option" where
  "scan_clock 0 first sep s = Some ([], Inr s)"
| "scan_clock (Suc n) first sep s = (case take_digits 2 s of
     None \<Rightarrow> None
   | Some (v, r) \<Rightarrow>
       let colons = (if first then starts_with '':'' r else sep) in
       if length r \<le> 1 then Some ([v], Inl (r \<noteq> []))
       else if colons \<and> hd r = CHR '':'' then
         map_option (\<lambda>(vs, e). (v # vs, e)) (scan_clock n False colons (tl r))
       else if hd r = CHR ''.'' \<or> hd r = CHR '','' then Some ([v], Inr (tl r))
       else if \<not> colons then map_option (\<lambda>(vs, e). (v # vs, e)) (scan_clock n False colons r)
       else None)"

text \<open>Seconds, microseconds, and whether text is left over.\<close>

definition parse_clock :: "string \<Rightarrow> ((nat list \<times> int) \<times> bool) option" where
  "parse_clock s = (case scan_clock 3 True False s of
     None \<Rightarrow> None
   | Some (vs, e) \<Rightarrow>
       let fields = take 3 (vs @ [0, 0, 0]) in
       (case e of
          Inl left \<Rightarrow> Some ((fields, 0), left)
        | Inr txt \<Rightarrow> (case take_digits (min 6 (length txt)) txt of
            None \<Rightarrow> None
          | Some (us, rest) \<Rightarrow>
              Some ((fields, int us * 10 ^ (6 - min 6 (length txt))), dropWhile is_digit rest \<noteq> []))))"

definition clock_seconds :: "nat list \<Rightarrow> int" where
  "clock_seconds fs = (int (fs ! 0) * 60 + int (fs ! 1)) * 60 + int (fs ! 2)"

text \<open>The offset of a time zone text after its sign: strictly within a day.\<close>

definition parse_offset :: "bool \<Rightarrow> string \<Rightarrow> int option" where
  "parse_offset neg s = (case parse_clock s of
     None \<Rightarrow> None
   | Some ((fs, us), left) \<Rightarrow>
       if left then None
       else let secs = clock_seconds fs;
                off = (if secs = 0 then 0 else secs * 1000000 + us)
         in if off < day_us then Some (if neg then - off else off) else None)"

definition parse_time :: "string \<Rightarrow> (int \<times> int option) option" where
  "parse_time s =
     (let body = takeWhile (\<lambda>c. c \<notin> {CHR ''+'', CHR ''-'', CHR ''Z''}) s; tz = drop (length body) s
      in case parse_clock body of
           None \<Rightarrow> None
         | Some ((fs, us), left) \<Rightarrow>
             (let zone = (case tz of
                  [] \<Rightarrow> if left then None else Some None
                | c # r \<Rightarrow>
                    if c = CHR ''Z'' then (if r = [] then Some (Some 0) else None)
                    else map_option Some (parse_offset (c = CHR ''-'') r))
              in case zone of
                   None \<Rightarrow> None
                 | Some off \<Rightarrow>
                     if fs ! 0 < 24 \<and> fs ! 1 < 60 \<and> fs ! 2 < 60
                     then Some (clock_seconds fs * 1000000 + us, off) else None))"

definition datetime_fromisoformat :: "string \<Rightarrow> datetime option" where
  "datetime_fromisoformat s =
     (if length s < 7 then None
      else case separator_at s of
        None \<Rightarrow> None
      | Some k \<Rightarrow> (case date_fromisoformat (take k s) of
          None \<Rightarrow> None
        | Some d \<Rightarrow>
            if length s \<le> k then Some \<lparr>wall = d * day_us, utcoff = None\<rparr>
            else (case parse_time (drop (Suc k) s) of
              None \<Rightarrow> None | Some (us, off) \<Rightarrow> Some \<lparr>wall = d * day_us + us, utcoff = off\<rparr>)))"

lemma iso_examples:
  "date_fromisoformat ''2024-02-29'' = Some 738945" "date_fromisoformat ''20230229'' = None"
  "date_fromisoformat ''2020-W53-5'' = date_fromisoformat ''2021-01-01''"
  "date_fromisoformat ''2024-1-01'' = None"
  by code_simp+

section \<open>Numbers as text\<close>

lemma is_digit_digit_char: "k < 10 \<Longrightarrow> is_digit (digit_char k)"
  by (simp add: is_digit_def digit_char_def)

lemma digits_value_snoc: "digits_value (s @ [c]) = 10 * digits_value s + (of_char c - 48)"
  by (simp add: digits_value_def)

lemma of_char_digit_char: "k < 10 \<Longrightarrow> (of_char (digit_char k) :: nat) = 48 + k"
  by (simp add: digit_char_def)

lemma nat_str_small: "n < 10 \<Longrightarrow> nat_str n = [digit_char n]"
  by (subst nat_str.simps) simp

lemma nat_str_step: "10 \<le> n \<Longrightarrow> nat_str n = nat_str (n div 10) @ [digit_char (n mod 10)]"
  by (subst nat_str.simps) simp

lemma nat_str_digits: "list_all is_digit (nat_str n)"
proof (induction n rule: nat_str.induct)
  case (1 n)
  show ?case
  proof (cases "n < 10")
    case False
    then show ?thesis using 1 by (simp add: nat_str_step is_digit_digit_char)
  qed (simp add: nat_str_small is_digit_digit_char)
qed

lemma digits_value_nat_str: "digits_value (nat_str n) = n"
proof (induction n rule: nat_str.induct)
  case (1 n)
  show ?case
  proof (cases "n < 10")
    case True
    then show ?thesis by (simp add: nat_str_small digits_value_def of_char_digit_char)
  next
    case False
    then show ?thesis using 1
      by (simp add: nat_str_step digits_value_snoc of_char_digit_char)
  qed
qed

lemma length_nat_str: "n < 10 ^ w \<Longrightarrow> 0 < w \<Longrightarrow> length (nat_str n) \<le> w"
proof (induction w arbitrary: n)
  case (Suc w)
  show ?case
  proof (cases "n < 10")
    case False
    then have "0 < w" using Suc.prems(1) by (cases w) auto
    then have "length (nat_str (n div 10)) \<le> w"
      using Suc.prems(1) by (intro Suc.IH) (simp_all add: less_mult_imp_div_less)
    then show ?thesis using False by (simp add: nat_str_step)
  qed (simp add: nat_str_small)
qed simp

lemma pad0_digits: "list_all is_digit s \<Longrightarrow> list_all is_digit (pad0 w s)"
  by (auto simp: pad0_def list_all_iff is_digit_def)

lemma digits_value_pad0 [simp]: "digits_value (pad0 w s) = digits_value s"
proof -
  have "digits_value (replicate k CHR ''0'' @ s) = digits_value s" for k
    by (induction k) (simp_all add: digits_value_def)
  then show ?thesis by (simp add: pad0_def)
qed

lemma length_pad0 [simp]: "length s \<le> w \<Longrightarrow> length (pad0 w s) = w"
  by (simp add: pad0_def)

text \<open>A padded field is read back as it was written.\<close>

definition padded :: "nat \<Rightarrow> int \<Rightarrow> string" where
  "padded w k = pad0 w (int_str k)"

lemma padded_field:
  assumes "0 \<le> k" and "k < 10 ^ w" and "0 < w"
  shows "length (padded w k) = w" and "list_all is_digit (padded w k)"
    and "take_digits w (padded w k @ r) = Some (nat k, r)"
proof -
  have "nat k < 10 ^ w" using assms(1,2) by (simp add: nat_less_iff)
  then have l: "length (nat_str (nat k)) \<le> w" using assms(3) by (rule length_nat_str)
  have p: "padded w k = pad0 w (nat_str (nat k))" using assms(1) by (simp add: padded_def int_str_def)
  show len: "length (padded w k) = w" using l by (simp add: p)
  show dig: "list_all is_digit (padded w k)" by (simp add: p pad0_digits nat_str_digits)
  have "digits_value (padded w k) = nat k" by (simp add: p digits_value_nat_str)
  then show "take_digits w (padded w k @ r) = Some (nat k, r)"
    using len dig by (simp add: take_digits_def)
qed

section \<open>The round trip\<close>

definition month_span :: "bool \<Rightarrow> int \<Rightarrow> int" where
  "month_span leap m = (if m = 2 then (if leap then 29 else 28) else if m \<in> {4, 6, 9, 11} then 30 else 31)"

lemma month_at_bounds:
  assumes "month_at leap n = k" and "0 \<le> n" and "n < (if leap then 366 else 365)"
  shows "1 \<le> k \<and> k \<le> 12 \<and> days_before_month leap k \<le> n \<and> n < days_before_month leap k + month_span leap k"
proof (cases leap)
  case True
  with assms show ?thesis
    unfolding month_at_def by (auto simp: days_before_month_def month_span_def split: if_splits)
next
  case False
  with assms show ?thesis
    unfolding month_at_def by (auto simp: days_before_month_def month_span_def split: if_splits)
qed

lemma ord_to_ymd_range:
  assumes "1 \<le> n" and "n \<le> max_ordinal"
  shows "case ord_to_ymd n of (y, m, d) \<Rightarrow>
    1 \<le> y \<and> y \<le> 9999 \<and> 1 \<le> m \<and> m \<le> 12 \<and> 1 \<le> d \<and> d \<le> days_in_month y m"
proof -
  define n400 r400 where "n400 = (n - 1) div 146097" and "r400 = (n - 1) mod 146097"
  define n100 r100 where "n100 = r400 div 36524" and "r100 = r400 mod 36524"
  define n4 r4 where "n4 = r100 div 1461" and "r4 = r100 mod 1461"
  define n1 r where "n1 = r4 div 365" and "r = r4 mod 365"
  note defs = n400_def r400_def n100_def r100_def n4_def r4_def n1_def r_def
  have rng: "0 \<le> n100" "0 \<le> n4" "n4 \<le> 24" "0 \<le> n1" "0 \<le> r" "r < 365"
    "0 \<le> r400" "r400 < 146097" "0 \<le> r100" "r100 < 36524" "0 \<le> r4" "r4 < 1461" "0 \<le> n400"
    using assms(1) unfolding defs by (auto simp: div_int_pos_iff intro: pos_mod_sign pos_mod_bound)
  have e: "n - 1 = n400 * 146097 + r400" "r400 = n100 * 36524 + r100" "r100 = n4 * 1461 + r4"
    "r4 = n1 * 365 + r"
    unfolding defs by simp_all
  have up: "n100 \<le> 4" "n1 \<le> 4" using rng e by linarith+
  let ?y = "n400 * 400 + 1 + n100 * 100 + n4 * 4 + n1"
  have y: "?y \<le> 9999 \<or> (n1 = 4 \<or> n100 = 4) \<and> ?y \<le> 10000"
    using rng e up assms(2) unfolding max_ordinal_def by linarith
  show ?thesis
  proof (cases "n1 = 4 \<or> n100 = 4")
    case True
    then have "ord_to_ymd n = (?y - 1, 12, 31)"
      unfolding ord_to_ymd_def Let_def defs [symmetric] by simp
    moreover have "2 \<le> ?y" using True rng by linarith
    ultimately show ?thesis using y by (auto simp: days_in_month_def)
  next
    case False
    let ?l = "n1 = 3 \<and> (n4 \<noteq> 24 \<or> n100 = 3)"
    have o: "ord_to_ymd n = (?y, month_at ?l r, r - days_before_month ?l (month_at ?l r) + 1)"
      using False unfolding ord_to_ymd_def Let_def defs [symmetric] by simp
    have leap: "is_leap ?y = ?l"
      using year_days(2)[of n100 n4 n1 n400] False rng up by simp
    have dim: "days_in_month ?y m = month_span ?l m" for m
      unfolding days_in_month_def month_span_def leap by simp
    have "r < (if ?l then 366 else 365)" using rng(6) by simp
    from month_at_bounds[OF refl rng(5) this]
    have "1 \<le> month_at ?l r \<and> month_at ?l r \<le> 12 \<and>
        1 \<le> r - days_before_month ?l (month_at ?l r) + 1 \<and>
        r - days_before_month ?l (month_at ?l r) + 1 \<le> days_in_month ?y (month_at ?l r)"
      unfolding dim by linarith
    moreover have "1 \<le> ?y" using rng by linarith
    ultimately show ?thesis using y False by (simp add: o)
  qed
qed

lemma isoformat_fields:
  assumes "1 \<le> n" and "n \<le> max_ordinal" and "ord_to_ymd n = (y, m, d)"
  shows "isoformat n = padded 4 y @ ''-'' @ padded 2 m @ ''-'' @ padded 2 d"
    and "take_digits 4 (isoformat n) = Some (nat y, ''-'' @ padded 2 m @ ''-'' @ padded 2 d)"
    and "make_date y m d = Some n" and "length (isoformat n) = 10"
    and "0 \<le> m" "m < 100" "0 \<le> d" "d < 100" "0 \<le> y"
proof -
  have r: "1 \<le> y" "y \<le> 9999" "1 \<le> m" "m \<le> 12" "1 \<le> d" "d \<le> days_in_month y m"
    using ord_to_ymd_range[OF assms(1,2)] assms(3) by auto
  then have "d \<le> 31" by (auto simp: days_in_month_def split: if_splits)
  with r show b: "0 \<le> m" "m < 100" "0 \<le> d" "d < 100" "0 \<le> y" by auto
  show i: "isoformat n = padded 4 y @ ''-'' @ padded 2 m @ ''-'' @ padded 2 d"
    by (simp add: isoformat_def assms(3) padded_def)
  show "take_digits 4 (isoformat n) = Some (nat y, ''-'' @ padded 2 m @ ''-'' @ padded 2 d)"
    unfolding i by (rule padded_field(3)) (use r in simp_all)
  show "make_date y m d = Some n"
    using r ymd_to_ord_of_ord[of n] assms(3) by (simp add: make_date_def)
  show "length (isoformat n) = 10"
    unfolding i using padded_field(1)[of y 4] padded_field(1)[of m 2] padded_field(1)[of d 2] r b by simp
qed

lemma date_isoformat_round_trip:
  assumes "1 \<le> n" and "n \<le> max_ordinal"
  shows "date_fromisoformat (isoformat n) = Some n"
proof -
  obtain y m d where o: "ord_to_ymd n = (y, m, d)" by (cases "ord_to_ymd n") auto
  note f = isoformat_fields[OF assms o]
  have nw: "\<not> starts_with ''W'' (padded 2 m @ ''-'' @ padded 2 d)"
  proof
    assume "starts_with ''W'' (padded 2 m @ ''-'' @ padded 2 d)"
    moreover have "length (padded 2 m) = 2" "list_all is_digit (padded 2 m)"
      using f(5,6) padded_field(1,2)[of m 2] by simp_all
    ultimately have "is_digit (CHR ''W'')"
      by (cases "padded 2 m") (auto simp: starts_with_def)
    then show False by (simp add: is_digit_def)
  qed
  have "parse_month_day (int (nat y)) True (padded 2 m @ ''-'' @ padded 2 d) = make_date y m d"
    using padded_field(3)[of m 2 "''-'' @ padded 2 d"] padded_field(3)[of d 2 "[]"] f(5-9)
    by (simp add: parse_month_day_def skip_dash_def)
  moreover have "starts_with ''-'' (''-'' @ s)" for s by (simp add: starts_with_def)
  ultimately show ?thesis
    using f(2,3,4) nw by (simp add: date_fromisoformat_def)
qed

lemma isoformat_chars:
  assumes "1 \<le> n" and "n \<le> max_ordinal"
  shows "list_all (\<lambda>c. is_digit c \<or> c = CHR ''-'') (isoformat n)"
proof -
  obtain y m d where o: "ord_to_ymd n = (y, m, d)" by (cases "ord_to_ymd n") auto
  have "list_all (\<lambda>c. is_digit c \<or> c = CHR ''-'') (padded w k)" if "0 \<le> k" for w k
  proof -
    have "list_all is_digit (padded w k)"
      using that by (simp add: padded_def int_str_def pad0_digits nat_str_digits)
    then show ?thesis by (rule list.pred_mono_strong) simp
  qed
  then show ?thesis
    unfolding isoformat_fields(1)[OF assms o] using isoformat_fields(5,7,9)[OF assms o] by simp
qed

lemma isoformat_inject:
  assumes "1 \<le> a" "a \<le> max_ordinal" "1 \<le> b" "b \<le> max_ordinal" "isoformat a = isoformat b"
  shows "a = b"
proof -
  have "Some a = date_fromisoformat (isoformat b)"
    by (simp only: assms(5) [symmetric] date_isoformat_round_trip[OF assms(1,2)])
  then show ?thesis by (simp only: date_isoformat_round_trip[OF assms(3,4)] option.inject)
qed

end
