(* ===== verification/JobRuns.thy ===== *)
theory JobRuns
  imports Idempotency IsoDates
begin

text \<open>
  Job runs (\<open>app/jobs/idempotency.py\<close>): the record of one attempt, the stable task keys and what is
  read back from them, the classification of errors, and the in-memory store. A run id
  (\<open>uuid4\<close>) and the clock are arguments of the operations that draw them; \<open>Any\<close> values are of an
  arbitrary type, with \<open>None\<close> for Python's. Each operation holds the lock, so it is atomic.
\<close>

datatype job_status = Queued | InProgress | Succeeded | Failed

definition status_name :: "job_status \<Rightarrow> string" where
  "status_name st = (case st of
     Queued \<Rightarrow> ''queued'' | InProgress \<Rightarrow> ''running'' | Succeeded \<Rightarrow> ''succeeded'' | Failed \<Rightarrow> ''failed'')"

record 'v job_run =
  run_id :: string
  job_key :: string
  job_kind :: string
  business_date :: date
  run_number :: int
  attempt :: int
  job_phase :: string
  job_status :: job_status
  error_summary :: "string option"
  job_value :: "'v option"
  started_at :: datetime
  finished_at :: "datetime option"

record 'v job_result =
  result_status :: job_status
  result_key :: string
  result_date :: date
  result_run_id :: string
  result_run_number :: int
  result_attempt :: int
  result_phase :: string
  result_value :: "'v option"
  replayed :: bool

section \<open>Task keys\<close>

definition make_idempotency_key :: "string \<Rightarrow> date \<Rightarrow> string option \<Rightarrow> string" where
  "make_idempotency_key kind day scope =
     (let base = kind @ '':'' @ isoformat day in
      case scope of None \<Rightarrow> base | Some s \<Rightarrow> if s = [] then base else base @ '':'' @ s)"

definition provider_from_task_key :: "string \<Rightarrow> string option" where
  "provider_from_task_key key =
     (let parts = split_on (CHR '':'') key in
      if length parts \<noteq> 3 \<or> parts ! 0 \<noteq> ''data-import'' then None
      else let provider_scope = rsplit1 (CHR ''-'') (parts ! 2) in
        if length provider_scope \<noteq> 2 \<or> provider_scope ! 0 \<notin> {''ifind'', ''tushare''} then None
        else Some (provider_scope ! 0))"

definition scope_from_task_key :: "string \<Rightarrow> string option" where
  "scope_from_task_key key =
     (let parts = split_on (CHR '':'') key in
      if length parts \<noteq> 3 \<or> parts ! 0 \<noteq> ''data-import'' then None
      else let provider_scope = rsplit1 (CHR ''-'') (parts ! 2) in
        if length provider_scope = 2 \<and> provider_scope ! 1 \<in> {''pilot'', ''full''}
        then Some (provider_scope ! 1) else None)"

section \<open>Errors of an operation\<close>

text \<open>
  A raised exception: the name of its class, the names of that class and its bases (what
  \<open>isinstance\<close> looks through), and its text \<open>str(exc)\<close>.
\<close>

record raised =
  type_name :: string
  class_names :: "string list"
  exc_text :: string

definition is_retryable :: "raised \<Rightarrow> bool" where
  "is_retryable e \<longleftrightarrow> (\<exists>c\<in>set (class_names e). c \<in> {''DependencyError'', ''ConnectionError'', ''TimeoutError''})"

definition summarize_error :: "raised \<Rightarrow> string" where
  "summarize_error e =
     (let message = strip (map (\<lambda>c. if c = CHR 0x0A then CHR '' '' else c) (exc_text e))
      in type_name e @ '': '' @ take 240 message)"

definition retryable_error_summary :: "string option \<Rightarrow> bool" where
  "retryable_error_summary summary = (case summary of
     None \<Rightarrow> False
   | Some s \<Rightarrow> s \<noteq> [] \<and>
       (starts_with ''DependencyError:'' s \<or> starts_with ''ConnectionError:'' s \<or> starts_with ''TimeoutError:'' s))"

section \<open>The in-memory store\<close>

type_synonym 'v job_records = "'v job_run list"

definition latest :: "'v job_records \<Rightarrow> string \<Rightarrow> 'v job_run option" where
  "latest rs key = find_last (\<lambda>r. job_key r = key) rs"

definition get_run :: "'v job_records \<Rightarrow> string \<Rightarrow> 'v job_run option" where
  "get_run rs i = find_last (\<lambda>r. run_id r = i) rs"

definition page_filter :: "string option \<Rightarrow> string option \<Rightarrow> date option \<Rightarrow> 'v job_run \<Rightarrow> bool" where
  "page_filter provider status day r \<longleftrightarrow>
     (case status of None \<Rightarrow> True | Some s \<Rightarrow> s = [] \<or> status_name (job_status r) = lower s) \<and>
     (case day of None \<Rightarrow> True | Some d \<Rightarrow> business_date r = d) \<and>
     (case provider of None \<Rightarrow> True
      | Some p \<Rightarrow> p = [] \<or> provider_from_task_key (job_key r) = Some (lower p))"

definition page_runs ::
    "'v job_records \<Rightarrow> int \<Rightarrow> int \<Rightarrow> string option \<Rightarrow> string option \<Rightarrow> date option \<Rightarrow> 'v job_run list \<times> nat" where
  "page_runs rs page page_size provider status day =
     (let records = filter (page_filter provider status day) (rev rs);
          start = (page - 1) * page_size
      in (slice_between start (start + page_size) records, length records))"

definition queued_run ::
    "'v job_run option \<Rightarrow> string \<Rightarrow> date \<Rightarrow> string \<Rightarrow> string \<Rightarrow> 'v option \<Rightarrow> string \<Rightarrow> datetime \<Rightarrow> 'v job_run" where
  "queued_run previous kind day key phase value uuid now =
     \<lparr>run_id = uuid, job_key = key, job_kind = kind, business_date = day,
      run_number = (case previous of None \<Rightarrow> 1 | Some p \<Rightarrow> run_number p + 1),
      attempt = (case previous of None \<Rightarrow> 1 | Some p \<Rightarrow> attempt p + 1),
      job_phase = phase, job_status = Queued, error_summary = None, job_value = value,
      started_at = now, finished_at = None\<rparr>"

definition reserve_queued_owned ::
    "'v job_records \<Rightarrow> string \<Rightarrow> date \<Rightarrow> string \<Rightarrow> string \<Rightarrow> 'v option \<Rightarrow> bool \<Rightarrow> string \<Rightarrow> datetime
      \<Rightarrow> ('v job_run \<times> bool) res \<times> 'v job_records" where
  "reserve_queued_owned rs kind day key phase value retry_failed uuid now =
     (let previous = latest rs key; r = queued_run previous kind day key phase value uuid now
      in case previous of
           None \<Rightarrow> (Inr (r, True), rs @ [r])
         | Some p \<Rightarrow>
             if \<not> retry_failed \<or> job_status p \<noteq> Failed then (Inr (p, False), rs)
             else if job_status p \<noteq> Failed
             then (Inl (StateConflict ''Only failed jobs can be queued for retry''), rs)
             else (Inr (r, True), rs @ [r]))"

definition reserve_queued where
  "reserve_queued rs kind day key phase value retry_failed uuid now =
     (case reserve_queued_owned rs kind day key phase value retry_failed uuid now of
        (out, rs') \<Rightarrow> (andThen out (\<lambda>x. Inr (fst x)), rs'))"

text \<open>\<open>self.records.index(previous)\<close> finds the first record equal to it, field by field.\<close>

definition same_run :: "'v job_run \<Rightarrow> 'v job_run \<Rightarrow> bool" where
  "same_run a b \<longleftrightarrow>
     a\<lparr>started_at := started_at b, finished_at := finished_at b\<rparr> = b \<and>
     dt_eq (started_at a) (started_at b) \<and>
     (case (finished_at a, finished_at b) of
        (None, None) \<Rightarrow> True | (Some x, Some y) \<Rightarrow> dt_eq x y | _ \<Rightarrow> False)"

definition store_over :: "'v job_run \<Rightarrow> 'v job_run \<Rightarrow> 'v job_records \<Rightarrow> 'v job_records" where
  "store_over previous r rs = update_first (same_run previous) r rs"

definition claim_queued ::
    "'v job_records \<Rightarrow> string \<Rightarrow> string \<Rightarrow> datetime \<Rightarrow> ('v job_run option) res \<times> 'v job_records" where
  "claim_queued rs key phase now =
     (case latest rs key of
        None \<Rightarrow> (Inr None, rs)
      | Some p \<Rightarrow>
          if job_status p = InProgress then (Inl (StateConflict ''A matching job is already running''), rs)
          else if job_status p \<noteq> Queued then (Inr None, rs)
          else let claimed = p\<lparr>job_status := InProgress, job_phase := phase, started_at := now,
                 error_summary := None, finished_at := None\<rparr>
            in (Inr (Some claimed), store_over p claimed rs))"

definition claim_queued_for_requeue ::
    "'v job_records \<Rightarrow> string \<Rightarrow> datetime \<Rightarrow> datetime \<Rightarrow> ('v job_run \<times> bool) res \<times> 'v job_records" where
  "claim_queued_for_requeue rs i expected_started_at now =
     (case get_run rs i of
        None \<Rightarrow> (Inl (StateConflict ''The requested queued job no longer exists''), rs)
      | Some p \<Rightarrow>
          if job_status p \<noteq> Queued then (Inr (p, False), rs)
          else if \<not> dt_eq (started_at p) expected_started_at then (Inr (p, False), rs)
          else let claimed = p\<lparr>job_phase := ''requeueing'', started_at := now,
                 error_summary := None, finished_at := None\<rparr>
            in (Inr (claimed, True), store_over p claimed rs))"

definition mark_queued :: "'v job_records \<Rightarrow> string \<Rightarrow> string \<Rightarrow> 'v job_run option \<times> 'v job_records" where
  "mark_queued rs i phase =
     (case get_run rs i of
        None \<Rightarrow> (None, rs)
      | Some r \<Rightarrow>
          if job_status r = Queued
          then (Some (r\<lparr>job_phase := phase\<rparr>), update_last (\<lambda>x. run_id x = i) (r\<lparr>job_phase := phase\<rparr>) rs)
          else (Some r, rs))"

definition append_run :: "'v job_records \<Rightarrow> 'v job_run \<Rightarrow> 'v job_records" where
  "append_run rs r = rs @ [r]"

definition replace_run :: "'v job_records \<Rightarrow> 'v job_run \<Rightarrow> unit res \<times> 'v job_records" where
  "replace_run rs r =
     (if \<exists>x\<in>set rs. run_id x = run_id r
      then (Inr (), update_last (\<lambda>x. run_id x = run_id r) r rs)
      else (Inl (KeyError (run_id r)), rs))"

section \<open>Keys, pages and error summaries\<close>

definition scope_text :: "string option \<Rightarrow> string" where
  "scope_text scope = (case scope of None \<Rightarrow> [] | Some s \<Rightarrow> s)"

lemma key_shape:
  "make_idempotency_key kind day scope =
     kind @ CHR '':'' # isoformat day @ (if scope_text scope = [] then [] else CHR '':'' # scope_text scope)"
  by (simp add: make_idempotency_key_def scope_text_def Let_def split: option.splits)

lemma isoformat_no_colon:
  assumes "1 \<le> d" and "d \<le> max_ordinal"
  shows "CHR '':'' \<notin> set (isoformat d)"
  using isoformat_chars[OF assms] by (auto simp: list_all_iff is_digit_def)

lemma length_isoformat:
  assumes "1 \<le> d" and "d \<le> max_ordinal"
  shows "length (isoformat d) = 10"
proof -
  obtain y m dd where "ord_to_ymd d = (y, m, dd)" by (cases "ord_to_ymd d") auto
  from isoformat_fields(4)[OF assms this] show ?thesis .
qed

text \<open>
  C20: A task key determines its job: two keys are equal only for the same job kind, business date and
  scope (an empty scope counts as none), and the provider and the scope of an import are read back
  from its key.
\<close>

theorem task_key_round_trip:
  assumes "1 \<le> d" "d \<le> max_ordinal" "1 \<le> d'" "d' \<le> max_ordinal"
    and "CHR '':'' \<notin> set kind" "CHR '':'' \<notin> set kind'"
    and "provider \<in> {''ifind'', ''tushare''}" and "batch \<in> {''pilot'', ''full''}"
    and "key = make_idempotency_key ''data-import'' d (Some (provider @ ''-'' @ batch))"
  shows "(make_idempotency_key kind d scope = make_idempotency_key kind' d' scope' \<longleftrightarrow>
      kind = kind' \<and> d = d' \<and> scope_text scope = scope_text scope') \<and>
    provider_from_task_key key = Some provider \<and> scope_from_task_key key = Some batch"
proof -
  have "length (isoformat d) = length (isoformat d')"
    using length_isoformat[OF assms(1,2)] length_isoformat[OF assms(3,4)] by simp
  then have inj: "make_idempotency_key kind d scope = make_idempotency_key kind' d' scope' \<longleftrightarrow>
      kind = kind' \<and> d = d' \<and> scope_text scope = scope_text scope'"
    using isoformat_inject[OF assms(1-4)]
    by (auto simp: key_shape sep_cancel[OF assms(5,6)] split: if_splits)
  have k: "key = ''data-import'' @ CHR '':'' # isoformat d @ CHR '':'' # provider @ CHR ''-'' # batch"
    by (simp add: assms(9) key_shape scope_text_def)
  have tail: "CHR '':'' \<notin> set (provider @ CHR ''-'' # batch)" using assms(7,8) by auto
  have "split_on (CHR '':'') (isoformat d @ CHR '':'' # provider @ CHR ''-'' # batch) =
      [isoformat d, provider @ CHR ''-'' # batch]"
    by (simp only: split_on_append[OF isoformat_no_colon[OF assms(1,2)]] split_on_no_sep[OF tail])
  moreover have head: "CHR '':'' \<notin> set ''data-import''" by simp
  ultimately have "split_on (CHR '':'') key = [''data-import'', isoformat d, provider @ CHR ''-'' # batch]"
    unfolding k by (simp only: split_on_append[OF head])
  moreover have "rsplit1 (CHR ''-'') (provider @ CHR ''-'' # batch) = [provider, batch]"
    by (rule rsplit1_append) (use assms(8) in auto)
  ultimately show ?thesis
    using inj assms(7,8) by (auto simp: provider_from_task_key_def scope_from_task_key_def)
qed

lemma task_key_round_trip_witness:
  "provider_from_task_key (make_idempotency_key ''data-import'' 738945 (Some ''ifind-full'')) = Some ''ifind''"
  using task_key_round_trip[of 738945 738945 "''backup''" "''backup''" "''ifind''" "''full''" _ None None]
  by (simp add: max_ordinal_def)

text \<open>
  The pages of the job list tile it: for a positive page size the first \<open>k\<close> pages are, in order and
  without loss or repetition, the newest \<open>k * size\<close> of the records that pass the filter, and every
  page reports the number of all of them.
\<close>

theorem pages_tile_the_list:
  assumes "0 < psize"
  shows "concat (map (\<lambda>p. fst (page_runs rs (int p + 1) (int psize) provider status day)) [0..<k]) =
      take (k * psize) (filter (page_filter provider status day) (rev rs)) \<and>
    (\<forall>p. snd (page_runs rs p (int psize) provider status day) =
      length (filter (page_filter provider status day) rs))"
proof -
  have page: "fst (page_runs rs (int p + 1) (int psize) provider status day) =
      take psize (drop (p * psize) (filter (page_filter provider status day) (rev rs)))" for p
  proof -
    have "(int p + 1 - 1) * int psize = int (p * psize)" by simp
    moreover have "int (p * psize) + int psize = int (p * psize + psize)" by simp
    ultimately show ?thesis
      unfolding page_runs_def Let_def fst_conv
      by (simp only: slice_between_pos drop_take add_diff_cancel_left')
  qed
  have "concat (map (\<lambda>p. fst (page_runs rs (int p + 1) (int psize) provider status day)) [0..<k]) =
      take (k * psize) (filter (page_filter provider status day) (rev rs))"
  proof (induction k)
    case (Suc k)
    then show ?case by (simp add: page take_add add.commute[of psize])
  qed simp
  moreover have "length (filter P (rev rs)) = length (filter P rs)" for P
    by (simp add: rev_filter [symmetric])
  ultimately show ?thesis by (simp add: page_runs_def Let_def)
qed

definition sample_run :: "string \<Rightarrow> nat job_run" where
  "sample_run i = \<lparr>run_id = i, job_key = ''k'', job_kind = ''backup'', business_date = 1, run_number = 1,
     attempt = 1, job_phase = ''execute'', job_status = Queued, error_summary = None, job_value = None,
     started_at = \<lparr>wall = 0, utcoff = Some 0\<rparr>, finished_at = None\<rparr>"

lemma pages_tile_the_list_witness:
  "concat (map (\<lambda>p. fst (page_runs (map sample_run [''a'', ''b'', ''c'']) (int p + 1) (int 2) None (Some ''QUEUED'') None)) [0..<2]) =
     map sample_run [''c'', ''b'', ''a'']"
proof -
  have "lower ''QUEUED'' = ''queued''" by code_simp
  then have "filter (page_filter None (Some ''QUEUED'') None) (rev (map sample_run [''a'', ''b'', ''c''])) =
      map sample_run [''c'', ''b'', ''a'']"
    by (simp add: page_filter_def sample_run_def status_name_def)
  with pages_tile_the_list[of 2 "map sample_run [''a'', ''b'', ''c'']" None "Some ''QUEUED''" None 2]
  show ?thesis by simp
qed

text \<open>
  The stored error summary classifies an error by the exact name of its class: it counts as
  retryable iff that name is one of the three retryable classes, which implies that the exception
  itself is retryable. For a subclass of them, which is retryable, it does not count.
\<close>

theorem stored_errors_classified:
  assumes "CHR '':'' \<notin> set (type_name e)" and "type_name e \<in> set (class_names e)"
  shows "(retryable_error_summary (Some (summarize_error e)) \<longleftrightarrow>
      type_name e \<in> {''DependencyError'', ''ConnectionError'', ''TimeoutError''}) \<and>
    (retryable_error_summary (Some (summarize_error e)) \<longrightarrow> is_retryable e)"
proof -
  obtain t where t: "summarize_error e = type_name e @ CHR '':'' # t"
    by (simp add: summarize_error_def)
  have "starts_with (c @ '':'') (summarize_error e) \<longleftrightarrow> c = type_name e" if "CHR '':'' \<notin> set c" for c
    unfolding t by (rule starts_with_field) (use that assms(1) in simp_all)
  from this[of "''DependencyError''"] this[of "''ConnectionError''"] this[of "''TimeoutError''"]
  have r: "retryable_error_summary (Some (summarize_error e)) \<longleftrightarrow>
      type_name e \<in> {''DependencyError'', ''ConnectionError'', ''TimeoutError''}"
    by (auto simp: retryable_error_summary_def t)
  moreover have "type_name e \<in> {''DependencyError'', ''ConnectionError'', ''TimeoutError''} \<Longrightarrow> is_retryable e"
    using assms(2) unfolding is_retryable_def by blast
  ultimately show ?thesis by blast
qed

lemma stored_errors_classified_witness:
  "let e = \<lparr>type_name = ''ConnectionRefusedError'',
      class_names = [''ConnectionRefusedError'', ''ConnectionError'', ''OSError''], exc_text = ''refused''\<rparr>
   in is_retryable e \<and> \<not> retryable_error_summary (Some (summarize_error e))"
  using stored_errors_classified[of "\<lparr>type_name = ''ConnectionRefusedError'',
      class_names = [''ConnectionRefusedError'', ''ConnectionError'', ''OSError''], exc_text = ''refused''\<rparr>"]
  by (simp add: is_retryable_def)

end
