(* ===== verification/JobTasks.thy ===== *)
theory JobTasks
  imports JobRuns
begin

text \<open>
  The idempotent task runner (\<open>IdempotentTask\<close> of \<open>app/jobs/idempotency.py\<close>) over any job run store:
  what happens before the operation (\<open>task_start\<close>) and after it (\<open>task_finish\<close>), the contract
  it needs from a store as a locale, and the in-memory store as an instance of it.
\<close>

section \<open>The runner\<close>

text \<open>The four operations of \<open>JobRunStore\<close> the runner calls.\<close>

record ('s, 'v) store_ops =
  op_latest :: "'s \<Rightarrow> string \<Rightarrow> 'v job_run option"
  op_claim :: "'s \<Rightarrow> string \<Rightarrow> string \<Rightarrow> datetime \<Rightarrow> ('v job_run option) res \<times> 's"
  op_append :: "'s \<Rightarrow> 'v job_run \<Rightarrow> unit res \<times> 's"
  op_replace :: "'s \<Rightarrow> 'v job_run \<Rightarrow> unit res \<times> 's"

text \<open>
  The call up to the operation: it returns the earlier result, raises, or runs the operation for a
  record it holds.
\<close>

datatype 'v start = Replay "'v job_result" | Refuse py_error | Execute "'v job_run"

definition new_run :: "'v job_run option \<Rightarrow> string \<Rightarrow> date \<Rightarrow> string \<Rightarrow> string \<Rightarrow> string \<Rightarrow> datetime \<Rightarrow> 'v job_run" where
  "new_run previous kind day key phase uuid now =
     \<lparr>run_id = uuid, job_key = key, job_kind = kind, business_date = day,
      run_number = (case previous of None \<Rightarrow> 1 | Some p \<Rightarrow> run_number p + 1),
      attempt = (case previous of None \<Rightarrow> 1 | Some p \<Rightarrow> attempt p + 1),
      job_phase = phase, job_status = InProgress, error_summary = None, job_value = None,
      started_at = now, finished_at = None\<rparr>"

text \<open>
  \<open>task_decide\<close> acts on the record it read; between that read and its own write another task may act.
\<close>

definition task_decide ::
    "('s, 'v) store_ops \<Rightarrow> 's \<Rightarrow> 'v job_run option \<Rightarrow> string \<Rightarrow> date \<Rightarrow> string \<Rightarrow> string \<Rightarrow> string \<Rightarrow> datetime
      \<Rightarrow> 'v start \<times> 's" where
  "task_decide ops s previous kind day key phase uuid now =
     (let append_new =
        (let r = new_run previous kind day key phase uuid now in
         case op_append ops s r of
           (Inl e, s') \<Rightarrow> (Refuse e, s')
         | (Inr _, s') \<Rightarrow> (Execute r, s'))
      in case previous of
        None \<Rightarrow> append_new
      | Some p \<Rightarrow>
          if job_status p = Succeeded then
            (Replay \<lparr>result_status = Succeeded, result_key = key, result_date = day,
               result_run_id = run_id p, result_run_number = run_number p, result_attempt = attempt p,
               result_phase = job_phase p, result_value = job_value p, replayed = True\<rparr>, s)
          else if job_status p = InProgress
          then (Refuse (StateConflict ''A matching job is already running''), s)
          else if job_status p = Queued then
            (case op_claim ops s key phase now of
               (Inl e, s') \<Rightarrow> (Refuse e, s')
             | (Inr None, s') \<Rightarrow> (Refuse (StateConflict ''A matching queued job could not be claimed''), s')
             | (Inr (Some r), s') \<Rightarrow> (Execute r, s'))
          else append_new)"

definition task_start where
  "task_start ops s kind day scope phase uuid now =
     (let key = make_idempotency_key kind day scope
      in task_decide ops s (op_latest ops s key) kind day key phase uuid now)"

text \<open>How the operation ends, and the call.\<close>

datatype 'v outcome = Returned "'v option" | Raised raised

datatype 'v ending = Result "'v job_result" | Reraised raised | StoreError py_error

definition audit_of :: "string \<Rightarrow> string \<Rightarrow> 'v job_run \<Rightarrow> string \<Rightarrow> datetime \<Rightarrow> row \<Rightarrow> audit_event" where
  "audit_of kind key r result now summary =
     \<lparr>occurred_at = now, audit_actor = None, actor_roles = [''SYSTEM''], action = ''job.'' @ kind,
      object_type = ''job_run'', object_id = Some (run_id r), request_id = run_id r,
      audit_result = result, idempotency_ref = Some key, before_summary = None,
      after_summary = Some summary\<rparr>"

definition finished_record :: "'v job_run \<Rightarrow> 'v outcome \<Rightarrow> datetime \<Rightarrow> 'v job_run" where
  "finished_record r out now = (case out of
     Raised e \<Rightarrow> r\<lparr>job_status := Failed, error_summary := Some (summarize_error e), finished_at := Some now\<rparr>
   | Returned v \<Rightarrow> r\<lparr>job_status := Succeeded, job_value := v, finished_at := Some now\<rparr>)"

definition finish_event :: "string \<Rightarrow> string \<Rightarrow> 'v job_run \<Rightarrow> 'v outcome \<Rightarrow> datetime \<Rightarrow> audit_event" where
  "finish_event kind key r out now = (case out of
     Raised e \<Rightarrow> audit_of kind key r ''failure'' now
       [(''status'', PText ''failed''), (''error'', PText (summarize_error e))]
   | Returned v \<Rightarrow> audit_of kind key r ''success'' now
       [(''status'', PText ''succeeded''), (''attempt'', PInt (attempt r))])"

definition task_finish ::
    "('s, 'v) store_ops \<Rightarrow> 's \<Rightarrow> audit_event list \<Rightarrow> string \<Rightarrow> date \<Rightarrow> string \<Rightarrow> string \<Rightarrow> 'v job_run \<Rightarrow> 'v outcome
      \<Rightarrow> datetime \<Rightarrow> 'v ending \<times> 's \<times> audit_event list" where
  "task_finish ops s audit kind day key phase r out now =
     (case op_replace ops s (finished_record r out now) of
        (Inl e, s') \<Rightarrow> (StoreError e, s', audit)
      | (Inr _, s') \<Rightarrow>
          (case out of
             Raised e \<Rightarrow> Reraised e
           | Returned v \<Rightarrow> Result \<lparr>result_status = Succeeded, result_key = key, result_date = day,
               result_run_id = run_id r, result_run_number = run_number r, result_attempt = attempt r,
               result_phase = phase, result_value = v, replayed = False\<rparr>,
           s', audit_append audit (finish_event kind key r out now)))"

text \<open>
  A whole call that no other one interrupts. \<open>out\<close> is how the operation would end; the flag says
  whether it was run.
\<close>

definition run_task ::
    "('s, 'v) store_ops \<Rightarrow> 's \<Rightarrow> audit_event list \<Rightarrow> string \<Rightarrow> date \<Rightarrow> string option \<Rightarrow> string \<Rightarrow> string
      \<Rightarrow> datetime \<Rightarrow> 'v outcome \<Rightarrow> datetime \<Rightarrow> ('v ending \<times> bool) \<times> 's \<times> audit_event list" where
  "run_task ops s audit kind day scope phase uuid now out end_time =
     (case task_start ops s kind day scope phase uuid now of
        (Replay r, s') \<Rightarrow> ((Result r, False), s', audit)
      | (Refuse e, s') \<Rightarrow> ((StoreError e, False), s', audit)
      | (Execute r, s') \<Rightarrow>
          (case task_finish ops s' audit kind day (make_idempotency_key kind day scope) phase r out end_time of
             (res, s'', audit') \<Rightarrow> ((res, True), s'', audit')))"

section \<open>What the runner needs from a store\<close>

text \<open>
  \<open>ok\<close> is the store's invariant, \<open>timely s key now\<close> says that a run started \<open>now\<close> would be the
  latest of its key, \<open>unused s i\<close> that \<open>i\<close> is a run id no record has, and \<open>phase_ok\<close> and
  \<open>value_ok\<close> that the store gives a phase and a value back as it got them. \<open>fits p kind day\<close>
  says that an earlier record belongs to the same job. Every write keeps the
  latest records of the other keys.
\<close>

definition claimed :: "'v job_run \<Rightarrow> string \<Rightarrow> datetime \<Rightarrow> 'v job_run" where
  "claimed p phase now = p\<lparr>job_status := InProgress, job_phase := phase, started_at := now,
     error_summary := None, finished_at := None\<rparr>"

definition same_attempt :: "'v job_run \<Rightarrow> 'v job_run \<Rightarrow> bool" where
  "same_attempt p r \<longleftrightarrow> run_id p = run_id r \<and> job_key p = job_key r \<and> job_kind p = job_kind r \<and>
     business_date p = business_date r \<and> started_at p = started_at r \<and> run_number p = run_number r \<and>
     attempt p = attempt r"

locale job_store =
  fixes ops :: "('s, 'v) store_ops"
    and ok :: "'s \<Rightarrow> bool"
    and timely :: "'s \<Rightarrow> string \<Rightarrow> datetime \<Rightarrow> bool"
    and unused :: "'s \<Rightarrow> string \<Rightarrow> bool"
    and phase_ok :: "string \<Rightarrow> bool"
    and value_ok :: "'v option \<Rightarrow> bool"
    and fits :: "'v job_run \<Rightarrow> string \<Rightarrow> date \<Rightarrow> bool"
  assumes append_law:
      "\<lbrakk>ok s; unused s (run_id r); timely s (job_key r) (started_at r); phase_ok (job_phase r);
        value_ok (job_value r); 1 \<le> run_number r;
        \<forall>p. op_latest ops s (job_key r) = Some p \<longrightarrow>
          job_status p = Failed \<and> fits p (job_kind r) (business_date r)\<rbrakk> \<Longrightarrow>
        \<exists>s'. op_append ops s r = (Inr (), s') \<and> ok s' \<and> op_latest ops s' (job_key r) = Some r \<and>
          (\<forall>k. k \<noteq> job_key r \<longrightarrow> op_latest ops s' k = op_latest ops s k)"
    and claim_law:
      "\<lbrakk>ok s; op_latest ops s k = Some p; job_status p = Queued; timely s k now; phase_ok phase\<rbrakk> \<Longrightarrow>
        \<exists>s'. op_claim ops s k phase now = (Inr (Some (claimed p phase now)), s') \<and> ok s' \<and>
          op_latest ops s' k = Some (claimed p phase now) \<and>
          (\<forall>k'. k' \<noteq> k \<longrightarrow> op_latest ops s' k' = op_latest ops s k')"
    and replace_law:
      "\<lbrakk>ok s; op_latest ops s (job_key r) = Some p; same_attempt p r; phase_ok (job_phase r);
        value_ok (job_value r)\<rbrakk> \<Longrightarrow>
        \<exists>s'. op_replace ops s r = (Inr (), s') \<and> ok s' \<and> op_latest ops s' (job_key r) = Some r \<and>
          (\<forall>k. k \<noteq> job_key r \<longrightarrow> op_latest ops s' k = op_latest ops s k)"
    and latest_law:
      "\<lbrakk>ok s; op_latest ops s k = Some p\<rbrakk> \<Longrightarrow>
        job_key p = k \<and> 1 \<le> run_number p \<and> phase_ok (job_phase p) \<and> value_ok (job_value p)"
    and no_value: "value_ok None"
    and fits_own: "fits r (job_kind r) (business_date r)"
    and fits_kept: "job_kind q = job_kind p \<Longrightarrow> business_date q = business_date p \<Longrightarrow> fits p k d \<Longrightarrow> fits q k d"
begin

text \<open>When the runner may run the operation for a key.\<close>

definition may_run :: "'s \<Rightarrow> string \<Rightarrow> string \<Rightarrow> date \<Rightarrow> bool" where
  "may_run s key kind day \<longleftrightarrow> (\<forall>p. op_latest ops s key = Some p \<longrightarrow>
     (job_status p = Failed \<or> job_status p = Queued) \<and> fits p kind day)"

lemma start_executes:
  assumes "ok s" and "key = make_idempotency_key kind day scope" and "may_run s key kind day"
    and "unused s uuid" and "timely s key now" and "phase_ok phase"
  shows "\<exists>r s'. task_start ops s kind day scope phase uuid now = (Execute r, s') \<and> ok s' \<and>
    op_latest ops s' key = Some r \<and> job_key r = key \<and> fits r kind day \<and>
    job_status r = InProgress \<and> job_phase r = phase \<and>
    (\<forall>k. k \<noteq> key \<longrightarrow> op_latest ops s' k = op_latest ops s k) \<and>
    run_number r = (case op_latest ops s key of None \<Rightarrow> 1
      | Some p \<Rightarrow> if job_status p = Queued then run_number p else run_number p + 1)"
proof -
  have app: "\<exists>s'. op_append ops s (new_run previous kind day key phase uuid now) = (Inr (), s') \<and> ok s' \<and>
      op_latest ops s' key = Some (new_run previous kind day key phase uuid now) \<and>
      (\<forall>k. k \<noteq> key \<longrightarrow> op_latest ops s' k = op_latest ops s k)"
    if prev: "previous = op_latest ops s key"
      and f: "\<forall>p. op_latest ops s key = Some p \<longrightarrow> job_status p = Failed \<and> fits p kind day"
    for previous
  proof -
    have "1 \<le> run_number (new_run previous kind day key phase uuid now)"
      using latest_law[OF assms(1), of key] prev by (auto simp: new_run_def split: option.splits)
    then show ?thesis
      using append_law[OF assms(1), of "new_run previous kind day key phase uuid now"] assms(4-6) no_value f
      by (simp add: new_run_def)
  qed
  have own: "fits (new_run previous kind day key phase uuid now) kind day" for previous
    using fits_own[of "new_run previous kind day key phase uuid now"] by (simp add: new_run_def)
  show ?thesis
  proof (cases "op_latest ops s key")
    case None
    then show ?thesis using app[of None] own[of None]
      by (auto simp: task_start_def task_decide_def Let_def assms(2) [symmetric] new_run_def)
  next
    case (Some p)
    show ?thesis
    proof (cases "job_status p = Queued")
      case True
      have "fits (claimed p phase now) kind day"
        using assms(3) Some by (intro fits_kept[of "claimed p phase now" p]) (auto simp: may_run_def claimed_def)
      with claim_law[OF assms(1) Some True assms(5,6)] latest_law[OF assms(1) Some]
      show ?thesis using Some True
        by (auto simp: task_start_def task_decide_def Let_def assms(2) [symmetric] claimed_def)
    next
      case False
      then have f: "job_status p = Failed \<and> fits p kind day" using assms(3) Some by (auto simp: may_run_def)
      then show ?thesis using app[of "Some p"] own[of "Some p"] Some
        by (auto simp: task_start_def task_decide_def Let_def assms(2) [symmetric] new_run_def)
    qed
  qed
qed

lemma finish_stores:
  assumes "ok s" and "op_latest ops s (job_key r) = Some r" and "phase_ok (job_phase r)"
    and "\<forall>v. out = Returned v \<longrightarrow> value_ok v"
  shows "\<exists>s'. op_replace ops s (finished_record r out now) = (Inr (), s') \<and> ok s' \<and>
    op_latest ops s' (job_key r) = Some (finished_record r out now) \<and>
    (\<forall>k. k \<noteq> job_key r \<longrightarrow> op_latest ops s' k = op_latest ops s k)"
proof -
  have k: "job_key (finished_record r out now) = job_key r"
    by (simp add: finished_record_def split: outcome.splits)
  have a: "same_attempt r (finished_record r out now)"
    by (simp add: finished_record_def same_attempt_def split: outcome.splits)
  have v: "value_ok (job_value r)" using latest_law[OF assms(1,2)] by simp
  have "phase_ok (job_phase (finished_record r out now)) \<and> value_ok (job_value (finished_record r out now))"
    using assms(3,4) v by (simp add: finished_record_def split: outcome.splits)
  with replace_law[OF assms(1), of "finished_record r out now" r] k a assms(2) show ?thesis by simp
qed

text \<open>One uninterrupted call that runs the operation.\<close>

lemma call_executes:
  assumes "ok s" and "key = make_idempotency_key kind day scope" and "may_run s key kind day"
    and "unused s uuid" and "timely s key now" and "phase_ok phase" and "\<forall>v. out = Returned v \<longrightarrow> value_ok v"
  shows "\<exists>r s'. run_task ops s audit kind day scope phase uuid now out end_time =
      ((case out of Raised e \<Rightarrow> Reraised e
        | Returned v \<Rightarrow> Result \<lparr>result_status = Succeeded, result_key = key, result_date = day,
            result_run_id = run_id r, result_run_number = run_number r, result_attempt = attempt r,
            result_phase = phase, result_value = v, replayed = False\<rparr>, True),
       s', audit @ [finish_event kind key r out end_time]) \<and> ok s' \<and>
    op_latest ops s' key = Some (finished_record r out end_time) \<and> job_phase r = phase \<and> fits r kind day \<and>
    (\<forall>k. k \<noteq> key \<longrightarrow> op_latest ops s' k = op_latest ops s k) \<and>
    run_number r = (case op_latest ops s key of None \<Rightarrow> 1
      | Some p \<Rightarrow> if job_status p = Queued then run_number p else run_number p + 1)"
proof -
  from start_executes[OF assms(1-6)] obtain r s1 where
    st: "task_start ops s kind day scope phase uuid now = (Execute r, s1)" and ok1: "ok s1"
    and l1: "op_latest ops s1 key = Some r" and k: "job_key r = key" and ph: "job_phase r = phase" and ft: "fits r kind day"
    and oth: "\<forall>k. k \<noteq> key \<longrightarrow> op_latest ops s1 k = op_latest ops s k"
    and n: "run_number r = (case op_latest ops s key of None \<Rightarrow> 1
      | Some p \<Rightarrow> if job_status p = Queued then run_number p else run_number p + 1)"
    by blast
  from finish_stores[OF ok1 _ _ assms(7), of r end_time] l1 k ph assms(6) obtain s2 where
    fin: "op_replace ops s1 (finished_record r out end_time) = (Inr (), s2)" and ok2: "ok s2"
    and l2: "op_latest ops s2 key = Some (finished_record r out end_time)"
    and oth2: "\<forall>k. k \<noteq> key \<longrightarrow> op_latest ops s2 k = op_latest ops s1 k"
    by auto
  have "run_task ops s audit kind day scope phase uuid now out end_time =
      ((case out of Raised e \<Rightarrow> Reraised e
        | Returned v \<Rightarrow> Result \<lparr>result_status = Succeeded, result_key = key, result_date = day,
            result_run_id = run_id r, result_run_number = run_number r, result_attempt = attempt r,
            result_phase = phase, result_value = v, replayed = False\<rparr>, True),
       s2, audit @ [finish_event kind key r out end_time])"
    unfolding run_task_def st prod.case start.case assms(2) [symmetric] task_finish_def fin sum.case
      audit_append_def by (rule refl)
  then show ?thesis using ok2 l2 oth oth2 ph ft n by auto
qed

text \<open>A call whose key succeeded before changes nothing and returns the earlier value.\<close>

lemma call_replays:
  assumes "op_latest ops s (make_idempotency_key kind day scope) = Some p" and "job_status p = Succeeded"
  shows "run_task ops s audit kind day scope phase uuid now out end_time =
    ((Result \<lparr>result_status = Succeeded, result_key = make_idempotency_key kind day scope,
        result_date = day, result_run_id = run_id p, result_run_number = run_number p,
        result_attempt = attempt p, result_phase = job_phase p, result_value = job_value p,
        replayed = True\<rparr>, False), s, audit)"
  by (simp add: run_task_def task_start_def task_decide_def assms)

lemma success_is_replayed:
  assumes "ok s" and "key = make_idempotency_key kind day scope" and "may_run s key kind day"
    and "unused s uuid" and "timely s key now" and "phase_ok phase" and "value_ok v"
  shows "\<exists>res s' audit'. run_task ops s audit kind day scope phase uuid now (Returned v) end_time =
      ((Result res, True), s', audit') \<and> result_value res = v \<and> ok s' \<and> length audit' = Suc (length audit) \<and>
    (\<forall>phase2 uuid2 now2 out2 end2. \<exists>res2.
      run_task ops s' audit' kind day scope phase2 uuid2 now2 out2 end2 = ((Result res2, False), s', audit') \<and>
      result_value res2 = v \<and> result_run_id res2 = result_run_id res \<and> replayed res2)"
proof -
  obtain r s' where c: "run_task ops s audit kind day scope phase uuid now (Returned v) end_time =
      ((Result \<lparr>result_status = Succeeded, result_key = key, result_date = day,
            result_run_id = run_id r, result_run_number = run_number r, result_attempt = attempt r,
            result_phase = phase, result_value = v, replayed = False\<rparr>, True),
       s', audit @ [finish_event kind key r (Returned v) end_time])" and ok': "ok s'"
    and l: "op_latest ops s' key = Some (finished_record r (Returned v) end_time)"
    using call_executes[OF assms(1-6), of "Returned v" audit end_time] assms(7) by auto
  have fr: "job_status (finished_record r (Returned v) end_time) = Succeeded"
    "job_value (finished_record r (Returned v) end_time) = v"
    "run_id (finished_record r (Returned v) end_time) = run_id r"
    by (simp_all add: finished_record_def)
  have "\<exists>res2. run_task ops s' a2 kind day scope phase2 uuid2 now2 out2 end2 = ((Result res2, False), s', a2) \<and>
      result_value res2 = v \<and> result_run_id res2 = run_id r \<and> replayed res2" for a2 phase2 uuid2 now2 out2 end2
    using call_replays[OF l[unfolded assms(2)] fr(1), of a2 phase2 uuid2 now2 out2 end2] fr by auto
  with c ok' show ?thesis by auto
qed

lemma failure_is_retried:
  assumes "ok s" and "key = make_idempotency_key kind day scope" and "may_run s key kind day"
    and "unused s uuid" and "timely s key now" and "phase_ok phase"
  shows "\<exists>r s' audit'. run_task ops s audit kind day scope phase uuid now (Raised e) end_time =
      ((Reraised e, True), s', audit') \<and> ok s' \<and> op_latest ops s' key = Some r \<and> job_status r = Failed \<and>
      error_summary r = Some (summarize_error e) \<and>
    (\<forall>phase2 uuid2 now2. unused s' uuid2 \<and> timely s' key now2 \<and> phase_ok phase2 \<longrightarrow>
      (\<exists>r2 s2. task_start ops s' kind day scope phase2 uuid2 now2 = (Execute r2, s2) \<and>
        run_number r2 = run_number r + 1 \<and> job_status r2 = InProgress))"
proof -
  obtain r s' where c: "run_task ops s audit kind day scope phase uuid now (Raised e) end_time =
      ((Reraised e, True), s', audit @ [finish_event kind key r (Raised e) end_time])" and ok': "ok s'"
    and l: "op_latest ops s' key = Some (finished_record r (Raised e) end_time)" and ft: "fits r kind day"
    using call_executes[OF assms(1-6), of "Raised e" audit end_time] by auto
  let ?f = "finished_record r (Raised e) end_time"
  have fr: "job_status ?f = Failed" "error_summary ?f = Some (summarize_error e)"
    by (simp_all add: finished_record_def)
  have "\<exists>r2 s2. task_start ops s' kind day scope phase2 uuid2 now2 = (Execute r2, s2) \<and>
      run_number r2 = run_number ?f + 1 \<and> job_status r2 = InProgress"
    if "unused s' uuid2" "timely s' key now2" "phase_ok phase2" for phase2 uuid2 now2
    using start_executes[OF ok' assms(2) _ that] l fr fits_kept[of ?f r, OF _ _ ft]
    by (auto simp: may_run_def finished_record_def)
  with c ok' l fr show ?thesis by blast
qed

end

section \<open>The in-memory store keeps the contract\<close>

definition memory_ops :: "('v job_records, 'v) store_ops" where
  "memory_ops = \<lparr>op_latest = latest, op_claim = claim_queued,
     op_append = (\<lambda>rs r. (Inr (), append_run rs r)), op_replace = replace_run\<rparr>"

definition records_ok :: "'v job_records \<Rightarrow> bool" where
  "records_ok rs \<longleftrightarrow> distinct (map run_id rs) \<and> (\<forall>r\<in>set rs. 1 \<le> run_number r)"

definition put_run :: "'v job_run \<Rightarrow> 'v job_records \<Rightarrow> 'v job_records" where
  "put_run r rs = map (\<lambda>x. if run_id x = run_id r then r else x) rs"

lemma same_run_refl [simp]: "same_run r r"
  by (simp add: same_run_def split: option.splits)

lemma same_run_id: "same_run a b \<Longrightarrow> run_id a = run_id b"
  unfolding same_run_def by (metis job_run.select_convs(1) job_run.surjective job_run.update_convs(11,12))

lemma distinct_ids_inj: "distinct (map run_id rs) \<Longrightarrow> a \<in> set rs \<Longrightarrow> b \<in> set rs \<Longrightarrow> run_id a = run_id b \<Longrightarrow> a = b"
  by (auto simp: distinct_map dest: inj_onD)

lemma store_over_put:
  assumes "distinct (map run_id rs)" and "p \<in> set rs" and "run_id r = run_id p"
  shows "store_over p r rs = put_run r rs"
  unfolding store_over_def put_run_def assms(3)
proof (rule update_first_map[OF assms(1)])
  fix x assume "x \<in> set rs"
  then show "same_run p x \<longleftrightarrow> run_id x = run_id p"
    using distinct_ids_inj[OF assms(1) assms(2)] same_run_id by fastforce
qed

lemma update_last_put:
  "distinct (map run_id rs) \<Longrightarrow> update_last (\<lambda>x. run_id x = run_id r) r rs = put_run r rs"
  unfolding put_run_def by (rule update_last_map) auto

lemma put_run_ids [simp]: "map run_id (put_run r rs) = map run_id rs"
  by (simp add: put_run_def comp_def)

lemma latest_put:
  assumes "\<And>x. x \<in> set rs \<Longrightarrow> run_id x = run_id r \<Longrightarrow> job_key x = job_key r"
  shows "latest (put_run r rs) k = map_option (\<lambda>x. if run_id x = run_id r then r else x) (latest rs k)"
proof -
  have "find_last (\<lambda>x. job_key (if run_id x = run_id r then r else x) = k) rs = find_last (\<lambda>x. job_key x = k) rs"
    by (rule find_last_cong) (use assms in auto)
  then show ?thesis by (simp add: latest_def put_run_def find_last_map)
qed

lemma latest_in: "latest rs k = Some p \<Longrightarrow> p \<in> set rs \<and> job_key p = k"
  unfolding latest_def by (rule find_last_Some_in)

lemma put_keeps_ok: "records_ok rs \<Longrightarrow> 1 \<le> run_number r \<Longrightarrow> records_ok (put_run r rs)"
  by (auto simp: records_ok_def) (auto simp: put_run_def)

text \<open>Overwriting the latest record of a key by one of the same run.\<close>

lemma put_latest:
  assumes "records_ok rs" and "latest rs k = Some p" and "run_id r = run_id p" and "job_key r = k"
  shows "latest (put_run r rs) k = Some r"
    and "k' \<noteq> k \<Longrightarrow> latest (put_run r rs) k' = latest rs k'"
proof -
  note p = latest_in[OF assms(2)]
  have same: "job_key x = job_key r" if "x \<in> set rs" "run_id x = run_id r" for x
    using distinct_ids_inj[of rs x p] that p assms by (auto simp: records_ok_def)
  show "latest (put_run r rs) k = Some r"
    using latest_put[OF same, where k = k] assms(2,3) by simp
  show "latest (put_run r rs) k' = latest rs k'" if "k' \<noteq> k"
  proof (cases "latest rs k'")
    case (Some q)
    then have "q \<in> set rs" "job_key q = k'" using latest_in by auto
    then have "run_id q \<noteq> run_id r" using same that assms(4) by auto
    then show ?thesis using latest_put[OF same, where k = k'] Some by simp
  qed (use latest_put[OF same, where k = k'] in simp)
qed

interpretation mem: job_store memory_ops records_ok "\<lambda>rs k now. True"
  "\<lambda>rs i. i \<notin> run_id ` set rs" "\<lambda>phase. True" "\<lambda>v. True"
  "\<lambda>p kind day. True"
proof
  fix rs :: "'v job_records" and r :: "'v job_run"
  assume "records_ok rs" "run_id r \<notin> run_id ` set rs" "1 \<le> run_number r"
  then show "\<exists>s'. op_append memory_ops rs r = (Inr (), s') \<and> records_ok s' \<and>
      op_latest memory_ops s' (job_key r) = Some r \<and>
      (\<forall>k. k \<noteq> job_key r \<longrightarrow> op_latest memory_ops s' k = op_latest memory_ops rs k)"
    by (auto simp: memory_ops_def append_run_def records_ok_def latest_def)
next
  fix rs :: "'v job_records" and k phase and p :: "'v job_run" and now
  assume a: "records_ok rs" "op_latest memory_ops rs k = Some p" "job_status p = Queued"
  then have l: "latest rs k = Some p" by (simp add: memory_ops_def)
  let ?c = "claimed p phase now"
  have c: "run_id ?c = run_id p" "job_key ?c = k" "run_number ?c = run_number p"
    using latest_in[OF l] by (simp_all add: claimed_def)
  have "op_claim memory_ops rs k phase now = (Inr (Some ?c), store_over p ?c rs)"
    using a(3) l by (simp add: memory_ops_def claim_queued_def claimed_def Let_def)
  moreover have "store_over p ?c rs = put_run ?c rs"
    by (rule store_over_put) (use a(1) latest_in[OF l] c in \<open>auto simp: records_ok_def\<close>)
  moreover have "records_ok (put_run ?c rs)"
    using a(1) latest_in[OF l] c by (intro put_keeps_ok) (auto simp: records_ok_def)
  ultimately show "\<exists>s'. op_claim memory_ops rs k phase now = (Inr (Some ?c), s') \<and> records_ok s' \<and>
      op_latest memory_ops s' k = Some ?c \<and>
      (\<forall>k'. k' \<noteq> k \<longrightarrow> op_latest memory_ops s' k' = op_latest memory_ops rs k')"
    using put_latest[OF a(1) l c(1,2)] by (simp add: memory_ops_def)
next
  fix rs :: "'v job_records" and r p :: "'v job_run"
  assume a: "records_ok rs" "op_latest memory_ops rs (job_key r) = Some p" "same_attempt p r"
  then have l: "latest rs (job_key r) = Some p" by (simp add: memory_ops_def)
  have i: "run_id r = run_id p" "run_number r = run_number p" using a(3) by (simp_all add: same_attempt_def)
  have ex: "\<exists>x\<in>set rs. run_id x = run_id r" using latest_in[OF l] i(1) by force
  have "op_replace memory_ops rs r = (Inr (), put_run r rs)"
    using ex a(1) update_last_put[of rs r] by (simp add: memory_ops_def replace_run_def records_ok_def)
  moreover have "records_ok (put_run r rs)"
    using a(1) latest_in[OF l] i by (intro put_keeps_ok) (auto simp: records_ok_def)
  ultimately show "\<exists>s'. op_replace memory_ops rs r = (Inr (), s') \<and> records_ok s' \<and>
      op_latest memory_ops s' (job_key r) = Some r \<and>
      (\<forall>k. k \<noteq> job_key r \<longrightarrow> op_latest memory_ops s' k = op_latest memory_ops rs k)"
    using put_latest[OF a(1) l i(1) refl] by (simp add: memory_ops_def)
next
  fix rs :: "'v job_records" and k and p :: "'v job_run"
  assume "records_ok rs" "op_latest memory_ops rs k = Some p"
  then show "job_key p = k \<and> 1 \<le> run_number p \<and> True \<and> True"
    using latest_in[of rs k p] by (auto simp: memory_ops_def records_ok_def)
qed simp_all

section \<open>Properties\<close>

text \<open>
  One side effect per job: a call whose operation returns runs it, records the value, writes one
  audit event, and from then on every repetition of the job returns that value and that run id
  without running its own operation and without changing the store or the audit log.
\<close>

theorem memory_success_is_replayed:
  assumes "records_ok rs" and "key = make_idempotency_key kind day scope"
    and "\<forall>p. latest rs key = Some p \<longrightarrow> job_status p \<in> {Failed, Queued}"
    and "uuid \<notin> run_id ` set rs"
  shows "\<exists>res rs' audit'. run_task memory_ops rs audit kind day scope phase uuid now (Returned v) end_time =
      ((Result res, True), rs', audit') \<and> result_value res = v \<and> records_ok rs' \<and>
      length audit' = Suc (length audit) \<and>
    (\<forall>phase2 uuid2 now2 out2 end2. \<exists>res2.
      run_task memory_ops rs' audit' kind day scope phase2 uuid2 now2 out2 end2 =
        ((Result res2, False), rs', audit') \<and>
      result_value res2 = v \<and> result_run_id res2 = result_run_id res \<and> replayed res2)"
proof -
  have l: "op_latest memory_ops rs key = latest rs key" by (simp add: memory_ops_def)
  have "mem.may_run rs key kind day" using assms(3) by (simp add: mem.may_run_def l)
  from mem.success_is_replayed[OF assms(1,2) this assms(4) TrueI TrueI TrueI] show ?thesis .
qed

lemma memory_success_is_replayed_witness:
  "\<exists>res rs' audit'. run_task memory_ops [] [] ''backup'' 738945 None ''execute'' ''u1''
      \<lparr>wall = 5, utcoff = Some 0\<rparr> (Returned (Some (7::nat))) \<lparr>wall = 9, utcoff = Some 0\<rparr> =
      ((Result res, True), rs', audit') \<and> result_value res = Some 7 \<and>
    (\<exists>res2. run_task memory_ops rs' audit' ''backup'' 738945 None ''execute'' ''u2''
      \<lparr>wall = 20, utcoff = Some 0\<rparr> (Returned (Some 8)) \<lparr>wall = 21, utcoff = Some 0\<rparr> =
        ((Result res2, False), rs', audit') \<and> result_value res2 = Some 7)"
  using memory_success_is_replayed[of "[]" "make_idempotency_key ''backup'' 738945 None" "''backup''" 738945 None
      "''u1''" "[]" "''execute''" "\<lparr>wall = 5, utcoff = Some 0\<rparr>" "Some (7::nat)" "\<lparr>wall = 9, utcoff = Some 0\<rparr>"]
  by (simp add: records_ok_def latest_def) blast

text \<open>
  C19: a failed operation is recorded, re-raised and may be tried again: the latest record is failed
  with the summary of the error, and the next call of the job runs its operation under the next run
  number.
\<close>

theorem memory_failure_is_retried:
  assumes "records_ok rs" and "key = make_idempotency_key kind day scope"
    and "\<forall>p. latest rs key = Some p \<longrightarrow> job_status p \<in> {Failed, Queued}"
    and "uuid \<notin> run_id ` set rs"
  shows "\<exists>r rs' audit'. run_task memory_ops rs audit kind day scope phase uuid now (Raised e) end_time =
      ((Reraised e, True), rs', audit') \<and> latest rs' key = Some r \<and> job_status r = Failed \<and>
      error_summary r = Some (summarize_error e) \<and>
    (\<forall>phase2 uuid2 now2. uuid2 \<notin> run_id ` set rs' \<longrightarrow>
      (\<exists>r2 rs2. task_start memory_ops rs' kind day scope phase2 uuid2 now2 = (Execute r2, rs2) \<and>
        run_number r2 = run_number r + 1 \<and> job_status r2 = InProgress))"
proof -
  have l: "op_latest memory_ops s key = latest s key" for s :: "'a job_records" by (simp add: memory_ops_def)
  have "mem.may_run rs key kind day" using assms(3) by (simp add: mem.may_run_def l)
  from mem.failure_is_retried[where audit = audit and phase = phase and now = now and e = e and
      end_time = end_time, OF assms(1,2) this assms(4) TrueI TrueI]
  obtain r rs' audit' where
    run: "run_task memory_ops rs audit kind day scope phase uuid now (Raised e) end_time =
      ((Reraised e, True), rs', audit')"
    and st: "latest rs' key = Some r" "job_status r = Failed" "error_summary r = Some (summarize_error e)"
    and again: "\<forall>phase2 uuid2 now2. uuid2 \<notin> run_id ` set rs' \<and> True \<and> True \<longrightarrow>
      (\<exists>r2 s2. task_start memory_ops rs' kind day scope phase2 uuid2 now2 = (Execute r2, s2) \<and>
        run_number r2 = run_number r + 1 \<and> job_status r2 = InProgress)"
    unfolding l by (elim exE conjE) (rule that)
  from again have "\<forall>phase2 uuid2 now2. uuid2 \<notin> run_id ` set rs' \<longrightarrow>
      (\<exists>r2 s2. task_start memory_ops rs' kind day scope phase2 uuid2 now2 = (Execute r2, s2) \<and>
        run_number r2 = run_number r + 1 \<and> job_status r2 = InProgress)"
    by (simp only: simp_thms)
  with run st show ?thesis by (intro exI conjI)
qed

lemma memory_failure_is_retried_witness:
  "\<exists>r rs' audit'. run_task memory_ops ([] :: nat job_records) [] ''backup'' 738945 None ''execute'' ''u1''
      \<lparr>wall = 5, utcoff = Some 0\<rparr>
      (Raised \<lparr>type_name = ''OSError'', class_names = [''OSError''], exc_text = ''disk''\<rparr>)
      \<lparr>wall = 9, utcoff = Some 0\<rparr> =
      ((Reraised \<lparr>type_name = ''OSError'', class_names = [''OSError''], exc_text = ''disk''\<rparr>, True), rs', audit') \<and>
    latest rs' (make_idempotency_key ''backup'' 738945 None) = Some r \<and> job_status r = Failed"
  using memory_failure_is_retried[of "[] :: nat job_records" "make_idempotency_key ''backup'' 738945 None"
      "''backup''" 738945 None "''u1''" "[]" "''execute''" "\<lparr>wall = 5, utcoff = Some 0\<rparr>"
      "\<lparr>type_name = ''OSError'', class_names = [''OSError''], exc_text = ''disk''\<rparr>" "\<lparr>wall = 9, utcoff = Some 0\<rparr>"]
  by (simp add: records_ok_def latest_def) blast

end
