(* ===== verification/JobSystem.thy ===== *)
theory JobSystem
  imports JobTasks
begin

text \<open>
  Several job tasks over the one in-memory store: a system state is the records and the runs whose
  operation is being executed, and a step is one call of a store operation, of the part of a task
  before its operation, or of the part after it. The read and the write before the operation are one
  step here; \<open>stale_reads_run_twice\<close> says what happens when they are not.
\<close>

record 'v job_system =
  records :: "'v job_records"
  holding :: "'v job_run list"

inductive job_step :: "'v job_system \<Rightarrow> 'v job_system \<Rightarrow> bool" where
  Reserve: "\<lbrakk>uuid \<notin> run_id ` set (records s);
     reserve_queued_owned (records s) kind day key phase v retry uuid now = (out, rs')\<rbrakk> \<Longrightarrow>
   job_step s (s\<lparr>records := rs'\<rparr>)"
| Requeue: "claim_queued_for_requeue (records s) i expected now = (out, rs') \<Longrightarrow>
   job_step s (s\<lparr>records := rs'\<rparr>)"
| Mark: "mark_queued (records s) i phase = (marked, rs') \<Longrightarrow> job_step s (s\<lparr>records := rs'\<rparr>)"
| Begin: "\<lbrakk>uuid \<notin> run_id ` set (records s);
     task_start memory_ops (records s) kind day scope phase uuid now = (Execute r, rs')\<rbrakk> \<Longrightarrow>
   job_step s \<lparr>records = rs', holding = r # holding s\<rparr>"
| Decline: "\<lbrakk>task_start memory_ops (records s) kind day scope phase uuid now = (st, rs');
     \<forall>r. st \<noteq> Execute r\<rbrakk> \<Longrightarrow>
   job_step s (s\<lparr>records := rs'\<rparr>)"
| Finish: "\<lbrakk>r \<in> set (holding s);
     task_finish memory_ops (records s) audit kind day key phase r res now = (ending, rs', audit')\<rbrakk> \<Longrightarrow>
   job_step s \<lparr>records = rs', holding = remove1 r (holding s)\<rparr>"

inductive job_reach :: "'v job_system \<Rightarrow> bool" where
  Init: "job_reach \<lparr>records = [], holding = []\<rparr>"
| Step: "job_reach s \<Longrightarrow> job_step s t \<Longrightarrow> job_reach t"

section \<open>Histories\<close>

definition history :: "string \<Rightarrow> 'v job_records \<Rightarrow> 'v job_run list" where
  "history k rs = filter (\<lambda>r. job_key r = k) rs"

text \<open>Attempts are numbered from 1 on, and only failed ones have a successor.\<close>

definition history_ok :: "'v job_run list \<Rightarrow> bool" where
  "history_ok h \<longleftrightarrow> (\<forall>i<length h. run_number (h ! i) = int i + 1 \<and> attempt (h ! i) = int i + 1 \<and>
     (Suc i < length h \<longrightarrow> job_status (h ! i) = Failed))"

definition open_run :: "'v job_run \<Rightarrow> bool" where
  "open_run r \<longleftrightarrow> job_status r = Queued \<or> job_status r = InProgress"

text \<open>The ways the operations change the records: not at all, a new attempt, or an open run.\<close>

definition next_attempt :: "'v job_records \<Rightarrow> 'v job_run \<Rightarrow> bool" where
  "next_attempt rs r \<longleftrightarrow> run_id r \<notin> run_id ` set rs \<and>
     (case latest rs (job_key r) of
        None \<Rightarrow> run_number r = 1 \<and> attempt r = 1
      | Some p \<Rightarrow> job_status p = Failed \<and> run_number r = run_number p + 1 \<and> attempt r = attempt p + 1)"

definition same_place :: "'v job_run \<Rightarrow> 'v job_run \<Rightarrow> bool" where
  "same_place p r \<longleftrightarrow> run_id p = run_id r \<and> job_key p = job_key r \<and> run_number p = run_number r \<and>
     attempt p = attempt r"

definition overwrites :: "'v job_records \<Rightarrow> 'v job_run \<Rightarrow> 'v job_run \<Rightarrow> 'v job_records \<Rightarrow> bool" where
  "overwrites rs p r rs' \<longleftrightarrow> p \<in> set rs \<and> same_place p r \<and> open_run p \<and> rs' = put_run r rs"

definition writes :: "'v job_records \<Rightarrow> 'v job_records \<Rightarrow> bool" where
  "writes rs rs' \<longleftrightarrow> rs' = rs \<or> (\<exists>r. next_attempt rs r \<and> rs' = rs @ [r]) \<or> (\<exists>p r. overwrites rs p r rs')"

definition store_ok :: "'v job_records \<Rightarrow> bool" where
  "store_ok rs \<longleftrightarrow> distinct (map run_id rs) \<and> (\<forall>k. history_ok (history k rs))"

lemma latest_history: "latest rs k = (if history k rs = [] then None else Some (last (history k rs)))"
  unfolding latest_def history_def by (rule find_last_filter)

lemma history_ok_append:
  assumes "history_ok h" and "run_number r = int (length h) + 1" and "attempt r = int (length h) + 1"
    and "h \<noteq> [] \<Longrightarrow> job_status (last h) = Failed"
  shows "history_ok (h @ [r])"
  unfolding history_ok_def
proof (intro allI impI)
  fix i assume i: "i < length (h @ [r])"
  show "run_number ((h @ [r]) ! i) = int i + 1 \<and> attempt ((h @ [r]) ! i) = int i + 1 \<and>
     (Suc i < length (h @ [r]) \<longrightarrow> job_status ((h @ [r]) ! i) = Failed)"
  proof (cases "i < length h")
    case True
    show ?thesis
    proof (cases "Suc i = length h")
      case last: True
      then have "last h = h ! i" by (metis diff_Suc_1 last_conv_nth length_0_conv nat.distinct(1))
      moreover have "h \<noteq> []" using True by auto
      ultimately show ?thesis using True assms(1,4) by (auto simp: history_ok_def nth_append)
    qed (use True assms(1) in \<open>auto simp: history_ok_def nth_append\<close>)
  qed (use i assms in \<open>auto simp: nth_append\<close>)
qed

lemma store_ok_append:
  assumes "store_ok rs" and "next_attempt rs r"
  shows "store_ok (rs @ [r])"
proof -
  let ?h = "history (job_key r) rs"
  have ok: "history_ok ?h" using assms(1) by (simp add: store_ok_def)
  have "run_number r = int (length ?h) + 1 \<and> attempt r = int (length ?h) + 1 \<and>
      (?h \<noteq> [] \<longrightarrow> job_status (last ?h) = Failed)"
  proof (cases "?h = []")
    case False
    then have "run_number (last ?h) = int (length ?h) \<and> attempt (last ?h) = int (length ?h)"
      using ok by (cases ?h) (auto simp: history_ok_def last_conv_nth)
    then show ?thesis using assms(2) False by (simp add: next_attempt_def latest_history)
  qed (use assms(2) in \<open>simp add: next_attempt_def latest_history\<close>)
  then have "history_ok (?h @ [r])" using ok by (intro history_ok_append) auto
  then show ?thesis using assms by (auto simp: store_ok_def history_def next_attempt_def)
qed

lemma history_put:
  assumes "distinct (map run_id rs)" and "p \<in> set rs" and "same_place p r"
  shows "history k (put_run r rs) = put_run r (history k rs)"
proof -
  have "job_key (if run_id x = run_id r then r else x) = job_key x" if "x \<in> set rs" for x
    using distinct_ids_inj[OF assms(1) that assms(2)] assms(3) by (auto simp: same_place_def)
  then show ?thesis by (simp add: history_def put_run_def filter_map comp_def cong: filter_cong)
qed

lemma store_ok_overwrites:
  assumes "store_ok rs" and "overwrites rs p r rs'"
  shows "store_ok rs'"
proof -
  have o: "p \<in> set rs" "same_place p r" "open_run p" "rs' = put_run r rs"
    using assms(2) by (auto simp: overwrites_def)
  have d: "distinct (map run_id rs)" using assms(1) by (simp add: store_ok_def)
  have "history_ok (put_run r (history k rs))" for k
    unfolding history_ok_def
  proof (intro allI impI)
    let ?h = "history k rs"
    fix i assume "i < length (put_run r ?h)"
    then have i: "i < length ?h" by (simp add: put_run_def)
    then have hi: "?h ! i \<in> set rs" by (metis filter_is_subset history_def nth_mem subsetD)
    have old: "run_number (?h ! i) = int i + 1" "attempt (?h ! i) = int i + 1"
      "Suc i < length ?h \<Longrightarrow> job_status (?h ! i) = Failed"
      using assms(1) i by (auto simp: store_ok_def history_ok_def)
    show "run_number (put_run r ?h ! i) = int i + 1 \<and> attempt (put_run r ?h ! i) = int i + 1 \<and>
      (Suc i < length (put_run r ?h) \<longrightarrow> job_status (put_run r ?h ! i) = Failed)"
    proof (cases "run_id (?h ! i) = run_id r")
      case True
      then have "?h ! i = p" using distinct_ids_inj[OF d hi o(1)] o(2) by (simp add: same_place_def)
      then show ?thesis using old o(2,3) i True by (auto simp: put_run_def same_place_def open_run_def)
    qed (use old i in \<open>simp add: put_run_def\<close>)
  qed
  then show ?thesis
    using d unfolding store_ok_def o(4) history_put[OF d o(1,2)] by (metis put_run_ids)
qed

lemma writes_keep_store_ok: "store_ok rs \<Longrightarrow> writes rs rs' \<Longrightarrow> store_ok rs'"
  unfolding writes_def using store_ok_append store_ok_overwrites by blast

lemma writes_keep_success:
  assumes "store_ok rs" and "writes rs rs'" and "latest rs k = Some p" and "job_status p = Succeeded"
  shows "latest rs' k = Some p"
  using assms(2) unfolding writes_def
proof (elim disjE exE conjE)
  fix r assume "next_attempt rs r" "rs' = rs @ [r]"
  then show ?thesis using assms(3,4) by (auto simp: next_attempt_def latest_def split: option.splits)
next
  fix q r assume "overwrites rs q r rs'"
  then have o: "q \<in> set rs" "same_place q r" "open_run q" "rs' = put_run r rs"
    by (auto simp: overwrites_def)
  have d: "distinct (map run_id rs)" using assms(1) by (simp add: store_ok_def)
  have "run_id p \<noteq> run_id r"
    using distinct_ids_inj[OF d o(1), of p] latest_in[OF assms(3)] o(2,3) assms(4)
    by (auto simp: same_place_def open_run_def)
  moreover have "job_key x = job_key r" if "x \<in> set rs" "run_id x = run_id r" for x
    using distinct_ids_inj[OF d o(1) that(1)] that(2) o(2) by (simp add: same_place_def)
  ultimately show ?thesis using assms(3) by (simp add: o(4) latest_put)
qed (use assms in simp)

section \<open>What each operation writes\<close>

lemma reserve_writes:
  assumes "reserve_queued_owned rs kind day key phase v retry uuid now = (out, rs')"
    and "uuid \<notin> run_id ` set rs"
  shows "rs' = rs \<or> (\<exists>r. next_attempt rs r \<and> rs' = rs @ [r] \<and> job_status r = Queued)"
proof -
  let ?r = "queued_run (latest rs key) kind day key phase v uuid now"
  have r: "job_status ?r = Queued" "job_key ?r = key" "run_id ?r = uuid"
    by (simp_all add: queued_run_def)
  have "rs' = rs \<or> rs' = rs @ [?r] \<and> (\<forall>p. latest rs key = Some p \<longrightarrow> job_status p = Failed)"
    using assms(1) by (auto simp: reserve_queued_owned_def Let_def split: option.splits if_splits)
  moreover have "next_attempt rs ?r" if "\<forall>p. latest rs key = Some p \<longrightarrow> job_status p = Failed"
    using that assms(2) by (auto simp: next_attempt_def r queued_run_def split: option.splits)
  ultimately show ?thesis using r(1) by blast
qed

lemma requeue_writes:
  assumes "claim_queued_for_requeue rs i expected now = (out, rs')" and "distinct (map run_id rs)"
  shows "rs' = rs \<or> (\<exists>p r. overwrites rs p r rs' \<and> job_status p = Queued \<and> job_status r = Queued)"
proof (cases "get_run rs i")
  case (Some p)
  then have p: "p \<in> set rs" unfolding get_run_def by (blast dest: find_last_Some_in)
  let ?r = "p\<lparr>job_phase := ''requeueing'', started_at := now, error_summary := None, finished_at := None\<rparr>"
  have "store_over p ?r rs = put_run ?r rs" by (rule store_over_put[OF assms(2) p]) simp
  then have "job_status p = Queued \<Longrightarrow> overwrites rs p ?r (store_over p ?r rs) \<and> job_status ?r = Queued"
    using p by (simp add: overwrites_def same_place_def open_run_def)
  moreover have "rs' = rs \<or> job_status p = Queued \<and> rs' = store_over p ?r rs"
    using assms(1) Some by (auto simp: claim_queued_for_requeue_def Let_def split: if_splits)
  ultimately show ?thesis by blast
qed (use assms in \<open>auto simp: claim_queued_for_requeue_def\<close>)

lemma mark_writes:
  assumes "mark_queued rs i phase = (out, rs')" and "distinct (map run_id rs)"
  shows "rs' = rs \<or> (\<exists>p r. overwrites rs p r rs' \<and> job_status p = Queued \<and> job_status r = Queued)"
proof (cases "get_run rs i")
  case (Some p)
  then have p: "p \<in> set rs" "run_id p = i" unfolding get_run_def by (auto dest: find_last_Some_in)
  have "update_last (\<lambda>x. run_id x = i) (p\<lparr>job_phase := phase\<rparr>) rs = put_run (p\<lparr>job_phase := phase\<rparr>) rs"
    using update_last_put[OF assms(2), of "p\<lparr>job_phase := phase\<rparr>"] p(2) by simp
  then have "job_status p = Queued \<Longrightarrow> overwrites rs p (p\<lparr>job_phase := phase\<rparr>)
      (update_last (\<lambda>x. run_id x = i) (p\<lparr>job_phase := phase\<rparr>) rs) \<and> job_status (p\<lparr>job_phase := phase\<rparr>) = Queued"
    using p by (simp add: overwrites_def same_place_def open_run_def)
  moreover have "rs' = rs \<or> job_status p = Queued \<and>
      rs' = update_last (\<lambda>x. run_id x = i) (p\<lparr>job_phase := phase\<rparr>) rs"
    using assms(1) Some by (auto simp: mark_queued_def split: if_splits)
  ultimately show ?thesis by blast
qed (use assms in \<open>auto simp: mark_queued_def\<close>)

lemma claim_writes:
  assumes "claim_queued rs key phase now = (out, rs')" and "distinct (map run_id rs)"
  shows "(rs' = rs \<and> (\<forall>r. out \<noteq> Inr (Some r))) \<or>
    (\<exists>p r. out = Inr (Some r) \<and> overwrites rs p r rs' \<and> job_status p = Queued \<and> job_status r = InProgress)"
proof (cases "latest rs key")
  case (Some p)
  then have p: "p \<in> set rs" by (blast dest: latest_in)
  have "store_over p (claimed p phase now) rs = put_run (claimed p phase now) rs"
    by (rule store_over_put[OF assms(2) p]) (simp add: claimed_def)
  then have "job_status p = Queued \<Longrightarrow> overwrites rs p (claimed p phase now) (store_over p (claimed p phase now) rs) \<and>
      job_status (claimed p phase now) = InProgress"
    using p by (simp add: overwrites_def same_place_def open_run_def claimed_def)
  moreover have "(rs' = rs \<and> (\<forall>r. out \<noteq> Inr (Some r))) \<or> (job_status p = Queued \<and>
      out = Inr (Some (claimed p phase now)) \<and> rs' = store_over p (claimed p phase now) rs)"
    using assms(1) Some by (auto simp: claim_queued_def Let_def claimed_def split: if_splits)
  ultimately show ?thesis by blast
qed (use assms in \<open>auto simp: claim_queued_def\<close>)

lemma start_writes:
  assumes "task_start memory_ops rs kind day scope phase uuid now = (st, rs')"
    and "distinct (map run_id rs)"
  shows "(\<forall>r. st \<noteq> Execute r) \<Longrightarrow> rs' = rs"
    and "st = Execute r \<Longrightarrow> uuid \<notin> run_id ` set rs \<Longrightarrow> job_status r = InProgress \<and>
      (next_attempt rs r \<and> rs' = rs @ [r] \<or>
       (\<exists>p. overwrites rs p r rs' \<and> job_status p = Queued))"
proof -
  let ?key = "make_idempotency_key kind day scope"
  have l: "op_latest memory_ops rs = latest rs" "op_claim memory_ops = claim_queued"
    "op_append memory_ops rs r = (Inr (), rs @ [r])" for rs :: "'a job_records" and r
    by (simp_all add: memory_ops_def append_run_def)
  have cq: "claim_queued rs ?key phase now = (out, rs'') \<Longrightarrow> rs'' = rs \<and> (\<forall>r. out \<noteq> Inr (Some r)) \<or>
      (\<exists>p r. out = Inr (Some r) \<and> overwrites rs p r rs'' \<and> job_status p = Queued \<and> job_status r = InProgress)"
    for out rs'' by (rule claim_writes[OF _ assms(2)])
  show "rs' = rs" if "\<forall>r. st \<noteq> Execute r"
    using assms(1) that cq
    by (fastforce simp: task_start_def task_decide_def Let_def l split: option.splits if_splits prod.splits sum.splits)
  show "job_status r = InProgress \<and> (next_attempt rs r \<and> rs' = rs @ [r] \<or>
       (\<exists>p. overwrites rs p r rs' \<and> job_status p = Queued))"
    if "st = Execute r" "uuid \<notin> run_id ` set rs"
  proof (cases "latest rs ?key")
    case None
    then show ?thesis using assms(1) that
      by (auto simp: task_start_def task_decide_def Let_def l new_run_def next_attempt_def)
  next
    case (Some p)
    show ?thesis
    proof (cases "job_status p = Queued")
      case True
      then show ?thesis using assms(1) that(1) Some cq
        by (fastforce simp: task_start_def task_decide_def Let_def l split: option.splits prod.splits sum.splits)
    next
      case False
      then show ?thesis using assms(1) that Some
        by (cases "job_status p")
          (auto simp: task_start_def task_decide_def Let_def l new_run_def next_attempt_def)
    qed
  qed
qed

lemma finish_writes:
  assumes "task_finish memory_ops rs audit kind day key phase r res now = (ending, rs', audit')"
    and "distinct (map run_id rs)" and "r \<in> set rs" and "job_status r = InProgress"
  shows "\<exists>q. overwrites rs r q rs' \<and> job_status q \<noteq> InProgress"
proof -
  let ?f = "finished_record r res now"
  have f: "same_place r ?f" "job_status ?f \<noteq> InProgress" "run_id ?f = run_id r"
    by (simp_all add: finished_record_def same_place_def split: outcome.splits)
  have "\<exists>x\<in>set rs. run_id x = run_id ?f" using assms(3) f(3) by auto
  then have "op_replace memory_ops rs ?f = (Inr (), put_run ?f rs)"
    using update_last_put[OF assms(2), of ?f] by (simp add: memory_ops_def replace_run_def)
  then have "rs' = put_run ?f rs" using assms(1) by (simp add: task_finish_def)
  then show ?thesis using f assms(3,4) by (auto simp: overwrites_def open_run_def)
qed

section \<open>The system invariant\<close>

definition system_ok :: "'v job_system \<Rightarrow> bool" where
  "system_ok s \<longleftrightarrow> store_ok (records s) \<and> distinct (holding s) \<and>
     set (holding s) = {r \<in> set (records s). job_status r = InProgress}"

lemma set_put_run:
  assumes "distinct (map run_id rs)" and "p \<in> set rs" and "run_id p = run_id r"
  shows "set (put_run r rs) = insert r (set rs - {p})"
proof
  show "set (put_run r rs) \<subseteq> insert r (set rs - {p})"
    using assms(3) by (auto simp: put_run_def)
  show "insert r (set rs - {p}) \<subseteq> set (put_run r rs)"
    using assms distinct_ids_inj[OF assms(1)] by (auto simp: put_run_def image_iff)
qed

lemma overwrites_in_progress:
  assumes "store_ok rs" and "overwrites rs p r rs'"
  shows "{x \<in> set rs'. job_status x = InProgress} =
    ({x \<in> set rs. job_status x = InProgress} - {p}) \<union> {x \<in> {r}. job_status x = InProgress}"
proof -
  have "set rs' = insert r (set rs - {p})"
    using assms set_put_run[of rs p r] by (simp add: overwrites_def same_place_def store_ok_def)
  then show ?thesis by auto
qed

lemma quiet_write_keeps:
  assumes "system_ok s" and "rs' = records s \<or> (\<exists>r. next_attempt (records s) r \<and> rs' = records s @ [r] \<and> job_status r \<noteq> InProgress) \<or>
      (\<exists>p r. overwrites (records s) p r rs' \<and> job_status p \<noteq> InProgress \<and> job_status r \<noteq> InProgress)"
  shows "system_ok (s\<lparr>records := rs'\<rparr>)"
proof -
  have ok: "store_ok (records s)" using assms(1) by (simp add: system_ok_def)
  have "writes (records s) rs'" using assms(2) by (auto simp: writes_def)
  then have "store_ok rs'" by (rule writes_keep_store_ok[OF ok])
  moreover have "{x \<in> set rs'. job_status x = InProgress} = {x \<in> set (records s). job_status x = InProgress}"
    using assms(2) overwrites_in_progress[OF ok] by auto
  ultimately show ?thesis using assms(1) by (simp add: system_ok_def)
qed

lemma step_keeps_system:
  assumes "job_step s t" and "system_ok s"
  shows "system_ok t \<and> writes (records s) (records t)"
proof -
  have ok: "store_ok (records s)" and d: "distinct (map run_id (records s))"
    using assms(2) by (auto simp: system_ok_def store_ok_def)
  show ?thesis using assms(1)
  proof cases
    case (Reserve uuid kind day key phase v retry now out rs')
    from reserve_writes[OF Reserve(3,2)] have w: "rs' = records s \<or> (\<exists>r. next_attempt (records s) r \<and>
        rs' = records s @ [r] \<and> job_status r = Queued)" .
    then have "system_ok (s\<lparr>records := rs'\<rparr>)" by (intro quiet_write_keeps[OF assms(2)]) auto
    then show ?thesis using w Reserve(1) by (auto simp: writes_def)
  next
    case (Requeue i expected now out rs')
    note w = requeue_writes[OF Requeue(2) d]
    then have "\<exists>p r. rs' = records s \<or> overwrites (records s) p r rs' \<and>
        job_status p \<noteq> InProgress \<and> job_status r \<noteq> InProgress"
      by (metis job_status.distinct(1))
    then have "system_ok (s\<lparr>records := rs'\<rparr>)" by (intro quiet_write_keeps[OF assms(2)]) blast
    then show ?thesis using w Requeue(1) by (auto simp: writes_def)
  next
    case (Mark i phase marked rs')
    note w = mark_writes[OF Mark(2) d]
    then have "\<exists>p r. rs' = records s \<or> overwrites (records s) p r rs' \<and>
        job_status p \<noteq> InProgress \<and> job_status r \<noteq> InProgress"
      by (metis job_status.distinct(1))
    then have "system_ok (s\<lparr>records := rs'\<rparr>)" by (intro quiet_write_keeps[OF assms(2)]) blast
    then show ?thesis using w Mark(1) by (auto simp: writes_def)
  next
    case (Begin uuid kind day scope phase now r rs')
    from start_writes(2)[OF Begin(3) d refl Begin(2)]
    have ip: "job_status r = InProgress" and w: "next_attempt (records s) r \<and> rs' = records s @ [r] \<or>
       (\<exists>p. overwrites (records s) p r rs' \<and> job_status p = Queued)" by auto
    have wr: "writes (records s) rs'" using w by (auto simp: writes_def)
    have "r \<notin> set (records s)"
      using w distinct_ids_inj[OF d] ip by (fastforce simp: next_attempt_def overwrites_def same_place_def)
    then have new: "r \<notin> set (holding s)" using assms(2) by (auto simp: system_ok_def)
    have "{x \<in> set rs'. job_status x = InProgress} = insert r {x \<in> set (records s). job_status x = InProgress}"
      using w
    proof (elim disjE exE conjE)
      fix p assume "overwrites (records s) p r rs'" "job_status p = Queued"
      then show ?thesis by (subst overwrites_in_progress[OF ok]) (use ip in auto)
    qed (use ip in auto)
    then show ?thesis
      using new assms(2) writes_keep_store_ok[OF ok wr] wr Begin(1) by (simp add: system_ok_def)
  next
    case (Decline kind day scope phase uuid now st rs')
    from start_writes(1)[OF Decline(2) d Decline(3)] show ?thesis
      using assms(2) Decline(1) by (simp add: writes_def)
  next
    case (Finish r audit kind day key phase res now ending rs' audit')
    have r: "r \<in> set (records s)" "job_status r = InProgress"
      using Finish(2) assms(2) by (auto simp: system_ok_def)
    from finish_writes[OF Finish(3) d r] obtain q where
      o: "overwrites (records s) r q rs'" and q: "job_status q \<noteq> InProgress" by blast
    have wr: "writes (records s) rs'" using o by (auto simp: writes_def)
    show ?thesis
      using overwrites_in_progress[OF ok o] q assms(2) writes_keep_store_ok[OF ok wr] wr Finish(1)
      by (auto simp: system_ok_def set_remove1_eq)
  qed
qed

lemma reach_system_ok: "job_reach s \<Longrightarrow> system_ok s"
proof (induction rule: job_reach.induct)
  case Init
  show ?case by (simp add: system_ok_def store_ok_def history_def history_ok_def)
next
  case (Step s t)
  then show ?case using step_keeps_system by blast
qed

lemma history_open_last:
  assumes "history_ok h" and "distinct h" and "r \<in> set h" and "job_status r \<noteq> Failed"
  shows "r = last h"
proof -
  obtain i where i: "i < length h" "h ! i = r" using assms(3) by (auto simp: in_set_conv_nth)
  then have "\<not> Suc i < length h" using assms(1,4) by (auto simp: history_ok_def)
  then have "i = length h - 1" using i(1) by linarith
  moreover have "h \<noteq> []" using i(1) by auto
  ultimately show ?thesis using i(2) by (simp add: last_conv_nth)
qed

section \<open>Properties\<close>


definition sample_system :: "nat job_system" where
  "sample_system = \<lparr>records = [sample_run ''u1''], holding = []\<rparr>"

lemma sample_reachable: "job_reach sample_system"
proof -
  have "job_step \<lparr>records = [], holding = []\<rparr> (\<lparr>records = [], holding = []\<rparr>\<lparr>records := [sample_run ''u1'']\<rparr>)"
    by (rule job_step.Reserve[where uuid = "''u1''" and kind = "''backup''" and day = 1 and key = "''k''" and
          phase = "''execute''" and v = None and retry = False and now = "\<lparr>wall = 0, utcoff = Some 0\<rparr>"
          and out = "Inr (sample_run ''u1'', True)"])
      (simp_all add: reserve_queued_owned_def Let_def latest_def queued_run_def sample_run_def)
  then show ?thesis using job_reach.Step[OF job_reach.Init] by (simp add: sample_system_def)
qed



definition sample_done :: "nat job_run" where
  "sample_done = finished_record (new_run None ''backup'' 1 (make_idempotency_key ''backup'' 1 None) ''execute'' ''u1''
     \<lparr>wall = 0, utcoff = Some 0\<rparr>) (Returned (Some 3)) \<lparr>wall = 9, utcoff = Some 0\<rparr>"

lemma sample_done_reachable: "job_reach \<lparr>records = [sample_done], holding = []\<rparr>"
proof -
  let ?k = "make_idempotency_key ''backup'' 1 None" and ?t = "\<lparr>wall = 0, utcoff = Some 0\<rparr> :: datetime"
  let ?r = "new_run None ''backup'' 1 ?k ''execute'' ''u1'' ?t :: nat job_run"
  have st: "task_start memory_ops [] ''backup'' 1 None ''execute'' ''u1'' ?t = (Execute ?r, [?r])"
    by (simp add: task_start_def task_decide_def Let_def memory_ops_def latest_def append_run_def)
  have "job_step \<lparr>records = [], holding = []\<rparr> \<lparr>records = [?r], holding = ?r # holding \<lparr>records = [], holding = []\<rparr>\<rparr>"
    by (rule job_step.Begin[where uuid = "''u1''"]) (use st in simp_all)
  then have "job_reach \<lparr>records = [?r], holding = [?r]\<rparr>"
    using job_reach.Step[OF job_reach.Init] by simp
  moreover have "run_id (finished_record ?r out end_time) = run_id ?r" for out end_time
    by (simp add: finished_record_def split: outcome.splits)
  then have "task_finish memory_ops [?r] [] ''backup'' 1 ?k ''execute'' ?r (Returned (Some 3)) \<lparr>wall = 9, utcoff = Some 0\<rparr> =
      (fst (task_finish memory_ops [?r] [] ''backup'' 1 ?k ''execute'' ?r (Returned (Some 3)) \<lparr>wall = 9, utcoff = Some 0\<rparr>),
       [sample_done], [finish_event ''backup'' ?k ?r (Returned (Some 3)) \<lparr>wall = 9, utcoff = Some 0\<rparr>])"
    by (simp add: task_finish_def memory_ops_def replace_run_def update_last_def audit_append_def sample_done_def)
  then have "job_step \<lparr>records = [?r], holding = [?r]\<rparr> \<lparr>records = [sample_done],
      holding = remove1 ?r (holding \<lparr>records = [?r], holding = [?r]\<rparr>)\<rparr>"
    by (intro job_step.Finish) simp_all
  ultimately show ?thesis using job_reach.Step by fastforce
qed


text \<open>
  The read of the latest run and the write that follows it are separate calls of the store: two
  tasks of one job that both read before either writes are both let through, and their operations
  run at the same time under the same run number.
\<close>

theorem stale_reads_run_twice:
  assumes "key = make_idempotency_key kind day scope"
    and "\<forall>p. latest rs key = Some p \<longrightarrow> job_status p = Failed" and "u1 \<noteq> u2"
  shows "\<exists>r1 r2 rs1 rs2.
    task_decide memory_ops rs (latest rs key) kind day key phase u1 now1 = (Execute r1, rs1) \<and>
    task_decide memory_ops rs1 (latest rs key) kind day key phase u2 now2 = (Execute r2, rs2) \<and>
    r1 \<in> set rs2 \<and> r2 \<in> set rs2 \<and> r1 \<noteq> r2 \<and> job_key r1 = key \<and> job_key r2 = key \<and>
    job_status r1 = InProgress \<and> job_status r2 = InProgress \<and> run_number r1 = run_number r2"
proof -
  let ?r = "\<lambda>u now. new_run (latest rs key) kind day key phase u now"
  have d: "task_decide memory_ops rs' (latest rs key) kind day key phase u now = (Execute (?r u now), rs' @ [?r u now])"
    for rs' u now
    using assms(2) by (auto simp: task_decide_def Let_def memory_ops_def append_run_def split: option.splits)
  have "?r u1 now1 \<noteq> ?r u2 now2" using assms(3) by (simp add: new_run_def)
  then show ?thesis unfolding d by (simp add: new_run_def)
qed

lemma stale_reads_run_twice_witness:
  "\<exists>r1 r2 rs1 rs2.
    task_decide memory_ops ([] :: nat job_records) None ''backup'' 1 (make_idempotency_key ''backup'' 1 None)
      ''execute'' ''u1'' \<lparr>wall = 0, utcoff = Some 0\<rparr> = (Execute r1, rs1) \<and>
    task_decide memory_ops rs1 None ''backup'' 1 (make_idempotency_key ''backup'' 1 None)
      ''execute'' ''u2'' \<lparr>wall = 1, utcoff = Some 0\<rparr> = (Execute r2, rs2) \<and> r1 \<noteq> r2"
  using stale_reads_run_twice[of "make_idempotency_key ''backup'' 1 None" "''backup''" 1 None
      "[] :: nat job_records" "''u1''" "''u2''" "''execute''" "\<lparr>wall = 0, utcoff = Some 0\<rparr>"
      "\<lparr>wall = 1, utcoff = Some 0\<rparr>"]
  by (simp add: latest_def) blast

end
