(* ===== verification/Calendar.thy ===== *)
theory Calendar
  imports Timestamps
begin

text \<open>
  The trade calendar (\<open>app/domain/data/calendar.py\<close>): every supplied date with whether it is open
  and its neighbouring open dates.
\<close>

record calendar_day =
  exchange :: string
  cal_date :: date
  is_open :: bool
  prev_trade_date :: "date option"
  next_trade_date :: "date option"

definition open_flag :: "(date, bool) dict option \<Rightarrow> date \<Rightarrow> bool" where
  "open_flag flags d = dict_get (case flags of None \<Rightarrow> [] | Some f \<Rightarrow> f) d True"

definition calendar_entry :: "string \<Rightarrow> (date \<Rightarrow> bool) \<Rightarrow> date list \<Rightarrow> date \<Rightarrow> calendar_day" where
  "calendar_entry ex is_open_day open_dates d =
     \<lparr>exchange = ex, cal_date = d, is_open = is_open_day d,
      prev_trade_date = find_last (\<lambda>c. c < d) open_dates,
      next_trade_date = List.find (\<lambda>c. d < c) open_dates\<rparr>"

definition build_calendar :: "string \<Rightarrow> date list \<Rightarrow> (date, bool) dict option \<Rightarrow> calendar_day list res" where
  "build_calendar ex supplied flags =
     (if \<not> distinct supplied then Inl (ValueError ''duplicate trade calendar dates are not allowed'')
      else let days = sort supplied; open_dates = filter (open_flag flags) days
        in Inr (map (calendar_entry ex (open_flag flags) open_dates) days))"

definition trading_days_between :: "calendar_day list \<Rightarrow> date \<Rightarrow> date \<Rightarrow> date list" where
  "trading_days_between days start end_date =
     map cal_date (filter (\<lambda>d. is_open d \<and> start \<le> cal_date d \<and> cal_date d \<le> end_date) days)"

text \<open>Neighbours in a sorted list.\<close>

lemma find_first_above:
  assumes "sorted xs"
  shows "List.find (\<lambda>c. d < c) xs = (if {c \<in> set xs. d < c} = {} then None else Some (Min {c \<in> set xs. d < c}))"
  using assms
proof (induction xs)
  case (Cons x xs)
  show ?case
  proof (cases "d < (x :: 'a :: linorder)")
    case True
    then have "Min {c \<in> set (x # xs). d < c} = x"
      using Cons.prems by (intro Min_eqI) auto
    then show ?thesis using True by auto
  next
    case False
    then have "{c \<in> set (x # xs). d < c} = {c \<in> set xs. d < c}" by auto
    then show ?thesis using Cons False by simp
  qed
qed simp

lemma find_last_below:
  assumes "sorted xs"
  shows "find_last (\<lambda>c. c < d) xs = (if {c \<in> set xs. c < d} = {} then None else Some (Max {c \<in> set xs. c < d}))"
  using assms
proof (induction xs rule: rev_induct)
  case (snoc x xs)
  show ?case
  proof (cases "(x :: 'a :: linorder) < d")
    case True
    then have "Max {c \<in> set (xs @ [x]). c < d} = x"
      using snoc.prems by (intro Max_eqI) (auto simp: sorted_append)
    then show ?thesis using True by auto
  next
    case False
    then have "{c \<in> set (xs @ [x]). c < d} = {c \<in> set xs. c < d}" by auto
    then show ?thesis using snoc False by (simp add: sorted_append)
  qed
qed simp

text \<open>
  A calendar is built only from distinct dates; it lists them once each in order with the flags
  given, links every day to the nearest open dates before and after it, and the trading days of a
  period read from it are the open supplied dates of the period in increasing order.
\<close>

theorem calendar_links:
  assumes "build_calendar ex supplied flags = Inr days"
  shows "distinct supplied \<and> map cal_date days = sort supplied \<and>
    (\<forall>d\<in>set days. is_open d = open_flag flags (cal_date d) \<and>
       prev_trade_date d = (let before = {c \<in> set supplied. open_flag flags c \<and> c < cal_date d}
         in if before = {} then None else Some (Max before)) \<and>
       next_trade_date d = (let after = {c \<in> set supplied. open_flag flags c \<and> cal_date d < c}
         in if after = {} then None else Some (Min after))) \<and>
    trading_days_between days a b = sort (filter (\<lambda>c. open_flag flags c \<and> a \<le> c \<and> c \<le> b) supplied)"
proof -
  let ?open = "filter (open_flag flags) (sort supplied)"
  have dist: "distinct supplied" and days: "days = map (calendar_entry ex (open_flag flags) ?open) (sort supplied)"
    using assms by (auto simp: build_calendar_def Let_def split: if_splits)
  have sorted: "sorted ?open" by (simp add: filter_sort)
  have sets: "{c \<in> set ?open. P c} = {c \<in> set supplied. open_flag flags c \<and> P c}" for P by auto
  have "map cal_date days = sort supplied"
    by (simp add: days calendar_entry_def comp_def)
  moreover have "is_open d = open_flag flags (cal_date d) \<and>
       prev_trade_date d = (let before = {c \<in> set supplied. open_flag flags c \<and> c < cal_date d}
         in if before = {} then None else Some (Max before)) \<and>
       next_trade_date d = (let after = {c \<in> set supplied. open_flag flags c \<and> cal_date d < c}
         in if after = {} then None else Some (Min after))" if "d \<in> set days" for d
  proof -
    obtain c where "d = calendar_entry ex (open_flag flags) ?open c" using \<open>d \<in> set days\<close> by (auto simp: days)
    then show ?thesis
      unfolding Let_def by (simp only: calendar_entry_def calendar_day.select_convs
          find_first_above[OF sorted] find_last_below[OF sorted] sets)
  qed
  moreover have "trading_days_between days a b = sort (filter (\<lambda>c. open_flag flags c \<and> a \<le> c \<and> c \<le> b) supplied)"
    by (simp add: trading_days_between_def days filter_map comp_def calendar_entry_def filter_sort)
  ultimately show ?thesis using dist by blast
qed

lemma calendar_links_witness:
  "\<exists>days. build_calendar ''SSE'' [3, 1, 2] (Some [(2, False)]) = Inr days \<and>
     trading_days_between days 1 3 = [1, 3]"
proof -
  have b: "build_calendar ''SSE'' [3, 1, 2] (Some [(2, False)]) =
      Inr (map (calendar_entry ''SSE'' (open_flag (Some [(2, False)])) (filter (open_flag (Some [(2, False)])) (sort [3, 1, 2]))) (sort [3, 1, 2]))"
    by (simp add: build_calendar_def Let_def)
  from calendar_links[OF b, of 1 3] b show ?thesis
    by (auto simp: open_flag_def dict_get_def)
qed

end
