(* ===== verification/Rows.thy ===== *)
theory Rows
  imports IsoDates
begin

text \<open>
  Data rows as the importers hand them over: untyped values with Python's \<open>str\<close>, truth value and the
  date readings the quality gate and the universe selection share.
\<close>

definition two :: "int \<Rightarrow> string" where "two k = pad0 2 (int_str k)"

definition clock_text :: "int \<Rightarrow> string" where
  "clock_text us =
     (let secs = us div 1000000; frac = us mod 1000000
      in two (secs div 3600) @ '':'' @ two (secs div 60 mod 60) @ '':'' @ two (secs mod 60) @
         (if frac = 0 then [] else ''.'' @ pad0 6 (int_str frac)))"

definition offset_text :: "int \<Rightarrow> string" where
  "offset_text off =
     (let o' = \<bar>off\<bar>; secs = o' div 1000000; frac = o' mod 1000000
      in (if off < 0 then ''-'' else ''+'') @ two (secs div 3600) @ '':'' @ two (secs div 60 mod 60) @
         (if secs mod 60 = 0 \<and> frac = 0 then [] else '':'' @ two (secs mod 60)) @
         (if frac = 0 then [] else ''.'' @ pad0 6 (int_str frac)))"

definition datetime_text :: "char \<Rightarrow> datetime \<Rightarrow> string" where
  "datetime_text sep t = isoformat (dt_date t) @ [sep] @ clock_text (wall t mod day_us) @
     (case utcoff t of None \<Rightarrow> [] | Some off \<Rightarrow> offset_text off)"

text \<open>\<open>str(x)\<close> and \<open>bool(x)\<close>.\<close>

definition py_str :: "pyval \<Rightarrow> string" where
  "py_str v = (case v of
     PNone \<Rightarrow> ''None'' | PBool b \<Rightarrow> (if b then ''True'' else ''False'') | PInt i \<Rightarrow> int_str i
   | PText s \<Rightarrow> s | PDecimal s \<Rightarrow> s | PFloat s \<Rightarrow> s | PDate d \<Rightarrow> isoformat d
   | PDatetime t \<Rightarrow> datetime_text (CHR '' '') t)"

definition truthy :: "pyval \<Rightarrow> bool" where
  "truthy v = (case v of
     PNone \<Rightarrow> False | PBool b \<Rightarrow> b | PInt i \<Rightarrow> i \<noteq> 0 | PText s \<Rightarrow> s \<noteq> []
   | PDecimal s \<Rightarrow> parse_decimal s \<noteq> Some (Finite 0) | PFloat s \<Rightarrow> parse_decimal s \<noteq> Some (Finite 0)
   | PDate _ \<Rightarrow> True | PDatetime _ \<Rightarrow> True)"

text \<open>
  What a date reading returns: a \<open>date\<close>, or a \<open>datetime\<close>, which is an instance of \<open>date\<close> that
  cannot be ordered against one and never equals one.
\<close>

datatype dateish = Day date | Moment datetime

definition read_date :: "pyval \<Rightarrow> dateish option" where
  "read_date v = (case v of
     PDate d \<Rightarrow> Some (Day d) | PDatetime t \<Rightarrow> Some (Moment t)
   | PText s \<Rightarrow> map_option Day (date_fromisoformat s) | _ \<Rightarrow> None)"

definition dateish_eq :: "dateish \<Rightarrow> dateish \<Rightarrow> bool" where
  "dateish_eq a b = (case (a, b) of
     (Day x, Day y) \<Rightarrow> x = y | (Moment x, Moment y) \<Rightarrow> dt_eq x y | _ \<Rightarrow> False)"

definition on_or_before :: "dateish \<Rightarrow> date \<Rightarrow> bool res" where
  "on_or_before a d = (case a of Day x \<Rightarrow> Inr (x \<le> d) | Moment _ \<Rightarrow> Inl TypeError)"

text \<open>Short-circuit conjunction of a test and one that may raise.\<close>

definition and_then :: "bool \<Rightarrow> bool res \<Rightarrow> bool res" where
  "and_then b m = (if b then m else Inr False)"

definition filter_res :: "('a \<Rightarrow> bool res) \<Rightarrow> 'a list \<Rightarrow> 'a list res" where
  "filter_res P xs = fold_res (\<lambda>ys x. andThen (P x) (\<lambda>b. Inr (if b then ys @ [x] else ys))) [] xs"

lemma on_or_before_Inr_iff [result_simps]:
  "on_or_before a d = Inr b \<longleftrightarrow> (\<exists>x. a = Day x \<and> b = (x \<le> d))"
  by (cases a) (auto simp: on_or_before_def)

end
