(* ===== verification/Quality.thy ===== *)
theory Quality
  imports Rows
begin

text \<open>
  The quality gate of daily bars (\<open>app/domain/data/quality.py\<close>): it collects every issue of a batch
  and refuses the batch if there is one.
\<close>

record quality_issue =
  issue_symbol :: string
  issue_date :: "dateish option"
  issue_field :: string
  issue_message :: string

text \<open>\<open>DataQualityError\<close> with its issues, or another exception that leaves the gate.\<close>

datatype quality_failure = QualityError "quality_issue list" | Uncaught py_error

definition price_fields :: "string list" where
  "price_fields = [''raw_open'', ''raw_high'', ''raw_low'', ''raw_close'', ''adjusted_open'',
     ''adjusted_high'', ''adjusted_low'', ''adjusted_close'']"

definition required_fields :: "string list" where
  "required_fields = price_fields @ [''volume'', ''amount'', ''adjust_factor'']"

definition raise_issues :: "quality_issue list \<Rightarrow> quality_failure + unit" where
  "raise_issues issues = (if issues = [] then Inr () else Inl (QualityError issues))"

text \<open>\<open>str(row.get(k, default))\<close>\<close>

definition text_of :: "row \<Rightarrow> string \<Rightarrow> string \<Rightarrow> string" where
  "text_of r k absent = (case map_of r k of None \<Rightarrow> absent | Some v \<Rightarrow> py_str v)"

definition tz_aware :: "pyval \<Rightarrow> bool" where
  "tz_aware v = (case v of PDatetime t \<Rightarrow> \<not> is_naive t | _ \<Rightarrow> False)"

text \<open>The complaint about one required field, if any.\<close>

definition blank :: "pyval \<Rightarrow> bool" where
  "blank v = (case v of PNone \<Rightarrow> True | PText s \<Rightarrow> strip s = [] | _ \<Rightarrow> False)"

definition field_issue :: "string \<Rightarrow> pyval \<Rightarrow> string option" where
  "field_issue f v =
     (if blank v then Some ''value is required''
      else case decimal_of v of
        None \<Rightarrow> Some ''value must be numeric''
      | Some (Finite x) \<Rightarrow>
          if f \<in> set price_fields \<and> x \<le> 0 then Some ''price must be greater than zero''
          else if f = ''adjust_factor'' \<and> x \<le> 0 then Some ''adjust_factor must be greater than zero''
          else if f \<in> {''volume'', ''amount''} \<and> x < 0 then Some ''value cannot be negative''
          else None
      | Some _ \<Rightarrow> Some ''value must be finite'')"

definition field_issues :: "string \<Rightarrow> dateish option \<Rightarrow> row \<Rightarrow> quality_issue list" where
  "field_issues sm day r = concat (map (\<lambda>f. case field_issue f (row_get r f) of
     None \<Rightarrow> [] | Some msg \<Rightarrow> [\<lparr>issue_symbol = sm, issue_date = day, issue_field = f, issue_message = msg\<rparr>])
     required_fields)"

text \<open>The key of a bar, and membership in the set of keys seen so far.\<close>

definition seen_before :: "(string \<times> dateish) list \<Rightarrow> string \<times> dateish \<Rightarrow> bool" where
  "seen_before seen k \<longleftrightarrow> (\<exists>s\<in>set seen. fst s = fst k \<and> dateish_eq (snd s) (snd k))"

definition row_step :: "quality_issue list \<times> (string \<times> dateish) list \<Rightarrow> row
    \<Rightarrow> quality_issue list \<times> (string \<times> dateish) list" where
  "row_step = (\<lambda>(issues, seen) r.
     let sm = text_of r ''symbol'' []; day = read_date (row_get r ''trade_date'') in
     if sm = [] then
       (issues @ [\<lparr>issue_symbol = ''<missing>'', issue_date = day, issue_field = ''symbol'',
          issue_message = ''symbol is required''\<rparr>], seen)
     else
       let (date_issues, seen') = (case day of
             None \<Rightarrow> ([\<lparr>issue_symbol = sm, issue_date = None, issue_field = ''trade_date'',
               issue_message = ''trade_date is required''\<rparr>], seen)
           | Some d \<Rightarrow> (if seen_before seen (sm, d)
               then [\<lparr>issue_symbol = sm, issue_date = day, issue_field = ''security/date'',
                 issue_message = ''duplicate security/date''\<rparr>] else [], (sm, d) # seen));
         time_issues = (if tz_aware (row_get r ''available_at'') then []
           else [\<lparr>issue_symbol = sm, issue_date = day, issue_field = ''available_at'',
             issue_message = ''a timezone-aware per-bar availability time is required''\<rparr>])
       in (issues @ date_issues @ time_issues @ field_issues sm day r, seen'))"

definition validate_daily_bars :: "row list \<Rightarrow> quality_failure + unit" where
  "validate_daily_bars rows =
     (if rows = [] then Inl (QualityError [\<lparr>issue_symbol = ''<dataset>'', issue_date = None,
        issue_field = ''dataset'', issue_message = ''at least one daily bar is required''\<rparr>])
      else raise_issues (fst (foldl row_step ([], []) rows)))"

definition validate_batch_provenance :: "date \<Rightarrow> datetime \<Rightarrow> datetime \<Rightarrow> quality_failure + unit" where
  "validate_batch_provenance as_of available_at cutoff =
     (let issue = \<lambda>f msg. \<lparr>issue_symbol = ''<batch>'', issue_date = Some (Day as_of), issue_field = f,
            issue_message = msg\<rparr>
      in raise_issues
        ((if is_naive available_at then [issue ''available_at'' ''timezone is required''] else []) @
         (if is_naive cutoff then [issue ''information_cutoff_at'' ''timezone is required''] else []) @
         (if \<not> is_naive available_at \<and> \<not> is_naive cutoff \<and> \<not> dt_le (as_utc available_at) (as_utc cutoff)
          then [issue ''information_cutoff_at'' ''data is not available by information cutoff''] else [])))"

definition status_issue :: "date \<Rightarrow> row \<Rightarrow> (quality_issue list) res" where
  "status_issue as_of r = (case read_date (row_get r ''effective_date'') of
     None \<Rightarrow> Inr []
   | Some d \<Rightarrow> andThen (on_or_before d as_of) (\<lambda>ok. Inr (if ok then []
       else [\<lparr>issue_symbol = text_of r ''symbol'' ''<missing>'', issue_date = Some d,
         issue_field = ''effective_date'',
         issue_message = ''future status cannot be used for this as-of date''\<rparr>])))"

definition validate_status_history :: "row list \<Rightarrow> date \<Rightarrow> quality_failure + unit" where
  "validate_status_history rows as_of = (case map_res (status_issue as_of) rows of
     Inl e \<Rightarrow> Inl (Uncaught e)
   | Inr issues \<Rightarrow> raise_issues (concat issues))"

section \<open>What passes the gate\<close>

definition field_ok :: "row \<Rightarrow> string \<Rightarrow> bool" where
  "field_ok r f \<longleftrightarrow> \<not> blank (row_get r f) \<and>
     (\<exists>x. decimal_of (row_get r f) = Some (Finite x) \<and>
       (f \<in> set price_fields \<or> f = ''adjust_factor'' \<longrightarrow> 0 < x) \<and>
       (f \<in> {''volume'', ''amount''} \<longrightarrow> 0 \<le> x))"

definition bar_ok :: "row \<Rightarrow> bool" where
  "bar_ok r \<longleftrightarrow> text_of r ''symbol'' [] \<noteq> [] \<and> read_date (row_get r ''trade_date'') \<noteq> None \<and>
     tz_aware (row_get r ''available_at'') \<and> (\<forall>f\<in>set required_fields. field_ok r f)"

definition bar_key :: "row \<Rightarrow> string \<times> dateish" where
  "bar_key r = (text_of r ''symbol'' [], the (read_date (row_get r ''trade_date'')))"

definition same_bar :: "row \<Rightarrow> row \<Rightarrow> bool" where
  "same_bar a b \<longleftrightarrow> fst (bar_key a) = fst (bar_key b) \<and> dateish_eq (snd (bar_key a)) (snd (bar_key b))"

lemma price_not_special: "f \<in> set price_fields \<Longrightarrow> f \<noteq> ''adjust_factor'' \<and> f \<notin> {''volume'', ''amount''}"
  by (auto simp: price_fields_def)

lemma field_issue_None: "field_issue f (row_get r f) = None \<longleftrightarrow> field_ok r f"
  using price_not_special[of f]
  by (auto simp: field_issue_def field_ok_def not_le not_less split: option.splits dec_value.splits if_splits)

lemma field_issues_Nil: "field_issues sm day r = [] \<longleftrightarrow> (\<forall>f\<in>set required_fields. field_ok r f)"
  by (auto simp: field_issues_def field_issue_None [symmetric] split: option.splits)

lemma row_step_ok:
  assumes "bar_ok r"
  shows "fst (row_step (issues, seen) r) = [] \<longleftrightarrow> issues = [] \<and> \<not> seen_before seen (bar_key r)"
    and "snd (row_step (issues, seen) r) = bar_key r # seen"
proof -
  obtain d where d: "read_date (row_get r ''trade_date'') = Some d" using assms by (auto simp: bar_ok_def)
  have f: "field_issues sm day r = []" for sm day using assms by (simp add: field_issues_Nil bar_ok_def)
  show "fst (row_step (issues, seen) r) = [] \<longleftrightarrow> issues = [] \<and> \<not> seen_before seen (bar_key r)"
    "snd (row_step (issues, seen) r) = bar_key r # seen"
    using assms by (simp_all add: row_step_def Let_def d f bar_ok_def bar_key_def)
qed

lemma row_step_bad: "\<not> bar_ok r \<Longrightarrow> fst (row_step (issues, seen) r) \<noteq> []"
  using field_issues_Nil[of _ _ r]
  by (auto simp: row_step_def Let_def bar_ok_def split: option.splits)

lemma row_steps_keep_issues:
  "fst st \<noteq> [] \<Longrightarrow> fst (foldl row_step st rows) \<noteq> []"
proof (induction rows arbitrary: st)
  case (Cons r rows)
  have "fst (row_step st r) \<noteq> []"
    using Cons.prems by (cases st) (auto simp: row_step_def Let_def split: prod.splits)
  then show ?case by (simp add: Cons.IH)
qed simp

lemma row_steps_clean:
  "fst (foldl row_step (issues, seen) rows) = [] \<longleftrightarrow> issues = [] \<and> (\<forall>r\<in>set rows. bar_ok r) \<and>
     (\<forall>r\<in>set rows. \<not> seen_before seen (bar_key r)) \<and> sorted_wrt (\<lambda>a b. \<not> same_bar a b) rows"
proof (induction rows arbitrary: issues seen)
  case (Cons r rows)
  show ?case
  proof (cases "bar_ok r")
    case True
    obtain issues' where st: "row_step (issues, seen) r = (issues', bar_key r # seen)"
      using row_step_ok(2)[OF True, of issues seen] by (cases "row_step (issues, seen) r") auto
    then have new: "issues' = [] \<longleftrightarrow> issues = [] \<and> \<not> seen_before seen (bar_key r)"
      using row_step_ok(1)[OF True, of issues seen] by simp
    have sb: "seen_before (bar_key r # seen) k \<longleftrightarrow>
        fst (bar_key r) = fst k \<and> dateish_eq (snd (bar_key r)) (snd k) \<or> seen_before seen k" for k
      by (simp add: seen_before_def)
    show ?thesis
      unfolding foldl.simps st Cons.IH new using True by (auto simp: sb same_bar_def)
  next
    case False
    then have "fst (foldl row_step (row_step (issues, seen) r) rows) \<noteq> []"
      by (intro row_steps_keep_issues row_step_bad)
    then show ?thesis using False by simp
  qed
qed simp

text \<open>
  C23: The gate publishes a batch of daily bars iff it is not empty, every bar has a symbol, a date, a
  timezone-aware availability time and eleven finite numbers in their ranges, and no two bars have
  the same symbol and date; otherwise it fails with at least one issue and with no other exception.
\<close>

theorem bars_published_iff:
  "(validate_daily_bars rows = Inr () \<longleftrightarrow>
      rows \<noteq> [] \<and> (\<forall>r\<in>set rows. bar_ok r) \<and> sorted_wrt (\<lambda>a b. \<not> same_bar a b) rows) \<and>
    (validate_daily_bars rows = Inr () \<or>
      (\<exists>issues. issues \<noteq> [] \<and> validate_daily_bars rows = Inl (QualityError issues)))"
  using row_steps_clean[of "[]" "[]" rows]
  by (auto simp: validate_daily_bars_def raise_issues_def seen_before_def)

text \<open>A bar whose symbol is \<open>None\<close> has the symbol \<open>None\<close> as text and passes.\<close>

definition sample_bar_row :: "pyval \<Rightarrow> row" where
  "sample_bar_row sm = [(''symbol'', sm), (''trade_date'', PDate 738945),
     (''available_at'', PDatetime \<lparr>wall = 738945 * 86400000000, utcoff = Some 0\<rparr>)] @
     map (\<lambda>f. (f, PDecimal ''1'')) required_fields"

lemma sample_bar_row_ok: "bar_ok (sample_bar_row PNone)"
proof -
  have one: "parse_decimal ''1'' = Some (Finite 1)" by (simp add: parse_simps)
  have get: "row_get (sample_bar_row PNone) f = PDecimal ''1''" if "f \<in> set required_fields" for f
    using that by (auto simp: sample_bar_row_def row_get_def dict_get_def required_fields_def price_fields_def)
  have "field_ok (sample_bar_row PNone) f" if "f \<in> set required_fields" for f
    using one by (simp add: field_ok_def get[OF that] blank_def decimal_of_def)
  then show ?thesis
    by (simp add: bar_ok_def text_of_def sample_bar_row_def py_str_def row_get_def dict_get_def
        read_date_def tz_aware_def is_naive_def)
qed

lemma bars_published_iff_witness: "validate_daily_bars [sample_bar_row PNone] = Inr ()"
  using bars_published_iff[of "[sample_bar_row PNone]"] sample_bar_row_ok by simp

text \<open>
  A batch passes the provenance check iff both of its times carry a time zone and the data were
  available at the information cutoff, and a status history passes iff every row with a readable
  effective date has one on or before the as-of date; an effective \<open>datetime\<close> is not refused as an
  issue but ends the check with a \<open>TypeError\<close>.
\<close>

theorem provenance_checked:
  "(validate_batch_provenance as_of available_at cutoff = Inr () \<longleftrightarrow>
      \<not> is_naive available_at \<and> \<not> is_naive cutoff \<and> instant available_at \<le> instant cutoff) \<and>
    (validate_status_history rows as_of = Inr () \<longleftrightarrow>
      (\<forall>r\<in>set rows. read_date (row_get r ''effective_date'') \<in> {None} \<union> {Some (Day d) |d. d \<le> as_of})) \<and>
    (validate_status_history rows as_of = Inl (Uncaught e) \<longleftrightarrow>
      e = TypeError \<and> (\<exists>r\<in>set rows. \<exists>t. read_date (row_get r ''effective_date'') = Some (Moment t)))"
proof -
  have ok: "(\<exists>is. map_res (status_issue as_of) rows = Inr is \<and> concat is = []) \<longleftrightarrow>
      (\<forall>r\<in>set rows. read_date (row_get r ''effective_date'') \<in> {None} \<union> {Some (Day d) |d. d \<le> as_of})"
  proof (induction rows)
    case (Cons r rows)
    have "status_issue as_of r = Inr [] \<longleftrightarrow>
        read_date (row_get r ''effective_date'') \<in> {None} \<union> {Some (Day d) |d. d \<le> as_of}"
      by (auto simp: status_issue_def on_or_before_def split: option.splits dateish.splits)
    then show ?case unfolding set_simps ball_simps Cons.IH [symmetric] by (auto simp: andThen_Inr_iff)
  qed simp
  have bad: "map_res (status_issue as_of) rows = Inl e \<longleftrightarrow>
      e = TypeError \<and> (\<exists>r\<in>set rows. \<exists>t. read_date (row_get r ''effective_date'') = Some (Moment t))"
  proof (induction rows)
    case (Cons r rows)
    have r: "status_issue as_of r = Inl e' \<longleftrightarrow>
        e' = TypeError \<and> (\<exists>t. read_date (row_get r ''effective_date'') = Some (Moment t))" for e'
      by (auto simp: status_issue_def on_or_before_def split: option.splits dateish.splits)
    show ?case
    proof (cases "status_issue as_of r")
      case (Inl e')
      then show ?thesis using r[of e'] by auto
    next
      case (Inr x)
      then have "map_res (status_issue as_of) (r # rows) = Inl e \<longleftrightarrow> map_res (status_issue as_of) rows = Inl e"
        by (cases "map_res (status_issue as_of) rows") simp_all
      moreover have "\<nexists>t. read_date (row_get r ''effective_date'') = Some (Moment t)"
        using r[of TypeError] Inr by simp
      ultimately show ?thesis using Cons.IH by simp
    qed
  qed simp
  have "validate_batch_provenance as_of available_at cutoff = Inr () \<longleftrightarrow>
      \<not> is_naive available_at \<and> \<not> is_naive cutoff \<and> instant available_at \<le> instant cutoff"
    by (auto simp: validate_batch_provenance_def raise_issues_def Let_def dt_le_def)
  moreover have "validate_status_history rows as_of = Inr () \<longleftrightarrow>
      (\<exists>is. map_res (status_issue as_of) rows = Inr is \<and> concat is = [])"
    by (auto simp: validate_status_history_def raise_issues_def split: sum.splits)
  moreover have "validate_status_history rows as_of = Inl (Uncaught e) \<longleftrightarrow> map_res (status_issue as_of) rows = Inl e"
    by (auto simp: validate_status_history_def raise_issues_def split: sum.splits)
  ultimately show ?thesis using ok bad by blast
qed

end
