(* ===== verification/Universe.thy ===== *)
theory Universe
  imports Rows
begin

text \<open>
  The historical stock pool (\<open>app/domain/data/universe.py\<close>): which securities are eligible on a date,
  and why not, from the rows known on that date. An exception is a value: ordering a \<open>datetime\<close>
  against a \<open>date\<close> is a \<open>TypeError\<close>, ordering a NaN amount an \<open>InvalidOperation\<close>.
\<close>

record universe_decision =
  uni_symbol :: string
  eligible :: bool
  exclusion :: "string option"
  median_amount :: "dec_value option"

text \<open>The status history is a mapping from symbols to rows, or a list of rows.\<close>

datatype status_source = ByText "(string, row) dict" | RowList "row list"

definition minimum_listing_days :: nat where "minimum_listing_days = 60"
definition minimum_median_amount :: dec where "minimum_median_amount = 20000000"

definition uni_text :: "pyval \<Rightarrow> string" where
  "uni_text v = (case v of PNone \<Rightarrow> [] | _ \<Rightarrow> py_str v)"

definition uni_truth :: "pyval \<Rightarrow> bool" where
  "uni_truth v = (case v of
     PBool b \<Rightarrow> b | PText s \<Rightarrow> lower s \<in> {''true'', ''1'', ''yes''} | _ \<Rightarrow> False)"

definition available_on :: "row \<Rightarrow> date \<Rightarrow> bool" where
  "available_on r as_of = (case row_get r ''available_at'' of
     PNone \<Rightarrow> True
   | PDatetime t \<Rightarrow> dt_date t \<le> as_of
   | PDate d \<Rightarrow> d \<le> as_of
   | PText s \<Rightarrow> (case datetime_fromisoformat s of
       Some t \<Rightarrow> dt_date t \<le> as_of
     | None \<Rightarrow> (case date_fromisoformat s of Some d \<Rightarrow> d \<le> as_of | None \<Rightarrow> False))
   | _ \<Rightarrow> False)"

section \<open>Amounts\<close>

definition dv_rank :: "dec_value \<Rightarrow> int \<times> rat" where
  "dv_rank v = (case v of
     Infinite neg \<Rightarrow> (if neg then (0, 0) else (2, 0)) | Finite x \<Rightarrow> (1, x) | NotANumber \<Rightarrow> (3, 0))"

text \<open>\<open>sorted(values)\<close>: with two or more values every one is compared.\<close>

definition sort_amounts :: "dec_value list \<Rightarrow> dec_value list res" where
  "sort_amounts xs = (if 1 < length xs \<and> NotANumber \<in> set xs then Inl InvalidOperation
     else Inr (sort_key dv_rank xs))"

text \<open>\<open>sorted\<close> on pairs of a date and an amount: amounts are compared where dates are equal.\<close>

definition sort_dated :: "(date \<times> dec_value) list \<Rightarrow> (date \<times> dec_value) list res" where
  "sort_dated xs =
     (if list_ex (\<lambda>(d, a). a = NotANumber \<and> 1 < length (filter (\<lambda>(e, _). e = d) xs)) xs
      then Inl InvalidOperation
      else Inr (sort_key (\<lambda>(d, a). (d, dv_rank a)) xs))"

definition dv_add :: "dec_value \<Rightarrow> dec_value \<Rightarrow> dec_value res" where
  "dv_add a b = (case (a, b) of
     (NotANumber, _) \<Rightarrow> Inr NotANumber | (_, NotANumber) \<Rightarrow> Inr NotANumber
   | (Finite x, Finite y) \<Rightarrow> Inr (Finite (dadd x y))
   | (Finite _, Infinite n) \<Rightarrow> Inr (Infinite n) | (Infinite n, Finite _) \<Rightarrow> Inr (Infinite n)
   | (Infinite m, Infinite n) \<Rightarrow> if m = n then Inr (Infinite m) else Inl InvalidOperation)"

definition dv_half :: "dec_value \<Rightarrow> dec_value res" where
  "dv_half a = (case a of
     Finite x \<Rightarrow> andThen (ddiv x 2) (\<lambda>h. Inr (Finite h)) | Infinite n \<Rightarrow> Inr (Infinite n)
   | NotANumber \<Rightarrow> Inr NotANumber)"

text \<open>\<open>median\<close> of a sorted list that is not empty.\<close>

definition median_of :: "dec_value list \<Rightarrow> dec_value res" where
  "median_of xs = andThen (sort_amounts xs) (\<lambda>data.
     let n = length data in
     if odd n then Inr (data ! (n div 2))
     else andThen (dv_add (data ! (n div 2 - 1)) (data ! (n div 2))) dv_half)"

definition amount_entry :: "date \<Rightarrow> row \<Rightarrow> ((date \<times> dec_value) option) res" where
  "amount_entry as_of r = (case read_date (row_get r ''trade_date'') of
     None \<Rightarrow> Inr None
   | Some d \<Rightarrow> andThen (on_or_before d as_of) (\<lambda>early.
       if \<not> early \<or> \<not> available_on r as_of then Inr None
       else case (d, decimal_of (row_get r ''amount'')) of
         (Day day, Some a) \<Rightarrow> Inr (Some (day, a)) | _ \<Rightarrow> Inr None))"

definition add_amount :: "date \<Rightarrow> (string, (date \<times> dec_value) list) dict \<Rightarrow> row
    \<Rightarrow> (string, (date \<times> dec_value) list) dict res" where
  "add_amount as_of by_symbol r = andThen (amount_entry as_of r) (\<lambda>e. case e of
     None \<Rightarrow> Inr by_symbol
   | Some x \<Rightarrow> Inr (dict_append (uni_text (row_get r ''symbol'')) x by_symbol))"

definition last_amounts :: "(date \<times> dec_value) list \<Rightarrow> dec_value list res" where
  "last_amounts values = andThen (sort_dated values) (\<lambda>vs. Inr (map snd (slice_from (- 20) vs)))"

definition amounts_by_symbol :: "row list \<Rightarrow> date \<Rightarrow> (string, dec_value list) dict res" where
  "amounts_by_symbol bars as_of =
     andThen (fold_res (add_amount as_of) [] bars) (\<lambda>by_symbol.
       map_res (\<lambda>(s, values). andThen (last_amounts values) (\<lambda>vs. Inr (s, vs))) by_symbol)"

section \<open>Statuses\<close>

definition status_entry_ok :: "date \<Rightarrow> row \<Rightarrow> bool res" where
  "status_entry_ok as_of r = and_then (available_on r as_of)
     (case read_date (row_get r ''effective_date'') of None \<Rightarrow> Inr True | Some d \<Rightarrow> on_or_before d as_of)"

definition latest_status :: "date \<Rightarrow> (string, date \<times> row) dict \<Rightarrow> row \<Rightarrow> (string, date \<times> row) dict res" where
  "latest_status as_of selected r =
     (let s = uni_text (row_get r ''symbol'') in
      case read_date (row_get r ''effective_date'') of
        None \<Rightarrow> Inr selected
      | Some e \<Rightarrow> andThen (on_or_before e as_of) (\<lambda>early.
          case e of
            Day d \<Rightarrow>
              if early \<and> available_on r as_of \<and>
                (case map_of selected s of None \<Rightarrow> True | Some (prior, _) \<Rightarrow> prior < d)
              then Inr (dict_set s (d, r) selected) else Inr selected
          | Moment _ \<Rightarrow> Inr selected))"

definition status_by_symbol :: "status_source \<Rightarrow> date \<Rightarrow> (string, row) dict res" where
  "status_by_symbol src as_of = (case src of
     ByText d \<Rightarrow> filter_res (\<lambda>(s, r). status_entry_ok as_of r) d
   | RowList rows \<Rightarrow> andThen (fold_res (latest_status as_of) [] rows)
       (\<lambda>d. Inr (map (\<lambda>(s, e, r). (s, r)) d)))"

section \<open>The rules\<close>

definition below_minimum :: "dec_value \<Rightarrow> bool res" where
  "below_minimum v = (case v of
     Finite x \<Rightarrow> Inr (x < minimum_median_amount) | Infinite neg \<Rightarrow> Inr neg
   | NotANumber \<Rightarrow> Inl InvalidOperation)"

definition listing_reason :: "dateish option \<Rightarrow> date list \<Rightarrow> dec_value list \<Rightarrow> (string option) res" where
  "listing_reason listed_on open_dates amounts = (case listed_on of
     None \<Rightarrow> Inr (Some ''missing_list_date'')
   | Some l \<Rightarrow> andThen (map_res (\<lambda>day. case l of Day x \<Rightarrow> Inr (x \<le> day) | Moment _ \<Rightarrow> Inl TypeError) open_dates)
       (\<lambda>flags.
         if length (filter id flags) < minimum_listing_days
         then Inr (Some ''listed_less_than_60_trading_days'')
         else if length amounts < 20 then Inr (Some ''insufficient_20_day_amount_history'')
         else andThen (median_of amounts) (\<lambda>m. andThen (below_minimum m) (\<lambda>low.
           Inr (if low then Some ''median_amount_below_20000000'' else None)))))"

definition exclusion_reason ::
    "row \<Rightarrow> row \<Rightarrow> dateish option \<Rightarrow> date list \<Rightarrow> dec_value list \<Rightarrow> (string option) res" where
  "exclusion_reason security status listed_on open_dates amounts =
     (let board = uni_text (if truthy (row_get status ''board'') then row_get status ''board''
                            else row_get security ''board'') in
      if upper (uni_text (row_get security ''security_type'')) \<noteq> ''COMMON'' then Inr (Some ''non_common_stock'')
      else if upper board \<noteq> ''MAIN'' then Inr (Some ''non_mainboard_common_stock'')
      else if uni_truth (row_get status ''is_st'') then Inr (Some ''st'')
      else if uni_truth (row_get status ''is_suspended'') then Inr (Some ''suspended'')
      else if uni_truth (row_get status ''is_delist_period'') then Inr (Some ''delist_period'')
      else andThen (case read_date (row_get security ''delist_date'') of
             None \<Rightarrow> Inr False
           | Some d \<Rightarrow> on_or_before d (if open_dates = [] then 1 else last open_dates))
        (\<lambda>delisted. if delisted then Inr (Some ''delisted'')
           else listing_reason listed_on open_dates amounts))"

definition decide_security ::
    "date \<Rightarrow> (string, row) dict \<Rightarrow> (string, dec_value list) dict \<Rightarrow> date list \<Rightarrow> row \<Rightarrow> universe_decision res" where
  "decide_security as_of statuses amounts open_dates security =
     (let s = uni_text (row_get security ''symbol'');
          listed_on = read_date (row_get security ''list_date'');
          values = dict_get amounts s []
      in andThen (if \<not> available_on security as_of then Inr (Some ''data_not_available_at_as_of'')
                  else exclusion_reason security (dict_get statuses s []) listed_on open_dates values)
        (\<lambda>reason. andThen (sort_amounts values)
          (\<lambda>vs. andThen (if vs = [] then Inr None else andThen (median_of vs) (\<lambda>m. Inr (Some m)))
            (\<lambda>med. Inr \<lparr>uni_symbol = s, eligible = (reason = None), exclusion = reason,
               median_amount = med\<rparr>))))"

definition select_universe ::
    "date \<Rightarrow> row list \<Rightarrow> status_source \<Rightarrow> row list \<Rightarrow> date list \<Rightarrow> universe_decision list res" where
  "select_universe as_of securities history bars open_trade_dates =
     andThen (status_by_symbol history as_of) (\<lambda>statuses.
     andThen (amounts_by_symbol bars as_of) (\<lambda>amounts.
       let open_dates = sort (filter (\<lambda>d. d \<le> as_of) open_trade_dates)
       in map_res (decide_security as_of statuses amounts open_dates) securities))"

definition eligible_symbols ::
    "date \<Rightarrow> row list \<Rightarrow> status_source \<Rightarrow> row list \<Rightarrow> date list \<Rightarrow> string list res" where
  "eligible_symbols as_of securities history bars open_trade_dates =
     andThen (select_universe as_of securities history bars open_trade_dates)
       (\<lambda>ds. Inr (map uni_symbol (filter eligible ds)))"

section \<open>Properties\<close>

text \<open>Rows that may have a say on a date: a row with a \<open>datetime\<close> for a date stops the selection.\<close>

definition row_counts :: "string \<Rightarrow> date \<Rightarrow> row \<Rightarrow> bool" where
  "row_counts field as_of r = (case read_date (row_get r field) of
     None \<Rightarrow> False | Some (Moment _) \<Rightarrow> True | Some (Day d) \<Rightarrow> d \<le> as_of \<and> available_on r as_of)"

lemma latest_status_skip: "\<not> row_counts ''effective_date'' as_of r \<Longrightarrow> latest_status as_of sel r = Inr sel"
  by (auto simp: row_counts_def latest_status_def on_or_before_def Let_def split: option.splits dateish.splits)

lemma add_amount_skip: "\<not> row_counts ''trade_date'' as_of r \<Longrightarrow> add_amount as_of d r = Inr d"
  by (auto simp: row_counts_def add_amount_def amount_entry_def on_or_before_def split: option.splits dateish.splits)

text \<open>
  The pool of a date knows nothing of the future: leaving out every status row and every bar that
  is dated later, has no readable date or was not available on the date, and every later open date,
  changes neither a decision nor an exception.
\<close>

theorem universe_ignores_future:
  "select_universe as_of securities (RowList (filter (row_counts ''effective_date'' as_of) history))
      (filter (row_counts ''trade_date'' as_of) bars) (filter (\<lambda>d. d \<le> as_of) dates) =
   select_universe as_of securities (RowList history) bars dates"
proof -
  have "fold_res (latest_status as_of) [] (filter (row_counts ''effective_date'' as_of) history) =
      fold_res (latest_status as_of) [] history"
    by (rule fold_res_skip) (rule latest_status_skip)
  moreover have "fold_res (add_amount as_of) [] (filter (row_counts ''trade_date'' as_of) bars) =
      fold_res (add_amount as_of) [] bars"
    by (rule fold_res_skip) (rule add_amount_skip)
  ultimately show ?thesis
    by (simp add: select_universe_def status_by_symbol_def amounts_by_symbol_def)
qed

text \<open>The amounts kept for a symbol are amounts of its bars.\<close>

definition entries_of :: "date \<Rightarrow> row list \<Rightarrow> string \<Rightarrow> (date \<times> dec_value) list" where
  "entries_of as_of bars s = concat (map (\<lambda>r. case amount_entry as_of r of
     Inr (Some x) \<Rightarrow> if uni_text (row_get r ''symbol'') = s then [x] else [] | _ \<Rightarrow> []) bars)"

lemma fold_amounts:
  assumes "fold_res (add_amount as_of) d bars = Inr d'"
  shows "dict_get d' s [] = dict_get d s [] @ entries_of as_of bars s"
  using assms
proof (induction bars arbitrary: d)
  case (Cons r bars)
  from Cons.prems obtain d1 where d1: "add_amount as_of d r = Inr d1" "fold_res (add_amount as_of) d1 bars = Inr d'"
    by (auto simp: andThen_Inr_iff)
  obtain e where e: "amount_entry as_of r = Inr e" using d1(1) by (auto simp: add_amount_def andThen_Inr_iff)
  have "dict_get d1 s [] = dict_get d s [] @ entries_of as_of [r] s"
    using d1(1) e
    by (auto simp: add_amount_def entries_of_def dict_append_def dict_get_def dict_simps split: option.splits)
  then show ?case using Cons.IH[OF d1(2)] by (simp add: entries_of_def)
qed (simp add: entries_of_def)

lemma map_res_values:
  assumes "map_res (\<lambda>(k, v). andThen (f v) (\<lambda>w. Inr (k, w))) d = Inr d'"
  shows "case map_of d k of None \<Rightarrow> map_of d' k = None
    | Some v \<Rightarrow> \<exists>w. f v = Inr w \<and> map_of d' k = Some w"
  using assms
proof (induction d arbitrary: d')
  case (Cons x d)
  obtain k0 v0 where x: "x = (k0, v0)" by (cases x)
  obtain w0 d1 where "f v0 = Inr w0" "d' = (k0, w0) # d1"
      and d1: "map_res (\<lambda>(k, v). andThen (f v) (\<lambda>w. Inr (k, w))) d = Inr d1"
    using Cons.prems by (auto simp: andThen_Inr_iff x)
  then show ?case using Cons.IH[OF d1] by (auto simp: x split: option.splits)
qed simp

lemma last_amounts_length: "last_amounts xs = Inr ys \<Longrightarrow> length ys = min 20 (length xs)"
  by (auto simp: last_amounts_def andThen_Inr_iff sort_dated_def slice_from_def split: if_splits)

lemma amounts_length:
  assumes "amounts_by_symbol bars as_of = Inr amounts"
  shows "length (dict_get amounts s []) = min 20 (length (entries_of as_of bars s))"
proof -
  from assms obtain d where d: "fold_res (add_amount as_of) [] bars = Inr d"
    and m: "map_res (\<lambda>(s, values). andThen (last_amounts values) (\<lambda>vs. Inr (s, vs))) d = Inr amounts"
    by (auto simp: amounts_by_symbol_def andThen_Inr_iff)
  have "dict_get d s [] = entries_of as_of bars s" using fold_amounts[OF d, of s] by (simp add: dict_get_def)
  then show ?thesis
    using map_res_values[OF m, of s] last_amounts_length
    by (auto simp: dict_get_def split: option.splits)
qed

lemma map_res_Inr: "map_res (\<lambda>x. Inr (f x)) xs = Inr (map f xs)"
  by (induction xs) simp_all

lemma listing_reason_None:
  assumes "listing_reason listed_on open_dates amounts = Inr None"
  shows "\<exists>l m. listed_on = Some (Day l) \<and> 60 \<le> length (filter (\<lambda>day. l \<le> day) open_dates) \<and>
    20 \<le> length amounts \<and> median_of amounts = Inr m \<and> below_minimum m = Inr False"
proof -
  obtain l where l: "listed_on = Some l" using assms by (cases listed_on) (auto simp: listing_reason_def)
  show ?thesis
  proof (cases l)
    case (Day x)
    then show ?thesis using assms l
      by (auto simp: listing_reason_def map_res_Inr filter_map comp_def minimum_listing_days_def andThen_Inr_iff
          split: if_splits)
  next
    case (Moment t)
    have "open_dates = [] \<Longrightarrow> ?thesis" using assms l Moment
      by (simp add: listing_reason_def minimum_listing_days_def)
    moreover have "open_dates \<noteq> [] \<Longrightarrow> ?thesis" using assms l Moment
      by (cases open_dates) (simp_all add: listing_reason_def)
    ultimately show ?thesis by blast
  qed
qed

lemma exclusion_reason_None:
  assumes "exclusion_reason sec st listed_on open_dates amounts = Inr None"
  shows "upper (uni_text (row_get sec ''security_type'')) = ''COMMON'' \<and>
    upper (uni_text (if truthy (row_get st ''board'') then row_get st ''board'' else row_get sec ''board'')) = ''MAIN'' \<and>
    \<not> uni_truth (row_get st ''is_st'') \<and> \<not> uni_truth (row_get st ''is_suspended'') \<and>
    \<not> uni_truth (row_get st ''is_delist_period'') \<and> listing_reason listed_on open_dates amounts = Inr None"
  using assms by (auto simp: exclusion_reason_def Let_def andThen_Inr_iff split: if_splits)

lemma sort_twice: "sort_key dv_rank (sort_key dv_rank xs) = sort_key dv_rank xs"
  by (rule sort_key_id_if_sorted) simp

lemma median_of_sorted: "sort_amounts xs = Inr vs \<Longrightarrow> median_of vs = median_of xs"
proof -
  assume "sort_amounts xs = Inr vs"
  then have "sort_amounts vs = sort_amounts xs"
    by (auto simp: sort_amounts_def sort_twice split: if_splits)
  then show ?thesis by (simp only: median_of_def)
qed



definition sample_security :: row where
  "sample_security = [(''symbol'', PText ''600001''), (''security_type'', PText ''common''),
     (''board'', PText ''MAIN''), (''list_date'', PDate 1)]"

definition sample_amount :: "date \<Rightarrow> row" where
  "sample_amount d = [(''symbol'', PText ''600001''), (''trade_date'', PDate d), (''amount'', PInt 30000000)]"

lemma sample_universe:
  "select_universe 60 [sample_security] (RowList []) (map sample_amount [41..60]) [1..60] =
     Inr [\<lparr>uni_symbol = ''600001'', eligible = True, exclusion = None, median_amount = Some (Finite 30000000)\<rparr>]"
proof -
  have tx: "uni_text (PText s) = s" for s by (simp add: uni_text_def py_str_def)
  have e: "amount_entry 60 (sample_amount d) = Inr (Some (d, Finite 30000000))" if "d \<le> 60" for d
    using that by (simp add: amount_entry_def sample_amount_def row_get_def dict_get_def read_date_def
        on_or_before_def available_on_def decimal_of_def)
  have sy: "row_get (sample_amount d) ''symbol'' = PText ''600001''" for d
    by (simp add: sample_amount_def row_get_def dict_get_def)
  have f: "fold_res (add_amount 60) [(''600001'', xs)] (map sample_amount ds) =
      Inr [(''600001'', xs @ map (\<lambda>d. (d, Finite 30000000)) ds)]" if "\<forall>d\<in>set ds. d \<le> 60" for xs ds
    using that
  proof (induction ds arbitrary: xs)
    case (Cons d ds)
    then show ?case by (simp add: add_amount_def e sy tx dict_append_def dict_get_def)
  qed simp
  have g: "fold_res (add_amount 60) [] (map sample_amount (d # ds)) =
      Inr [(''600001'', map (\<lambda>d. (d, Finite 30000000)) (d # ds))]" if "\<forall>x\<in>set (d # ds). x \<le> 60" for d ds
    using that f[of ds "[(d, Finite 30000000)]"]
    by (simp add: add_amount_def[of _ "[]"] e sy tx dict_append_def dict_get_def)
  have "[41..60] = 41 # [42..60::int]" by (simp add: upto_rec1)
  then have fold: "fold_res (add_amount 60) [] (map sample_amount [41..60]) =
      Inr [(''600001'', map (\<lambda>d. (d, Finite 30000000)) [41..60])]"
    using g[of 41 "[42..60]"] by simp
  have sorted: "sorted (map (\<lambda>d. (d, dv_rank (Finite 30000000))) [41..60])"
    by (simp add: less_eq_prod_def)
  have "sort_dated (map (\<lambda>d. (d, Finite 30000000)) [41..60]) = Inr (map (\<lambda>d. (d, Finite 30000000)) [41..60])"
    using sorted by (simp add: sort_dated_def list_ex_iff sort_key_id_if_sorted comp_def)
  then have "last_amounts (map (\<lambda>d. (d, Finite 30000000)) [41..60]) = Inr (replicate 20 (Finite 30000000))"
    by (simp add: last_amounts_def slice_from_def comp_def numeral_eq_Suc)
  then have am: "amounts_by_symbol (map sample_amount [41..60]) 60 = Inr [(''600001'', replicate 20 (Finite 30000000))]"
    by (simp only: amounts_by_symbol_def fold andThen_simps map_res.simps prod.case)
  have so: "sort_amounts (replicate 20 (Finite 30000000)) = Inr (replicate 20 (Finite 30000000))"
    by (simp add: sort_amounts_def sort_key_id_if_sorted map_replicate sorted_replicate)
  have med: "median_of (replicate 20 (Finite 30000000)) = Inr (Finite 30000000)"
    by (simp add: median_of_def so dv_add_def dadd_def dv_half_def ddiv_def)
  let ?am = "replicate 20 (Finite 30000000)"
  have L: "listing_reason (Some (Day 1)) [1..60] ?am = Inr None"
    by (simp add: listing_reason_def map_res_Inr minimum_listing_days_def med below_minimum_def
        minimum_median_amount_def)
  have get: "row_get sample_security ''symbol'' = PText ''600001''"
    "row_get sample_security ''security_type'' = PText ''common''"
    "row_get sample_security ''board'' = PText ''MAIN''" "row_get sample_security ''list_date'' = PDate 1"
    "row_get sample_security ''delist_date'' = PNone" "row_get sample_security ''available_at'' = PNone"
    "row_get [] k = PNone" for k
    by (simp_all add: sample_security_def row_get_def dict_get_def)
  have "upper ''common'' = ''COMMON''" by code_simp
  then have "exclusion_reason sample_security [] (Some (Day 1)) [1..60] ?am = Inr None"
    unfolding exclusion_reason_def get by (simp only: tx) (simp add: truthy_def uni_truth_def tx read_date_def L)
  then have dec: "decide_security 60 [] [(''600001'', ?am)] [1..60] sample_security =
      Inr \<lparr>uni_symbol = ''600001'', eligible = True, exclusion = None, median_amount = Some (Finite 30000000)\<rparr>"
    unfolding decide_security_def get by (simp add: tx read_date_def dict_get_def available_on_def get so med)
  have "sort (filter (\<lambda>d. d \<le> 60) [1..60::int]) = [1..60]" by simp
  then show ?thesis
    by (simp only: select_universe_def status_by_symbol_def status_source.case fold_res.simps list.map
        andThen_simps am Let_def map_res.simps dec)
qed


end
