(* ===== verification/Uuids.thy ===== *)
theory Uuids
  imports PyText
begin

text \<open>
  UUIDs as Python's \<open>uuid.UUID\<close> reads and writes them: a UUID is its canonical text, 32 lower-case
  hexadecimal digits in groups of 8, 4, 4, 4 and 12.
\<close>

type_synonym uuid = string

definition is_hex :: "char \<Rightarrow> bool" where
  "is_hex c \<longleftrightarrow> c \<in> set ''0123456789abcdefABCDEF''"

definition is_lower_hex :: "char \<Rightarrow> bool" where
  "is_lower_hex c \<longleftrightarrow> c \<in> set ''0123456789abcdef''"

definition uuid_text :: "string \<Rightarrow> uuid" where
  "uuid_text h = take 8 h @ ''-'' @ take 4 (drop 8 h) @ ''-'' @ take 4 (drop 12 h) @ ''-'' @
     take 4 (drop 16 h) @ ''-'' @ drop 20 h"

definition uuid_ok :: "uuid \<Rightarrow> bool" where
  "uuid_ok u \<longleftrightarrow> (\<exists>h. length h = 32 \<and> list_all is_lower_hex h \<and> u = uuid_text h)"

text \<open>\<open>s.replace(p, '')\<close> for a non-empty \<open>p\<close>.\<close>

function remove_all :: "string \<Rightarrow> string \<Rightarrow> string" where
  "remove_all p s = (if p = [] \<or> s = [] then s
     else if starts_with p s then remove_all p (drop (length p) s)
     else hd s # remove_all p (tl s))"
  by pat_completeness auto
termination
  by (relation "measure (\<lambda>(p, s). length s)") (auto simp: neq_Nil_conv)

declare remove_all.simps [simp del]

definition strip_braces :: "string \<Rightarrow> string" where
  "strip_braces s =
     (let brace = (\<lambda>c. c = CHR ''{'' \<or> c = CHR ''}'')
      in rev (dropWhile brace (rev (dropWhile brace s))))"

text \<open>The digits of \<open>int(s, 16)\<close> for a text without a minus sign.\<close>

definition hex_digits :: "string \<Rightarrow> string option" where
  "hex_digits text =
     (let s = strip text; s = (if starts_with ''+'' s then tl s else s);
          s = (if starts_with ''0x'' s \<or> starts_with ''0X'' s
               then (if starts_with ''_'' (drop 2 s) then drop 3 s else drop 2 s) else s);
          parts = split_on (CHR ''_'') s
      in if list_all (\<lambda>p. p \<noteq> [] \<and> list_all is_hex p) parts then Some (concat parts) else None)"

definition parse_uuid :: "string \<Rightarrow> uuid option" where
  "parse_uuid s =
     (let h = filter (\<lambda>c. c \<noteq> CHR ''-'') (strip_braces (remove_all ''uuid:'' (remove_all ''urn:'' s)))
      in if length h \<noteq> 32 then None
         else map_option (\<lambda>d. uuid_text (replicate (32 - length d) CHR ''0'' @ lower d)) (hex_digits h))"

lemma remove_all_none: "hd p \<notin> set s \<Longrightarrow> p \<noteq> [] \<Longrightarrow> remove_all p s = s"
proof (induction s)
  case (Cons c s)
  have "\<not> starts_with p (c # s)"
    using Cons.prems by (cases p) (auto simp: starts_with_def)
  then show ?case using Cons by (subst remove_all.simps) simp
qed (simp add: remove_all.simps)

lemma lower_hex_chars:
  assumes "is_lower_hex c"
  shows "is_hex c" and "lower_char c = c" and "c \<noteq> CHR ''-''" and "c \<noteq> CHR ''_''" and "\<not> is_space c"
    and "c \<noteq> CHR ''+''" and "c \<noteq> CHR ''x''" and "c \<noteq> CHR ''X''" and "c \<noteq> CHR ''u''"
    and "c \<noteq> CHR ''{''" and "c \<noteq> CHR ''}''"
  using assms by (auto simp: is_lower_hex_def is_hex_def lower_char_def is_space_def)

lemma filter_uuid_text:
  assumes "list_all is_lower_hex h"
  shows "filter (\<lambda>c. c \<noteq> CHR ''-'') (uuid_text h) = h"
proof -
  have f: "filter (\<lambda>c. c \<noteq> CHR ''-'') xs = xs" if "set xs \<subseteq> set h" for xs
    using that assms lower_hex_chars(3) by (auto simp: list_all_iff intro!: filter_True)
  have "take 4 (drop 16 h) @ drop 20 h = drop 16 h"
    using append_take_drop_id[of 4 "drop 16 h"] by simp
  moreover have "take 4 (drop 12 h) @ drop 16 h = drop 12 h"
    using append_take_drop_id[of 4 "drop 12 h"] by simp
  moreover have "take 4 (drop 8 h) @ drop 12 h = drop 8 h"
    using append_take_drop_id[of 4 "drop 8 h"] by simp
  ultimately have "take 4 (drop 8 h) @ take 4 (drop 12 h) @ take 4 (drop 16 h) @ drop 20 h = drop 8 h"
    by simp
  moreover have "set (take n h) \<subseteq> set h" "set (drop n h) \<subseteq> set h" "set (take m (drop n h)) \<subseteq> set h" for n m
    by (meson order_trans set_take_subset set_drop_subset)+
  ultimately show ?thesis
    by (simp add: uuid_text_def f)
qed

lemma dropWhile_none: "(\<And>c. c \<in> set s \<Longrightarrow> \<not> P c) \<Longrightarrow> dropWhile P s = s"
  by (cases s) auto

lemma uuid_round_trip:
  assumes "uuid_ok u"
  shows "parse_uuid u = Some u"
proof -
  obtain h where h: "length h = 32" "list_all is_lower_hex h" and u: "u = uuid_text h"
    using assms by (auto simp: uuid_ok_def)
  have chars: "c = CHR ''-'' \<or> is_lower_hex c" if "c \<in> set u" for c
  proof (cases "c = CHR ''-''")
    case False
    then have "c \<in> set (filter (\<lambda>c. c \<noteq> CHR ''-'') u)" using that by simp
    then have "c \<in> set h" by (simp only: u filter_uuid_text[OF h(2)])
    then show ?thesis using h(2) by (simp add: list_all_iff)
  qed simp
  have "CHR ''u'' \<notin> set u" using chars lower_hex_chars(9) by fastforce
  then have "remove_all ''uuid:'' (remove_all ''urn:'' u) = u" by (simp add: remove_all_none)
  moreover have braces: "\<not> (c = CHR ''{'' \<or> c = CHR ''}'')" if "c \<in> set u" for c
    using chars[OF that] lower_hex_chars(10,11)[of c] by auto
  have "dropWhile (\<lambda>c. c = CHR ''{'' \<or> c = CHR ''}'') v = v" if "set v = set u" for v
    by (intro dropWhile_none braces) (use that in simp)
  then have "strip_braces u = u"
    by (simp add: strip_braces_def Let_def)
  ultimately have f: "filter (\<lambda>c. c \<noteq> CHR ''-'') (strip_braces (remove_all ''uuid:'' (remove_all ''urn:'' u))) = h"
    using h(2) by (simp add: u filter_uuid_text)
  have hc: "is_lower_hex c" if "c \<in> set h" for c using h(2) that by (simp add: list_all_iff)
  obtain a b r where hab: "h = a # b # r" using h(1) by (cases h; cases "tl h") auto
  have "dropWhile is_space v = v" if "set v = set h" for v
    by (intro dropWhile_none lower_hex_chars(5) hc) (use that in simp)
  then have st: "strip h = h" by (simp add: strip_def)
  have no: "CHR ''_'' \<notin> set h" using hc lower_hex_chars(4) by blast
  have "\<not> starts_with ''+'' h" "\<not> starts_with ''0x'' h" "\<not> starts_with ''0X'' h"
    using lower_hex_chars(6)[of a] lower_hex_chars(7,8)[of b] hc[of a] hc[of b]
    by (auto simp: starts_with_def hab)
  moreover have "list_all is_hex h" using hc lower_hex_chars(1) by (simp add: list_all_iff)
  moreover have "h \<noteq> []" using hab by simp
  ultimately have "hex_digits h = Some h"
    unfolding hex_digits_def Let_def st by (simp add: split_on_no_sep[OF no])
  moreover have "lower h = h" using hc lower_hex_chars(2) by (simp add: lower_def map_idI)
  ultimately show ?thesis using h(1) f by (simp add: parse_uuid_def Let_def u)
qed

text \<open>What is read is a UUID in canonical form.\<close>

lemma concat_split_on_length: "length (concat (split_on c s)) \<le> length s"
  by (induction s) (auto split: list.splits)

lemma lower_hex_chars_of_hex: "list_all (\<lambda>c. is_lower_hex (lower_char c)) ''0123456789abcdefABCDEF''"
  by code_simp

lemma lower_hex_of_hex: "is_hex c \<Longrightarrow> is_lower_hex (lower_char c)"
  using lower_hex_chars_of_hex unfolding is_hex_def list_all_iff by (rule bspec)

lemma hex_digits_Some:
  assumes "hex_digits s = Some d"
  shows "length d \<le> length s" and "list_all is_hex d"
proof -
  define a where "a = strip s"
  define b where "b = (if starts_with ''+'' a then tl a else a)"
  define e where "e = (if starts_with ''0x'' b \<or> starts_with ''0X'' b
      then (if starts_with ''_'' (drop 2 b) then drop 3 b else drop 2 b) else b)"
  have d: "d = concat (split_on (CHR ''_'') e)" "list_all (\<lambda>p. p \<noteq> [] \<and> list_all is_hex p) (split_on (CHR ''_'') e)"
    using assms by (auto simp: hex_digits_def Let_def a_def b_def e_def split: if_splits)
  have "length a \<le> length s"
    unfolding a_def strip_def by (metis length_dropWhile_le length_rev le_trans)
  then have "length e \<le> length s" by (auto simp: b_def e_def)
  then show "length d \<le> length s" using concat_split_on_length[of "CHR ''_''" e] d(1) by simp
  show "list_all is_hex d" using d by (auto simp: list_all_iff)
qed

lemma parse_uuid_ok:
  assumes "parse_uuid s = Some u"
  shows "uuid_ok u"
proof -
  obtain h d where h: "length h = 32" "hex_digits h = Some d"
    and u: "u = uuid_text (replicate (32 - length d) CHR ''0'' @ lower d)"
    using assms by (auto simp: parse_uuid_def Let_def split: if_splits)
  have "list_all is_lower_hex (replicate (32 - length d) CHR ''0'' @ lower d)"
    using hex_digits_Some(2)[OF h(2)] lower_hex_of_hex
    by (auto simp: list_all_iff lower_def is_lower_hex_def)
  moreover have "length (replicate (32 - length d) CHR ''0'' @ lower d) = 32"
    using hex_digits_Some(1)[OF h(2)] h(1) by (simp add: lower_def)
  ultimately show ?thesis unfolding uuid_ok_def u by blast
qed

end
