(* ===== verification/Sessions.thy ===== *)
theory Sessions
  imports Prelude Timestamps Uuids
begin

text \<open>
  Login sessions: the \<open>SessionRegistry\<close> protocol of \<open>app/core/security.py\<close> as a contract, the
  in-memory registry, and the durable one of \<open>app/infrastructure/repositories/runtime.py\<close> as its table of
  rows. Each operation of the latter is one transaction. Fresh ids and the clock are arguments.
\<close>

record 's registry_ops =
  create_session :: "'s \<Rightarrow> uuid \<Rightarrow> uuid \<Rightarrow> datetime \<Rightarrow> 's"
  revoke_session :: "'s \<Rightarrow> uuid \<Rightarrow> datetime \<Rightarrow> 's"
  revoke_user :: "'s \<Rightarrow> uuid \<Rightarrow> datetime \<Rightarrow> 's"
  is_active :: "'s \<Rightarrow> uuid \<Rightarrow> uuid \<Rightarrow> bool"
  consume :: "'s \<Rightarrow> uuid \<Rightarrow> uuid \<Rightarrow> datetime \<Rightarrow> bool \<times> 's"

section \<open>The in-memory registry\<close>

record memory_sessions =
  owner_of :: "(uuid, uuid) dict"
  revoked :: "uuid set"

definition mem_create :: "memory_sessions \<Rightarrow> uuid \<Rightarrow> uuid \<Rightarrow> datetime \<Rightarrow> memory_sessions" where
  "mem_create s user sid now = s\<lparr>owner_of := dict_set sid user (owner_of s)\<rparr>"

definition mem_revoke :: "memory_sessions \<Rightarrow> uuid \<Rightarrow> datetime \<Rightarrow> memory_sessions" where
  "mem_revoke s sid now = s\<lparr>revoked := insert sid (revoked s)\<rparr>"

definition mem_revoke_user :: "memory_sessions \<Rightarrow> uuid \<Rightarrow> datetime \<Rightarrow> memory_sessions" where
  "mem_revoke_user s user now =
     s\<lparr>revoked := revoked s \<union> set (filter (\<lambda>sid. map_of (owner_of s) sid = Some user) (map fst (owner_of s)))\<rparr>"

definition mem_is_active :: "memory_sessions \<Rightarrow> uuid \<Rightarrow> uuid \<Rightarrow> bool" where
  "mem_is_active s sid user \<longleftrightarrow> map_of (owner_of s) sid = Some user \<and> sid \<notin> revoked s"

definition mem_consume :: "memory_sessions \<Rightarrow> uuid \<Rightarrow> uuid \<Rightarrow> datetime \<Rightarrow> bool \<times> memory_sessions" where
  "mem_consume s sid user now =
     (if \<not> mem_is_active s sid user then (False, s)
      else (True, s\<lparr>revoked := insert sid (revoked s)\<rparr>))"

definition memory_registry :: "memory_sessions registry_ops" where
  "memory_registry = \<lparr>create_session = mem_create, revoke_session = mem_revoke,
     revoke_user = mem_revoke_user, is_active = mem_is_active, consume = mem_consume\<rparr>"

section \<open>The durable registry\<close>

record session_row =
  session_user :: uuid
  created_at :: datetime
  revoked_at :: "datetime option"

type_synonym session_table = "(uuid, session_row) dict"

definition db_create :: "session_table \<Rightarrow> uuid \<Rightarrow> uuid \<Rightarrow> datetime \<Rightarrow> session_table" where
  "db_create t user sid now =
     dict_set sid \<lparr>session_user = user, created_at = now, revoked_at = None\<rparr> t"

definition db_revoke :: "session_table \<Rightarrow> uuid \<Rightarrow> datetime \<Rightarrow> session_table" where
  "db_revoke t sid now = map (\<lambda>(i, r). (i, if i = sid then r\<lparr>revoked_at := Some now\<rparr> else r)) t"

definition db_revoke_user :: "session_table \<Rightarrow> uuid \<Rightarrow> datetime \<Rightarrow> session_table" where
  "db_revoke_user t user now =
     map (\<lambda>(i, r). (i, if session_user r = user \<and> revoked_at r = None then r\<lparr>revoked_at := Some now\<rparr> else r)) t"

definition db_is_active :: "session_table \<Rightarrow> uuid \<Rightarrow> uuid \<Rightarrow> bool" where
  "db_is_active t sid user \<longleftrightarrow> (case map_of t sid of
     None \<Rightarrow> False | Some r \<Rightarrow> session_user r = user \<and> revoked_at r = None)"

definition db_consume :: "session_table \<Rightarrow> uuid \<Rightarrow> uuid \<Rightarrow> datetime \<Rightarrow> bool \<times> session_table" where
  "db_consume t sid user now = (case map_of t sid of
     None \<Rightarrow> (False, t)
   | Some r \<Rightarrow>
       if session_user r \<noteq> user \<or> revoked_at r \<noteq> None then (False, t)
       else (True, dict_set sid (r\<lparr>revoked_at := Some now\<rparr>) t))"

definition db_registry :: "session_table registry_ops" where
  "db_registry = \<lparr>create_session = db_create, revoke_session = db_revoke,
     revoke_user = db_revoke_user, is_active = db_is_active, consume = db_consume\<rparr>"

section \<open>The contract\<close>

text \<open>
  \<open>known s i\<close>: the registry has heard of the session. A session is created under an id not known
  before, is active for its one owner until it is revoked or consumed, and never again after.
\<close>

locale session_registry =
  fixes ops :: "'s registry_ops" and known :: "'s \<Rightarrow> uuid \<Rightarrow> bool"
  assumes active_create: "\<not> known s i \<Longrightarrow>
      is_active ops (create_session ops s u i now) j v \<longleftrightarrow> (if j = i then v = u else is_active ops s j v)"
    and active_revoke: "is_active ops (revoke_session ops s i now) j v \<longleftrightarrow> is_active ops s j v \<and> j \<noteq> i"
    and active_revoke_user: "is_active ops (revoke_user ops s u now) j v \<longleftrightarrow> is_active ops s j v \<and> v \<noteq> u"
    and consume_answer: "fst (consume ops s i u now) \<longleftrightarrow> is_active ops s i u"
    and active_consume: "is_active ops (snd (consume ops s i u now)) j v \<longleftrightarrow>
      is_active ops s j v \<and> \<not> (j = i \<and> is_active ops s i u)"
    and known_create: "known (create_session ops s u i now) j \<longleftrightarrow> known s j \<or> j = i"
    and known_revoke: "known s j \<Longrightarrow> known (revoke_session ops s i now) j"
    and known_revoke_user: "known s j \<Longrightarrow> known (revoke_user ops s u now) j"
    and known_consume: "known (snd (consume ops s i u now)) j \<longleftrightarrow> known s j"
    and active_known: "is_active ops s i u \<Longrightarrow> known s i"
    and one_owner: "is_active ops s i u \<Longrightarrow> is_active ops s i v \<Longrightarrow> u = v"

lemma key_in: "map_of d k = Some v \<Longrightarrow> k \<in> fst ` set d"
  by (force dest: map_of_SomeD)

interpretation mem_sessions: session_registry memory_registry
  "\<lambda>s i. map_of (owner_of s) i \<noteq> None \<or> i \<in> revoked s"
  by unfold_locales
    (auto simp: memory_registry_def mem_create_def mem_revoke_def mem_revoke_user_def mem_is_active_def
      mem_consume_def dict_simps dest: key_in)

lemma map_of_map_rows: "map_of (map (\<lambda>(i, r). (i, f i r)) t) k = map_option (f k) (map_of t k)"
  by (induction t) auto

lemma fst_map_rows: "fst ` set (map (\<lambda>(i, r). (i, f i r)) t) = fst ` set t"
  by force

interpretation db_sessions: session_registry db_registry "\<lambda>t i. map_of t i \<noteq> None"
  by unfold_locales
    (auto simp: db_registry_def db_create_def db_revoke_def db_revoke_user_def db_is_active_def
      db_consume_def dict_simps map_of_map_rows split: option.splits)

text \<open>The durable registry answers as the in-memory one does for the same calls.\<close>

definition session_view :: "session_table \<Rightarrow> memory_sessions \<Rightarrow> bool" where
  "session_view t s \<longleftrightarrow> (\<forall>i. case map_of t i of
     None \<Rightarrow> map_of (owner_of s) i = None
   | Some r \<Rightarrow> map_of (owner_of s) i = Some (session_user r) \<and> (revoked_at r = None \<longleftrightarrow> i \<notin> revoked s))"

lemma keys_iff: "k \<in> fst ` set d \<longleftrightarrow> map_of d k \<noteq> None"
  by (simp add: map_of_eq_None_iff)

lemma session_viewD:
  "session_view t s \<Longrightarrow> (case map_of t j of None \<Rightarrow> map_of (owner_of s) j = None
    | Some r \<Rightarrow> map_of (owner_of s) j = Some (session_user r) \<and> (revoked_at r = None \<longleftrightarrow> j \<notin> revoked s))"
  by (simp add: session_view_def)

lemma active_agrees: "session_view t s \<Longrightarrow> db_is_active t i u = mem_is_active s i u"
  using session_viewD[of t s i] by (auto simp: db_is_active_def mem_is_active_def split: option.splits)

lemma consume_agrees: "session_view t s \<Longrightarrow> fst (db_consume t i u now) = fst (mem_consume s i u now)"
  using active_agrees[of t s i u] by (auto simp: db_consume_def db_is_active_def mem_consume_def split: option.splits)

lemma consume_keeps_view:
  assumes "session_view t s"
  shows "session_view (snd (db_consume t i u now)) (snd (mem_consume s i u now))"
  unfolding session_view_def
proof
  fix j
  show "case map_of (snd (db_consume t i u now)) j of
      None \<Rightarrow> map_of (owner_of (snd (mem_consume s i u now))) j = None
    | Some r \<Rightarrow> map_of (owner_of (snd (mem_consume s i u now))) j = Some (session_user r) \<and>
        (revoked_at r = None \<longleftrightarrow> j \<notin> revoked (snd (mem_consume s i u now)))"
    using session_viewD[OF assms, of i] session_viewD[OF assms, of j]
    by (cases "map_of t i"; cases "map_of t j"; cases "j = i")
      (auto simp: db_consume_def mem_consume_def mem_is_active_def dict_simps)
qed

lemma revoke_keeps_view:
  assumes "session_view t s"
  shows "session_view (db_revoke t i now) (mem_revoke s i now)"
  unfolding session_view_def
proof
  fix j
  show "case map_of (db_revoke t i now) j of None \<Rightarrow> map_of (owner_of (mem_revoke s i now)) j = None
    | Some r \<Rightarrow> map_of (owner_of (mem_revoke s i now)) j = Some (session_user r) \<and>
        (revoked_at r = None \<longleftrightarrow> j \<notin> revoked (mem_revoke s i now))"
    using session_viewD[OF assms, of j] by (cases "map_of t j") (auto simp: db_revoke_def mem_revoke_def map_of_map_rows)
qed

lemma revoke_user_keeps_view:
  assumes "session_view t s"
  shows "session_view (db_revoke_user t u now) (mem_revoke_user s u now)"
  unfolding session_view_def
proof
  fix j
  show "case map_of (db_revoke_user t u now) j of None \<Rightarrow> map_of (owner_of (mem_revoke_user s u now)) j = None
    | Some r \<Rightarrow> map_of (owner_of (mem_revoke_user s u now)) j = Some (session_user r) \<and>
        (revoked_at r = None \<longleftrightarrow> j \<notin> revoked (mem_revoke_user s u now))"
    using session_viewD[OF assms, of j]
    by (cases "map_of t j") (auto simp: db_revoke_user_def mem_revoke_user_def map_of_map_rows dest: key_in)
qed

lemma create_keeps_view:
  assumes "session_view t s" and "map_of t i = None" and "i \<notin> revoked s"
  shows "session_view (db_create t u i now) (mem_create s u i now)"
  unfolding session_view_def
proof
  fix j
  show "case map_of (db_create t u i now) j of None \<Rightarrow> map_of (owner_of (mem_create s u i now)) j = None
    | Some r \<Rightarrow> map_of (owner_of (mem_create s u i now)) j = Some (session_user r) \<and>
        (revoked_at r = None \<longleftrightarrow> j \<notin> revoked (mem_create s u i now))"
    using session_viewD[OF assms(1), of j] assms(2,3)
    by (cases "map_of t j"; cases "j = i") (auto simp: db_create_def mem_create_def dict_simps)
qed

text \<open>
  C26: The durable registry and the in-memory one implement the same sessions: related states answer
  alike whether a session is active and whether it can be consumed, and every operation (a session
  being created under an id that was not seen before) keeps them related.
\<close>

theorem session_stores_agree:
  assumes "session_view t s"
  shows "is_active db_registry t i u = is_active memory_registry s i u \<and>
    fst (consume db_registry t i u now) = fst (consume memory_registry s i u now) \<and>
    session_view (snd (consume db_registry t i u now)) (snd (consume memory_registry s i u now)) \<and>
    session_view (revoke_session db_registry t i now) (revoke_session memory_registry s i now) \<and>
    session_view (revoke_user db_registry t u now) (revoke_user memory_registry s u now) \<and>
    (map_of t i = None \<and> i \<notin> revoked s \<longrightarrow>
      session_view (create_session db_registry t u i now) (create_session memory_registry s u i now))"
  using assms
  by (simp add: memory_registry_def db_registry_def active_agrees consume_agrees consume_keeps_view revoke_keeps_view
    revoke_user_keeps_view create_keeps_view)

lemma session_stores_agree_witness:
  "session_view (create_session db_registry [] ''u'' ''s'' \<lparr>wall = 0, utcoff = Some 0\<rparr>)
     (create_session memory_registry \<lparr>owner_of = [], revoked = {}\<rparr> ''u'' ''s'' \<lparr>wall = 0, utcoff = Some 0\<rparr>)"
  using session_stores_agree[of "[]" "\<lparr>owner_of = [], revoked = {}\<rparr>" "''s''" "''u''"
      "\<lparr>wall = 0, utcoff = Some 0\<rparr>"]
  by (simp add: session_view_def)

end
