(* ===== verification/Security.thy ===== *)
theory Security
  imports Sessions Rows
begin

text \<open>
  Authentication (\<open>app/core/security.py\<close>): accounts, token pairs, the local authenticator over a
  session registry. The JWT and Argon2 libraries are parameters (\<open>crypto\<close>): \<open>jwt_encode\<close> and
  \<open>jwt_decode now\<close> under the service's key, and the verification of a password hash.
\<close>

datatype role = USER | REVIEWER | ADMIN

definition role_name :: "role \<Rightarrow> string" where
  "role_name r = (case r of USER \<Rightarrow> ''USER'' | REVIEWER \<Rightarrow> ''REVIEWER'' | ADMIN \<Rightarrow> ''ADMIN'')"

text \<open>\<open>roles\<close> lists the elements of the frozen set in its iteration order.\<close>

record account =
  account_id :: uuid
  username :: string
  password_hash :: string
  roles :: "role list"
  enabled :: bool

record principal =
  user_id :: uuid
  principal_name :: string
  principal_roles :: "role list"
  session_id :: uuid

datatype claim = Words string | Names "string list" | Number int | Stamp datetime

type_synonym claims = "(string, claim) dict"

record 't token_pair =
  access_token :: 't
  refresh_token :: 't

datatype verification = Verified bool | VerificationFailed | VerifierRaised py_error

record 't crypto =
  jwt_encode :: "claims \<Rightarrow> 't"
  jwt_decode :: "datetime \<Rightarrow> 't \<Rightarrow> claims option"
  argon_verify :: "string \<Rightarrow> string \<Rightarrow> verification"

text \<open>\<open>verify\<close> answers False when the library reports a failed verification.\<close>

definition verify_password :: "'t crypto \<Rightarrow> string \<Rightarrow> string \<Rightarrow> bool res" where
  "verify_password c h password = (case argon_verify c h password of
     Verified b \<Rightarrow> Inr b | VerificationFailed \<Rightarrow> Inr False | VerifierRaised e \<Rightarrow> Inl e)"

section \<open>Tokens\<close>

definition access_lifetime :: int where "access_lifetime = 30 * 60 * 1000000"
definition refresh_lifetime :: int where "refresh_lifetime = 7 * day_us"

definition token_claims :: "account \<Rightarrow> uuid \<Rightarrow> string \<Rightarrow> int \<Rightarrow> datetime \<Rightarrow> claims" where
  "token_claims a sid kind lifetime now =
     [(''sub'', Words (account_id a)), (''username'', Words (username a)),
      (''roles'', Names (map role_name (roles a))), (''sid'', Words sid), (''kind'', Words kind),
      (''iat'', Stamp now), (''exp'', Stamp (now\<lparr>wall := wall now + lifetime\<rparr>))]"

definition issue :: "'t crypto \<Rightarrow> account \<Rightarrow> uuid \<Rightarrow> datetime \<Rightarrow> datetime \<Rightarrow> 't token_pair" where
  "issue c a sid now now' =
     \<lparr>access_token = jwt_encode c (token_claims a sid ''access'' access_lifetime now),
      refresh_token = jwt_encode c (token_claims a sid ''refresh'' refresh_lifetime now')\<rparr>"

definition decode_token :: "'t crypto \<Rightarrow> datetime \<Rightarrow> 't \<Rightarrow> string \<Rightarrow> claims res" where
  "decode_token c now token expected_kind = (case jwt_decode c now token of
     None \<Rightarrow> Inl (AuthenticationError ''invalid or expired token'')
   | Some cl \<Rightarrow> if map_of cl ''kind'' \<noteq> Some (Words expected_kind)
       then Inl (AuthenticationError ''unexpected token type'') else Inr cl)"

section \<open>Accounts\<close>

text \<open>
  Accounts come from a directory when there is one, else from the authenticator's own dictionary.
\<close>

record 'd directory_ops =
  dir_get :: "'d \<Rightarrow> string \<Rightarrow> account option"
  dir_set_enabled :: "'d \<Rightarrow> uuid \<Rightarrow> bool \<Rightarrow> unit res \<times> 'd"
  dir_set_roles :: "'d \<Rightarrow> uuid \<Rightarrow> role list \<Rightarrow> unit res \<times> 'd"

datatype 'd accounts = Local "(string, account) dict" | Directory 'd

record ('d, 's) auth_state =
  auth_accounts :: "'d accounts"
  auth_sessions :: 's

record ('t, 'd, 's) auth_env =
  env_crypto :: "'t crypto"
  env_directory :: "'d directory_ops"
  env_sessions :: "'s registry_ops"

definition find_account :: "('t, 'd, 's) auth_env \<Rightarrow> ('d, 's) auth_state \<Rightarrow> string \<Rightarrow> account option" where
  "find_account env st name = (case auth_accounts st of
     Directory d \<Rightarrow> dir_get (env_directory env) d name | Local as \<Rightarrow> map_of as name)"

text \<open>The first account of the dictionary with the id is replaced.\<close>

fun replace_account :: "uuid \<Rightarrow> (account \<Rightarrow> account) \<Rightarrow> (string, account) dict \<Rightarrow> (string, account) dict option" where
  "replace_account u f [] = None"
| "replace_account u f ((n, a) # as) =
     (if account_id a = u then Some ((n, f a) # as)
      else map_option (\<lambda>as'. (n, a) # as') (replace_account u f as))"

definition update_account ::
    "('d \<Rightarrow> unit res \<times> 'd) \<Rightarrow> uuid \<Rightarrow> (account \<Rightarrow> account) \<Rightarrow> ('d, 's) auth_state
      \<Rightarrow> unit res \<times> ('d, 's) auth_state" where
  "update_account dir_op u f st = (case auth_accounts st of
     Directory d \<Rightarrow> (case dir_op d of (out, d') \<Rightarrow> (out, st\<lparr>auth_accounts := Directory d'\<rparr>))
   | Local as \<Rightarrow> (case replace_account u f as of
       None \<Rightarrow> (Inl (AuthenticationError ''account not found''), st)
     | Some as' \<Rightarrow> (Inr (), st\<lparr>auth_accounts := Local as'\<rparr>)))"

definition set_account_enabled where
  "set_account_enabled env st u b =
     update_account (\<lambda>d. dir_set_enabled (env_directory env) d u b) u (\<lambda>a. a\<lparr>enabled := b\<rparr>) st"

definition set_roles where
  "set_roles env st u rs =
     update_account (\<lambda>d. dir_set_roles (env_directory env) d u rs) u (\<lambda>a. a\<lparr>roles := rs\<rparr>) st"

section \<open>Principals\<close>

text \<open>\<open>repr\<close> of an ASCII string and of a list of strings, and \<open>str(value)\<close> of a claim.\<close>

definition hex_pair :: "nat \<Rightarrow> string" where
  "hex_pair n = [''0123456789abcdef'' ! (n div 16), ''0123456789abcdef'' ! (n mod 16)]"

definition repr_char :: "char \<Rightarrow> char \<Rightarrow> string" where
  "repr_char q c =
     (if c = CHR 0x5C \<or> c = q then [CHR 0x5C, c]
      else if c = CHR 0x0A then [CHR 0x5C, CHR ''n''] else if c = CHR 0x0D then [CHR 0x5C, CHR ''r'']
      else if c = CHR 0x09 then [CHR 0x5C, CHR ''t'']
      else if (of_char c :: nat) < 32 \<or> (of_char c :: nat) = 127 then [CHR 0x5C, CHR ''x''] @ hex_pair (of_char c)
      else [c])"

definition repr_str :: "string \<Rightarrow> string" where
  "repr_str s = (let q = (if CHR 0x27 \<in> set s \<and> CHR 0x22 \<notin> set s then CHR 0x22 else CHR 0x27)
     in [q] @ concat (map (repr_char q) s) @ [q])"

fun repr_items :: "string list \<Rightarrow> string" where
  "repr_items [] = []"
| "repr_items [x] = repr_str x"
| "repr_items (x # xs) = repr_str x @ '', '' @ repr_items xs"

definition claim_text :: "claim \<Rightarrow> string" where
  "claim_text v = (case v of
     Words s \<Rightarrow> s | Number i \<Rightarrow> int_str i | Names xs \<Rightarrow> ''['' @ repr_items xs @ '']''
   | Stamp t \<Rightarrow> py_str (PDatetime t))"

text \<open>Whether \<open>frozenset(Role(role) for role in claim)\<close> goes through; a text is iterated by character.\<close>

definition claim_roles_ok :: "claim \<Rightarrow> bool" where
  "claim_roles_ok v = (case v of
     Names xs \<Rightarrow> list_all (\<lambda>x. x \<in> role_name ` {USER, REVIEWER, ADMIN}) xs
   | Words s \<Rightarrow> s = [] | _ \<Rightarrow> False)"

definition principal_from_claims ::
    "('t, 'd, 's) auth_env \<Rightarrow> ('d, 's) auth_state \<Rightarrow> claims \<Rightarrow> principal res" where
  "principal_from_claims env st cl =
     (let field = (\<lambda>k. map_option claim_text (map_of cl k));
          invalid = Inl (AuthenticationError ''invalid token claims'') in
      case (Option.bind (field ''sub'') parse_uuid, Option.bind (field ''sid'') parse_uuid, field ''username'') of
        (Some u, Some sid, Some name) \<Rightarrow>
          if \<not> (\<exists>v. map_of cl ''roles'' = Some v \<and> claim_roles_ok v) then invalid
          else (case find_account env st name of
            None \<Rightarrow> Inl (AuthenticationError ''account is unavailable'')
          | Some a \<Rightarrow>
              if account_id a \<noteq> u \<or> \<not> enabled a then Inl (AuthenticationError ''account is unavailable'')
              else if \<not> is_active (env_sessions env) (auth_sessions st) sid u
              then Inl (AuthenticationError ''session is revoked'')
              else Inr \<lparr>user_id = u, principal_name = name, principal_roles = roles a, session_id = sid\<rparr>)
      | _ \<Rightarrow> invalid)"

section \<open>The authenticator\<close>

definition login ::
    "('t, 'd, 's) auth_env \<Rightarrow> ('d, 's) auth_state \<Rightarrow> string \<Rightarrow> string \<Rightarrow> uuid \<Rightarrow> datetime \<Rightarrow> datetime \<Rightarrow> datetime
      \<Rightarrow> 't token_pair res \<times> ('d, 's) auth_state" where
  "login env st name password sid now now1 now2 =
     (let invalid = (Inl (AuthenticationError ''invalid credentials''), st) in
      case find_account env st name of
        None \<Rightarrow> invalid
      | Some a \<Rightarrow>
          if \<not> enabled a then invalid
          else (case verify_password (env_crypto env) (password_hash a) password of
            Inl e \<Rightarrow> (Inl e, st)
          | Inr False \<Rightarrow> invalid
          | Inr True \<Rightarrow>
              (Inr (issue (env_crypto env) a sid now1 now2),
               st\<lparr>auth_sessions := create_session (env_sessions env) (auth_sessions st) (account_id a) sid now\<rparr>)))"

definition authenticate ::
    "('t, 'd, 's) auth_env \<Rightarrow> ('d, 's) auth_state \<Rightarrow> string \<Rightarrow> 't \<Rightarrow> datetime \<Rightarrow> principal res" where
  "authenticate env st kind token now =
     andThen (decode_token (env_crypto env) now token kind) (principal_from_claims env st)"

definition authenticate_access_token where
  "authenticate_access_token env st token now = authenticate env st ''access'' token now"

definition refresh ::
    "('t, 'd, 's) auth_env \<Rightarrow> ('d, 's) auth_state \<Rightarrow> 't \<Rightarrow> uuid \<Rightarrow> datetime \<Rightarrow> datetime \<Rightarrow> datetime
      \<Rightarrow> 't token_pair res \<times> ('d, 's) auth_state" where
  "refresh env st token sid now now1 now2 =
     (case authenticate env st ''refresh'' token now of
        Inl e \<Rightarrow> (Inl e, st)
      | Inr p \<Rightarrow>
          (case consume (env_sessions env) (auth_sessions st) (session_id p) (user_id p) now of
             (False, s') \<Rightarrow> (Inl (AuthenticationError ''refresh token was already consumed''),
               st\<lparr>auth_sessions := s'\<rparr>)
           | (True, s') \<Rightarrow>
               let st' = st\<lparr>auth_sessions := s'\<rparr> in
               (case find_account env st' (principal_name p) of
                  None \<Rightarrow> (Inl (AuthenticationError ''account is unavailable''), st')
                | Some a \<Rightarrow> (Inr (issue (env_crypto env) a sid now1 now2),
                    st'\<lparr>auth_sessions := create_session (env_sessions env) s' (account_id a) sid now\<rparr>))))"

definition logout ::
    "('t, 'd, 's) auth_env \<Rightarrow> ('d, 's) auth_state \<Rightarrow> 't \<Rightarrow> datetime \<Rightarrow> unit res \<times> ('d, 's) auth_state" where
  "logout env st token now =
     (case authenticate env st ''refresh'' token now of
        Inl e \<Rightarrow> (Inl e, st)
      | Inr p \<Rightarrow> (Inr (), st\<lparr>auth_sessions := revoke_session (env_sessions env) (auth_sessions st) (session_id p) now\<rparr>))"

definition revoke_user_sessions where
  "revoke_user_sessions env st u now =
     st\<lparr>auth_sessions := revoke_user (env_sessions env) (auth_sessions st) u now\<rparr>"

definition disable_account where
  "disable_account env st u now =
     (case set_account_enabled env st u False of
        (Inl e, st') \<Rightarrow> (Inl e, st')
      | (Inr x, st') \<Rightarrow> (Inr x, revoke_user_sessions env st' u now))"

definition enable_account where
  "enable_account env st u = set_account_enabled env st u True"

definition require_roles :: "principal \<Rightarrow> role list \<Rightarrow> unit res" where
  "require_roles p rs = (if \<exists>r\<in>set rs. r \<in> set (principal_roles p) then Inr ()
     else Inl (AccessDenied ''insufficient role''))"

section \<open>What every call does to the sessions\<close>

text \<open>The calls of the authenticator; new sessions get ids the registry has not seen.\<close>

inductive auth_step ::
    "('t, 'd, 's) auth_env \<Rightarrow> ('s \<Rightarrow> uuid \<Rightarrow> bool) \<Rightarrow> ('d, 's) auth_state \<Rightarrow> ('d, 's) auth_state \<Rightarrow> bool"
  for env known where
  Login: "\<not> known (auth_sessions st) sid \<Longrightarrow> login env st name password sid now now1 now2 = (out, st') \<Longrightarrow>
    auth_step env known st st'"
| Refresh: "\<not> known (auth_sessions st) sid \<Longrightarrow> refresh env st token sid now now1 now2 = (out, st') \<Longrightarrow>
    auth_step env known st st'"
| Logout: "logout env st token now = (done, st') \<Longrightarrow> auth_step env known st st'"
| Disable: "disable_account env st u now = (done, st') \<Longrightarrow> auth_step env known st st'"
| Enable: "enable_account env st u = (done, st') \<Longrightarrow> auth_step env known st st'"
| Roles: "set_roles env st u rs = (done, st') \<Longrightarrow> auth_step env known st st'"
| RevokeUser: "auth_step env known st (revoke_user_sessions env st u now)"

text \<open>A session that cannot come back to life.\<close>

definition dead :: "('t, 'd, 's) auth_env \<Rightarrow> ('s \<Rightarrow> uuid \<Rightarrow> bool) \<Rightarrow> ('d, 's) auth_state \<Rightarrow> uuid \<Rightarrow> uuid \<Rightarrow> bool" where
  "dead env known st i u \<longleftrightarrow> known (auth_sessions st) i \<and> \<not> is_active (env_sessions env) (auth_sessions st) i u"

lemma principal_from_claims_Inr:
  assumes "principal_from_claims env st cl = Inr p"
  shows "is_active (env_sessions env) (auth_sessions st) (session_id p) (user_id p) \<and>
    (\<exists>a. find_account env st (principal_name p) = Some a \<and> account_id a = user_id p \<and> enabled a \<and>
      principal_roles p = roles a)"
proof -
  obtain u sid name where f: "Option.bind (map_option claim_text (map_of cl ''sub'')) parse_uuid = Some u"
      "Option.bind (map_option claim_text (map_of cl ''sid'')) parse_uuid = Some sid"
      "map_option claim_text (map_of cl ''username'') = Some name"
    using assms unfolding principal_from_claims_def Let_def by (simp split: option.splits)
  have r: "\<exists>v. map_of cl ''roles'' = Some v \<and> claim_roles_ok v"
    using assms unfolding principal_from_claims_def Let_def f by (simp split: if_splits)
  obtain a where a: "find_account env st name = Some a"
    using assms r unfolding principal_from_claims_def Let_def f by (simp split: option.splits)
  show ?thesis
    using assms r a unfolding principal_from_claims_def Let_def f by (auto split: if_splits)
qed

lemma authenticate_Inr:
  assumes "authenticate env st kind token now = Inr p"
  shows "is_active (env_sessions env) (auth_sessions st) (session_id p) (user_id p) \<and>
    (\<exists>a. find_account env st (principal_name p) = Some a \<and> account_id a = user_id p \<and> enabled a \<and>
      principal_roles p = roles a) \<and>
    (\<exists>cl. jwt_decode (env_crypto env) now token = Some cl \<and> map_of cl ''kind'' = Some (Words kind))"
proof -
  from assms obtain cl where d: "decode_token (env_crypto env) now token kind = Inr cl"
    and p: "principal_from_claims env st cl = Inr p"
    unfolding authenticate_def andThen_Inr_iff by blast
  have "jwt_decode (env_crypto env) now token = Some cl \<and> map_of cl ''kind'' = Some (Words kind)"
    using d by (simp add: decode_token_def split: option.splits if_splits)
  with principal_from_claims_Inr[OF p] show ?thesis by blast
qed

lemma update_account_sessions [simp]:
  "update_account f u g st = (out, st') \<Longrightarrow> auth_sessions st' = auth_sessions st"
  by (auto simp: update_account_def split: accounts.splits option.splits prod.splits)

context session_registry
begin

lemma dead_create:
  assumes "\<not> known s j" and "known s i" and "\<not> is_active ops s i u"
  shows "known (create_session ops s v j now) i \<and> \<not> is_active ops (create_session ops s v j now) i u"
  using assms by (auto simp: known_create active_create)

lemma step_keeps_dead:
  assumes "auth_step env known st st'" and "env_sessions env = ops" and "dead env known st i u"
  shows "dead env known st' i u"
proof -
  have k: "known (auth_sessions st) i" and a: "\<not> is_active ops (auth_sessions st) i u"
    using assms(2,3) by (simp_all add: dead_def)
  from assms(1) show ?thesis
  proof cases
    case (Login sid name password now now1 now2 out)
    then show ?thesis using k a dead_create[OF Login(1) k a]
      by (auto simp: login_def Let_def dead_def assms(2) split: option.splits if_splits sum.splits bool.splits)
  next
    case (Refresh sid token now now1 now2 out)
    show ?thesis
    proof (cases "authenticate env st ''refresh'' token now")
      case (Inr p)
      obtain b s' where c: "consume ops (auth_sessions st) (session_id p) (user_id p) now = (b, s')"
        by (cases "consume ops (auth_sessions st) (session_id p) (user_id p) now")
      have k': "known s' i" "\<not> is_active ops s' i u" "\<not> known s' sid"
        using known_consume[of "auth_sessions st" "session_id p" "user_id p" now] k Refresh(1)
          active_consume[of "auth_sessions st" "session_id p" "user_id p" now i u] c a by auto
      have "auth_sessions st' = s' \<or> (\<exists>v. auth_sessions st' = create_session ops s' v sid now)"
        using Refresh(2) Inr c
        by (auto simp: refresh_def Let_def assms(2) split: option.splits bool.splits)
      then show ?thesis using k'(1,2) dead_create[OF k'(3,1,2)] by (auto simp: dead_def assms(2))
    qed (use Refresh(2) assms(3) in \<open>simp add: refresh_def\<close>)
  next
    case (Logout token now done')
    then show ?thesis using k a
      by (auto simp: logout_def dead_def assms(2) known_revoke active_revoke split: sum.splits)
  next
    case (Disable v now done')
    obtain out st2 where u: "set_account_enabled env st v False = (out, st2)" by (cases "set_account_enabled env st v False")
    then have "auth_sessions st2 = auth_sessions st" by (simp add: set_account_enabled_def)
    then show ?thesis using Disable u k a
      by (cases out) (auto simp: disable_account_def revoke_user_sessions_def dead_def assms(2)
          known_revoke_user active_revoke_user)
  next
    case (Enable v done')
    then have "auth_sessions st' = auth_sessions st" by (simp add: enable_account_def set_account_enabled_def)
    then show ?thesis using k a by (simp add: dead_def assms(2))
  next
    case (Roles v rs done')
    then have "auth_sessions st' = auth_sessions st" by (simp add: set_roles_def)
    then show ?thesis using k a by (simp add: dead_def assms(2))
  next
    case (RevokeUser v now)
    then show ?thesis using k a
      by (simp add: revoke_user_sessions_def dead_def assms(2) known_revoke_user active_revoke_user)
  qed
qed

lemma steps_keep_dead:
  assumes "rtranclp (auth_step env known) st st'" and "env_sessions env = ops" and "dead env known st i u"
  shows "dead env known st' i u"
  using assms(1) by (induction) (use assms(2,3) step_keeps_dead in blast)+

lemma dead_token_refused:
  assumes "dead env known st i u" and "authenticate env st kind token now = Inr p"
  shows "session_id p \<noteq> i \<or> user_id p \<noteq> u"
  using assms(1) authenticate_Inr[OF assms(2)] by (auto simp: dead_def)

text \<open>A session has one owner, so a consumed session is dead for everybody.\<close>

lemma refresh_kills_session:
  assumes "env_sessions env = ops" and "authenticate env st ''refresh'' token now = Inr p"
    and "refresh env st token sid now now1 now2 = (out, st')" and "\<not> known (auth_sessions st) sid"
  shows "dead env known st' (session_id p) u"
proof -
  have act: "is_active ops (auth_sessions st) (session_id p) (user_id p)"
    using authenticate_Inr[OF assms(2)] assms(1) by simp
  obtain b s' where c: "consume ops (auth_sessions st) (session_id p) (user_id p) now = (b, s')"
    by (cases "consume ops (auth_sessions st) (session_id p) (user_id p) now")
  have k: "known s' (session_id p)" "\<not> known s' sid"
    using known_consume[of "auth_sessions st" "session_id p" "user_id p" now] c active_known[OF act] assms(4) by auto
  have a: "\<not> is_active ops s' (session_id p) u" for u
    using active_consume[of "auth_sessions st" "session_id p" "user_id p" now "session_id p" u] c act by simp
  have "auth_sessions st' = s' \<or> (\<exists>v. auth_sessions st' = create_session ops s' v sid now)"
    using assms(2,3) c by (auto simp: refresh_def Let_def assms(1) split: option.splits bool.splits)
  then show ?thesis using k a dead_create[OF k(2,1) a] by (auto simp: dead_def assms(1))
qed

lemma disable_kills_sessions:
  assumes "env_sessions env = ops" and "disable_account env st u now = (Inr x, st')"
    and "known (auth_sessions st') i"
  shows "dead env known st' i u"
proof -
  obtain st2 where "st' = revoke_user_sessions env st2 u now"
    using assms(2) by (auto simp: disable_account_def split: prod.splits sum.splits)
  then show ?thesis using assms(1,3) by (simp add: dead_def revoke_user_sessions_def active_revoke_user)
qed

end

abbreviation mem_known :: "memory_sessions \<Rightarrow> uuid \<Rightarrow> bool" where
  "mem_known s i \<equiv> map_of (owner_of s) i \<noteq> None \<or> i \<in> revoked s"

section \<open>Properties\<close>

text \<open>
  C24: A refresh token is good for one use: after a refresh with it, whatever it returned and whatever
  calls of the authenticator follow, no token of its session, access or refresh, is accepted again.
\<close>

theorem refresh_token_single_use:
  assumes "env_sessions env = memory_registry"
    and "authenticate env st ''refresh'' token now = Inr p"
    and "refresh env st token sid now now1 now2 = (out, st1)" and "\<not> mem_known (auth_sessions st) sid"
    and "rtranclp (auth_step env mem_known) st1 st2"
    and "authenticate env st2 kind token' now' = Inr p'"
  shows "session_id p' \<noteq> session_id p"
proof -
  have "dead env mem_known st2 (session_id p) (user_id p')"
    by (rule mem_sessions.steps_keep_dead[OF assms(5,1)
        mem_sessions.refresh_kills_session[OF assms(1-4)]])
  from mem_sessions.dead_token_refused[OF this assms(6)] show ?thesis by simp
qed

text \<open>
  C25: Disabling an account ends all of its sessions for good: afterwards, also when the account is
  enabled again, a token of the user is accepted only if its session was created later.
\<close>

theorem disabling_ends_sessions:
  assumes "env_sessions env = memory_registry"
    and "disable_account env st u now = (Inr x, st1)"
    and "rtranclp (auth_step env mem_known) st1 st2"
    and "authenticate env st2 kind token now' = Inr p" and "user_id p = u"
  shows "\<not> mem_known (auth_sessions st1) (session_id p)"
proof
  assume "mem_known (auth_sessions st1) (session_id p)"
  from mem_sessions.disable_kills_sessions[OF assms(1,2) this]
  have "dead env mem_known st2 (session_id p) u"
    by (rule mem_sessions.steps_keep_dead[OF assms(3,1)])
  from mem_sessions.dead_token_refused[OF this assms(4)] assms(5) show False by simp
qed

text \<open>
  What the JWT library documents: a token it signed is accepted from its issue time until before its
  expiry, both read to the second, and decodes to the claims with times as numbers of seconds.
\<close>

definition whole_seconds :: "datetime \<Rightarrow> int" where
  "whole_seconds t = instant t div 1000000"

definition json_claims :: "claims \<Rightarrow> claims" where
  "json_claims cl = map (\<lambda>(k, v). (k, case v of Stamp t \<Rightarrow> Number (whole_seconds t) | _ \<Rightarrow> v)) cl"

definition jwt_valid :: "claims \<Rightarrow> datetime \<Rightarrow> bool" where
  "jwt_valid cl now \<longleftrightarrow> (case (map_of cl ''iat'', map_of cl ''exp'') of
     (Some (Stamp i), Some (Stamp e)) \<Rightarrow>
       whole_seconds i * 1000000 \<le> instant now \<and> instant now < whole_seconds e * 1000000
   | _ \<Rightarrow> False)"

definition jwt_behaves :: "'t crypto \<Rightarrow> bool" where
  "jwt_behaves c \<longleftrightarrow> (\<forall>cl now. jwt_decode c now (jwt_encode c cl) =
     (if jwt_valid cl now then Some (json_claims cl) else None))"

lemma role_names_ok: "claim_roles_ok (Names (map role_name rs))"
  by (auto simp: claim_roles_ok_def list_all_iff role_name_def split: role.splits)

lemma principal_of_token:
  assumes "find_account env st (username a) = Some a" and "enabled a" and "uuid_ok (account_id a)" and "uuid_ok sid"
    and "is_active (env_sessions env) (auth_sessions st) sid (account_id a)"
  shows "principal_from_claims env st (json_claims (token_claims a sid kind lifetime now)) =
    Inr \<lparr>user_id = account_id a, principal_name = username a, principal_roles = roles a, session_id = sid\<rparr>"
  using assms role_names_ok[of "roles a"]
  by (simp add: principal_from_claims_def Let_def json_claims_def token_claims_def claim_text_def uuid_round_trip)

text \<open>
  A login is good for what it should be: with the right password of an enabled account it returns
  a pair of tokens; until its expiry the access token is accepted as exactly this user with the roles
  of the account and the new session, and neither token is accepted in place of the other.
\<close>

theorem login_round_trip:
  assumes "jwt_behaves (env_crypto env)" and "env_sessions env = memory_registry"
    and "find_account env st (username a) = Some a" and "enabled a"
    and "argon_verify (env_crypto env) (password_hash a) password = Verified True"
    and "uuid_ok (account_id a)" and "uuid_ok sid" and "\<not> mem_known (auth_sessions st) sid"
    and "instant now1 \<le> instant now'" and "instant now' < instant now1 + 30 * 60 * 1000000 - 1000000"
  shows "\<exists>pair st'. login env st (username a) password sid now now1 now2 = (Inr pair, st') \<and>
    authenticate_access_token env st' (access_token pair) now' =
      Inr \<lparr>user_id = account_id a, principal_name = username a, principal_roles = roles a, session_id = sid\<rparr> \<and>
    (\<forall>t. \<exists>e. authenticate_access_token env st' (refresh_token pair) t = Inl e) \<and>
    (\<forall>t. \<exists>e. authenticate env st' ''refresh'' (access_token pair) t = Inl e)"
proof -
  let ?st = "st\<lparr>auth_sessions := create_session (env_sessions env) (auth_sessions st) (account_id a) sid now\<rparr>"
  let ?pair = "issue (env_crypto env) a sid now1 now2"
  have login: "login env st (username a) password sid now now1 now2 = (Inr ?pair, ?st)"
    using assms(3,4,5) by (simp add: login_def verify_password_def)
  have acc: "find_account env ?st (username a) = Some a" using assms(3) by (simp add: find_account_def)
  have act: "is_active (env_sessions env) (auth_sessions ?st) sid (account_id a)"
    using mem_sessions.active_create[OF assms(8)] by (simp add: assms(2))
  have dec: "jwt_decode (env_crypto env) t (jwt_encode (env_crypto env) (token_claims a sid kind life issued)) =
      (if jwt_valid (token_claims a sid kind life issued) t then Some (json_claims (token_claims a sid kind life issued)) else None)"
    for t kind life issued using assms(1) by (simp add: jwt_behaves_def)
  have kind: "map_of (json_claims (token_claims a sid kind life issued)) ''kind'' = Some (Words kind)" for kind life issued
    by (simp add: json_claims_def token_claims_def)
  have "jwt_valid (token_claims a sid ''access'' access_lifetime now1) now'"
  proof -
    have "whole_seconds (now1\<lparr>wall := wall now1 + access_lifetime\<rparr>) * 1000000 > instant now1 + access_lifetime - 1000000"
      by (simp add: whole_seconds_def instant_def split: option.splits)
    moreover have "whole_seconds now1 * 1000000 \<le> instant now1" by (simp add: whole_seconds_def)
    ultimately show ?thesis using assms(9,10)
      by (simp add: jwt_valid_def token_claims_def access_lifetime_def)
  qed
  then have "authenticate_access_token env ?st (access_token ?pair) now' =
      Inr \<lparr>user_id = account_id a, principal_name = username a, principal_roles = roles a, session_id = sid\<rparr>"
    using principal_of_token[OF acc assms(4,6,7) act]
    by (simp add: authenticate_access_token_def authenticate_def decode_token_def issue_def dec kind)
  moreover have "\<exists>e. authenticate_access_token env ?st (refresh_token ?pair) t = Inl e" for t
    by (simp add: authenticate_access_token_def authenticate_def decode_token_def issue_def dec kind)
  moreover have "\<exists>e. authenticate env ?st ''refresh'' (access_token ?pair) t = Inl e" for t
    by (simp add: authenticate_def decode_token_def issue_def dec kind)
  ultimately show ?thesis using login by blast
qed

text \<open>
  An accepted token speaks for a current account: it is of the expected kind, its account exists,
  is enabled and has the id in the token, its session is active, and the roles granted are those the
  account has now, whatever the token says; a role requirement passes iff one of them is listed.
\<close>

theorem accepted_token_is_current:
  assumes "authenticate env st kind token now = Inr p"
  shows "(\<exists>a. find_account env st (principal_name p) = Some a \<and> enabled a \<and> account_id a = user_id p \<and>
      (require_roles p needed = Inr () \<longleftrightarrow> set needed \<inter> set (roles a) \<noteq> {})) \<and>
    is_active (env_sessions env) (auth_sessions st) (session_id p) (user_id p) \<and>
    (\<exists>cl. jwt_decode (env_crypto env) now token = Some cl \<and> map_of cl ''kind'' = Some (Words kind))"
  using authenticate_Inr[OF assms] by (auto simp: require_roles_def)

definition sample_account :: account where
  "sample_account = \<lparr>account_id = uuid_text (replicate 32 CHR ''0''), username = ''ada'', password_hash = ''h'',
     roles = [REVIEWER], enabled = True\<rparr>"

definition sample_env :: "(claims, unit, memory_sessions) auth_env" where
  "sample_env = \<lparr>env_crypto = \<lparr>jwt_encode = (\<lambda>cl. cl),
       jwt_decode = (\<lambda>now cl. if jwt_valid cl now then Some (json_claims cl) else None),
       argon_verify = (\<lambda>h p. Verified (p = ''pw''))\<rparr>,
     env_directory = \<lparr>dir_get = (\<lambda>d n. None), dir_set_enabled = (\<lambda>d u b. (Inr (), d)),
       dir_set_roles = (\<lambda>d u rs. (Inr (), d))\<rparr>,
     env_sessions = memory_registry\<rparr>"

definition sample_auth :: "(unit, memory_sessions) auth_state" where
  "sample_auth = \<lparr>auth_accounts = Local [(''ada'', sample_account)],
     auth_sessions = \<lparr>owner_of = [], revoked = {}\<rparr>\<rparr>"

definition sample_sid :: uuid where "sample_sid = uuid_text (replicate 32 CHR ''a'')"

lemma sample_env_simps:
  "jwt_behaves (env_crypto sample_env)" "env_sessions sample_env = memory_registry"
  "find_account sample_env sample_auth ''ada'' = Some sample_account" "enabled sample_account"
  "username sample_account = ''ada''" "roles sample_account = [REVIEWER]"
  "argon_verify (env_crypto sample_env) (password_hash sample_account) ''pw'' = Verified True"
  "\<not> mem_known (auth_sessions sample_auth) sample_sid"
  by (simp_all add: jwt_behaves_def sample_env_def sample_auth_def find_account_def sample_account_def)

lemma sample_uuids: "uuid_ok (account_id sample_account)" "uuid_ok sample_sid"
proof -
  have "uuid_ok (uuid_text (replicate 32 c))" if "is_lower_hex c" for c
    unfolding uuid_ok_def by (rule exI[of _ "replicate 32 c"]) (use that in \<open>simp add: list_all_iff\<close>)
  then show "uuid_ok (account_id sample_account)" "uuid_ok sample_sid"
    by (simp_all add: sample_account_def sample_sid_def is_lower_hex_def)
qed

abbreviation at_second :: "int \<Rightarrow> datetime" where
  "at_second n \<equiv> \<lparr>wall = n * 1000000, utcoff = Some 0\<rparr>"

lemma login_round_trip_witness:
  "\<exists>pair st'. login sample_env sample_auth ''ada'' ''pw'' sample_sid (at_second 100) (at_second 100) (at_second 101) =
      (Inr pair, st') \<and>
    authenticate_access_token sample_env st' (access_token pair) (at_second 1000) =
      Inr \<lparr>user_id = account_id sample_account, principal_name = ''ada'', principal_roles = [REVIEWER],
        session_id = sample_sid\<rparr>"
proof -
  have "find_account sample_env sample_auth (username sample_account) = Some sample_account"
    by (simp only: sample_env_simps)
  from login_round_trip[OF sample_env_simps(1,2) this sample_env_simps(4,7) sample_uuids sample_env_simps(8),
      of "at_second 100" "at_second 1000" "at_second 100" "at_second 101"]
  show ?thesis by (simp add: sample_env_simps(5,6) instant_def) blast
qed

text \<open>A state with one live session of the sample account, and its refresh.\<close>

definition sample_live :: "uuid \<Rightarrow> (unit, memory_sessions) auth_state" where
  "sample_live sid = sample_auth\<lparr>auth_sessions := \<lparr>owner_of = [(sid, account_id sample_account)], revoked = {}\<rparr>\<rparr>"

definition sample_token :: "uuid \<Rightarrow> string \<Rightarrow> claims" where
  "sample_token sid kind = token_claims sample_account sid kind access_lifetime (at_second 100)"

lemma sample_authenticate:
  assumes "auth_accounts st = auth_accounts sample_auth" and "uuid_ok sid"
    and "mem_is_active (auth_sessions st) sid (account_id sample_account)"
  shows "authenticate sample_env st kind (sample_token sid kind) (at_second 200) =
    Inr \<lparr>user_id = account_id sample_account, principal_name = ''ada'', principal_roles = [REVIEWER], session_id = sid\<rparr>"
proof -
  have "find_account sample_env st (username sample_account) = Some sample_account"
    using assms(1) sample_env_simps(3) by (simp add: find_account_def sample_env_simps(5))
  moreover have "is_active (env_sessions sample_env) (auth_sessions st) sid (account_id sample_account)"
    using assms(3) by (simp add: sample_env_simps memory_registry_def)
  moreover have "jwt_valid (sample_token sid kind) (at_second 200)"
    by (simp add: jwt_valid_def sample_token_def token_claims_def whole_seconds_def instant_def access_lifetime_def)
  moreover have "map_of (json_claims (sample_token sid kind)) ''kind'' = Some (Words kind)"
    by (simp add: json_claims_def sample_token_def token_claims_def)
  ultimately show ?thesis
    using principal_of_token[of sample_env st sample_account sid kind access_lifetime "at_second 100"]
      assms(2) sample_uuids(1) sample_env_simps(4,5,6)
    by (simp add: authenticate_def decode_token_def sample_token_def) (simp add: sample_env_def)
qed

lemma accepted_token_is_current_witness:
  "\<exists>a. find_account sample_env (sample_live sample_sid) ''ada'' = Some a \<and> enabled a"
proof -
  have "authenticate sample_env (sample_live sample_sid) ''access'' (sample_token sample_sid ''access'') (at_second 200) =
    Inr \<lparr>user_id = account_id sample_account, principal_name = ''ada'', principal_roles = [REVIEWER], session_id = sample_sid\<rparr>"
    by (rule sample_authenticate) (simp_all add: sample_live_def sample_uuids mem_is_active_def)
  from accepted_token_is_current[OF this, of "[ADMIN]"] show ?thesis by auto
qed

definition sample_sid2 :: uuid where "sample_sid2 = uuid_text (replicate 32 CHR ''b'')"

lemma sample_sid2: "uuid_ok sample_sid2" "sample_sid2 \<noteq> sample_sid"
proof -
  show "uuid_ok sample_sid2"
    unfolding uuid_ok_def sample_sid2_def
    by (rule exI[of _ "replicate 32 CHR ''b''"]) (simp add: list_all_iff is_lower_hex_def)
  have "hd sample_sid2 \<noteq> hd sample_sid"
    by (simp add: sample_sid2_def sample_sid_def uuid_text_def numeral_eq_Suc)
  then show "sample_sid2 \<noteq> sample_sid" by auto
qed

lemma refresh_token_single_use_witness:
  "\<exists>out st1. refresh sample_env (sample_live sample_sid) (sample_token sample_sid ''refresh'') sample_sid2
      (at_second 200) (at_second 100) (at_second 100) = (out, st1) \<and>
    (\<exists>p'. authenticate sample_env st1 ''access'' (sample_token sample_sid2 ''access'') (at_second 200) = Inr p' \<and>
      session_id p' \<noteq> sample_sid)"
proof -
  let ?p = "\<lambda>sid. \<lparr>user_id = account_id sample_account, principal_name = ''ada'', principal_roles = [REVIEWER],
    session_id = sid\<rparr>"
  have live: "authenticate sample_env (sample_live sample_sid) ''refresh'' (sample_token sample_sid ''refresh'') (at_second 200) =
      Inr (?p sample_sid)"
    by (rule sample_authenticate) (simp_all add: sample_live_def sample_uuids mem_is_active_def)
  obtain out st1 where r: "refresh sample_env (sample_live sample_sid) (sample_token sample_sid ''refresh'') sample_sid2
      (at_second 200) (at_second 100) (at_second 100) = (out, st1)" by fastforce
  let ?s = "\<lparr>owner_of = [(sample_sid, account_id sample_account)], revoked = {}\<rparr> :: memory_sessions"
  have se: "env_sessions sample_env = memory_registry" by (rule sample_env_simps(2))
  have acc: "find_account sample_env (st\<lparr>auth_sessions := s'\<rparr>) n = find_account sample_env st n" for st s' n
    by (simp add: find_account_def)
  have fa: "find_account sample_env (sample_live sample_sid) ''ada'' = Some sample_account"
    using sample_env_simps(3) by (simp add: sample_live_def acc)
  have "st1 = sample_auth\<lparr>auth_sessions := mem_create (?s\<lparr>revoked := {sample_sid}\<rparr>) (account_id sample_account)
      sample_sid2 (at_second 200)\<rparr>"
    using r live fa
    by (simp add: refresh_def se memory_registry_def mem_consume_def mem_is_active_def sample_live_def acc)
  then have "auth_accounts st1 = auth_accounts sample_auth \<and>
      mem_is_active (auth_sessions st1) sample_sid2 (account_id sample_account)"
    using sample_sid2(2) by (simp add: mem_create_def mem_is_active_def dict_simps)
  then have a2: "authenticate sample_env st1 ''access'' (sample_token sample_sid2 ''access'') (at_second 200) =
      Inr (?p sample_sid2)"
    using sample_sid2(1) by (intro sample_authenticate) simp_all
  have "\<not> mem_known (auth_sessions (sample_live sample_sid)) sample_sid2"
    using sample_sid2(2) by (simp add: sample_live_def)
  from refresh_token_single_use[OF sample_env_simps(2) live r this rtranclp.rtrancl_refl a2]
  show ?thesis using r a2 by auto
qed

lemma disabling_ends_sessions_witness:
  "\<exists>st1 st2. disable_account sample_env (sample_live sample_sid) (account_id sample_account) (at_second 150) =
      (Inr (), st1) \<and>
    authenticate sample_env st2 ''access'' (sample_token sample_sid2 ''access'') (at_second 200) =
      Inr \<lparr>user_id = account_id sample_account, principal_name = ''ada'', principal_roles = [REVIEWER],
        session_id = sample_sid2\<rparr> \<and>
    \<not> mem_known (auth_sessions st1) sample_sid2"
proof -
  let ?u = "account_id sample_account"
  let ?off = "sample_account\<lparr>enabled := False\<rparr>"
  let ?s1 = "\<lparr>owner_of = [(sample_sid, ?u)], revoked = {sample_sid}\<rparr> :: memory_sessions"
  let ?st1 = "\<lparr>auth_accounts = Local [(''ada'', ?off)], auth_sessions = ?s1\<rparr> :: (unit, memory_sessions) auth_state"
  let ?st2 = "\<lparr>auth_accounts = Local [(''ada'', sample_account)], auth_sessions = ?s1\<rparr> :: (unit, memory_sessions) auth_state"
  let ?st3 = "?st2\<lparr>auth_sessions := mem_create ?s1 ?u sample_sid2 (at_second 160)\<rparr>"
  have se: "env_sessions sample_env = memory_registry" by (rule sample_env_simps(2))
  have d: "disable_account sample_env (sample_live sample_sid) ?u (at_second 150) = (Inr (), ?st1)"
    by (simp add: disable_account_def set_account_enabled_def update_account_def sample_live_def sample_auth_def
        revoke_user_sessions_def se memory_registry_def mem_revoke_user_def)
  have "?off\<lparr>enabled := True\<rparr> = sample_account" by (simp add: sample_account_def)
  moreover have "account_id ?off = ?u" by simp
  ultimately have "enable_account sample_env ?st1 ?u = (Inr (), ?st2)"
    by (simp add: enable_account_def set_account_enabled_def update_account_def)
  then have s1: "auth_step sample_env mem_known ?st1 ?st2" by (rule auth_step.Enable)
  have "find_account sample_env ?st2 ''ada'' = Some sample_account" by (simp add: find_account_def)
  then have "login sample_env ?st2 ''ada'' ''pw'' sample_sid2 (at_second 160) (at_second 160) (at_second 160) =
      (Inr (issue (env_crypto sample_env) sample_account sample_sid2 (at_second 160) (at_second 160)), ?st3)"
    using sample_env_simps(4,7) by (simp add: login_def verify_password_def se memory_registry_def)
  moreover have new: "\<not> mem_known ?s1 sample_sid2" using sample_sid2(2) by simp
  ultimately have s2: "auth_step sample_env mem_known ?st2 ?st3"
    by (intro auth_step.Login[where sid = sample_sid2]) simp_all
  have "auth_accounts ?st3 = auth_accounts sample_auth \<and> mem_is_active (auth_sessions ?st3) sample_sid2 ?u"
    using sample_sid2(2) by (simp add: mem_create_def mem_is_active_def dict_simps sample_auth_def)
  then have a: "authenticate sample_env ?st3 ''access'' (sample_token sample_sid2 ''access'') (at_second 200) =
      Inr \<lparr>user_id = ?u, principal_name = ''ada'', principal_roles = [REVIEWER], session_id = sample_sid2\<rparr>"
    using sample_sid2(1) by (intro sample_authenticate) simp_all
  from s1 s2 have "rtranclp (auth_step sample_env mem_known) ?st1 ?st3" by simp
  from disabling_ends_sessions[OF sample_env_simps(2) d this a] d a show ?thesis by auto
qed

end
