(* ===== verification/DurableRequests.thy ===== *)
theory DurableRequests
  imports Idempotency
begin

text \<open>
  The durable idempotency store of \<open>app/infrastructure/repositories/runtime.py\<close>
  (\<open>SqlAlchemyIdempotencyStore\<close>): a table with the request key as its primary key. Each operation is
  one transaction, so it is atomic; a row is given back as it was written. The clock is an argument.
\<close>

record request_row =
  row_hash :: string
  row_actor :: string
  row_path :: string
  row_expires :: datetime
  row_status :: "int option"
  row_body :: "nat list option"
  row_type :: "string option"
  row_headers :: "(string \<times> string) list"
  row_created :: datetime

type_synonym request_table = "(string, request_row) dict"

text \<open>A timestamp without a zone, as SQLite gives it back, is read as UTC.\<close>

definition read_utc :: "datetime \<Rightarrow> datetime" where
  "read_utc t = (if utcoff t = None then t\<lparr>utcoff := Some 0\<rparr> else t)"

definition row_matches :: "request_row \<Rightarrow> idem_request \<Rightarrow> bool" where
  "row_matches x r \<longleftrightarrow> row_hash x = request_hash r \<and> row_actor x = actor_id r \<and> row_path x = path r"

definition db_acquire ::
    "request_table \<Rightarrow> idem_request \<Rightarrow> datetime \<Rightarrow> (idem_result option) res \<times> request_table" where
  "db_acquire t r now = (case map_of t (ir_key r) of
     None \<Rightarrow> (Inr None, dict_set (ir_key r)
       \<lparr>row_hash = request_hash r, row_actor = actor_id r, row_path = path r, row_expires = expires_at r,
        row_status = None, row_body = None, row_type = None, row_headers = [], row_created = now\<rparr> t)
   | Some x \<Rightarrow>
       if dt_le (read_utc (row_expires x)) now
       then (Inr None, dict_set (ir_key r)
         (x\<lparr>row_hash := request_hash r, row_actor := actor_id r, row_path := path r,
            row_expires := expires_at r, row_status := None, row_body := None, row_type := None,
            row_headers := []\<rparr>) t)
       else if \<not> row_matches x r
       then (Inl (IdempotencyConflict ''Idempotency-Key was already used for another request''), t)
       else (case (row_status x, row_body x) of
           (Some c, Some b) \<Rightarrow> (Inr (Some \<lparr>status_code = c, body = b, content_type = row_type x,
             headers = row_headers x\<rparr>), t)
         | _ \<Rightarrow> (Inl (StateConflict ''A matching idempotent request is still in progress''), t)))"

definition db_complete ::
    "request_table \<Rightarrow> idem_request \<Rightarrow> idem_result \<Rightarrow> unit res \<times> request_table" where
  "db_complete t r res = (case map_of t (ir_key r) of
     None \<Rightarrow> (Inl (StateConflict ''Idempotency-Key reservation is missing''), t)
   | Some x \<Rightarrow>
       if \<not> row_matches x r
       then (Inl (IdempotencyConflict ''Idempotency-Key does not match its original request''), t)
       else (Inr (), dict_set (ir_key r)
         (x\<lparr>row_status := Some (status_code res), row_body := Some (body res),
            row_type := content_type res, row_headers := headers res\<rparr>) t))"

section \<open>The contract\<close>

definition kept_request :: "idem_request \<Rightarrow> idem_request" where
  "kept_request r = r\<lparr>expires_at := read_utc (expires_at r)\<rparr>"

definition row_request :: "string \<Rightarrow> request_row \<Rightarrow> idem_request" where
  "row_request k x = \<lparr>ir_key = k, request_hash = row_hash x, actor_id = row_actor x, path = row_path x,
     expires_at = read_utc (row_expires x)\<rparr>"

definition row_result :: "request_row \<Rightarrow> idem_result option" where
  "row_result x = (case (row_status x, row_body x) of
     (Some c, Some b) \<Rightarrow> Some \<lparr>status_code = c, body = b, content_type = row_type x, headers = row_headers x\<rparr>
   | _ \<Rightarrow> None)"

definition db_held :: "request_table \<Rightarrow> string \<Rightarrow> idem_request option" where
  "db_held t k = map_option (row_request k) (map_of t k)"

definition db_answer :: "request_table \<Rightarrow> string \<Rightarrow> idem_result option" where
  "db_answer t k = (case map_of t k of None \<Rightarrow> None | Some x \<Rightarrow> row_result x)"

lemma row_matches_iff: "row_matches x r \<longleftrightarrow> same_write (row_request k x) r"
  by (simp add: row_matches_def same_write_def row_request_def)

lemma expired_row: "expired (row_request k x) now \<longleftrightarrow> dt_le (read_utc (row_expires x)) now"
  by (simp add: expired_def row_request_def)

lemmas row_defs = db_held_def db_answer_def row_request_def kept_request_def row_result_def

interpretation db_requests: request_store db_acquire "\<lambda>t r x. snd (db_complete t r x)" db_held db_answer
  kept_request same_write
proof unfold_locales
  fix t and r :: idem_request and now k
  show "db_held (snd (db_acquire t r now)) k =
      (if k = ir_key r \<and> free_key (db_held t k) now then Some (kept_request r) else db_held t k)"
    by (cases "map_of t (ir_key r)")
      (auto simp: db_acquire_def free_key_def row_defs expired_def dict_simps split: option.splits)
next
  fix t and r :: idem_request and now
  assume "free_key (db_held t (ir_key r)) now"
  then show "fst (db_acquire t r now) = Inr None"
    by (auto simp: db_acquire_def free_key_def row_defs expired_def split: option.splits)
next
  fix t and r e :: idem_request and now
  assume h: "db_held t (ir_key r) = Some e" and "\<not> expired e now"
  then obtain x where x: "map_of t (ir_key r) = Some x" "e = row_request (ir_key r) x"
    "\<not> dt_le (read_utc (row_expires x)) now"
    by (auto simp: db_held_def expired_row)
  then show "fst (db_acquire t r now) =
      (if \<not> same_write e r
       then Inl (IdempotencyConflict ''Idempotency-Key was already used for another request'')
       else case db_answer t (ir_key r) of
         None \<Rightarrow> Inl (StateConflict ''A matching idempotent request is still in progress'')
       | Some x \<Rightarrow> Inr (Some x))"
    using row_matches_iff[of x r "ir_key r"]
    by (simp add: db_acquire_def db_answer_def row_result_def split: option.splits)
next
  fix k and r :: idem_request and now t
  assume "k \<noteq> ir_key r \<or> \<not> free_key (db_held t k) now"
  then show "db_answer (snd (db_acquire t r now)) k = db_answer t k"
    by (cases "map_of t (ir_key r)")
      (auto simp: db_acquire_def free_key_def row_defs expired_def dict_simps split: option.splits)
next
  fix t and r :: idem_request and x k
  show "db_held (snd (db_complete t r x)) k = db_held t k"
    by (auto simp: db_complete_def row_defs dict_simps split: option.splits)
next
  fix t and r :: idem_request and x k
  show "db_answer (snd (db_complete t r x)) k =
      (if k = ir_key r \<and> (\<exists>e. db_held t k = Some e \<and> same_write e r) then Some x else db_answer t k)"
    by (auto simp: db_complete_def row_defs row_matches_def same_write_def dict_simps split: option.splits)
next
  fix r r' :: idem_request
  show "same_write (kept_request r) r' = same_write r r'" by (simp add: same_write_def kept_request_def)
  show "same_write (kept_request r) r" by (simp add: same_write_def kept_request_def)
qed

lemma db_write_reserved_once:
  assumes "free_key (db_held t (ir_key r)) now0" and "db_acquire t r now0 = (out, t0)"
    and "in_time kept_request r (es @ [Acquire r' now])" and "ir_key r' = ir_key r"
  shows "out = Inr None \<and>
    fst (db_acquire (request_run db_acquire (\<lambda>t r x. snd (db_complete t r x)) t0 es) r' now) \<noteq> Inr None"
  using db_requests.reserved_once[OF assms] by blast

section \<open>The two stores\<close>

definition request_view :: "request_table \<Rightarrow> idem_store \<Rightarrow> bool" where
  "request_view t s \<longleftrightarrow> (\<forall>k. db_held t k = map_of (requests s) k \<and> db_answer t k = map_of (results s) k)"

lemma kept_aware [simp]: "utcoff (expires_at r) \<noteq> None \<Longrightarrow> kept_request r = r"
  by (simp add: kept_request_def read_utc_def)

section \<open>The two stores side by side\<close>

lemma request_viewD:
  "request_view t s \<Longrightarrow> db_held t k = map_of (requests s) k"
  "request_view t s \<Longrightarrow> db_answer t k = map_of (results s) k"
  by (auto simp: request_view_def)

lemma acquire_agrees:
  assumes "request_view t s"
  shows "fst (db_acquire t r now) = fst (acquire s r now)"
proof (cases "free_key (map_of (requests s) (ir_key r)) now")
  case True
  with db_requests.acq_free[of t r now] mem_requests.acq_free[of s r now] show ?thesis
    by (simp add: request_viewD[OF assms])
next
  case False
  then obtain e where "map_of (requests s) (ir_key r) = Some e" "\<not> expired e now"
    by (auto simp: free_key_def split: option.splits)
  with db_requests.acq_taken[of t r e now] mem_requests.acq_taken[of s r e now] show ?thesis
    by (simp add: request_viewD[OF assms])
qed

lemma acquire_held_agrees:
  assumes "request_view t s" and "utcoff (expires_at r) \<noteq> None"
  shows "db_held (snd (db_acquire t r now)) k = map_of (requests (snd (acquire s r now))) k"
  using assms(2)
  by (cases "k = ir_key r") (simp_all add: db_requests.acq_held mem_requests.acq_held request_viewD[OF assms(1)])

lemma reserved_answer_cleared:
  assumes "request_view t s" and "free_key (map_of (requests s) (ir_key r)) now"
  shows "db_answer (snd (db_acquire t r now)) (ir_key r) = None"
  using assms(2) request_viewD[OF assms(1), of "ir_key r"]
  by (auto simp: db_acquire_def row_defs free_key_def expired_def dict_simps split: option.splits)

lemma acquire_keeps_view:
  assumes "request_view t s" and "utcoff (expires_at r) \<noteq> None"
    and new: "\<not> (\<exists>e x. map_of (requests s) (ir_key r) = Some e \<and> expired e now \<and> map_of (results s) (ir_key r) = Some x)"
  shows "request_view (snd (db_acquire t r now)) (snd (acquire s r now))"
proof -
  note v = request_viewD[OF assms(1)]
  have "db_answer (snd (db_acquire t r now)) k = map_of (results s) k" for k
  proof (cases "k \<noteq> ir_key r \<or> \<not> free_key (db_held t k) now")
    case True
    then show ?thesis using db_requests.acq_answer v by metis
  next
    case False
    then have f: "k = ir_key r" "free_key (map_of (requests s) (ir_key r)) now" by (auto simp: v)
    moreover have "map_of (results s) (ir_key r) = None"
    proof (cases "map_of (requests s) (ir_key r)")
      case None
      then have "map_of t (ir_key r) = None" using v(1)[of "ir_key r"] by (simp add: db_held_def)
      then show ?thesis using v(2)[of "ir_key r"] by (simp add: db_answer_def)
    qed (use new f(2) in \<open>auto simp: free_key_def\<close>)
    ultimately show ?thesis using reserved_answer_cleared[OF assms(1)] by simp
  qed
  then show ?thesis using acquire_held_agrees[OF assms(1,2)] by (simp add: request_view_def)
qed

lemma expired_answer_parts:
  assumes "request_view t s" and "utcoff (expires_at r) \<noteq> None"
    and "map_of (requests s) (ir_key r) = Some e" and "expired e now" and "map_of (results s) (ir_key r) = Some x"
    and "\<not> expired r now2"
  shows "fst (acquire (snd (acquire s r now)) r now2) = Inr (Some x)"
    and "fst (db_acquire (snd (db_acquire t r now)) r now2) = Inl (StateConflict ''A matching idempotent request is still in progress'')"
proof -
  have f: "free_key (map_of (requests s) (ir_key r)) now" using assms(3,4) by (simp add: free_key_def)
  have h: "map_of (requests (snd (acquire s r now))) (ir_key r) = Some r" using f by (simp add: mem_requests.acq_held)
  then have h': "db_held (snd (db_acquire t r now)) (ir_key r) = Some r" using acquire_held_agrees[OF assms(1,2)] by simp
  show "fst (acquire (snd (acquire s r now)) r now2) = Inr (Some x)"
    using mem_requests.acq_taken[OF h assms(6)] assms(5) by (simp add: same_write_def)
  show "fst (db_acquire (snd (db_acquire t r now)) r now2) = Inl (StateConflict ''A matching idempotent request is still in progress'')"
    using db_requests.acq_taken[OF h' assms(6)] reserved_answer_cleared[OF assms(1) f] by (simp add: same_write_def)
qed

lemma complete_keeps_view:
  assumes "request_view t s" and "map_of (requests s) (ir_key r) = Some r"
  shows "fst (db_complete t r res) = Inr ()" and "request_view (snd (db_complete t r res)) (complete s r res)"
proof -
  note v = request_viewD[OF assms(1)]
  obtain x where x: "map_of t (ir_key r) = Some x" "row_request (ir_key r) x = r"
    using assms(2) v(1)[of "ir_key r"] by (auto simp: db_held_def)
  have "row_matches x r" unfolding row_matches_iff[of x r "ir_key r"] x(2) by (simp add: same_write_def)
  then show "fst (db_complete t r res) = Inr ()" using x(1) by (simp add: db_complete_def)
  have "same_write r r" by (simp add: same_write_def)
  then show "request_view (snd (db_complete t r res)) (complete s r res)"
    unfolding request_view_def
    by (auto simp: db_requests.fin_held db_requests.fin_answer mem_requests.fin_held mem_requests.fin_answer v assms(2))
qed



end
