(* ===== verification/DurableJobs.thy ===== *)
theory DurableJobs
  imports JobTasks Uuids
begin

text \<open>
  The durable job run store of \<open>app/infrastructure/repositories/runtime.py\<close>
  (\<open>SqlAlchemyJobRunStore\<close>): the table \<open>job_run\<close> with its primary key and its partial unique index,
  the operations as transactions over it, and the store as an instance of the contract of the task
  runner. Where an operation reads and then writes, the row it read is an argument of the writing part
  (\<open>seen\<close>), since other transactions may commit in between. Run ids and the clock are arguments, and
  \<open>to_json\<close> is what the JSON column gives back for a value.
\<close>

section \<open>The table\<close>

record 'v job_row =
  jr_id :: uuid
  jr_code :: string
  jr_date :: date
  jr_key :: string
  jr_status :: job_status
  jr_number :: "int option"
  jr_attempt :: int
  jr_phase :: "string option"
  jr_value :: "'v option"
  jr_error :: "string option"
  jr_started :: datetime
  jr_ended :: "datetime option"

type_synonym 'v job_table = "'v job_row list"

definition active_row :: "'v job_row \<Rightarrow> bool" where
  "active_row x \<longleftrightarrow> jr_status x \<in> {Queued, InProgress}"

text \<open>
  A row that may not be added to the table: its id is taken, or it is active and the table has an
  active row of its key (\<open>uq_job_run_active_task_key\<close>).
\<close>

definition row_clash :: "'v job_table \<Rightarrow> 'v job_row \<Rightarrow> bool" where
  "row_clash t x \<longleftrightarrow> (\<exists>y\<in>set t. jr_id y = jr_id x \<or> active_row x \<and> active_row y \<and> jr_key y = jr_key x)"

definition insert_row :: "'v job_table \<Rightarrow> 'v job_row \<Rightarrow> 'v job_table res" where
  "insert_row t x = (if row_clash t x then Inl (DatabaseError ''IntegrityError'') else Inr (t @ [x]))"

definition put_row :: "uuid \<Rightarrow> 'v job_row \<Rightarrow> 'v job_table \<Rightarrow> 'v job_table" where
  "put_row i x t = map (\<lambda>y. if jr_id y = i then x else y) t"

text \<open>An update of the row with the id \<open>i\<close>; when that row is gone the session reports it as stale.\<close>

definition update_row :: "'v job_table \<Rightarrow> uuid \<Rightarrow> 'v job_row \<Rightarrow> 'v job_table res" where
  "update_row t i x =
     (if \<forall>y\<in>set t. jr_id y \<noteq> i then Inl (DatabaseError ''StaleDataError'')
      else if row_clash (filter (\<lambda>y. jr_id y \<noteq> i) t) x then Inl (DatabaseError ''IntegrityError'')
      else Inr (put_row i x t))"

definition row_by_id :: "'v job_table \<Rightarrow> uuid \<Rightarrow> 'v job_row option" where
  "row_by_id t i = List.find (\<lambda>x. jr_id x = i) t"

text \<open>\<open>ORDER BY started_at DESC, id DESC\<close>\<close>

definition row_stamp :: "'v job_row \<Rightarrow> int \<times> uuid" where
  "row_stamp x = (instant (jr_started x), jr_id x)"

definition newest_first :: "'v job_table \<Rightarrow> 'v job_table" where
  "newest_first t = rev (sort_key row_stamp t)"

definition latest_row :: "'v job_table \<Rightarrow> string \<Rightarrow> 'v job_row option" where
  "latest_row t key = (case newest_first (filter (\<lambda>x. jr_key x = key) t) of [] \<Rightarrow> None | x # xs \<Rightarrow> Some x)"

section \<open>Rows and records\<close>

definition number_or_1 :: "int option \<Rightarrow> int" where
  "number_or_1 n = (case n of None \<Rightarrow> 1 | Some k \<Rightarrow> if k = 0 then 1 else k)"

definition record_of :: "'v job_row \<Rightarrow> 'v job_run" where
  "record_of x = \<lparr>run_id = jr_id x, job_key = jr_key x, job_kind = jr_code x, business_date = jr_date x,
     run_number = number_or_1 (jr_number x), attempt = jr_attempt x,
     job_phase = (case jr_phase x of None \<Rightarrow> ''execute'' | Some p \<Rightarrow> if p = [] then ''execute'' else p),
     job_status = jr_status x, error_summary = jr_error x, job_value = jr_value x,
     started_at = jr_started x, finished_at = jr_ended x\<rparr>"

definition as_uuid :: "string \<Rightarrow> uuid res" where
  "as_uuid s = (case parse_uuid s of
     None \<Rightarrow> Inl (ValueError ''badly formed hexadecimal UUID string'') | Some u \<Rightarrow> Inr u)"

definition model_of :: "('v \<Rightarrow> 'v) \<Rightarrow> 'v job_run \<Rightarrow> 'v job_row res" where
  "model_of to_json r = andThen (as_uuid (run_id r)) (\<lambda>u. Inr
     \<lparr>jr_id = u, jr_code = job_kind r, jr_date = business_date r, jr_key = job_key r,
      jr_status = job_status r, jr_number = Some (run_number r), jr_attempt = attempt r,
      jr_phase = Some (job_phase r), jr_value = map_option to_json (job_value r),
      jr_error = error_summary r, jr_started = started_at r, jr_ended = finished_at r\<rparr>)"

text \<open>The columns \<open>append\<close> and \<open>replace\<close> overwrite in a row they found.\<close>

definition overwrite_row :: "('v \<Rightarrow> 'v) \<Rightarrow> 'v job_run \<Rightarrow> 'v job_row \<Rightarrow> 'v job_row" where
  "overwrite_row to_json r x = x\<lparr>jr_status := job_status r, jr_number := Some (run_number r),
     jr_attempt := attempt r, jr_phase := Some (job_phase r),
     jr_value := map_option to_json (job_value r), jr_error := error_summary r,
     jr_started := started_at r, jr_ended := finished_at r\<rparr>"

section \<open>The operations\<close>

definition db_latest :: "'v job_table \<Rightarrow> string \<Rightarrow> 'v job_run option" where
  "db_latest t key = map_option record_of (latest_row t key)"

definition db_get :: "'v job_table \<Rightarrow> string \<Rightarrow> 'v job_run option" where
  "db_get t i = (case parse_uuid i of
     None \<Rightarrow> None | Some u \<Rightarrow> map_option record_of (row_by_id t u))"

text \<open>SQL's \<open>LIKE\<close>: \<open>%\<close> stands for any text, \<open>_\<close> for any character, a backslash quotes the next one.\<close>

fun like :: "string \<Rightarrow> string \<Rightarrow> bool" where
  "like [] s \<longleftrightarrow> s = []"
| "like (p # ps) [] \<longleftrightarrow> p = CHR ''%'' \<and> like ps []"
| "like (p # ps) (c # s) \<longleftrightarrow>
     (if p = CHR ''%'' then like ps (c # s) \<or> like (p # ps) s
      else if p = CHR ''_'' then like ps s
      else if p = CHR 0x5C then (case ps of [] \<Rightarrow> False | q # qs \<Rightarrow> c = q \<and> like qs s)
      else c = p \<and> like ps s)"

definition db_filter :: "string option \<Rightarrow> string option \<Rightarrow> date option \<Rightarrow> 'v job_row \<Rightarrow> bool" where
  "db_filter provider status day x \<longleftrightarrow>
     (case status of None \<Rightarrow> True | Some s \<Rightarrow> s = [] \<or> status_name (jr_status x) = lower s) \<and>
     (case day of None \<Rightarrow> True | Some d \<Rightarrow> jr_date x = d) \<and>
     (case provider of None \<Rightarrow> True
      | Some p \<Rightarrow> p = [] \<or> like (''data-import:%:'' @ lower p @ ''-%'') (jr_key x))"

definition db_page ::
    "'v job_table \<Rightarrow> int \<Rightarrow> int \<Rightarrow> string option \<Rightarrow> string option \<Rightarrow> date option \<Rightarrow> ('v job_run list \<times> nat) res" where
  "db_page t page page_size provider status day =
     (let rows = newest_first (filter (db_filter provider status day) t);
          start = (page - 1) * page_size
      in if start < 0 \<or> page_size < 0 then Inl (DatabaseError ''DataError'')
         else Inr (map record_of (take (nat page_size) (drop (nat start) rows)), length rows))"

text \<open>
  When the insertion hits a constraint, \<open>reserve_queued_owned\<close> reads the winner again.
\<close>

definition next_queued ::
    "'v job_row option \<Rightarrow> string \<Rightarrow> date \<Rightarrow> string \<Rightarrow> string \<Rightarrow> 'v option \<Rightarrow> uuid \<Rightarrow> datetime \<Rightarrow> 'v job_run" where
  "next_queued seen kind day key phase value uuid now =
     \<lparr>run_id = uuid, job_key = key, job_kind = kind, business_date = day,
      run_number = (case seen of None \<Rightarrow> 1 | Some p \<Rightarrow> number_or_1 (jr_number p) + 1),
      attempt = (case seen of None \<Rightarrow> 1 | Some p \<Rightarrow> jr_attempt p + 1),
      job_phase = phase, job_status = Queued, error_summary = None, job_value = value,
      started_at = now, finished_at = None\<rparr>"

definition db_reserve_seen ::
    "('v \<Rightarrow> 'v) \<Rightarrow> 'v job_row option \<Rightarrow> 'v job_table \<Rightarrow> string \<Rightarrow> date \<Rightarrow> string \<Rightarrow> string \<Rightarrow> 'v option \<Rightarrow> bool
      \<Rightarrow> uuid \<Rightarrow> datetime \<Rightarrow> ('v job_run \<times> bool) res \<times> 'v job_table" where
  "db_reserve_seen to_json seen t kind day key phase value retry_failed uuid now =
     (let r = next_queued seen kind day key phase value uuid now;
          add = (case andThen (model_of to_json r) (insert_row t) of
            Inl e \<Rightarrow>
              (if e = DatabaseError ''IntegrityError''
               then (case db_latest t key of
                 None \<Rightarrow> (Inl e, t) | Some winner \<Rightarrow> (Inr (winner, False), t))
               else (Inl e, t))
          | Inr t' \<Rightarrow> (Inr (r, True), t'))
      in case seen of
           None \<Rightarrow> add
         | Some p \<Rightarrow>
             if \<not> retry_failed \<or> jr_status p \<noteq> Failed then (Inr (record_of p, False), t)
             else if jr_status p \<noteq> Failed
             then (Inl (StateConflict ''Only failed jobs can be queued for retry''), t)
             else add)"

definition db_reserve_queued_owned where
  "db_reserve_queued_owned to_json t kind day key phase value retry_failed uuid now =
     db_reserve_seen to_json (latest_row t key) t kind day key phase value retry_failed uuid now"

definition db_reserve_queued where
  "db_reserve_queued to_json t kind day key phase value retry_failed uuid now =
     (case db_reserve_queued_owned to_json t kind day key phase value retry_failed uuid now of
        (out, t') \<Rightarrow> (andThen out (\<lambda>x. Inr (fst x)), t'))"

text \<open>An \<open>UPDATE\<close> of the queued row with an id; a \<open>get\<close> after it reads the row as it is then.\<close>

definition claim_row :: "string \<Rightarrow> datetime \<Rightarrow> 'v job_row \<Rightarrow> 'v job_row" where
  "claim_row phase now x = x\<lparr>jr_status := InProgress, jr_phase := Some phase, jr_started := now,
     jr_error := None, jr_ended := None\<rparr>"

definition db_claim_seen ::
    "'v job_row option \<Rightarrow> 'v job_table \<Rightarrow> string \<Rightarrow> datetime \<Rightarrow> ('v job_run option) res \<times> 'v job_table" where
  "db_claim_seen seen t phase now = (case seen of
     None \<Rightarrow> (Inr None, t)
   | Some p \<Rightarrow>
       if jr_status p = InProgress then (Inl (StateConflict ''A matching job is already running''), t)
       else if jr_status p \<noteq> Queued then (Inr None, t)
       else (case row_by_id t (jr_id p) of
           None \<Rightarrow> (Inr None, t)
         | Some x \<Rightarrow>
             if jr_status x = Queued
             then (Inr (Some (record_of (claim_row phase now x))), put_row (jr_id p) (claim_row phase now x) t)
             else if jr_status x = InProgress
             then (Inl (StateConflict ''A matching job is already running''), t)
             else (Inr None, t)))"

definition db_claim_queued where
  "db_claim_queued t key phase now = db_claim_seen (latest_row t key) t phase now"

definition db_claim_queued_for_requeue ::
    "'v job_table \<Rightarrow> string \<Rightarrow> datetime \<Rightarrow> datetime \<Rightarrow> ('v job_run \<times> bool) res \<times> 'v job_table" where
  "db_claim_queued_for_requeue t i expected_started_at now = (case as_uuid i of
     Inl e \<Rightarrow> (Inl e, t)
   | Inr u \<Rightarrow>
       (case row_by_id t u of
          None \<Rightarrow> (Inl (StateConflict ''The requested queued job no longer exists''), t)
        | Some x \<Rightarrow>
            if jr_status x \<noteq> Queued then (Inr (record_of x, False), t)
            else if instant (jr_started x) \<noteq> instant expected_started_at then (Inr (record_of x, False), t)
            else let x' = x\<lparr>jr_phase := Some ''requeueing'', jr_started := now, jr_error := None,
                     jr_ended := None\<rparr>
              in (Inr (record_of x', True), put_row u x' t)))"

definition db_mark_queued :: "'v job_table \<Rightarrow> string \<Rightarrow> string \<Rightarrow> ('v job_run option) res \<times> 'v job_table" where
  "db_mark_queued t i phase = (case as_uuid i of
     Inl e \<Rightarrow> (Inl e, t)
   | Inr u \<Rightarrow>
       (case row_by_id t u of
          None \<Rightarrow> (Inr None, t)
        | Some x \<Rightarrow>
            if jr_status x = Queued
            then (Inr (Some (record_of (x\<lparr>jr_phase := Some phase\<rparr>))), put_row u (x\<lparr>jr_phase := Some phase\<rparr>) t)
            else (Inr (Some (record_of x)), t)))"

definition db_append_seen ::
    "('v \<Rightarrow> 'v) \<Rightarrow> 'v job_row option \<Rightarrow> 'v job_table \<Rightarrow> 'v job_run \<Rightarrow> unit res \<times> 'v job_table" where
  "db_append_seen to_json seen t r =
     (let written = (case seen of
            Some p \<Rightarrow>
              if jr_status p = Failed \<and> provider_from_task_key (job_key r) = None
              then andThen (as_uuid (run_id r))
                     (\<lambda>u. update_row t (jr_id p) ((overwrite_row to_json r p)\<lparr>jr_id := u\<rparr>))
              else andThen (model_of to_json r) (insert_row t)
          | None \<Rightarrow> andThen (model_of to_json r) (insert_row t))
      in case written of
           Inr t' \<Rightarrow> (Inr (), t')
         | Inl e \<Rightarrow>
             if e = DatabaseError ''IntegrityError''
             then (Inl (StateConflict ''A matching queued or running job already exists''), t)
             else (Inl e, t))"

definition db_append where
  "db_append to_json t r = db_append_seen to_json (latest_row t (job_key r)) t r"

definition db_replace :: "('v \<Rightarrow> 'v) \<Rightarrow> 'v job_table \<Rightarrow> 'v job_run \<Rightarrow> unit res \<times> 'v job_table" where
  "db_replace to_json t r = (case as_uuid (run_id r) of
     Inl e \<Rightarrow> (Inl e, t)
   | Inr u \<Rightarrow>
       (case row_by_id t u of
          None \<Rightarrow> (Inl (KeyError (run_id r)), t)
        | Some x \<Rightarrow>
            (case update_row t u (overwrite_row to_json r x) of
               Inl e \<Rightarrow> (Inl e, t) | Inr t' \<Rightarrow> (Inr (), t'))))"

definition db_ops :: "('v \<Rightarrow> 'v) \<Rightarrow> ('v job_table, 'v) store_ops" where
  "db_ops to_json = \<lparr>op_latest = db_latest, op_claim = db_claim_queued,
     op_append = db_append to_json, op_replace = db_replace to_json\<rparr>"

section \<open>The latest row of a key\<close>

lemma latest_in_table:
  assumes "latest_row t k = Some x"
  shows "x \<in> set t" and "jr_key x = k" and "\<And>y. y \<in> set t \<Longrightarrow> jr_key y = k \<Longrightarrow> row_stamp y \<le> row_stamp x"
proof -
  let ?f = "filter (\<lambda>x. jr_key x = k) t"
  obtain xs where xs: "newest_first ?f = x # xs"
    using assms by (auto simp: latest_row_def split: list.splits)
  have s: "set (newest_first ?f) = set ?f" by (simp add: newest_first_def)
  show "x \<in> set t" and "jr_key x = k" using s xs by auto
  fix y assume "y \<in> set t" "jr_key y = k"
  then have "y \<in> set (newest_first ?f)" using s by simp
  moreover have "sort_key row_stamp ?f = rev xs @ [x]"
    using arg_cong[OF xs, of rev] by (simp add: newest_first_def)
  then have "sorted (map row_stamp (rev xs @ [x]))" by (metis sorted_sort_key)
  then have "\<forall>z\<in>set xs. row_stamp z \<le> row_stamp x" by (auto simp: sorted_append)
  ultimately show "row_stamp y \<le> row_stamp x" using xs by auto
qed

lemma latest_None_iff: "latest_row t k = None \<longleftrightarrow> (\<forall>y\<in>set t. jr_key y \<noteq> k)"
proof -
  have "set (newest_first (filter (\<lambda>x. jr_key x = k) t)) = {y \<in> set t. jr_key y = k}"
    by (auto simp: newest_first_def)
  then show ?thesis
    by (cases "newest_first (filter (\<lambda>x. jr_key x = k) t)") (auto simp: latest_row_def)
qed

lemma latest_is:
  assumes "x \<in> set t" and "jr_key x = k" and "distinct (map jr_id t)"
    and "\<And>y. y \<in> set t \<Longrightarrow> jr_key y = k \<Longrightarrow> row_stamp y \<le> row_stamp x"
  shows "latest_row t k = Some x"
proof (cases "latest_row t k")
  case (Some y)
  note y = latest_in_table[OF Some]
  have "row_stamp x = row_stamp y" using y(3)[OF assms(1,2)] assms(4)[OF y(1,2)] by simp
  then have "jr_id x = jr_id y" by (simp add: row_stamp_def)
  then show ?thesis using Some y(1) assms(1,3) by (auto simp: distinct_map dest: inj_onD)
qed (use assms(1,2) in \<open>auto simp: latest_None_iff\<close>)

lemma latest_other:
  "filter (\<lambda>x. jr_key x = k) t = filter (\<lambda>x. jr_key x = k) t' \<Longrightarrow> latest_row t k = latest_row t' k"
  by (simp add: latest_row_def)

lemma row_by_id_in:
  assumes "distinct (map jr_id t)"
  shows "x \<in> set t \<Longrightarrow> row_by_id t (jr_id x) = Some x"
proof -
  assume x: "x \<in> set t"
  obtain y where y: "row_by_id t (jr_id x) = Some y"
    using x by (cases "row_by_id t (jr_id x)") (auto simp: row_by_id_def find_None_iff)
  then have "y \<in> set t \<and> jr_id y = jr_id x" unfolding row_by_id_def by (rule find_Some_in)
  then show ?thesis using x y assms by (auto simp: distinct_map dest: inj_onD)
qed

section \<open>The table's invariant\<close>

text \<open>A row as the store writes it, and a table whose active rows are the latest of their keys.\<close>

definition row_ok :: "('v \<Rightarrow> 'v) \<Rightarrow> 'v job_row \<Rightarrow> bool" where
  "row_ok to_json x \<longleftrightarrow> uuid_ok (jr_id x) \<and> 1 \<le> number_or_1 (jr_number x) \<and>
     map_option to_json (jr_value x) = jr_value x"

definition table_ok :: "('v \<Rightarrow> 'v) \<Rightarrow> 'v job_table \<Rightarrow> bool" where
  "table_ok to_json t \<longleftrightarrow> distinct (map jr_id t) \<and>
     (\<forall>x\<in>set t. row_ok to_json x \<and> (active_row x \<longrightarrow> latest_row t (jr_key x) = Some x))"

text \<open>Writing a row that becomes the latest of its key.\<close>

lemma write_latest:
  assumes "table_ok to_json t" and "distinct (map jr_id t')" and "set t' = insert y B" and "B \<subseteq> set t"
    and "row_ok to_json y" and "jr_key y = k"
    and "\<And>z. z \<in> B \<Longrightarrow> jr_key z = k \<Longrightarrow> \<not> active_row z \<and> row_stamp z \<le> row_stamp y"
    and "\<And>k'. k' \<noteq> k \<Longrightarrow> filter (\<lambda>x. jr_key x = k') t' = filter (\<lambda>x. jr_key x = k') t"
  shows "table_ok to_json t'" and "latest_row t' k = Some y"
    and "\<forall>k'. k' \<noteq> k \<longrightarrow> latest_row t' k' = latest_row t k'"
proof -
  show l: "latest_row t' k = Some y"
    by (rule latest_is) (use assms in auto)
  have o: "latest_row t' k' = latest_row t k'" if "k' \<noteq> k" for k'
    using assms(8)[OF that] by (rule latest_other)
  then show "\<forall>k'. k' \<noteq> k \<longrightarrow> latest_row t' k' = latest_row t k'" by blast
  have "row_ok to_json x \<and> (active_row x \<longrightarrow> latest_row t' (jr_key x) = Some x)" if "x \<in> set t'" for x
  proof (cases "x = y")
    case False
    then have x: "x \<in> B" "x \<in> set t" using that assms(3,4) by auto
    show ?thesis
    proof (cases "jr_key x = k")
      case True
      then show ?thesis using assms(1,7) x by (simp add: table_ok_def)
    next
      case False
      then show ?thesis using assms(1) o[OF False] x(2) by (simp add: table_ok_def)
    qed
  qed (use l assms(5,6) in simp)
  then show "table_ok to_json t'" using assms(2) by (simp add: table_ok_def)
qed

lemma put_latest_row:
  assumes "table_ok to_json t" and "latest_row t k = Some x" and "row_ok to_json y" and "jr_key y = k"
    and "jr_id y = jr_id x \<or> jr_id y \<notin> jr_id ` set t"
    and "\<And>z. z \<in> set t \<Longrightarrow> jr_key z = k \<Longrightarrow> z \<noteq> x \<Longrightarrow> row_stamp z \<le> row_stamp y"
  shows "table_ok to_json (put_row (jr_id x) y t) \<and> latest_row (put_row (jr_id x) y t) k = Some y \<and>
    (\<forall>k'. k' \<noteq> k \<longrightarrow> latest_row (put_row (jr_id x) y t) k' = latest_row t k')"
proof -
  let ?t = "put_row (jr_id x) y t"
  note x = latest_in_table[OF assms(2)]
  have d: "distinct (map jr_id t)" using assms(1) by (simp add: table_ok_def)
  have same: "z = x" if "z \<in> set t" "jr_id z = jr_id x" for z
    using d that x(1) by (auto simp: distinct_map dest: inj_onD)
  have set: "set ?t = insert y (set t - {x})"
    using x(1) same by (auto simp: put_row_def)
  have dist: "distinct (map jr_id ?t)"
  proof -
    have m: "map jr_id ?t = map (\<lambda>i. if i = jr_id x then jr_id y else i) (map jr_id t)"
      by (simp add: put_row_def)
    have "inj_on (\<lambda>i. if i = jr_id x then jr_id y else i) (set (map jr_id t))"
      using assms(5) by (auto simp: inj_on_def image_iff)
    then show ?thesis unfolding m using d by (simp only: distinct_map simp_thms)
  qed
  have quiet: "\<not> active_row z \<and> row_stamp z \<le> row_stamp y" if "z \<in> set t - {x}" "jr_key z = k" for z
    using assms(1,2) that assms(6)[of z] by (auto simp: table_ok_def)
  have other: "filter (\<lambda>z. jr_key z = k') ?t = filter (\<lambda>z. jr_key z = k') t" if "k' \<noteq> k" for k'
  proof -
    have "z \<in> set t \<Longrightarrow> jr_id z = jr_id x \<Longrightarrow> jr_key z \<noteq> k'" for z using same x(2) that by auto
    then show ?thesis using that assms(4)
      unfolding put_row_def by (induction t) auto
  qed
  from write_latest[OF assms(1) dist set _ assms(3,4) quiet other] show ?thesis by blast
qed

lemma append_latest_row:
  assumes "table_ok to_json t" and "\<And>z. z \<in> set t \<Longrightarrow> jr_key z = k \<Longrightarrow> \<not> active_row z \<and> row_stamp z \<le> row_stamp y"
    and "row_ok to_json y" and "jr_key y = k" and "jr_id y \<notin> jr_id ` set t"
  shows "table_ok to_json (t @ [y]) \<and> latest_row (t @ [y]) k = Some y \<and>
    (\<forall>k'. k' \<noteq> k \<longrightarrow> latest_row (t @ [y]) k' = latest_row t k')"
proof -
  have d: "distinct (map jr_id (t @ [y]))" using assms(1,5) by (simp add: table_ok_def)
  have s: "set (t @ [y]) = insert y (set t)" by simp
  have o: "k' \<noteq> k \<Longrightarrow> filter (\<lambda>x. jr_key x = k') (t @ [y]) = filter (\<lambda>x. jr_key x = k') t" for k'
    using assms(4) by simp
  from write_latest[OF assms(1) d s subset_refl assms(3,4,2) o] show ?thesis by blast
qed

section \<open>The store keeps the runner's contract\<close>

text \<open>
  A run started \<open>now\<close> is the latest of its key when every row of the key started before. Run ids are
  canonical UUIDs.
\<close>

definition db_timely :: "'v job_table \<Rightarrow> string \<Rightarrow> datetime \<Rightarrow> bool" where
  "db_timely t key now \<longleftrightarrow> (\<forall>x\<in>set t. jr_key x = key \<longrightarrow> instant (jr_started x) < instant now)"

definition db_unused :: "'v job_table \<Rightarrow> string \<Rightarrow> bool" where
  "db_unused t i \<longleftrightarrow> uuid_ok i \<and> i \<notin> jr_id ` set t"

definition same_job :: "'v job_run \<Rightarrow> string \<Rightarrow> date \<Rightarrow> bool" where
  "same_job p kind day \<longleftrightarrow> job_kind p = kind \<and> business_date p = day"

definition storable :: "('v \<Rightarrow> 'v) \<Rightarrow> 'v option \<Rightarrow> bool" where
  "storable to_json v \<longleftrightarrow> map_option to_json v = v"

lemma as_uuid_ok: "uuid_ok u \<Longrightarrow> as_uuid u = Inr u"
  by (simp add: as_uuid_def uuid_round_trip)

lemma number_or_1_pos: "1 \<le> n \<Longrightarrow> number_or_1 (Some n) = n"
  by (simp add: number_or_1_def)

lemma db_latest_Some:
  "db_latest t k = Some p \<longleftrightarrow> (\<exists>x. latest_row t k = Some x \<and> record_of x = p)"
  by (auto simp: db_latest_def)

lemma model_is:
  assumes "uuid_ok (run_id r)" and "job_phase r \<noteq> []" and "storable to_json (job_value r)" and "1 \<le> run_number r"
  shows "\<exists>y. model_of to_json r = Inr y \<and> record_of y = r \<and> row_ok to_json y \<and> jr_id y = run_id r \<and>
    jr_key y = job_key r \<and> jr_started y = started_at r"
proof -
  obtain y where y: "model_of to_json r = Inr y"
    "y = \<lparr>jr_id = run_id r, jr_code = job_kind r, jr_date = business_date r, jr_key = job_key r,
      jr_status = job_status r, jr_number = Some (run_number r), jr_attempt = attempt r,
      jr_phase = Some (job_phase r), jr_value = job_value r,
      jr_error = error_summary r, jr_started = started_at r, jr_ended = finished_at r\<rparr>"
    using assms(1,3) by (simp add: model_of_def as_uuid_ok storable_def)
  have "record_of y = r" using assms(2,4) by (simp add: y(2) record_of_def number_or_1_pos)
  moreover have "row_ok to_json y" using assms by (simp add: y(2) row_ok_def number_or_1_pos storable_def)
  ultimately show ?thesis using y by auto
qed

lemma overwrite_is:
  assumes "job_phase r \<noteq> []" and "storable to_json (job_value r)" and "1 \<le> run_number r"
    and "uuid_ok (run_id r)" and "jr_key x = job_key r" and "jr_code x = job_kind r" and "jr_date x = business_date r"
  shows "record_of ((overwrite_row to_json r x)\<lparr>jr_id := run_id r\<rparr>) = r"
    and "row_ok to_json ((overwrite_row to_json r x)\<lparr>jr_id := run_id r\<rparr>)"
  using assms by (simp_all add: overwrite_row_def record_of_def row_ok_def number_or_1_pos storable_def)

lemma overwrite_keeps [simp]:
  "jr_id (overwrite_row to_json r x) = jr_id x" "jr_key (overwrite_row to_json r x) = jr_key x"
  "jr_started (overwrite_row to_json r x) = started_at r" "jr_status (overwrite_row to_json r x) = job_status r"
  by (simp_all add: overwrite_row_def)

text \<open>An update of the latest row of a key does not hit a constraint.\<close>

lemma update_latest:
  assumes "table_ok to_json t" and "latest_row t k = Some x" and "jr_key y = k"
    and "jr_id y = jr_id x \<or> jr_id y \<notin> jr_id ` set t"
  shows "update_row t (jr_id x) y = Inr (put_row (jr_id x) y t)"
proof -
  note x = latest_in_table[OF assms(2)]
  have "\<not> active_row z" if "z \<in> set t" "jr_id z \<noteq> jr_id x" "jr_key z = k" for z
    using assms(1,2) that by (auto simp: table_ok_def)
  then have "\<not> row_clash (filter (\<lambda>z. jr_id z \<noteq> jr_id x) t) y"
    using assms(3,4) by (auto simp: row_clash_def image_iff)
  then show ?thesis using x(1) by (auto simp: update_row_def)
qed

lemma stamp_timely:
  "db_timely t k (jr_started y) \<Longrightarrow> z \<in> set t \<Longrightarrow> jr_key z = k \<Longrightarrow> row_stamp z \<le> row_stamp y"
  by (auto simp: db_timely_def row_stamp_def less_eq_prod_def)

lemma db_append_keeps:
  assumes "table_ok to_json t" and "db_unused t (run_id r)" and "db_timely t (job_key r) (started_at r)"
    and "job_phase r \<noteq> []" and "storable to_json (job_value r)" and "1 \<le> run_number r"
    and "\<forall>p. db_latest t (job_key r) = Some p \<longrightarrow> job_status p = Failed \<and> same_job p (job_kind r) (business_date r)"
  shows "\<exists>t'. db_append to_json t r = (Inr (), t') \<and> table_ok to_json t' \<and> db_latest t' (job_key r) = Some r \<and>
    (\<forall>k. k \<noteq> job_key r \<longrightarrow> db_latest t' k = db_latest t k)"
proof -
  let ?k = "job_key r"
  have u: "uuid_ok (run_id r)" "run_id r \<notin> jr_id ` set t" using assms(2) by (auto simp: db_unused_def)
  have insert: "\<exists>t'. andThen (model_of to_json r) (insert_row t) = Inr t' \<and> table_ok to_json t' \<and>
      db_latest t' ?k = Some r \<and> (\<forall>k. k \<noteq> ?k \<longrightarrow> db_latest t' k = db_latest t k)"
  proof -
    obtain y where y: "model_of to_json r = Inr y" "record_of y = r" "row_ok to_json y"
      "jr_id y = run_id r" "jr_key y = ?k" "jr_started y = started_at r"
      using model_is[OF u(1) assms(4-6)] by blast
    have quiet: "\<not> active_row z \<and> row_stamp z \<le> row_stamp y" if "z \<in> set t" "jr_key z = ?k" for z
    proof
      show "\<not> active_row z"
      proof
        assume a: "active_row z"
        then have "latest_row t ?k = Some z" using assms(1) that by (auto simp: table_ok_def)
        then have "jr_status z = Failed" using assms(7) by (auto simp: db_latest_def record_of_def)
        with a show False by (simp add: active_row_def)
      qed
      show "row_stamp z \<le> row_stamp y" by (rule stamp_timely[OF _ that]) (use assms(3) y in simp)
    qed
    have "\<not> row_clash t y" using quiet u(2) y by (auto simp: row_clash_def image_iff)
    then have "andThen (model_of to_json r) (insert_row t) = Inr (t @ [y])" using y(1) by (simp add: insert_row_def)
    moreover have "jr_id y \<notin> jr_id ` set t" using u(2) y(4) by simp
    note append_latest_row[OF assms(1) quiet y(3) y(5) this]
    ultimately show ?thesis using y(2) by (auto simp: db_latest_def)
  qed
  show ?thesis
  proof (cases "latest_row t ?k")
    case None
    then show ?thesis using insert by (auto simp: db_append_def db_append_seen_def)
  next
    case (Some x)
    then have s: "jr_status x = Failed" "jr_code x = job_kind r" "jr_date x = business_date r"
      using assms(7) by (auto simp: db_latest_def record_of_def same_job_def)
    note x = latest_in_table[OF Some]
    show ?thesis
    proof (cases "provider_from_task_key ?k = None")
      case False
      then show ?thesis using insert by (auto simp: db_append_def db_append_seen_def Some s)
    next
      case True
      let ?y = "(overwrite_row to_json r x)\<lparr>jr_id := run_id r\<rparr>"
      note o = overwrite_is[OF assms(4-6) u(1) x(2) s(2,3)]
      have y: "jr_key ?y = ?k" "jr_id ?y = run_id r" "jr_started ?y = started_at r" using x(2) by simp_all
      have new: "jr_id ?y = jr_id x \<or> jr_id ?y \<notin> jr_id ` set t" using u(2) by simp
      have "update_row t (jr_id x) ?y = Inr (put_row (jr_id x) ?y t)"
        by (rule update_latest[OF assms(1) Some y(1) new])
      then have "db_append to_json t r = (Inr (), put_row (jr_id x) ?y t)"
        by (simp add: db_append_def db_append_seen_def Some s True as_uuid_ok[OF u(1)])
      moreover have st: "row_stamp z \<le> row_stamp ?y" if "z \<in> set t" "jr_key z = ?k" "z \<noteq> x" for z
        by (rule stamp_timely[OF _ that(1,2)]) (use assms(3) in simp)
      note put_latest_row[OF assms(1) Some o(2) y(1) new st]
      ultimately show ?thesis using o(1) by (auto simp: db_latest_def)
    qed
  qed
qed

lemma db_claim_keeps:
  assumes "table_ok to_json t" and "db_latest t k = Some p" and "job_status p = Queued"
    and "db_timely t k now" and "phase \<noteq> []"
  shows "\<exists>t'. db_claim_queued t k phase now = (Inr (Some (claimed p phase now)), t') \<and> table_ok to_json t' \<and>
    db_latest t' k = Some (claimed p phase now) \<and> (\<forall>k'. k' \<noteq> k \<longrightarrow> db_latest t' k' = db_latest t k')"
proof -
  obtain x where l: "latest_row t k = Some x" and p: "record_of x = p"
    using assms(2) by (auto simp: db_latest_def)
  note x = latest_in_table[OF l]
  have d: "distinct (map jr_id t)" and ok: "row_ok to_json x" using assms(1) x(1) by (auto simp: table_ok_def)
  let ?y = "claim_row phase now x"
  have st: "jr_status x = Queued" using assms(3) p by (auto simp: record_of_def)
  have rec: "record_of ?y = claimed p phase now"
    using assms(5) by (simp add: p [symmetric] claim_row_def claimed_def record_of_def)
  have y: "jr_id ?y = jr_id x" "jr_key ?y = k" "jr_started ?y = now" "row_ok to_json ?y"
    using x(2) ok by (simp_all add: claim_row_def row_ok_def)
  have "db_claim_queued t k phase now = (Inr (Some (claimed p phase now)), put_row (jr_id x) ?y t)"
    by (simp add: db_claim_queued_def db_claim_seen_def l st row_by_id_in[OF d x(1)] rec)
  moreover have s: "row_stamp z \<le> row_stamp ?y" if "z \<in> set t" "jr_key z = k" "z \<noteq> x" for z
    by (rule stamp_timely[OF _ that(1,2)]) (use assms(4) y(3) in simp)
  note put_latest_row[OF assms(1) l y(4,2) disjI1[OF y(1)] s]
  ultimately show ?thesis using rec by (auto simp: db_latest_def)
qed

lemma db_replace_keeps:
  assumes "table_ok to_json t" and "db_latest t (job_key r) = Some p" and "same_attempt p r"
    and "job_phase r \<noteq> []" and "storable to_json (job_value r)"
  shows "\<exists>t'. db_replace to_json t r = (Inr (), t') \<and> table_ok to_json t' \<and> db_latest t' (job_key r) = Some r \<and>
    (\<forall>k. k \<noteq> job_key r \<longrightarrow> db_latest t' k = db_latest t k)"
proof -
  let ?k = "job_key r"
  obtain x where l: "latest_row t ?k = Some x" and p: "record_of x = p"
    using assms(2) by (auto simp: db_latest_def)
  note x = latest_in_table[OF l]
  have d: "distinct (map jr_id t)" and ok: "row_ok to_json x" using assms(1) x(1) by (auto simp: table_ok_def)
  have a: "run_id r = jr_id x" "job_kind r = jr_code x" "business_date r = jr_date x" "started_at r = jr_started x"
    "run_number r = number_or_1 (jr_number x)"
    using assms(3) p by (auto simp: same_attempt_def record_of_def)
  have u: "uuid_ok (run_id r)" "1 \<le> run_number r" using ok a by (auto simp: row_ok_def)
  let ?y = "overwrite_row to_json r x"
  have id: "?y\<lparr>jr_id := run_id r\<rparr> = ?y" by (simp add: a(1) overwrite_row_def)
  note o = overwrite_is[OF assms(4,5) u(2,1) x(2) a(2)[symmetric] a(3)[symmetric], unfolded id]
  have k: "jr_key ?y = ?k" using x(2) by simp
  have same: "jr_id ?y = jr_id x \<or> jr_id ?y \<notin> jr_id ` set t" by simp
  have "db_replace to_json t r = (Inr (), put_row (jr_id x) ?y t)"
    using update_latest[OF assms(1) l k same] as_uuid_ok[OF u(1)] row_by_id_in[OF d x(1)]
    by (simp add: db_replace_def a(1))
  moreover have s: "row_stamp z \<le> row_stamp ?y" if "z \<in> set t" "jr_key z = ?k" "z \<noteq> x" for z
    using x(3)[OF that(1,2)] a(4) by (simp add: row_stamp_def)
  note put_latest_row[OF assms(1) l o(2) k same s]
  ultimately show ?thesis using o(1) by (auto simp: db_latest_def)
qed

interpretation db: job_store "db_ops to_json" "table_ok to_json" db_timely db_unused "\<lambda>phase. phase \<noteq> []"
  "storable to_json" same_job for to_json :: "'v \<Rightarrow> 'v"
proof
  fix t :: "'v job_table" and k and p :: "'v job_run"
  assume a: "table_ok to_json t" "op_latest (db_ops to_json) t k = Some p"
  then obtain x where l: "latest_row t k = Some x" and p: "record_of x = p"
    by (auto simp: db_ops_def db_latest_def)
  note x = latest_in_table[OF l]
  have ok: "row_ok to_json x" using a(1) x(1) by (auto simp: table_ok_def)
  show "job_key p = k \<and> 1 \<le> run_number p \<and> job_phase p \<noteq> [] \<and> storable to_json (job_value p)"
    using ok x(2) by (auto simp: p [symmetric] record_of_def row_ok_def storable_def split: option.splits)
qed (simp_all add: db_ops_def db_append_keeps db_claim_keeps db_replace_keeps storable_def same_job_def)

section \<open>Properties\<close>

text \<open>
  One side effect per job, durably: a call whose operation returns runs it, records the value, and
  from then on every repetition of the job returns that value and that run id without running its
  own operation and without changing the table or the audit log. The run must start after the
  earlier runs of its key, and the value must survive the JSON column.
\<close>

theorem durable_success_is_replayed:
  assumes "table_ok to_json t" and "key = make_idempotency_key kind day scope"
    and "\<forall>p. db_latest t key = Some p \<longrightarrow> job_status p \<in> {Failed, Queued} \<and> same_job p kind day"
    and "db_unused t uuid" and "db_timely t key now" and "phase \<noteq> []" and "map_option to_json v = v"
  shows "\<exists>res t' audit'. run_task (db_ops to_json) t audit kind day scope phase uuid now (Returned v) end_time =
      ((Result res, True), t', audit') \<and> result_value res = v \<and> table_ok to_json t' \<and>
      length audit' = Suc (length audit) \<and>
    (\<forall>phase2 uuid2 now2 out2 end2. \<exists>res2.
      run_task (db_ops to_json) t' audit' kind day scope phase2 uuid2 now2 out2 end2 =
        ((Result res2, False), t', audit') \<and>
      result_value res2 = v \<and> result_run_id res2 = result_run_id res \<and> replayed res2)"
proof -
  have "op_latest (db_ops to_json) t key = db_latest t key" by (simp add: db_ops_def)
  then have "db.may_run to_json t key kind day" using assms(3) by (simp add: db.may_run_def)
  from db.success_is_replayed[OF assms(1,2) this assms(4-6)] assms(7) show ?thesis by (simp add: storable_def)
qed

definition sample_uuid :: "char \<Rightarrow> uuid" where
  "sample_uuid c = uuid_text (replicate 32 c)"

lemma sample_uuid_ok: "is_lower_hex c \<Longrightarrow> uuid_ok (sample_uuid c)"
  unfolding uuid_ok_def sample_uuid_def by (intro exI[of _ "replicate 32 c"]) (simp add: list_all_iff)

lemma durable_success_is_replayed_witness:
  "\<exists>res t' audit'. run_task (db_ops (\<lambda>v. v)) [] [] ''backup'' 738945 None ''execute'' (sample_uuid CHR ''a'')
      \<lparr>wall = 5, utcoff = Some 0\<rparr> (Returned (Some (7::nat))) \<lparr>wall = 9, utcoff = Some 0\<rparr> =
      ((Result res, True), t', audit') \<and> result_value res = Some 7"
  using durable_success_is_replayed[of "\<lambda>v. v" "[]" "make_idempotency_key ''backup'' 738945 None" "''backup''"
      738945 None "sample_uuid CHR ''a''" "\<lparr>wall = 5, utcoff = Some 0\<rparr>" "''execute''" "Some (7::nat)" "[]"
      "\<lparr>wall = 9, utcoff = Some 0\<rparr>"]
  by (simp add: table_ok_def db_latest_def latest_row_def newest_first_def db_unused_def db_timely_def
      sample_uuid_ok is_lower_hex_def option.map_id0 [unfolded id_def]) blast

text \<open>
  The durable store lets one of two tasks run: both read the same latest record before either
  writes; the first runs its operation, and the second is refused and leaves the table as it is, also
  when its append had read the table before the first one wrote.
\<close>

theorem durable_stale_reads_run_once:
  assumes "table_ok to_json t" and "previous = db_latest t key"
    and "\<forall>p. previous = Some p \<longrightarrow> job_status p = Failed \<and> same_job p kind day"
    and "db_unused t u1" and "db_timely t key now1" and "phase \<noteq> []" and "uuid_ok u2"
  shows "\<exists>r t1 e.
    task_decide (db_ops to_json) t previous kind day key phase u1 now1 = (Execute r, t1) \<and>
    task_decide (db_ops to_json) t1 previous kind day key phase u2 now2 =
      (Refuse (StateConflict ''A matching queued or running job already exists''), t1) \<and>
    db_append_seen to_json (latest_row t key) t1 (new_run previous kind day key phase u2 now2) = (Inl e, t1) \<and>
    db_latest t1 key = Some r \<and> job_status r = InProgress"
proof -
  let ?r = "new_run previous kind day key phase u1 now1" and ?r2 = "new_run previous kind day key phase u2 now2"
  have prev: "1 \<le> run_number p" if "previous = Some p" for p
    using db.latest_law[OF assms(1), of key p] that assms(2) by (simp add: db_ops_def)
  have new: "1 \<le> run_number (new_run previous kind day key phase u now)"
    "job_key (new_run previous kind day key phase u now) = key" "job_phase (new_run previous kind day key phase u now) = phase"
    "job_kind (new_run previous kind day key phase u now) = kind" "job_value (new_run previous kind day key phase u now) = None"
    "business_date (new_run previous kind day key phase u now) = day" "run_id (new_run previous kind day key phase u now) = u"
    "started_at (new_run previous kind day key phase u now) = now" "job_status (new_run previous kind day key phase u now) = InProgress"
    for u now using prev by (auto simp: new_run_def split: option.splits)
  obtain t1 where app: "db_append to_json t ?r = (Inr (), t1)" and lt: "db_latest t1 key = Some ?r"
  proof -
    have a: "db_unused t (run_id ?r)" "db_timely t (job_key ?r) (started_at ?r)" "job_phase ?r \<noteq> []"
      "storable to_json (job_value ?r)" using assms(4-6) new by (simp_all add: storable_def)
    have "\<forall>p. db_latest t (job_key ?r) = Some p \<longrightarrow>
        job_status p = Failed \<and> same_job p (job_kind ?r) (business_date ?r)"
      unfolding new using assms(2,3) by blast
    from db_append_keeps[OF assms(1) a new(1) this] show thesis unfolding new by (blast intro: that)
  qed
  obtain y where y: "latest_row t1 key = Some y" "record_of y = ?r" using lt by (auto simp: db_latest_def)
  have ys: "jr_status y = InProgress" using arg_cong[OF y(2), of job_status] by (simp add: record_of_def new)
  note yin = latest_in_table[OF y(1)]
  obtain z where z: "model_of to_json ?r2 = Inr z" "jr_key z = key" "record_of z = ?r2"
    using model_is[of ?r2 to_json] assms(6,7) new by (auto simp: storable_def)
  have "active_row z" using arg_cong[OF z(3), of job_status] by (simp add: active_row_def record_of_def new)
  then have "row_clash t1 z" using yin(1,2) ys z(2) by (auto simp: row_clash_def active_row_def)
  then have ins: "andThen (model_of to_json ?r2) (insert_row t1) = Inl (DatabaseError ''IntegrityError'')"
    using z(1) by (simp add: insert_row_def)
  have first: "task_decide (db_ops to_json) t previous kind day key phase u1 now1 = (Execute ?r, t1)"
    using assms(3) app by (auto simp: task_decide_def Let_def db_ops_def split: option.splits)
  have "db_append to_json t1 ?r2 = (Inl (StateConflict ''A matching queued or running job already exists''), t1)"
    unfolding db_append_def db_append_seen_def new(2) y(1) by (simp add: ys ins)
  then have second: "task_decide (db_ops to_json) t1 previous kind day key phase u2 now2 =
      (Refuse (StateConflict ''A matching queued or running job already exists''), t1)"
    using assms(3) by (auto simp: task_decide_def Let_def db_ops_def split: option.splits)
  have "\<exists>e. db_append_seen to_json (latest_row t key) t1 ?r2 = (Inl e, t1)"
  proof (cases "latest_row t key")
    case (Some x)
    show ?thesis
    proof (cases "jr_status x = Failed \<and> provider_from_task_key key = None")
      case True
      have u: "uuid_ok u1" "u1 \<notin> jr_id ` set t" using assms(4) by (auto simp: db_unused_def)
      obtain w where t1: "t1 = put_row (jr_id x) w t" "jr_id w = u1"
        using app True
        by (auto simp: db_append_def db_append_seen_def new Some as_uuid_ok[OF u(1)] update_row_def Let_def
            split: if_splits sum.splits)
      have "jr_id q \<noteq> jr_id x" if "q \<in> set t1" for q
        using that t1 u(2) latest_in_table(1)[OF Some] by (auto simp: put_row_def split: if_splits)
      then have "update_row t1 (jr_id x) v = Inl (DatabaseError ''StaleDataError'')" for v
        by (auto simp: update_row_def)
      then show ?thesis using True by (simp add: db_append_seen_def Some new as_uuid_ok[OF assms(7)])
    qed (auto simp: db_append_seen_def Some new ins)
  qed (simp add: db_append_seen_def ins)
  then obtain e where "db_append_seen to_json (latest_row t key) t1 ?r2 = (Inl e, t1)" by blast
  with first second lt new(9) show ?thesis by (intro exI conjI)
qed

lemma durable_stale_reads_run_once_witness:
  "\<exists>r t1. task_decide (db_ops (\<lambda>v. v :: nat)) [] None ''backup'' 1 ''k'' ''execute''
      (sample_uuid CHR ''a'') \<lparr>wall = 0, utcoff = Some 0\<rparr> = (Execute r, t1) \<and>
    task_decide (db_ops (\<lambda>v. v)) t1 None ''backup'' 1 ''k'' ''execute''
      (sample_uuid CHR ''b'') \<lparr>wall = 1, utcoff = Some 0\<rparr> =
      (Refuse (StateConflict ''A matching queued or running job already exists''), t1)"
proof -
  have a: "table_ok (\<lambda>v. v :: nat) []" by (simp add: table_ok_def)
  have b: "None = db_latest ([] :: nat job_table) ''k''" by (simp add: db_latest_def latest_row_def newest_first_def)
  have c: "\<forall>p. (None :: nat job_run option) = Some p \<longrightarrow> job_status p = Failed \<and> same_job p ''backup'' 1" by simp
  have d: "db_unused ([] :: nat job_table) (sample_uuid CHR ''a'')" "uuid_ok (sample_uuid CHR ''b'')"
    by (simp_all add: db_unused_def sample_uuid_ok is_lower_hex_def)
  have e: "db_timely ([] :: nat job_table) ''k'' \<lparr>wall = 0, utcoff = Some 0\<rparr>" "''execute'' \<noteq> []"
    by (simp_all add: db_timely_def)
  from durable_stale_reads_run_once[OF a b c d(1) e d(2), where ?now2.0 = "\<lparr>wall = 1, utcoff = Some 0\<rparr>"]
  show ?thesis by blast
qed

text \<open>
  A race for a queue slot has one owner: of two reservations that both read the table before either
  wrote, the first owns the new queued run, and the second gets that same run without owning it and
  leaves the table as it is.
\<close>

theorem durable_reserve_has_one_owner:
  assumes "table_ok to_json t" and "seen = latest_row t key"
    and "\<forall>p. seen = Some p \<longrightarrow> retry \<and> jr_status p = Failed"
    and "db_unused t u1" and "db_timely t key now1" and "phase \<noteq> []" and "uuid_ok u2"
    and "map_option to_json value = value"
  shows "\<exists>r t1.
    db_reserve_seen to_json seen t kind day key phase value retry u1 now1 = (Inr (r, True), t1) \<and>
    db_reserve_seen to_json seen t1 kind day key phase value retry u2 now2 = (Inr (r, False), t1) \<and>
    table_ok to_json t1 \<and> db_latest t1 key = Some r \<and> job_status r = Queued \<and> run_id r = u1"
proof -
  let ?r = "\<lambda>u now. next_queued seen kind day key phase value u now"
  have num: "1 \<le> number_or_1 (jr_number p)" if "seen = Some p" for p
    using assms(1,2) that latest_in_table(1)[of t key p] by (auto simp: table_ok_def row_ok_def)
  have r: "1 \<le> run_number (?r u now)" "job_key (?r u now) = key" "job_phase (?r u now) = phase"
    "job_value (?r u now) = value" "run_id (?r u now) = u" "started_at (?r u now) = now" "job_status (?r u now) = Queued"
    for u now using num by (auto simp: next_queued_def split: option.splits)
  have u: "uuid_ok u1" "u1 \<notin> jr_id ` set t" using assms(4) by (auto simp: db_unused_def)
  have model: "\<exists>y. model_of to_json (?r u now) = Inr y \<and> record_of y = ?r u now \<and> row_ok to_json y \<and>
      jr_id y = u \<and> jr_key y = key \<and> jr_started y = now" if "uuid_ok u" for u now
    using model_is[of "?r u now" to_json] that assms(6,8) r by (simp add: storable_def)
  obtain y where y: "model_of to_json (?r u1 now1) = Inr y" "record_of y = ?r u1 now1" "row_ok to_json y"
    "jr_id y = u1" "jr_key y = key" "jr_started y = now1" using model[OF u(1)] by blast
  obtain z where z: "model_of to_json (?r u2 now2) = Inr z" "record_of z = ?r u2 now2" "jr_key z = key"
    using model[OF assms(7)] by blast
  have act: "active_row y" "active_row z"
    using arg_cong[OF y(2), of job_status] arg_cong[OF z(2), of job_status]
    by (simp_all add: r record_of_def active_row_def)
  have quiet: "\<not> active_row q \<and> row_stamp q \<le> row_stamp y" if "q \<in> set t" "jr_key q = key" for q
  proof
    show "\<not> active_row q"
      using assms(1-3) that by (auto simp: table_ok_def active_row_def)
    show "row_stamp q \<le> row_stamp y" by (rule stamp_timely[OF _ that]) (use assms(5) y in simp)
  qed
  have "\<not> row_clash t y" using quiet u(2) y by (auto simp: row_clash_def image_iff)
  then have ins1: "andThen (model_of to_json (?r u1 now1)) (insert_row t) = Inr (t @ [y])"
    using y(1) by (simp add: insert_row_def)
  have "row_clash (t @ [y]) z" using act z(3) y(5) by (auto simp: row_clash_def)
  then have ins2: "andThen (model_of to_json (?r u2 now2)) (insert_row (t @ [y])) = Inl (DatabaseError ''IntegrityError'')"
    using z(1) by (simp add: insert_row_def)
  have "jr_id y \<notin> jr_id ` set t" using u(2) y(4) by simp
  note app = append_latest_row[OF assms(1) quiet y(3,5) this]
  then have l: "db_latest (t @ [y]) key = Some (?r u1 now1)" using y(2) by (simp add: db_latest_def)
  have "db_reserve_seen to_json seen t kind day key phase value retry u1 now1 = (Inr (?r u1 now1, True), t @ [y])"
    using assms(3) ins1 by (cases seen) (simp_all add: db_reserve_seen_def)
  moreover have "db_reserve_seen to_json seen (t @ [y]) kind day key phase value retry u2 now2 =
      (Inr (?r u1 now1, False), t @ [y])"
    using assms(3) ins2 l by (cases seen) (simp_all add: db_reserve_seen_def)
  moreover have "table_ok to_json (t @ [y])" using app by blast
  ultimately show ?thesis using l r(5,7) by (intro exI conjI)
qed

lemma durable_reserve_has_one_owner_witness:
  "\<exists>r t1. db_reserve_seen (\<lambda>v. v :: nat) None [] ''backup'' 1 ''k'' ''queued'' None False
      (sample_uuid CHR ''a'') \<lparr>wall = 0, utcoff = Some 0\<rparr> = (Inr (r, True), t1) \<and>
    db_reserve_seen (\<lambda>v. v) None t1 ''backup'' 1 ''k'' ''queued'' None False
      (sample_uuid CHR ''b'') \<lparr>wall = 1, utcoff = Some 0\<rparr> = (Inr (r, False), t1)"
proof -
  have a: "table_ok (\<lambda>v. v :: nat) []" by (simp add: table_ok_def)
  have b: "None = latest_row ([] :: nat job_table) ''k''" by (simp add: latest_row_def newest_first_def)
  have c: "\<forall>p. (None :: nat job_row option) = Some p \<longrightarrow> False \<and> jr_status p = Failed" by simp
  have d: "db_unused ([] :: nat job_table) (sample_uuid CHR ''a'')" "uuid_ok (sample_uuid CHR ''b'')"
    by (simp_all add: db_unused_def sample_uuid_ok is_lower_hex_def)
  have e: "db_timely ([] :: nat job_table) ''k'' \<lparr>wall = 0, utcoff = Some 0\<rparr>" "''queued'' \<noteq> []"
    "map_option (\<lambda>v. v :: nat) None = None" by (simp_all add: db_timely_def)
  from durable_reserve_has_one_owner[OF a b c d(1) e(1,2) d(2) e(3), where ?now2.0 = "\<lparr>wall = 1, utcoff = Some 0\<rparr>"]
  show ?thesis by blast
qed

end
