(* ===== verification/DailyPlan.thy ===== *)
theory DailyPlan
  imports EngineInputs
begin

text \<open>
  The daily research run (\<open>app/application/daily_flow_service.py\<close>): from the bars of a data version to
  the historical pool, features, signals, next-day plans and the report. The digest of the report
  (\<open>json.dumps\<close> and SHA-256) is the parameter \<open>digest\<close>; the report keeps the typed values whose texts
  the code writes into it. Strategy parameters whose decimal text is an infinity or NaN are rejected
  here; the model's decimals are finite.
\<close>

section \<open>Data\<close>

record daily_request =
  dq_owner :: string
  dq_batch :: string
  dq_strategy :: string
  dq_data_version :: string
  dq_strategy_version :: string
  dq_date :: date
  dq_cutoff :: datetime
  dq_available :: bool
  dq_reason :: "string option"
  dq_benchmark :: string
  dq_equity :: dec
  dq_ratio :: dec

record daily_plan =
  dp_symbol :: string
  dp_signal_date :: date
  dp_execution_date :: date
  dp_side :: string
  dp_quantity :: int
  dp_low :: dec
  dp_high :: dec
  dp_cost :: dec
  dp_score :: dec
  dp_rank :: int
  dp_industry :: "string option"
  dp_risk :: string

record daily_ledger =
  dl_cash :: dec
  dl_positions :: "(string \<times> int) list"

record feature_record =
  fr_symbol :: string
  fr_date :: date
  fr_close :: "dec option"
  fr_return_5d :: "dec option"
  fr_return_20d :: "dec option"
  fr_amount_ratio :: "dec option"
  fr_buyable :: bool

record daily_report =
  dr_quality :: string
  dr_batch :: string
  dr_data_version :: string
  dr_strategy_version :: string
  dr_pool :: "string list"
  dr_candidates :: "feature_record list"
  dr_signals :: "entry_signal list"
  dr_status :: string
  dr_why :: "string option"
  dr_plans :: "daily_plan list"
  dr_rejected :: "string list"
  dr_equity :: dec
  dr_cash :: dec
  dr_risk :: string
  dr_actual_input :: bool
  dr_confirmation :: bool
  dr_submission :: bool

record daily_result =
  day_status :: string
  day_data_version :: string
  day_strategy_version :: string
  day_date :: date
  day_future_rows :: nat
  day_survivor :: bool
  day_pool :: "string list"
  day_signals :: "string list"
  day_rejected :: "string list"
  day_plans :: "daily_plan list"
  day_ledger :: daily_ledger
  day_report :: daily_report
  day_hash :: string
  day_stages :: "string list"

definition plan_execution_dates :: "daily_result \<Rightarrow> date list" where
  "plan_execution_dates r = sorted_set (map dp_execution_date (day_plans r))"

section \<open>Strategy parameters\<close>

definition int_param :: "row \<Rightarrow> string \<Rightarrow> int \<Rightarrow> int res" where
  "int_param ps key d = (case map_of ps key of
     None \<Rightarrow> Inr d
   | Some v \<Rightarrow> (case int_of v of
       None \<Rightarrow> Inl (ValueError ''invalid literal for int()'') | Some i \<Rightarrow> Inr i))"

definition decimal_param :: "row \<Rightarrow> string \<Rightarrow> dec \<Rightarrow> dec res" where
  "decimal_param ps key d = (case map_of ps key of
     None \<Rightarrow> Inr d
   | Some v \<Rightarrow> (case decimal_of v of Some (Finite x) \<Rightarrow> Inr x | _ \<Rightarrow> Inl InvalidOperation))"

definition daily_strategy_config :: "row \<Rightarrow> strong_config res" where
  "daily_strategy_config ps =
     (let d = default_strong_config in
      andThen (int_param ps ''max_positions'' (st_max_positions d)) (\<lambda>positions.
      andThen (int_param ps ''max_per_industry'' (st_max_per_industry d)) (\<lambda>per_industry.
      andThen (decimal_param ps ''min_return_5d'' (min_return_5d d)) (\<lambda>min_return.
      andThen (decimal_param ps ''max_return_5d'' (max_return_5d d)) (\<lambda>max_return.
      andThen (decimal_param ps ''min_amount_ratio'' (min_amount_ratio d)) (\<lambda>min_ratio.
      andThen (decimal_param ps ''max_amount_ratio'' (max_amount_ratio d)) (\<lambda>max_ratio.
      andThen (int_param ps ''max_holding_days'' (st_max_holding_days d)) (\<lambda>holding.
      andThen (decimal_param ps ''drawdown_exit'' (drawdown_exit d)) (\<lambda>exit.
        Inr \<lparr>st_max_positions = positions, st_max_per_industry = per_industry,
             min_return_5d = min_return, max_return_5d = max_return, min_amount_ratio = min_ratio,
             max_amount_ratio = max_ratio, st_max_holding_days = holding, drawdown_exit = exit\<rparr>)))))))))"

section \<open>The stages\<close>

definition assume_utc :: "datetime \<Rightarrow> datetime" where
  "assume_utc t = (if utcoff t = None then t\<lparr>utcoff := Some 0\<rparr> else t)"

text \<open>\<open>_visible\<close> and \<open>_strategy_visible\<close>\<close>

definition published :: "daily_request \<Rightarrow> datetime option \<Rightarrow> bool" where
  "published q available_at = available_at_or_before available_at (Some (dq_cutoff q))"

definition daily_strategy_bar :: "market_bar \<Rightarrow> dec \<Rightarrow> strategy_bar" where
  "daily_strategy_bar b close =
     \<lparr>sb_symbol = mb_symbol b, sb_date = mb_date b, sb_close = close,
      sb_amount = (case mb_amount b of None \<Rightarrow> 0 | Some a \<Rightarrow> a),
      sb_available_at = map_option assume_utc (mb_available_at b),
      sb_suspended = mb_suspended b, sb_st = mb_st b, sb_delisted = mb_delisted b,
      sb_limit_up = (close_limit_up b \<noteq> Some False), sb_industry = mb_industry b,
      sb_list_date = mb_list_date b\<rparr>"

definition future_rows :: "daily_request \<Rightarrow> market_bar list \<Rightarrow> nat" where
  "future_rows q bars = length (filter (\<lambda>b. mb_date b > dq_date q \<and> published q (mb_available_at b)) bars)"

definition survivor_bias :: "daily_request \<Rightarrow> market_bar list \<Rightarrow> bool" where
  "survivor_bias q bars \<longleftrightarrow> (\<exists>b\<in>set bars. mb_date b \<le> dq_date q \<and>
     (case mb_list_date b of None \<Rightarrow> False | Some l \<Rightarrow> l > dq_date q))"

definition visible_as_of :: "daily_request \<Rightarrow> market_bar list \<Rightarrow> strategy_bar list" where
  "visible_as_of q bars =
     filter (\<lambda>b. sb_date b \<le> dq_date q \<and> published q (sb_available_at b))
       (List.map_filter (\<lambda>b. map_option (daily_strategy_bar b) (mb_close b)) bars)"

definition in_pool :: "daily_request \<Rightarrow> strategy_bar \<Rightarrow> bool" where
  "in_pool q b \<longleftrightarrow> sb_date b = dq_date q \<and> sb_symbol b \<noteq> dq_benchmark q \<and>
     \<not> sb_suspended b \<and> \<not> sb_st b \<and> \<not> sb_delisted b \<and>
     (case sb_list_date b of None \<Rightarrow> True | Some l \<Rightarrow> l \<le> dq_date q)"

definition daily_pool :: "daily_request \<Rightarrow> strategy_bar list \<Rightarrow> string list" where
  "daily_pool q visible_bars = sorted_set (map sb_symbol (filter (in_pool q) visible_bars))"

definition daily_features :: "daily_request \<Rightarrow> strategy_bar list \<Rightarrow> (feature_snapshot list) res" where
  "daily_features q visible_bars =
     map_res (\<lambda>s. build_feature_snapshot visible_bars (filter (\<lambda>b. sb_symbol b = dq_benchmark q) visible_bars)
         s (dq_date q) (Some (dq_cutoff q)))
       (daily_pool q visible_bars)"

definition next_trade_date :: "daily_request \<Rightarrow> market_bar list \<Rightarrow> date option" where
  "next_trade_date q bars =
     map_option mb_date (List.find (\<lambda>b. mb_date b > dq_date q \<and> mb_symbol b = dq_benchmark q) bars)"

text \<open>One signal: its plan joins while the committed amount stays in the budget.\<close>

record plan_state =
  committed :: dec
  plans :: "daily_plan list"
  rejected :: "string list"

definition plan_step ::
    "cost_model \<Rightarrow> daily_request \<Rightarrow> feature_snapshot list \<Rightarrow> date \<Rightarrow> plan_state \<Rightarrow> entry_signal \<Rightarrow> plan_state res" where
  "plan_step costs q features execution_date st s =
     (case List.find (\<lambda>f. fs_symbol f = en_symbol s) features of
        None \<Rightarrow> Inl StopIteration
      | Some f \<Rightarrow>
          let reference = (case fs_close f of None \<Rightarrow> 0 | Some c \<Rightarrow> c) in
          andThen (calculate costs ''BUY'' 100 reference) (\<lambda>c.
            let estimated = dadd (dmul reference 100) (cost_total c) in
            if reference \<le> 0 \<or> dadd (committed st) estimated > dmul (dq_equity q) (dq_ratio q)
            then Inr (st\<lparr>rejected := rejected st @ [en_symbol s]\<rparr>)
            else Inr (st\<lparr>committed := dadd (committed st) estimated,
              plans := plans st @ [\<lparr>dp_symbol = en_symbol s, dp_signal_date = en_date s,
                dp_execution_date = execution_date, dp_side = ''BUY'', dp_quantity = 100,
                dp_low = reference, dp_high = reference, dp_cost = estimated, dp_score = en_score s,
                dp_rank = en_rank s, dp_industry = en_industry s, dp_risk = ''NORMAL''\<rparr>]\<rparr>)))"

definition make_plans ::
    "cost_model \<Rightarrow> daily_request \<Rightarrow> feature_snapshot list \<Rightarrow> date option \<Rightarrow> entry_signal list \<Rightarrow> plan_state res" where
  "make_plans costs q features next_date signals =
     (let start = \<lparr>committed = 0, plans = [], rejected = []\<rparr> in
      case next_date of
        None \<Rightarrow> Inr start
      | Some d \<Rightarrow> fold_res (plan_step costs q features d) start signals)"

definition feature_record_of :: "feature_snapshot \<Rightarrow> feature_record" where
  "feature_record_of f = \<lparr>fr_symbol = fs_symbol f, fr_date = fs_date f, fr_close = fs_close f,
     fr_return_5d = return_5d f, fr_return_20d = return_20d f, fr_amount_ratio = amount_ratio f,
     fr_buyable = reliably_buyable f\<rparr>"

definition daily_report_of ::
    "daily_request \<Rightarrow> string list \<Rightarrow> feature_snapshot list \<Rightarrow> entry_signal list \<Rightarrow> plan_state \<Rightarrow> daily_report" where
  "daily_report_of q pool features signals st =
     \<lparr>dr_quality = ''AVAILABLE'', dr_batch = dq_batch q, dr_data_version = dq_data_version q,
      dr_strategy_version = dq_strategy_version q, dr_pool = pool,
      dr_candidates = map feature_record_of features, dr_signals = signals,
      dr_status = (if signals \<noteq> [] then ''CANDIDATES_AVAILABLE'' else ''NO_CANDIDATES''),
      dr_why = (if signals \<noteq> [] then None
        else Some ''No securities passed the published strategy filters''),
      dr_plans = plans st, dr_rejected = rejected st, dr_equity = dq_equity q, dr_cash = dq_equity q,
      dr_risk = ''NORMAL'', dr_actual_input = False, dr_confirmation = (plans st \<noteq> []),
      dr_submission = False\<rparr>"

text \<open>\<open>execute\<close>, over the bars sorted by date and symbol.\<close>

definition daily_stages ::
    "(daily_report \<Rightarrow> string) \<Rightarrow> cost_model \<Rightarrow> daily_request \<Rightarrow> row \<Rightarrow> strategy_bar list \<Rightarrow> date option \<Rightarrow> nat
      \<Rightarrow> daily_result res" where
  "daily_stages digest costs q ps visible_bars next_date future =
     (let pool = daily_pool q visible_bars in
      andThen (daily_strategy_config ps) (\<lambda>cfg.
      andThen (daily_features q visible_bars) (\<lambda>features.
      andThen (strong_select_candidates cfg (Some (dq_cutoff q)) features) (\<lambda>signals.
      andThen (make_plans costs q features next_date signals) (\<lambda>st.
        let report = daily_report_of q pool features signals st in
        Inr \<lparr>day_status = ''SUCCEEDED'', day_data_version = dq_data_version q,
          day_strategy_version = dq_strategy_version q, day_date = dq_date q, day_future_rows = future,
          day_survivor = False, day_pool = pool, day_signals = map en_symbol signals,
          day_rejected = rejected st, day_plans = plans st,
          day_ledger = \<lparr>dl_cash = dq_equity q, dl_positions = []\<rparr>, day_report = report,
          day_hash = digest report,
          day_stages = [''data_quality'', ''historical_pool'', ''features'', ''signals'', ''risk'',
            ''t_plus_one_plan'', ''ledger'', ''daily_report'', ''export'']\<rparr>)))))"

definition daily_execute ::
    "(daily_report \<Rightarrow> string) \<Rightarrow> cost_model \<Rightarrow> daily_request \<Rightarrow> market_bar list \<Rightarrow> row \<Rightarrow> daily_result res" where
  "daily_execute digest costs request bars ps =
     (let q = request\<lparr>dq_cutoff := assume_utc (dq_cutoff request)\<rparr>; ordered = sort_key bar_order bars in
      if \<not> dq_available q
      then Inl (DataUnavailable (case dq_reason q of None \<Rightarrow> ''daily data is unavailable''
        | Some r \<Rightarrow> if r = [] then ''daily data is unavailable'' else r))
      else if survivor_bias q ordered
      then Inl (DataUnavailable ''historical input contains a security before its listing date'')
      else daily_stages digest costs q ps (visible_as_of q ordered) (next_trade_date q ordered)
             (future_rows q ordered))"

section \<open>What the stages read\<close>

definition known :: "daily_request \<Rightarrow> market_bar \<Rightarrow> bool" where
  "known q b \<longleftrightarrow> mb_date b \<le> dq_date q \<and> published q (mb_available_at b)"

lemma instant_assume_utc [simp]: "instant (assume_utc t) = instant t"
  by (simp add: assume_utc_def instant_def)

lemma published_assume [simp]:
  "published (q\<lparr>dq_cutoff := assume_utc (dq_cutoff q)\<rparr>) = published q"
  "published q (map_option assume_utc a) = published q a"
  by (auto simp: published_def available_iff fun_eq_iff)

lemma visible_as_of_known:
  "visible_as_of q bars = List.map_filter (\<lambda>b. map_option (daily_strategy_bar b) (mb_close b)) (filter (known q) bars)"
proof (induction bars)
  case (Cons b bars)
  have "sb_date (daily_strategy_bar b c) \<le> dq_date q \<and> published q (sb_available_at (daily_strategy_bar b c)) \<longleftrightarrow>
      known q b" for c
    by (simp add: daily_strategy_bar_def known_def)
  then show ?case using Cons by (auto simp: visible_as_of_def List.map_filter_simps split: option.splits)
qed (simp add: visible_as_of_def List.map_filter_simps)

lemma visible_as_of_in:
  assumes "x \<in> set (visible_as_of q bars)"
  shows "\<exists>b\<in>set bars. known q b \<and> mb_close b = Some (sb_close x) \<and> sb_symbol x = mb_symbol b \<and>
    sb_date x = mb_date b"
  using assms unfolding visible_as_of_known
  by (auto simp: List.map_filter_def daily_strategy_bar_def)

lemma survivor_bias_sort [simp]: "survivor_bias q (sort_key f bars) = survivor_bias q bars"
  by (simp add: survivor_bias_def)

text \<open>The stages with the two requests, before and after the cutoff is made aware, read the same bars.\<close>

lemma next_date_in:
  assumes "next_trade_date q bars = Some d"
  shows "dq_date q < d \<and> (\<exists>b\<in>set bars. mb_symbol b = dq_benchmark q \<and> mb_date b = d)"
  using assms by (auto simp: next_trade_date_def dest: find_Some_in)

section \<open>Plans\<close>

definition plan_for :: "entry_signal \<Rightarrow> feature_snapshot \<Rightarrow> date \<Rightarrow> daily_plan \<Rightarrow> bool" where
  "plan_for s f d p \<longleftrightarrow> dp_symbol p = en_symbol s \<and> dp_signal_date p = en_date s \<and> dp_execution_date p = d \<and>
     dp_side p = ''BUY'' \<and> dp_quantity p = 100 \<and> 0 < dp_low p \<and> fs_close f = Some (dp_low p) \<and>
     dp_high p = dp_low p"

lemma plan_step_cases:
  assumes "plan_step costs q features d st s = Inr st'"
  shows "(plans st' = plans st \<and> rejected st' = rejected st @ [en_symbol s] \<and> committed st' = committed st) \<or>
    (\<exists>p f. plans st' = plans st @ [p] \<and> rejected st' = rejected st \<and> committed st' = dadd (committed st) (dp_cost p) \<and>
      committed st' \<le> dmul (dq_equity q) (dq_ratio q) \<and> f \<in> set features \<and> fs_symbol f = en_symbol s \<and>
      plan_for s f d p)"
proof -
  obtain f where f: "List.find (\<lambda>f. fs_symbol f = en_symbol s) features = Some f"
    using assms by (auto simp: plan_step_def split: option.splits)
  then have fin: "f \<in> set features \<and> fs_symbol f = en_symbol s" by (rule find_Some_in)
  let ?r = "case fs_close f of None \<Rightarrow> 0 | Some c \<Rightarrow> c"
  obtain c where c: "calculate costs ''BUY'' 100 ?r = Inr c"
    using assms f by (auto simp: plan_step_def Let_def elim: andThen_InrE)
  let ?e = "dadd (dmul ?r 100) (cost_total c)"
  have st': "st' = (if ?r \<le> 0 \<or> dadd (committed st) ?e > dmul (dq_equity q) (dq_ratio q)
      then st\<lparr>rejected := rejected st @ [en_symbol s]\<rparr>
      else st\<lparr>committed := dadd (committed st) ?e,
        plans := plans st @ [\<lparr>dp_symbol = en_symbol s, dp_signal_date = en_date s,
          dp_execution_date = d, dp_side = ''BUY'', dp_quantity = 100,
          dp_low = ?r, dp_high = ?r, dp_cost = ?e, dp_score = en_score s,
          dp_rank = en_rank s, dp_industry = en_industry s, dp_risk = ''NORMAL''\<rparr>]\<rparr>)"
    using assms unfolding plan_step_def f option.case Let_def c andThen_simps
    by (cases "?r \<le> 0 \<or> dadd (committed st) ?e > dmul (dq_equity q) (dq_ratio q)")
      (simp_all only: if_True if_False sum.inject)
  show ?thesis
  proof (cases "?r \<le> 0 \<or> dadd (committed st) ?e > dmul (dq_equity q) (dq_ratio q)")
    case False
    then have pos: "0 < ?r" by simp
    then have "fs_close f = Some ?r" by (cases "fs_close f") auto
    with st' False pos fin show ?thesis
      by (intro disjI2 exI[of _ "last (plans st')"] exI[of _ f]) (simp add: plan_for_def)
  qed (use st' in simp)
qed

lemma make_plans_loop:
  assumes "fold_res (plan_step costs q features d) st ss = Inr st'"
  shows "\<exists>ps rs. plans st' = plans st @ ps \<and> rejected st' = rejected st @ rs \<and>
    set (map dp_symbol ps) \<union> set rs = en_symbol ` set ss \<and>
    (distinct (map en_symbol ss) \<longrightarrow> distinct (map dp_symbol ps) \<and> set (map dp_symbol ps) \<inter> set rs = {}) \<and>
    (\<forall>p\<in>set ps. \<exists>s\<in>set ss. \<exists>f\<in>set features. fs_symbol f = en_symbol s \<and> plan_for s f d p) \<and>
    committed st' = foldl dadd (committed st) (map dp_cost ps) \<and>
    (ps \<noteq> [] \<longrightarrow> committed st' \<le> dmul (dq_equity q) (dq_ratio q))"
  using assms
proof (induction ss arbitrary: st)
  case (Cons s ss)
  obtain st1 where s1: "plan_step costs q features d st s = Inr st1"
    and rest: "fold_res (plan_step costs q features d) st1 ss = Inr st'"
    using Cons.prems by (auto elim: andThen_InrE)
  obtain ps rs where ih: "plans st' = plans st1 @ ps" "rejected st' = rejected st1 @ rs"
    "set (map dp_symbol ps) \<union> set rs = en_symbol ` set ss"
    "distinct (map en_symbol ss) \<longrightarrow> distinct (map dp_symbol ps) \<and> set (map dp_symbol ps) \<inter> set rs = {}"
    "\<forall>p\<in>set ps. \<exists>s\<in>set ss. \<exists>f\<in>set features. fs_symbol f = en_symbol s \<and> plan_for s f d p"
    "committed st' = foldl dadd (committed st1) (map dp_cost ps)"
    "ps \<noteq> [] \<longrightarrow> committed st' \<le> dmul (dq_equity q) (dq_ratio q)"
    using Cons.IH[OF rest] by blast
  from plan_step_cases[OF s1] show ?case
  proof (elim disjE conjE exE)
    assume "plans st1 = plans st" "rejected st1 = rejected st @ [en_symbol s]" "committed st1 = committed st"
    with ih show ?thesis by (intro exI[of _ ps] exI[of _ "en_symbol s # rs"]) auto
  next
    fix p f
    assume a: "plans st1 = plans st @ [p]" "rejected st1 = rejected st"
      "committed st1 = dadd (committed st) (dp_cost p)" "committed st1 \<le> dmul (dq_equity q) (dq_ratio q)"
      "f \<in> set features" "fs_symbol f = en_symbol s" "plan_for s f d p"
    have sym: "dp_symbol p = en_symbol s" using a(7) by (simp add: plan_for_def)
    have "\<forall>p'\<in>set (p # ps). \<exists>s'\<in>set (s # ss). \<exists>f\<in>set features. fs_symbol f = en_symbol s' \<and> plan_for s' f d p'"
      using a(5-7) ih(5) by auto
    with ih a sym show ?thesis
      by (intro exI[of _ "p # ps"] exI[of _ rs]) (auto 0 3 simp del: ball_simps)
  qed
qed simp

lemma daily_features_symbols:
  assumes "daily_features q vis = Inr features"
  shows "map fs_symbol features = daily_pool q vis" "\<And>f. f \<in> set features \<Longrightarrow> fs_date f = dq_date q"
    "\<And>f x. f \<in> set features \<Longrightarrow> fs_close f = Some x \<Longrightarrow>
      \<exists>b\<in>set vis. sb_symbol b = fs_symbol f \<and> sb_date b = dq_date q \<and> sb_close b = x"
proof -
  let ?build = "\<lambda>s. build_feature_snapshot vis (filter (\<lambda>b. sb_symbol b = dq_benchmark q) vis) s (dq_date q) (Some (dq_cutoff q))"
  have all: "list_all2 (\<lambda>s f. ?build s = Inr f) (daily_pool q vis) features"
    using map_res_list_all2[OF assms[unfolded daily_features_def]] .
  have one: "?build s = Inr f \<Longrightarrow> fs_symbol f = s \<and> fs_date f = dq_date q" for s f
    using build_feature_basic by blast
  from all show "map fs_symbol features = daily_pool q vis"
    by (induction rule: list_all2_induct) (simp_all add: one)
  have ex: "\<exists>s\<in>set (daily_pool q vis). ?build s = Inr f" if "f \<in> set features" for f
    using map_res_in[OF assms[unfolded daily_features_def] that] .
  then show "fs_date f = dq_date q" if "f \<in> set features" for f using one that by blast
  show "\<exists>b\<in>set vis. sb_symbol b = fs_symbol f \<and> sb_date b = dq_date q \<and> sb_close b = x"
    if "f \<in> set features" "fs_close f = Some x" for f x
    using ex[OF that(1)] build_feature_close that(2) one by metis
qed

lemma length_daily_pool: "length (daily_pool q (visible_as_of q bars)) \<le> length bars"
proof -
  have "length (daily_pool q (visible_as_of q bars)) \<le> length (map sb_symbol (filter (in_pool q) (visible_as_of q bars)))"
    unfolding daily_pool_def sorted_set_def length_sort by (rule length_remdups_leq)
  also have "\<dots> \<le> length (visible_as_of q bars)" by simp
  also have "\<dots> \<le> length bars"
    unfolding visible_as_of_def using map_filter_length length_filter_le le_trans by blast
  finally show ?thesis .
qed

lemma daily_execute_Inr:
  assumes "daily_execute digest costs request bars ps = Inr r"
  shows "\<exists>cfg features signals st q ordered. q = request\<lparr>dq_cutoff := assume_utc (dq_cutoff request)\<rparr> \<and>
    ordered = sort_key bar_order bars \<and> daily_strategy_config ps = Inr cfg \<and>
    daily_features q (visible_as_of q ordered) = Inr features \<and>
    strong_select_candidates cfg (Some (dq_cutoff q)) features = Inr signals \<and>
    make_plans costs q features (next_trade_date q ordered) signals = Inr st \<and>
    day_pool r = daily_pool q (visible_as_of q ordered) \<and>
    day_signals r = map en_symbol signals \<and> day_plans r = plans st \<and> day_rejected r = rejected st"
proof -
  let ?q = "request\<lparr>dq_cutoff := assume_utc (dq_cutoff request)\<rparr>" and ?o = "sort_key bar_order bars"
  have "daily_stages digest costs ?q ps (visible_as_of ?q ?o) (next_trade_date ?q ?o) (future_rows ?q ?o) = Inr r"
    using assms by (simp only: daily_execute_def Let_def split: if_splits) simp_all
  then show ?thesis
    unfolding daily_stages_def Let_def
    by (elim andThen_InrE) (intro exI[of _ ?q] exI[of _ ?o] exI conjI, (rule refl | assumption | force)+)
qed

section \<open>Properties\<close>


text \<open>What a run that returns went through; \<open>q'\<close> is the request with its cutoff read as UTC.\<close>

lemma daily_run_stages:
  assumes "daily_execute digest costs q bars ps = Inr r" and "length bars \<le> 10 ^ 28"
  obtains cfg features signals st q' ordered where
    "q' = q\<lparr>dq_cutoff := assume_utc (dq_cutoff q)\<rparr>" "ordered = sort_key bar_order bars"
    "daily_strategy_config ps = Inr cfg" "daily_features q' (visible_as_of q' ordered) = Inr features"
    "make_plans costs q' features (next_trade_date q' ordered) signals = Inr st"
    "day_pool r = daily_pool q' (visible_as_of q' ordered)" "day_signals r = map en_symbol signals"
    "day_plans r = plans st" "day_rejected r = rejected st"
    "distinct (map en_symbol signals)" "int (length signals) \<le> max 0 (st_max_positions cfg)"
    "\<forall>s\<in>set signals. en_date s = dq_date q"
proof -
  obtain cfg features signals st q' ordered where
    q': "q' = q\<lparr>dq_cutoff := assume_utc (dq_cutoff q)\<rparr>" and o': "ordered = sort_key bar_order bars"
    and cfg: "daily_strategy_config ps = Inr cfg"
    and feats: "daily_features q' (visible_as_of q' ordered) = Inr features"
    and sig: "strong_select_candidates cfg (Some (dq_cutoff q')) features = Inr signals"
    and mk: "make_plans costs q' features (next_trade_date q' ordered) signals = Inr st"
    and r: "day_pool r = daily_pool q' (visible_as_of q' ordered)" "day_signals r = map en_symbol signals"
      "day_plans r = plans st" "day_rejected r = rejected st"
    using daily_execute_Inr[OF assms(1)] by blast
  note fs = daily_features_symbols[OF feats]
  have len: "length features \<le> 10 ^ 28"
    using arg_cong[OF fs(1), of length] length_daily_pool[of q' ordered] assms(2) o' by simp
  have "distinct (daily_pool q' (visible_as_of q' ordered))" by (simp add: daily_pool_def)
  then have "distinct (map en_symbol signals)"
    using strong_selection_distinct[OF len _ sig] fs(1) by simp
  moreover have "int (length signals) \<le> max 0 (st_max_positions cfg)"
    "\<forall>s\<in>set signals. \<exists>f\<in>set features. en_symbol s = fs_symbol f \<and> en_date s = fs_date f"
    using strong_selection[OF len, of cfg "Some (dq_cutoff q')"] sig by auto
  moreover have "\<forall>s\<in>set signals. en_date s = dq_date q" using calculation(3) fs(2) q' by fastforce
  ultimately show thesis using that[OF q' o' cfg feats mk r] by blast
qed

lemma planned_from_start:
  assumes "fold_res (plan_step costs q features d) \<lparr>committed = 0, plans = [], rejected = []\<rparr> signals = Inr st"
    and "distinct (map en_symbol signals)"
  shows "set (map dp_symbol (plans st)) \<union> set (rejected st) = en_symbol ` set signals"
    and "distinct (map dp_symbol (plans st))" and "set (map dp_symbol (plans st)) \<inter> set (rejected st) = {}"
    and "p \<in> set (plans st) \<Longrightarrow> \<exists>s\<in>set signals. \<exists>f\<in>set features. fs_symbol f = en_symbol s \<and> plan_for s f d p"
    and "plans st \<noteq> [] \<Longrightarrow> foldl dadd 0 (map dp_cost (plans st)) \<le> dmul (dq_equity q) (dq_ratio q)"
  using make_plans_loop[OF assms(1)] assms(2) by auto

lemma plan_traced:
  assumes "daily_features q (visible_as_of q ordered) = Inr features" and "f \<in> set features" and "fs_symbol f = en_symbol s"
    and "plan_for s f d p"
  shows "dp_symbol p \<in> set (daily_pool q (visible_as_of q ordered))"
    and "\<exists>b\<in>set ordered. mb_symbol b = dp_symbol p \<and> mb_date b = dq_date q \<and> mb_close b = Some (dp_low p) \<and>
      published q (mb_available_at b)"
proof -
  note fs = daily_features_symbols[OF assms(1)] and pf = assms(4)[unfolded plan_for_def]
  obtain v where v: "v \<in> set (visible_as_of q ordered)" "sb_symbol v = fs_symbol f" "sb_date v = dq_date q"
    "sb_close v = dp_low p" using fs(3)[OF assms(2)] pf by blast
  obtain b where b: "b \<in> set ordered" "known q b" "mb_close b = Some (dp_low p)" "mb_symbol b = fs_symbol f"
    "mb_date b = dq_date q" using visible_as_of_in[OF v(1)] v(2-4) by auto
  show "\<exists>b\<in>set ordered. mb_symbol b = dp_symbol p \<and> mb_date b = dq_date q \<and> mb_close b = Some (dp_low p) \<and>
      published q (mb_available_at b)"
    using b assms(3) pf by (intro bexI[of _ b]) (simp_all add: known_def)
  show "dp_symbol p \<in> set (daily_pool q (visible_as_of q ordered))"
    using assms(2,3) fs(1) pf by (metis image_eqI list.set_map)
qed


section \<open>Witnesses\<close>

definition day_bar :: "string \<Rightarrow> date \<Rightarrow> dec \<Rightarrow> market_bar" where
  "day_bar s d x = (sample_bar x x x)\<lparr>mb_symbol := s, mb_date := d,
     mb_available_at := Some \<lparr>wall = 50, utcoff = Some 0\<rparr>\<rparr>"

definition sample_daily :: daily_request where
  "sample_daily = \<lparr>dq_owner = ''u'', dq_batch = ''b'', dq_strategy = ''s'', dq_data_version = ''v1'',
     dq_strategy_version = ''s1'', dq_date = 5, dq_cutoff = \<lparr>wall = 60, utcoff = Some 0\<rparr>, dq_available = True,
     dq_reason = None, dq_benchmark = ''000300.SH'', dq_equity = 20000, dq_ratio = 7/10\<rparr>"

lemma sample_daily_simps:
  "dq_date sample_daily = 5" "dq_benchmark sample_daily = ''000300.SH''" "dq_available sample_daily"
  "dq_cutoff sample_daily = \<lparr>wall = 60, utcoff = Some 0\<rparr>"
  by (simp_all add: sample_daily_def)

definition sample_bars :: "market_bar list" where
  "sample_bars = [day_bar ''000300.SH'' 5 100, day_bar ''A'' 5 10, day_bar ''000300.SH'' 6 101]"

lemma sample_bars_sorted: "sort_key bar_order sample_bars = sample_bars"
  by (simp add: sample_bars_def bar_order_def day_bar_def sample_bar_def less_eq_prod_def)


lemma sample_visible:
  "visible_as_of sample_daily sample_bars =
     [daily_strategy_bar (day_bar ''000300.SH'' 5 100) 100, daily_strategy_bar (day_bar ''A'' 5 10) 10]"
  by (simp add: visible_as_of_known sample_bars_def known_def day_bar_def sample_daily_simps published_def
      available_iff instant_def sample_bar_def List.map_filter_simps)

lemma sample_run: "\<exists>r. daily_execute (\<lambda>r. ''h'') default_cost_model sample_daily sample_bars [] = Inr r \<and> day_pool r = [''A'']"
proof -
  have q: "sample_daily\<lparr>dq_cutoff := assume_utc (dq_cutoff sample_daily)\<rparr> = sample_daily"
    by (simp add: sample_daily_def assume_utc_def)
  have pool: "daily_pool sample_daily (visible_as_of sample_daily sample_bars) = [''A'']"
    by (simp add: sample_visible daily_pool_def in_pool_def sorted_set_def daily_strategy_bar_def day_bar_def
        sample_bar_def sample_daily_simps)
  obtain f where f: "daily_features sample_daily (visible_as_of sample_daily sample_bars) = Inr [f]"
    "return_5d f = None"
    unfolding daily_features_def pool
    by (simp add: sample_visible build_feature_snapshot_def stock_history_def market_history_def visible_def
        daily_strategy_bar_def day_bar_def sample_bar_def sample_daily_simps available_iff instant_def
        assume_utc_def bar_on_def find_last_def snapshot_from_def return_over_def ratio_of_def
        moving_average_def)
  then have "strong_select_candidates default_strong_config (Some (dq_cutoff sample_daily)) [f] = Inr []"
    by (simp add: strong_select_candidates_def strong_rank_candidates_def is_candidate_def strong_complete_def)
  moreover have "daily_strategy_config [] = Inr default_strong_config"
    by (simp add: daily_strategy_config_def int_param_def decimal_param_def default_strong_config_def)
  moreover have "make_plans default_cost_model sample_daily [f] nd [] = Inr \<lparr>committed = 0, plans = [], rejected = []\<rparr>" for nd
    by (simp add: make_plans_def Let_def split: option.splits)
  moreover have "\<not> survivor_bias sample_daily sample_bars"
    by (simp add: survivor_bias_def sample_bars_def day_bar_def sample_bar_def)
  moreover have "dq_available sample_daily" by (simp add: sample_daily_simps)
  ultimately show ?thesis
    unfolding daily_execute_def Let_def q sample_bars_sorted
    by (simp add: daily_stages_def f pool Let_def)
qed


end
