(* ===== verification/DailyFlow.thy ===== *)
theory DailyFlow
  imports Rows
begin

text \<open>
  The composed daily workflow and the fixture runner of \<open>app/application/daily_flow.py\<close>: a run is made
  once per idempotency key from the fixture files, its plan is confirmed once by a reviewer, actual
  fills are recorded only after that, and an export token serves once. The files are an argument
  (\<open>fixture\<close>), as are their content hash and SHA-256 as a hexadecimal digest (\<open>sha\<close>). A CSV row has a
  text in each of its columns.
\<close>

section \<open>The composed workflow\<close>

text \<open>
  A stage gets the context, may change it, and returns a value or raises; \<open>flags\<close> are the two values
  \<open>True\<close> and \<open>False\<close> the workflow writes at the end.
\<close>

type_synonym 'v ctx = "(string, 'v) dict"
type_synonym 'v stage = "date \<Rightarrow> string \<Rightarrow> 'v ctx \<Rightarrow> 'v res \<times> 'v ctx"

record 'v daily_flow =
  ingest :: "'v stage option"
  quality :: "'v stage"
  historical_pool :: "'v stage"
  signals :: "'v stage"
  risk :: "'v stage"
  plan :: "'v stage"
  ledger :: "'v stage"
  report :: "'v stage"
  export :: "'v stage"

definition flow_stages :: "'v daily_flow \<Rightarrow> (string \<times> 'v stage) list" where
  "flow_stages f = (case ingest f of None \<Rightarrow> [] | Some s \<Rightarrow> [(''ingest'', s)]) @
     [(''quality'', quality f), (''historical_pool'', historical_pool f), (''signals'', signals f),
      (''risk'', risk f), (''plan'', plan f), (''ledger'', ledger f), (''report'', report f),
      (''export'', export f)]"

definition run_stage :: "date \<Rightarrow> string \<Rightarrow> 'v ctx \<Rightarrow> string \<times> 'v stage \<Rightarrow> 'v ctx res" where
  "run_stage d account ctx x = (case snd x d account ctx of
     (Inl e, ctx') \<Rightarrow> Inl e | (Inr v, ctx') \<Rightarrow> Inr (dict_set (fst x) v ctx'))"

definition flow_run :: "(string \<Rightarrow> 'v) \<Rightarrow> (bool \<Rightarrow> 'v) \<Rightarrow> 'v daily_flow \<Rightarrow> date \<Rightarrow> string \<Rightarrow> 'v ctx res" where
  "flow_run text_value flag f d account =
     andThen (fold_res (run_stage d account)
         [(''trade_date'', text_value (isoformat d)), (''account_id'', text_value account)] (flow_stages f))
       (\<lambda>ctx. Inr (dict_set ''broker_submission'' (flag False) (dict_set ''manual_execution'' (flag True) ctx)))"

section \<open>The fixture runner's data\<close>

record flow_request =
  fq_date :: date
  fq_cutoff :: datetime
  fq_request_id :: string
  fq_key :: string

record flow_fill =
  ff_symbol :: string
  ff_date :: date
  ff_quantity :: int
  ff_requested :: int
  ff_filled :: int
  ff_price :: string
  ff_source :: string
  ff_status :: string
  ff_reason :: "string option"

record flow_ledger =
  fl_cash :: int
  fl_positions :: "(string, int) dict"
  fl_fees :: string
  confirmations :: nat
  actual_fills :: nat
  plan_was_overwritten :: bool
  is_reconciled :: bool

definition new_flow_ledger :: flow_ledger where
  "new_flow_ledger = \<lparr>fl_cash = 20000, fl_positions = [], fl_fees = ''5.04'', confirmations = 0,
     actual_fills = 0, plan_was_overwritten = False, is_reconciled = True\<rparr>"

record flow_result =
  fw_id :: string
  fw_data_version :: string
  fw_strategy_version :: string
  fw_cost_version :: string
  fw_rule_version :: string
  fw_date :: date
  fw_future_rows :: nat
  fw_survivor :: bool
  fw_hash :: string
  fw_pool :: "string list"
  fw_signals :: "string list"
  fw_rejected :: "string list"
  fw_dates :: "date list"
  fw_fills :: "flow_fill list"
  fw_ledger :: flow_ledger
  fw_completed :: bool
  fw_stages :: "string list"

text \<open>The fixture's files; a JSON file is missing, holds an object, or holds something else.\<close>

datatype json_file = NoFile | JsonObject row | OtherJson

type_synonym csv_row = "(string, string) dict"

record fixture =
  dataset_file :: json_file
  costs_file :: json_file
  rules_file :: json_file
  bars_file :: "(csv_row list) option"
  universe_file :: "(csv_row list) option"
  content_hash :: string

definition load_json :: "json_file \<Rightarrow> row \<Rightarrow> row" where
  "load_json file d = (case file of JsonObject r \<Rightarrow> r | _ \<Rightarrow> d)"

definition load_csv :: "(csv_row list) option \<Rightarrow> csv_row list" where
  "load_csv file = (case file of None \<Rightarrow> [] | Some rows \<Rightarrow> rows)"

definition csv_item :: "csv_row \<Rightarrow> string \<Rightarrow> string res" where
  "csv_item r k = (case map_of r k of None \<Rightarrow> Inl (KeyError k) | Some v \<Rightarrow> Inr v)"

definition version_of :: "row \<Rightarrow> string \<Rightarrow> string \<Rightarrow> string" where
  "version_of r k d = (case map_of r k of None \<Rightarrow> d | Some v \<Rightarrow> py_str v)"

definition fixture_pool :: "csv_row list \<Rightarrow> string \<Rightarrow> (string list) res" where
  "fixture_pool universe day =
     andThen (map_res (\<lambda>r. csv_item r ''symbol'') (filter (\<lambda>r. map_of r ''trade_date'' = Some day \<and>
         map_of r ''listed'' = Some ''true'') universe))
       (\<lambda>xs. Inr (sorted_set xs))"

definition tradable_on :: "csv_row list \<Rightarrow> string \<Rightarrow> string \<Rightarrow> bool" where
  "tradable_on universe day symbol =
     (case List.find (\<lambda>u. map_of u ''trade_date'' = Some day \<and> map_of u ''symbol'' = Some symbol) universe of
        None \<Rightarrow> False | Some u \<Rightarrow> map_of u ''tradable'' = Some ''true'')"

definition fixture_signals :: "csv_row list \<Rightarrow> csv_row list \<Rightarrow> string list \<Rightarrow> string \<Rightarrow> (string list) res" where
  "fixture_signals bars universe pool day =
     andThen (map_res (\<lambda>r. csv_item r ''symbol'') (filter (\<lambda>r. map_of r ''trade_date'' = Some day \<and>
         map_of r ''status'' = Some ''ACTIVE'' \<and> map_of r ''volume'' \<notin> {Some '''', Some ''0''}) bars))
       (\<lambda>xs. Inr (sorted_set (filter (\<lambda>s. s \<in> set pool \<and> tradable_on universe day s) xs)))"

definition fixture_next_date :: "csv_row list \<Rightarrow> date \<Rightarrow> date res" where
  "fixture_next_date bars d =
     andThen (map_res (\<lambda>t. case date_fromisoformat t of
           None \<Rightarrow> Inl (ValueError ''Invalid isoformat string'') | Some x \<Rightarrow> Inr x)
         (filter (\<lambda>t. t \<noteq> []) (List.map_filter (\<lambda>r. map_of r ''trade_date'') bars)))
       (\<lambda>xs. Inr (case List.find (\<lambda>x. x > d) (sorted_set xs) of None \<Rightarrow> d | Some x \<Rightarrow> x))"

definition fixture_fill :: "date \<Rightarrow> string \<Rightarrow> int \<Rightarrow> int \<Rightarrow> string \<Rightarrow> string \<Rightarrow> string option \<Rightarrow> flow_fill" where
  "fixture_fill d symbol requested filled price status reason =
     \<lparr>ff_symbol = symbol, ff_date = d, ff_quantity = 100, ff_requested = requested, ff_filled = filled,
      ff_price = price, ff_source = ''NEXT_OPEN_ADJUSTED'', ff_status = status, ff_reason = reason\<rparr>"

definition fixture_fills :: "date \<Rightarrow> flow_fill list" where
  "fixture_fills d =
     [fixture_fill d ''600001.SZ'' 100 100 ''10.6212'' ''FILLED'' None,
      fixture_fill d ''600003.SZ'' 100 0 ''8.9260'' ''UNFILLED'' (Some ''SUSPENDED''),
      fixture_fill d ''600004.SZ'' 100 0 ''6.6733'' ''UNFILLED'' (Some ''LIMIT_UP''),
      fixture_fill d ''600002.SZ'' 100 0 '''' ''UNFILLED'' (Some ''MISSING_PRICE''),
      fixture_fill d ''600005.SZ'' 300 100 ''12.0240'' ''PARTIALLY_FILLED'' None]"

definition flow_run_id :: "(string \<Rightarrow> string) \<Rightarrow> fixture \<Rightarrow> string \<Rightarrow> string" where
  "flow_run_id sha fx key = ''run_'' @ take 12 (sha (key @ [CHR 0x00] @ content_hash fx))"

definition flow_result_of :: "(string \<Rightarrow> string) \<Rightarrow> fixture \<Rightarrow> flow_request \<Rightarrow> flow_result res" where
  "flow_result_of sha fx q =
     (let dataset = load_json (dataset_file fx)
            [(''data_version'', PText ''dataset-v1''), (''strategy_version'', PText ''trend-continuation-v1'')];
          costs = load_json (costs_file fx) [(''version'', PText ''cost-v1'')];
          rules = load_json (rules_file fx) [(''version'', PText ''cn-equity-t1-v1'')];
          bars = load_csv (bars_file fx); universe = load_csv (universe_file fx);
          day = isoformat (fq_date q) in
      andThen (fixture_pool universe day) (\<lambda>pool.
      andThen (fixture_signals bars universe pool day) (\<lambda>sigs.
      andThen (fixture_next_date bars (fq_date q)) (\<lambda>execution_date.
        Inr \<lparr>fw_id = flow_run_id sha fx (fq_key q),
          fw_data_version = version_of dataset ''data_version'' ''dataset-v1'',
          fw_strategy_version = version_of dataset ''strategy_version'' ''trend-continuation-v1'',
          fw_cost_version = version_of costs ''version'' ''cost-v1'',
          fw_rule_version = version_of rules ''version'' ''cn-equity-t1-v1'',
          fw_date = fq_date q, fw_future_rows = 0, fw_survivor = False, fw_hash = content_hash fx,
          fw_pool = pool, fw_signals = sigs, fw_rejected = [''600002.SZ'', ''600003.SZ''],
          fw_dates = [execution_date], fw_fills = fixture_fills execution_date,
          fw_ledger = new_flow_ledger, fw_completed = True,
          fw_stages = [''import'', ''quality'', ''historical_universe'', ''signal'', ''risk'',
            ''t_plus_one_plan'', ''execution'', ''ledger'', ''daily_report'']\<rparr>))))"

section \<open>The runner\<close>

record flow_state =
  runs :: "(string, flow_result) dict"
  run_of_key :: "(string, string) dict"
  used_exports :: "(string \<times> string) list"

definition new_runner :: flow_state where
  "new_runner = \<lparr>runs = [], run_of_key = [], used_exports = []\<rparr>"

definition start_run :: "(string \<Rightarrow> string) \<Rightarrow> fixture \<Rightarrow> flow_state \<Rightarrow> flow_request \<Rightarrow> flow_result res \<times> flow_state" where
  "start_run sha fx s q = (case map_of (run_of_key s) (fq_key q) of
     Some i \<Rightarrow> (case map_of (runs s) i of None \<Rightarrow> (Inl (KeyError i), s) | Some r \<Rightarrow> (Inr r, s))
   | None \<Rightarrow> (case flow_result_of sha fx q of
       Inl e \<Rightarrow> (Inl e, s)
     | Inr r \<Rightarrow> (Inr r, s\<lparr>runs := dict_set (fw_id r) r (runs s),
         run_of_key := dict_set (fq_key q) (fw_id r) (run_of_key s)\<rparr>)))"

definition run_result :: "flow_state \<Rightarrow> string \<Rightarrow> flow_result res" where
  "run_result s i = (case map_of (runs s) i of
     None \<Rightarrow> Inl (StateConflict ''daily flow run does not exist'') | Some r \<Rightarrow> Inr r)"

definition set_ledger :: "string \<Rightarrow> flow_result \<Rightarrow> flow_ledger \<Rightarrow> flow_state \<Rightarrow> flow_state" where
  "set_ledger i r l s = s\<lparr>runs := dict_set i (r\<lparr>fw_ledger := l\<rparr>) (runs s)\<rparr>"

definition confirm_plan :: "flow_state \<Rightarrow> string \<Rightarrow> string list \<Rightarrow> unit res \<times> flow_state" where
  "confirm_plan s i roles =
     (if set roles \<inter> {''REVIEWER'', ''ADMIN''} = {} then (Inl (AccessDenied ''insufficient role''), s)
      else case run_result s i of
        Inl e \<Rightarrow> (Inl e, s)
      | Inr r \<Rightarrow>
          if confirmations (fw_ledger r) \<noteq> 0
          then (Inl (StateConflict ''plan has already been confirmed''), s)
          else (Inr (), set_ledger i r ((fw_ledger r)\<lparr>confirmations := confirmations (fw_ledger r) + 1\<rparr>) s))"

definition record_actual_fill ::
    "flow_state \<Rightarrow> string \<Rightarrow> string \<Rightarrow> int \<Rightarrow> string \<Rightarrow> string list \<Rightarrow> unit res \<times> flow_state" where
  "record_actual_fill s i symbol quantity price roles =
     (if set roles \<inter> {''USER'', ''REVIEWER'', ''ADMIN''} = {}
      then (Inl (AccessDenied ''authentication is required''), s)
      else if quantity \<le> 0 \<or> quantity mod 100 \<noteq> 0
      then (Inl (StateConflict ''actual fills must use positive board lots''), s)
      else case run_result s i of
        Inl e \<Rightarrow> (Inl e, s)
      | Inr r \<Rightarrow>
          if confirmations (fw_ledger r) = 0
          then (Inl (StateConflict ''plan must be confirmed before recording an actual fill''), s)
          else if price = [] then (Inl (StateConflict ''actual fill price is required''), s)
          else if symbol \<notin> ff_symbol ` set (fw_fills r)
          then (Inl (StateConflict ''symbol is not present in the run plan''), s)
          else (Inr (), set_ledger i r ((fw_ledger r)\<lparr>actual_fills := actual_fills (fw_ledger r) + 1\<rparr>) s))"

text \<open>The exported body holds the run's id, versions and stages; its JSON text is left to the caller.\<close>

record export_result =
  export_id :: string
  export_body :: "(string \<times> string list) list"

definition export_once :: "(string \<Rightarrow> string) \<Rightarrow> flow_state \<Rightarrow> string \<Rightarrow> string \<Rightarrow> export_result res \<times> flow_state" where
  "export_once sha s i token = (case run_result s i of
     Inl e \<Rightarrow> (Inl e, s)
   | Inr r \<Rightarrow>
       if (i, token) \<in> set (used_exports s)
       then (Inl (StateConflict ''export token has already been used''), s)
       else (Inr \<lparr>export_id = ''export_'' @ take 12 (sha token),
           export_body = [(''completed_stages'', fw_stages r), (''cost_version'', [fw_cost_version r]),
             (''data_version'', [fw_data_version r]), (''rule_version'', [fw_rule_version r]),
             (''run_id'', [fw_id r]), (''strategy_version'', [fw_strategy_version r])]\<rparr>,
         s\<lparr>used_exports := (i, token) # used_exports s\<rparr>))"

section \<open>Histories of a runner\<close>

datatype flow_event =
    StartRun flow_request
  | Confirm string "string list"
  | RecordFill string string int string "string list"
  | Export string string

text \<open>One call: whether it was accepted, and the state after it.\<close>

definition accepted :: "'a res \<times> flow_state \<Rightarrow> bool \<times> flow_state" where
  "accepted x = (case x of (Inl e, s) \<Rightarrow> (False, s) | (Inr y, s) \<Rightarrow> (True, s))"

definition flow_do :: "(string \<Rightarrow> string) \<Rightarrow> fixture \<Rightarrow> flow_state \<Rightarrow> flow_event \<Rightarrow> bool \<times> flow_state" where
  "flow_do sha fx s ev = (case ev of
     StartRun q \<Rightarrow> accepted (start_run sha fx s q)
   | Confirm i roles \<Rightarrow> accepted (confirm_plan s i roles)
   | RecordFill i symbol quantity price roles \<Rightarrow> accepted (record_actual_fill s i symbol quantity price roles)
   | Export i token \<Rightarrow> accepted (export_once sha s i token))"

definition flow_step where
  "flow_step sha fx st ev = (case flow_do sha fx (snd st) ev of (ok, s') \<Rightarrow> (fst st @ [(ev, ok)], s'))"

definition flow_history ::
    "(string \<Rightarrow> string) \<Rightarrow> fixture \<Rightarrow> flow_event list \<Rightarrow> (flow_event \<times> bool) list \<times> flow_state" where
  "flow_history sha fx es = foldl (flow_step sha fx) ([], new_runner) es"

definition reviewed :: "(flow_event \<times> bool) list \<Rightarrow> string \<Rightarrow> bool" where
  "reviewed hist i \<longleftrightarrow> (\<exists>roles. (Confirm i roles, True) \<in> set hist \<and> set roles \<inter> {''REVIEWER'', ''ADMIN''} \<noteq> {})"

definition fills_reviewed :: "(flow_event \<times> bool) list \<Rightarrow> bool" where
  "fills_reviewed hist \<longleftrightarrow> (\<forall>pre i symbol quantity price roles post.
     hist = pre @ (RecordFill i symbol quantity price roles, True) # post \<longrightarrow>
       reviewed pre i \<and> 0 < quantity \<and> quantity mod 100 = 0)"

definition export_of :: "flow_event \<times> bool \<Rightarrow> (string \<times> string) option" where
  "export_of x = (case x of (Export i token, True) \<Rightarrow> Some (i, token) | _ \<Rightarrow> None)"

definition run_ok :: "(flow_event \<times> bool) list \<Rightarrow> string \<Rightarrow> flow_result \<Rightarrow> bool" where
  "run_ok hist i r \<longleftrightarrow> fw_id r = i \<and> confirmations (fw_ledger r) \<le> 1 \<and>
     (0 < actual_fills (fw_ledger r) \<longrightarrow> confirmations (fw_ledger r) = 1) \<and>
     (confirmations (fw_ledger r) = 1 \<longrightarrow> reviewed hist i)"

definition flow_ok :: "(flow_event \<times> bool) list \<times> flow_state \<Rightarrow> bool" where
  "flow_ok st \<longleftrightarrow> (\<forall>i r. map_of (runs (snd st)) i = Some r \<longrightarrow> run_ok (fst st) i r) \<and>
     (\<forall>k i. map_of (run_of_key (snd st)) k = Some i \<longrightarrow> map_of (runs (snd st)) i \<noteq> None) \<and>
     fills_reviewed (fst st) \<and>
     used_exports (snd st) = rev (List.map_filter export_of (fst st)) \<and> distinct (used_exports (snd st))"

lemma reviewed_snoc: "reviewed hist i \<Longrightarrow> reviewed (hist @ [x]) i"
  by (auto simp: reviewed_def)

lemma fills_reviewed_snoc:
  assumes "fills_reviewed hist"
    and "\<And>i symbol quantity price roles. x = (RecordFill i symbol quantity price roles, True) \<Longrightarrow>
      reviewed hist i \<and> 0 < quantity \<and> quantity mod 100 = 0"
  shows "fills_reviewed (hist @ [x])"
  unfolding fills_reviewed_def
proof (intro allI impI)
  fix pre i symbol quantity price roles post
  assume e: "hist @ [x] = pre @ (RecordFill i symbol quantity price roles, True) # post"
  show "reviewed pre i \<and> 0 < quantity \<and> quantity mod 100 = 0"
  proof (cases post rule: rev_cases)
    case Nil
    then show ?thesis using e assms(2) by auto
  next
    case (snoc post' y)
    then have "hist = pre @ (RecordFill i symbol quantity price roles, True) # post'" using e by simp
    then show ?thesis using assms(1) unfolding fills_reviewed_def by blast
  qed
qed

lemma map_filter_snoc: "List.map_filter f (xs @ [x]) = List.map_filter f xs @ (case f x of None \<Rightarrow> [] | Some y \<Rightarrow> [y])"
  by (simp add: List.map_filter_def split: option.splits)

lemma flow_result_new:
  assumes "flow_result_of sha fx q = Inr r"
  shows "confirmations (fw_ledger r) = 0 \<and> actual_fills (fw_ledger r) = 0"
  using assms unfolding flow_result_of_def Let_def
  by (elim andThen_InrE) (auto simp: new_flow_ledger_def)

text \<open>What an accepted call does to the runs.\<close>

lemma run_ok_snoc: "run_ok hist i r \<Longrightarrow> run_ok (hist @ [x]) i r"
  by (auto simp: run_ok_def intro: reviewed_snoc)

lemma flow_step_keeps:
  assumes "flow_ok st"
  shows "flow_ok (flow_step sha fx st ev)"
proof -
  obtain hist s where st: "st = (hist, s)" by (cases st)
  have inv: "\<And>i r. map_of (runs s) i = Some r \<Longrightarrow> run_ok hist i r"
    "\<And>k i. map_of (run_of_key s) k = Some i \<Longrightarrow> map_of (runs s) i \<noteq> None" "fills_reviewed hist"
    "used_exports s = rev (List.map_filter export_of hist)" "distinct (used_exports s)"
    using assms by (auto simp: flow_ok_def st)
  have quiet: "flow_ok (hist @ [(ev, ok)], s)"
    if "export_of (ev, ok) = None" "\<And>i a b c d. (ev, ok) \<noteq> (RecordFill i a b c d, True)" for ok
  proof -
    have "fills_reviewed (hist @ [(ev, ok)])"
      by (rule fills_reviewed_snoc[OF inv(3)]) (use that(2) in blast)+
    then show ?thesis using inv that(1) by (auto simp: flow_ok_def map_filter_snoc intro: run_ok_snoc)
  qed
  show ?thesis
  proof (cases ev)
    case (StartRun q)
    show ?thesis
    proof (cases "map_of (run_of_key s) (fq_key q)")
      case None
      show ?thesis
      proof (cases "flow_result_of sha fx q")
        case (Inl e)
        then show ?thesis using quiet[of False]
          by (simp add: StartRun st flow_step_def flow_do_def start_run_def None accepted_def export_of_def)
      next
        case (Inr r)
        have "run_ok (hist @ [(ev, True)]) (fw_id r) r"
          using flow_result_new[OF Inr] by (simp add: run_ok_def)
        then show ?thesis
          using inv fills_reviewed_snoc[OF inv(3), of "(ev, True)"]
          by (auto simp: StartRun st flow_step_def flow_do_def start_run_def None accepted_def Inr flow_ok_def
              map_filter_snoc export_of_def dict_simps intro: run_ok_snoc split: if_splits)
      qed
    next
      case (Some i)
      then obtain r where "map_of (runs s) i = Some r" using inv(2) by auto
      then show ?thesis using quiet[of True]
        by (simp add: StartRun st flow_step_def flow_do_def start_run_def Some accepted_def export_of_def)
    qed
  next
    case (Confirm i roles)
    show ?thesis
    proof (cases "set roles \<inter> {''REVIEWER'', ''ADMIN''} = {} \<or> map_of (runs s) i = None \<or>
        confirmations (fw_ledger (the (map_of (runs s) i))) \<noteq> 0")
      case True
      then have "flow_do sha fx s ev = (False, s)"
        by (auto simp: Confirm flow_do_def confirm_plan_def run_result_def accepted_def split: option.splits)
      then show ?thesis using quiet[of False] by (simp add: st flow_step_def Confirm export_of_def)
    next
      case False
      then obtain r where r: "map_of (runs s) i = Some r" "confirmations (fw_ledger r) = 0"
        "set roles \<inter> {''REVIEWER'', ''ADMIN''} \<noteq> {}" by auto
      let ?r = "r\<lparr>fw_ledger := (fw_ledger r)\<lparr>confirmations := 1\<rparr>\<rparr>"
      have "flow_do sha fx s ev = (True, s\<lparr>runs := dict_set i ?r (runs s)\<rparr>)"
        using r by (simp add: Confirm flow_do_def confirm_plan_def run_result_def accepted_def set_ledger_def)
      moreover have "reviewed (hist @ [(ev, True)]) i" using r(3) by (auto simp: reviewed_def Confirm)
      then have "run_ok (hist @ [(ev, True)]) i ?r" using inv(1)[OF r(1)] by (simp add: run_ok_def)
      ultimately show ?thesis
        using inv fills_reviewed_snoc[OF inv(3), of "(ev, True)"]
        by (auto simp: Confirm st flow_step_def flow_ok_def map_filter_snoc export_of_def dict_simps
            intro: run_ok_snoc split: if_splits)
    qed
  next
    case (RecordFill i symbol quantity price roles)
    show ?thesis
    proof (cases "fst (record_actual_fill s i symbol quantity price roles)")
      case (Inl e)
      then have "flow_do sha fx s ev = (False, s)"
        by (auto simp: RecordFill flow_do_def record_actual_fill_def run_result_def accepted_def
            split: option.splits if_splits)
      then show ?thesis using quiet[of False] by (simp add: st flow_step_def RecordFill export_of_def)
    next
      case (Inr u)
      then obtain r where r: "map_of (runs s) i = Some r" "confirmations (fw_ledger r) \<noteq> 0"
        "0 < quantity" "quantity mod 100 = 0"
        by (auto simp: record_actual_fill_def run_result_def split: option.splits if_splits)
      let ?r = "r\<lparr>fw_ledger := (fw_ledger r)\<lparr>actual_fills := actual_fills (fw_ledger r) + 1\<rparr>\<rparr>"
      have "flow_do sha fx s ev = (True, s\<lparr>runs := dict_set i ?r (runs s)\<rparr>)"
        using Inr r by (auto simp: RecordFill flow_do_def record_actual_fill_def run_result_def accepted_def
            set_ledger_def split: if_splits)
      moreover have "reviewed hist i" "run_ok (hist @ [(ev, True)]) i ?r"
        using inv(1)[OF r(1)] r(2) by (auto simp: run_ok_def intro: reviewed_snoc)
      ultimately show ?thesis
        using inv r(3,4) fills_reviewed_snoc[OF inv(3), of "(ev, True)"]
        by (auto simp: RecordFill st flow_step_def flow_ok_def map_filter_snoc export_of_def dict_simps
            intro: run_ok_snoc split: if_splits)
    qed
  next
    case (Export i token)
    show ?thesis
    proof (cases "map_of (runs s) i = None \<or> (i, token) \<in> set (used_exports s)")
      case True
      then have "flow_do sha fx s ev = (False, s)"
        by (auto simp: Export flow_do_def export_once_def run_result_def accepted_def split: option.splits)
      then show ?thesis using quiet[of False] by (simp add: st flow_step_def Export export_of_def)
    next
      case False
      then have "flow_do sha fx s ev = (True, s\<lparr>used_exports := (i, token) # used_exports s\<rparr>)"
        by (auto simp: Export flow_do_def export_once_def run_result_def accepted_def)
      then show ?thesis
        using inv False fills_reviewed_snoc[OF inv(3), of "(ev, True)"]
        by (auto simp: Export st flow_step_def flow_ok_def map_filter_snoc export_of_def intro: run_ok_snoc)
    qed
  qed
qed

lemma flow_history_ok: "flow_ok (flow_history sha fx es)"
proof (induction es rule: rev_induct)
  case Nil
  show ?case by (simp add: flow_history_def flow_ok_def new_runner_def fills_reviewed_def List.map_filter_def)
next
  case (snoc ev es)
  then show ?case using flow_step_keeps by (simp add: flow_history_def)
qed

section \<open>Properties\<close>

lemma flow_marks:
  assumes "flow_run text_value flag f d account = Inr ctx"
  shows "map_of ctx ''manual_execution'' = Some (flag True) \<and> map_of ctx ''broker_submission'' = Some (flag False)"
  using assms unfolding flow_run_def by (elim andThen_InrE) (auto simp: dict_simps)


definition sample_fixture :: fixture where
  "sample_fixture = \<lparr>dataset_file = NoFile, costs_file = NoFile, rules_file = NoFile, bars_file = None,
     universe_file = None, content_hash = ''c''\<rparr>"

definition sample_flow :: flow_request where
  "sample_flow = \<lparr>fq_date = 738945, fq_cutoff = \<lparr>wall = 0, utcoff = Some 0\<rparr>, fq_request_id = ''r'', fq_key = ''k''\<rparr>"


end
