(* ===== verification/Importer.thy ===== *)
theory Importer
  imports Rows "HOL-Library.Multiset"
begin

text \<open>
  Import of an authorised local file: \<open>app/domain/data/importer.py\<close> with its checks and the content hash
  over canonical rows, and \<open>app/application/data_import_service.py\<close>. The file system with pandas'
  readers, JSON encoding, SHA-256 and the repository are arguments. A cell is a scalar.
\<close>

section \<open>Canonical values\<close>

text \<open>How many decimals a finite decimal number needs: the least power of ten its denominator divides.\<close>

fun scale_from :: "nat \<Rightarrow> nat \<Rightarrow> int \<Rightarrow> nat" where
  "scale_from 0 k den = k"
| "scale_from (Suc n) k den = (if 10 ^ k mod den = 0 then k else scale_from n (Suc k) den)"

definition decimals_of :: "dec \<Rightarrow> nat" where
  "decimals_of d = (let den = snd (quotient_of d) in scale_from (4 * ndigits (nat den)) 0 den)"

text \<open>\<open>format(Decimal(text).normalize(), 'f')\<close>\<close>

definition plain_number :: "bool \<Rightarrow> dec \<Rightarrow> string" where
  "plain_number neg d =
     (let v = drnd d; k = decimals_of v; ds = pad0 (Suc k) (int_str \<lfloor>\<bar>v\<bar> * 10 ^ k\<rfloor>); w = length ds - k
      in (if neg then ''-'' else []) @ take w ds @ (if k = 0 then [] else ''.'' @ drop w ds))"

definition plain_decimal :: "string \<Rightarrow> string" where
  "plain_decimal s =
     (let neg = fst (split_sign (strip s)) in
      case parse_decimal s of
        Some (Finite d) \<Rightarrow> plain_number neg d
      | Some (Infinite b) \<Rightarrow> (if b then ''-'' else []) @ ''Infinity''
      | _ \<Rightarrow> (if neg then ''-'' else []) @ ''NaN'')"

datatype cval = CNull | CText string

definition canonical_value :: "pyval \<Rightarrow> cval" where
  "canonical_value v = (case v of
     PNone \<Rightarrow> CNull
   | PDate d \<Rightarrow> CText (isoformat d)
   | PDatetime t \<Rightarrow> CText (datetime_text (CHR ''T'') t)
   | PDecimal s \<Rightarrow> CText (plain_decimal s)
   | PFloat s \<Rightarrow> CText (plain_decimal s)
   | PInt i \<Rightarrow> CText (int_str i)
   | PText s \<Rightarrow> CText (case date_fromisoformat s of None \<Rightarrow> s | Some d \<Rightarrow> isoformat d)
   | PBool b \<Rightarrow> CText (py_str (PBool b)))"

type_synonym canonical_row = "(string \<times> cval) list"

definition canonical_row_of :: "row \<Rightarrow> canonical_row" where
  "canonical_row_of r = sort_key fst (map (\<lambda>(k, v). (k, canonical_value v)) r)"

text \<open>The two calls of \<open>json.dumps\<close> and the digest.\<close>

record hashing =
  dump_row :: "canonical_row \<Rightarrow> string"
  dump_rows :: "canonical_row list \<Rightarrow> string"
  sha256_hex :: "string \<Rightarrow> string"

definition canonical_content_hash :: "hashing \<Rightarrow> row list \<Rightarrow> string" where
  "canonical_content_hash h rows =
     sha256_hex h (dump_rows h (sort_key (dump_row h) (map canonical_row_of rows)))"

section \<open>Reading a file\<close>

record file_system =
  expanduser :: "string \<Rightarrow> string"
  is_file :: "string \<Rightarrow> bool"
  read_csv :: "string \<Rightarrow> (row list) res"
  read_parquet :: "string \<Rightarrow> (row list) res"
  file_sha256 :: "string \<Rightarrow> string"

record imported_dataset =
  source_path :: string
  content_hash :: string
  file_hash :: string
  imported_rows :: "row list"
  dataset_type :: "string option"
  as_of_date :: "date option"
  available_at :: "datetime option"
  information_cutoff_at :: "datetime option"
  dataset_version :: "string option"

text \<open>\<open>Path.suffix\<close>: from the last dot of the last component, unless it is its first or last character.\<close>

definition path_suffix :: "string \<Rightarrow> string" where
  "path_suffix p =
     (let name = last (split_on (CHR ''/'') p); r = rev name; tail = takeWhile (\<lambda>c. c \<noteq> CHR ''.'') r
      in if CHR ''.'' \<in> set name \<and> tail \<noteq> [] \<and> length tail + 1 < length name
         then CHR ''.'' # rev tail else [])"

definition is_na :: "pyval \<Rightarrow> bool" where
  "is_na v = (case v of
     PNone \<Rightarrow> True | PFloat s \<Rightarrow> parse_decimal s = Some NotANumber
   | PDecimal s \<Rightarrow> parse_decimal s = Some NotANumber | _ \<Rightarrow> False)"

definition clean_record :: "row \<Rightarrow> row" where
  "clean_record r = map (\<lambda>(k, v). (k, if is_na v then PNone else v)) r"

definition import_file ::
    "file_system \<Rightarrow> hashing \<Rightarrow> string \<Rightarrow> string option \<Rightarrow> date option \<Rightarrow> datetime option \<Rightarrow> datetime option
      \<Rightarrow> string option \<Rightarrow> imported_dataset res" where
  "import_file fs h path kind as_of avail cutoff ver =
     (let p = expanduser fs path; suffix = lower (path_suffix p) in
      if \<not> is_file fs p then Inl FileNotFound
      else if suffix \<notin> {''.csv'', ''.parquet''}
      then Inl (ValueError ''only explicitly supplied .csv and .parquet files are accepted'')
      else if (case avail of None \<Rightarrow> False | Some a \<Rightarrow> is_naive a)
      then Inl (ValueError ''available_at must be timezone-aware'')
      else if (case cutoff of None \<Rightarrow> False | Some c \<Rightarrow> is_naive c)
      then Inl (ValueError ''information_cutoff_at must be timezone-aware'')
      else if (case (avail, cutoff) of (Some a, Some c) \<Rightarrow> \<not> dt_le (as_utc a) (as_utc c) | _ \<Rightarrow> False)
      then Inl (ValueError ''data is not available by information cutoff'')
      else andThen (if suffix = ''.csv'' then read_csv fs p else read_parquet fs p) (\<lambda>frame.
        let rows = map clean_record frame in
        Inr \<lparr>source_path = p, content_hash = canonical_content_hash h rows, file_hash = file_sha256 fs p,
          imported_rows = rows, dataset_type = kind, as_of_date = as_of, available_at = avail,
          information_cutoff_at = cutoff, dataset_version = ver\<rparr>))"

section \<open>The import service\<close>

record 's repository_ops =
  repo_import :: "'s \<Rightarrow> string \<Rightarrow> row \<Rightarrow> row list \<Rightarrow> row res \<times> 's"
  repo_find :: "'s \<Rightarrow> string \<Rightarrow> row \<Rightarrow> (row option) res"

text \<open>\<open>str(payload.get(key, ''))\<close>\<close>

definition payload_text :: "row \<Rightarrow> string \<Rightarrow> string" where
  "payload_text p k = (case map_of p k of None \<Rightarrow> [] | Some v \<Rightarrow> py_str v)"

definition import_payload :: "row \<Rightarrow> imported_dataset \<Rightarrow> row" where
  "import_payload payload d =
     dict_set ''version''
       (if truthy (row_get payload ''version'') then row_get payload ''version''
        else PText (''data-'' @ take 16 (content_hash d)))
       (dict_set ''file_hash'' (PText (file_hash d))
         (dict_set ''content_hash'' (PText (content_hash d)) payload))"

definition service_import ::
    "'s repository_ops \<Rightarrow> (string \<Rightarrow> imported_dataset res) \<Rightarrow> 's \<Rightarrow> string \<Rightarrow> row \<Rightarrow> bool \<Rightarrow> row res \<times> 's" where
  "service_import repo importer s owner payload reuse_existing =
     (if upper (payload_text payload ''data_type'') \<noteq> ''DAILY_BAR''
      then (Inl (ValueError ''only DAILY_BAR imports are supported''), s)
      else case importer (payload_text payload ''file_location'') of
        Inl e \<Rightarrow> (Inl e, s)
      | Inr d \<Rightarrow>
          (case repo_import repo s owner (import_payload payload d) (imported_rows d) of
             (Inr r, s') \<Rightarrow> (Inr r, s')
           | (Inl (StateConflict m), s') \<Rightarrow>
               if \<not> reuse_existing then (Inl (StateConflict m), s')
               else (case repo_find repo s' owner (import_payload payload d) of
                   Inl e \<Rightarrow> (Inl e, s')
                 | Inr None \<Rightarrow> (Inl (StateConflict m), s')
                 | Inr (Some existing) \<Rightarrow> (Inr (dict_set ''replayed'' (PBool True) existing), s'))
           | (Inl e, s') \<Rightarrow> (Inl e, s')))"

section \<open>The content hash\<close>

text \<open>Rows with the same columns and the same canonical value in each.\<close>

definition same_content :: "row \<Rightarrow> row \<Rightarrow> bool" where
  "same_content r r' \<longleftrightarrow> set (map (\<lambda>(k, v). (k, canonical_value v)) r) = set (map (\<lambda>(k, v). (k, canonical_value v)) r')"

lemma canonical_row_cong:
  assumes "dict_ok r" and "dict_ok r'" and "same_content r r'"
  shows "canonical_row_of r = canonical_row_of r'"
proof -
  let ?c = "\<lambda>r. map (\<lambda>(k, v). (k, canonical_value v)) (r :: row)"
  have f: "map fst (?c r) = map fst r" for r by (induction r) auto
  have d: "distinct (map fst (sort_key fst (?c r)))" if "dict_ok r" for r
  proof -
    have "distinct (map fst (?c r))" unfolding f using that .
    then show ?thesis unfolding distinct_map distinct_sort set_sort .
  qed
  have inj: "inj_on fst (set (sort_key fst (?c r)) \<union> set (sort_key fst (?c r')))"
  proof -
    have "set (sort_key fst (?c r)) \<union> set (sort_key fst (?c r')) = set (?c r)"
      using assms(3) by (simp only: set_sort same_content_def Un_absorb)
    moreover have "distinct (map fst (?c r))" unfolding f by (rule assms(1))
    ultimately show ?thesis by (simp only: distinct_map)
  qed
  show ?thesis
    unfolding canonical_row_of_def
    by (rule map_sorted_distinct_set_unique[OF inj])
      (use d[OF assms(1)] d[OF assms(2)] assms(3) in \<open>simp_all add: same_content_def\<close>)
qed

lemma parse_number_nonneg: "parse_number s = Some v \<Longrightarrow> 0 \<le> v"
  by (auto simp: parse_number_def Let_def split: if_splits)

lemma parse_sign:
  assumes "parse_decimal s = Some (Finite d)" and "d \<noteq> 0"
  shows "fst (split_sign (filter (\<lambda>c. c \<noteq> CHR ''_'') (lower (strip s)))) \<longleftrightarrow> d < 0"
proof -
  obtain neg t where st: "split_sign (filter (\<lambda>c. c \<noteq> CHR ''_'') (lower (strip s))) = (neg, t)" by fastforce
  then obtain v where v: "parse_number t = Some v" "d = (if neg then - v else v)"
    using assms(1) by (auto simp: parse_decimal_def split: if_splits)
  with parse_number_nonneg[OF v(1)] assms(2) st show ?thesis by auto
qed

section \<open>Properties\<close>


definition sample_hashing :: hashing where
  "sample_hashing = \<lparr>dump_row = (\<lambda>r. concat (map (\<lambda>(k, v). k @ (case v of CNull \<Rightarrow> [] | CText t \<Rightarrow> t)) r)),
     dump_rows = (\<lambda>rs. concat (map (\<lambda>r. concat (map fst r)) rs)), sha256_hex = (\<lambda>s. s)\<rparr>"

lemma sample_canonical:
  "canonical_value (PText ''x'') = CText ''x''" "canonical_value (PDecimal ''1.50'') = CText ''1.5''"
  "canonical_value (PFloat ''1.5'') = CText ''1.5''" "canonical_value PNone = CNull"
  by code_simp+


text \<open>Which files an import accepts.\<close>

lemma import_accepts_iff:
  "(\<exists>d. import_file fs h path kind as_of avail cutoff ver = Inr d) \<longleftrightarrow>
     is_file fs (expanduser fs path) \<and>
     (\<exists>rows. (lower (path_suffix (expanduser fs path)) = ''.csv'' \<and> read_csv fs (expanduser fs path) = Inr rows) \<or>
       (lower (path_suffix (expanduser fs path)) = ''.parquet'' \<and> read_parquet fs (expanduser fs path) = Inr rows)) \<and>
     (\<forall>a. avail = Some a \<longrightarrow> \<not> is_naive a) \<and> (\<forall>c. cutoff = Some c \<longrightarrow> \<not> is_naive c) \<and>
     (\<forall>a c. avail = Some a \<and> cutoff = Some c \<longrightarrow> instant a \<le> instant c)"
  by (cases avail; cases cutoff)
    (auto simp: import_file_def Let_def andThen_Inr_iff dt_le_def)

text \<open>
  A conflict of the repository is answered with the stored batch, marked as replayed, exactly when
  reuse was asked for and the batch is found.
\<close>

lemma service_import_conflict:
  assumes "upper (payload_text payload ''data_type'') = ''DAILY_BAR''"
    and "importer (payload_text payload ''file_location'') = Inr d"
    and "repo_import repo s owner (import_payload payload d) (imported_rows d) = (Inl (StateConflict m), s')"
  shows "(\<exists>r. fst (service_import repo importer s owner payload reuse) = Inr r) \<longleftrightarrow>
      reuse \<and> (\<exists>b. repo_find repo s' owner (import_payload payload d) = Inr (Some b))"
    and "fst (service_import repo importer s owner payload reuse) = Inr r \<Longrightarrow> map_of r ''replayed'' = Some (PBool True)"
  using assms
  by (auto simp: service_import_def dict_simps split: sum.splits option.splits if_splits)

end
