(* ===== verification/DurableAccounts.thy ===== *)
theory DurableAccounts
  imports Security Idempotency
begin

text \<open>
  The account directory and the audit writer of \<open>app/infrastructure/repositories/runtime.py\<close> over their
  tables \<open>user_account\<close>, \<open>role\<close>, \<open>user_role\<close> and \<open>audit_event\<close>. Each operation is one transaction;
  fresh ids, the clock and JSON encoding are arguments. A constraint that is violated is an
  \<open>IntegrityError\<close>.
\<close>

section \<open>The account directory\<close>

record user_row =
  ua_id :: uuid
  ua_name :: string
  ua_hash :: string
  ua_status :: string
  ua_created :: datetime

record role_row =
  rl_id :: uuid
  rl_code :: string
  rl_name :: string

record account_tables =
  users :: "user_row list"
  role_table :: "role_row list"
  user_roles :: "(uuid \<times> uuid) list"

definition role_named :: "string \<Rightarrow> role option" where
  "role_named s = List.find (\<lambda>r. role_name r = s) [USER, REVIEWER, ADMIN]"

definition role_codes :: "account_tables \<Rightarrow> uuid \<Rightarrow> string list" where
  "role_codes d u = map rl_code (filter (\<lambda>r. (u, rl_id r) \<in> set (user_roles d)) (role_table d))"

definition find_user :: "account_tables \<Rightarrow> string \<Rightarrow> user_row option" where
  "find_user d name = List.find (\<lambda>u. ua_name u = name) (users d)"

definition user_by_id :: "account_tables \<Rightarrow> uuid \<Rightarrow> user_row option" where
  "user_by_id d u = List.find (\<lambda>x. ua_id x = u) (users d)"

text \<open>An unknown role code makes the account unavailable.\<close>

definition directory_get :: "account_tables \<Rightarrow> string \<Rightarrow> account option" where
  "directory_get d name = (case find_user d name of
     None \<Rightarrow> None
   | Some u \<Rightarrow>
       let codes = role_codes d (ua_id u) in
       if list_all (\<lambda>c. role_named c \<noteq> None) codes
       then Some \<lparr>account_id = ua_id u, username = ua_name u, password_hash = ua_hash u,
         roles = List.map_filter role_named codes, enabled = (ua_status u = ''ACTIVE'')\<rparr>
       else None)"

text \<open>The row of a role, added under a fresh id when the table has none.\<close>

definition ensure_role ::
    "(role \<Rightarrow> uuid) \<Rightarrow> role_row list \<times> uuid list \<Rightarrow> role \<Rightarrow> (role_row list \<times> uuid list) res" where
  "ensure_role fresh st r = (case st of (table, ids) \<Rightarrow>
     case List.find (\<lambda>x. rl_code x = role_name r) table of
       Some x \<Rightarrow> Inr (table, ids @ [rl_id x])
     | None \<Rightarrow>
         if \<exists>x\<in>set table. rl_id x = fresh r then Inl (DatabaseError ''IntegrityError'')
         else Inr (table @ [\<lparr>rl_id = fresh r, rl_code = role_name r, rl_name = role_name r\<rparr>], ids @ [fresh r]))"

definition directory_bootstrap ::
    "account_tables \<Rightarrow> string \<Rightarrow> string \<Rightarrow> role list \<Rightarrow> uuid \<Rightarrow> (role \<Rightarrow> uuid) \<Rightarrow> datetime
      \<Rightarrow> bool res \<times> account_tables" where
  "directory_bootstrap d name pw_hash rs u fresh now =
     (if find_user d name \<noteq> None then (Inr False, d)
      else case fold_res (ensure_role fresh) (role_table d, []) rs of
        Inl e \<Rightarrow> (Inl e, d)
      | Inr (table, ids) \<Rightarrow>
          if user_by_id d u \<noteq> None then (Inl (DatabaseError ''IntegrityError''), d)
          else (Inr True, \<lparr>users = users d @ [\<lparr>ua_id = u, ua_name = name, ua_hash = pw_hash,
              ua_status = ''ACTIVE'', ua_created = now\<rparr>], role_table = table,
            user_roles = user_roles d @ map (\<lambda>i. (u, i)) ids\<rparr>))"

definition directory_set_enabled :: "account_tables \<Rightarrow> uuid \<Rightarrow> bool \<Rightarrow> unit res \<times> account_tables" where
  "directory_set_enabled d u b = (case user_by_id d u of
     None \<Rightarrow> (Inl (ValueError ''account not found''), d)
   | Some x \<Rightarrow> (Inr (), d\<lparr>users := map (\<lambda>y. if ua_id y = u
       then y\<lparr>ua_status := (if b then ''ACTIVE'' else ''DISABLED'')\<rparr> else y) (users d)\<rparr>))"

definition directory_set_roles :: "account_tables \<Rightarrow> uuid \<Rightarrow> role list \<Rightarrow> unit res \<times> account_tables" where
  "directory_set_roles d u rs = (case user_by_id d u of
     None \<Rightarrow> (Inl (ValueError ''account not found''), d)
   | Some x \<Rightarrow> (Inr (), d\<lparr>user_roles := filter (\<lambda>p. fst p \<noteq> u) (user_roles d) @
       map (\<lambda>r. (u, rl_id r)) (filter (\<lambda>r. rl_code r \<in> role_name ` set rs) (role_table d))\<rparr>))"

definition durable_directory :: "account_tables directory_ops" where
  "durable_directory = \<lparr>dir_get = directory_get, dir_set_enabled = directory_set_enabled,
     dir_set_roles = directory_set_roles\<rparr>"

section \<open>The audit writer\<close>

record audit_row =
  ar_id :: uuid
  ar_time :: datetime
  ar_actor :: "uuid option"
  ar_role :: "string option"
  ar_action :: string
  ar_type :: string
  ar_object :: string
  ar_before :: "string option"
  ar_after :: "string option"
  ar_request :: string
  ar_result :: string

text \<open>The JSON encoding of a summary, and decoding: \<open>None\<close> when the text is no JSON object.\<close>

record json =
  json_dumps :: "row \<Rightarrow> string"
  json_object :: "string \<Rightarrow> row option"

definition audit_write ::
    "json \<Rightarrow> account_tables \<Rightarrow> audit_row list \<Rightarrow> audit_event \<Rightarrow> uuid \<Rightarrow> audit_row list" where
  "audit_write js d t e i = t @ [\<lparr>ar_id = i, ar_time = occurred_at e,
     ar_actor = (case audit_actor e of
       None \<Rightarrow> None | Some a \<Rightarrow> if user_by_id d a \<noteq> None then Some a else None),
     ar_role = (case actor_roles e of [] \<Rightarrow> None | r # rs \<Rightarrow> Some r),
     ar_action = action e, ar_type = object_type e,
     ar_object = (case object_id e of None \<Rightarrow> [] | Some x \<Rightarrow> x),
     ar_before = map_option (json_dumps js) (before_summary e),
     ar_after = map_option (json_dumps js) (after_summary e),
     ar_request = request_id e, ar_result = audit_result e\<rparr>]"

definition audit_count :: "audit_row list \<Rightarrow> nat" where
  "audit_count t = length t"

definition audit_summary :: "json \<Rightarrow> string option \<Rightarrow> row" where
  "audit_summary js v = (case v of
     None \<Rightarrow> [] | Some s \<Rightarrow> if s = [] then [] else (case json_object js s of None \<Rightarrow> [] | Some r \<Rightarrow> r))"

text \<open>\<open>ORDER BY occurred_at DESC, id DESC\<close>, with the fields of a page's entries.\<close>

record audit_item =
  ai_time :: string
  ai_actor :: "string option"
  ai_roles :: "string list"
  ai_action :: string
  ai_type :: string
  ai_object :: string
  ai_request :: string
  ai_result :: string
  ai_task_key :: pyval
  ai_job_id :: pyval

definition audit_item_of :: "json \<Rightarrow> audit_row \<Rightarrow> audit_item" where
  "audit_item_of js x =
     (let job = row_get (audit_summary js (ar_after x)) ''job_id'' in
      \<lparr>ai_time = datetime_text (CHR ''T'') (ar_time x), ai_actor = ar_actor x,
       ai_roles = (case ar_role x of None \<Rightarrow> [] | Some r \<Rightarrow> if r = [] then [] else [r]),
       ai_action = ar_action x, ai_type = ar_type x, ai_object = ar_object x, ai_request = ar_request x,
       ai_result = ar_result x, ai_task_key = row_get (audit_summary js (ar_after x)) ''task_key'',
       ai_job_id = (if truthy job then job else PText (ar_object x))\<rparr>)"

definition audit_stamp :: "audit_row \<Rightarrow> int \<times> uuid" where
  "audit_stamp x = (instant (ar_time x), ar_id x)"

definition audit_page :: "json \<Rightarrow> audit_row list \<Rightarrow> int \<Rightarrow> int \<Rightarrow> (audit_item list \<times> nat) res" where
  "audit_page js t page page_size =
     (let start = (page - 1) * page_size in
      if start < 0 \<or> page_size < 0 then Inl (DatabaseError ''DataError'')
      else Inr (map (audit_item_of js)
          (take (nat page_size) (drop (nat start) (rev (sort_key audit_stamp t)))), length t))"

section \<open>The directory as a map of accounts\<close>

type_synonym account_view = "uuid \<times> string \<times> role set \<times> bool"

text \<open>What the authenticator gets to see of a user name.\<close>

definition accounts_of :: "account_tables \<Rightarrow> string \<Rightarrow> account_view option" where
  "accounts_of d name = map_option (\<lambda>a. (account_id a, password_hash a, set (roles a), enabled a)) (directory_get d name)"

definition granted :: "account_tables \<Rightarrow> uuid \<Rightarrow> role set" where
  "granted d u = {r. \<exists>x\<in>set (role_table d). rl_code x = role_name r \<and> (u, rl_id x) \<in> set (user_roles d)}"

definition known_roles :: "account_tables \<Rightarrow> role set" where
  "known_roles d = {r. role_name r \<in> rl_code ` set (role_table d)}"

text \<open>The constraints of the tables, and only role codes of the program.\<close>

definition roles_ok :: "role_row list \<Rightarrow> bool" where
  "roles_ok t \<longleftrightarrow> distinct (map rl_id t) \<and> distinct (map rl_code t) \<and> (\<forall>x\<in>set t. role_named (rl_code x) \<noteq> None)"

definition tables_ok :: "account_tables \<Rightarrow> bool" where
  "tables_ok d \<longleftrightarrow> distinct (map ua_id (users d)) \<and> distinct (map ua_name (users d)) \<and> roles_ok (role_table d) \<and>
     (\<forall>(u, i)\<in>set (user_roles d). u \<in> ua_id ` set (users d) \<and> i \<in> rl_id ` set (role_table d))"

lemma role_name_inj: "role_name r = role_name s \<longleftrightarrow> r = s"
  by (cases r; cases s) (simp_all add: role_name_def)

lemma role_named_iff: "role_named c = Some r \<longleftrightarrow> role_name r = c"
  by (cases r) (auto simp: role_named_def role_name_def)

lemma find_key:
  assumes "distinct (map f xs)" and "x \<in> set xs"
  shows "List.find (\<lambda>y. f y = f x) xs = Some x"
  using assms by (induction xs) auto

lemma find_key_None: "List.find (\<lambda>y. f y = k) xs = None \<longleftrightarrow> k \<notin> f ` set xs"
  by (auto simp: find_None_iff)

lemma accounts_of_row:
  assumes "roles_ok (role_table d)"
  shows "accounts_of d name =
    map_option (\<lambda>u. (ua_id u, ua_hash u, granted d (ua_id u), ua_status u = ''ACTIVE'')) (find_user d name)"
proof -
  have ok: "list_all (\<lambda>c. role_named c \<noteq> None) (role_codes d u)" for u
    using assms by (auto simp: list_all_iff role_codes_def roles_ok_def)
  have "set (List.map_filter role_named (role_codes d u)) = granted d u" for u
    by (auto simp: List.map_filter_def role_codes_def granted_def role_named_iff image_iff)
      (metis (mono_tags) option.sel role_named_iff option.distinct(1))+
  then show ?thesis using ok
    by (cases "find_user d name") (simp_all add: accounts_of_def directory_get_def Let_def)
qed

lemma ensure_roles:
  assumes "roles_ok t" and "\<forall>x\<in>set t. \<forall>r. rl_id x = fresh r \<longrightarrow> rl_code x = role_name r" and "inj fresh"
  shows "\<exists>t' ids'. fold_res (ensure_role fresh) (t, ids) rs = Inr (t', ids @ ids') \<and> roles_ok t' \<and>
    set t \<subseteq> set t' \<and> (\<forall>x\<in>set t' - set t. rl_id x \<in> range fresh \<and> rl_code x \<notin> rl_code ` set t) \<and>
    set ids' = rl_id ` {x\<in>set t'. rl_code x \<in> role_name ` set rs} \<and> role_name ` set rs \<subseteq> rl_code ` set t'"
  using assms
proof (induction rs arbitrary: t ids)
  case (Cons r rs)
  show ?case
  proof (cases "List.find (\<lambda>x. rl_code x = role_name r) t")
    case (Some x)
    then have x: "x \<in> set t" "rl_code x = role_name r" using find_Some_in[OF Some] by auto
    obtain t' ids' where ih: "fold_res (ensure_role fresh) (t, ids @ [rl_id x]) rs = Inr (t', (ids @ [rl_id x]) @ ids')"
      "roles_ok t'" "set t \<subseteq> set t'"
      "\<forall>x\<in>set t' - set t. rl_id x \<in> range fresh \<and> rl_code x \<notin> rl_code ` set t"
      "set ids' = rl_id ` {x\<in>set t'. rl_code x \<in> role_name ` set rs}" "role_name ` set rs \<subseteq> rl_code ` set t'"
      using Cons.IH[OF Cons.prems, of "ids @ [rl_id x]"] by auto
    have one: "y = x" if "y \<in> set t'" "rl_code y = role_name r" for y
      using that x ih(2,3) unfolding roles_ok_def distinct_map by (metis inj_onD subsetD)
    have "set (rl_id x # ids') = rl_id ` {x\<in>set t'. rl_code x \<in> role_name ` set (r # rs)}"
      using one x ih(3,5) by auto
    moreover have "role_name ` set (r # rs) \<subseteq> rl_code ` set t'" using x ih(3,6) by (auto simp: image_iff) (metis subsetD)
    moreover have "fold_res (ensure_role fresh) (t, ids) (r # rs) = Inr (t', ids @ (rl_id x # ids'))"
      using ih(1) by (simp add: ensure_role_def Some)
    ultimately show ?thesis using ih(2-4) by blast
  next
    case None
    then have new: "role_name r \<notin> rl_code ` set t" by (simp add: find_key_None)
    have clash: "\<not> (\<exists>x\<in>set t. rl_id x = fresh r)" using Cons.prems(2) new by force
    let ?x = "\<lparr>rl_id = fresh r, rl_code = role_name r, rl_name = role_name r\<rparr>"
    have t1: "roles_ok (t @ [?x])"
      using Cons.prems(1) clash new role_named_iff[of "role_name r" r] by (auto simp: roles_ok_def)
    have t2: "\<forall>y\<in>set (t @ [?x]). \<forall>q. rl_id y = fresh q \<longrightarrow> rl_code y = role_name q"
      using Cons.prems(2,3) by (auto dest: injD)
    obtain t' ids' where ih: "fold_res (ensure_role fresh) (t @ [?x], ids @ [fresh r]) rs = Inr (t', (ids @ [fresh r]) @ ids')"
      "roles_ok t'" "set (t @ [?x]) \<subseteq> set t'"
      "\<forall>x\<in>set t' - set (t @ [?x]). rl_id x \<in> range fresh \<and> rl_code x \<notin> rl_code ` set (t @ [?x])"
      "set ids' = rl_id ` {x\<in>set t'. rl_code x \<in> role_name ` set rs}" "role_name ` set rs \<subseteq> rl_code ` set t'"
      using Cons.IH[OF t1 t2 Cons.prems(3), of "ids @ [fresh r]"] by auto
    have x: "?x \<in> set t'" using ih(3) by simp
    have one: "y = ?x" if "y \<in> set t'" "rl_code y = role_name r" for y
      using that x ih(2) unfolding roles_ok_def distinct_map by (metis inj_onD role_row.select_convs(2))
    have "set (fresh r # ids') = rl_id ` {x\<in>set t'. rl_code x \<in> role_name ` set (r # rs)}"
    proof -
      have "{y\<in>set t'. rl_code y \<in> role_name ` set (r # rs)} = insert ?x {y\<in>set t'. rl_code y \<in> role_name ` set rs}"
        (is "?L = ?R")
      proof (rule set_eqI, rule iffI)
        show "y \<in> ?R" if "y \<in> ?L" for y using one[of y] that by (cases "rl_code y = role_name r") auto
        show "y \<in> ?L" if "y \<in> ?R" for y using x that by (cases "y = ?x") auto
      qed
      then show ?thesis using ih(5) by simp
    qed
    moreover have "role_name ` set (r # rs) \<subseteq> rl_code ` set t'" using x ih(6) by (auto simp: image_iff intro: bexI[of _ ?x])
    moreover have "fold_res (ensure_role fresh) (t, ids) (r # rs) = Inr (t', ids @ (fresh r # ids'))"
      using ih(1) clash by (simp add: ensure_role_def None)
    moreover have "\<forall>y\<in>set t' - set t. rl_id y \<in> range fresh \<and> rl_code y \<notin> rl_code ` set t"
      using ih(4) new by auto
    moreover have "set t \<subseteq> set t'" using ih(3) by simp
    ultimately show ?thesis using ih(2) by blast
  qed
qed auto

text \<open>The same operations on a map of accounts.\<close>

definition with_account ::
    "string \<Rightarrow> account_view \<Rightarrow> (string \<Rightarrow> account_view option) \<Rightarrow> string \<Rightarrow> account_view option" where
  "with_account name v m = (if m name = None then m(name \<mapsto> v) else m)"

definition with_enabled ::
    "uuid \<Rightarrow> bool \<Rightarrow> (string \<Rightarrow> account_view option) \<Rightarrow> string \<Rightarrow> account_view option" where
  "with_enabled u b m = (\<lambda>name. map_option (\<lambda>(i, h, rs, e). (i, h, rs, if i = u then b else e)) (m name))"

definition with_roles ::
    "uuid \<Rightarrow> role set \<Rightarrow> (string \<Rightarrow> account_view option) \<Rightarrow> string \<Rightarrow> account_view option" where
  "with_roles u rs m = (\<lambda>name. map_option (\<lambda>(i, h, old, e). (i, h, if i = u then rs else old, e)) (m name))"

lemma find_user_row:
  "find_user d name = Some x \<Longrightarrow> x \<in> set (users d) \<and> ua_name x = name"
  by (auto simp: find_user_def find_Some_iff)

lemma user_by_id_row: "tables_ok d \<Longrightarrow> x \<in> set (users d) \<Longrightarrow> user_by_id d (ua_id x) = Some x"
  by (simp add: user_by_id_def tables_ok_def find_key)

lemma granted_one:
  assumes "roles_ok t" and "x \<in> set t"
  shows "rl_id x \<in> rl_id ` {y\<in>set t. P y} \<longleftrightarrow> P x"
  using assms unfolding roles_ok_def distinct_map by (auto dest: inj_onD)

lemma accounts_of_enabled:
  assumes "tables_ok d"
  shows "accounts_of (snd (directory_set_enabled d u b)) = with_enabled u b (accounts_of d)"
proof (rule ext)
  fix name
  let ?f = "\<lambda>y. if ua_id y = u then y\<lparr>ua_status := (if b then ''ACTIVE'' else ''DISABLED'')\<rparr> else y"
  have ok: "roles_ok (role_table d)" using assms by (simp add: tables_ok_def)
  have find: "List.find (\<lambda>x. ua_name x = name) (map ?f us) = map_option ?f (List.find (\<lambda>x. ua_name x = name) us)" for us
    by (induction us) simp_all
  show "accounts_of (snd (directory_set_enabled d u b)) name = with_enabled u b (accounts_of d) name"
  proof (cases "user_by_id d u")
    case None
    have "ua_id x \<noteq> u" if "find_user d name = Some x" for x
      using user_by_id_row[OF assms] find_user_row[OF that] None by auto
    then show ?thesis using None
      by (cases "find_user d name") (auto simp: directory_set_enabled_def with_enabled_def accounts_of_row ok)
  next
    case (Some x)
    let ?d = "d\<lparr>users := map ?f (users d)\<rparr>"
    have d: "snd (directory_set_enabled d u b) = ?d" by (simp add: directory_set_enabled_def Some)
    have "granted ?d v = granted d v" for v by (simp add: granted_def)
    moreover have "find_user ?d name = map_option ?f (find_user d name)" by (simp add: find_user_def find)
    ultimately show ?thesis unfolding d
      by (cases "find_user d name") (simp_all add: with_enabled_def accounts_of_row ok)
  qed
qed

lemma accounts_of_regranted:
  assumes "tables_ok d"
  shows "accounts_of (snd (directory_set_roles d u rs)) = with_roles u (set rs \<inter> known_roles d) (accounts_of d)"
proof (rule ext)
  fix name
  have ok: "roles_ok (role_table d)" using assms by (simp add: tables_ok_def)
  show "accounts_of (snd (directory_set_roles d u rs)) name = with_roles u (set rs \<inter> known_roles d) (accounts_of d) name"
  proof (cases "user_by_id d u")
    case None
    have "ua_id x \<noteq> u" if "find_user d name = Some x" for x
      using user_by_id_row[OF assms] find_user_row[OF that] None by auto
    then show ?thesis using None
      by (cases "find_user d name") (auto simp: directory_set_roles_def with_roles_def accounts_of_row ok)
  next
    case (Some x)
    let ?new = "map (\<lambda>r. (u, rl_id r)) (filter (\<lambda>r. rl_code r \<in> role_name ` set rs) (role_table d))"
    let ?d = "d\<lparr>user_roles := filter (\<lambda>p. fst p \<noteq> u) (user_roles d) @ ?new\<rparr>"
    have d: "snd (directory_set_roles d u rs) = ?d" by (simp add: directory_set_roles_def Some)
    have other: "granted ?d v = granted d v" if "v \<noteq> u" for v using that by (auto simp: granted_def)
    have new: "(u, rl_id y) \<in> set (user_roles ?d) \<longleftrightarrow> rl_code y \<in> role_name ` set rs" if "y \<in> set (role_table d)" for y
      using granted_one[OF ok that, of "\<lambda>r. rl_code r \<in> role_name ` set rs"] by (auto simp: image_iff)
    have "granted ?d u = {r. \<exists>y\<in>set (role_table d). rl_code y = role_name r \<and> rl_code y \<in> role_name ` set rs}"
      using new by (auto simp: granted_def)
    then have own: "granted ?d u = set rs \<inter> known_roles d"
      by (auto simp: known_roles_def role_name_inj image_iff) (metis role_name_inj)+
    have "find_user ?d name = find_user d name" by (simp add: find_user_def)
    then show ?thesis unfolding d using other own
      by (cases "find_user d name") (simp_all add: with_roles_def accounts_of_row ok)
  qed
qed

lemma tables_ok_users:
  assumes "tables_ok d" and "map ua_id us = map ua_id (users d)" and "map ua_name us = map ua_name (users d)"
  shows "tables_ok (d\<lparr>users := us\<rparr>)"
proof -
  have "ua_id ` set us = ua_id ` set (users d)" using assms(2) by (metis list.set_map)
  then show ?thesis using assms by (simp add: tables_ok_def)
qed

lemma tables_ok_enabled:
  assumes "tables_ok d"
  shows "tables_ok (snd (directory_set_enabled d u b))"
proof (cases "user_by_id d u")
  case (Some x)
  let ?f = "\<lambda>y. if ua_id y = u then y\<lparr>ua_status := (if b then ''ACTIVE'' else ''DISABLED'')\<rparr> else y"
  have "map ua_id (map ?f us) = map ua_id us" "map ua_name (map ?f us) = map ua_name us" for us by simp_all
  then have "tables_ok (d\<lparr>users := map ?f (users d)\<rparr>)" using tables_ok_users[OF assms] by blast
  then show ?thesis unfolding directory_set_enabled_def Some by simp
qed (simp add: directory_set_enabled_def assms)

lemma tables_ok_regranted: "tables_ok d \<Longrightarrow> tables_ok (snd (directory_set_roles d u rs))"
  by (auto simp: directory_set_roles_def tables_ok_def user_by_id_def find_Some_iff split: option.split)

definition unused_ids :: "account_tables \<Rightarrow> uuid \<Rightarrow> (role \<Rightarrow> uuid) \<Rightarrow> bool" where
  "unused_ids d u fresh \<longleftrightarrow> u \<notin> ua_id ` set (users d) \<and> (\<forall>r. fresh r \<notin> rl_id ` set (role_table d)) \<and> inj fresh"

lemma bootstrap_new:
  assumes "tables_ok d" and "unused_ids d u fresh" and "find_user d name = None"
  obtains t' ids' where
    "directory_bootstrap d name h rs u fresh now = (Inr True, \<lparr>users = users d @ [\<lparr>ua_id = u, ua_name = name,
      ua_hash = h, ua_status = ''ACTIVE'', ua_created = now\<rparr>], role_table = t',
      user_roles = user_roles d @ map (\<lambda>i. (u, i)) ids'\<rparr>)"
    and "roles_ok t'" and "set (role_table d) \<subseteq> set t'" and "\<forall>x\<in>set t' - set (role_table d). rl_id x \<in> range fresh"
    and "set ids' = rl_id ` {x\<in>set t'. rl_code x \<in> role_name ` set rs}" and "role_name ` set rs \<subseteq> rl_code ` set t'"
proof -
  have ok: "roles_ok (role_table d)" using assms(1) by (simp add: tables_ok_def)
  have free: "\<forall>x\<in>set (role_table d). \<forall>r. rl_id x = fresh r \<longrightarrow> rl_code x = role_name r"
    using assms(2) unfolding unused_ids_def by (metis imageI)
  have inj: "inj fresh" using assms(2) by (simp add: unused_ids_def)
  have none: "user_by_id d u = None" using assms(2) by (auto simp: user_by_id_def find_None_iff unused_ids_def)
  from ensure_roles[OF ok free inj, of "[]" rs] show thesis
  proof (elim exE conjE)
    fix t' ids'
    assume run: "fold_res (ensure_role fresh) (role_table d, []) rs = Inr (t', [] @ ids')"
      and t: "roles_ok t'" "set (role_table d) \<subseteq> set t'"
      and new: "\<forall>x\<in>set t' - set (role_table d). rl_id x \<in> range fresh \<and> rl_code x \<notin> rl_code ` set (role_table d)"
      and ids: "set ids' = rl_id ` {x\<in>set t'. rl_code x \<in> role_name ` set rs}" "role_name ` set rs \<subseteq> rl_code ` set t'"
    show thesis
    proof (rule that[OF _ t _ ids])
      show "directory_bootstrap d name h rs u fresh now = (Inr True, \<lparr>users = users d @ [\<lparr>ua_id = u, ua_name = name,
        ua_hash = h, ua_status = ''ACTIVE'', ua_created = now\<rparr>], role_table = t',
        user_roles = user_roles d @ map (\<lambda>i. (u, i)) ids'\<rparr>)"
        using run none assms(3) by (simp add: directory_bootstrap_def)
      show "\<forall>x\<in>set t' - set (role_table d). rl_id x \<in> range fresh" using new by blast
    qed
  qed
qed

lemma find_snoc: "List.find P (xs @ [x]) = (case List.find P xs of None \<Rightarrow> if P x then Some x else None | Some y \<Rightarrow> Some y)"
  by (induction xs) auto

lemma bootstrap_refines:
  fixes name h :: string and rs :: "role list" and now :: datetime
  assumes "tables_ok d" and "unused_ids d u fresh"
  defines "d' \<equiv> snd (directory_bootstrap d name h rs u fresh now)"
  shows "tables_ok d' \<and> accounts_of d' = with_account name (u, h, set rs, True) (accounts_of d)"
proof (cases "find_user d name")
  case (Some x)
  have "accounts_of d name \<noteq> None" using Some assms(1) by (simp add: accounts_of_row tables_ok_def)
  then show ?thesis using assms(1) by (auto simp: d'_def directory_bootstrap_def Some with_account_def)
next
  case None
  let ?x = "\<lparr>ua_id = u, ua_name = name, ua_hash = h, ua_status = ''ACTIVE'', ua_created = now\<rparr>"
  obtain t' ids' where
    run: "directory_bootstrap d name h rs u fresh now = (Inr True, \<lparr>users = users d @ [?x], role_table = t',
      user_roles = user_roles d @ map (\<lambda>i. (u, i)) ids'\<rparr>)"
    and t: "roles_ok t'" "set (role_table d) \<subseteq> set t'" "\<forall>x\<in>set t' - set (role_table d). rl_id x \<in> range fresh"
    and ids: "set ids' = rl_id ` {x\<in>set t'. rl_code x \<in> role_name ` set rs}" "role_name ` set rs \<subseteq> rl_code ` set t'"
    by (rule bootstrap_new[OF assms(1,2) None])
  have d: "d' = \<lparr>users = users d @ [?x], role_table = t', user_roles = user_roles d @ map (\<lambda>i. (u, i)) ids'\<rparr>"
    by (simp add: d'_def run)
  have name: "name \<notin> ua_name ` set (users d)" using None by (simp add: find_user_def find_key_None)
  have links: "v \<in> ua_id ` set (users d) \<and> i \<in> rl_id ` set (role_table d)" if "(v, i) \<in> set (user_roles d)" for v i
    using assms(1) that by (auto simp: tables_ok_def)
  have u: "(u, i) \<notin> set (user_roles d)" for i using links assms(2) by (auto simp: unused_ids_def)
  have "i \<in> rl_id ` set t'" if "(v, i) \<in> set (user_roles d')" for v i
    using that links[of v i] image_mono[OF t(2), of rl_id] ids(1) by (auto simp: d)
  moreover have "v \<in> ua_id ` set (users d')" if "(v, i) \<in> set (user_roles d')" for v i
    using that links by (auto simp: d)
  ultimately have "tables_ok d'"
    using assms(1,2) name t(1) by (auto simp: tables_ok_def unused_ids_def d)
  moreover have own: "granted d' u = set rs"
  proof -
    have link: "(u, rl_id y) \<in> set (user_roles d') \<longleftrightarrow> rl_code y \<in> role_name ` set rs" if "y \<in> set t'" for y
      using u granted_one[OF t(1) that, of "\<lambda>x. rl_code x \<in> role_name ` set rs"] ids(1) by (simp add: d image_iff)
    have "granted d' u = {r. \<exists>y\<in>set t'. rl_code y = role_name r \<and> rl_code y \<in> role_name ` set rs}"
      using link unfolding granted_def by (auto simp: d)
    also have "\<dots> = set rs"
    proof (rule set_eqI, rule iffI)
      show "r \<in> set rs" if "r \<in> {r. \<exists>y\<in>set t'. rl_code y = role_name r \<and> rl_code y \<in> role_name ` set rs}" for r
        using that by (auto simp: role_name_inj)
      fix r
      assume r: "r \<in> set rs"
      then obtain y where "y \<in> set t'" "rl_code y = role_name r" using subsetD[OF ids(2) imageI[OF r]] by fastforce
      then show "r \<in> {r. \<exists>y\<in>set t'. rl_code y = role_name r \<and> rl_code y \<in> role_name ` set rs}" using r by auto
    qed
    finally show ?thesis .
  qed
  moreover have other: "granted d' v = granted d v" if "v \<in> ua_id ` set (users d)" for v
  proof -
    have "v \<noteq> u" using that assms(2) by (auto simp: unused_ids_def)
    have "x \<in> set (role_table d)" if "x \<in> set t'" "(v, rl_id x) \<in> set (user_roles d)" for x
      using links[OF that(2)] that(1) t(3) assms(2) unfolding unused_ids_def by (metis DiffI rangeE)
    then show ?thesis using t(2) \<open>v \<noteq> u\<close> by (auto simp: granted_def d)
  qed
  moreover have "accounts_of d' n = with_account name (u, h, set rs, True) (accounts_of d) n" for n
  proof -
    have ok: "roles_ok (role_table d)" "roles_ok (role_table d')" using assms(1) t(1) by (simp_all add: tables_ok_def d)
    have f: "find_user d' n = (if n = name then Some \<lparr>ua_id = u, ua_name = name, ua_hash = h, ua_status = ''ACTIVE'', ua_created = now\<rparr> else find_user d n)"
      using None by (auto simp: find_user_def d find_snoc split: option.split)
    show ?thesis
      using f own other find_user_row[of d n] None
      by (cases "n = name"; cases "find_user d n") (auto simp: with_account_def accounts_of_row[OF ok(1)] accounts_of_row[OF ok(2)])
  qed
  ultimately show ?thesis by auto
qed

text \<open>
  C31: over tables that keep their constraints, the account directory is a map from user names to accounts:
  bootstrapping adds the account of a free name and leaves a taken one alone, enabling and granting roles
  change the account of that user only (a role is granted if it has a row), and the constraints stay.
\<close>

theorem directory_refines_accounts:
  assumes "tables_ok d" and "unused_ids d u fresh"
  shows "(let a = accounts_of d; created = snd (directory_bootstrap d name h rs u fresh now);
      toggled = snd (directory_set_enabled d v b); regranted = snd (directory_set_roles d v rs') in
    tables_ok created \<and> accounts_of created = with_account name (u, h, set rs, True) a \<and>
    tables_ok toggled \<and> accounts_of toggled = with_enabled v b a \<and>
    tables_ok regranted \<and> accounts_of regranted = with_roles v (set rs' \<inter> known_roles d) a)"
  using bootstrap_refines[OF assms] accounts_of_enabled[OF assms(1)] tables_ok_enabled[OF assms(1)]
    accounts_of_regranted[OF assms(1)] tables_ok_regranted[OF assms(1)] by (simp only: Let_def simp_thms)

definition sample_directory :: account_tables where
  "sample_directory = \<lparr>users = [\<lparr>ua_id = ''u1'', ua_name = ''root'', ua_hash = ''h1'', ua_status = ''ACTIVE'',
      ua_created = \<lparr>wall = 0, utcoff = Some 0\<rparr>\<rparr>], role_table = [\<lparr>rl_id = ''r1'', rl_code = ''ADMIN'', rl_name = ''ADMIN''\<rparr>],
     user_roles = [(''u1'', ''r1'')]\<rparr>"

lemma sample_directory_ok: "tables_ok sample_directory" "unused_ids sample_directory ''u2'' (\<lambda>r. ''new-'' @ role_name r)"
  by (simp_all add: sample_directory_def tables_ok_def roles_ok_def unused_ids_def role_named_def role_name_def inj_def split: role.splits)

theorem directory_refines_accounts_witness:
  "accounts_of (snd (directory_bootstrap sample_directory ''ann'' ''h2'' [USER, ADMIN] ''u2''
      (\<lambda>r. ''new-'' @ role_name r) \<lparr>wall = 5, utcoff = Some 0\<rparr>)) ''ann'' = Some (''u2'', ''h2'', {USER, ADMIN}, True)"
proof -
  have "accounts_of sample_directory ''ann'' = None"
    by (simp add: accounts_of_def directory_get_def find_user_def sample_directory_def)
  then show ?thesis
    using directory_refines_accounts[OF sample_directory_ok, of "''ann''" "''h2''" "[USER, ADMIN]" "\<lparr>wall = 5, utcoff = Some 0\<rparr>" "''u1''" True "[]"]
    by (simp add: Let_def with_account_def)
qed

text \<open>The audit trail only grows, and its count is the number of writes.\<close>

lemma audit_trail_grows:
  "fold (\<lambda>(e, i) t. audit_write js d t e i) es t = t @ fold (\<lambda>(e, i) t. audit_write js d t e i) es []"
proof (induction es rule: rev_induct)
  case (snoc x es)
  then show ?case by (cases x) (simp add: audit_write_def)
qed simp

lemma audit_count_writes:
  "audit_count (fold (\<lambda>(e, i) t. audit_write js d t e i) es t) = audit_count t + length es"
  by (induction es arbitrary: t) (auto simp: audit_count_def audit_write_def)

end
