(* ===== verification/OrderPlans.thy ===== *)
theory OrderPlans
  imports Decimal28 IsoDates Uuids
begin

text \<open>
  Reviewing order plans and recording manual fills: \<open>confirm_plan\<close> and \<open>create_execution\<close> of
  \<open>app/infrastructure/repositories/research.py\<close> over the tables they read and write. An operation is
  one transaction, so that an exception leaves the tables as they were. The ids it draws, the clock and
  what a column gives back for a stored value (\<open>columns\<close>) are arguments; money in a payload is the
  finite decimal the schema \<open>MoneyString\<close> admits. Among snapshots of one date the first one stored is
  taken as the latest.
\<close>

section \<open>The contract of a plan desk\<close>

text \<open>
  What a review and a fill may do to the status of a plan: only a pending plan is decided, only a
  confirmed or partly filled one is filled, and no other plan moves.
\<close>

datatype ('c, 'x) desk_event = Review 'c | Fill 'x

text \<open>A history pairs every request with whether it took effect.\<close>

definition desk_step ::
    "('t \<Rightarrow> 'c \<Rightarrow> bool \<times> 't) \<Rightarrow> ('t \<Rightarrow> 'x \<Rightarrow> bool \<times> 't) \<Rightarrow> (('c, 'x) desk_event \<times> bool) list \<times> 't
      \<Rightarrow> ('c, 'x) desk_event \<Rightarrow> (('c, 'x) desk_event \<times> bool) list \<times> 't" where
  "desk_step review fill st ev = (case ev of
     Review c \<Rightarrow> (case review (snd st) c of (ok, t') \<Rightarrow> (fst st @ [(ev, ok)], t'))
   | Fill x \<Rightarrow> (case fill (snd st) x of (ok, t') \<Rightarrow> (fst st @ [(ev, ok)], t')))"

definition desk_run ::
    "('t \<Rightarrow> 'c \<Rightarrow> bool \<times> 't) \<Rightarrow> ('t \<Rightarrow> 'x \<Rightarrow> bool \<times> 't) \<Rightarrow> 't \<Rightarrow> ('c, 'x) desk_event list
      \<Rightarrow> (('c, 'x) desk_event \<times> bool) list \<times> 't" where
  "desk_run review fill t es = foldl (desk_step review fill) ([], t) es"

definition confirmed_in ::
    "('c \<Rightarrow> 'k) \<Rightarrow> ('c \<Rightarrow> bool) \<Rightarrow> (('c, 'x) desk_event \<times> bool) list \<Rightarrow> 'k \<Rightarrow> bool" where
  "confirmed_in reviewed confirming hist k \<longleftrightarrow>
     (\<exists>c. (Review c, True) \<in> set hist \<and> reviewed c = k \<and> confirming c)"

lemma desk_run_snoc: "desk_run review fill t (es @ [ev]) = desk_step review fill (desk_run review fill t es) ev"
  by (simp add: desk_run_def)

locale plan_desk =
  fixes review :: "'t \<Rightarrow> 'c \<Rightarrow> bool \<times> 't" and fill :: "'t \<Rightarrow> 'x \<Rightarrow> bool \<times> 't"
    and status :: "'t \<Rightarrow> 'k \<Rightarrow> string option"
    and reviewed :: "'c \<Rightarrow> 'k" and confirming :: "'c \<Rightarrow> bool" and filled :: "'x \<Rightarrow> 'k"
  assumes review_moves: "review t c = (ok, t') \<Longrightarrow> status t' k = status t k \<or>
      ok \<and> k = reviewed c \<and> status t k = Some ''PENDING_CONFIRMATION'' \<and>
      status t' k = Some (if confirming c then ''CONFIRMED'' else ''SKIPPED'')"
    and fill_moves: "fill t x = (ok, t') \<Longrightarrow> status t' k = status t k \<or>
      ok \<and> k = filled x \<and> status t' k \<in> {Some ''FILLED'', Some ''PARTIALLY_FILLED''}"
    and fill_needs: "fill t x = (True, t') \<Longrightarrow> status t (filled x) \<in> {Some ''CONFIRMED'', Some ''PARTIALLY_FILLED''}"
begin

lemma open_plans_confirmed:
  assumes "\<And>k. status t k \<notin> {Some ''CONFIRMED'', Some ''PARTIALLY_FILLED'', Some ''FILLED''}"
    and "desk_run review fill t es = (hist, t')"
    and "status t' k \<in> {Some ''CONFIRMED'', Some ''PARTIALLY_FILLED'', Some ''FILLED''}"
  shows "confirmed_in reviewed confirming hist k"
  using assms(2,3)
proof (induction es arbitrary: hist t' k rule: rev_induct)
  case Nil
  then show ?case using assms(1)[of k] by (simp add: desk_run_def)
next
  case (snoc ev es)
  obtain hist1 t1 where run: "desk_run review fill t es = (hist1, t1)" by fastforce
  note IH = snoc.IH[OF run]
  have keep: "confirmed_in reviewed confirming hist1 j \<Longrightarrow> hist1 @ [a] = hist \<Longrightarrow> confirmed_in reviewed confirming hist j" for j a
    by (auto simp: confirmed_in_def)
  show ?case
  proof (cases ev)
    case (Review c)
    obtain ok where step: "review t1 c = (ok, t')" "hist = hist1 @ [(ev, ok)]"
      using snoc.prems(1) by (auto simp: desk_run_snoc run desk_step_def Review split: prod.splits)
    from review_moves[OF step(1), of k] show ?thesis
    proof (elim disjE conjE)
      assume "status t' k = status t1 k"
      then show ?thesis using IH[of k] snoc.prems(2) keep step(2) by simp
    next
      assume "ok" "k = reviewed c" "status t' k = Some (if confirming c then ''CONFIRMED'' else ''SKIPPED'')"
      then show ?thesis using snoc.prems(2) step(2) Review by (auto simp: confirmed_in_def split: if_splits)
    qed
  next
    case (Fill x)
    obtain ok where step: "fill t1 x = (ok, t')" "hist = hist1 @ [(ev, ok)]"
      using snoc.prems(1) by (auto simp: desk_run_snoc run desk_step_def Fill split: prod.splits)
    from fill_moves[OF step(1), of k] show ?thesis
    proof (elim disjE conjE)
      assume "status t' k = status t1 k"
      then show ?thesis using IH[of k] snoc.prems(2) keep step(2) by simp
    next
      assume "ok" "k = filled x"
      then have "status t1 k \<in> {Some ''CONFIRMED'', Some ''PARTIALLY_FILLED''}" using fill_needs[of t1 x t'] step(1) by simp
      then show ?thesis using IH[of k] keep step(2) by auto
    qed
  qed
qed

lemma fills_are_confirmed:
  assumes "\<And>k. status t k \<notin> {Some ''CONFIRMED'', Some ''PARTIALLY_FILLED'', Some ''FILLED''}"
    and "desk_run review fill t es = (pre @ (Fill x, True) # post, t')"
  shows "confirmed_in reviewed confirming pre (filled x)"
  using assms(2)
proof (induction es arbitrary: post t' rule: rev_induct)
  case (snoc ev es)
  obtain hist1 t1 where run: "desk_run review fill t es = (hist1, t1)" by fastforce
  obtain ok where hist: "pre @ (Fill x, True) # post = hist1 @ [(ev, ok)]"
    and step: "case ev of Review c \<Rightarrow> review t1 c = (ok, t') | Fill y \<Rightarrow> fill t1 y = (ok, t')"
    using snoc.prems by (cases ev) (auto simp: desk_run_snoc run desk_step_def split: prod.splits)
  show ?case
  proof (cases post rule: rev_cases)
    case Nil
    then have "hist1 = pre" "ev = Fill x" "ok" using hist by auto
    then show ?thesis using step fill_needs[of t1 x t'] open_plans_confirmed[OF assms(1) run, of "filled x"] by auto
  next
    case (snoc post' y)
    then show ?thesis using hist snoc.IH[of post' t1] run by simp
  qed
qed (simp add: desk_run_def)

end

section \<open>The tables\<close>

record order_plan =
  pl_id :: uuid
  pl_run :: uuid
  pl_execution_date :: date
  pl_security :: uuid
  pl_side :: string
  pl_quantity :: int
  pl_risk :: "string option"
  pl_status :: string
  pl_version :: int

record execution_row =
  ex_id :: uuid
  ex_no :: string
  ex_plan :: uuid
  ex_key :: "string option"
  ex_type :: string
  ex_at :: datetime
  ex_quantity :: int
  ex_price :: dec
  ex_commission :: dec
  ex_stamp :: dec
  ex_transfer :: dec
  ex_other :: dec
  ex_unfilled :: int
  ex_reason :: "string option"

record ledger_row =
  le_account :: uuid
  le_run :: uuid
  le_date :: date
  le_type :: string
  le_security :: "uuid option"
  le_quantity :: int
  le_cash :: dec
  le_fee :: dec
  le_source :: uuid

record portfolio_row =
  pf_id :: uuid
  pf_run :: uuid
  pf_account :: uuid
  pf_date :: date
  pf_cash :: dec
  pf_value :: dec
  pf_equity :: dec
  pf_high :: dec
  pf_drawdown :: dec
  pf_risk :: string

record position_row =
  ps_snapshot :: uuid
  ps_security :: uuid
  ps_quantity :: int
  ps_available :: int
  ps_cost :: dec
  ps_price :: dec

record research_tables =
  run_owners :: "(uuid, uuid) dict"
  order_plans :: "order_plan list"
  execution_rows :: "execution_row list"
  ledger_rows :: "ledger_row list"
  portfolio_rows :: "portfolio_row list"
  position_rows :: "position_row list"

text \<open>What the columns \<open>Numeric(20, 6)\<close>, \<open>Numeric(12, 8)\<close> and \<open>DateTime\<close> give back.\<close>

record columns =
  col_money :: "dec \<Rightarrow> dec"
  col_ratio :: "dec \<Rightarrow> dec"
  col_stamp :: "datetime \<Rightarrow> datetime"

definition owned_plan :: "research_tables \<Rightarrow> uuid \<Rightarrow> uuid \<Rightarrow> order_plan option" where
  "owned_plan t i owner =
     (case List.find (\<lambda>p. pl_id p = i) (order_plans t) of
        None \<Rightarrow> None | Some p \<Rightarrow> if map_of (run_owners t) (pl_run p) = Some owner then Some p else None)"

definition put_plan :: "order_plan \<Rightarrow> research_tables \<Rightarrow> research_tables" where
  "put_plan p t = t\<lparr>order_plans := map (\<lambda>q. if pl_id q = pl_id p then p else q) (order_plans t)\<rparr>"

section \<open>Reviewing a plan\<close>

record review_request =
  rv_plan :: string
  rv_owner :: uuid
  rv_decision :: string
  rv_version :: int
  rv_note :: string
  rv_now :: datetime

text \<open>\<open>datetime.combine(execution_date, time(1, 25), tzinfo=UTC)\<close>: the opening auction in Shanghai.\<close>

definition plan_expiry :: "order_plan \<Rightarrow> datetime" where
  "plan_expiry p = \<lparr>wall = pl_execution_date p * day_us + 85 * 60 * 1000000, utcoff = Some 0\<rparr>"

definition confirm_plan ::
    "research_tables \<Rightarrow> review_request \<Rightarrow> ((order_plan \<times> string) option) res \<times> research_tables" where
  "confirm_plan t q = (case Option.bind (parse_uuid (rv_plan q)) (\<lambda>i. owned_plan t i (rv_owner q)) of
     None \<Rightarrow> (Inr None, t)
   | Some p \<Rightarrow>
       if rv_version q \<noteq> pl_version p \<or> pl_status p \<noteq> ''PENDING_CONFIRMATION''
       then (Inl (StateConflict ''plan version or state does not match''), t)
       else if rv_decision q = ''CONFIRM'' \<and> dt_le (plan_expiry p) (rv_now q)
       then (Inl (StateConflict ''plan has expired and must be regenerated''), t)
       else if rv_decision q = ''CONFIRM'' \<and> pl_risk p \<in> {Some ''STOP_NEW'', Some ''MANUAL_REVIEW''}
       then (Inl (RuleViolation ''risk state does not allow new positions''), t)
       else let p' = p\<lparr>pl_status := (if rv_decision q = ''CONFIRM'' then ''CONFIRMED'' else ''SKIPPED''),
                pl_version := pl_version p + 1\<rparr>
            in (Inr (Some (p', rv_note q)), put_plan p' t))"

section \<open>Recording a fill\<close>

record fill_request =
  fr_plan :: string
  fr_owner :: uuid
  fr_key :: "string option"
  fr_type :: string
  fr_at :: string
  fr_quantity :: int
  fr_unfilled :: int
  fr_price :: dec
  fr_commission :: dec
  fr_stamp :: dec
  fr_transfer :: dec
  fr_other :: dec
  fr_note :: "string option"

text \<open>The ids and the execution number a call draws.\<close>

record fresh_ids =
  new_execution :: uuid
  new_no :: string
  new_snapshot :: uuid

record fill_reply =
  fp_id :: uuid
  fp_no :: string
  fp_status :: string
  fp_plan :: uuid
  fp_quantity :: int
  fp_unfilled :: int
  fp_price :: dec
  fp_cash :: "dec option"
  fp_fees :: dec
  fp_replayed :: bool

definition fill_status :: "int \<Rightarrow> string" where
  "fill_status unfilled = (if unfilled = 0 then ''FILLED'' else ''PARTIALLY_FILLED'')"

definition request_key :: "fill_request \<Rightarrow> string option" where
  "request_key q = (case fr_key q of None \<Rightarrow> None | Some k \<Rightarrow> if k = [] then None else Some k)"

definition recorded_fill :: "research_tables \<Rightarrow> order_plan \<Rightarrow> string option \<Rightarrow> execution_row option" where
  "recorded_fill t p key = (case key of
     None \<Rightarrow> None
   | Some k \<Rightarrow> List.find (\<lambda>e. ex_plan e = pl_id p \<and> ex_key e = Some k) (execution_rows t))"

definition snapshot_on :: "research_tables \<Rightarrow> uuid \<Rightarrow> uuid \<Rightarrow> date \<Rightarrow> portfolio_row option" where
  "snapshot_on t run account d =
     List.find (\<lambda>s. pf_run s = run \<and> pf_account s = account \<and> pf_date s = d) (portfolio_rows t)"

definition replay_reply :: "research_tables \<Rightarrow> uuid \<Rightarrow> order_plan \<Rightarrow> execution_row \<Rightarrow> fill_reply" where
  "replay_reply t owner p e = \<lparr>fp_id = ex_id e, fp_no = ex_no e, fp_status = fill_status (ex_unfilled e),
     fp_plan = pl_id p, fp_quantity = ex_quantity e, fp_unfilled = ex_unfilled e, fp_price = ex_price e,
     fp_cash = map_option pf_cash (snapshot_on t (pl_run p) owner (dt_date (ex_at e))),
     fp_fees = dsum [ex_commission e, ex_stamp e, ex_transfer e, ex_other e], fp_replayed = True\<rparr>"

definition prior_filled :: "research_tables \<Rightarrow> uuid \<Rightarrow> int" where
  "prior_filled t i = sum_list (map ex_quantity (filter (\<lambda>e. ex_plan e = i) (execution_rows t)))"

definition latest_portfolio :: "research_tables \<Rightarrow> uuid \<Rightarrow> portfolio_row option" where
  "latest_portfolio t run = (case sort_key (\<lambda>s. - pf_date s) (filter (\<lambda>s. pf_run s = run) (portfolio_rows t)) of
     [] \<Rightarrow> None | s # _ \<Rightarrow> Some s)"

definition snapshot_positions :: "research_tables \<Rightarrow> portfolio_row \<Rightarrow> position_row list" where
  "snapshot_positions t s = filter (\<lambda>x. ps_snapshot x = pf_id s) (position_rows t)"

text \<open>Cash, quantity, average cost and available quantity after the fill.\<close>

definition fill_position ::
    "order_plan \<Rightarrow> position_row option \<Rightarrow> dec \<Rightarrow> int \<Rightarrow> dec \<Rightarrow> dec \<Rightarrow> (dec \<times> int \<times> dec \<times> int) res" where
  "fill_position p current cash quantity price fees =
     (let notional = dmul price (of_int quantity) in
      if pl_side p = ''BUY'' then
        let debit = dadd notional fees in
        if debit > cash then Inl (RuleViolation ''manual execution would make cash negative'')
        else
          let old_quantity = (case current of None \<Rightarrow> 0 | Some c \<Rightarrow> ps_quantity c);
              old_cost = (case current of None \<Rightarrow> 0 | Some c \<Rightarrow> dmul (ps_cost c) (of_int old_quantity))
          in andThen (ddiv (dadd old_cost debit) (of_int (old_quantity + quantity)))
               (\<lambda>avg. Inr (dsub cash debit, old_quantity + quantity, avg, 0))
      else if pl_side p = ''SELL'' then
        (case current of
           None \<Rightarrow> Inl (RuleViolation ''manual execution would make holdings negative'')
         | Some c \<Rightarrow>
             if quantity > ps_available c
             then Inl (RuleViolation ''manual execution would make holdings negative'')
             else Inr (dadd cash (dsub notional fees), ps_quantity c - quantity, ps_cost c, ps_available c - quantity))
      else Inl (RuleViolation ''unsupported plan side''))"

definition market_value_after :: "position_row list \<Rightarrow> uuid \<Rightarrow> dec \<Rightarrow> int \<Rightarrow> dec" where
  "market_value_after positions security price quantity =
     dadd (dsum (map (\<lambda>x. dmul (ps_price x) (of_int (ps_quantity x)))
         (filter (\<lambda>x. ps_security x \<noteq> security) positions)))
       (dmul price (of_int quantity))"

definition drawdown_of :: "dec \<Rightarrow> dec \<Rightarrow> dec res" where
  "drawdown_of high equity = (if high \<noteq> 0 then ddiv (dsub high equity) high else Inr 0)"

text \<open>
  The snapshot of the execution date: a new one holds only the traded security; an existing one is
  overwritten, while the position row changed is the one found in the latest snapshot of the run.
\<close>

record snapshot_values =
  sv_cash :: dec
  sv_value :: dec
  sv_equity :: dec
  sv_high :: dec
  sv_drawdown :: dec

definition put_snapshot :: "columns \<Rightarrow> snapshot_values \<Rightarrow> portfolio_row \<Rightarrow> portfolio_row" where
  "put_snapshot db v s = s\<lparr>pf_cash := col_money db (sv_cash v), pf_value := col_money db (sv_value v),
     pf_equity := col_money db (sv_equity v), pf_high := col_money db (sv_high v),
     pf_drawdown := col_ratio db (sv_drawdown v)\<rparr>"

definition position_of ::
    "columns \<Rightarrow> uuid \<Rightarrow> uuid \<Rightarrow> int \<Rightarrow> int \<Rightarrow> dec \<Rightarrow> dec \<Rightarrow> position_row" where
  "position_of db snapshot security quantity available avg price =
     \<lparr>ps_snapshot = snapshot, ps_security = security, ps_quantity = quantity, ps_available = available,
      ps_cost = col_money db avg, ps_price = col_money db price\<rparr>"

definition same_position :: "position_row \<Rightarrow> position_row \<Rightarrow> bool" where
  "same_position x y \<longleftrightarrow> ps_snapshot x = ps_snapshot y \<and> ps_security x = ps_security y"

definition insert_position :: "position_row \<Rightarrow> position_row list \<Rightarrow> position_row list res" where
  "insert_position x xs = (if \<exists>y\<in>set xs. same_position y x then Inl (DatabaseError ''IntegrityError'')
     else Inr (xs @ [x]))"

definition write_snapshot ::
    "columns \<Rightarrow> order_plan \<Rightarrow> uuid \<Rightarrow> date \<Rightarrow> uuid \<Rightarrow> snapshot_values \<Rightarrow> position_row option
      \<Rightarrow> int \<Rightarrow> dec \<Rightarrow> int \<Rightarrow> dec \<Rightarrow> research_tables \<Rightarrow> research_tables res" where
  "write_snapshot db p owner day new v current quantity avg available price t =
     (case snapshot_on t (pl_run p) owner day of
        None \<Rightarrow>
          let s = put_snapshot db v \<lparr>pf_id = new, pf_run = pl_run p, pf_account = owner, pf_date = day, pf_cash = 0,
                pf_value = 0, pf_equity = 0, pf_high = 0, pf_drawdown = 0, pf_risk = ''NORMAL''\<rparr>;
              t' = t\<lparr>portfolio_rows := portfolio_rows t @ [s]\<rparr>
          in if quantity > 0
             then andThen (insert_position (position_of db new (pl_security p) quantity available avg price)
                 (position_rows t')) (\<lambda>xs. Inr (t'\<lparr>position_rows := xs\<rparr>))
             else Inr t'
      | Some s \<Rightarrow>
          let t' = t\<lparr>portfolio_rows := map (\<lambda>x. if pf_id x = pf_id s then put_snapshot db v x else x) (portfolio_rows t)\<rparr>
          in (case current of
                None \<Rightarrow>
                  if quantity > 0
                  then andThen (insert_position (position_of db (pf_id s) (pl_security p) quantity available avg price)
                      (position_rows t')) (\<lambda>xs. Inr (t'\<lparr>position_rows := xs\<rparr>))
                  else Inr t'
              | Some c \<Rightarrow>
                  if quantity > 0
                  then Inr (t'\<lparr>position_rows := map (\<lambda>x. if same_position x c
                    then position_of db (ps_snapshot c) (ps_security c) quantity available avg price else x) (position_rows t')\<rparr>)
                  else Inr (t'\<lparr>position_rows := filter (\<lambda>x. \<not> same_position x c) (position_rows t')\<rparr>)))"

definition execution_of :: "columns \<Rightarrow> order_plan \<Rightarrow> fill_request \<Rightarrow> fresh_ids \<Rightarrow> datetime \<Rightarrow> execution_row" where
  "execution_of db p q ids at_time = \<lparr>ex_id = new_execution ids, ex_no = new_no ids, ex_plan = pl_id p,
     ex_key = request_key q, ex_type = fr_type q, ex_at = col_stamp db at_time, ex_quantity = fr_quantity q,
     ex_price = col_money db (fr_price q), ex_commission = col_money db (fr_commission q),
     ex_stamp = col_money db (fr_stamp q), ex_transfer = col_money db (fr_transfer q),
     ex_other = col_money db (fr_other q), ex_unfilled = fr_unfilled q,
     ex_reason = (if fr_unfilled q \<noteq> 0 then fr_note q else None)\<rparr>"

definition ledger_of ::
    "columns \<Rightarrow> order_plan \<Rightarrow> fill_request \<Rightarrow> fresh_ids \<Rightarrow> datetime \<Rightarrow> dec \<Rightarrow> ledger_row" where
  "ledger_of db p q ids at_time fees =
     (let notional = dmul (fr_price q) (of_int (fr_quantity q)); buy = (pl_side p = ''BUY'') in
      \<lparr>le_account = fr_owner q, le_run = pl_run p, le_date = dt_date at_time, le_type = ''MANUAL_EXECUTION'',
       le_security = Some (pl_security p), le_quantity = (if buy then fr_quantity q else - fr_quantity q),
       le_cash = col_money db (if buy then dsub (- notional) fees else dsub notional fees),
       le_fee = col_money db fees, le_source = new_execution ids\<rparr>)"

text \<open>What an admitted fill writes.\<close>

definition book_fill ::
    "order_plan \<Rightarrow> fill_request \<Rightarrow> execution_row \<Rightarrow> ledger_row \<Rightarrow> research_tables \<Rightarrow> research_tables" where
  "book_fill p q e l t = put_plan (p\<lparr>pl_status := fill_status (fr_unfilled q), pl_version := pl_version p + 1\<rparr>)
     (t\<lparr>execution_rows := execution_rows t @ [e], ledger_rows := ledger_rows t @ [l]\<rparr>)"

definition post_fill ::
    "columns \<Rightarrow> research_tables \<Rightarrow> order_plan \<Rightarrow> fill_request \<Rightarrow> fresh_ids \<Rightarrow> portfolio_row \<Rightarrow> dec
      \<Rightarrow> (fill_reply \<times> research_tables) res" where
  "post_fill db t p q ids latest fees =
     (let positions = snapshot_positions t latest;
          current = List.find (\<lambda>x. ps_security x = pl_security p) positions in
      andThen (fill_position p current (pf_cash latest) (fr_quantity q) (fr_price q) fees)
        (\<lambda>(cash, quantity, avg, available). case datetime_fromisoformat (fr_at q) of
           None \<Rightarrow> Inl (ValueError ''Invalid isoformat string'')
         | Some at_time \<Rightarrow>
             let value = market_value_after positions (pl_security p) (fr_price q) quantity;
                 equity = dadd cash value; high = max (pf_high latest) equity in
             andThen (drawdown_of high equity) (\<lambda>dd.
             andThen (write_snapshot db p (fr_owner q) (dt_date at_time) (new_snapshot ids)
                 \<lparr>sv_cash = cash, sv_value = value, sv_equity = equity, sv_high = high, sv_drawdown = dd\<rparr>
                 current quantity avg available (fr_price q)
                 (book_fill p q (execution_of db p q ids at_time) (ledger_of db p q ids at_time fees) t))
               (\<lambda>t'. Inr (\<lparr>fp_id = new_execution ids, fp_no = new_no ids, fp_status = fill_status (fr_unfilled q),
                  fp_plan = pl_id p, fp_quantity = fr_quantity q, fp_unfilled = fr_unfilled q,
                  fp_price = fr_price q, fp_cash = Some cash, fp_fees = fees, fp_replayed = False\<rparr>, t')))))"

definition record_fill ::
    "columns \<Rightarrow> research_tables \<Rightarrow> order_plan \<Rightarrow> fill_request \<Rightarrow> fresh_ids \<Rightarrow> (fill_reply \<times> research_tables) res" where
  "record_fill db t p q ids =
     (if pl_status p \<notin> {''CONFIRMED'', ''PARTIALLY_FILLED''}
      then Inl (StateConflict ''plan must be confirmed before recording execution'')
      else if fr_quantity q + fr_unfilled q \<noteq> pl_quantity p - prior_filled t (pl_id p)
      then Inl (RuleViolation ''filled and unfilled quantities must equal the remaining planned quantity'')
      else
        let fees = dsum [fr_commission q, fr_stamp q, fr_transfer q, fr_other q] in
        if fr_price q \<le> 0 \<or> fees < 0
        then Inl (RuleViolation ''manual execution price and fees must be valid'')
        else case latest_portfolio t (pl_run p) of
          None \<Rightarrow> Inl (StateConflict ''opening ledger snapshot is missing'')
        | Some latest \<Rightarrow> post_fill db t p q ids latest fees)"

definition create_execution ::
    "columns \<Rightarrow> research_tables \<Rightarrow> fill_request \<Rightarrow> fresh_ids \<Rightarrow> (fill_reply option) res \<times> research_tables" where
  "create_execution db t q ids = (case Option.bind (parse_uuid (fr_plan q)) (\<lambda>i. owned_plan t i (fr_owner q)) of
     None \<Rightarrow> (Inr None, t)
   | Some p \<Rightarrow> (case recorded_fill t p (request_key q) of
       Some e \<Rightarrow> (Inr (Some (replay_reply t (fr_owner q) p e)), t)
     | None \<Rightarrow> (case record_fill db t p q ids of
         Inl err \<Rightarrow> (Inl err, t) | Inr (reply, t') \<Rightarrow> (Inr (Some reply), t'))))"

section \<open>The tables as a plan desk\<close>

definition plan_status :: "research_tables \<Rightarrow> uuid \<Rightarrow> string option" where
  "plan_status t i = map_option pl_status (List.find (\<lambda>p. pl_id p = i) (order_plans t))"

definition plan_key :: "string \<Rightarrow> uuid" where
  "plan_key s = (case parse_uuid s of None \<Rightarrow> [] | Some i \<Rightarrow> i)"

definition desk_review :: "research_tables \<Rightarrow> review_request \<Rightarrow> bool \<times> research_tables" where
  "desk_review t q = (case confirm_plan t q of (Inr (Some r), t') \<Rightarrow> (True, t') | (r, t') \<Rightarrow> (False, t'))"

text \<open>A fill takes effect when it records a new execution; a replay does not.\<close>

definition desk_fill :: "columns \<Rightarrow> research_tables \<Rightarrow> fill_request \<times> fresh_ids \<Rightarrow> bool \<times> research_tables" where
  "desk_fill db t x = (case create_execution db t (fst x) (snd x) of
     (Inr (Some r), t') \<Rightarrow> (\<not> fp_replayed r, t') | (r, t') \<Rightarrow> (False, t'))"

lemma find_map_id:
  "List.find (\<lambda>p. pl_id p = i) (map (\<lambda>q. if pl_id q = pl_id p then p else q) ps) =
     map_option (\<lambda>q. if pl_id q = pl_id p then p else q) (List.find (\<lambda>p. pl_id p = i) ps)"
  by (induction ps) auto

lemma plan_status_put:
  "plan_status (put_plan p t) i = (if i = pl_id p then map_option (\<lambda>q. pl_status p) (List.find (\<lambda>p. pl_id p = i) (order_plans t))
     else plan_status t i)"
  by (auto simp: plan_status_def put_plan_def find_map_id option.map_comp o_def find_Some_iff
      split: option.splits intro!: option.map_cong)

lemma owned_plan_Some:
  assumes "owned_plan t i owner = Some p"
  shows "List.find (\<lambda>p. pl_id p = i) (order_plans t) = Some p" and "pl_id p = i" and "p \<in> set (order_plans t)"
    and "plan_status t i = Some (pl_status p)"
  using assms by (auto simp: owned_plan_def plan_status_def find_Some_iff split: option.splits if_splits)

lemma confirm_plan_cases:
  assumes "desk_review t q = (ok, t')"
  obtains (refused) "\<not> ok" "t' = t"
  | (decided) p where "ok" "owned_plan t (plan_key (rv_plan q)) (rv_owner q) = Some p" "pl_status p = ''PENDING_CONFIRMATION''"
      "rv_decision q = ''CONFIRM'' \<Longrightarrow> instant (rv_now q) < instant (plan_expiry p)"
      "t' = put_plan (p\<lparr>pl_status := (if rv_decision q = ''CONFIRM'' then ''CONFIRMED'' else ''SKIPPED''),
        pl_version := pl_version p + 1\<rparr>) t"
proof (cases "Option.bind (parse_uuid (rv_plan q)) (\<lambda>i. owned_plan t i (rv_owner q))")
  case None
  then show thesis using assms by (intro refused) (simp_all add: desk_review_def confirm_plan_def)
next
  case (Some p)
  then have own: "owned_plan t (plan_key (rv_plan q)) (rv_owner q) = Some p"
    by (auto simp: plan_key_def bind_eq_Some_conv)
  consider (state) "rv_version q \<noteq> pl_version p \<or> pl_status p \<noteq> ''PENDING_CONFIRMATION''"
    | (late) "\<not> (rv_version q \<noteq> pl_version p \<or> pl_status p \<noteq> ''PENDING_CONFIRMATION'')"
        "rv_decision q = ''CONFIRM'' \<and> dt_le (plan_expiry p) (rv_now q)"
    | (risk) "\<not> (rv_version q \<noteq> pl_version p \<or> pl_status p \<noteq> ''PENDING_CONFIRMATION'')"
        "\<not> (rv_decision q = ''CONFIRM'' \<and> dt_le (plan_expiry p) (rv_now q))"
        "rv_decision q = ''CONFIRM'' \<and> pl_risk p \<in> {Some ''STOP_NEW'', Some ''MANUAL_REVIEW''}"
    | (ok) "\<not> (rv_version q \<noteq> pl_version p \<or> pl_status p \<noteq> ''PENDING_CONFIRMATION'')"
        "\<not> (rv_decision q = ''CONFIRM'' \<and> dt_le (plan_expiry p) (rv_now q))"
        "\<not> (rv_decision q = ''CONFIRM'' \<and> pl_risk p \<in> {Some ''STOP_NEW'', Some ''MANUAL_REVIEW''})"
    by blast
  then show thesis
  proof cases
    case ok
    then have "confirm_plan t q = (let p' = p\<lparr>pl_status := (if rv_decision q = ''CONFIRM'' then ''CONFIRMED'' else ''SKIPPED''),
        pl_version := pl_version p + 1\<rparr> in (Inr (Some (p', rv_note q)), put_plan p' t))"
      unfolding confirm_plan_def Some option.case by (simp only: if_False)
    then show thesis using assms ok own by (intro decided[of p]) (auto simp: desk_review_def Let_def dt_le_def)
  qed (use assms Some in \<open>(intro refused; simp add: desk_review_def confirm_plan_def)+\<close>)
qed

lemma write_snapshot_frame:
  assumes "write_snapshot db p owner day new v current quantity avg available price t = Inr t'"
  shows "order_plans t' = order_plans t" and "execution_rows t' = execution_rows t"
    and "ledger_rows t' = ledger_rows t" and "run_owners t' = run_owners t"
  using assms by (auto simp: write_snapshot_def Let_def andThen_Inr_iff split: option.splits if_splits)

lemma post_fill_InrD:
  assumes "post_fill db t p q ids latest fees = Inr (r, t')"
  obtains cash quantity avg available at_time dd where
    "fill_position p (List.find (\<lambda>x. ps_security x = pl_security p) (snapshot_positions t latest)) (pf_cash latest)
       (fr_quantity q) (fr_price q) fees = Inr (cash, quantity, avg, available)"
    and "datetime_fromisoformat (fr_at q) = Some at_time"
    and "\<not> fp_replayed r"
    and "let value = market_value_after (snapshot_positions t latest) (pl_security p) (fr_price q) quantity;
           equity = dadd cash value; high = max (pf_high latest) equity in
         write_snapshot db p (fr_owner q) (dt_date at_time) (new_snapshot ids)
           \<lparr>sv_cash = cash, sv_value = value, sv_equity = equity, sv_high = high, sv_drawdown = dd\<rparr>
           (List.find (\<lambda>x. ps_security x = pl_security p) (snapshot_positions t latest)) quantity avg available (fr_price q)
           (book_fill p q (execution_of db p q ids at_time) (ledger_of db p q ids at_time fees) t) = Inr t'"
proof -
  obtain v where v: "fill_position p (List.find (\<lambda>x. ps_security x = pl_security p) (snapshot_positions t latest)) (pf_cash latest)
       (fr_quantity q) (fr_price q) fees = Inr v"
    using assms by (auto simp: post_fill_def Let_def elim: andThen_InrE)
  obtain cash quantity avg available where v4: "v = (cash, quantity, avg, available)" by (cases v) auto
  obtain at_time where time: "datetime_fromisoformat (fr_at q) = Some at_time"
    using assms by (cases "datetime_fromisoformat (fr_at q)") (simp_all add: post_fill_def Let_def v v4)
  show thesis
    using assms that[OF v[unfolded v4] time] by (auto simp: post_fill_def Let_def v v4 time andThen_Inr_iff)
qed

lemma record_fill_InrD:
  assumes "record_fill db t p q ids = Inr (r, t')"
  obtains latest where "pl_status p \<in> {''CONFIRMED'', ''PARTIALLY_FILLED''}"
    and "fr_quantity q + fr_unfilled q = pl_quantity p - prior_filled t (pl_id p)" and "0 < fr_price q"
    and "0 \<le> dsum [fr_commission q, fr_stamp q, fr_transfer q, fr_other q]"
    and "latest_portfolio t (pl_run p) = Some latest"
    and "post_fill db t p q ids latest (dsum [fr_commission q, fr_stamp q, fr_transfer q, fr_other q]) = Inr (r, t')"
proof -
  have confirmed: "pl_status p \<in> {''CONFIRMED'', ''PARTIALLY_FILLED''}"
    by (rule ccontr) (use assms in \<open>simp add: record_fill_def\<close>)
  have run1: "(if fr_quantity q + fr_unfilled q \<noteq> pl_quantity p - prior_filled t (pl_id p)
      then Inl (RuleViolation ''filled and unfilled quantities must equal the remaining planned quantity'') else
      let fees = dsum [fr_commission q, fr_stamp q, fr_transfer q, fr_other q] in
        if fr_price q \<le> 0 \<or> fees < 0
        then Inl (RuleViolation ''manual execution price and fees must be valid'')
        else case latest_portfolio t (pl_run p) of
          None \<Rightarrow> Inl (StateConflict ''opening ledger snapshot is missing'')
        | Some latest \<Rightarrow> post_fill db t p q ids latest fees) = Inr (r, t')"
    using assms confirmed by (simp only: record_fill_def simp_thms if_False)
  then show thesis using confirmed
    by (auto simp: Let_def not_le not_less split: if_splits option.splits intro: that)
qed

lemma post_fill_frame:
  assumes "post_fill db t p q ids latest fees = Inr (r, t')"
  obtains e where "ex_plan e = pl_id p" and "ex_quantity e = fr_quantity q" and "ex_key e = request_key q"
    and "execution_rows t' = execution_rows t @ [e]" and "run_owners t' = run_owners t"
    and "order_plans t' = order_plans (put_plan (p\<lparr>pl_status := fill_status (fr_unfilled q), pl_version := pl_version p + 1\<rparr>) t)"
    and "\<not> fp_replayed r"
proof (rule post_fill_InrD[OF assms])
  fix cash quantity avg available at_time dd
  assume "\<not> fp_replayed r" and "let value = market_value_after (snapshot_positions t latest) (pl_security p) (fr_price q) quantity;
           equity = dadd cash value; high = max (pf_high latest) equity in
         write_snapshot db p (fr_owner q) (dt_date at_time) (new_snapshot ids)
           \<lparr>sv_cash = cash, sv_value = value, sv_equity = equity, sv_high = high, sv_drawdown = dd\<rparr>
           (List.find (\<lambda>x. ps_security x = pl_security p) (snapshot_positions t latest)) quantity avg available (fr_price q)
           (book_fill p q (execution_of db p q ids at_time) (ledger_of db p q ids at_time fees) t) = Inr t'"
  then show thesis using write_snapshot_frame
    by (intro that[of "execution_of db p q ids at_time"])
      (fastforce simp: Let_def book_fill_def put_plan_def execution_of_def)+
qed

lemma desk_fill_cases:
  assumes "desk_fill db t (q, ids) = (ok, t')"
  obtains (unchanged) "\<not> ok" "t' = t"
  | (recorded) p r where "ok" "owned_plan t (plan_key (fr_plan q)) (fr_owner q) = Some p"
      "recorded_fill t p (request_key q) = None" "record_fill db t p q ids = Inr (r, t')"
proof (cases "Option.bind (parse_uuid (fr_plan q)) (\<lambda>i. owned_plan t i (fr_owner q))")
  case None
  then show thesis using assms by (intro unchanged) (simp_all add: desk_fill_def create_execution_def)
next
  case (Some p)
  then have own: "owned_plan t (plan_key (fr_plan q)) (fr_owner q) = Some p"
    by (auto simp: plan_key_def bind_eq_Some_conv)
  have create: "create_execution db t q ids = (case recorded_fill t p (request_key q) of
       Some e \<Rightarrow> (Inr (Some (replay_reply t (fr_owner q) p e)), t)
     | None \<Rightarrow> (case record_fill db t p q ids of
         Inl err \<Rightarrow> (Inl err, t) | Inr (reply, t') \<Rightarrow> (Inr (Some reply), t')))"
    by (simp only: create_execution_def Some option.case)
  show thesis
  proof (cases "recorded_fill t p (request_key q)")
    case Old: (Some e)
    then show thesis using assms by (intro unchanged) (simp_all add: desk_fill_def create replay_reply_def)
  next
    case None
    show thesis
    proof (cases "record_fill db t p q ids")
      case (Inl err)
      then show thesis using assms None by (intro unchanged) (simp_all add: desk_fill_def create)
    next
      case (Inr x)
      obtain r t1 where x: "x = (r, t1)" by (cases x)
      have "\<not> fp_replayed r"
        using Inr x by (auto elim!: record_fill_InrD post_fill_frame)
      then show thesis using assms None Inr x own by (intro recorded) (auto simp: desk_fill_def create)
    qed
  qed
qed

interpretation plans: plan_desk desk_review "desk_fill db" plan_status "\<lambda>q. plan_key (rv_plan q)"
    "\<lambda>q. rv_decision q = ''CONFIRM''" "\<lambda>x. plan_key (fr_plan (fst x))" for db
proof unfold_locales
  show "plan_status t' k = plan_status t k \<or> ok \<and> k = plan_key (rv_plan c) \<and>
      plan_status t k = Some ''PENDING_CONFIRMATION'' \<and>
      plan_status t' k = Some (if rv_decision c = ''CONFIRM'' then ''CONFIRMED'' else ''SKIPPED'')"
    if "desk_review t c = (ok, t')" for t c ok t' k
  proof (cases rule: confirm_plan_cases[OF that])
    case (2 p)
    note p = owned_plan_Some[OF 2(2)]
    show ?thesis using p 2(1,3,5) by (auto simp: plan_status_put)
  qed simp
  show "plan_status t' k = plan_status t k \<or> ok \<and> k = plan_key (fr_plan (fst x)) \<and>
      plan_status t' k \<in> {Some ''FILLED'', Some ''PARTIALLY_FILLED''}"
    if run: "desk_fill db t x = (ok, t')" for db t x ok t' k
  proof -
    obtain q ids where x: "x = (q, ids)" by (cases x)
    show ?thesis
    proof (cases rule: desk_fill_cases[OF run[unfolded x]])
      case (2 p r)
      note p = owned_plan_Some[OF 2(2)]
      obtain latest where "post_fill db t p q ids latest (dsum [fr_commission q, fr_stamp q, fr_transfer q, fr_other q]) = Inr (r, t')"
        using record_fill_InrD[OF 2(4)] by blast
      then have "order_plans t' = order_plans (put_plan (p\<lparr>pl_status := fill_status (fr_unfilled q), pl_version := pl_version p + 1\<rparr>) t)"
        using post_fill_frame by blast
      then have "plan_status t' k = plan_status (put_plan (p\<lparr>pl_status := fill_status (fr_unfilled q), pl_version := pl_version p + 1\<rparr>) t) k"
        by (simp add: plan_status_def)
      then show ?thesis using p 2(1) x by (auto simp: plan_status_put fill_status_def)
    qed simp
  qed
  show "plan_status t (plan_key (fr_plan (fst x))) \<in> {Some ''CONFIRMED'', Some ''PARTIALLY_FILLED''}"
    if run: "desk_fill db t x = (True, t')" for db t x t'
  proof -
    obtain q ids where x: "x = (q, ids)" by (cases x)
    show ?thesis
    proof (cases rule: desk_fill_cases[OF run[unfolded x]])
      case (2 p r)
      then show ?thesis using owned_plan_Some[OF 2(2)] record_fill_InrD[OF 2(4)] x by auto
    qed simp
  qed
qed

section \<open>Filled quantities\<close>

definition desk_ok :: "research_tables \<Rightarrow> bool" where
  "desk_ok t \<longleftrightarrow> distinct (map pl_id (order_plans t)) \<and> (\<forall>p\<in>set (order_plans t).
     0 \<le> prior_filled t (pl_id p) \<and> prior_filled t (pl_id p) \<le> pl_quantity p \<and>
     (pl_status p = ''FILLED'' \<longleftrightarrow> prior_filled t (pl_id p) = pl_quantity p))"

definition unfilled_desk :: "research_tables \<Rightarrow> bool" where
  "unfilled_desk t \<longleftrightarrow> distinct (map pl_id (order_plans t)) \<and> execution_rows t = [] \<and>
     (\<forall>p\<in>set (order_plans t). pl_status p = ''PENDING_CONFIRMATION'' \<and> 0 < pl_quantity p)"

text \<open>The schema of a fill request: a positive quantity and no negative rest.\<close>

definition fills_valid :: "(review_request, fill_request \<times> fresh_ids) desk_event list \<Rightarrow> bool" where
  "fills_valid es \<longleftrightarrow> (\<forall>q ids. Fill (q, ids) \<in> set es \<longrightarrow> 0 < fr_quantity q \<and> 0 \<le> fr_unfilled q)"

lemma put_plan_ids [simp]: "map pl_id (order_plans (put_plan p t)) = map pl_id (order_plans t)"
  by (simp add: put_plan_def)

lemma in_put_plan:
  "x \<in> set (order_plans (put_plan p t)) \<longleftrightarrow>
     (\<exists>y\<in>set (order_plans t). x = (if pl_id y = pl_id p then p else y))"
  by (auto simp: put_plan_def)

lemma unfilled_desk_ok: "unfilled_desk t \<Longrightarrow> desk_ok t"
  by (auto simp: unfilled_desk_def desk_ok_def prior_filled_def)

lemma plan_unique:
  "desk_ok t \<Longrightarrow> p \<in> set (order_plans t) \<Longrightarrow> y \<in> set (order_plans t) \<Longrightarrow> pl_id y = pl_id p \<Longrightarrow> y = p"
  by (auto simp: desk_ok_def distinct_map dest: inj_onD)

lemma review_keeps_ok:
  assumes "desk_ok t" and "desk_review t q = (ok, t')"
  shows "desk_ok t'"
proof (cases rule: confirm_plan_cases[OF assms(2)])
  case (2 p)
  let ?p = "p\<lparr>pl_status := (if rv_decision q = ''CONFIRM'' then ''CONFIRMED'' else ''SKIPPED''), pl_version := pl_version p + 1\<rparr>"
  have filled: "prior_filled (put_plan ?p t) i = prior_filled t i" for i by (simp add: prior_filled_def put_plan_def)
  have p: "p \<in> set (order_plans t)" by (rule owned_plan_Some(3)[OF 2(2)])
  then have "prior_filled t (pl_id p) \<noteq> pl_quantity p" using assms(1) 2(3) by (auto simp: desk_ok_def)
  then show ?thesis using assms(1) p plan_unique[OF assms(1) p]
    by (auto simp: 2(5) desk_ok_def filled in_put_plan simp del: put_plan_def)
qed (use assms in simp)

lemma fill_keeps_ok:
  assumes "desk_ok t" and "desk_fill db t (q, ids) = (ok, t')" and "0 < fr_quantity q" and "0 \<le> fr_unfilled q"
  shows "desk_ok t'"
proof (cases rule: desk_fill_cases[OF assms(2)])
  case (2 p r)
  obtain latest where whole: "fr_quantity q + fr_unfilled q = pl_quantity p - prior_filled t (pl_id p)"
    and post: "post_fill db t p q ids latest (dsum [fr_commission q, fr_stamp q, fr_transfer q, fr_other q]) = Inr (r, t')"
    using record_fill_InrD[OF 2(4)] by blast
  let ?p = "p\<lparr>pl_status := fill_status (fr_unfilled q), pl_version := pl_version p + 1\<rparr>"
  obtain e where e: "ex_plan e = pl_id p" "ex_quantity e = fr_quantity q" "execution_rows t' = execution_rows t @ [e]"
    and plans: "order_plans t' = order_plans (put_plan ?p t)"
    using post_fill_frame[OF post] by metis
  have filled: "prior_filled t' i = prior_filled t i + (if i = pl_id p then fr_quantity q else 0)" for i
    by (simp add: prior_filled_def e)
  have p: "p \<in> set (order_plans t)" by (rule owned_plan_Some(3)[OF 2(2)])
  have ids: "distinct (map pl_id (order_plans t'))" using assms(1) plans by (simp add: desk_ok_def)
  have "0 \<le> prior_filled t' (pl_id x) \<and> prior_filled t' (pl_id x) \<le> pl_quantity x \<and>
      (pl_status x = ''FILLED'' \<longleftrightarrow> prior_filled t' (pl_id x) = pl_quantity x)" if "x \<in> set (order_plans t')" for x
  proof -
    obtain y where y: "y \<in> set (order_plans t)" "x = (if pl_id y = pl_id p then ?p else y)"
      using \<open>x \<in> set (order_plans t')\<close> by (auto simp: plans in_put_plan)
    have old: "0 \<le> prior_filled t (pl_id y) \<and> prior_filled t (pl_id y) \<le> pl_quantity y \<and>
      (pl_status y = ''FILLED'' \<longleftrightarrow> prior_filled t (pl_id y) = pl_quantity y)" using assms(1) y(1) by (simp add: desk_ok_def)
    show ?thesis
    proof (cases "pl_id y = pl_id p")
      case True
      then have "y = p" by (rule plan_unique[OF assms(1) p y(1)])
      then show ?thesis using old whole assms(3,4) y(2) by (auto simp: filled fill_status_def)
    qed (use old y in \<open>simp add: filled\<close>)
  qed
  then show ?thesis using ids by (simp add: desk_ok_def)
qed (use assms in simp)

lemma desk_run_ok:
  assumes "desk_ok t" and "fills_valid es"
  shows "desk_ok (snd (desk_run desk_review (desk_fill db) t es))"
  using assms(2)
proof (induction es rule: rev_induct)
  case Nil
  then show ?case using assms(1) by (simp add: desk_run_def)
next
  case (snoc ev es)
  have ok: "desk_ok (snd (desk_run desk_review (desk_fill db) t es))" using snoc by (auto simp: fills_valid_def)
  show ?case
  proof (cases ev)
    case (Review q)
    then show ?thesis using review_keeps_ok[OF ok] by (auto simp: desk_run_snoc desk_step_def split: prod.splits)
  next
    case (Fill x)
    then show ?thesis using fill_keeps_ok[OF ok, of db "fst x" "snd x"] snoc.prems
      by (cases x) (auto simp: desk_run_snoc desk_step_def fills_valid_def split: prod.splits)
  qed
qed

section \<open>Properties\<close>

text \<open>
  C32: over any history of reviews and valid manual fills of fresh plans, no plan is filled beyond its
  quantity, it is \<open>FILLED\<close> exactly when it is filled completely, and a fill is only recorded for a plan
  that was confirmed before.
\<close>

theorem fills_follow_confirmed_plans:
  assumes "unfilled_desk t" and "fills_valid es" and "desk_run desk_review (desk_fill db) t es = (hist, t')"
  shows "(\<forall>p\<in>set (order_plans t'). prior_filled t' (pl_id p) \<le> pl_quantity p \<and>
      (pl_status p = ''FILLED'' \<longleftrightarrow> prior_filled t' (pl_id p) = pl_quantity p)) \<and>
    (\<forall>pre q ids post. hist = pre @ (Fill (q, ids), True) # post \<longrightarrow>
      (\<exists>c. (Review c, True) \<in> set pre \<and> rv_decision c = ''CONFIRM'' \<and> plan_key (rv_plan c) = plan_key (fr_plan q)))"
proof (intro conjI allI impI)
  have "desk_ok t'" using desk_run_ok[OF unfilled_desk_ok[OF assms(1)] assms(2), of db] assms(3) by simp
  then show "\<forall>p\<in>set (order_plans t'). prior_filled t' (pl_id p) \<le> pl_quantity p \<and>
      (pl_status p = ''FILLED'' \<longleftrightarrow> prior_filled t' (pl_id p) = pl_quantity p)" by (simp add: desk_ok_def)
  have start: "plan_status t k \<notin> {Some ''CONFIRMED'', Some ''PARTIALLY_FILLED'', Some ''FILLED''}" for k
    using assms(1) by (auto simp: unfilled_desk_def plan_status_def find_Some_iff)
  fix pre q ids post
  assume "hist = pre @ (Fill (q, ids), True) # post"
  then show "\<exists>c. (Review c, True) \<in> set pre \<and> rv_decision c = ''CONFIRM'' \<and> plan_key (rv_plan c) = plan_key (fr_plan q)"
    using plans.fills_are_confirmed[OF start, of db es pre "(q, ids)" post t'] assms(3)
    by (auto simp: confirmed_in_def)
qed

text \<open>The first row of a run by date, from the latest.\<close>

lemma hd_insort: "hd (insort_key f x ys) = (if ys = [] \<or> f x \<le> f (hd ys) then x else hd ys)"
  by (cases ys) auto

lemma hd_sort_snoc:
  "hd (sort_key f (xs @ [s])) = (if xs = [] \<or> f s < f (hd (sort_key f xs)) then s else hd (sort_key f xs))"
proof (induction xs)
  case (Cons x xs)
  have ne: "sort_key f ys = [] \<longleftrightarrow> ys = []" for ys by (metis length_0_conv length_sort)
  show ?case using Cons by (cases "xs = []") (auto simp: hd_insort ne)
qed simp

lemma latest_portfolio_hd:
  "latest_portfolio t run = (let ss = filter (\<lambda>s. pf_run s = run) (portfolio_rows t) in
     if ss = [] then None else Some (hd (sort_key (\<lambda>s. - pf_date s) ss)))"
proof -
  have "sort_key (\<lambda>s. - pf_date s) ss = [] \<longleftrightarrow> ss = []" for ss :: "portfolio_row list"
    by (metis length_0_conv length_sort)
  then show ?thesis by (auto simp: latest_portfolio_def Let_def split: list.splits)
qed

lemma latest_portfolio_snoc:
  assumes "latest_portfolio t run = Some l" and "pf_run s = run" and "portfolio_rows t' = portfolio_rows t @ [s]"
  shows "latest_portfolio t' run = Some (if pf_date l < pf_date s then s else l)"
  using assms by (auto simp: latest_portfolio_hd Let_def hd_sort_snoc split: if_splits)

lemma write_new_snapshot:
  assumes "write_snapshot db p owner day new v current quantity avg available price t = Inr t'"
    and "snapshot_on t (pl_run p) owner day = None"
  obtains s where "portfolio_rows t' = portfolio_rows t @ [s]" and "pf_run s = pl_run p" and "pf_date s = day"
    and "pf_id s = new" and "pf_cash s = col_money db (sv_cash v)"
    and "position_rows t' = position_rows t \<or>
      position_rows t' = position_rows t @ [position_of db new (pl_security p) quantity available avg price]"
  using assms
  by (auto simp: write_snapshot_def put_snapshot_def insert_position_def Let_def andThen_Inr_iff
      split: if_splits intro: that)

text \<open>
  The snapshot a fill opens on a date of its own holds only the security traded. If the date lies after
  the latest snapshot, the other holdings of the run are gone from its latest snapshot; if it lies before,
  the latest snapshot stays, and with it the cash the next fill starts from.
\<close>

theorem new_snapshot_loses_holdings:
  assumes "record_fill db t p q ids = Inr (r, t')" and "datetime_fromisoformat (fr_at q) = Some at_time"
    and "snapshot_on t (pl_run p) (fr_owner q) (dt_date at_time) = None"
    and "latest_portfolio t (pl_run p) = Some latest"
    and "new_snapshot ids \<notin> ps_snapshot ` set (position_rows t)"
  shows "if pf_date latest < dt_date at_time
    then \<exists>s. latest_portfolio t' (pl_run p) = Some s \<and> pf_id s = new_snapshot ids \<and>
      (\<forall>x\<in>set (snapshot_positions t' s). ps_security x = pl_security p)
    else latest_portfolio t' (pl_run p) = Some latest"
proof -
  obtain fees where post: "post_fill db t p q ids latest fees = Inr (r, t')"
    using record_fill_InrD[OF assms(1)] assms(4) by (metis option.inject)
  obtain v current quantity avg available e l where w: "write_snapshot db p (fr_owner q) (dt_date at_time) (new_snapshot ids) v
      current quantity avg available (fr_price q) (book_fill p q e l t) = Inr t'"
    using post_fill_InrD[OF post] assms(2) unfolding Let_def by (metis option.inject)
  have frame: "portfolio_rows (book_fill p q e l t) = portfolio_rows t" "position_rows (book_fill p q e l t) = position_rows t"
    by (simp_all add: book_fill_def put_plan_def)
  have none: "snapshot_on (book_fill p q e l t) (pl_run p) (fr_owner q) (dt_date at_time) = None"
    using assms(3) by (simp add: snapshot_on_def frame)
  obtain s where s: "portfolio_rows t' = portfolio_rows t @ [s]" "pf_run s = pl_run p" "pf_date s = dt_date at_time"
      "pf_id s = new_snapshot ids"
    and pos: "position_rows t' = position_rows t \<or>
      position_rows t' = position_rows t @ [position_of db (new_snapshot ids) (pl_security p) quantity available avg (fr_price q)]"
    using write_new_snapshot[OF w none] frame by metis
  have new: "ps_snapshot x \<noteq> new_snapshot ids" if "x \<in> set (position_rows t)" for x
    using assms(5) imageI[OF that, of ps_snapshot] by metis
  have "ps_security x = pl_security p" if "x \<in> set (snapshot_positions t' s)" for x
    using that pos new s(4) by (auto simp: snapshot_positions_def position_of_def)
  then show ?thesis using latest_portfolio_snoc[OF assms(4) s(2,1)] s(3,4) by auto
qed

section \<open>A concrete desk\<close>

definition sample_plan_id :: uuid where "sample_plan_id = ''00000000-0000-0000-0000-000000000001''"

definition sample_columns :: columns where
  "sample_columns = \<lparr>col_money = (\<lambda>x. x), col_ratio = (\<lambda>x. x), col_stamp = (\<lambda>t. t)\<rparr>"

definition sample_plan :: order_plan where
  "sample_plan = \<lparr>pl_id = sample_plan_id, pl_run = ''r'', pl_execution_date = 739497, pl_security = ''a'',
     pl_side = ''BUY'', pl_quantity = 200, pl_risk = Some ''NORMAL'', pl_status = ''PENDING_CONFIRMATION'', pl_version = 1\<rparr>"

definition sample_opening :: portfolio_row where
  "sample_opening = \<lparr>pf_id = ''s0'', pf_run = ''r'', pf_account = ''o'', pf_date = 739496, pf_cash = 20000, pf_value = 0,
     pf_equity = 20000, pf_high = 20000, pf_drawdown = 0, pf_risk = ''NORMAL''\<rparr>"

definition sample_desk :: research_tables where
  "sample_desk = \<lparr>run_owners = [(''r'', ''o'')], order_plans = [sample_plan], execution_rows = [], ledger_rows = [],
     portfolio_rows = [sample_opening],
     position_rows = [\<lparr>ps_snapshot = ''s0'', ps_security = ''b'', ps_quantity = 100, ps_available = 100,
       ps_cost = 10, ps_price = 10\<rparr>]\<rparr>"

definition sample_review :: review_request where
  "sample_review = \<lparr>rv_plan = sample_plan_id, rv_owner = ''o'', rv_decision = ''CONFIRM'', rv_version = 1,
     rv_note = ''ok'', rv_now = \<lparr>wall = 739496 * day_us, utcoff = Some 0\<rparr>\<rparr>"

definition sample_fill :: fill_request where
  "sample_fill = \<lparr>fr_plan = sample_plan_id, fr_owner = ''o'', fr_key = Some ''k'', fr_type = ''MANUAL_ENTRY'',
     fr_at = ''2025-09-03T10:00:00'', fr_quantity = 100, fr_unfilled = 100, fr_price = 10, fr_commission = 5,
     fr_stamp = 0, fr_transfer = 0, fr_other = 0, fr_note = Some ''n''\<rparr>"

definition sample_ids :: fresh_ids where
  "sample_ids = \<lparr>new_execution = ''e1'', new_no = ''exec_1'', new_snapshot = ''s1''\<rparr>"

lemma sample_texts:
  "plan_key sample_plan_id = sample_plan_id" "parse_uuid sample_plan_id = Some sample_plan_id"
  "datetime_fromisoformat ''2025-09-03T10:00:00'' = Some \<lparr>wall = 63892576800000000, utcoff = None\<rparr>"
  by code_simp+

definition sample_confirmed :: research_tables where
  "sample_confirmed = sample_desk\<lparr>order_plans := [sample_plan\<lparr>pl_status := ''CONFIRMED'', pl_version := 2\<rparr>]\<rparr>"

lemma sample_reviewed: "desk_review sample_desk sample_review = (True, sample_confirmed)"
  by (simp add: desk_review_def confirm_plan_def sample_texts sample_review_def owned_plan_def sample_desk_def
      sample_plan_def sample_confirmed_def plan_expiry_def dt_le_def instant_def day_us_def put_plan_def Let_def)

lemma sample_posted:
  "\<exists>r t'. record_fill sample_columns sample_confirmed (sample_plan\<lparr>pl_status := ''CONFIRMED'', pl_version := 2\<rparr>)
      sample_fill sample_ids = Inr (r, t') \<and> \<not> fp_replayed r"
  by (simp add: record_fill_def post_fill_def sample_confirmed_def sample_fill_def sample_plan_def sample_desk_def
      sample_texts prior_filled_def latest_portfolio_def sample_opening_def snapshot_positions_def fill_position_def
      dsum_def dadd_def dmul_def dsub_def ddiv_def market_value_after_def drawdown_of_def write_snapshot_def
      snapshot_on_def book_fill_def put_plan_def dt_date_def day_us_def sample_ids_def put_snapshot_def
      insert_position_def position_of_def same_position_def Let_def)

theorem fills_follow_confirmed_plans_witness:
  "\<exists>hist t'. desk_run desk_review (desk_fill sample_columns) sample_desk
      [Review sample_review, Fill (sample_fill, sample_ids)] = (hist, t') \<and> map snd hist = [True, True] \<and>
    (\<forall>p\<in>set (order_plans t'). prior_filled t' (pl_id p) \<le> pl_quantity p)"
proof -
  obtain r t' where fill: "record_fill sample_columns sample_confirmed (sample_plan\<lparr>pl_status := ''CONFIRMED'', pl_version := 2\<rparr>)
      sample_fill sample_ids = Inr (r, t')" "\<not> fp_replayed r"
    using sample_posted by blast
  have "owned_plan sample_confirmed sample_plan_id ''o'' = Some (sample_plan\<lparr>pl_status := ''CONFIRMED'', pl_version := 2\<rparr>)"
    by (simp add: owned_plan_def sample_confirmed_def sample_desk_def sample_plan_def)
  moreover have "fr_plan sample_fill = sample_plan_id" "fr_owner sample_fill = ''o''" by (simp_all add: sample_fill_def)
  moreover have "recorded_fill sample_confirmed p k = None" for p k
    by (simp add: recorded_fill_def sample_confirmed_def sample_desk_def split: option.split)
  ultimately have "desk_fill sample_columns sample_confirmed (sample_fill, sample_ids) = (True, t')"
    using fill by (simp add: desk_fill_def create_execution_def sample_texts)
  then have run: "desk_run desk_review (desk_fill sample_columns) sample_desk
      [Review sample_review, Fill (sample_fill, sample_ids)] =
      ([(Review sample_review, True), (Fill (sample_fill, sample_ids), True)], t')"
    by (simp add: desk_run_def desk_step_def sample_reviewed)
  have "unfilled_desk sample_desk" by (simp add: unfilled_desk_def sample_desk_def sample_plan_def)
  moreover have "fills_valid [Review sample_review, Fill (sample_fill, sample_ids)]"
    by (simp add: fills_valid_def sample_fill_def)
  ultimately show ?thesis using fills_follow_confirmed_plans[OF _ _ run] run by auto
qed

theorem new_snapshot_loses_holdings_witness:
  "\<exists>r t' s. record_fill sample_columns sample_confirmed (sample_plan\<lparr>pl_status := ''CONFIRMED'', pl_version := 2\<rparr>)
      sample_fill sample_ids = Inr (r, t') \<and>
    map ps_security (snapshot_positions sample_confirmed sample_opening) = [''b''] \<and>
    latest_portfolio t' ''r'' = Some s \<and> (\<forall>x\<in>set (snapshot_positions t' s). ps_security x = ''a'')"
proof -
  obtain r t' where fill: "record_fill sample_columns sample_confirmed (sample_plan\<lparr>pl_status := ''CONFIRMED'', pl_version := 2\<rparr>)
      sample_fill sample_ids = Inr (r, t')"
    using sample_posted by blast
  have time: "datetime_fromisoformat (fr_at sample_fill) = Some \<lparr>wall = 63892576800000000, utcoff = None\<rparr>"
    by (simp add: sample_fill_def sample_texts)
  have none: "snapshot_on sample_confirmed (pl_run (sample_plan\<lparr>pl_status := ''CONFIRMED'', pl_version := 2\<rparr>))
      (fr_owner sample_fill) (dt_date \<lparr>wall = 63892576800000000, utcoff = None\<rparr>) = None"
    by (simp add: snapshot_on_def sample_confirmed_def sample_desk_def sample_opening_def dt_date_def day_us_def)
  have latest: "latest_portfolio sample_confirmed (pl_run (sample_plan\<lparr>pl_status := ''CONFIRMED'', pl_version := 2\<rparr>)) =
      Some sample_opening"
    by (simp add: latest_portfolio_def sample_confirmed_def sample_desk_def sample_plan_def sample_opening_def)
  have new: "new_snapshot sample_ids \<notin> ps_snapshot ` set (position_rows sample_confirmed)"
    by (simp add: sample_ids_def sample_confirmed_def sample_desk_def)
  show ?thesis
    using new_snapshot_loses_holdings[OF fill time none latest new] fill
    by (auto simp: sample_opening_def dt_date_def day_us_def sample_plan_def snapshot_positions_def
        sample_confirmed_def sample_desk_def)
qed

end
