(* ===== verification/MemoryDesk.thy ===== *)
theory MemoryDesk
  imports OrderPlans
begin

text \<open>
  The in-memory research repository's plan desk (\<open>InMemoryResearchRepository\<close> in
  \<open>app/api/v1/common.py\<close>): ownership, pages, reviewing a plan, recording a manual fill and report
  exports. Records are copied out, so that a caller cannot change the store. The draw of an id and the
  clock are arguments.
\<close>

section \<open>Ownership and pages\<close>

text \<open>A record without an owner is everybody's.\<close>

definition owned_by :: "string option \<Rightarrow> string \<Rightarrow> bool" where
  "owned_by recorded owner \<longleftrightarrow> recorded = None \<or> recorded = Some owner"

record 'a page =
  page_items :: "'a list"
  page_number :: int
  page_length :: int
  page_total :: nat

definition page_of :: "'a list \<Rightarrow> int \<Rightarrow> int \<Rightarrow> 'a page" where
  "page_of items page len =
     (let start = (page - 1) * len in
      \<lparr>page_items = slice_between start (start + len) items, page_number = page, page_length = len,
       page_total = length items\<rparr>)"

section \<open>Plans and executions\<close>

record mem_plan =
  mp_owner :: "string option"
  mp_execution_date :: string
  mp_quantity :: int
  mp_status :: string
  mp_version :: int
  mp_risk :: string
  mp_note :: "string option"

record mem_execution =
  mx_plan :: string
  mx_status :: string
  mx_quantity :: int
  mx_unfilled :: int

record mem_export =
  mq_report :: string
  mq_owner :: string
  mq_status :: string
  mq_token :: string
  mq_expires :: datetime

record mem_desk =
  mem_plans :: "(string, mem_plan) dict"
  mem_executions :: "(string, mem_execution) dict"
  mem_exports :: "(string, mem_export) dict"

definition mem_owned_plan :: "mem_desk \<Rightarrow> string \<Rightarrow> string \<Rightarrow> mem_plan option" where
  "mem_owned_plan s i owner = (case map_of (mem_plans s) i of
     None \<Rightarrow> None | Some p \<Rightarrow> if owned_by (mp_owner p) owner then Some p else None)"

definition mem_list_plans :: "mem_desk \<Rightarrow> date \<Rightarrow> int \<Rightarrow> int \<Rightarrow> string option \<Rightarrow> mem_plan page" where
  "mem_list_plans s d page len owner =
     page_of (filter (\<lambda>p. mp_execution_date p = isoformat d \<and>
         (case owner of None \<Rightarrow> True | Some o1 \<Rightarrow> owned_by (mp_owner p) o1)) (map snd (mem_plans s))) page len"

definition mem_confirm_plan ::
    "mem_desk \<Rightarrow> string \<Rightarrow> string \<Rightarrow> string \<Rightarrow> int \<Rightarrow> string \<Rightarrow> (mem_plan option) res \<times> mem_desk" where
  "mem_confirm_plan s i owner decision version note = (case mem_owned_plan s i owner of
     None \<Rightarrow> (Inr None, s)
   | Some p \<Rightarrow>
       if mp_version p \<noteq> version then (Inl (StateConflict ''plan version does not match''), s)
       else if mp_status p \<noteq> ''PENDING_CONFIRMATION''
       then (Inl (StateConflict ''plan is no longer awaiting confirmation''), s)
       else if mp_risk p \<in> {''STOP_NEW'', ''MANUAL_REVIEW''} \<and> decision = ''CONFIRM''
       then (Inl (RuleViolation ''risk state does not allow new positions''), s)
       else let p' = p\<lparr>mp_status := (if decision = ''CONFIRM'' then ''CONFIRMED'' else ''SKIPPED''),
                mp_version := mp_version p + 1, mp_note := Some note\<rparr>
            in (Inr (Some p'), s\<lparr>mem_plans := dict_set i p' (mem_plans s)\<rparr>))"

definition mem_create_execution ::
    "mem_desk \<Rightarrow> string \<Rightarrow> string \<Rightarrow> int \<Rightarrow> int \<Rightarrow> string \<Rightarrow> (mem_execution option) res \<times> mem_desk" where
  "mem_create_execution s i owner quantity unfilled new_id = (case mem_owned_plan s i owner of
     None \<Rightarrow> (Inr None, s)
   | Some p \<Rightarrow>
       if mp_status p \<notin> {''CONFIRMED'', ''PARTIALLY_FILLED''}
       then (Inl (StateConflict ''plan must be confirmed before recording execution''), s)
       else if quantity + unfilled \<noteq> mp_quantity p
       then (Inl (RuleViolation ''filled and unfilled quantities must equal planned quantity''), s)
       else let x = \<lparr>mx_plan = i, mx_status = fill_status unfilled, mx_quantity = quantity, mx_unfilled = unfilled\<rparr>
            in (Inr (Some x), s\<lparr>mem_executions := dict_set new_id x (mem_executions s),
                 mem_plans := dict_set i (p\<lparr>mp_status := fill_status unfilled\<rparr>) (mem_plans s)\<rparr>))"

section \<open>Exports\<close>

definition mem_create_export ::
    "mem_desk \<Rightarrow> string \<Rightarrow> string \<Rightarrow> string \<Rightarrow> string \<Rightarrow> datetime \<Rightarrow> mem_export \<times> mem_desk" where
  "mem_create_export s report owner new_id token now =
     (let x = \<lparr>mq_report = report, mq_owner = owner, mq_status = ''READY'', mq_token = token,
        mq_expires = now\<lparr>wall := wall now + 15 * 60 * 1000000\<rparr>\<rparr>
      in (x, s\<lparr>mem_exports := dict_set new_id x (mem_exports s)\<rparr>))"

definition mem_get_export :: "mem_desk \<Rightarrow> string \<Rightarrow> string option \<Rightarrow> mem_export option" where
  "mem_get_export s i owner = (case map_of (mem_exports s) i of
     None \<Rightarrow> None
   | Some x \<Rightarrow> (case owner of None \<Rightarrow> Some x | Some o1 \<Rightarrow> if mq_owner x = o1 then Some x else None))"

section \<open>The same contract, and where it is weaker\<close>

record mem_review =
  mr_plan :: string
  mr_owner :: string
  mr_decision :: string
  mr_version :: int
  mr_text :: string

record mem_fill =
  mf_plan :: string
  mf_owner :: string
  mf_quantity :: int
  mf_unfilled :: int
  mf_id :: string

definition mem_review_step :: "mem_desk \<Rightarrow> mem_review \<Rightarrow> bool \<times> mem_desk" where
  "mem_review_step s c = (case mem_confirm_plan s (mr_plan c) (mr_owner c) (mr_decision c) (mr_version c) (mr_text c) of
     (Inr (Some p), s') \<Rightarrow> (True, s') | (r, s') \<Rightarrow> (False, s'))"

definition mem_fill_step :: "mem_desk \<Rightarrow> mem_fill \<Rightarrow> bool \<times> mem_desk" where
  "mem_fill_step s x = (case mem_create_execution s (mf_plan x) (mf_owner x) (mf_quantity x) (mf_unfilled x) (mf_id x) of
     (Inr (Some p), s') \<Rightarrow> (True, s') | (r, s') \<Rightarrow> (False, s'))"

definition mem_status :: "mem_desk \<Rightarrow> string \<Rightarrow> string option" where
  "mem_status s i = map_option mp_status (map_of (mem_plans s) i)"

lemma mem_owned_Some:
  "mem_owned_plan s i owner = Some p \<Longrightarrow> map_of (mem_plans s) i = Some p"
  by (auto simp: mem_owned_plan_def split: option.splits if_splits)

interpretation memory_plans: plan_desk mem_review_step mem_fill_step mem_status mr_plan
    "\<lambda>c. mr_decision c = ''CONFIRM''" mf_plan
proof unfold_locales
  show "mem_status t' k = mem_status t k \<or> ok \<and> k = mr_plan c \<and> mem_status t k = Some ''PENDING_CONFIRMATION'' \<and>
      mem_status t' k = Some (if mr_decision c = ''CONFIRM'' then ''CONFIRMED'' else ''SKIPPED'')"
    if "mem_review_step t c = (ok, t')" for t c ok t' k
    using that by (auto simp: mem_review_step_def mem_confirm_plan_def mem_status_def Let_def dict_simps
        dest!: mem_owned_Some split: option.splits if_splits)
  show "mem_status t' k = mem_status t k \<or> ok \<and> k = mf_plan x \<and>
      mem_status t' k \<in> {Some ''FILLED'', Some ''PARTIALLY_FILLED''}"
    if "mem_fill_step t x = (ok, t')" for t x ok t' k
    using that by (auto simp: mem_fill_step_def mem_create_execution_def mem_status_def Let_def dict_simps fill_status_def
        dest!: mem_owned_Some split: option.splits if_splits)
  show "mem_status t (mf_plan x) \<in> {Some ''CONFIRMED'', Some ''PARTIALLY_FILLED''}"
    if "mem_fill_step t x = (True, t')" for t x t'
    using that by (auto simp: mem_fill_step_def mem_create_execution_def mem_status_def Let_def
        dest!: mem_owned_Some split: option.splits if_splits)
qed

definition mem_filled :: "mem_desk \<Rightarrow> string \<Rightarrow> int" where
  "mem_filled s i = sum_list (map (\<lambda>(k, x). mx_quantity x) (filter (\<lambda>(k, x). mx_plan x = i) (mem_executions s)))"

lemma mem_fill_recorded:
  assumes "mem_owned_plan s (mf_plan x) (mf_owner x) = Some p" and "mp_status p \<in> {''CONFIRMED'', ''PARTIALLY_FILLED''}"
    and "mf_quantity x + mf_unfilled x = mp_quantity p" and "mf_id x \<notin> fst ` set (mem_executions s)"
  obtains s' where "mem_fill_step s x = (True, s')" and "mem_filled s' (mf_plan x) = mem_filled s (mf_plan x) + mf_quantity x"
    and "mem_owned_plan s' (mf_plan x) (mf_owner x) = Some (p\<lparr>mp_status := fill_status (mf_unfilled x)\<rparr>)"
    and "fst ` set (mem_executions s') = insert (mf_id x) (fst ` set (mem_executions s))"
proof -
  let ?e = "\<lparr>mx_plan = mf_plan x, mx_status = fill_status (mf_unfilled x), mx_quantity = mf_quantity x,
    mx_unfilled = mf_unfilled x\<rparr>"
  let ?s = "s\<lparr>mem_executions := mem_executions s @ [(mf_id x, ?e)],
    mem_plans := dict_set (mf_plan x) (p\<lparr>mp_status := fill_status (mf_unfilled x)\<rparr>) (mem_plans s)\<rparr>"
  have owner: "owned_by (mp_owner p) (mf_owner x)" using assms(1) by (auto simp: mem_owned_plan_def split: option.splits if_splits)
  show thesis
  proof (rule that[of ?s])
    show "mem_fill_step s x = (True, ?s)"
      using assms by (auto simp: mem_fill_step_def mem_create_execution_def dict_set_new Let_def)
  qed (use owner in \<open>auto simp: mem_filled_def mem_owned_plan_def dict_simps\<close>)
qed

text \<open>
  The in-memory desk compares a fill with the whole planned quantity, not with what is left of it: after a
  partial fill it still accepts the whole plan again and so records more shares than were planned.
\<close>

theorem memory_desk_overfills:
  assumes "mem_owned_plan s (mf_plan x) (mf_owner x) = Some p" and "mp_status p \<in> {''CONFIRMED'', ''PARTIALLY_FILLED''}"
    and "mf_quantity x + mf_unfilled x = mp_quantity p" and "0 < mf_quantity x" and "0 < mf_unfilled x"
    and "mf_id x \<notin> fst ` set (mem_executions s)" and "j \<notin> insert (mf_id x) (fst ` set (mem_executions s))"
  shows "\<exists>s1 s2. mem_fill_step s x = (True, s1) \<and>
    mem_fill_step s1 (x\<lparr>mf_quantity := mp_quantity p, mf_unfilled := 0, mf_id := j\<rparr>) = (True, s2) \<and>
    mem_filled s2 (mf_plan x) = mem_filled s (mf_plan x) + mf_quantity x + mp_quantity p"
proof -
  obtain s1 where s1: "mem_fill_step s x = (True, s1)" "mem_filled s1 (mf_plan x) = mem_filled s (mf_plan x) + mf_quantity x"
    "mem_owned_plan s1 (mf_plan x) (mf_owner x) = Some (p\<lparr>mp_status := fill_status (mf_unfilled x)\<rparr>)"
    "fst ` set (mem_executions s1) = insert (mf_id x) (fst ` set (mem_executions s))"
    using mem_fill_recorded[OF assms(1,2,3,6)] by blast
  let ?y = "x\<lparr>mf_quantity := mp_quantity p, mf_unfilled := 0, mf_id := j\<rparr>"
  obtain s2 where "mem_fill_step s1 ?y = (True, s2)" "mem_filled s2 (mf_plan ?y) = mem_filled s1 (mf_plan ?y) + mf_quantity ?y"
    by (rule mem_fill_recorded[of s1 ?y "p\<lparr>mp_status := fill_status (mf_unfilled x)\<rparr>"])
      (use s1(3,4) assms(5,7) in \<open>auto simp: fill_status_def\<close>)
  then show ?thesis using s1(1,2) by auto
qed

definition sample_memory :: mem_desk where
  "sample_memory = \<lparr>mem_plans = [(''plan_001'', \<lparr>mp_owner = None, mp_execution_date = ''2026-09-04'', mp_quantity = 300,
     mp_status = ''CONFIRMED'', mp_version = 2, mp_risk = ''NORMAL'', mp_note = None\<rparr>)], mem_executions = [], mem_exports = []\<rparr>"

theorem memory_desk_overfills_witness:
  "\<exists>s1 s2 x y. mem_fill_step sample_memory x = (True, s1) \<and> mem_fill_step s1 y = (True, s2) \<and>
    mem_filled s2 ''plan_001'' = 400"
proof -
  let ?x = "\<lparr>mf_plan = ''plan_001'', mf_owner = ''u'', mf_quantity = 100, mf_unfilled = 200, mf_id = ''e1''\<rparr>"
  have "mem_owned_plan sample_memory (mf_plan ?x) (mf_owner ?x) = Some (snd (hd (mem_plans sample_memory)))"
    by (simp add: mem_owned_plan_def sample_memory_def owned_by_def)
  from memory_desk_overfills[OF this, of "''e2''"] show ?thesis
    by (auto simp: sample_memory_def mem_filled_def)
qed

end
