(* ===== verification/Json.thy ===== *)
theory Json
  imports IsoDates
begin

text \<open>
  JSON as the program writes and reads it: \<open>json.dumps(..., ensure_ascii=False)\<close> with its separators and
  indentation, \<open>sort_keys\<close>, and \<open>json.loads\<close>. A text is the list of the bytes of its UTF-8 form, so that
  writing a file keeps it and reading one back decodes it; a float is kept as the text of its number.
  Reading what was written gives the value with its keys sorted.
\<close>

section \<open>Values\<close>

datatype jv =
    JNull
  | JBool bool
  | JInt int
  | JReal string
  | JText string
  | JList "jv list"
  | JObj "(string \<times> jv) list"

abbreviation byte :: "char \<Rightarrow> nat" where "byte c \<equiv> of_char c"

definition quote_char :: char where "quote_char = CHR 0x22"
definition escape_char :: char where "escape_char = CHR 0x5C"

section \<open>Printing\<close>

text \<open>The item and key separators, and what comes before an item at a level of nesting.\<close>

record json_style =
  js_item :: string
  js_key :: string
  js_break :: "nat \<Rightarrow> string"

definition compact_style :: json_style where
  "compact_style = \<lparr>js_item = '','', js_key = '':'', js_break = (\<lambda>_. [])\<rparr>"

definition spaced_style :: json_style where
  "spaced_style = \<lparr>js_item = '', '', js_key = '': '', js_break = (\<lambda>_. [])\<rparr>"

definition indented_style :: json_style where
  "indented_style = \<lparr>js_item = '','', js_key = '': '', js_break = (\<lambda>l. CHR 0x0A # replicate (2 * l) CHR '' '')\<rparr>"

definition hex_digit :: "nat \<Rightarrow> char" where
  "hex_digit n = (if n < 10 then char_of (48 + n) else char_of (87 + n))"

definition escaped :: "char \<Rightarrow> string" where
  "escaped c = (if c = quote_char \<or> c = escape_char then [escape_char, c]
     else if byte c = 8 then [escape_char, CHR ''b''] else if byte c = 12 then [escape_char, CHR ''f'']
     else if byte c = 10 then [escape_char, CHR ''n''] else if byte c = 13 then [escape_char, CHR ''r'']
     else if byte c = 9 then [escape_char, CHR ''t'']
     else if byte c < 32 then [escape_char, CHR ''u'', CHR ''0'', CHR ''0'', hex_digit (byte c div 16), hex_digit (byte c mod 16)]
     else [c])"

definition quoted :: "string \<Rightarrow> string" where
  "quoted s = quote_char # concat (map escaped s) @ [quote_char]"

fun joined :: "string \<Rightarrow> string list \<Rightarrow> string" where
  "joined sep [] = []"
| "joined sep [x] = x"
| "joined sep (x # xs) = x @ sep @ joined sep xs"

fun dump :: "json_style \<Rightarrow> nat \<Rightarrow> jv \<Rightarrow> string" where
  "dump st l JNull = ''null''"
| "dump st l (JBool b) = (if b then ''true'' else ''false'')"
| "dump st l (JInt i) = int_str i"
| "dump st l (JReal t) = t"
| "dump st l (JText s) = quoted s"
| "dump st l (JList vs) = (if vs = [] then ''[]''
     else ''['' @ js_break st (Suc l) @ joined (js_item st @ js_break st (Suc l)) (map (dump st (Suc l)) vs)
       @ js_break st l @ '']'')"
| "dump st l (JObj kvs) = (if kvs = [] then ''{}''
     else ''{'' @ js_break st (Suc l)
       @ joined (js_item st @ js_break st (Suc l)) (map (\<lambda>kv. quoted (fst kv) @ js_key st @ dump st (Suc l) (snd kv)) kvs)
       @ js_break st l @ ''}'')"

text \<open>\<open>sort_keys=True\<close>.\<close>

fun sort_keys :: "jv \<Rightarrow> jv" where
  "sort_keys (JList vs) = JList (map sort_keys vs)"
| "sort_keys (JObj kvs) = JObj (sort_key fst (map (\<lambda>kv. (fst kv, sort_keys (snd kv))) kvs))"
| "sort_keys v = v"

definition dumps :: "json_style \<Rightarrow> jv \<Rightarrow> string" where
  "dumps st v = dump st 0 (sort_keys v)"

section \<open>Reading\<close>

definition json_space :: "char \<Rightarrow> bool" where
  "json_space c \<longleftrightarrow> byte c \<in> {32, 9, 10, 13}"

abbreviation skip :: "string \<Rightarrow> string" where "skip s \<equiv> dropWhile json_space s"

definition hex_value :: "char \<Rightarrow> nat option" where
  "hex_value c = (if 48 \<le> byte c \<and> byte c \<le> 57 then Some (byte c - 48)
     else if 97 \<le> byte c \<and> byte c \<le> 102 then Some (byte c - 87)
     else if 65 \<le> byte c \<and> byte c \<le> 70 then Some (byte c - 55) else None)"

fun hex4 :: "string \<Rightarrow> (nat \<times> string) option" where
  "hex4 (a # b # c # d # r) = (case (hex_value a, hex_value b, hex_value c, hex_value d) of
     (Some w, Some x, Some y, Some z) \<Rightarrow> Some (4096 * w + 256 * x + 16 * y + z, r) | _ \<Rightarrow> None)"
| "hex4 s = None"

definition utf8_of :: "nat \<Rightarrow> string" where
  "utf8_of n = (if n < 128 then [char_of n]
     else if n < 2048 then [char_of (192 + n div 64), char_of (128 + n mod 64)]
     else if n < 65536 then [char_of (224 + n div 4096), char_of (128 + n div 64 mod 64), char_of (128 + n mod 64)]
     else [char_of (240 + n div 262144), char_of (128 + n div 4096 mod 64), char_of (128 + n div 64 mod 64),
       char_of (128 + n mod 64)])"

text \<open>\<open>\uXXXX\<close>, with the second half of a surrogate pair when it follows.\<close>

definition unicode_escape :: "string \<Rightarrow> (string \<times> string) option" where
  "unicode_escape s = (case hex4 s of
     None \<Rightarrow> None
   | Some (n, r) \<Rightarrow>
       if 55296 \<le> n \<and> n \<le> 56319 \<and> take 2 r = [escape_char, CHR ''u'']
       then (case hex4 (drop 2 r) of
           None \<Rightarrow> None
         | Some (k, r') \<Rightarrow> if 56320 \<le> k \<and> k \<le> 57343 then Some (utf8_of (65536 + (n - 55296) * 1024 + (k - 56320)), r')
             else Some (utf8_of n, r))
       else Some (utf8_of n, r))"

definition simple_escape :: "char \<Rightarrow> char option" where
  "simple_escape e = (if e = quote_char \<or> e = escape_char \<or> e = CHR ''/'' then Some e
     else if e = CHR ''b'' then Some (CHR 0x08) else if e = CHR ''f'' then Some (CHR 0x0C)
     else if e = CHR ''n'' then Some (CHR 0x0A) else if e = CHR ''r'' then Some (CHR 0x0D)
     else if e = CHR ''t'' then Some (CHR 0x09) else None)"

lemma hex4_shorter: "hex4 s = Some (n, r) \<Longrightarrow> length r < length s"
  by (induction s rule: hex4.induct) (auto split: option.splits prod.splits)

lemma unicode_escape_shorter: "unicode_escape s = Some (t, r) \<Longrightarrow> length r < length s"
  by (auto simp: unicode_escape_def split: option.splits if_splits prod.splits dest!: hex4_shorter)

function read_text :: "string \<Rightarrow> (string \<times> string) option" where
  "read_text [] = None"
| "read_text (c # r) =
     (if c = quote_char then Some ([], r)
      else if c = escape_char then
        (case r of
           [] \<Rightarrow> None
         | e # r' \<Rightarrow>
             if e = CHR ''u'' then (case unicode_escape r' of
                 None \<Rightarrow> None | Some (t, r'') \<Rightarrow> map_option (apfst (append t)) (read_text r''))
             else (case simple_escape e of None \<Rightarrow> None | Some d \<Rightarrow> map_option (apfst (Cons d)) (read_text r')))
      else if byte c < 32 then None
      else map_option (apfst (Cons c)) (read_text r))"
  by pat_completeness auto

termination by (relation "measure length") (auto dest: unicode_escape_shorter)

text \<open>A number: its sign and whole part, then a fraction and an exponent when digits follow.\<close>

definition whole_token :: "string \<Rightarrow> (string \<times> string) option" where
  "whole_token s =
     (let sgn = (if take 1 s = ''-'' then ''-'' else []); r = drop (length sgn) s; ds = takeWhile is_digit r;
          n = (if take 1 ds = ''0'' then 1 else length ds)
      in if ds = [] then None else Some (sgn @ take n ds, drop n r))"

definition fraction_token :: "string \<Rightarrow> string \<times> string" where
  "fraction_token s = (let ds = takeWhile is_digit (drop 1 s) in
     if take 1 s = ''.'' \<and> ds \<noteq> [] then (''.'' @ ds, drop (Suc (length ds)) s) else ([], s))"

definition exponent_token :: "string \<Rightarrow> string \<times> string" where
  "exponent_token s =
     (let k = (if take 1 (drop 1 s) \<in> {''+'', ''-''} then 2 else 1); ds = takeWhile is_digit (drop k s) in
      if take 1 s \<in> {''e'', ''E''} \<and> ds \<noteq> [] then (take k s @ ds, drop (k + length ds) s) else ([], s))"

definition int_value :: "string \<Rightarrow> int" where
  "int_value t = (if take 1 t = ''-'' then - int (digits_value (drop 1 t)) else int (digits_value t))"

definition read_number :: "string \<Rightarrow> (jv \<times> string) option" where
  "read_number s = (case whole_token s of
     None \<Rightarrow> None
   | Some (w, r) \<Rightarrow> (case fraction_token r of (f, r1) \<Rightarrow> (case exponent_token r1 of (e, r2) \<Rightarrow>
       Some (if f = [] \<and> e = [] then JInt (int_value w) else JReal (w @ f @ e), r2))))"

definition words_of_json :: "(string \<times> jv) list" where
  "words_of_json = [(''null'', JNull), (''true'', JBool True), (''false'', JBool False), (''NaN'', JReal ''NaN''),
     (''Infinity'', JReal ''Infinity''), (''-Infinity'', JReal ''-Infinity'')]"

definition read_word :: "string \<Rightarrow> (jv \<times> string) option" where
  "read_word s = (case List.find (\<lambda>w. take (length (fst w)) s = fst w) words_of_json of
     None \<Rightarrow> read_number s | Some w \<Rightarrow> Some (snd w, drop (length (fst w)) s))"

text \<open>The value of a later key replaces that of an equal earlier one.\<close>

definition object_of :: "(string \<times> jv) list \<Rightarrow> jv" where
  "object_of kvs = JObj (foldl (\<lambda>d kv. dict_set (fst kv) (snd kv) d) [] kvs)"

text \<open>The fuel bounds the nesting of calls; the length of the text is enough of it.\<close>

fun read_value :: "nat \<Rightarrow> string \<Rightarrow> (jv \<times> string) option"
and read_items :: "nat \<Rightarrow> string \<Rightarrow> (jv list \<times> string) option"
and read_members :: "nat \<Rightarrow> string \<Rightarrow> ((string \<times> jv) list \<times> string) option" where
  "read_value 0 s = None"
| "read_value (Suc n) s =
     (if take 1 s = [quote_char] then map_option (apfst JText) (read_text (drop 1 s))
      else if take 1 s = ''{'' then
        (if take 1 (skip (drop 1 s)) = ''}'' then Some (JObj [], drop 1 (skip (drop 1 s)))
         else map_option (apfst object_of) (read_members n (skip (drop 1 s))))
      else if take 1 s = ''['' then
        (if take 1 (skip (drop 1 s)) = '']'' then Some (JList [], drop 1 (skip (drop 1 s)))
         else map_option (apfst JList) (read_items n (skip (drop 1 s))))
      else read_word s)"
| "read_items 0 s = None"
| "read_items (Suc n) s = (case read_value n s of
     None \<Rightarrow> None
   | Some (v, r) \<Rightarrow>
       if take 1 (skip r) = '']'' then Some ([v], drop 1 (skip r))
       else if take 1 (skip r) = '','' then map_option (apfst (Cons v)) (read_items n (skip (drop 1 (skip r))))
       else None)"
| "read_members 0 s = None"
| "read_members (Suc n) s = (if take 1 s \<noteq> [quote_char] then None else case read_text (drop 1 s) of
     None \<Rightarrow> None
   | Some (k, r) \<Rightarrow>
       if take 1 (skip r) \<noteq> '':'' then None
       else (case read_value n (skip (drop 1 (skip r))) of
           None \<Rightarrow> None
         | Some (v, r') \<Rightarrow>
             if take 1 (skip r') = ''}'' then Some ([(k, v)], drop 1 (skip r'))
             else if take 1 (skip r') = '','' then map_option (apfst (Cons (k, v))) (read_members n (skip (drop 1 (skip r'))))
             else None))"

text \<open>\<open>json.loads\<close>; \<open>None\<close> is a \<open>JSONDecodeError\<close>.\<close>

definition loads :: "string \<Rightarrow> jv option" where
  "loads s = (case read_value (Suc (length s)) (skip s) of
     None \<Rightarrow> None | Some (v, r) \<Rightarrow> if skip r = [] then Some v else None)"

section \<open>Reading back what was written\<close>

definition spaces :: "string \<Rightarrow> bool" where "spaces s \<longleftrightarrow> list_all json_space s"

definition style_ok :: "json_style \<Rightarrow> bool" where
  "style_ok st \<longleftrightarrow> take 1 (js_item st) = '','' \<and> spaces (drop 1 (js_item st)) \<and>
     take 1 (js_key st) = '':'' \<and> spaces (drop 1 (js_key st)) \<and> (\<forall>l. spaces (js_break st l))"

lemma style_ok_styles: "style_ok compact_style" "style_ok spaced_style" "style_ok indented_style"
  by (auto simp: style_ok_def compact_style_def spaced_style_def indented_style_def spaces_def json_space_def list_all_iff)

text \<open>Values without floats whose objects have each key once.\<close>

fun json_ok :: "jv \<Rightarrow> bool" where
  "json_ok (JReal t) = False"
| "json_ok (JList vs) = list_all json_ok vs"
| "json_ok (JObj kvs) = (distinct (map fst kvs) \<and> list_all (\<lambda>kv. json_ok (snd kv)) kvs)"
| "json_ok v = True"

text \<open>What may follow a value.\<close>

definition ends :: "string \<Rightarrow> bool" where
  "ends r \<longleftrightarrow> (case r of [] \<Rightarrow> True | c # t \<Rightarrow> json_space c \<or> c \<in> {CHR '','', CHR '']'', CHR ''}''})"

lemma skip_spaces [simp]: "spaces a \<Longrightarrow> skip (a @ s) = skip s"
  by (induction a) (auto simp: spaces_def)

lemma skip_stop [simp]: "\<not> json_space c \<Longrightarrow> skip (c # s) = c # s"
  by simp

lemma hex_value_digit: "n < 16 \<Longrightarrow> hex_value (hex_digit n) = Some n"
  by (auto simp: hex_value_def hex_digit_def)

lemma hex_value_zero: "hex_value CHR ''0'' = Some 0" by (simp add: hex_value_def)

lemma read_control:
  assumes "byte c < 32"
  shows "read_text ([escape_char, CHR ''u'', CHR ''0'', CHR ''0'', hex_digit (byte c div 16), hex_digit (byte c mod 16)] @ s)
    = map_option (apfst (Cons c)) (read_text s)"
proof -
  have "hex4 ([CHR ''0'', CHR ''0'', hex_digit (byte c div 16), hex_digit (byte c mod 16)] @ s) = Some (byte c, s)"
    using assms by (simp add: hex_value_digit hex_value_zero)
  then have "unicode_escape ([CHR ''0'', CHR ''0'', hex_digit (byte c div 16), hex_digit (byte c mod 16)] @ s) = Some ([c], s)"
    using assms by (simp add: unicode_escape_def utf8_of_def)
  then show ?thesis by (simp add: escape_char_def quote_char_def apfst_def map_prod_def append_def option.map_comp comp_def)
qed

lemma control_chars:
  "char_of (8::nat) = CHR 0x08" "char_of (9::nat) = CHR 0x09" "char_of (10::nat) = CHR 0x0A"
  "char_of (12::nat) = CHR 0x0C" "char_of (13::nat) = CHR 0x0D"
  by code_simp+

lemma read_escaped: "read_text (escaped c @ s) = map_option (apfst (Cons c)) (read_text s)"
proof (cases "c = quote_char \<or> c = escape_char \<or> byte c \<in> {8, 9, 10, 12, 13}")
  case True
  then consider "c = quote_char" | "c = escape_char" | "c = CHR 0x08" | "c = CHR 0x09" | "c = CHR 0x0A"
    | "c = CHR 0x0C" | "c = CHR 0x0D" by (metis char_of_char insert_iff empty_iff control_chars)
  then show ?thesis by cases (simp_all add: escaped_def quote_char_def escape_char_def simple_escape_def)
next
  case False
  then show ?thesis
  proof (cases "byte c < 32")
    case True
    then have "escaped c = [escape_char, CHR ''u'', CHR ''0'', CHR ''0'', hex_digit (byte c div 16), hex_digit (byte c mod 16)]"
      using False by (simp add: escaped_def)
    then show ?thesis using read_control[OF True] by simp
  qed (simp add: escaped_def)
qed

lemma read_quoted: "read_text (concat (map escaped s) @ quote_char # r) = Some (s, r)"
  by (induction s) (simp_all add: read_escaped)

lemma take_digits_append:
  assumes "list_all is_digit ds" and "ends r"
  shows "takeWhile is_digit (ds @ r) = ds" and "fraction_token r = ([], r)" and "exponent_token r = ([], r)"
proof -
  have "takeWhile is_digit r = []"
    using assms(2) by (cases r) (auto simp: ends_def is_digit_def json_space_def)
  then show "takeWhile is_digit (ds @ r) = ds" using assms(1) by (simp add: takeWhile_append2 list_all_iff)
  show "fraction_token r = ([], r)" "exponent_token r = ([], r)"
    using assms(2) by (cases r; auto simp: ends_def fraction_token_def exponent_token_def json_space_def Let_def)+
qed

lemma nat_str_head: "\<exists>c t. nat_str n = c # t \<and> (c = CHR ''0'' \<longleftrightarrow> n = 0) \<and> (n = 0 \<longrightarrow> t = [])"
proof (induction n rule: nat_str.induct)
  case (1 n)
  show ?case
  proof (cases "n < 10")
    case True
    have "digit_char n = CHR ''0'' \<longleftrightarrow> byte (digit_char n) = byte CHR ''0''" by (simp only: of_char_eq_iff)
    then show ?thesis using True of_char_digit_char[of n] by (auto simp: nat_str_small)
  next
    case False
    obtain c t where "nat_str (n div 10) = c # t" "c = CHR ''0'' \<longleftrightarrow> n div 10 = 0"
      using 1[OF False] by (elim exE conjE) (rule that)
    moreover have "n \<noteq> 0" "n div 10 \<noteq> 0" using False by auto
    ultimately show ?thesis using False by (simp add: nat_str_step)
  qed
qed

lemma whole_nat:
  assumes "ends r"
  shows "whole_token (nat_str n @ r) = Some (nat_str n, r)"
    and "whole_token (CHR ''-'' # nat_str n @ r) = Some (CHR ''-'' # nat_str n, r)"
proof -
  obtain c t where c: "nat_str n = c # t" "c = CHR ''0'' \<longleftrightarrow> n = 0" "n = 0 \<longrightarrow> t = []" using nat_str_head by blast
  have "is_digit c" using nat_str_digits[of n] c(1) by simp
  then have "c \<noteq> CHR ''-''" by (auto simp: is_digit_def)
  then show "whole_token (nat_str n @ r) = Some (nat_str n, r)"
    and "whole_token (CHR ''-'' # nat_str n @ r) = Some (CHR ''-'' # nat_str n, r)"
    using c take_digits_append(1)[OF nat_str_digits assms, of n] by (auto simp: whole_token_def Let_def)
qed

lemma read_int:
  assumes "ends r"
  shows "read_number (int_str i @ r) = Some (JInt i, r)"
proof (cases "i < 0")
  case True
  then show ?thesis using assms
    by (simp add: int_str_def read_number_def whole_nat take_digits_append(2,3)[of "[]"] int_value_def digits_value_nat_str)
next
  case False
  obtain c t where c: "nat_str (nat i) = c # t" using nat_str_head by blast
  have "is_digit c" using nat_str_digits[of "nat i"] c by simp
  then have "int_value (nat_str (nat i)) = i"
    using False digits_value_nat_str[of "nat i"] by (auto simp: int_value_def c is_digit_def)
  then show ?thesis using False assms by (simp add: int_str_def read_number_def whole_nat take_digits_append(2,3)[of "[]"])
qed

lemma int_str_head:
  obtains c t where "int_str i = c # t" "is_digit c"
  | d u where "int_str i = CHR ''-'' # d # u" "is_digit d"
proof -
  obtain c t where c: "nat_str (nat \<bar>i\<bar>) = c # t" using nat_str_head by blast
  have d: "is_digit c" using nat_str_digits[of "nat \<bar>i\<bar>"] c by simp
  show thesis
  proof (cases "i < 0")
    case True
    then show thesis using that(2)[of c t] c d by (simp add: int_str_def)
  next
    case False
    then show thesis using that(1)[of c t] c d by (simp add: int_str_def)
  qed
qed

lemma other_head: "w \<noteq> [] \<Longrightarrow> hd w \<noteq> c \<Longrightarrow> take (length w) (c # s) \<noteq> w"
  by (cases w) auto

lemma word_heads:
  assumes "w \<in> set words_of_json"
  shows "fst w \<noteq> []" and "\<not> is_digit (hd (fst w))" and "hd (fst w) = CHR ''-'' \<Longrightarrow> fst w = ''-Infinity''"
  using assms by (auto simp: words_of_json_def is_digit_def)

lemma read_word_int:
  assumes "ends r"
  shows "read_word (int_str i @ r) = Some (JInt i, r)"
proof -
  have "take (length (fst w)) (int_str i @ r) \<noteq> fst w" if w: "w \<in> set words_of_json" for w
  proof (cases i rule: int_str_head)
    case (1 c t)
    then have "hd (fst w) \<noteq> c" using word_heads(2)[OF w] by auto
    then show ?thesis using other_head[OF word_heads(1)[OF w]] 1(1) by simp
  next
    case (2 d u)
    show ?thesis
    proof (cases "hd (fst w) = CHR ''-''")
      case True
      have "take (length ''Infinity'') (d # u @ r) \<noteq> ''Infinity''"
        by (rule other_head) (use 2(2) in \<open>auto simp: is_digit_def\<close>)
      then show ?thesis using word_heads(3)[OF w True] 2(1) by simp
    qed (use other_head[OF word_heads(1)[OF w]] 2(1) in simp)
  qed
  then have "List.find (\<lambda>w. take (length (fst w)) (int_str i @ r) = fst w) words_of_json = None"
    by (simp only: find_None_iff) blast
  then show ?thesis using read_int[OF assms] by (simp add: read_word_def)
qed

text \<open>The first character of a value is no space and closes nothing.\<close>

lemma dump_head:
  assumes "json_ok v"
  shows "\<exists>c t. dump st l v = c # t \<and> \<not> json_space c \<and> c \<noteq> CHR '']'' \<and> c \<noteq> CHR ''}''"
proof (cases v)
  case (JInt i)
  then show ?thesis by (cases i rule: int_str_head) (auto simp: is_digit_def json_space_def)
qed (use assms in \<open>auto simp: json_space_def quoted_def quote_char_def\<close>)

lemma joined_Cons: "joined sep (x # xs) = (if xs = [] then x else x @ sep @ joined sep xs)"
  by (cases xs) auto

lemma ends_closing [simp]: "ends (CHR '']'' # r)" "ends (CHR ''}'' # r)" "ends (CHR '','' # r)" "ends []"
  by (simp_all add: ends_def)

lemma ends_spaces: "spaces a \<Longrightarrow> ends r \<Longrightarrow> ends (a @ r)"
  by (cases a) (auto simp: ends_def spaces_def)

lemma style_item:
  assumes "style_ok st"
  obtains a b where "js_item st = CHR '','' # a" "spaces a" "js_key st = CHR '':'' # b" "spaces b"
  using assms that by (cases "js_item st"; cases "js_key st") (auto simp: style_ok_def)

lemma style_break [simp]: "style_ok st \<Longrightarrow> spaces (js_break st l)"
  by (simp add: style_ok_def)

lemma spaces_append [simp]: "spaces (a @ b) \<longleftrightarrow> spaces a \<and> spaces b"
  by (simp add: spaces_def)

lemma skip_dump:
  assumes "json_ok v"
  shows "skip (dump st l v @ r) = dump st l v @ r"
  using dump_head[OF assms, of st l] by (elim exE conjE) simp

text \<open>What reading a value does in front of any rest that may follow one.\<close>

definition reads_back :: "json_style \<Rightarrow> nat \<Rightarrow> jv \<Rightarrow> bool" where
  "reads_back st l v \<longleftrightarrow>
     (\<forall>n r. length (dump st l v) < n \<longrightarrow> ends r \<longrightarrow> read_value n (dump st l v @ r) = Some (v, r))"

lemma read_items_back:
  assumes "style_ok st" and "vs \<noteq> []" and "\<forall>v\<in>set vs. json_ok v \<and> reads_back st l v"
    and "length (joined (js_item st @ js_break st l) (map (dump st l) vs)) + 1 < n" and "spaces a"
  shows "read_items n (joined (js_item st @ js_break st l) (map (dump st l) vs) @ a @ CHR '']'' # r) = Some (vs, r)"
  using assms(2-4)
proof (induction vs arbitrary: n)
  case (Cons v vs)
  obtain b b' where item: "js_item st = CHR '','' # b" "spaces b" using style_item[OF assms(1)] by metis
  obtain m where n: "n = Suc m" using Cons.prems(3) by (cases n) auto
  let ?rest = "joined (js_item st @ js_break st l) (map (dump st l) vs)"
  have rd: "read_value m (dump st l v @ s) = Some (v, s)" if "ends s" for s
    using Cons.prems(2,3) that n by (auto simp: reads_back_def joined_Cons split: if_splits)
  show ?case
  proof (cases "vs = []")
    case True
    then show ?thesis using rd[of "a @ CHR '']'' # r"] assms(5) n by (simp add: ends_spaces json_space_def)
  next
    case False
    have "read_items m (?rest @ a @ CHR '']'' # r) = Some (vs, r)"
      using Cons.IH[OF False] Cons.prems(2,3) n item(1) False by (auto simp: joined_Cons)
    moreover obtain w ws where w: "vs = w # ws" using False by (cases vs) auto
    have "skip (?rest @ a @ CHR '']'' # r) = ?rest @ a @ CHR '']'' # r"
      using Cons.prems(2) w by (cases ws) (simp_all add: skip_dump joined_Cons)
    ultimately show ?thesis
      using rd[of "js_item st @ js_break st l @ ?rest @ a @ CHR '']'' # r"] item False n assms(1)
      by (simp add: joined_Cons json_space_def apfst_def)
  qed
qed simp

abbreviation member_text :: "json_style \<Rightarrow> nat \<Rightarrow> string \<times> jv \<Rightarrow> string" where
  "member_text st l kv \<equiv> quoted (fst kv) @ js_key st @ dump st l (snd kv)"

lemma read_member:
  assumes "style_ok st" and "json_ok v" and "reads_back st l v" and "length (member_text st l (k, v)) < n" and "ends r"
  shows "take 1 (member_text st l (k, v) @ r) = [quote_char]"
    and "read_text (drop 1 (member_text st l (k, v) @ r)) = Some (k, js_key st @ dump st l v @ r)"
    and "take 1 (skip (js_key st @ dump st l v @ r)) = '':''"
    and "read_value n (skip (drop 1 (skip (js_key st @ dump st l v @ r)))) = Some (v, r)"
proof -
  obtain b where key: "js_key st = CHR '':'' # b" "spaces b" using style_item[OF assms(1)] by metis
  show "take 1 (member_text st l (k, v) @ r) = [quote_char]" by (simp add: quoted_def)
  show "read_text (drop 1 (member_text st l (k, v) @ r)) = Some (k, js_key st @ dump st l v @ r)"
    by (simp add: quoted_def read_quoted)
  show "take 1 (skip (js_key st @ dump st l v @ r)) = '':''" by (simp add: key json_space_def)
  have "length (dump st l v) < n" using assms(4) by simp
  then show "read_value n (skip (drop 1 (skip (js_key st @ dump st l v @ r)))) = Some (v, r)"
    using assms(2,3,5) key by (simp add: json_space_def skip_dump reads_back_def)
qed

lemma read_members_back:
  assumes "style_ok st" and "kvs \<noteq> []" and "\<forall>kv\<in>set kvs. json_ok (snd kv) \<and> reads_back st l (snd kv)"
    and "length (joined (js_item st @ js_break st l) (map (member_text st l) kvs)) + 1 < n" and "spaces a"
  shows "read_members n (joined (js_item st @ js_break st l) (map (member_text st l) kvs) @ a @ CHR ''}'' # r) = Some (kvs, r)"
  using assms(2-4)
proof (induction kvs arbitrary: n)
  case (Cons kv kvs)
  obtain k v where kv: "kv = (k, v)" by (cases kv)
  obtain b where item: "js_item st = CHR '','' # b" "spaces b" using style_item[OF assms(1)] by metis
  obtain m where n: "n = Suc m" using Cons.prems(3) by (cases n) auto
  let ?rest = "joined (js_item st @ js_break st l) (map (member_text st l) kvs)"
  have len: "length (member_text st l (k, v)) < m" using Cons.prems(3) n kv by (auto simp: joined_Cons split: if_splits)
  have v: "json_ok v" "reads_back st l v" using Cons.prems(2) kv by auto
  note rd = read_member[OF assms(1) v len]
  show ?case
  proof (cases "kvs = []")
    case True
    have e: "ends (a @ CHR ''}'' # r)" using assms(5) by (simp add: ends_spaces)
    have "read_members n (member_text st l (k, v) @ a @ CHR ''}'' # r) = Some ([(k, v)], r)"
      unfolding n read_members.simps rd(1)[OF e] using rd(2-4)[OF e] assms(5) by (simp add: json_space_def)
    then show ?thesis using True kv by simp
  next
    case False
    have rest: "read_members m (?rest @ a @ CHR ''}'' # r) = Some (kvs, r)"
      using Cons.IH[OF False] Cons.prems(2,3) n item(1) False by (auto simp: joined_Cons)
    have e: "ends (js_item st @ js_break st l @ ?rest @ a @ CHR ''}'' # r)" by (simp add: item)
    have "skip (?rest @ a @ CHR ''}'' # r) = ?rest @ a @ CHR ''}'' # r"
      using False by (cases kvs) (simp_all add: joined_Cons quoted_def quote_char_def json_space_def)
    then have "read_members n (member_text st l (k, v) @ js_item st @ js_break st l @ ?rest @ a @ CHR ''}'' # r) = Some ((k, v) # kvs, r)"
      unfolding n read_members.simps rd(1)[OF e] using rd(2-4)[OF e] rest item assms(1) by (simp add: json_space_def apfst_def)
    then show ?thesis using False kv by (simp add: joined_Cons)
  qed
qed simp

lemma object_of_distinct: "distinct (map fst kvs) \<Longrightarrow> object_of kvs = JObj kvs"
proof -
  assume "distinct (map fst kvs)"
  then have "foldl (\<lambda>d kv. dict_set (fst kv) (snd kv) d) [] kvs = kvs"
    by (induction kvs rule: rev_induct) (auto simp: dict_set_new)
  then show ?thesis by (simp add: object_of_def)
qed

lemma reads_backI:
  assumes "\<And>n r. length (dump st l v) \<le> n \<Longrightarrow> ends r \<Longrightarrow> read_value (Suc n) (dump st l v @ r) = Some (v, r)"
  shows "reads_back st l v"
  unfolding reads_back_def
proof (intro allI impI)
  fix n r
  assume "length (dump st l v) < n" and "ends r"
  then show "read_value n (dump st l v @ r) = Some (v, r)" using assms[of "n - 1" r] by (cases n) auto
qed

lemma items_head:
  assumes "json_ok v"
  obtains c t where "joined sep (map (dump st l) (v # vs)) = c # t" "\<not> json_space c" "c \<noteq> CHR '']''"
proof -
  obtain c t where "dump st l v = c # t" "\<not> json_space c" "c \<noteq> CHR '']''"
    using dump_head[OF assms, of st l] by (elim exE conjE) (rule that)
  then show thesis using that[of c] by (cases "vs = []") (simp_all add: joined_Cons)
qed

lemma members_head:
  assumes "kvs \<noteq> []"
  obtains t where "joined sep (map (member_text st l) kvs) = quote_char # t"
proof -
  obtain kv kvs' where "kvs = kv # kvs'" using assms by (cases kvs) auto
  then show thesis using that by (cases "kvs' = []") (simp_all add: joined_Cons quoted_def)
qed

lemma dump_reads_back:
  assumes "style_ok st"
  shows "json_ok v \<Longrightarrow> reads_back st l v"
proof (induction v arbitrary: l)
  case (JInt i)
  have "read_value (Suc n) (int_str i @ r) = read_word (int_str i @ r)" for n r
    by (cases i rule: int_str_head) (auto simp: is_digit_def quote_char_def)
  then show ?case by (intro reads_backI) (simp add: read_word_int)
next
  case (JText s)
  show ?case by (intro reads_backI) (simp add: quoted_def read_quoted)
next
  case (JList vs)
  show ?case
  proof (cases "vs = []")
    case False
    let ?items = "joined (js_item st @ js_break st (Suc l)) (map (dump st (Suc l)) vs)"
    have ok: "\<forall>v\<in>set vs. json_ok v \<and> reads_back st (Suc l) v" using JList by (auto simp: list_all_iff)
    obtain v ws where vs: "vs = v # ws" using False by (cases vs) auto
    obtain c t where c: "?items = c # t" "\<not> json_space c" "c \<noteq> CHR '']''"
      using items_head[of v "js_item st @ js_break st (Suc l)" st "Suc l" ws] ok vs by auto
    show ?thesis
    proof (rule reads_backI)
      fix n r
      assume "length (dump st l (JList vs)) \<le> n"
      then have "read_items n (?items @ js_break st l @ CHR '']'' # r) = Some (vs, r)"
        using False by (intro read_items_back[OF assms False ok]) (simp_all add: assms)
      then show "read_value (Suc n) (dump st l (JList vs) @ r) = Some (JList vs, r)"
        using False c assms by (simp add: quote_char_def apfst_def)
    qed
  qed (auto intro!: reads_backI simp: quote_char_def json_space_def)
next
  case (JObj kvs)
  show ?case
  proof (cases "kvs = []")
    case False
    let ?items = "joined (js_item st @ js_break st (Suc l)) (map (member_text st (Suc l)) kvs)"
    have ok: "\<forall>kv\<in>set kvs. json_ok (snd kv) \<and> reads_back st (Suc l) (snd kv)"
      using JObj by (auto simp: list_all_iff snds.simps)
    obtain t where c: "?items = quote_char # t"
      by (rule members_head[OF False])
    show ?thesis
    proof (rule reads_backI)
      fix n r
      assume "length (dump st l (JObj kvs)) \<le> n"
      then have "read_members n (?items @ js_break st l @ CHR ''}'' # r) = Some (kvs, r)"
        using False by (intro read_members_back[OF assms False ok]) (simp_all add: assms)
      then show "read_value (Suc n) (dump st l (JObj kvs) @ r) = Some (JObj kvs, r)"
        using False c assms JObj(2) by (simp add: quote_char_def apfst_def object_of_distinct json_space_def)
    qed
  qed (auto intro!: reads_backI simp: quote_char_def object_of_def json_space_def)
qed (auto intro!: reads_backI simp: quote_char_def read_word_def words_of_json_def)

lemma json_ok_sort_keys: "json_ok v \<Longrightarrow> json_ok (sort_keys v)"
proof (induction v rule: sort_keys.induct)
  case (2 kvs)
  have "distinct (map fst (sort_key fst (map (\<lambda>kv. (fst kv, sort_keys (snd kv))) kvs)))"
    using 2(2) by (simp add: distinct_map[of fst "sort_key fst _"] distinct_map comp_def) (auto simp: distinct_map inj_on_def)
  then show ?case using 2 by (auto simp: list_all_iff)
qed (auto simp: list_all_iff)

lemma loads_dump:
  assumes "style_ok st" and "json_ok v" and "spaces a"
  shows "loads (dump st 0 v @ a) = Some v"
proof -
  have "skip a = []" using assms(3) by (simp add: spaces_def dropWhile_eq_Nil_conv list_all_iff)
  moreover have "ends a" using ends_spaces[OF assms(3), of "[]"] by simp
  then have "read_value (Suc (length (dump st 0 v @ a))) (dump st 0 v @ a) = Some (v, a)"
    using dump_reads_back[OF assms(1,2), of 0] by (simp add: reads_back_def del: read_value.simps)
  ultimately show ?thesis by (simp add: loads_def skip_dump[OF assms(2)] del: read_value.simps)
qed

lemma loads_dumps:
  "style_ok st \<Longrightarrow> json_ok v \<Longrightarrow> spaces a \<Longrightarrow> loads (dumps st v @ a) = Some (sort_keys v)"
  by (simp add: dumps_def loads_dump json_ok_sort_keys)

end
