(* ===== verification/Redaction.thy ===== *)
theory Redaction
  imports Json "HOL-Library.Sublist"
begin

text \<open>
  Removing credentials from what is archived: \<open>redact_secrets\<close> of
  \<open>app/infrastructure/providers/raw_archive.py\<close> and the equal \<open>_redact\<close> of
  \<open>app/infrastructure/ifind/raw_archive.py\<close>, over JSON values, with \<open>str.replace\<close>.
\<close>

section \<open>Replacing credentials\<close>

text \<open>\<open>s.replace(old, new)\<close> for a non-empty \<open>old\<close>: leftmost occurrences that do not overlap.\<close>

function replace_all :: "string \<Rightarrow> string \<Rightarrow> string \<Rightarrow> string" where
  "replace_all old new [] = []"
| "replace_all old new (c # cs) =
     (if old \<noteq> [] \<and> starts_with old (c # cs) then new @ replace_all old new (drop (length old) (c # cs))
      else c # replace_all old new cs)"
  by pat_completeness auto

termination by (relation "measure (\<lambda>(old, new, s). length s)") auto

definition stars :: string where "stars = ''***''"

definition marked :: "string \<Rightarrow> bool" where
  "marked key \<longleftrightarrow> (\<exists>m\<in>set [''token'', ''authorization'', ''password'', ''secret'']. sublist m (lower key))"

definition scrub :: "string list \<Rightarrow> string \<Rightarrow> string" where
  "scrub secrets s = fold (\<lambda>x t. if x = [] then t else replace_all x stars t) secrets s"

fun redact :: "string list \<Rightarrow> string \<Rightarrow> jv \<Rightarrow> jv" where
  "redact secrets key (JObj kvs) = (if marked key then JText stars
     else JObj (map (\<lambda>kv. (fst kv, redact secrets (fst kv) (snd kv))) kvs))"
| "redact secrets key (JList vs) = (if marked key then JText stars else JList (map (redact secrets []) vs))"
| "redact secrets key (JText s) = (if marked key then JText stars else JText (scrub secrets s))"
| "redact secrets key v = (if marked key then JText stars else v)"

section \<open>What replacing leaves\<close>

lemma starts_with_prefix: "starts_with p s \<longleftrightarrow> prefix p s"
  by (auto simp: starts_with_iff prefix_def)

text \<open>A text that shares no character with the replacement occurs afterwards only where it did before.\<close>

lemma prefix_replace_all:
  assumes "prefix x (replace_all old new s)" and "set x \<inter> set new = {}" and "new \<noteq> []"
  shows "prefix x s"
  using assms
proof (induction old new s arbitrary: x rule: replace_all.induct)
  case (2 old new' c cs)
  show ?case
  proof (cases "x = []")
    case False
    then obtain y ys where x: "x = y # ys" by (cases x) auto
    show ?thesis
    proof (cases "old \<noteq> [] \<and> starts_with old (c # cs)")
      case True
      then have "prefix (y # ys) (new' @ replace_all old new' (drop (length old) (c # cs)))" using "2.prems"(1) x by simp
      then show ?thesis using "2.prems"(2,3) x by (cases new') auto
    next
      case False
      then show ?thesis using 2 x by auto
    qed
  qed simp
qed simp

lemma sublist_append_disjoint:
  assumes "sublist x (new @ s)" and "set x \<inter> set new = {}" and "x \<noteq> []"
  shows "sublist x s"
  using assms
proof (induction new)
  case (Cons n new)
  obtain y ys where x: "x = y # ys" using Cons.prems(3) by (cases x) auto
  have "y \<noteq> n" using Cons.prems(2) x by auto
  then show ?case using Cons x by (auto simp: sublist_Cons_right)
qed simp

lemma sublist_replace_all:
  assumes "sublist x (replace_all old new s)" and "set x \<inter> set new = {}" and "new \<noteq> []" and "x \<noteq> []"
  shows "sublist x s"
  using assms
proof (induction old new s rule: replace_all.induct)
  case (2 old new c cs)
  show ?case
  proof (cases "old \<noteq> [] \<and> starts_with old (c # cs)")
    case True
    then have "sublist x (replace_all old new (drop (length old) (c # cs)))"
      using 2(3-) sublist_append_disjoint[of x new] by simp
    then have "sublist x (drop (length old) (c # cs))" using 2(1) True 2(4-) by simp
    then show ?thesis using sublist_order.order.trans sublist_drop by blast
  next
    case False
    have "prefix x (c # cs) \<or> sublist x cs"
      using 2(2)[OF False] 2(3-) False prefix_replace_all[of x old new "c # cs"] by (auto simp: sublist_Cons_right)
    then show ?thesis by (auto simp: sublist_Cons_right)
  qed
qed simp

lemma replace_all_removes:
  assumes "old \<noteq> []" and "set old \<inter> set new = {}" and "new \<noteq> []"
  shows "\<not> sublist old (replace_all old new s)"
  using assms
proof (induction old new s rule: replace_all.induct)
  case (2 old new c cs)
  show ?case
  proof (cases "starts_with old (c # cs)")
    case True
    then have hit: "old \<noteq> [] \<and> starts_with old (c # cs)" using 2(3) by simp
    have "\<not> sublist old (replace_all old new (drop (length old) (c # cs)))" by (rule 2(1)[OF hit 2(3-5)])
    then show ?thesis using hit sublist_append_disjoint[of old new] 2(3-4) by auto
  next
    case False
    then have "\<not> prefix old (replace_all old new (c # cs))"
      using prefix_replace_all[OF _ 2(4,5), of old "c # cs"] starts_with_prefix by blast
    moreover have "\<not> sublist old (replace_all old new cs)" using 2(2)[OF _ 2(3-5)] False by simp
    ultimately show ?thesis using False by (simp add: sublist_Cons_right)
  qed
qed simp

lemma scrub_removes:
  assumes "x \<in> set secrets" and "x \<noteq> []" and "CHR ''*'' \<notin> set x"
  shows "\<not> sublist x (scrub secrets s)"
  using assms(1)
proof (induction secrets arbitrary: s rule: rev_induct)
  case (snoc y ys)
  have stars: "set x \<inter> set stars = {}" "stars \<noteq> []" using assms(3) by (auto simp: stars_def)
  have step: "scrub (ys @ [y]) s = (if y = [] then scrub ys s else replace_all y stars (scrub ys s))"
    by (simp add: scrub_def)
  show ?case
  proof (cases "x = y")
    case True
    then show ?thesis using replace_all_removes[of x stars] assms(2) stars step by simp
  next
    case False
    then have "\<not> sublist x (scrub ys s)" using snoc by simp
    then show ?thesis using sublist_replace_all[of x y stars "scrub ys s"] stars assms(2) step by auto
  qed
qed simp

section \<open>The texts of a value\<close>

fun jv_texts :: "jv \<Rightarrow> string list" where
  "jv_texts (JText s) = [s]"
| "jv_texts (JList vs) = concat (map jv_texts vs)"
| "jv_texts (JObj kvs) = concat (map (\<lambda>kv. jv_texts (snd kv)) kvs)"
| "jv_texts v = []"

fun jv_fields :: "jv \<Rightarrow> (string \<times> jv) list" where
  "jv_fields (JList vs) = concat (map jv_fields vs)"
| "jv_fields (JObj kvs) = kvs @ concat (map (\<lambda>kv. jv_fields (snd kv)) kvs)"
| "jv_fields v = []"

lemma stars_free: "x \<noteq> [] \<Longrightarrow> CHR ''*'' \<notin> set x \<Longrightarrow> \<not> sublist x stars"
  by (cases x) (auto simp: stars_def dest!: set_mono_sublist)

lemma redacted_texts:
  assumes "x \<in> set secrets" and "x \<noteq> []" and "CHR ''*'' \<notin> set x" and "t \<in> set (jv_texts (redact secrets key v))"
  shows "\<not> sublist x t"
  using assms(1,4)
proof (induction secrets key v arbitrary: t rule: redact.induct)
  case (3 secrets key s)
  then show ?case using scrub_removes[OF 3(1) assms(2,3)] stars_free[OF assms(2,3)] by (auto split: if_splits)
qed (use stars_free[OF assms(2,3)] in \<open>auto split: if_splits\<close>)

lemma redacted_fields:
  "(k, v) \<in> set (jv_fields (redact secrets key w)) \<Longrightarrow> marked k \<Longrightarrow> v = JText stars"
proof (induction secrets key w arbitrary: k v rule: redact.induct)
  case (1 secrets key kvs)
  have "redact secrets k x = JText stars" if "marked k" for k x using that by (cases x) simp_all
  then show ?case using 1 by (auto split: if_splits)
qed (auto split: if_splits)

section \<open>Properties\<close>

text \<open>
  C33: whatever a provider sends or is asked, no configured secret (without an asterisk) occurs in a text of
  the redacted value (field names are kept as they are), and every field whose name speaks of a token, an authorization, a password or a
  secret is masked.
\<close>

theorem redaction_removes_secrets:
  assumes "x \<in> set secrets" and "x \<noteq> []" and "CHR ''*'' \<notin> set x"
  shows "(\<forall>t\<in>set (jv_texts (redact secrets key v)). \<not> sublist x t) \<and>
    (\<forall>(k, w)\<in>set (jv_fields (redact secrets key v)). marked k \<longrightarrow> w = JText stars)"
  using redacted_texts[OF assms] redacted_fields by fast

theorem redaction_removes_secrets_witness:
  "redact [''s3cr'', ''t0p''] [] (JObj [(''Access_Token'', JInt 7), (''rows'', JList [JText ''as3crt0pb'', JNull])]) =
     JObj [(''Access_Token'', JText ''***''), (''rows'', JList [JText ''a******b'', JNull])] \<and>
   list_all (\<lambda>t. \<not> sublist ''t0p'' t)
     (jv_texts (redact [''s3cr'', ''t0p''] [] (JObj [(''rows'', JList [JText ''as3crt0pb'', JNull])])))"
proof
  show "redact [''s3cr'', ''t0p''] [] (JObj [(''Access_Token'', JInt 7), (''rows'', JList [JText ''as3crt0pb'', JNull])]) =
     JObj [(''Access_Token'', JText ''***''), (''rows'', JList [JText ''a******b'', JNull])]"
    by code_simp
  show "list_all (\<lambda>t. \<not> sublist ''t0p'' t)
     (jv_texts (redact [''s3cr'', ''t0p''] [] (JObj [(''rows'', JList [JText ''as3crt0pb'', JNull])])))"
    unfolding list_all_iff by (rule conjunct1[OF redaction_removes_secrets]) simp_all
qed

end
