(* ===== verification/Artifacts.thy ===== *)
theory Artifacts
  imports Rows Redaction
begin

text \<open>
  The artifact store (\<open>ParquetStore\<close> and \<open>verify_manifest\<close> of
  \<open>app/infrastructure/storage/parquet_store.py\<close>) and the raw archives that write into it
  (\<open>providers/raw_archive.py\<close>, \<open>ifind/raw_archive.py\<close>), over a tree of files and directories addressed
  by \<open>pathlib\<close> paths. SHA-256, the Parquet library and Python's \<open>str\<close> of a container are arguments
  (\<open>store_env\<close>); a disk that fails or a directory that vanishes is not modelled.
\<close>

section \<open>Paths\<close>

text \<open>The parts of a \<open>PurePosixPath\<close>; those of an absolute one begin with its root.\<close>

type_synonym fpath = "string list"

definition path_root :: "string \<Rightarrow> string list" where
  "path_root s = (if take 1 s \<noteq> ''/'' then [] else if take 2 s = ''//'' \<and> take 3 s \<noteq> ''///'' then [''//''] else [''/''])"

definition path_of :: "string \<Rightarrow> fpath" where
  "path_of s = path_root s @ filter (\<lambda>p. p \<noteq> [] \<and> p \<noteq> ''.'') (split_on CHR ''/'' s)"

definition absolute :: "fpath \<Rightarrow> bool" where
  "absolute p \<longleftrightarrow> p \<noteq> [] \<and> take 1 (hd p) = ''/''"

definition path_str :: "fpath \<Rightarrow> string" where
  "path_str p = (if p = [] then ''.'' else if absolute p then hd p @ joined ''/'' (tl p) else joined ''/'' p)"

definition path_join :: "fpath \<Rightarrow> fpath \<Rightarrow> fpath" where
  "path_join p q = (if absolute q then q else p @ q)"

definition path_name :: "fpath \<Rightarrow> string" where
  "path_name p = (if p = [] \<or> absolute p \<and> length p = 1 then [] else last p)"

definition path_parent :: "fpath \<Rightarrow> fpath" where
  "path_parent p = (if absolute p \<and> length p = 1 then p else butlast p)"

section \<open>Files\<close>

record tree =
  tree_files :: "(fpath, string) dict"
  tree_dirs :: "fpath list"

definition is_file :: "tree \<Rightarrow> fpath \<Rightarrow> bool" where
  "is_file t p \<longleftrightarrow> map_of (tree_files t) p \<noteq> None"

text \<open>\<open>mkdir(parents=True, exist_ok=False)\<close>.\<close>

definition make_directory :: "fpath \<Rightarrow> tree \<Rightarrow> tree res" where
  "make_directory p t =
     (if p \<in> set (tree_dirs t) \<or> is_file t p then Inl FileExists
      else if list_ex (is_file t) (map (\<lambda>k. take k p) [0..<length p]) then Inl (OSError ''Not a directory'')
      else Inr (t\<lparr>tree_dirs := tree_dirs t @ filter (\<lambda>d. d \<notin> set (tree_dirs t)) (map (\<lambda>k. take k p) [1..<Suc (length p)])\<rparr>))"

definition write_file :: "fpath \<Rightarrow> string \<Rightarrow> tree \<Rightarrow> tree" where
  "write_file p content t = t\<lparr>tree_files := dict_set p content (tree_files t)\<rparr>"

text \<open>The well-formed UTF-8 byte sequences, which \<open>read_text\<close> decodes.\<close>

definition tail_byte :: "nat \<Rightarrow> nat \<Rightarrow> string \<Rightarrow> bool" where
  "tail_byte a b s \<longleftrightarrow> s \<noteq> [] \<and> a \<le> byte (hd s) \<and> byte (hd s) \<le> b"

function utf8_valid :: "string \<Rightarrow> bool" where
  "utf8_valid [] = True"
| "utf8_valid (c # s) =
     (if byte c < 128 then utf8_valid s
      else if 194 \<le> byte c \<and> byte c \<le> 223 then tail_byte 128 191 s \<and> utf8_valid (drop 1 s)
      else if 224 \<le> byte c \<and> byte c \<le> 239 then
        tail_byte (if byte c = 224 then 160 else 128) (if byte c = 237 then 159 else 191) s \<and>
        tail_byte 128 191 (drop 1 s) \<and> utf8_valid (drop 2 s)
      else if 240 \<le> byte c \<and> byte c \<le> 244 then
        tail_byte (if byte c = 240 then 144 else 128) (if byte c = 244 then 143 else 191) s \<and>
        tail_byte 128 191 (drop 1 s) \<and> tail_byte 128 191 (drop 2 s) \<and> utf8_valid (drop 3 s)
      else False)"
  by pat_completeness auto

termination by (relation "measure length") auto

text \<open>\<open>read_text(encoding="utf-8")\<close>; a \<open>UnicodeDecodeError\<close> is a \<open>ValueError\<close>, not an \<open>OSError\<close>.\<close>

definition read_file :: "tree \<Rightarrow> fpath \<Rightarrow> string res" where
  "read_file t p = (case map_of (tree_files t) p of
     None \<Rightarrow> Inl (OSError ''No such file'')
   | Some s \<Rightarrow> if utf8_valid s then Inr s else Inl (ValueError ''UnicodeDecodeError''))"

text \<open>\<open>splitlines()\<close>: the length of the line break a text begins with.\<close>

definition break_length :: "string \<Rightarrow> nat" where
  "break_length s =
     (if s = [] then 0 else if take 2 s = [CHR 0x0D, CHR 0x0A] then 2
      else if byte (hd s) \<in> {10, 11, 12, 13, 28, 29, 30} then 1
      else if map byte (take 2 s) = [194, 133] then 2
      else if map byte (take 3 s) = [226, 128, 168] \<or> map byte (take 3 s) = [226, 128, 169] then 3 else 0)"

function split_lines :: "string \<Rightarrow> string \<Rightarrow> string list" where
  "split_lines acc [] = (if acc = [] then [] else [rev acc])"
| "split_lines acc (c # s) =
     (if break_length (c # s) > 0 then rev acc # split_lines [] (drop (break_length (c # s)) (c # s))
      else split_lines (c # acc) s)"
  by pat_completeness auto

termination by (relation "measure (\<lambda>(acc, s). length s)") auto

section \<open>The store\<close>

type_synonym jrow = "(string \<times> jv) list"

record store_env =
  sha_hex :: "string \<Rightarrow> string"
  parquet_write :: "(jrow list \<Rightarrow> string res) option"
  parquet_read :: "string \<Rightarrow> (jv list) res"
  container_str :: "jv \<Rightarrow> string"
  float_int :: "string \<Rightarrow> int res"

record manifest =
  am_dataset :: string
  am_layer :: string
  am_version :: string
  am_path :: fpath
  am_file :: fpath
  am_sha :: string
  am_size :: int
  am_rows :: int
  am_created :: string
  am_format :: string

definition as_dict :: "manifest \<Rightarrow> jrow" where
  "as_dict m = [(''dataset'', JText (am_dataset m)), (''layer'', JText (am_layer m)), (''version'', JText (am_version m)),
     (''path'', JText (path_str (am_path m))), (''manifest_path'', JText (path_str (am_file m))),
     (''sha256'', JText (am_sha m)), (''size_bytes'', JInt (am_size m)), (''row_count'', JInt (am_rows m)),
     (''created_at'', JText (am_created m)), (''format'', JText (am_format m))]"

definition newline :: string where "newline = [CHR 0x0A]"

definition canonical_row :: "jrow \<Rightarrow> string" where
  "canonical_row r = dumps compact_style (JObj r)"

definition encode_records :: "store_env \<Rightarrow> jrow list \<Rightarrow> (string \<times> string) res" where
  "encode_records e rows = (case parquet_write e of
     Some f \<Rightarrow> andThen (f rows) (\<lambda>content. Inr (content, ''parquet''))
   | None \<Rightarrow> Inr (concat (map (\<lambda>r. canonical_row r @ newline) rows), ''jsonl-fallback''))"

definition safe_dataset :: "string \<Rightarrow> bool" where
  "safe_dataset s \<longleftrightarrow> s \<noteq> [] \<and> \<not> absolute (path_of s) \<and> length (path_of s) \<in> {1, 2} \<and>
     list_all (\<lambda>p. p \<notin> {[], ''.'', ''..''}) (path_of s)"

definition version_of :: "store_env \<Rightarrow> string option \<Rightarrow> string \<Rightarrow> string" where
  "version_of e version digest = (case version of
     None \<Rightarrow> ''v-'' @ take 16 digest | Some v \<Rightarrow> if v = [] then ''v-'' @ take 16 digest else v)"

definition artifact_dir :: "fpath \<Rightarrow> string \<Rightarrow> string \<Rightarrow> string \<Rightarrow> fpath" where
  "artifact_dir base layer dataset version =
     path_join (path_join (path_join base (path_of layer)) (path_of dataset)) (path_of version)"

definition write_manifest :: "manifest \<Rightarrow> tree \<Rightarrow> tree" where
  "write_manifest m t = write_file (am_file m) (dumps indented_style (JObj (as_dict m)) @ newline) t"

definition manifest_of ::
    "store_env \<Rightarrow> string \<Rightarrow> string \<Rightarrow> string \<Rightarrow> fpath \<Rightarrow> string \<Rightarrow> string \<Rightarrow> nat \<Rightarrow> datetime \<Rightarrow> manifest" where
  "manifest_of e dataset layer version dir content form count now =
     \<lparr>am_dataset = dataset, am_layer = layer, am_version = version,
      am_path = path_join dir (path_of (path_name (path_of dataset) @ ''.parquet'')),
      am_file = path_join dir [''manifest.json''], am_sha = sha_hex e content, am_size = int (length content),
      am_rows = int count, am_created = datetime_text CHR ''T'' (as_utc now), am_format = form\<rparr>"

definition write_records ::
    "store_env \<Rightarrow> fpath \<Rightarrow> string \<Rightarrow> jrow list \<Rightarrow> string \<Rightarrow> string option \<Rightarrow> datetime \<Rightarrow> tree \<Rightarrow> manifest res \<times> tree" where
  "write_records e base dataset rows layer version now t =
     (if layer \<notin> {''raw'', ''standardized'', ''reports''} then (Inl (ValueError ''layer must be one of''), t)
      else if \<not> safe_dataset dataset
      then (Inl (ValueError ''dataset must be a safe one- or two-part relative name''), t)
      else case encode_records e rows of
        Inl err \<Rightarrow> (Inl err, t)
      | Inr (content, form) \<Rightarrow>
          let v = version_of e version (sha_hex e content); dir = artifact_dir base layer dataset v
          in (case make_directory dir t of
                Inl err \<Rightarrow> (Inl err, t)
              | Inr t' \<Rightarrow>
                  let m = manifest_of e dataset layer v dir content form (length rows) now
                  in (Inr m, write_manifest m (write_file (am_path m) content t'))))"

section \<open>Manifests\<close>

definition load_manifest :: "tree \<Rightarrow> fpath \<Rightarrow> jrow res" where
  "load_manifest t p = (case read_file t p of
     Inl (OSError msg) \<Rightarrow> Inr []
   | Inl err \<Rightarrow> Inl err
   | Inr s \<Rightarrow> (case loads s of Some (JObj kvs) \<Rightarrow> Inr kvs | _ \<Rightarrow> Inr []))"

text \<open>\<open>str(x)\<close> and \<open>int(x)\<close> of a JSON value.\<close>

definition jv_str :: "store_env \<Rightarrow> jv \<Rightarrow> string" where
  "jv_str e v = (case v of
     JText s \<Rightarrow> s | JNull \<Rightarrow> ''None'' | JBool b \<Rightarrow> (if b then ''True'' else ''False'') | JInt i \<Rightarrow> int_str i
   | JReal r \<Rightarrow> r | _ \<Rightarrow> container_str e v)"

definition jv_int :: "store_env \<Rightarrow> jv \<Rightarrow> int res" where
  "jv_int e v = (case v of
     JInt i \<Rightarrow> Inr i | JBool b \<Rightarrow> Inr (if b then 1 else 0) | JReal r \<Rightarrow> float_int e r
   | JText s \<Rightarrow> (case parse_int s of None \<Rightarrow> Inl (ValueError ''invalid literal for int()'') | Some i \<Rightarrow> Inr i)
   | _ \<Rightarrow> Inl TypeError)"

definition artifact_path :: "store_env \<Rightarrow> jrow \<Rightarrow> fpath \<Rightarrow> fpath" where
  "artifact_path e kvs file =
     (let candidate = path_of (case map_of kvs ''path'' of None \<Rightarrow> [] | Some v \<Rightarrow> jv_str e v)
      in if absolute candidate then candidate else path_join (path_parent file) (path_of (path_name candidate)))"

definition read_field :: "jrow \<Rightarrow> string \<Rightarrow> jv res" where
  "read_field kvs k = (case map_of kvs k of None \<Rightarrow> Inl (KeyError k) | Some v \<Rightarrow> Inr v)"

definition verify_manifest :: "store_env \<Rightarrow> tree \<Rightarrow> fpath \<Rightarrow> bool res" where
  "verify_manifest e t file = andThen (load_manifest t file) (\<lambda>kvs.
     case map_of (tree_files t) (artifact_path e kvs file) of
       None \<Rightarrow> Inr False
     | Some content \<Rightarrow>
         if kvs = [] then Inr False
         else (case andThen (read_field kvs ''sha256'') (\<lambda>h. andThen (read_field kvs ''size_bytes'')
                 (\<lambda>v. andThen (jv_int e v) (\<lambda>n. Inr (jv_str e h, n)))) of
             Inr (hash, n) \<Rightarrow> Inr (int (length content) = n \<and> sha_hex e content = hash)
           | Inl err \<Rightarrow> (case err of KeyError k \<Rightarrow> Inr False | TypeError \<Rightarrow> Inr False | ValueError m \<Rightarrow> Inr False
               | _ \<Rightarrow> Inl err)))"

definition read_records :: "store_env \<Rightarrow> tree \<Rightarrow> fpath \<Rightarrow> (jv list) res" where
  "read_records e t file = andThen (load_manifest t file) (\<lambda>kvs.
     let p = artifact_path e kvs file in
     if map_of kvs ''format'' = Some (JText ''parquet'')
     then (case map_of (tree_files t) p of None \<Rightarrow> Inl FileNotFound | Some content \<Rightarrow> parquet_read e content)
     else andThen (read_file t p) (\<lambda>s. map_res (\<lambda>line. case loads line of
         None \<Rightarrow> Inl (ValueError ''JSONDecodeError'') | Some v \<Rightarrow> Inr v) (split_lines [] s)))"

text \<open>A manifest read back by the archives.\<close>

definition stored_manifest :: "store_env \<Rightarrow> tree \<Rightarrow> fpath \<Rightarrow> manifest res" where
  "stored_manifest e t file = andThen (read_file t file) (\<lambda>s. case loads s of
     None \<Rightarrow> Inl (ValueError ''JSONDecodeError'')
   | Some (JObj kvs) \<Rightarrow>
       (let fld = (\<lambda>k. map_sum id (jv_str e) (read_field kvs k)); num = (\<lambda>k. andThen (read_field kvs k) (jv_int e)) in
        andThen (fld ''dataset'') (\<lambda>d. andThen (fld ''layer'') (\<lambda>l. andThen (fld ''version'') (\<lambda>v.
        andThen (fld ''path'') (\<lambda>p. andThen (fld ''manifest_path'') (\<lambda>f. andThen (fld ''sha256'') (\<lambda>h.
        andThen (num ''size_bytes'') (\<lambda>n. andThen (num ''row_count'') (\<lambda>r. andThen (fld ''created_at'') (\<lambda>c.
        andThen (fld ''format'') (\<lambda>g.
          Inr \<lparr>am_dataset = d, am_layer = l, am_version = v, am_path = path_of p, am_file = path_of f, am_sha = h,
            am_size = n, am_rows = r, am_created = c, am_format = g\<rparr>)))))))))))
   | Some _ \<Rightarrow> Inl TypeError)"

section \<open>The raw archives\<close>

record raw_call =
  rc_request :: jrow
  rc_status :: "int option"
  rc_body :: jv
  rc_mapping :: string
  rc_pulled :: "datetime option"
  rc_now :: datetime

definition canonical_body :: "string list \<Rightarrow> raw_call \<Rightarrow> string" where
  "canonical_body secrets q = dumps compact_style (redact secrets [] (rc_body q))"

definition request_text :: "string list \<Rightarrow> raw_call \<Rightarrow> string" where
  "request_text secrets q = dumps spaced_style (redact secrets [] (JObj (rc_request q)))"

definition pulled_text :: "raw_call \<Rightarrow> string" where
  "pulled_text q = datetime_text CHR ''T'' (as_utc (case rc_pulled q of None \<Rightarrow> rc_now q | Some p \<Rightarrow> p))"

definition status_value :: "int option \<Rightarrow> jv" where
  "status_value s = (case s of None \<Rightarrow> JNull | Some i \<Rightarrow> JInt i)"

definition archive_version :: "store_env \<Rightarrow> string \<Rightarrow> string" where
  "archive_version e body = ''v-'' @ take 16 (sha_hex e body)"

definition archive_row :: "store_env \<Rightarrow> string list \<Rightarrow> string \<Rightarrow> string \<Rightarrow> raw_call \<Rightarrow> jrow" where
  "archive_row e secrets provider dataset q =
     [(''provider'', JText provider), (''dataset'', JText dataset), (''request_summary'', JText (request_text secrets q)),
      (''http_status'', status_value (rc_status q)), (''response_json'', JText (canonical_body secrets q)),
      (''pulled_at'', JText (pulled_text q)), (''response_hash'', JText (sha_hex e (canonical_body secrets q))),
      (''mapping_version'', JText (rc_mapping q))]"

text \<open>Writing a version that exists returns the manifest stored in \<open>file\<close>.\<close>

definition write_or_reuse ::
    "store_env \<Rightarrow> fpath \<Rightarrow> string \<Rightarrow> jrow \<Rightarrow> string \<Rightarrow> fpath \<Rightarrow> datetime \<Rightarrow> tree \<Rightarrow> manifest res \<times> tree" where
  "write_or_reuse e base dataset r version file now t =
     (case write_records e base dataset [r] ''raw'' (Some version) now t of
        (Inl err, t') \<Rightarrow> (if err = FileExists then stored_manifest e t' file else Inl err, t')
      | x \<Rightarrow> x)"

definition archive_file :: "fpath \<Rightarrow> string list \<Rightarrow> fpath" where
  "archive_file base parts = foldl path_join base (map path_of (''raw'' # parts @ [''manifest.json'']))"

definition archive_response ::
    "store_env \<Rightarrow> fpath \<Rightarrow> string list \<Rightarrow> string \<Rightarrow> string \<Rightarrow> raw_call \<Rightarrow> tree \<Rightarrow> manifest res \<times> tree" where
  "archive_response e base secrets provider dataset q t =
     (if provider = [] \<or> path_name (path_of provider) \<noteq> provider
      then (Inl (ValueError ''provider must be a simple name''), t)
      else let version = archive_version e (canonical_body secrets q) in
        write_or_reuse e base (provider @ ''/'' @ dataset) (archive_row e secrets provider dataset q) version
          (archive_file base [provider, dataset, version]) (rc_now q) t)"

definition ifind_row :: "store_env \<Rightarrow> string list \<Rightarrow> string \<Rightarrow> raw_call \<Rightarrow> jrow" where
  "ifind_row e secrets interface_name q =
     [(''interface_name'', JText interface_name), (''request_json'', JText (request_text secrets q)),
      (''http_status'', status_value (rc_status q)), (''response_json'', JText (canonical_body secrets q)),
      (''pulled_at'', JText (pulled_text q)), (''response_hash'', JText (sha_hex e (canonical_body secrets q))),
      (''mapping_version'', JText (rc_mapping q))]"

definition ifind_archive ::
    "store_env \<Rightarrow> fpath \<Rightarrow> string list \<Rightarrow> string \<Rightarrow> raw_call \<Rightarrow> tree \<Rightarrow> manifest res \<times> tree" where
  "ifind_archive e base secrets interface_name q t =
     (let version = archive_version e (canonical_body secrets q) in
      write_or_reuse e base interface_name (ifind_row e secrets interface_name q) version
        (archive_file base [interface_name, version]) (rc_now q) t)"

section \<open>Paths written and read back\<close>

definition part_ok :: "string \<Rightarrow> bool" where
  "part_ok x \<longleftrightarrow> x \<noteq> [] \<and> x \<noteq> ''.'' \<and> CHR ''/'' \<notin> set x"

definition normal :: "fpath \<Rightarrow> bool" where
  "normal p \<longleftrightarrow> (if absolute p then hd p \<in> {''/'', ''//''} \<and> list_all part_ok (tl p) else list_all part_ok p)"

lemma split_on_joined:
  assumes "xs \<noteq> []" and "list_all part_ok xs"
  shows "split_on CHR ''/'' (joined ''/'' xs) = xs"
  using assms
proof (induction xs)
  case (Cons x xs)
  then show ?case
    by (cases "xs = []") (auto simp: joined_Cons part_ok_def split_on_no_sep split_on_append)
qed simp

lemma parts_of_joined: "list_all part_ok xs \<Longrightarrow> filter (\<lambda>p. p \<noteq> [] \<and> p \<noteq> ''.'') (split_on CHR ''/'' (joined ''/'' xs)) = xs"
  by (cases "xs = []") (auto simp: split_on_joined part_ok_def list_all_iff filter_id_conv)

lemma part_head: "part_ok x \<Longrightarrow> take 1 x \<noteq> ''/''"
  by (cases x) (auto simp: part_ok_def)

lemma joined_head:
  assumes "list_all part_ok xs"
  shows "take 1 (joined ''/'' xs) \<noteq> ''/''"
proof (cases xs)
  case (Cons x ys)
  then have "part_ok x" using assms by simp
  then show ?thesis using Cons part_head[of x] by (cases x) (auto simp: joined_Cons part_ok_def)
qed simp

lemma path_of_str [simp]:
  assumes "normal p"
  shows "path_of (path_str p) = p"
proof (cases "absolute p")
  case True
  then obtain r ps where p: "p = r # ps" "r \<in> {''/'', ''//''}" "list_all part_ok ps"
    using assms by (cases p) (auto simp: normal_def absolute_def)
  have j: "take 1 (joined ''/'' ps) \<noteq> ''/''" using joined_head[OF p(3)] .
  have str: "path_str p = r @ joined ''/'' ps" using True p(1) by (simp add: path_str_def)
  have "path_root (r @ joined ''/'' ps) = [r]"
    using j p(2) by (cases "joined ''/'' ps") (auto simp: path_root_def)
  moreover have "filter (\<lambda>p. p \<noteq> [] \<and> p \<noteq> ''.'') (split_on CHR ''/'' (r @ joined ''/'' ps)) = ps"
    using parts_of_joined[OF p(3)] p(2) by auto
  ultimately show ?thesis unfolding path_of_def str by (simp add: p(1))
next
  case False
  then have p: "list_all part_ok p" using assms by (simp add: normal_def)
  then show ?thesis using False joined_head[OF p] by (auto simp: path_of_def path_str_def path_root_def parts_of_joined)
qed

lemma split_on_parts: "x \<in> set (split_on sep s) \<Longrightarrow> sep \<notin> set x"
  by (induction s arbitrary: x) (auto split: list.splits if_splits)

lemma path_of_parts: "list_all part_ok (filter (\<lambda>p. p \<noteq> [] \<and> p \<noteq> ''.'') (split_on CHR ''/'' s))"
  by (auto simp: list_all_iff part_ok_def dest: split_on_parts)

lemma relative_parts: "list_all part_ok p \<Longrightarrow> \<not> absolute p"
  using part_head[of "hd p"] by (cases p) (auto simp: absolute_def)

lemma normal_path_of [simp]: "normal (path_of s)"
  using path_of_parts[of s] relative_parts[OF path_of_parts[of s]]
  by (auto simp: path_of_def path_root_def normal_def absolute_def)

lemma normal_join [simp]: "normal p \<Longrightarrow> normal q \<Longrightarrow> normal (path_join p q)"
  by (cases p) (auto simp: path_join_def normal_def absolute_def split: if_splits)

section \<open>What a write leaves behind\<close>

definition ascii :: "string \<Rightarrow> bool" where "ascii s \<longleftrightarrow> list_all (\<lambda>c. byte c < 128) s"

lemma ascii_simps [simp]:
  "ascii []" "ascii (c # s) \<longleftrightarrow> byte c < 128 \<and> ascii s" "ascii (a @ b) \<longleftrightarrow> ascii a \<and> ascii b"
  by (simp_all add: ascii_def)

lemma ascii_utf8: "ascii s \<Longrightarrow> utf8_valid s"
  by (induction s) auto

lemma ascii_joined: "ascii sep \<Longrightarrow> list_all ascii xs \<Longrightarrow> ascii (joined sep xs)"
  by (induction sep xs rule: joined.induct) auto

lemma ascii_escaped: "byte c < 128 \<Longrightarrow> ascii (escaped c)"
  by (auto simp: escaped_def quote_char_def escape_char_def hex_digit_def)

lemma ascii_quoted: "ascii s \<Longrightarrow> ascii (quoted s)"
  by (induction s) (auto simp: quoted_def quote_char_def ascii_escaped)

lemma ascii_int_str: "ascii (int_str i)"
proof -
  have "ascii (nat_str n)" for n
    using nat_str_digits[of n] by (auto simp: ascii_def list_all_iff is_digit_def)
  then show ?thesis by (simp add: int_str_def)
qed

fun jv_ascii :: "jv \<Rightarrow> bool" where
  "jv_ascii (JReal t) = ascii t"
| "jv_ascii (JText s) = ascii s"
| "jv_ascii (JList vs) = list_all jv_ascii vs"
| "jv_ascii (JObj kvs) = list_all (\<lambda>kv. ascii (fst kv) \<and> jv_ascii (snd kv)) kvs"
| "jv_ascii v = True"

definition style_ascii :: "json_style \<Rightarrow> bool" where
  "style_ascii st \<longleftrightarrow> ascii (js_item st) \<and> ascii (js_key st) \<and> (\<forall>l. ascii (js_break st l))"

lemma style_ascii_styles [simp]: "style_ascii compact_style" "style_ascii spaced_style" "style_ascii indented_style"
  by (auto simp: style_ascii_def compact_style_def spaced_style_def indented_style_def ascii_def list_all_iff)

lemma ascii_dump: "style_ascii st \<Longrightarrow> jv_ascii v \<Longrightarrow> ascii (dump st l v)"
proof (induction st l v rule: dump.induct)
  case (6 st l vs)
  then show ?case by (auto simp: list_all_iff style_ascii_def intro!: ascii_joined)
next
  case (7 st l kvs)
  then show ?case by (auto simp: list_all_iff style_ascii_def ascii_quoted intro!: ascii_joined)
qed (auto simp: ascii_int_str ascii_quoted)

lemma ascii_sort_keys: "jv_ascii v \<Longrightarrow> jv_ascii (sort_keys v)"
  by (induction v rule: sort_keys.induct) (auto simp: list_all_iff)

lemma map_of_sort_key: "distinct (map fst kvs) \<Longrightarrow> map_of (sort_key fst kvs) = map_of kvs"
  by (rule map_of_eqI)
    (auto simp: distinct_map inj_on_def intro!: map_of_is_SomeI)

text \<open>The members of a manifest file, in the order of their keys.\<close>

definition manifest_members :: "manifest \<Rightarrow> jrow" where
  "manifest_members m = sort_key fst (as_dict m)"

definition manifest_ascii :: "manifest \<Rightarrow> bool" where
  "manifest_ascii m \<longleftrightarrow> list_all ascii [am_dataset m, am_layer m, am_version m, path_str (am_path m), path_str (am_file m),
     am_sha m, am_created m, am_format m]"

lemma manifest_members_get: "map_of (manifest_members m) = map_of (as_dict m)"
  unfolding manifest_members_def by (rule map_of_sort_key) (simp add: as_dict_def)

lemma manifest_fields:
  "read_field (manifest_members m) ''dataset'' = Inr (JText (am_dataset m))"
  "read_field (manifest_members m) ''layer'' = Inr (JText (am_layer m))"
  "read_field (manifest_members m) ''version'' = Inr (JText (am_version m))"
  "read_field (manifest_members m) ''path'' = Inr (JText (path_str (am_path m)))"
  "read_field (manifest_members m) ''manifest_path'' = Inr (JText (path_str (am_file m)))"
  "read_field (manifest_members m) ''sha256'' = Inr (JText (am_sha m))"
  "read_field (manifest_members m) ''size_bytes'' = Inr (JInt (am_size m))"
  "read_field (manifest_members m) ''row_count'' = Inr (JInt (am_rows m))"
  "read_field (manifest_members m) ''created_at'' = Inr (JText (am_created m))"
  "read_field (manifest_members m) ''format'' = Inr (JText (am_format m))"
  by (simp_all add: read_field_def manifest_members_get as_dict_def)

lemma manifest_text:
  assumes "manifest_ascii m"
  shows "utf8_valid (dumps indented_style (JObj (as_dict m)) @ newline)"
    and "loads (dumps indented_style (JObj (as_dict m)) @ newline) = Some (JObj (manifest_members m))"
proof -
  have "jv_ascii (JObj (as_dict m))" using assms by (simp add: as_dict_def manifest_ascii_def)
  then show "utf8_valid (dumps indented_style (JObj (as_dict m)) @ newline)"
    by (intro ascii_utf8) (simp add: dumps_def newline_def ascii_dump ascii_sort_keys del: sort_keys.simps)
  have "sort_keys (JObj (as_dict m)) = JObj (manifest_members m)" by (simp add: manifest_members_def as_dict_def)
  then show "loads (dumps indented_style (JObj (as_dict m)) @ newline) = Some (JObj (manifest_members m))"
    using loads_dumps[OF style_ok_styles(3), of "JObj (as_dict m)" newline]
    by (simp add: as_dict_def newline_def spaces_def json_space_def del: sort_keys.simps)
qed

section \<open>A store that only grows\<close>

text \<open>What the readers of an append-only store rely on: no operation changes an entry that is there.\<close>

locale append_only =
  fixes ok :: "'t \<Rightarrow> bool" and step :: "'t \<Rightarrow> 'o \<Rightarrow> 't" and view :: "'t \<Rightarrow> 'k \<Rightarrow> 'v option"
  assumes step_ok: "ok t \<Longrightarrow> ok (step t op)"
    and step_keeps: "ok t \<Longrightarrow> view t k = Some v \<Longrightarrow> view (step t op) k = Some v"
begin

lemma run_ok: "ok t \<Longrightarrow> ok (foldl step t ops)"
  by (induction ops arbitrary: t) (auto intro: step_ok)

lemma run_keeps: "ok t \<Longrightarrow> view t k = Some v \<Longrightarrow> view (foldl step t ops) k = Some v"
  by (induction ops arbitrary: t) (auto intro: step_ok step_keeps)

end

text \<open>Every file lies in a directory of the tree.\<close>

definition tree_ok :: "tree \<Rightarrow> bool" where
  "tree_ok t \<longleftrightarrow> (\<forall>p. is_file t p \<longrightarrow> butlast p \<in> set (tree_dirs t))"

text \<open>What a tree shows of a path: a directory, or a file with its content.\<close>

definition tree_view :: "tree \<Rightarrow> fpath + fpath \<Rightarrow> string option" where
  "tree_view t k = (case k of
     Inl d \<Rightarrow> if d \<in> set (tree_dirs t) then Some [] else None | Inr p \<Rightarrow> map_of (tree_files t) p)"

lemma make_directory_Inr:
  assumes "make_directory d t = Inr t'" and "d \<noteq> []"
  shows "d \<notin> set (tree_dirs t)" and "tree_files t' = tree_files t" and "d \<in> set (tree_dirs t')"
    and "set (tree_dirs t) \<subseteq> set (tree_dirs t')"
proof -
  have "d \<in> set (map (\<lambda>k. take k d) [1..<Suc (length d)])"
    using assms(2) by (auto intro!: image_eqI[of _ _ "length d"] simp: Suc_le_eq)
  then show "d \<notin> set (tree_dirs t)" and "tree_files t' = tree_files t" and "d \<in> set (tree_dirs t')"
    and "set (tree_dirs t) \<subseteq> set (tree_dirs t')"
    using assms(1) by (auto simp: make_directory_def split: if_splits)
qed

text \<open>The layer makes the directory of an artifact more than the working directory.\<close>

lemma join_not_empty: "q \<noteq> [] \<Longrightarrow> path_join p q \<noteq> []"
  by (simp add: path_join_def)

lemma artifact_dir_nonempty:
  assumes "layer \<in> {''raw'', ''standardized'', ''reports''}"
  shows "artifact_dir base layer dataset version \<noteq> []"
proof -
  have "path_of layer \<noteq> []" using assms by (auto simp: path_of_def)
  then have "path_join base (path_of layer) \<noteq> []" by (rule join_not_empty)
  moreover have "path_join p q \<noteq> []" if "p \<noteq> []" for p q :: fpath
    using that by (auto simp: path_join_def absolute_def)
  ultimately show ?thesis by (simp add: artifact_dir_def)
qed

lemma safe_dataset_name:
  assumes "safe_dataset s"
  shows "part_ok (path_name (path_of s))"
proof -
  have p: "path_of s \<noteq> []" "\<not> absolute (path_of s)" using assms by (auto simp: safe_dataset_def)
  then have "list_all part_ok (path_of s)" using normal_path_of[of s] by (simp add: normal_def)
  then show ?thesis using p by (simp add: path_name_def list_all_iff)
qed

lemma data_file:
  assumes "safe_dataset s"
  shows "path_of (path_name (path_of s) @ ''.parquet'') = [path_name (path_of s) @ ''.parquet'']"
    and "path_name (path_of s) @ ''.parquet'' \<noteq> ''manifest.json''"
proof -
  have "part_ok (path_name (path_of s) @ ''.parquet'')" using safe_dataset_name[OF assms] by (auto simp: part_ok_def)
  then show "path_of (path_name (path_of s) @ ''.parquet'') = [path_name (path_of s) @ ''.parquet'']"
    using path_of_str[of "[path_name (path_of s) @ ''.parquet'']"] relative_parts[of "[path_name (path_of s) @ ''.parquet'']"]
    by (simp add: normal_def path_str_def)
  have "last (path_name (path_of s) @ ''.parquet'') \<noteq> last ''manifest.json''" by simp
  then show "path_name (path_of s) @ ''.parquet'' \<noteq> ''manifest.json''" by metis
qed

lemma join_file: "part_ok x \<Longrightarrow> path_join p [x] = p @ [x]"
  using relative_parts[of "[x]"] by (simp add: path_join_def)

text \<open>A successful write puts two files into a directory that was not there.\<close>

lemma write_records_Inr:
  assumes "write_records e base dataset rows layer version now t = (Inr m, t')"
  obtains d content where "d \<notin> set (tree_dirs t)" "d \<in> set (tree_dirs t')" "set (tree_dirs t) \<subseteq> set (tree_dirs t')"
    and "d = artifact_dir base layer dataset (am_version m)" "am_version m = version_of e version (sha_hex e content)"
    and "encode_records e rows = Inr (content, am_format m)"
    and "am_path m = d @ [path_name (path_of dataset) @ ''.parquet'']" "am_file m = d @ [''manifest.json'']"
    and "am_sha m = sha_hex e content" "am_size m = int (length content)" "safe_dataset dataset"
    and "map_of (tree_files t') = (map_of (tree_files t))(am_path m \<mapsto> content,
      am_file m \<mapsto> dumps indented_style (JObj (as_dict m)) @ newline)"
proof -
  have layer: "layer \<in> {''raw'', ''standardized'', ''reports''}" and ds: "safe_dataset dataset"
    using assms by (auto simp: write_records_def split: if_splits)
  obtain content form where c: "encode_records e rows = Inr (content, form)"
    using assms layer ds by (cases "encode_records e rows") (auto simp: write_records_def)
  define d where "d = artifact_dir base layer dataset (version_of e version (sha_hex e content))"
  define m1 where "m1 = manifest_of e dataset layer (version_of e version (sha_hex e content)) d content form (length rows) now"
  have w: "write_records e base dataset rows layer version now t = (case make_directory d t of Inl err \<Rightarrow> (Inl err, t)
      | Inr t' \<Rightarrow> (Inr m1, write_manifest m1 (write_file (am_path m1) content t')))"
    using layer ds c by (simp add: write_records_def d_def m1_def Let_def split: sum.split)
  obtain t1 where t1: "make_directory d t = Inr t1" using assms w by (cases "make_directory d t") auto
  note dir = make_directory_Inr[OF t1] artifact_dir_nonempty[OF layer]
  have "m = m1" and t': "t' = write_manifest m (write_file (am_path m) content t1)" using assms w t1 by auto
  then have m: "am_version m = version_of e version (sha_hex e content)" "am_format m = form" "am_sha m = sha_hex e content"
    "am_size m = int (length content)" "am_path m = path_join d (path_of (path_name (path_of dataset) @ ''.parquet''))"
    "am_file m = path_join d [''manifest.json'']"
    by (simp_all add: m1_def manifest_of_def)
  have p: "am_path m = d @ [path_name (path_of dataset) @ ''.parquet'']" "am_file m = d @ [''manifest.json'']"
    using join_file[of "path_name (path_of dataset) @ ''.parquet''" d] join_file[of "''manifest.json''" d]
      data_file(1)[OF ds] safe_dataset_name[OF ds] m(5,6) by (auto simp: part_ok_def)
  show thesis
    by (rule that[of d content])
      (use dir m(1-4) p c ds t' in \<open>auto simp: d_def write_manifest_def write_file_def update_conv'\<close>)
qed

lemma write_records_Inl: "write_records e base dataset rows layer version now t = (Inl err, t') \<Longrightarrow> t' = t"
  by (auto simp: write_records_def Let_def split: if_splits sum.splits prod.splits)

lemma write_records_keeps:
  assumes "tree_ok t" and "write_records e base dataset rows layer version now t = (r, t')"
  shows "tree_ok t'" and "tree_view t k = Some v \<Longrightarrow> tree_view t' k = Some v"
proof -
  have "tree_ok t' \<and> (tree_view t k = Some v \<longrightarrow> tree_view t' k = Some v)"
  proof (cases r)
    case (Inl err)
    then show ?thesis using assms write_records_Inl by blast
  next
    case (Inr m)
    with assms(2) obtain d content where w: "d \<notin> set (tree_dirs t)" "d \<in> set (tree_dirs t')" "set (tree_dirs t) \<subseteq> set (tree_dirs t')"
      "am_path m = d @ [path_name (path_of dataset) @ ''.parquet'']" "am_file m = d @ [''manifest.json'']"
      "map_of (tree_files t') = (map_of (tree_files t))(am_path m \<mapsto> content,
        am_file m \<mapsto> dumps indented_style (JObj (as_dict m)) @ newline)"
      by (metis write_records_Inr)
    have "p \<noteq> am_path m" "p \<noteq> am_file m" if "is_file t p" for p
      using that assms(1) w(1,4,5) by (auto simp: tree_ok_def)
    then show ?thesis
      using assms(1) w by (auto simp: tree_ok_def is_file_def tree_view_def split: sum.splits if_splits)
  qed
  then show "tree_ok t'" and "tree_view t k = Some v \<Longrightarrow> tree_view t' k = Some v" by auto
qed

datatype store_op =
    Put fpath string "jrow list" string "string option" datetime
  | Archive fpath "string list" string string raw_call
  | ArchiveIFind fpath "string list" string raw_call

definition store_step :: "store_env \<Rightarrow> tree \<Rightarrow> store_op \<Rightarrow> tree" where
  "store_step e t op = (case op of
     Put base dataset rows layer version now \<Rightarrow> snd (write_records e base dataset rows layer version now t)
   | Archive base secrets provider dataset q \<Rightarrow> snd (archive_response e base secrets provider dataset q t)
   | ArchiveIFind base secrets interface_name q \<Rightarrow> snd (ifind_archive e base secrets interface_name q t))"

lemma snd_write_or_reuse:
  "snd (write_or_reuse e base dataset r version file now t) = snd (write_records e base dataset [r] ''raw'' (Some version) now t)"
  by (auto simp: write_or_reuse_def split: prod.splits sum.splits)

lemma store_step_write:
  "store_step e t op = t \<or>
   (\<exists>base dataset rows layer version now. store_step e t op = snd (write_records e base dataset rows layer version now t))"
  by (cases op; simp add: store_step_def archive_response_def ifind_archive_def Let_def snd_write_or_reuse; blast)

lemma store_step_keeps:
  assumes "tree_ok t"
  shows "tree_ok (store_step e t op)" and "tree_view t k = Some v \<Longrightarrow> tree_view (store_step e t op) k = Some v"
  using store_step_write[of e t op] assms
  by (elim disjE exE; simp add: write_records_keeps[OF assms surjective_pairing])+

interpretation artifacts: append_only tree_ok "store_step e" tree_view for e
  by unfold_locales (auto intro: store_step_keeps)

section \<open>An artifact in every later state\<close>

definition store_run :: "store_env \<Rightarrow> tree \<Rightarrow> store_op list \<Rightarrow> tree" where
  "store_run e = foldl (store_step e)"

lemma path_beside: "d \<noteq> [] \<Longrightarrow> path_parent (d @ [y]) = d" "d \<noteq> [] \<Longrightarrow> path_name (d @ [y]) = y"
  by (simp_all add: path_parent_def path_name_def)

lemma manifest_stands:
  assumes "write_records e base dataset rows layer version now t = (Inr m, t')" and "tree_ok t" and "normal base"
    and "manifest_ascii m"
  obtains content where "encode_records e rows = Inr (content, am_format m)"
    and "am_sha m = sha_hex e content" "am_size m = int (length content)"
    and "map_of (tree_files (store_run e t' ops)) (am_path m) = Some content"
    and "map_of (tree_files (store_run e t' ops)) (am_file m) = Some (dumps indented_style (JObj (as_dict m)) @ newline)"
    and "artifact_dir base layer dataset (am_version m) \<in> set (tree_dirs (store_run e t' ops))"
    and "load_manifest (store_run e t' ops) (am_file m) = Inr (manifest_members m)"
    and "artifact_path e (manifest_members m) (am_file m) = am_path m"
proof -
  obtain d content where w: "d \<in> set (tree_dirs t')" "d = artifact_dir base layer dataset (am_version m)"
    "encode_records e rows = Inr (content, am_format m)"
    "am_path m = d @ [path_name (path_of dataset) @ ''.parquet'']" "am_file m = d @ [''manifest.json'']"
    "am_sha m = sha_hex e content" "am_size m = int (length content)" "safe_dataset dataset"
    "map_of (tree_files t') = (map_of (tree_files t))(am_path m \<mapsto> content,
      am_file m \<mapsto> dumps indented_style (JObj (as_dict m)) @ newline)"
    by (rule write_records_Inr[OF assms(1)])
  define x where "x = path_name (path_of dataset) @ ''.parquet''"
  have x: "part_ok x" "path_of x = [x]" "x \<noteq> ''manifest.json''"
    using safe_dataset_name[OF w(8)] data_file[OF w(8)] by (auto simp: x_def part_ok_def)
  have ok: "tree_ok t'" using write_records_keeps(1)[OF assms(2,1)] .
  note keeps = artifacts.run_keeps[OF ok, of _ _ e ops, folded store_run_def]
  have files: "map_of (tree_files (store_run e t' ops)) (am_path m) = Some content"
    "map_of (tree_files (store_run e t' ops)) (am_file m) = Some (dumps indented_style (JObj (as_dict m)) @ newline)"
    using keeps[of "Inr (am_path m)"] keeps[of "Inr (am_file m)"] w(4,5,9) x(3) by (auto simp: tree_view_def x_def)
  have dirs: "d \<in> set (tree_dirs (store_run e t' ops))"
    using keeps[of "Inl d" "[]"] w(1) by (auto simp: tree_view_def split: if_splits)
  have load: "load_manifest (store_run e t' ops) (am_file m) = Inr (manifest_members m)"
    using files(2) manifest_text[OF assms(4)] by (simp add: load_manifest_def read_file_def)
  have "layer \<in> {''raw'', ''standardized'', ''reports''}" using assms(1) by (auto simp: write_records_def split: if_splits)
  then have d: "d \<noteq> []" using w(2) artifact_dir_nonempty by simp
  have am: "am_path m = d @ [x]" using w(4) by (simp add: x_def)
  have "normal d" using w(2) assms(3) by (simp add: artifact_dir_def)
  then have "normal (path_join d [x])" by (rule normal_join) (use x(1) relative_parts[of "[x]"] in \<open>simp add: normal_def\<close>)
  then have "path_of (path_str (am_path m)) = am_path m" using am join_file[OF x(1)] by simp
  moreover have "map_of (manifest_members m) ''path'' = Some (JText (path_str (am_path m)))"
    by (simp add: manifest_members_get as_dict_def)
  ultimately have "artifact_path e (manifest_members m) (am_file m) = am_path m"
    using am w(5) x(2) join_file[OF x(1)] by (simp add: artifact_path_def jv_str_def Let_def path_beside[OF d])
  then show thesis using that[of content] w files dirs load by blast
qed

lemma verify_written:
  assumes "load_manifest t file = Inr (manifest_members m)" and "map_of (tree_files t) (artifact_path e (manifest_members m) file) = Some content"
    and "am_sha m = sha_hex e content" and "am_size m = int (length content)"
  shows "verify_manifest e t file = Inr True"
proof -
  have "manifest_members m \<noteq> []" using manifest_members_get[of m] by (auto simp: as_dict_def dest: fun_cong[of _ _ "''path''"])
  then show ?thesis using assms by (simp add: verify_manifest_def manifest_fields jv_int_def jv_str_def)
qed

lemma stored_manifest_read:
  assumes "map_of (tree_files t) file = Some (dumps indented_style (JObj (as_dict m)) @ newline)" and "manifest_ascii m"
    and "normal (am_path m)" and "normal (am_file m)"
  shows "stored_manifest e t file = Inr m"
  by (simp add: stored_manifest_def read_file_def assms manifest_text[OF assms(2)] manifest_fields Let_def jv_str_def jv_int_def)

lemma write_existing:
  assumes "layer \<in> {''raw'', ''standardized'', ''reports''}" and "safe_dataset dataset"
    and "encode_records e rows = Inr (content, form)" and "v = version_of e version (sha_hex e content)"
    and "artifact_dir base layer dataset v \<in> set (tree_dirs t)"
  shows "write_records e base dataset rows layer version now t = (Inl FileExists, t)"
proof -
  have "make_directory (artifact_dir base layer dataset v) t = Inl FileExists" using assms(5) by (simp add: make_directory_def)
  then show ?thesis using assms(1-4) by (simp add: write_records_def)
qed

text \<open>A version that was written once is taken for good.\<close>

lemma version_taken:
  assumes "write_records e base dataset rows layer version now t = (Inr m, t')" and "tree_ok t"
  shows "write_records e base dataset rows layer version now' (store_run e t' ops) = (Inl FileExists, store_run e t' ops)"
proof -
  obtain d c where w: "d \<in> set (tree_dirs t')" "d = artifact_dir base layer dataset (am_version m)"
    "am_version m = version_of e version (sha_hex e c)" "encode_records e rows = Inr (c, am_format m)" "safe_dataset dataset"
    by (rule write_records_Inr[OF assms(1)])
  have layer: "layer \<in> {''raw'', ''standardized'', ''reports''}" using assms(1) by (auto simp: write_records_def split: if_splits)
  have "tree_view (store_run e t' ops) (Inl d) = Some []"
    using artifacts.run_keeps[OF write_records_keeps(1)[OF assms(2,1)], of "Inl d" "[]" e ops] w(1)
    by (simp add: tree_view_def store_run_def)
  then have "artifact_dir base layer dataset (am_version m) \<in> set (tree_dirs (store_run e t' ops))"
    using w(2) by (auto simp: tree_view_def split: if_splits)
  then show ?thesis by (rule write_existing[OF layer w(5,4,3)])
qed

text \<open>The lines of the fallback format.\<close>

lemma break_length_ascii:
  assumes "byte c < 128" and "byte c \<ge> 32"
  shows "break_length (c # s) = 0"
proof -
  have "c \<noteq> CHR 0x0D" using assms(2) by auto
  then show ?thesis using assms by (auto simp: break_length_def take_Suc_conv_app_nth)
qed

lemma break_newline: "break_length (CHR 0x0A # s) = 1"
  by (simp add: break_length_def)

definition printable :: "string \<Rightarrow> bool" where
  "printable s \<longleftrightarrow> list_all (\<lambda>c. 32 \<le> byte c \<and> byte c < 128) s"

lemma split_printable: "printable s \<Longrightarrow> split_lines acc (s @ newline @ r) = (rev acc @ s) # split_lines [] r"
proof (induction s arbitrary: acc)
  case Nil
  then show ?case by (simp add: newline_def break_newline)
next
  case (Cons c s)
  then have "break_length (c # s @ newline @ r) = 0" by (intro break_length_ascii) (auto simp: printable_def)
  then show ?case using Cons by (simp add: printable_def)
qed

lemma split_printable_lines: "list_all printable ls \<Longrightarrow> split_lines [] (concat (map (\<lambda>s. s @ newline) ls)) = ls"
  by (induction ls) (simp_all add: split_printable)

lemma printable_simps [simp]:
  "printable []" "printable (c # s) \<longleftrightarrow> 32 \<le> byte c \<and> byte c < 128 \<and> printable s"
  "printable (a @ b) \<longleftrightarrow> printable a \<and> printable b"
  by (auto simp: printable_def)

lemma printable_joined: "printable sep \<Longrightarrow> list_all printable xs \<Longrightarrow> printable (joined sep xs)"
  by (induction sep xs rule: joined.induct) auto

lemma printable_escaped: "byte c < 128 \<Longrightarrow> printable (escaped c)"
  by (auto simp: escaped_def quote_char_def escape_char_def hex_digit_def)

lemma printable_quoted: "ascii s \<Longrightarrow> printable (quoted s)"
  by (induction s) (auto simp: quoted_def quote_char_def printable_escaped)

lemma printable_int_str: "printable (int_str i)"
proof -
  have "printable (nat_str n)" for n
    using nat_str_digits[of n] by (auto simp: printable_def list_all_iff is_digit_def)
  then show ?thesis by (simp add: int_str_def)
qed

lemma printable_dump: "jv_ascii v \<Longrightarrow> json_ok v \<Longrightarrow> printable (dump compact_style l v)"
proof (induction compact_style l v rule: dump.induct)
  case (6 l vs)
  then show ?case by (auto simp: list_all_iff compact_style_def intro!: printable_joined)
next
  case (7 l kvs)
  then show ?case by (auto simp: list_all_iff compact_style_def printable_quoted intro!: printable_joined)
qed (auto simp: printable_int_str printable_quoted)

lemma read_fallback:
  assumes "load_manifest t file = Inr (manifest_members m)" and "am_format m = ''jsonl-fallback''"
    and "map_of (tree_files t) (artifact_path e (manifest_members m) file) = Some content" and "utf8_valid content"
  shows "read_records e t file = map_res (\<lambda>line. case loads line of
      None \<Rightarrow> Inl (ValueError ''JSONDecodeError'') | Some v \<Rightarrow> Inr v) (split_lines [] content)"
proof -
  have "map_of (manifest_members m) ''format'' = Some (JText ''jsonl-fallback'')"
    using assms(2) by (simp add: manifest_members_get as_dict_def)
  then show ?thesis using assms by (simp add: read_records_def read_file_def Let_def)
qed

lemma rows_read_back:
  assumes "list_all (\<lambda>r. json_ok (JObj r) \<and> jv_ascii (JObj r)) rows"
  shows "utf8_valid (concat (map (\<lambda>r. canonical_row r @ newline) rows))"
    and "map_res (\<lambda>line. case loads line of None \<Rightarrow> Inl (ValueError ''JSONDecodeError'') | Some v \<Rightarrow> Inr v)
      (split_lines [] (concat (map (\<lambda>r. canonical_row r @ newline) rows))) = Inr (map (\<lambda>r. sort_keys (JObj r)) rows)"
proof -
  have row: "printable (canonical_row r)" "loads (canonical_row r) = Some (sort_keys (JObj r))" if "r \<in> set rows" for r
    using that assms printable_dump[OF ascii_sort_keys json_ok_sort_keys, of "JObj r" 0]
      loads_dumps[OF style_ok_styles(1), of "JObj r" "[]"]
    by (auto simp: list_all_iff canonical_row_def dumps_def spaces_def simp del: sort_keys.simps json_ok.simps jv_ascii.simps)
  have "ascii s" if "printable s" for s using that by (auto simp: printable_def ascii_def list_all_iff)
  then have "ascii (concat (map (\<lambda>r. canonical_row r @ newline) rows))"
    using row(1) by (induction rows) (auto simp: newline_def)
  then show "utf8_valid (concat (map (\<lambda>r. canonical_row r @ newline) rows))" by (rule ascii_utf8)
  have "split_lines [] (concat (map (\<lambda>s. s @ newline) (map canonical_row rows))) = map canonical_row rows"
    using row(1) by (intro split_printable_lines) (simp add: list_all_iff)
  moreover have "map_res (\<lambda>line. case loads line of None \<Rightarrow> Inl (ValueError ''JSONDecodeError'') | Some v \<Rightarrow> Inr v)
      (map canonical_row rs) = Inr (map (\<lambda>r. sort_keys (JObj r)) rs)" if "set rs \<subseteq> set rows" for rs
    using that by (induction rs) (auto simp: row(2) simp del: sort_keys.simps)
  ultimately show "map_res (\<lambda>line. case loads line of None \<Rightarrow> Inl (ValueError ''JSONDecodeError'') | Some v \<Rightarrow> Inr v)
      (split_lines [] (concat (map (\<lambda>r. canonical_row r @ newline) rows))) = Inr (map (\<lambda>r. sort_keys (JObj r)) rows)"
    by (simp add: comp_def)
qed

text \<open>Writing the same version again.\<close>

definition encodes :: "store_env \<Rightarrow> bool" where
  "encodes e \<longleftrightarrow> (\<forall>rows. \<exists>c. encode_records e rows = Inr c)"

lemma reuse_after_write:
  fixes ops :: "store_op list"
  assumes "write_records e base dataset [r] ''raw'' (Some version) now t = (Inr m, t')" and "tree_ok t" and "normal base"
    and "manifest_ascii m" and "version \<noteq> []" and "encode_records e [r'] = Inr (content, form)"
  defines "u \<equiv> store_run e t' ops"
  shows "write_or_reuse e base dataset r' version (path_join (artifact_dir base ''raw'' dataset version) [''manifest.json'']) now' u = (Inr m, u)"
proof -
  let ?d = "artifact_dir base ''raw'' dataset version"
  have v: "version_of e (Some version) h = version" for h using assms(5) by (simp add: version_of_def)
  obtain d c where w: "am_version m = version_of e (Some version) (sha_hex e c)" "safe_dataset dataset"
    "d = artifact_dir base ''raw'' dataset (am_version m)" "am_file m = d @ [''manifest.json'']"
    "am_path m = d @ [path_name (path_of dataset) @ ''.parquet'']"
    by (rule write_records_Inr[OF assms(1)])
  obtain c' where s: "map_of (tree_files u) (am_file m) = Some (dumps indented_style (JObj (as_dict m)) @ newline)"
    "artifact_dir base ''raw'' dataset (am_version m) \<in> set (tree_dirs u)"
    unfolding u_def by (rule manifest_stands[OF assms(1-4), of ops])
  have parts: "part_ok ''manifest.json''" "part_ok (path_name (path_of dataset) @ ''.parquet'')"
    using safe_dataset_name[OF w(2)] by (auto simp: part_ok_def)
  have "normal ?d" using assms(3) by (simp add: artifact_dir_def)
  then have "normal (path_join ?d [y])" if "part_ok y" for y
    using that relative_parts[of "[y]"] by (intro normal_join) (simp_all add: normal_def)
  then have "normal (am_path m)" "normal (am_file m)" using w v join_file parts by simp_all
  then have "stored_manifest e u (am_file m) = Inr m" by (rule stored_manifest_read[OF s(1) assms(4)])
  moreover have "am_file m = path_join ?d [''manifest.json'']" using w join_file[OF parts(1)] v by simp
  moreover have "write_records e base dataset [r'] ''raw'' (Some version) now' u = (Inl FileExists, u)"
    by (rule write_existing[OF _ w(2) assms(6)]) (use s(2) w(1) v in auto)
  ultimately show ?thesis by (simp add: write_or_reuse_def)
qed

lemma reuse_after_reuse:
  fixes ops :: "store_op list"
  assumes "stored_manifest e t file = Inr m" and "tree_ok t" and "version \<noteq> []"
    and "write_records e base dataset [r] ''raw'' (Some version) now t = (Inl FileExists, t)"
    and "encode_records e [r] = Inr x" and "encode_records e [r'] = Inr (content, form)"
  defines "u \<equiv> store_run e t ops"
  shows "write_or_reuse e base dataset r' version file now' u = (Inr m, u)"
proof -
  let ?d = "artifact_dir base ''raw'' dataset version"
  have v: "version_of e (Some version) h = version" for h using assms(3) by (simp add: version_of_def)
  have ds: "safe_dataset dataset" and full: "?d \<in> set (tree_dirs t) \<or> is_file t ?d"
    using assms(4,5) v by (auto simp: write_records_def Let_def make_directory_def split: if_splits sum.splits prod.splits)
  note keeps = artifacts.run_keeps[OF assms(2), of _ _ e ops, folded store_run_def, folded u_def]
  have "?d \<in> set (tree_dirs u) \<or> is_file u ?d"
    using full keeps[of "Inl ?d" "[]"] keeps[of "Inr ?d"] by (auto simp: tree_view_def is_file_def split: if_splits)
  then have "make_directory ?d u = Inl FileExists" by (simp add: make_directory_def)
  then have "write_records e base dataset [r'] ''raw'' (Some version) now' u = (Inl FileExists, u)"
    using ds assms(6) v by (simp add: write_records_def)
  moreover obtain s where "map_of (tree_files t) file = Some s"
    using assms(1) by (auto simp: stored_manifest_def read_file_def split: option.splits)
  then have "stored_manifest e u file = stored_manifest e t file"
    using keeps[of "Inr file" s] by (simp add: stored_manifest_def read_file_def tree_view_def)
  ultimately show ?thesis using assms(1) by (simp add: write_or_reuse_def)
qed

lemma reuse_again:
  assumes "write_or_reuse e base dataset r version file now t = (Inr m, t')" and "tree_ok t" and "normal base"
    and "encodes e" and "manifest_ascii m" and "version \<noteq> []"
    and "safe_dataset dataset \<Longrightarrow> file = path_join (artifact_dir base ''raw'' dataset version) [''manifest.json'']"
  shows "write_or_reuse e base dataset r' version file now' (store_run e t' ops) = (Inr m, store_run e t' ops)"
proof (cases "write_records e base dataset [r] ''raw'' (Some version) now t")
  case (Pair x t1)
  obtain content form where enc: "encode_records e [r'] = Inr (content, form)"
    using assms(4) by (metis encodes_def surj_pair)
  show ?thesis
  proof (cases x)
    case (Inr m1)
    then have m1: "write_records e base dataset [r] ''raw'' (Some version) now t = (Inr m, t')"
      using Pair assms(1) by (simp add: write_or_reuse_def)
    have "safe_dataset dataset" by (rule write_records_Inr[OF m1])
    then show ?thesis using reuse_after_write[OF m1 assms(2,3,5,6) enc] assms(7) by simp
  next
    case (Inl err)
    then have r: "err = FileExists" "stored_manifest e t file = Inr m" "t' = t"
      using Pair assms(1) write_records_Inl[of e base dataset "[r]" "''raw''" "Some version" now t err t1]
      by (auto simp: write_or_reuse_def split: if_splits)
    obtain x1 where "encode_records e [r] = Inr x1" using assms(4) by (metis encodes_def)
    moreover have "write_records e base dataset [r] ''raw'' (Some version) now t = (Inl FileExists, t)"
      using Pair Inl r(1) write_records_Inl[of e base dataset "[r]" "''raw''" "Some version" now t err t1] by simp
    ultimately show ?thesis using reuse_after_reuse[OF r(2) assms(2,6) _ _ enc] r(3) by simp
  qed
qed

lemma path_of_manifest: "path_of ''manifest.json'' = [''manifest.json'']" "path_of ''raw'' = [''raw'']"
  by code_simp+

lemma path_name_part: "path_name (path_of s) = [] \<or> part_ok (path_name (path_of s))"
proof (cases "path_of s = [] \<or> absolute (path_of s) \<and> length (path_of s) = 1")
  case False
  then have "last (path_of s) \<in> set (if absolute (path_of s) then tl (path_of s) else path_of s)"
    by (cases "path_of s") auto
  then show ?thesis using normal_path_of[of s] False by (auto simp: path_name_def normal_def list_all_iff split: if_splits)
qed (auto simp: path_name_def)

lemma simple_archive_file:
  assumes "provider \<noteq> []" and "path_name (path_of provider) = provider" and "take 1 dataset \<noteq> ''/''"
  shows "archive_file base [provider, dataset, v] = path_join (artifact_dir base ''raw'' (provider @ ''/'' @ dataset) v) [''manifest.json'']"
proof -
  have p: "part_ok provider" using path_name_part[of provider] assms(1,2) by auto
  have r: "path_root provider = []" "path_root (provider @ ''/'' @ dataset) = []" "path_root dataset = []"
    using part_head[OF p] assms(1,3) by (cases provider; simp add: path_root_def)+
  have s: "path_of provider = [provider]" "path_of (provider @ ''/'' @ dataset) = provider # path_of dataset"
    using p r split_on_append[of "CHR ''/''" provider dataset] by (auto simp: path_of_def part_ok_def split_on_no_sep)
  have "\<not> absolute (path_of dataset)" "\<not> absolute [provider]" "\<not> absolute (provider # path_of dataset)"
    using r(3) relative_parts[OF path_of_parts[of dataset]] part_head[OF p] by (auto simp: path_of_def absolute_def)
  then show ?thesis by (simp add: archive_file_def artifact_dir_def path_of_manifest s s(2)[simplified] path_join_def)
qed

section \<open>Properties\<close>

text \<open>
  C34: an artifact that was written, with texts in ASCII, verifies against its manifest in every later
  state of the store, whatever is written or archived afterwards: its bytes and its manifest stay as
  they are, and the version cannot be written again.
\<close>

theorem artifacts_stay_verified:
  assumes "write_records e base dataset rows layer version now t = (Inr m, t')" and "tree_ok t" and "normal base"
    and "manifest_ascii m"
  shows "verify_manifest e (store_run e t' ops) (am_file m) = Inr True \<and>
    tree_view (store_run e t' ops) (Inr (am_path m)) = tree_view t' (Inr (am_path m)) \<and>
    fst (write_records e base dataset rows layer version now' (store_run e t' ops)) = Inl FileExists"
proof -
  obtain content where s: "encode_records e rows = Inr (content, am_format m)" "am_sha m = sha_hex e content"
    "am_size m = int (length content)" "map_of (tree_files (store_run e t' ops)) (am_path m) = Some content"
    "load_manifest (store_run e t' ops) (am_file m) = Inr (manifest_members m)"
    "artifact_path e (manifest_members m) (am_file m) = am_path m"
    by (rule manifest_stands[OF assms, of ops])
  obtain c where w: "map_of (tree_files t') (am_path m) = Some c" "encode_records e rows = Inr (c, am_format m)"
  proof (rule write_records_Inr[OF assms(1)])
    fix d c
    assume "map_of (tree_files t') = (map_of (tree_files t))(am_path m \<mapsto> c, am_file m \<mapsto> dumps indented_style (JObj (as_dict m)) @ newline)"
      "am_path m = d @ [path_name (path_of dataset) @ ''.parquet'']" "am_file m = d @ [''manifest.json'']" "safe_dataset dataset"
      "encode_records e rows = Inr (c, am_format m)"
    then show thesis using that[of c] data_file(2)[of dataset] by auto
  qed
  have "write_records e base dataset rows layer version now' (store_run e t' ops) = (Inl FileExists, store_run e t' ops)"
    by (rule version_taken[OF assms(1,2)])
  then show ?thesis using s w(1,2) verify_written[of _ "am_file m" m e content] by (simp add: tree_view_def)
qed

text \<open>
  archiving a response again, after whatever else was stored, returns the manifest of the first
  time and leaves the store as it is, though request, status and time differ: the version is the hash
  of the redacted body. It holds for both archives.
\<close>

theorem archives_replay:
  assumes "tree_ok t" and "normal base" and "encodes e" and "manifest_ascii m"
    and "canonical_body secrets q' = canonical_body secrets q"
  shows "(archive_response e base secrets provider dataset q t = (Inr m, t') \<and> take 1 dataset \<noteq> ''/'' \<longrightarrow>
      archive_response e base secrets provider dataset q' (store_run e t' ops) = (Inr m, store_run e t' ops)) \<and>
    (ifind_archive e base secrets dataset q t = (Inr m, t') \<longrightarrow>
      ifind_archive e base secrets dataset q' (store_run e t' ops) = (Inr m, store_run e t' ops))"
proof (intro conjI impI; (elim conjE)?)
  let ?v = "archive_version e (canonical_body secrets q)"
  have v: "?v \<noteq> []" by (simp add: archive_version_def)
  note again = reuse_again[OF _ assms(1-4) v]
  assume a: "archive_response e base secrets provider dataset q t = (Inr m, t')" and rel: "take 1 dataset \<noteq> ''/''"
  then have p: "provider \<noteq> []" "path_name (path_of provider) = provider" by (auto simp: archive_response_def split: if_splits)
  have "archive_file base [provider, dataset, ?v] = path_join (artifact_dir base ''raw'' (provider @ ''/'' @ dataset) ?v) [''manifest.json'']"
    by (rule simple_archive_file[OF p rel])
  then show "archive_response e base secrets provider dataset q' (store_run e t' ops) = (Inr m, store_run e t' ops)"
    using again a p assms(5) by (simp add: archive_response_def Let_def)
next
  let ?v = "archive_version e (canonical_body secrets q)"
  have v: "?v \<noteq> []" by (simp add: archive_version_def)
  assume "ifind_archive e base secrets dataset q t = (Inr m, t')"
  then show "ifind_archive e base secrets dataset q' (store_run e t' ops) = (Inr m, store_run e t' ops)"
    using reuse_again[OF _ assms(1-4) v] assms(5) by (simp add: ifind_archive_def Let_def archive_file_def artifact_dir_def path_of_manifest)
qed

text \<open>
  C35: without the Parquet library, rows of JSON values with ASCII texts are read back as they were
  written, up to the order of their keys, in every later state of the store.
\<close>

theorem fallback_rows_round_trip:
  assumes "write_records e base dataset rows layer version now t = (Inr m, t')" and "tree_ok t" and "normal base"
    and "manifest_ascii m" and "parquet_write e = None"
    and "list_all (\<lambda>r. json_ok (JObj r) \<and> jv_ascii (JObj r)) rows"
  shows "read_records e (store_run e t' ops) (am_file m) = Inr (map (\<lambda>r. sort_keys (JObj r)) rows)"
proof (rule manifest_stands[OF assms(1-4), of ops])
  fix content
  assume s: "encode_records e rows = Inr (content, am_format m)"
    "map_of (tree_files (store_run e t' ops)) (am_path m) = Some content"
    "load_manifest (store_run e t' ops) (am_file m) = Inr (manifest_members m)"
    "artifact_path e (manifest_members m) (am_file m) = am_path m"
  then have c: "content = concat (map (\<lambda>r. canonical_row r @ newline) rows)" "am_format m = ''jsonl-fallback''"
    using assms(5) by (simp_all add: encode_records_def)
  show ?thesis using read_fallback[OF s(3) c(2), of e content] s(2,4) rows_read_back[OF assms(6)] c(1) by simp
qed

text \<open>A small store.\<close>

definition sample_store :: store_env where
  "sample_store = \<lparr>sha_hex = (\<lambda>s. map (\<lambda>k. hex_digit (foldl (\<lambda>h c. (k * h + byte c) mod 16) 7 s)) [3, 5, 7, 11]), parquet_write = None,
     parquet_read = (\<lambda>s. Inl FileNotFound), container_str = (\<lambda>v. []), float_int = (\<lambda>s. Inr 0)\<rparr>"

definition empty_tree :: tree where "empty_tree = \<lparr>tree_files = [], tree_dirs = []\<rparr>"

definition sample_rows :: "jrow list" where
  "sample_rows = [[(''symbol'', JText ''600000.SH''), (''close'', JText ''10.10'')], [(''n'', JInt (- 7)), (''l'', JList [JBool True, JNull])]]"

definition sample_now :: datetime where "sample_now = \<lparr>wall = 739000 * day_us, utcoff = Some 0\<rparr>"

definition sample_content :: string where
  "sample_content = concat (map (\<lambda>r. canonical_row r @ newline) sample_rows)"

definition sample_manifest :: manifest where
  "sample_manifest = manifest_of sample_store ''bars'' ''raw'' ''v1'' [''data'', ''raw'', ''bars'', ''v1''] sample_content
     ''jsonl-fallback'' 2 sample_now"

definition sample_written :: tree where
  "sample_written = write_manifest sample_manifest (write_file (am_path sample_manifest) sample_content
     (empty_tree\<lparr>tree_dirs := [[''data''], [''data'', ''raw''], [''data'', ''raw'', ''bars''], [''data'', ''raw'', ''bars'', ''v1'']]\<rparr>))"

lemma sample_dir:
  "safe_dataset ''bars''" "artifact_dir [''data''] ''raw'' ''bars'' ''v1'' = [''data'', ''raw'', ''bars'', ''v1'']"
  "make_directory [''data'', ''raw'', ''bars'', ''v1''] empty_tree = Inr (empty_tree\<lparr>tree_dirs :=
     [[''data''], [''data'', ''raw''], [''data'', ''raw'', ''bars''], [''data'', ''raw'', ''bars'', ''v1'']]\<rparr>)"
  by code_simp+

lemma sample_write:
  "write_records sample_store [''data''] ''bars'' sample_rows ''raw'' (Some ''v1'') sample_now empty_tree =
     (Inr sample_manifest, sample_written)"
proof -
  have "encode_records sample_store sample_rows = Inr (sample_content, ''jsonl-fallback'')"
    by (simp add: encode_records_def sample_store_def sample_content_def)
  moreover have "length sample_rows = 2" by (simp add: sample_rows_def)
  ultimately show ?thesis
    by (simp add: write_records_def sample_dir version_of_def sample_manifest_def sample_written_def Let_def)
qed

lemma sample_time: "datetime_text CHR ''T'' (as_utc sample_now) = ''2024-04-24T00:00:00+00:00''"
  by code_simp

lemma sample_paths: "path_join [''data'', ''raw'', ''bars'', ''v1''] (path_of (path_name (path_of ''bars'') @ ''.parquet'')) =
    [''data'', ''raw'', ''bars'', ''v1'', ''bars.parquet'']"
  "path_join [''data'', ''raw'', ''bars'', ''v1''] [''manifest.json''] = [''data'', ''raw'', ''bars'', ''v1'', ''manifest.json'']"
  by code_simp+

lemma ascii_hex_digit: "n < 16 \<Longrightarrow> byte (hex_digit n) < 128"
  by (simp add: hex_digit_def)

lemma fold_mod: "n < m \<Longrightarrow> foldl (\<lambda>h c. f h c mod m) n xs < (m::nat)"
  by (induction xs rule: rev_induct) auto

lemma sample_hash: "ascii (sha_hex sample_store s)"
  by (simp add: sample_store_def ascii_hex_digit fold_mod)

lemma sample_store_ok:
  "tree_ok empty_tree" "normal [''data'']" "encodes sample_store" "parquet_write sample_store = None"
  "manifest_ascii sample_manifest"
proof -
  show "tree_ok empty_tree" "encodes sample_store" "parquet_write sample_store = None"
    by (simp_all add: tree_ok_def is_file_def empty_tree_def encodes_def encode_records_def sample_store_def)
  show "normal [''data'']" by code_simp
  show "manifest_ascii sample_manifest"
    by (simp add: sample_hash manifest_ascii_def sample_manifest_def manifest_of_def sample_time sample_paths path_str_def absolute_def)
qed

theorem artifacts_stay_verified_witness:
  "verify_manifest sample_store (store_run sample_store sample_written
     [Put [''data''] ''bars'' sample_rows ''raw'' (Some ''v2'') sample_now]) (am_file sample_manifest) = Inr True"
  using artifacts_stay_verified[OF sample_write sample_store_ok(1,2,5)] by blast

theorem fallback_rows_round_trip_witness:
  "read_records sample_store (store_run sample_store sample_written []) (am_file sample_manifest) =
     Inr [JObj [(''close'', JText ''10.10''), (''symbol'', JText ''600000.SH'')],
       JObj [(''l'', JList [JBool True, JNull]), (''n'', JInt (- 7))]]"
proof -
  have "list_all (\<lambda>r. json_ok (JObj r) \<and> jv_ascii (JObj r)) sample_rows" by code_simp
  moreover have "map (\<lambda>r. sort_keys (JObj r)) sample_rows = [JObj [(''close'', JText ''10.10''), (''symbol'', JText ''600000.SH'')],
       JObj [(''l'', JList [JBool True, JNull]), (''n'', JInt (- 7))]]" by code_simp
  ultimately show ?thesis using fallback_rows_round_trip[OF sample_write sample_store_ok(1,2,5,4)] by simp
qed

definition sample_call :: raw_call where
  "sample_call = \<lparr>rc_request = [(''codes'', JText ''600000.SH'')], rc_status = Some 200,
     rc_body = JObj [(''rows'', JList [JText ''as3crt'']), (''access_token'', JText ''t'')], rc_mapping = ''v1'',
     rc_pulled = None, rc_now = sample_now\<rparr>"

lemma sample_body:
  "canonical_body [''s3cr''] sample_call = [CHR ''{'', quote_char] @ ''access_token'' @ [quote_char, CHR '':'', quote_char] @ ''***'' @
     [quote_char, CHR '','', quote_char] @ ''rows'' @ [quote_char, CHR '':'', CHR ''['', quote_char] @ ''a***t'' @ [quote_char, CHR '']'', CHR ''}'']"
  by code_simp

lemma sample_version: "archive_version sample_store (canonical_body [''s3cr''] sample_call) = ''v-f937''"
  unfolding sample_body by code_simp

definition sample_archive_dir :: fpath where
  "sample_archive_dir = [''data'', ''raw'', ''history'', ''v-f937'']"

definition sample_archived :: manifest where
  "sample_archived = manifest_of sample_store ''history'' ''raw'' ''v-f937'' sample_archive_dir
     (canonical_row (ifind_row sample_store [''s3cr''] ''history'' sample_call) @ newline) ''jsonl-fallback'' 1 sample_now"

lemma sample_archive_write:
  "safe_dataset ''history''" "artifact_dir [''data''] ''raw'' ''history'' ''v-f937'' = sample_archive_dir"
  "make_directory sample_archive_dir empty_tree = Inr (empty_tree\<lparr>tree_dirs :=
     [[''data''], [''data'', ''raw''], [''data'', ''raw'', ''history''], sample_archive_dir]\<rparr>)"
  "path_str (path_join sample_archive_dir (path_of (path_name (path_of ''history'') @ ''.parquet''))) = ''data/raw/history/v-f937/history.parquet''"
  "path_str (path_join sample_archive_dir [''manifest.json'']) = ''data/raw/history/v-f937/manifest.json''"
  by code_simp+

lemma sample_archive:
  "\<exists>t'. ifind_archive sample_store [''data''] [''s3cr''] ''history'' sample_call empty_tree = (Inr sample_archived, t')"
  "manifest_ascii sample_archived"
proof -
  have "rc_now sample_call = sample_now" by (simp add: sample_call_def)
  then show "\<exists>t'. ifind_archive sample_store [''data''] [''s3cr''] ''history'' sample_call empty_tree = (Inr sample_archived, t')"
    by (simp add: ifind_archive_def sample_version write_or_reuse_def write_records_def encode_records_def Let_def
        sample_archive_write version_of_def sample_archived_def sample_store_ok(4))
  show "manifest_ascii sample_archived"
    by (simp add: sample_hash manifest_ascii_def sample_archived_def manifest_of_def sample_time sample_archive_write)
qed

theorem archives_replay_witness:
  "\<exists>t'. ifind_archive sample_store [''data''] [''s3cr''] ''history'' (sample_call\<lparr>rc_status := None\<rparr>) t' = (Inr sample_archived, t')"
proof -
  obtain t' where a: "ifind_archive sample_store [''data''] [''s3cr''] ''history'' sample_call empty_tree = (Inr sample_archived, t')"
    using sample_archive(1) by blast
  have "canonical_body [''s3cr''] (sample_call\<lparr>rc_status := None\<rparr>) = canonical_body [''s3cr''] sample_call"
    by (simp add: canonical_body_def)
  from archives_replay[OF sample_store_ok(1,2,3) sample_archive(2) this, of "''x''" "''history''" t' "[]"]
  have "ifind_archive sample_store [''data''] [''s3cr''] ''history'' (sample_call\<lparr>rc_status := None\<rparr>) (store_run sample_store t' []) =
      (Inr sample_archived, store_run sample_store t' [])" using a by blast
  then show ?thesis by blast
qed

text \<open>
  A line separator that JSON leaves as it is breaks the line in two: the row is written and verifies, but
  cannot be read back.
\<close>

lemma line_separator_unreadable:
  "map (\<lambda>line. loads line) (split_lines [] (canonical_row [(''a'', JText [CHR 0xE2, CHR 0x80, CHR 0xA8])] @ newline)) = [None, None]"
  by code_simp

end
