(* ===== verification/CrossCheck.thy ===== *)
theory CrossCheck
  imports Rows
begin

text \<open>
  The read-only cross-check of published bars against a second source: \<open>compare_ohlcv\<close> of
  \<open>app/infrastructure/akshare/validation.py\<close>, with the arithmetic of Python's \<open>Decimal\<close> on special
  values. A signalling NaN is taken for a quiet one. The adapter around it is a client of the AKShare
  library.
\<close>

section \<open>Special values\<close>

text \<open>Subtraction, absolute value, division and order of decimals that may be infinite or no number.\<close>

fun dv_sub :: "dec_value \<Rightarrow> dec_value \<Rightarrow> dec_value res" where
  "dv_sub (Finite x) (Finite y) = Inr (Finite (dsub x y))"
| "dv_sub NotANumber y = Inr NotANumber"
| "dv_sub x NotANumber = Inr NotANumber"
| "dv_sub (Infinite n) (Infinite k) = (if n = k then Inl InvalidOperation else Inr (Infinite n))"
| "dv_sub (Infinite n) (Finite y) = Inr (Infinite n)"
| "dv_sub (Finite x) (Infinite k) = Inr (Infinite (\<not> k))"

text \<open>\<open>abs(x)\<close> rounds a finite value to the precision.\<close>

fun dv_abs :: "dec_value \<Rightarrow> dec_value" where
  "dv_abs (Finite x) = Finite (drnd \<bar>x\<bar>)" | "dv_abs (Infinite n) = Infinite False" | "dv_abs NotANumber = NotANumber"

fun dv_greater :: "dec_value \<Rightarrow> dec_value \<Rightarrow> bool res" where
  "dv_greater NotANumber y = Inl InvalidOperation"
| "dv_greater x NotANumber = Inl InvalidOperation"
| "dv_greater (Finite x) (Finite y) = Inr (x > y)"
| "dv_greater (Infinite n) (Infinite k) = Inr (\<not> n \<and> k)"
| "dv_greater (Infinite n) (Finite y) = Inr (\<not> n)"
| "dv_greater (Finite x) (Infinite k) = Inr k"

fun dv_div :: "dec_value \<Rightarrow> dec_value \<Rightarrow> dec_value res" where
  "dv_div NotANumber y = Inr NotANumber"
| "dv_div x NotANumber = Inr NotANumber"
| "dv_div (Finite x) (Finite y) = map_sum id Finite (ddiv x y)"
| "dv_div (Infinite n) (Infinite k) = Inl InvalidOperation"
| "dv_div (Infinite n) (Finite y) = Inr (Infinite (n \<noteq> (y < 0)))"
| "dv_div (Finite x) (Infinite k) = Inr (Finite 0)"

text \<open>\<open>==\<close> and \<open>max(a, b)\<close>, which keeps the first unless the second is greater.\<close>

definition dv_equal :: "dec_value \<Rightarrow> dec_value \<Rightarrow> bool" where
  "dv_equal x y \<longleftrightarrow> x = y \<and> x \<noteq> NotANumber"

definition dv_max :: "dec_value \<Rightarrow> dec_value \<Rightarrow> dec_value res" where
  "dv_max a b = andThen (dv_greater b a) (\<lambda>g. Inr (if g then b else a))"

section \<open>Reading rows\<close>

definition check_decimal :: "pyval \<Rightarrow> dec_value option" where
  "check_decimal v = (if v \<in> {PNone, PText []} then None else parse_decimal (filter (\<lambda>c. c \<noteq> CHR '','') (py_str v)))"

definition exchange_code :: "pyval \<Rightarrow> string" where
  "exchange_code v =
     (let code = upper (strip (if truthy v then py_str v else [])) in
      if CHR ''.'' \<in> set code then code
      else if length code = 6
      then code @ (if hd code \<in> {CHR ''5'', CHR ''6'', CHR ''9''} then ''.SH'' else ''.SZ'')
      else code)"

definition day_text :: "pyval \<Rightarrow> string" where "day_text v = take 10 (py_str v)"

text \<open>\<open>a or b or ...\<close>: the first true value, or the last one.\<close>

fun first_true :: "pyval list \<Rightarrow> pyval" where
  "first_true [] = PNone"
| "first_true [v] = v"
| "first_true (v # vs) = (if truthy v then v else first_true vs)"

type_synonym bar_key = "string \<times> string"

definition check_key :: "row \<Rightarrow> bar_key" where
  "check_key r = (exchange_code (first_true [row_get r ''symbol'', row_get r ''ts_code'', row_get r ''code'']),
     day_text (first_true [row_get r ''trade_date'', row_get r ''date'']))"

definition primary_key :: "row \<Rightarrow> bar_key" where
  "primary_key r = (exchange_code (first_true [row_get r ''symbol'', row_get r ''ts_code'']), day_text (row_get r ''trade_date''))"

section \<open>Comparing\<close>

datatype check_warning =
    RowMissing bar_key
  | FieldMissing bar_key string
  | Difference bar_key string dec_value dec_value dec_value dec_value

record tolerances =
  tol_price :: dec_value
  tol_volume :: dec_value
  tol_amount :: dec_value

definition checked_fields :: "tolerances \<Rightarrow> (string \<times> dec_value) list" where
  "checked_fields t = [(''open'', tol_price t), (''high'', tol_price t), (''low'', tol_price t), (''close'', tol_price t),
     (''volume'', tol_volume t), (''amount'', tol_amount t)]"

definition relative_error :: "dec_value \<Rightarrow> dec_value \<Rightarrow> dec_value res" where
  "relative_error p c = (if dv_equal p c then Inr (Finite 0)
     else andThen (dv_sub p c) (\<lambda>d. andThen (dv_max (dv_abs p) (Finite 1)) (\<lambda>m. dv_div (dv_abs d) m)))"

fun compare_field :: "bar_key \<Rightarrow> row \<Rightarrow> row \<Rightarrow> string \<times> dec_value \<Rightarrow> (check_warning list) res" where
  "compare_field k r other (f, tol) = (case (check_decimal (row_get r f), check_decimal (row_get other f)) of
     (Some p, Some c) \<Rightarrow> andThen (relative_error p c) (\<lambda>err. andThen (dv_greater err tol) (\<lambda>g.
       Inr (if g then [Difference k f p c err tol] else [])))
   | _ \<Rightarrow> Inr [FieldMissing k f])"

definition compare_row :: "tolerances \<Rightarrow> (bar_key, row) dict \<Rightarrow> row \<Rightarrow> (check_warning list) res" where
  "compare_row t secondary r = (case map_of secondary (primary_key r) of
     None \<Rightarrow> Inr [RowMissing (primary_key r)]
   | Some other \<Rightarrow> andThen (map_res (compare_field (primary_key r) r other) (checked_fields t)) (\<lambda>ws. Inr (concat ws)))"

definition compare_ohlcv :: "tolerances \<Rightarrow> row list \<Rightarrow> row list \<Rightarrow> (check_warning list) res" where
  "compare_ohlcv t primary secondary =
     andThen (map_res (compare_row t (dict_of check_key id secondary)) primary) (\<lambda>ws. Inr (concat ws))"

section \<open>When the comparison stops, and when it is silent\<close>

text \<open>A pair of values whose difference cannot be computed or ordered.\<close>

definition bad_pair :: "dec_value \<Rightarrow> dec_value \<Rightarrow> bool" where
  "bad_pair p c \<longleftrightarrow> p = NotANumber \<or> c = NotANumber \<or> (\<exists>n. p = Infinite n) \<and> p \<noteq> c"

text \<open>Values that agree within a tolerance.\<close>

definition agree :: "dec \<Rightarrow> dec_value \<Rightarrow> dec_value \<Rightarrow> bool" where
  "agree tol p c \<longleftrightarrow> p = c \<or> (case (p, c) of
     (Finite x, Finite y) \<Rightarrow> drnd (drnd \<bar>dsub x y\<bar> / max (drnd \<bar>x\<bar>) 1) \<le> tol | _ \<Rightarrow> False)"

lemma dv_max_one: "dv_max (Finite a) (Finite 1) = Inr (Finite (max a 1))"
  by (simp add: dv_max_def max_def)

lemma relative_error_pair:
  assumes "0 \<le> tol"
  shows "andThen (relative_error p c) (\<lambda>err. andThen (dv_greater err (Finite tol)) (\<lambda>g. Inr (f err g))) =
    (if bad_pair p c then Inl InvalidOperation
     else Inr (f (case relative_error p c of Inr err \<Rightarrow> err) (\<not> agree tol p c)))"
proof (cases "dv_equal p c")
  case True
  then show ?thesis using assms by (auto simp: relative_error_def dv_equal_def bad_pair_def agree_def)
next
  case False
  then show ?thesis
  proof (cases p)
    case (Finite x)
    have "max (drnd \<bar>x\<bar>) 1 \<noteq> 0" by simp
    then show ?thesis using False Finite
      by (cases c) (auto simp: relative_error_def dv_equal_def bad_pair_def agree_def dv_max_one ddiv_def not_le)
  next
    case (Infinite n)
    then show ?thesis using False
      by (cases c) (auto simp: relative_error_def dv_equal_def bad_pair_def dv_max_def)
  qed (simp add: relative_error_def dv_equal_def bad_pair_def dv_max_def)
qed

lemma map_res_map: "map_res f (map g xs) = map_res (\<lambda>x. f (g x)) xs"
  by (induction xs) simp_all

lemma map_res_total:
  assumes "\<And>x. x \<in> set xs \<Longrightarrow> f x = Inl e \<or> (\<exists>y. f x = Inr y)"
  shows "map_res f xs = (if \<exists>x\<in>set xs. f x = Inl e then Inl e else Inr (map (\<lambda>x. case f x of Inr y \<Rightarrow> y) xs))"
  using assms
proof (induction xs)
  case (Cons x xs)
  then show ?case by (cases "f x") (fastforce simp: andThen_def)+
qed simp

text \<open>What the readers of a field see.\<close>

definition field_pair :: "row \<Rightarrow> row \<Rightarrow> string \<Rightarrow> (dec_value \<times> dec_value) option" where
  "field_pair r other f = (case (check_decimal (row_get r f), check_decimal (row_get other f)) of
     (Some p, Some c) \<Rightarrow> Some (p, c) | _ \<Rightarrow> None)"

definition bad_field :: "row \<Rightarrow> row \<Rightarrow> string \<Rightarrow> bool" where
  "bad_field r other f \<longleftrightarrow> (case field_pair r other f of None \<Rightarrow> False | Some (p, c) \<Rightarrow> bad_pair p c)"

definition silent_field :: "row \<Rightarrow> row \<Rightarrow> string \<times> dec \<Rightarrow> bool" where
  "silent_field r other f \<longleftrightarrow> (case field_pair r other (fst f) of None \<Rightarrow> False | Some (p, c) \<Rightarrow> agree (snd f) p c)"

lemma compare_field_result:
  assumes "0 \<le> tol"
  shows "compare_field k r other (f, Finite tol) =
    (if bad_field r other f then Inl InvalidOperation
     else case field_pair r other f of None \<Rightarrow> Inr [FieldMissing k f]
       | Some (p, c) \<Rightarrow> Inr (if agree tol p c then []
           else [Difference k f p c (case relative_error p c of Inr err \<Rightarrow> err) (Finite tol)]))"
proof -
  have "andThen (relative_error p c) (\<lambda>err. andThen (dv_greater err (Finite tol)) (\<lambda>g.
      Inr (if g then [Difference k f p c err (Finite tol)] else []))) =
    (if bad_pair p c then Inl InvalidOperation
     else Inr (if agree tol p c then [] else [Difference k f p c (case relative_error p c of Inr err \<Rightarrow> err) (Finite tol)]))" for p c
    using relative_error_pair[OF assms, of p c "\<lambda>err g. if g then [Difference k f p c err (Finite tol)] else []"] by simp
  then show ?thesis
    by (cases "check_decimal (row_get r f)"; cases "check_decimal (row_get other f)") (simp_all add: bad_field_def field_pair_def)
qed

declare compare_field.simps [simp del]

definition finite_tolerances :: "dec \<Rightarrow> dec \<Rightarrow> dec \<Rightarrow> tolerances" where
  "finite_tolerances p v a = \<lparr>tol_price = Finite p, tol_volume = Finite v, tol_amount = Finite a\<rparr>"

definition field_tolerances :: "dec \<Rightarrow> dec \<Rightarrow> dec \<Rightarrow> (string \<times> dec) list" where
  "field_tolerances p v a = [(''open'', p), (''high'', p), (''low'', p), (''close'', p), (''volume'', v), (''amount'', a)]"

lemma checked_fields_finite: "checked_fields (finite_tolerances p v a) = map (\<lambda>f. (fst f, Finite (snd f))) (field_tolerances p v a)"
  by (simp add: checked_fields_def finite_tolerances_def field_tolerances_def)

definition bad_row :: "(bar_key, row) dict \<Rightarrow> row \<Rightarrow> bool" where
  "bad_row secondary r \<longleftrightarrow> (case map_of secondary (primary_key r) of
     None \<Rightarrow> False | Some other \<Rightarrow> \<exists>f\<in>set [''open'', ''high'', ''low'', ''close'', ''volume'', ''amount'']. bad_field r other f)"

definition silent_row :: "dec \<Rightarrow> dec \<Rightarrow> dec \<Rightarrow> (bar_key, row) dict \<Rightarrow> row \<Rightarrow> bool" where
  "silent_row p v a secondary r \<longleftrightarrow> (case map_of secondary (primary_key r) of
     None \<Rightarrow> False | Some other \<Rightarrow> list_all (silent_field r other) (field_tolerances p v a))"

lemma compare_row_result:
  assumes "0 \<le> p" and "0 \<le> v" and "0 \<le> a"
  shows "bad_row secondary r \<Longrightarrow> compare_row (finite_tolerances p v a) secondary r = Inl InvalidOperation"
    and "\<not> bad_row secondary r \<Longrightarrow> \<exists>ws. compare_row (finite_tolerances p v a) secondary r = Inr ws \<and>
      (ws = [] \<longleftrightarrow> silent_row p v a secondary r)"
proof -
  let ?k = "primary_key r" and ?fs = "field_tolerances p v a"
  have names: "set (map fst ?fs) = set [''open'', ''high'', ''low'', ''close'', ''volume'', ''amount'']"
    by (auto simp: field_tolerances_def)
  have tol: "0 \<le> snd f" if "f \<in> set ?fs" for f using that assms by (auto simp: field_tolerances_def)
  have fields: "compare_field ?k r other (fst f, Finite (snd f)) = Inl InvalidOperation \<longleftrightarrow> bad_field r other (fst f)"
    "\<not> bad_field r other (fst f) \<Longrightarrow>
      \<exists>ws. compare_field ?k r other (fst f, Finite (snd f)) = Inr ws \<and> (ws = [] \<longleftrightarrow> silent_field r other f)"
    if "f \<in> set ?fs" for f other
    unfolding compare_field_result[OF tol[OF that]] by (auto simp: silent_field_def split: option.splits)
  have total: "map_res (\<lambda>f. compare_field ?k r other (fst f, Finite (snd f))) ?fs =
      (if \<exists>f\<in>set ?fs. bad_field r other (fst f) then Inl InvalidOperation
       else Inr (map (\<lambda>f. case compare_field ?k r other (fst f, Finite (snd f)) of Inr ws \<Rightarrow> ws) ?fs))" for other
  proof (subst map_res_total[of _ _ InvalidOperation])
    fix f assume f: "f \<in> set ?fs"
    show "compare_field ?k r other (fst f, Finite (snd f)) = Inl InvalidOperation \<or>
        (\<exists>ws. compare_field ?k r other (fst f, Finite (snd f)) = Inr ws)"
      using fields[OF f, of other] by blast
  qed (simp add: fields(1) cong: bex_cong)
  have bad: "bad_row secondary r \<longleftrightarrow> (\<exists>other. map_of secondary ?k = Some other \<and> (\<exists>f\<in>set ?fs. bad_field r other (fst f)))"
    unfolding bad_row_def names[symmetric] by (auto split: option.splits)
  have row: "compare_row (finite_tolerances p v a) secondary r = (case map_of secondary ?k of None \<Rightarrow> Inr [RowMissing ?k]
      | Some other \<Rightarrow> if \<exists>f\<in>set ?fs. bad_field r other (fst f) then Inl InvalidOperation
        else Inr (concat (map (\<lambda>f. case compare_field ?k r other (fst f, Finite (snd f)) of Inr ws \<Rightarrow> ws) ?fs)))"
    by (cases "map_of secondary ?k") (simp_all add: compare_row_def checked_fields_finite map_res_map total)
  show "bad_row secondary r \<Longrightarrow> compare_row (finite_tolerances p v a) secondary r = Inl InvalidOperation"
    unfolding row bad by (elim exE conjE) simp
  assume good: "\<not> bad_row secondary r"
  show "\<exists>ws. compare_row (finite_tolerances p v a) secondary r = Inr ws \<and> (ws = [] \<longleftrightarrow> silent_row p v a secondary r)"
  proof (cases "map_of secondary ?k")
    case (Some other)
    then have ok: "\<not> bad_field r other (fst f)" if "f \<in> set ?fs" for f using good that bad by blast
    have "(case compare_field ?k r other (fst f, Finite (snd f)) of Inr ws \<Rightarrow> ws) = [] \<longleftrightarrow> silent_field r other f"
      if "f \<in> set ?fs" for f
      using fields(2)[OF that ok[OF that]] by (elim exE conjE) simp
    then show ?thesis using Some ok by (auto simp: row silent_row_def list_all_iff)
  qed (simp add: row silent_row_def)
qed

section \<open>Properties\<close>


definition sample_primary :: row where
  "sample_primary = [(''symbol'', PText ''600000.SH''), (''trade_date'', PText ''2024-01-05''), (''open'', PText ''10.1''), (''high'', PText ''10.4''),
     (''low'', PText ''10''), (''close'', PText ''10.2''), (''volume'', PText ''1000''), (''amount'', PText ''10200'')]"

definition sample_check :: "string \<Rightarrow> row" where
  "sample_check close = [(''code'', PText ''600000''), (''date'', PText ''2024-01-05''), (''open'', PText ''10.10''), (''high'', PText ''10.4''),
     (''low'', PFloat ''10.0''), (''close'', PText close), (''volume'', PText ''1,000''), (''amount'', PText ''10200'')]"

lemma sample_keys: "primary_key sample_primary = (''600000.SH'', ''2024-01-05'')"
  "check_key (sample_check close) = (''600000.SH'', ''2024-01-05'')"
  by (simp_all add: primary_key_def check_key_def sample_primary_def sample_check_def row_get_def dict_get_def exchange_code_def
      day_text_def truthy_def py_str_def upper_def upper_char_def strip_def is_space_def)

lemma parse_nan: "parse_decimal ''NaN'' = Some NotANumber"
  by code_simp

lemma sample_numbers:
  "check_decimal (PText ''10.1'') = Some (Finite (101/10))" "check_decimal (PText ''10.4'') = Some (Finite (104/10))"
  "check_decimal (PText ''10'') = Some (Finite 10)" "check_decimal (PText ''10.2'') = Some (Finite (102/10))"
  "check_decimal (PText ''1000'') = Some (Finite 1000)" "check_decimal (PText ''10200'') = Some (Finite 10200)"
  "check_decimal (PText ''10.10'') = Some (Finite (101/10))" "check_decimal (PFloat ''10.0'') = Some (Finite 10)"
  "check_decimal (PText ''1,000'') = Some (Finite 1000)" "check_decimal (PText ''NaN'') = Some NotANumber"
proof -
  show "check_decimal (PText ''NaN'') = Some NotANumber" by (simp add: check_decimal_def py_str_def parse_nan)
qed (simp_all add: check_decimal_def py_str_def parse_simps)

lemma sample_rows_compared:
  "bad_row (dict_of check_key id [sample_check ''NaN'']) sample_primary"
  "\<not> bad_row (dict_of check_key id [sample_check ''10.2'']) sample_primary"
  "silent_row 0 0 0 (dict_of check_key id [sample_check ''10.2'']) sample_primary"
  by (simp_all add: bad_row_def silent_row_def dict_of_def sample_keys field_tolerances_def bad_field_def silent_field_def field_pair_def)
    (simp_all add: sample_primary_def sample_check_def row_get_def dict_get_def sample_numbers bad_pair_def agree_def)


end
