(* ===== verification/Settings.thy ===== *)
theory Settings
  imports CrossCheck
begin

text \<open>
  The runtime configuration: \<open>load_settings\<close> of \<open>app/core/config.py\<close>. Settings come from three sources, the
  \<open>.env\<close> file, the process environment and explicit overrides, each a map from names to texts (the file
  as the dotenv package reads it). \<open>make_url\<close> of SQLAlchemy and the check of an IPv6 literal in a URL are
  arguments. Texts are ASCII.
\<close>

section \<open>Reading one setting\<close>

type_synonym sources = "string \<Rightarrow> string option"

definition cfg_get :: "sources \<Rightarrow> string \<Rightarrow> string" where
  "cfg_get values k = (case values k of None \<Rightarrow> [] | Some v \<Rightarrow> v)"

definition cfg_item :: "sources \<Rightarrow> string \<Rightarrow> string res" where
  "cfg_item values k = (case values k of None \<Rightarrow> Inl (KeyError k) | Some v \<Rightarrow> Inr v)"

definition config_boolean :: "sources \<Rightarrow> string \<Rightarrow> bool res" where
  "config_boolean values k = (let raw = lower (strip (cfg_get values k)) in
     if raw \<in> {''1'', ''true'', ''yes'', ''on''} then Inr True
     else if raw \<in> {''0'', ''false'', ''no'', ''off'', []} then Inr False
     else Inl (ConfigurationError (k @ '' must be a boolean'')))"

definition config_decimal :: "sources \<Rightarrow> string \<Rightarrow> dec res" where
  "config_decimal values k = (case Option.bind (values k) parse_decimal of
     None \<Rightarrow> Inl (ConfigurationError (k @ '' must be a Decimal''))
   | Some (Finite v) \<Rightarrow> Inr v
   | Some _ \<Rightarrow> Inl (ConfigurationError (k @ '' must be finite'')))"

text \<open>\<open>int(values[k])\<close> within a \<open>try\<close> whose handler has the message.\<close>

definition config_int :: "sources \<Rightarrow> string \<Rightarrow> string \<Rightarrow> int res" where
  "config_int values k msg = (case Option.bind (values k) parse_int of
     None \<Rightarrow> Inl (ConfigurationError msg) | Some i \<Rightarrow> Inr i)"

definition daily_time_parts :: "string \<Rightarrow> (string \<times> string \<times> int \<times> int) option" where
  "daily_time_parts value = (let h = takeWhile (\<lambda>c. c \<noteq> CHR '':'') value; m = drop (Suc (length h)) value in
     if CHR '':'' \<notin> set value then None
     else case (parse_int h, parse_int m) of (Some i, Some j) \<Rightarrow> Some (h, m, i, j) | _ \<Rightarrow> None)"

definition config_time :: "sources \<Rightarrow> string \<Rightarrow> string res" where
  "config_time values k = (let value = strip (cfg_get values k); err = Inl (ConfigurationError (k @ '' must use HH:MM format'')) in
     case daily_time_parts value of
       None \<Rightarrow> err
     | Some (h, m, i, j) \<Rightarrow>
         if \<not> (0 \<le> i \<and> i \<le> 23 \<and> 0 \<le> j \<and> j \<le> 59) \<or> length h \<noteq> 2 \<or> length m \<noteq> 2 then err else Inr value)"

section \<open>Floating-point numbers\<close>

fun bit_length :: "nat \<Rightarrow> nat" where
  "bit_length n = (if n = 0 then 0 else Suc (bit_length (n div 2)))"

declare bit_length.simps [simp del]

text \<open>The largest \<open>k\<close> with \<open>2 ^ k \<le> q\<close>, and the nearest double (ties to even; gradual underflow).\<close>

definition binary_exponent :: "rat \<Rightarrow> int" where
  "binary_exponent q = (case quotient_of q of (n, d) \<Rightarrow>
     let k = int (bit_length (nat n)) - int (bit_length (nat d)) in if 2 powi k \<le> q then k else k - 1)"

definition to_double :: "rat \<Rightarrow> dec_value" where
  "to_double q = (if q = 0 then Finite 0 else
     let e = max (- 1074) (binary_exponent q - 52); v = of_int (round_half_even (q * 2 powi (- e))) * 2 powi e in
     if 1024 \<le> binary_exponent v then Infinite False else Finite v)"

definition underscores_ok :: "string \<Rightarrow> bool" where
  "underscores_ok s \<longleftrightarrow> list_all (\<lambda>i. s ! i = CHR ''_'' \<longrightarrow>
     0 < i \<and> is_digit (s ! (i - 1)) \<and> Suc i < length s \<and> is_digit (s ! Suc i)) [0..<length s]"

text \<open>\<open>float(s)\<close>, or \<open>None\<close> where it raises \<open>ValueError\<close>.\<close>

definition parse_float :: "string \<Rightarrow> dec_value option" where
  "parse_float text = (case split_sign (lower (strip text)) of (neg, s) \<Rightarrow>
     if s = ''inf'' \<or> s = ''infinity'' then Some (Infinite neg)
     else if s = ''nan'' then Some NotANumber
     else if \<not> underscores_ok s then None
     else map_option (\<lambda>q. case to_double q of Finite v \<Rightarrow> Finite (if neg then - v else v) | _ \<Rightarrow> Infinite neg)
            (parse_number (filter (\<lambda>c. c \<noteq> CHR ''_'') s)))"

section \<open>URLs\<close>

definition rstrip_slash :: "string \<Rightarrow> string" where
  "rstrip_slash s = rev (dropWhile (\<lambda>c. c = CHR ''/'') (rev s))"

definition is_alpha :: "char \<Rightarrow> bool" where
  "is_alpha c \<longleftrightarrow> lower_char c \<noteq> upper_char c"

text \<open>The scheme and the rest of the URL, after \<open>urlsplit\<close> dropped blanks and line breaks.\<close>

definition clean_url :: "string \<Rightarrow> string" where
  "clean_url s = filter (\<lambda>c. c \<notin> {CHR 0x09, CHR 0x0A, CHR 0x0D}) (dropWhile (\<lambda>c. (of_char c :: nat) \<le> 32) s)"

definition split_scheme :: "string \<Rightarrow> string \<times> string" where
  "split_scheme s = (let p = takeWhile (\<lambda>c. c \<noteq> CHR '':'') s in
     if CHR '':'' \<in> set s \<and> p \<noteq> [] \<and> is_alpha (hd p) \<and>
        list_all (\<lambda>c. is_alpha c \<or> is_digit c \<or> c \<in> {CHR ''+'', CHR ''-'', CHR ''.''}) p
     then (lower p, drop (Suc (length p)) s) else ([], s))"

definition url_netloc :: "string \<Rightarrow> string" where
  "url_netloc rest = (if take 2 rest = ''//'' then takeWhile (\<lambda>c. c \<notin> {CHR ''/'', CHR ''?'', CHR ''#''}) (drop 2 rest) else [])"

definition after_last_at :: "string \<Rightarrow> string" where
  "after_last_at s = rev (takeWhile (\<lambda>c. c \<noteq> CHR 0x40) (rev s))"

definition fold_host :: "string \<Rightarrow> string" where
  "fold_host h = lower (takeWhile (\<lambda>c. c \<noteq> CHR 0x25) h) @ dropWhile (\<lambda>c. c \<noteq> CHR 0x25) h"

definition url_hostname :: "string \<Rightarrow> string option" where
  "url_hostname netloc = (let info = after_last_at netloc;
       h = (if CHR ''['' \<in> set info then takeWhile (\<lambda>c. c \<noteq> CHR '']'') (tl (dropWhile (\<lambda>c. c \<noteq> CHR ''['') info))
            else takeWhile (\<lambda>c. c \<noteq> CHR '':'') info) in
     if h = [] then None else Some (fold_host h))"

text \<open>
  \<open>urlparse(s)\<close>: scheme and host. \<open>bracketed_ok\<close> says whether the library accepts the host of a network
  location that has both brackets.
\<close>

definition url_parse :: "(string \<Rightarrow> bool) \<Rightarrow> string \<Rightarrow> (string \<times> string option) res" where
  "url_parse bracketed_ok s = (case split_scheme (clean_url s) of (scheme, rest) \<Rightarrow>
     let netloc = url_netloc rest in
     if (CHR ''['' \<in> set netloc) \<noteq> (CHR '']'' \<in> set netloc) then Inl (ValueError ''Invalid IPv6 URL'')
     else if CHR ''['' \<in> set netloc \<and> \<not> bracketed_ok netloc then Inl (ValueError ''Invalid IPv6 URL'')
     else Inr (scheme, url_hostname netloc))"

section \<open>The settings\<close>

text \<open>The fields of \<open>Settings\<close>, grouped as they are read.\<close>

record runtime_settings =
  cf_app_env :: string
  cf_secret :: string
  cf_database_url :: string
  cf_backend :: string
  cf_execution :: string
  cf_username :: "string option"
  cf_password :: "string option"

record engine_settings =
  cf_history_start :: date
  cf_benchmark :: string
  cf_benchmark_secondary :: string
  cf_equity :: dec
  cf_ratio :: dec
  cf_positions :: int
  cf_warning :: dec
  cf_stop :: dec
  cf_price_mode :: string
  cf_fill_mode :: string
  cf_stale_after :: int

record provider_settings =
  cf_enabled :: bool
  cf_full_enabled :: bool
  cf_token :: string
  cf_daily_run_at :: string
  cf_max_codes :: int
  cf_concurrency :: int

record ifind_settings = provider_settings +
  cf_base_url :: string

record tushare_settings = provider_settings +
  cf_timeout :: dec_value
  cf_rate_limit :: int
  cf_pilot_codes :: "string list"

record settings =
  cf_runtime :: runtime_settings
  cf_engine :: engine_settings
  cf_ifind :: ifind_settings
  cf_tushare :: tushare_settings
  cf_akshare :: bool
  cf_tolerances :: tolerances

record settings_env =
  url_backend :: "string \<Rightarrow> string option"
  bracketed_ok :: "string \<Rightarrow> bool"

definition default_settings :: sources where
  "default_settings = map_of
     [(''DATA_HISTORY_START'', ''2016-01-01''), (''BENCHMARK_PRIMARY'', ''000300.SH''), (''BENCHMARK_SECONDARY'', ''000001.SH''),
      (''DEFAULT_INITIAL_EQUITY'', ''20000.00''), (''MAX_INVESTMENT_RATIO'', ''0.70''), (''MAX_POSITIONS'', ''4''),
      (''DRAWDOWN_WARNING'', ''0.06''), (''DRAWDOWN_STOP'', ''0.08''), (''EXECUTION_PRICE_MODE'', ''NEXT_OPEN_ADJUSTED''),
      (''PARTIAL_FILL_MODE'', ''FULL_OR_NONE''), (''DATABASE_URL'', ''sqlite:///./money-mvp.db''),
      (''PROVIDER_IMPORT_EXECUTION'', ''rq''), (''JOB_QUEUE_STALE_AFTER_SECONDS'', ''300''),
      (''IFIND_ENABLED'', ''false''), (''IFIND_FULL_ENABLED'', ''false''), (''IFIND_BASE_URL'', ''https://quantapi.51ifind.com''),
      (''IFIND_DAILY_RUN_AT'', ''18:30''), (''IFIND_MAX_CODES_PER_REQUEST'', ''200''), (''IFIND_MAX_CONCURRENCY'', ''2''),
      (''TUSHARE_ENABLED'', ''false''), (''TUSHARE_FULL_ENABLED'', ''false''), (''TUSHARE_TIMEOUT_SECONDS'', ''20''),
      (''TUSHARE_RATE_LIMIT_PER_MINUTE'', ''120''), (''TUSHARE_MAX_CODES_PER_REQUEST'', ''200''),
      (''TUSHARE_MAX_CONCURRENCY'', ''2''), (''TUSHARE_PILOT_CODES'', ''000001.SZ,600000.SH,000300.SH,000001.SH''),
      (''TUSHARE_DAILY_RUN_AT'', ''18:30''), (''AKSHARE_VALIDATION_ENABLED'', ''true''),
      (''AKSHARE_PRICE_RELATIVE_TOLERANCE'', ''0''), (''AKSHARE_VOLUME_RELATIVE_TOLERANCE'', ''0''),
      (''AKSHARE_AMOUNT_RELATIVE_TOLERANCE'', ''0'')]"

text \<open>What was supplied: overrides before the environment before the file, which overrides switch off.\<close>

definition supplied_values :: "sources \<Rightarrow> sources \<Rightarrow> sources option \<Rightarrow> sources" where
  "supplied_values file environ overrides = (case overrides of None \<Rightarrow> file ++ environ | Some o1 \<Rightarrow> environ ++ o1)"

definition require :: "bool \<Rightarrow> string \<Rightarrow> unit res" where
  "require b msg = guardE (\<not> b) (ConfigurationError msg)"

definition load_runtime :: "settings_env \<Rightarrow> sources \<Rightarrow> sources \<Rightarrow> runtime_settings res" where
  "load_runtime e supplied values =
     (let app = lower (cfg_get supplied ''APP_ENV''); secret = cfg_get supplied ''AUTH_SECRET_KEY'';
          url = strip (cfg_get values ''DATABASE_URL'') in
      andThen (require (app \<noteq> []) ''APP_ENV must be explicitly configured'') (\<lambda>_.
      andThen (require (secret \<noteq> []) ''AUTH_SECRET_KEY must be configured'') (\<lambda>_.
      andThen (require (app \<in> {''development'', ''test''} \<or> 32 \<le> length secret \<and> secret \<noteq> ''development-only-secret-change-me'')
        ''AUTH_SECRET_KEY must be at least 32 characters outside development'') (\<lambda>_.
      andThen (require (url \<noteq> []) ''DATABASE_URL must be configured'') (\<lambda>_.
      case url_backend e url of
        None \<Rightarrow> Inl (ConfigurationError ''DATABASE_URL must be a valid SQLAlchemy URL'')
      | Some backend \<Rightarrow>
      andThen (require (backend \<in> {''sqlite'', ''postgresql''}) ''DATABASE_URL must use SQLite or PostgreSQL'') (\<lambda>_.
      andThen (require (app \<notin> {''production'', ''simulation''} \<or> backend = ''postgresql'')
        ''production and simulation runtimes require PostgreSQL'') (\<lambda>_.
      andThen (cfg_item values ''PROVIDER_IMPORT_EXECUTION'') (\<lambda>execution.
      let mode = lower (strip execution) in
      andThen (require (mode \<in> {''rq'', ''background''}) ''PROVIDER_IMPORT_EXECUTION must be rq or background'') (\<lambda>_.
      andThen (require (mode \<noteq> ''background'' \<or> app \<notin> {''production'', ''simulation''})
        ''PROVIDER_IMPORT_EXECUTION=background is only allowed in development or test'') (\<lambda>_.
      let name = strip (cfg_get values ''DEVELOPMENT_USERNAME''); pass = cfg_get values ''DEVELOPMENT_PASSWORD'' in
      Inr \<lparr>cf_app_env = app, cf_secret = secret, cf_database_url = url, cf_backend = backend, cf_execution = mode,
        cf_username = (if app = ''development'' then Some (if name = [] then ''admin'' else name) else None),
        cf_password = (if app = ''development'' then Some (if pass = [] then ''admin'' else pass) else None)\<rparr>))))))))))"

definition load_engine :: "sources \<Rightarrow> engine_settings res" where
  "load_engine values =
     (let dates = ''DATA_HISTORY_START and MAX_POSITIONS must be valid'' in
      case Option.bind (values ''DATA_HISTORY_START'') date_fromisoformat of
        None \<Rightarrow> Inl (ConfigurationError dates)
      | Some start \<Rightarrow>
      andThen (config_int values ''MAX_POSITIONS'' dates) (\<lambda>positions.
      andThen (config_decimal values ''DRAWDOWN_WARNING'') (\<lambda>w.
      andThen (config_decimal values ''DRAWDOWN_STOP'') (\<lambda>s.
      andThen (config_decimal values ''MAX_INVESTMENT_RATIO'') (\<lambda>ratio.
      andThen (config_decimal values ''DEFAULT_INITIAL_EQUITY'') (\<lambda>equity.
      andThen (require (0 < w \<and> w < s \<and> s < 1) ''DRAWDOWN_STOP must be greater than DRAWDOWN_WARNING and below 1'') (\<lambda>_.
      andThen (require (0 < ratio \<and> ratio \<le> 1) ''MAX_INVESTMENT_RATIO must be in (0, 1]'') (\<lambda>_.
      andThen (require (0 < equity \<and> 1 \<le> positions) ''DEFAULT_INITIAL_EQUITY and MAX_POSITIONS must be positive'') (\<lambda>_.
      andThen (config_int values ''JOB_QUEUE_STALE_AFTER_SECONDS'' ''JOB_QUEUE_STALE_AFTER_SECONDS must be an integer'') (\<lambda>stale.
      andThen (require (30 \<le> stale \<and> stale \<le> 86400) ''JOB_QUEUE_STALE_AFTER_SECONDS must be between 30 and 86400'') (\<lambda>_.
      andThen (cfg_item values ''EXECUTION_PRICE_MODE'') (\<lambda>price_mode.
      andThen (require (price_mode = ''NEXT_OPEN_ADJUSTED'') ''EXECUTION_PRICE_MODE must be NEXT_OPEN_ADJUSTED'') (\<lambda>_.
      andThen (cfg_item values ''PARTIAL_FILL_MODE'') (\<lambda>fill_mode.
      andThen (require (fill_mode = ''FULL_OR_NONE'') ''PARTIAL_FILL_MODE must be FULL_OR_NONE'') (\<lambda>_.
      Inr \<lparr>cf_history_start = start, cf_benchmark = cfg_get values ''BENCHMARK_PRIMARY'',
        cf_benchmark_secondary = cfg_get values ''BENCHMARK_SECONDARY'', cf_equity = equity, cf_ratio = ratio,
        cf_positions = positions, cf_warning = w, cf_stop = s, cf_price_mode = price_mode, cf_fill_mode = fill_mode,
        cf_stale_after = stale\<rparr>)))))))))))))))"

definition load_ifind :: "settings_env \<Rightarrow> sources \<Rightarrow> ifind_settings res" where
  "load_ifind e values =
     (let ints = ''IFIND_MAX_CODES_PER_REQUEST and IFIND_MAX_CONCURRENCY must be integers'';
          url = rstrip_slash (strip (cfg_get values ''IFIND_BASE_URL'')); token = strip (cfg_get values ''IFIND_REFRESH_TOKEN'') in
      andThen (config_boolean values ''IFIND_ENABLED'') (\<lambda>enabled.
      andThen (config_boolean values ''IFIND_FULL_ENABLED'') (\<lambda>full.
      andThen (url_parse (bracketed_ok e) url) (\<lambda>parsed.
      andThen (require (parsed = (''https'', Some ''quantapi.51ifind.com'')) ''IFIND_BASE_URL must be https://quantapi.51ifind.com'') (\<lambda>_.
      andThen (require (enabled \<longrightarrow> token \<noteq> []) ''IFIND_REFRESH_TOKEN must be configured when IFIND_ENABLED is true'') (\<lambda>_.
      andThen (config_time values ''IFIND_DAILY_RUN_AT'') (\<lambda>run_at.
      andThen (config_int values ''IFIND_MAX_CODES_PER_REQUEST'' ints) (\<lambda>codes.
      andThen (config_int values ''IFIND_MAX_CONCURRENCY'' ints) (\<lambda>threads.
      andThen (require (1 \<le> codes \<and> codes \<le> 200) ''IFIND_MAX_CODES_PER_REQUEST must be between 1 and 200'') (\<lambda>_.
      andThen (require (1 \<le> threads \<and> threads \<le> 32) ''IFIND_MAX_CONCURRENCY must be between 1 and 32'') (\<lambda>_.
      Inr \<lparr>cf_enabled = enabled, cf_full_enabled = full, cf_token = token, cf_daily_run_at = run_at,
        cf_max_codes = codes, cf_concurrency = threads, cf_base_url = url\<rparr>)))))))))))"

definition approved_codes :: "string set" where
  "approved_codes = {''000001.SZ'', ''600000.SH'', ''000300.SH'', ''000001.SH''}"

definition pilot_codes :: "string \<Rightarrow> string list" where
  "pilot_codes s = map (\<lambda>c. upper (strip c)) (filter (\<lambda>c. strip c \<noteq> []) (split_on CHR '','' s))"

definition float_between :: "dec_value \<Rightarrow> rat \<Rightarrow> bool" where
  "float_between v hi \<longleftrightarrow> (case v of Finite q \<Rightarrow> 0 < q \<and> q \<le> hi | _ \<Rightarrow> False)"

definition load_tushare :: "sources \<Rightarrow> tushare_settings res" where
  "load_tushare values =
     (let nums = ''Tushare timeout, rate limit, batching, and concurrency must be numeric'';
          token = strip (cfg_get values ''TUSHARE_TOKEN'') in
      andThen (config_boolean values ''TUSHARE_ENABLED'') (\<lambda>enabled.
      andThen (config_boolean values ''TUSHARE_FULL_ENABLED'') (\<lambda>full.
      andThen (require (enabled \<longrightarrow> token \<noteq> []) ''TUSHARE_TOKEN must be configured when TUSHARE_ENABLED is true'') (\<lambda>_.
      case Option.bind (values ''TUSHARE_TIMEOUT_SECONDS'') parse_float of
        None \<Rightarrow> Inl (ConfigurationError nums)
      | Some timeout \<Rightarrow>
      andThen (config_int values ''TUSHARE_RATE_LIMIT_PER_MINUTE'' nums) (\<lambda>rate.
      andThen (config_int values ''TUSHARE_MAX_CODES_PER_REQUEST'' nums) (\<lambda>codes.
      andThen (config_int values ''TUSHARE_MAX_CONCURRENCY'' nums) (\<lambda>threads.
      andThen (require (float_between timeout 300) ''TUSHARE_TIMEOUT_SECONDS must be between 0 and 300'') (\<lambda>_.
      andThen (require (1 \<le> rate \<and> rate \<le> 10000) ''TUSHARE_RATE_LIMIT_PER_MINUTE must be between 1 and 10000'') (\<lambda>_.
      andThen (require (1 \<le> codes \<and> codes \<le> 5000) ''TUSHARE_MAX_CODES_PER_REQUEST must be between 1 and 5000'') (\<lambda>_.
      andThen (require (1 \<le> threads \<and> threads \<le> 32) ''TUSHARE_MAX_CONCURRENCY must be between 1 and 32'') (\<lambda>_.
      andThen (cfg_item values ''TUSHARE_PILOT_CODES'') (\<lambda>codes_text.
      andThen (require (set (pilot_codes codes_text) = approved_codes) ''TUSHARE_PILOT_CODES must contain the four approved pilot codes'') (\<lambda>_.
      andThen (config_time values ''TUSHARE_DAILY_RUN_AT'') (\<lambda>run_at.
      Inr \<lparr>cf_enabled = enabled, cf_full_enabled = full, cf_token = token,
        cf_daily_run_at = run_at, cf_max_codes = codes, cf_concurrency = threads, cf_timeout = timeout,
        cf_rate_limit = rate, cf_pilot_codes = pilot_codes codes_text\<rparr>))))))))))))))"

definition load_tolerances :: "sources \<Rightarrow> tolerances res" where
  "load_tolerances values =
     andThen (config_decimal values ''AKSHARE_PRICE_RELATIVE_TOLERANCE'') (\<lambda>p.
     andThen (config_decimal values ''AKSHARE_VOLUME_RELATIVE_TOLERANCE'') (\<lambda>v.
     andThen (config_decimal values ''AKSHARE_AMOUNT_RELATIVE_TOLERANCE'') (\<lambda>a.
     andThen (require (list_all (\<lambda>x. 0 \<le> x \<and> x \<le> 1) [p, v, a]) ''AKShare relative tolerances must be between 0 and 1'') (\<lambda>_.
     Inr (finite_tolerances p v a)))))"

definition load_settings :: "settings_env \<Rightarrow> sources \<Rightarrow> sources \<Rightarrow> sources option \<Rightarrow> settings res" where
  "load_settings e file environ overrides =
     (let supplied = supplied_values file environ overrides; values = default_settings ++ supplied in
      andThen (load_runtime e supplied values) (\<lambda>runtime. andThen (load_engine values) (\<lambda>engine.
      andThen (load_ifind e values) (\<lambda>ifind. andThen (load_tushare values) (\<lambda>tushare.
      andThen (config_boolean values ''AKSHARE_VALIDATION_ENABLED'') (\<lambda>akshare. andThen (load_tolerances values) (\<lambda>tol.
      Inr \<lparr>cf_runtime = runtime, cf_engine = engine, cf_ifind = ifind, cf_tushare = tushare, cf_akshare = akshare,
        cf_tolerances = tol\<rparr>)))))))"

section \<open>What loaded settings satisfy\<close>

lemma require_Inr_iff [result_simps]: "require b msg = Inr u \<longleftrightarrow> b"
  by (simp add: require_def guardE_def)

definition runtime_safe :: "runtime_settings \<Rightarrow> bool" where
  "runtime_safe r \<longleftrightarrow> cf_app_env r \<noteq> [] \<and> cf_secret r \<noteq> [] \<and>
     (cf_app_env r \<notin> {''development'', ''test''} \<longrightarrow> 32 \<le> length (cf_secret r) \<and> cf_secret r \<noteq> ''development-only-secret-change-me'') \<and>
     cf_backend r \<in> {''sqlite'', ''postgresql''} \<and> cf_execution r \<in> {''rq'', ''background''} \<and>
     (cf_app_env r \<in> {''production'', ''simulation''} \<longrightarrow> cf_backend r = ''postgresql'' \<and> cf_execution r = ''rq'') \<and>
     (cf_username r \<noteq> None \<longleftrightarrow> cf_app_env r = ''development'') \<and> (cf_password r \<noteq> None \<longleftrightarrow> cf_app_env r = ''development'')"

definition engine_safe :: "engine_settings \<Rightarrow> bool" where
  "engine_safe g \<longleftrightarrow> 0 < cf_warning g \<and> cf_warning g < cf_stop g \<and> cf_stop g < 1 \<and> 0 < cf_ratio g \<and> cf_ratio g \<le> 1 \<and>
     0 < cf_equity g \<and> 1 \<le> cf_positions g \<and> cf_price_mode g = ''NEXT_OPEN_ADJUSTED'' \<and> cf_fill_mode g = ''FULL_OR_NONE'' \<and>
     30 \<le> cf_stale_after g \<and> cf_stale_after g \<le> 86400"

definition provider_safe :: "int \<Rightarrow> 'a provider_settings_scheme \<Rightarrow> bool" where
  "provider_safe most p \<longleftrightarrow> (cf_enabled p \<longrightarrow> cf_token p \<noteq> []) \<and> 1 \<le> cf_max_codes p \<and> cf_max_codes p \<le> most \<and>
     1 \<le> cf_concurrency p \<and> cf_concurrency p \<le> 32"

definition tushare_safe :: "tushare_settings \<Rightarrow> bool" where
  "tushare_safe p \<longleftrightarrow> provider_safe 5000 p \<and> float_between (cf_timeout p) 300 \<and> 1 \<le> cf_rate_limit p \<and>
     cf_rate_limit p \<le> 10000 \<and> set (cf_pilot_codes p) = approved_codes"

definition tolerances_safe :: "tolerances \<Rightarrow> bool" where
  "tolerances_safe t \<longleftrightarrow> (\<exists>p v a. t = finite_tolerances p v a \<and> 0 \<le> p \<and> p \<le> 1 \<and> 0 \<le> v \<and> v \<le> 1 \<and> 0 \<le> a \<and> a \<le> 1)"

lemma load_runtime_Inr:
  assumes "load_runtime e supplied values = Inr r"
  obtains backend mode where "lower (cfg_get supplied ''APP_ENV'') \<noteq> []" "cfg_get supplied ''AUTH_SECRET_KEY'' \<noteq> []"
    "lower (cfg_get supplied ''APP_ENV'') \<in> {''development'', ''test''} \<or> 32 \<le> length (cfg_get supplied ''AUTH_SECRET_KEY'') \<and>
       cfg_get supplied ''AUTH_SECRET_KEY'' \<noteq> ''development-only-secret-change-me''"
    "backend \<in> {''sqlite'', ''postgresql''}" "lower (cfg_get supplied ''APP_ENV'') \<notin> {''production'', ''simulation''} \<or> backend = ''postgresql''"
    "mode \<in> {''rq'', ''background''}" "mode \<noteq> ''background'' \<or> lower (cfg_get supplied ''APP_ENV'') \<notin> {''production'', ''simulation''}"
    "cf_app_env r = lower (cfg_get supplied ''APP_ENV'')" "cf_secret r = cfg_get supplied ''AUTH_SECRET_KEY''" "cf_backend r = backend"
    "cf_execution r = mode" "cf_username r \<noteq> None \<longleftrightarrow> lower (cfg_get supplied ''APP_ENV'') = ''development''"
    "cf_password r \<noteq> None \<longleftrightarrow> lower (cfg_get supplied ''APP_ENV'') = ''development''"
proof -
  let ?app = "lower (cfg_get supplied ''APP_ENV'')"
  note f = assms[unfolded load_runtime_def Let_def andThen_Inr_iff require_Inr_iff]
  obtain backend where b: "url_backend e (strip (cfg_get values ''DATABASE_URL'')) = Some backend"
    using f by (cases "url_backend e (strip (cfg_get values ''DATABASE_URL''))") (elim exE conjE, simp, simp)
  note g = f[unfolded b option.case]
  obtain execution where x: "cfg_item values ''PROVIDER_IMPORT_EXECUTION'' = Inr execution"
    using g by (elim exE conjE) (simp add: andThen_Inr_iff, elim exE conjE, assumption)
  note h = g[unfolded x andThen_Inr_iff require_Inr_iff]
  show thesis
    by (rule that[of backend "lower (strip execution)"]; use h in \<open>elim exE conjE; force split: if_split\<close>)
qed

lemma load_runtime_safe:
  assumes "load_runtime e supplied values = Inr r"
  shows "runtime_safe r" and "cf_app_env r = lower (cfg_get supplied ''APP_ENV'')" and "cf_secret r = cfg_get supplied ''AUTH_SECRET_KEY''"
proof -
  let ?app = "lower (cfg_get supplied ''APP_ENV'')"
  obtain backend mode where c: "?app \<noteq> []" "cfg_get supplied ''AUTH_SECRET_KEY'' \<noteq> []"
    "?app \<in> {''development'', ''test''} \<or> 32 \<le> length (cfg_get supplied ''AUTH_SECRET_KEY'') \<and>
       cfg_get supplied ''AUTH_SECRET_KEY'' \<noteq> ''development-only-secret-change-me''"
    "backend \<in> {''sqlite'', ''postgresql''}" "?app \<notin> {''production'', ''simulation''} \<or> backend = ''postgresql''"
    "mode \<in> {''rq'', ''background''}" "mode \<noteq> ''background'' \<or> ?app \<notin> {''production'', ''simulation''}"
    and r: "cf_app_env r = ?app" "cf_secret r = cfg_get supplied ''AUTH_SECRET_KEY''" "cf_backend r = backend" "cf_execution r = mode"
      "cf_username r \<noteq> None \<longleftrightarrow> ?app = ''development''" "cf_password r \<noteq> None \<longleftrightarrow> ?app = ''development''"
    by (rule load_runtime_Inr[OF assms])
  show "cf_app_env r = ?app" "cf_secret r = cfg_get supplied ''AUTH_SECRET_KEY''" by (fact r)+
  show "runtime_safe r" unfolding runtime_safe_def r using c by blast
qed

lemma load_engine_safe: "load_engine values = Inr g \<Longrightarrow> engine_safe g"
  by (auto simp: load_engine_def engine_safe_def Let_def result_simps split: option.splits)

lemma load_ifind_safe: "load_ifind e values = Inr p \<Longrightarrow> provider_safe 200 p"
  by (auto simp: load_ifind_def provider_safe_def Let_def result_simps)

lemma load_tushare_safe:
  assumes "load_tushare values = Inr p"
  shows "tushare_safe p"
proof -
  obtain timeout where t: "Option.bind (values ''TUSHARE_TIMEOUT_SECONDS'') parse_float = Some timeout"
    using assms by (cases "Option.bind (values ''TUSHARE_TIMEOUT_SECONDS'') parse_float") (auto simp: load_tushare_def Let_def result_simps)
  show ?thesis
    using assms unfolding load_tushare_def Let_def t option.case andThen_Inr_iff require_Inr_iff
    by (elim exE conjE) (simp only: sum.inject, drule sym[of _ p], simp only: tushare_safe_def provider_safe_def
      provider_settings.select_convs tushare_settings.select_convs)
qed

lemma load_tolerances_safe: "load_tolerances values = Inr t \<Longrightarrow> tolerances_safe t"
  by (auto simp: load_tolerances_def tolerances_safe_def Let_def result_simps)

lemma load_settings_Inr:
  assumes "load_settings e file environ overrides = Inr s"
  obtains vs where "vs = default_settings ++ supplied_values file environ overrides"
    "load_runtime e (supplied_values file environ overrides) vs = Inr (cf_runtime s)"
    "load_engine vs = Inr (cf_engine s)" "load_ifind e vs = Inr (cf_ifind s)" "load_tushare vs = Inr (cf_tushare s)"
    "load_tolerances vs = Inr (cf_tolerances s)"
  using assms by (auto simp: load_settings_def Let_def result_simps)


section \<open>A simulation runtime\<close>

lemma default_values:
  "default_settings ''DATA_HISTORY_START'' = Some ''2016-01-01''"
  "default_settings ''BENCHMARK_PRIMARY'' = Some ''000300.SH''"
  "default_settings ''BENCHMARK_SECONDARY'' = Some ''000001.SH''"
  "default_settings ''DEFAULT_INITIAL_EQUITY'' = Some ''20000.00''"
  "default_settings ''MAX_INVESTMENT_RATIO'' = Some ''0.70''"
  "default_settings ''MAX_POSITIONS'' = Some ''4''"
  "default_settings ''DRAWDOWN_WARNING'' = Some ''0.06''"
  "default_settings ''DRAWDOWN_STOP'' = Some ''0.08''"
  "default_settings ''EXECUTION_PRICE_MODE'' = Some ''NEXT_OPEN_ADJUSTED''"
  "default_settings ''PARTIAL_FILL_MODE'' = Some ''FULL_OR_NONE''"
  "default_settings ''DATABASE_URL'' = Some ''sqlite:///./money-mvp.db''"
  "default_settings ''PROVIDER_IMPORT_EXECUTION'' = Some ''rq''"
  "default_settings ''JOB_QUEUE_STALE_AFTER_SECONDS'' = Some ''300''"
  "default_settings ''IFIND_ENABLED'' = Some ''false''"
  "default_settings ''IFIND_FULL_ENABLED'' = Some ''false''"
  "default_settings ''IFIND_BASE_URL'' = Some ''https://quantapi.51ifind.com''"
  "default_settings ''IFIND_DAILY_RUN_AT'' = Some ''18:30''"
  "default_settings ''IFIND_MAX_CODES_PER_REQUEST'' = Some ''200''"
  "default_settings ''IFIND_MAX_CONCURRENCY'' = Some ''2''"
  "default_settings ''TUSHARE_ENABLED'' = Some ''false''"
  "default_settings ''TUSHARE_FULL_ENABLED'' = Some ''false''"
  "default_settings ''TUSHARE_TIMEOUT_SECONDS'' = Some ''20''"
  "default_settings ''TUSHARE_RATE_LIMIT_PER_MINUTE'' = Some ''120''"
  "default_settings ''TUSHARE_MAX_CODES_PER_REQUEST'' = Some ''200''"
  "default_settings ''TUSHARE_MAX_CONCURRENCY'' = Some ''2''"
  "default_settings ''TUSHARE_PILOT_CODES'' = Some ''000001.SZ,600000.SH,000300.SH,000001.SH''"
  "default_settings ''TUSHARE_DAILY_RUN_AT'' = Some ''18:30''"
  "default_settings ''AKSHARE_VALIDATION_ENABLED'' = Some ''true''"
  "default_settings ''AKSHARE_PRICE_RELATIVE_TOLERANCE'' = Some ''0''"
  "default_settings ''AKSHARE_VOLUME_RELATIVE_TOLERANCE'' = Some ''0''"
  "default_settings ''AKSHARE_AMOUNT_RELATIVE_TOLERANCE'' = Some ''0''"
  by code_simp+

lemma absent_values:
  "default_settings ''IFIND_REFRESH_TOKEN'' = None" "default_settings ''TUSHARE_TOKEN'' = None"
  "default_settings ''DEVELOPMENT_USERNAME'' = None" "default_settings ''DEVELOPMENT_PASSWORD'' = None"
  by (simp_all add: default_settings_def)

definition sample_environ :: sources where
  "sample_environ = map_of [(''APP_ENV'', ''Simulation''), (''AUTH_SECRET_KEY'', ''0123456789abcdef0123456789abcdef''),
     (''DATABASE_URL'', ''postgresql://db/app''), (''TUSHARE_ENABLED'', ''true''), (''TUSHARE_TOKEN'', ''secret'')]"

definition sample_settings_env :: settings_env where
  "sample_settings_env = \<lparr>url_backend = (\<lambda>u. Some (takeWhile (\<lambda>c. c \<noteq> CHR '':'') u)), bracketed_ok = (\<lambda>n. False)\<rparr>"

lemma default_numbers_read:
  "parse_decimal ''0.06'' = Some (Finite (6 / 100))" "parse_decimal ''0.08'' = Some (Finite (8 / 100))"
  "parse_decimal ''0.70'' = Some (Finite (7 / 10))" "parse_decimal ''20000.00'' = Some (Finite 20000)" "parse_decimal ''0'' = Some (Finite 0)"
  by (simp_all add: parse_simps)

lemma default_texts_read:
  "date_fromisoformat ''2016-01-01'' = Some 735964" "parse_float ''20'' = Some (Finite 20)"
  "parse_int ''4'' = Some 4" "parse_int ''300'' = Some 300" "parse_int ''200'' = Some 200" "parse_int ''2'' = Some 2" "parse_int ''120'' = Some 120"
  "daily_time_parts ''18:30'' = Some (''18'', ''30'', 18, 30)" "strip ''18:30'' = ''18:30''"
  "set (pilot_codes ''000001.SZ,600000.SH,000300.SH,000001.SH'') = approved_codes"
  by code_simp+

lemma default_url: "url_parse b (rstrip_slash ''https://quantapi.51ifind.com'') = Inr (''https'', Some ''quantapi.51ifind.com'')"
proof -
  have "url_parse (\<lambda>n. False) (rstrip_slash ''https://quantapi.51ifind.com'') = Inr (''https'', Some ''quantapi.51ifind.com'')"
    by code_simp
  moreover have "CHR ''['' \<notin> set (url_netloc (snd (split_scheme (clean_url (rstrip_slash ''https://quantapi.51ifind.com'')))))"
    by code_simp
  ultimately show ?thesis by (simp add: url_parse_def Let_def case_prod_beta split: if_splits)
qed

definition sample_values :: sources where
  "sample_values = default_settings ++ sample_environ"

lemma sample_value: "k \<notin> {''APP_ENV'', ''AUTH_SECRET_KEY'', ''DATABASE_URL'', ''TUSHARE_ENABLED'', ''TUSHARE_TOKEN''} \<Longrightarrow> sample_values k = default_settings k"
  by (simp add: sample_values_def sample_environ_def map_add_def)

lemmas config_defs = config_int_def config_decimal_def config_boolean_def config_time_def cfg_item_def cfg_get_def require_def guardE_def

lemmas default_facts = sample_value default_values absent_values default_texts_read default_numbers_read default_url

lemma sample_engine: "\<exists>g. load_engine sample_values = Inr g"
  by (simp add: load_engine_def Let_def config_defs default_facts)

lemma sample_ifind: "\<exists>p. load_ifind e sample_values = Inr p"
  by (simp add: load_ifind_def Let_def config_defs default_facts strip_def lower_def lower_char_def is_space_def)

lemma sample_token: "sample_values ''TUSHARE_ENABLED'' = Some ''true''" "sample_values ''TUSHARE_TOKEN'' = Some ''secret''"
  by (simp_all add: sample_values_def sample_environ_def map_add_def)

lemma sample_tushare: "\<exists>p. load_tushare sample_values = Inr p \<and> cf_enabled p \<and> \<not> cf_full_enabled p"
  by (simp add: load_tushare_def Let_def config_defs default_facts sample_token float_between_def strip_def lower_def lower_char_def is_space_def)

lemma sample_tolerances:
  "load_tolerances sample_values = Inr (finite_tolerances 0 0 0)" "config_boolean sample_values ''AKSHARE_VALIDATION_ENABLED'' = Inr True"
  by (simp_all add: load_tolerances_def Let_def config_defs default_facts strip_def lower_def lower_char_def is_space_def)

lemma sample_settings_texts:
  "sample_environ ''APP_ENV'' = Some ''Simulation''" "sample_environ ''AUTH_SECRET_KEY'' = Some ''0123456789abcdef0123456789abcdef''"
  "sample_values ''DATABASE_URL'' = Some ''postgresql://db/app''" "lower ''Simulation'' = ''simulation''" "lower (strip ''rq'') = ''rq''"
  "url_backend sample_settings_env ''postgresql://db/app'' = Some ''postgresql''" "strip ''postgresql://db/app'' = ''postgresql://db/app''"
  by code_simp+

lemma sample_runtime:
  "\<exists>r. load_runtime sample_settings_env sample_environ sample_values = Inr r \<and> cf_app_env r = ''simulation'' \<and> cf_backend r = ''postgresql''"
  by (simp add: load_runtime_def Let_def config_defs default_facts sample_settings_texts)

lemma sample_settings:
  obtains s where "load_settings sample_settings_env Map.empty sample_environ None = Inr s" "cf_app_env (cf_runtime s) = ''simulation''"
    "cf_backend (cf_runtime s) = ''postgresql''" "cf_enabled (cf_tushare s)" "\<not> cf_full_enabled (cf_tushare s)"
    "cf_tolerances s = finite_tolerances 0 0 0"
proof -
  obtain g p q r where "load_engine sample_values = Inr g" "load_ifind sample_settings_env sample_values = Inr p"
    "load_tushare sample_values = Inr q" "cf_enabled q" "\<not> cf_full_enabled q"
    and "load_runtime sample_settings_env sample_environ sample_values = Inr r" "cf_app_env r = ''simulation''" "cf_backend r = ''postgresql''"
    using sample_engine sample_ifind sample_tushare sample_runtime by blast
  then show thesis
    by (intro that, simp add: load_settings_def supplied_values_def sample_values_def[symmetric] sample_tolerances) simp_all
qed


text \<open>
  Background execution is refused by name of the environment: the message speaks of development and test, yet any
  name but production and simulation is let through.
\<close>

lemma staging_in_background:
  "\<exists>r. load_runtime sample_settings_env
      (map_of [(''APP_ENV'', ''staging''), (''AUTH_SECRET_KEY'', ''0123456789abcdef0123456789abcdef'')])
      (map_of [(''DATABASE_URL'', ''sqlite:///x''), (''PROVIDER_IMPORT_EXECUTION'', ''background'')]) = Inr r \<and>
    cf_execution r = ''background'' \<and> cf_backend r = ''sqlite''"
  by (simp add: load_runtime_def Let_def config_defs sample_settings_env_def strip_def lower_def lower_char_def is_space_def)

text \<open>\<open>int\<close> reads signs and blanks, so a time that is not of the form HH:MM is accepted.\<close>

lemma loose_daily_time: "config_time (map_of [(''T'', ''+9: 5'')]) ''T'' = Inr ''+9: 5''"
  by code_simp

end
