(* ===== verification/Publishing.thy ===== *)
theory Publishing
  imports CrossCheck Artifacts
begin

text \<open>
  Import of one trading day from Tushare: \<open>app/application/tushare_ingestion.py\<close>. The provider's rows come
  from \<open>provider\<close>, the cross-check rows from an optional second client, the batch goes to a repository;
  the standardized rows are written to the artifact store of \<open>Artifacts\<close>. The content hash of rows and
  their JSON form are arguments, since they print decimals. Sets of codes are their sorted lists. The
  provenance kept in the payload beside the hashes is left out. Beijing and Shanghai keep UTC+8 all year,
  as they have since 1992.
\<close>

section \<open>Reading provider rows\<close>

definition blank :: "pyval \<Rightarrow> bool" where "blank v \<longleftrightarrow> v \<in> {PNone, PText []}"

definition pick :: "row \<Rightarrow> string list \<Rightarrow> pyval" where
  "pick r names = (case List.find (\<lambda>n. \<not> blank (row_get r n)) names of None \<Rightarrow> PNone | Some n \<Rightarrow> row_get r n)"

definition code_of :: "row \<Rightarrow> string" where
  "code_of r = (let v = pick r [''ts_code'', ''security_code'', ''symbol'', ''con_code''] in
     upper (if truthy v then py_str v else []))"

type_synonym code_rows = "(string, row) dict"

definition index_rows :: "row list \<Rightarrow> code_rows" where
  "index_rows rows = dict_of code_of id (filter (\<lambda>r. code_of r \<noteq> []) rows)"

definition as_date :: "pyval \<Rightarrow> date option" where
  "as_date v = (if blank v then None else case v of
     PDatetime t \<Rightarrow> Some (dt_date t)
   | PDate d \<Rightarrow> Some d
   | _ \<Rightarrow> date_fromisoformat (take 8 (filter (\<lambda>c. c \<noteq> CHR ''-'') (py_str v))))"

definition as_decimal :: "pyval \<Rightarrow> dec_value option" where
  "as_decimal v = (if blank v then None else parse_decimal (py_str v))"

text \<open>The last text is the Chinese word for yes.\<close>

definition as_truth :: "pyval \<Rightarrow> bool" where
  "as_truth v \<longleftrightarrow> v = PBool True \<or>
     lower (py_str v) \<in> {''true'', ''1'', ''yes'', ''y'', [CHR 0xE6, CHR 0x98, CHR 0xAF]}"

text \<open>\<open>datetime.combine(value, time(18, 30), SHANGHAI)\<close>\<close>

definition day_available_at :: "date \<Rightarrow> datetime" where
  "day_available_at d = \<lparr>wall = d * day_us + 1110 * 60 * 1000000, utcoff = Some (8 * 3600 * 1000000)\<rparr>"

text \<open>The row of the date, or the first row there is.\<close>

definition find_calendar :: "row list \<Rightarrow> date \<Rightarrow> row option" where
  "find_calendar rows d =
     (case List.find (\<lambda>r. as_date (pick r [''trade_date'', ''cal_date'', ''business_date'']) = Some d) rows of
        Some r \<Rightarrow> Some r | None \<Rightarrow> (case rows of [] \<Rightarrow> None | r # _ \<Rightarrow> Some r))"

section \<open>The codes of the day\<close>

definition index_codes :: "string set" where "index_codes = {''000300.SH'', ''000001.SH''}"

definition listed_on :: "row \<Rightarrow> date \<Rightarrow> bool" where
  "listed_on master d \<longleftrightarrow>
     (case as_date (pick master [''listed_at'', ''list_date'']) of None \<Rightarrow> True | Some l \<Rightarrow> l \<le> d) \<and>
     (case as_date (pick master [''delisted_at'', ''delist_date'']) of None \<Rightarrow> True | Some e \<Rightarrow> d < e)"

definition listed_stock_codes :: "code_rows \<Rightarrow> date \<Rightarrow> string set" where
  "listed_stock_codes masters d = set (map fst (filter (\<lambda>kv. listed_on (snd kv) d) masters)) - index_codes"

definition keys :: "code_rows \<Rightarrow> string set" where "keys d = set (map fst d)"

definition row_at :: "code_rows \<Rightarrow> string \<Rightarrow> row" where
  "row_at d code = dict_get d code []"

section \<open>What is missing\<close>

definition list_text :: "string list \<Rightarrow> string" where
  "list_text xs = ''['' @ joined '', '' (map (\<lambda>x. CHR 0x27 # x @ [CHR 0x27]) xs) @ '']''"

definition missing_rows :: "string \<Rightarrow> string set \<Rightarrow> code_rows \<Rightarrow> string list" where
  "missing_rows label codes d =
     (if codes - keys d = {} then [] else [label @ '' missing for '' @ list_text (sorted_list_of_set (codes - keys d))])"

definition missing_if :: "bool \<Rightarrow> string \<Rightarrow> string list" where
  "missing_if b msg = (if b then [msg] else [])"

record day_codes =
  all_codes :: "string set"
  daily_codes :: "string set"
  factor_codes :: "string set"
  stock_codes :: "string set"

record day_rows =
  dr_bars :: code_rows
  dr_factors :: code_rows
  dr_limits :: code_rows
  dr_statuses :: code_rows
  dr_masters :: code_rows
  dr_industries :: code_rows

definition invalid_bars :: "string set \<Rightarrow> code_rows \<Rightarrow> string list" where
  "invalid_bars codes bars = concat (map (\<lambda>code. concat (map (\<lambda>f.
     missing_if (pick (row_at bars code) [f, if f = ''volume'' then ''vol'' else f] = PNone)
       (''daily bars field '' @ f @ '' missing for '' @ code))
     [''open'', ''high'', ''low'', ''close'', ''volume'', ''amount''])) (sorted_list_of_set codes))"

definition invalid_factors :: "string set \<Rightarrow> code_rows \<Rightarrow> code_rows \<Rightarrow> string list" where
  "invalid_factors codes factors limits = concat (map (\<lambda>code.
     missing_if (pick (row_at factors code) [''adjust_factor'', ''adj_factor''] = PNone) (''adjustment factor missing for '' @ code) @
     missing_if (pick (row_at limits code) [''up_limit'', ''upper_limit''] = PNone) (''price limit upper bound missing for '' @ code) @
     missing_if (pick (row_at limits code) [''down_limit'', ''lower_limit''] = PNone) (''price limit lower bound missing for '' @ code))
     (sorted_list_of_set codes))"

definition invalid_masters :: "string set \<Rightarrow> code_rows \<Rightarrow> string list" where
  "invalid_masters codes masters = concat (map (\<lambda>code.
     missing_if (as_date (pick (row_at masters code) [''listed_at'', ''list_date'']) = None) (''listing date missing for '' @ code) @
     missing_if (pick (row_at masters code) [''board'', ''market''] = PNone) (''board missing for '' @ code))
     (sorted_list_of_set codes))"

definition invalid_industries :: "string set \<Rightarrow> code_rows \<Rightarrow> string list" where
  "invalid_industries codes industries = concat (map (\<lambda>code.
     missing_if (pick (row_at industries code) [''industry_code'', ''l3_code''] = PNone) (''industry code missing for '' @ code) @
     missing_if (as_date (pick (row_at industries code) [''valid_from'', ''in_date'']) = None) (''industry start date missing for '' @ code))
     (sorted_list_of_set codes))"

definition invalid_required_fields :: "day_codes \<Rightarrow> day_rows \<Rightarrow> string list" where
  "invalid_required_fields c d = invalid_bars (daily_codes c) (dr_bars d) @
     invalid_factors (factor_codes c) (dr_factors d) (dr_limits d) @ invalid_masters (all_codes c) (dr_masters d) @
     invalid_industries (stock_codes c) (dr_industries d)"

section \<open>Standardized rows\<close>

text \<open>A product; an infinity times zero is invalid.\<close>

fun dv_mul :: "dec_value \<Rightarrow> dec_value \<Rightarrow> dec_value res" where
  "dv_mul (Finite x) (Finite y) = Inr (Finite (dmul x y))"
| "dv_mul NotANumber y = Inr NotANumber"
| "dv_mul x NotANumber = Inr NotANumber"
| "dv_mul (Infinite n) (Infinite k) = Inr (Infinite (n \<noteq> k))"
| "dv_mul (Infinite n) (Finite y) = (if y = 0 then Inl InvalidOperation else Inr (Infinite (n \<noteq> (y < 0))))"
| "dv_mul (Finite x) (Infinite k) = (if x = 0 then Inl InvalidOperation else Inr (Infinite (k \<noteq> (x < 0))))"

record std_row =
  sr_symbol :: string
  sr_date :: date
  sr_open :: dec_value
  sr_high :: dec_value
  sr_low :: dec_value
  sr_close :: dec_value
  sr_adj_open :: dec_value
  sr_adj_high :: dec_value
  sr_adj_low :: dec_value
  sr_adj_close :: dec_value
  sr_volume :: "dec_value option"
  sr_amount :: "dec_value option"
  sr_factor :: dec_value
  sr_available_at :: datetime
  sr_open_up :: "bool option"
  sr_open_down :: "bool option"
  sr_close_up :: "bool option"
  sr_close_down :: "bool option"
  sr_is_st :: bool
  sr_suspended :: bool
  sr_delisting :: bool
  sr_listed :: "date option"
  sr_delisted :: "date option"
  sr_board :: pyval
  sr_source :: row

definition at_limit :: "bool \<Rightarrow> dec_value \<Rightarrow> dec_value option \<Rightarrow> bool option" where
  "at_limit is_index price limit = (if is_index then Some False else map_option (dv_equal price) limit)"

text \<open>
  \<open>sr_source\<close> is the provider's bar, whose texts the cross-check reads through the decimals made of them.
\<close>

definition standard_row :: "day_rows \<Rightarrow> date \<Rightarrow> string \<Rightarrow> dec_value \<Rightarrow> dec_value \<times> dec_value \<times> dec_value \<times> dec_value \<Rightarrow> std_row res" where
  "standard_row d day code factor prices =
     (let bar = row_at (dr_bars d) code; limit = row_at (dr_limits d) code; status = row_at (dr_statuses d) code;
          master = row_at (dr_masters d) code; idx = code \<in> index_codes;
          up = as_decimal (pick limit [''up_limit'', ''upper_limit'']);
          down = as_decimal (pick limit [''down_limit'', ''lower_limit'']) in
      case prices of (o1, h, l, c) \<Rightarrow>
      andThen (dv_mul o1 factor) (\<lambda>ao. andThen (dv_mul h factor) (\<lambda>ah. andThen (dv_mul l factor) (\<lambda>al.
      andThen (dv_mul c factor) (\<lambda>ac. Inr
        \<lparr>sr_symbol = code, sr_date = day, sr_open = o1, sr_high = h, sr_low = l, sr_close = c,
         sr_adj_open = ao, sr_adj_high = ah, sr_adj_low = al, sr_adj_close = ac,
         sr_volume = as_decimal (pick bar [''volume'', ''vol'']), sr_amount = as_decimal (pick bar [''amount'']),
         sr_factor = factor, sr_available_at = day_available_at day,
         sr_open_up = at_limit idx o1 up, sr_open_down = at_limit idx o1 down,
         sr_close_up = at_limit idx c up, sr_close_down = at_limit idx c down,
         sr_is_st = as_truth (pick status [''is_st'', ''st_flag'']),
         sr_suspended = as_truth (pick status [''is_suspended'', ''suspended'']),
         sr_delisting = as_truth (pick status [''is_delist_period'', ''delisting_arrangement'']),
         sr_listed = as_date (pick master [''listed_at'', ''list_date'']),
         sr_delisted = as_date (pick master [''delisted_at'', ''delist_date'']),
         sr_board = pick master [''board'', ''market''], sr_source = bar\<rparr>)))))"

definition day_factor :: "day_rows \<Rightarrow> string \<Rightarrow> dec_value option" where
  "day_factor d code = (if code \<in> index_codes then Some (Finite 1)
     else as_decimal (pick (row_at (dr_factors d) code) [''adjust_factor'', ''adj_factor'']))"

definition day_prices :: "day_rows \<Rightarrow> string \<Rightarrow> (dec_value \<times> dec_value \<times> dec_value \<times> dec_value) option" where
  "day_prices d code = (let p = (\<lambda>f. as_decimal (pick (row_at (dr_bars d) code) [f])) in
     case (p ''open'', p ''high'', p ''low'', p ''close'') of
       (Some o1, Some h, Some l, Some c) \<Rightarrow> Some (o1, h, l, c) | _ \<Rightarrow> None)"

text \<open>A code without a readable price or factor is passed over.\<close>

definition readable :: "day_rows \<Rightarrow> string \<Rightarrow> bool" where
  "readable d code \<longleftrightarrow> day_factor d code \<noteq> None \<and> day_prices d code \<noteq> None"

definition standardize :: "string set \<Rightarrow> date \<Rightarrow> day_rows \<Rightarrow> (std_row list) res" where
  "standardize codes day d = map_res (\<lambda>code. standard_row d day code (the (day_factor d code)) (the (day_prices d code)))
     (filter (readable d) (sorted_list_of_set codes))"

section \<open>Importing a day\<close>

text \<open>
  The provider's client: a permission check, and the rows of a data set for a set of codes (empty for
  all), a date and a listing status.
\<close>

record provider =
  pv_preflight :: "unit res"
  pv_fetch :: "string \<Rightarrow> string set \<Rightarrow> date option \<Rightarrow> string option \<Rightarrow> (row list) res"

record checker =
  ck_calendar :: "date \<Rightarrow> (row list) res"
  ck_bars :: "string set \<Rightarrow> date \<Rightarrow> (row list) res"

definition preflight :: "provider \<Rightarrow> unit res" where
  "preflight p = (case pv_preflight p of
     Inl (DependencyError msg) \<Rightarrow> Inl (DependencyError msg)
   | Inl err \<Rightarrow> Inl (IngestionError ''Tushare permission preflight failed'')
   | Inr x \<Rightarrow> Inr ())"

definition fetch :: "provider \<Rightarrow> string \<Rightarrow> string set \<Rightarrow> date option \<Rightarrow> string option \<Rightarrow> (row list) res" where
  "fetch p dataset codes day status = (case pv_fetch p dataset codes day status of
     Inl (DependencyError msg) \<Rightarrow> Inl (DependencyError msg)
   | Inl err \<Rightarrow> Inl (IngestionError (''Tushare '' @ dataset @ '' fetch failed''))
   | Inr rows \<Rightarrow> Inr rows)"

definition list_statuses :: "string \<Rightarrow> string list" where
  "list_statuses scope = (if scope = ''full'' then [''L'', ''D'', ''P''] else [''L''])"

definition stock_pool :: "string set \<Rightarrow> string \<Rightarrow> code_rows \<Rightarrow> date \<Rightarrow> string set" where
  "stock_pool pilot scope masters day = (if scope = ''pilot'' then pilot - index_codes else listed_stock_codes masters day)"

definition status_row :: "date \<Rightarrow> string set \<Rightarrow> string set \<Rightarrow> string \<Rightarrow> row" where
  "status_row day st suspended code = [(''ts_code'', PText code), (''trade_date'', PDate day), (''is_st'', PBool (code \<in> st)),
     (''is_suspended'', PBool (code \<in> suspended)), (''is_delist_period'', PBool False)]"

definition suspended_codes :: "row list \<Rightarrow> string set" where
  "suspended_codes rows = code_of ` set (filter (\<lambda>r. upper (py_str (pick r [''suspend_type''])) = ''S'') rows)"

definition status_rows :: "date \<Rightarrow> string set \<Rightarrow> row list \<Rightarrow> row list \<Rightarrow> code_rows" where
  "status_rows day stocks st_rows suspensions =
     map (\<lambda>c. (c, status_row day (code_of ` set st_rows) (suspended_codes suspensions) c)) (sorted_list_of_set stocks)"

text \<open>A suspended stock without a bar is not expected to trade.\<close>

definition codes_of_day :: "string set \<Rightarrow> row list \<Rightarrow> code_rows \<Rightarrow> day_codes" where
  "codes_of_day stocks suspensions bars =
     (let daily = stocks - (suspended_codes suspensions - (stocks \<inter> keys bars)) in
      \<lparr>all_codes = stocks \<union> index_codes, daily_codes = daily \<union> index_codes, factor_codes = daily, stock_codes = stocks\<rparr>)"

definition calendar_open :: "row list \<Rightarrow> date \<Rightarrow> bool" where
  "calendar_open calendar day = (case find_calendar calendar day of
     None \<Rightarrow> False | Some r \<Rightarrow> as_truth (pick r [''is_open'', ''isOpen'']))"

record day_facts =
  df_calendar :: "row list"
  df_master :: "row list"
  df_industries :: "row list"
  df_codes :: day_codes
  df_rows :: day_rows
  df_errors :: "string list"

definition day_errors :: "row list \<Rightarrow> date \<Rightarrow> day_codes \<Rightarrow> day_rows \<Rightarrow> string list" where
  "day_errors calendar day c d =
     missing_if (\<not> calendar_open calendar day) ''trading calendar is missing or closed'' @
     missing_if (stock_codes c = {}) ''stock pool is empty'' @
     missing_rows ''security master'' (all_codes c) (dr_masters d) @
     missing_rows ''daily bars'' (daily_codes c) (dr_bars d) @
     missing_rows ''adjustment factors'' (factor_codes c) (dr_factors d) @
     missing_rows ''price limits'' (factor_codes c) (dr_limits d) @
     missing_rows ''industry membership'' (stock_codes c) (dr_industries d) @
     invalid_required_fields c d"

text \<open>Everything that is fetched, in the order of the requests.\<close>

definition gather :: "provider \<Rightarrow> string set \<Rightarrow> date \<Rightarrow> string \<Rightarrow> day_facts res" where
  "gather p pilot day scope =
     andThen (fetch p ''trading_calendar'' {} (Some day) None) (\<lambda>calendar.
     andThen (map_res (\<lambda>s. fetch p ''security_master'' {} None (Some s)) (list_statuses scope)) (\<lambda>pages.
     andThen (fetch p ''index_master'' index_codes None None) (\<lambda>index_master.
     let stock_master = concat pages; stocks = stock_pool pilot scope (index_rows stock_master) day in
     andThen (fetch p ''daily_bars'' stocks (Some day) None) (\<lambda>stock_bars.
     andThen (fetch p ''index_daily_bars'' index_codes (Some day) None) (\<lambda>index_bars.
     andThen (fetch p ''adjustment_factors'' stocks (Some day) None) (\<lambda>factors.
     andThen (fetch p ''price_limits'' {} (Some day) None) (\<lambda>limits.
     andThen (fetch p ''historical_status'' stocks (Some day) None) (\<lambda>st_rows.
     andThen (fetch p ''suspensions'' stocks (Some day) None) (\<lambda>suspensions.
     andThen (fetch p ''industry_membership'' stocks (Some day) None) (\<lambda>industries.
       let bars = index_rows (stock_bars @ index_bars); c = codes_of_day stocks suspensions bars;
           d = \<lparr>dr_bars = bars, dr_factors = index_rows factors, dr_limits = index_rows limits,
                dr_statuses = status_rows day stocks st_rows suspensions,
                dr_masters = index_rows (stock_master @ index_master), dr_industries = index_rows industries\<rparr>
       in Inr \<lparr>df_calendar = calendar, df_master = stock_master @ index_master, df_industries = industries,
            df_codes = c, df_rows = d, df_errors = day_errors calendar day c d\<rparr>))))))))))"

section \<open>The cross-check and the batch\<close>

datatype batch_warning = CheckDisabled | Checked check_warning | CalendarMissing date | CheckUnavailable

definition decimal_cell :: "pyval \<Rightarrow> pyval" where
  "decimal_cell v = (if as_decimal v = None then PNone else PDecimal (py_str v))"

text \<open>What the comparison reads of a standardized row.\<close>

definition comparable_row :: "std_row \<Rightarrow> row" where
  "comparable_row r = (let cell = (\<lambda>names. decimal_cell (pick (sr_source r) names)) in
     [(''symbol'', PText (sr_symbol r)), (''trade_date'', PDate (sr_date r)), (''open'', cell [''open'']), (''high'', cell [''high'']),
      (''low'', cell [''low'']), (''close'', cell [''close'']), (''volume'', cell [''volume'', ''vol'']), (''amount'', cell [''amount''])])"

definition cross_check :: "checker option \<Rightarrow> tolerances \<Rightarrow> std_row list \<Rightarrow> date \<Rightarrow> string set \<Rightarrow> batch_warning list" where
  "cross_check k tol rows day codes = (case k of
     None \<Rightarrow> [CheckDisabled]
   | Some ck \<Rightarrow> (case andThen (ck_calendar ck day) (\<lambda>calendar. andThen (ck_bars ck codes day) (\<lambda>bars.
         andThen (compare_ohlcv tol (map comparable_row rows) bars) (\<lambda>ws. Inr (calendar, ws)))) of
       Inl err \<Rightarrow> [CheckUnavailable]
     | Inr (calendar, ws) \<Rightarrow> map Checked ws @
         (if Some day \<in> (\<lambda>r. as_date (pick r [''trade_date'', ''date''])) ` set calendar then [] else [CalendarMissing day])))"

record import_env =
  ie_provider :: provider
  ie_checker :: "checker option"
  ie_tolerances :: tolerances
  ie_pilot :: "string set"
  ie_store :: store_env
  ie_base :: fpath
  ie_hash :: "std_row list \<Rightarrow> string"
  ie_json :: "std_row \<Rightarrow> jrow"

record batch =
  bt_date :: date
  bt_available_at :: datetime
  bt_manifest :: manifest
  bt_content_hash :: string
  bt_pulled_at :: datetime
  bt_facts :: day_facts
  bt_errors :: "string list"
  bt_warnings :: "batch_warning list"

definition batch_version :: "import_env \<Rightarrow> std_row list \<Rightarrow> date \<Rightarrow> string" where
  "batch_version e rows day = ''v-'' @ take 16 (if rows = [] then sha_hex (ie_store e) (isoformat day) else ie_hash e rows)"

text \<open>Up to the call of the repository: the batch and the rows it is given.\<close>

definition prepare_batch ::
    "import_env \<Rightarrow> pyval \<Rightarrow> string \<Rightarrow> datetime \<Rightarrow> datetime \<Rightarrow> tree \<Rightarrow> (batch \<times> std_row list) res \<times> tree" where
  "prepare_batch e business_date scope pulled_at now t = (case as_date business_date of
     None \<Rightarrow> (Inl (ValueError ''business_date must be ISO date and scope must be pilot or full''), t)
   | Some day \<Rightarrow>
       if scope \<notin> {''pilot'', ''full''}
       then (Inl (ValueError ''business_date must be ISO date and scope must be pilot or full''), t)
       else case andThen (preflight (ie_provider e)) (\<lambda>_. andThen (gather (ie_provider e) (ie_pilot e) day scope) (\<lambda>facts.
           andThen (standardize (daily_codes (df_codes facts)) day (df_rows facts)) (\<lambda>rows. Inr (facts, rows)))) of
         Inl err \<Rightarrow> (Inl err, t)
       | Inr (facts, rows) \<Rightarrow>
           (case write_records (ie_store e) (ie_base e) ''tushare_daily_bars'' (map (ie_json e) rows) ''standardized''
               (Some (batch_version e rows day)) now t of
              (Inl err, t') \<Rightarrow> (Inl err, t')
            | (Inr m, t') \<Rightarrow>
                (Inr (\<lparr>bt_date = day, bt_available_at = day_available_at day, bt_manifest = m, bt_content_hash = ie_hash e rows,
                   bt_pulled_at = pulled_at, bt_facts = facts, bt_errors = df_errors facts,
                   bt_warnings = cross_check (ie_checker e) (ie_tolerances e) rows day (all_codes (df_codes facts))\<rparr>,
                  if df_errors facts = [] then rows else []), t')))"

definition import_business_date ::
    "import_env \<Rightarrow> ('s \<Rightarrow> batch \<Rightarrow> std_row list \<Rightarrow> row res \<times> 's) \<Rightarrow> pyval \<Rightarrow> string \<Rightarrow> datetime \<Rightarrow> datetime \<Rightarrow> tree \<times> 's
      \<Rightarrow> (row \<times> manifest \<times> datetime) res \<times> tree \<times> 's" where
  "import_business_date e publish business_date scope pulled_at now st =
     (case prepare_batch e business_date scope pulled_at now (fst st) of
        (Inl err, t') \<Rightarrow> (Inl err, t', snd st)
      | (Inr (b, rows), t') \<Rightarrow> (case publish (snd st) b rows of
          (Inl err, s') \<Rightarrow> (Inl err, t', s')
        | (Inr reply, s') \<Rightarrow> (Inr (reply, bt_manifest b, pulled_at), t', s')))"

section \<open>What no error means\<close>

definition bar_complete :: "day_rows \<Rightarrow> string \<Rightarrow> bool" where
  "bar_complete d code \<longleftrightarrow> code \<in> keys (dr_bars d) \<and>
     (\<forall>f\<in>set [''open'', ''high'', ''low'', ''close'', ''amount'']. pick (row_at (dr_bars d) code) [f] \<noteq> PNone) \<and>
     pick (row_at (dr_bars d) code) [''volume'', ''vol''] \<noteq> PNone"

definition factor_complete :: "day_rows \<Rightarrow> string \<Rightarrow> bool" where
  "factor_complete d code \<longleftrightarrow> code \<in> keys (dr_factors d) \<and> code \<in> keys (dr_limits d) \<and>
     pick (row_at (dr_factors d) code) [''adjust_factor'', ''adj_factor''] \<noteq> PNone \<and>
     pick (row_at (dr_limits d) code) [''up_limit'', ''upper_limit''] \<noteq> PNone \<and>
     pick (row_at (dr_limits d) code) [''down_limit'', ''lower_limit''] \<noteq> PNone"

definition master_complete :: "day_rows \<Rightarrow> string \<Rightarrow> bool" where
  "master_complete d code \<longleftrightarrow> code \<in> keys (dr_masters d) \<and>
     as_date (pick (row_at (dr_masters d) code) [''listed_at'', ''list_date'']) \<noteq> None \<and>
     pick (row_at (dr_masters d) code) [''board'', ''market''] \<noteq> PNone"

definition industry_complete :: "day_rows \<Rightarrow> string \<Rightarrow> bool" where
  "industry_complete d code \<longleftrightarrow> code \<in> keys (dr_industries d) \<and>
     pick (row_at (dr_industries d) code) [''industry_code'', ''l3_code''] \<noteq> PNone \<and>
     as_date (pick (row_at (dr_industries d) code) [''valid_from'', ''in_date'']) \<noteq> None"

definition evidence_complete :: "row list \<Rightarrow> date \<Rightarrow> day_codes \<Rightarrow> day_rows \<Rightarrow> bool" where
  "evidence_complete calendar day c d \<longleftrightarrow> calendar_open calendar day \<and> stock_codes c \<noteq> {} \<and>
     (\<forall>code\<in>all_codes c. master_complete d code) \<and> (\<forall>code\<in>daily_codes c. bar_complete d code) \<and>
     (\<forall>code\<in>factor_codes c. factor_complete d code) \<and> (\<forall>code\<in>stock_codes c. industry_complete d code)"

definition codes_finite :: "day_codes \<Rightarrow> bool" where
  "codes_finite c \<longleftrightarrow> finite (all_codes c) \<and> finite (daily_codes c) \<and> finite (factor_codes c) \<and> finite (stock_codes c)"

lemma missing_if_Nil [simp]: "missing_if b msg = [] \<longleftrightarrow> \<not> b"
  by (simp add: missing_if_def)

lemma missing_rows_Nil: "missing_rows label codes d = [] \<longleftrightarrow> codes \<subseteq> keys d"
  by (auto simp: missing_rows_def)

lemma concat_map_Nil: "finite A \<Longrightarrow> concat (map f (sorted_list_of_set A)) = [] \<longleftrightarrow> (\<forall>x\<in>A. f x = [])"
  by simp

lemma no_errors_iff:
  assumes "codes_finite c"
  shows "day_errors calendar day c d = [] \<longleftrightarrow> evidence_complete calendar day c d"
proof -
  have f: "finite (all_codes c)" "finite (daily_codes c)" "finite (factor_codes c)" "finite (stock_codes c)"
    using assms by (auto simp: codes_finite_def)
  have "invalid_bars (daily_codes c) (dr_bars d) = [] \<and> daily_codes c \<subseteq> keys (dr_bars d) \<longleftrightarrow> (\<forall>code\<in>daily_codes c. bar_complete d code)"
    unfolding invalid_bars_def concat_map_Nil[OF f(2)] bar_complete_def by (auto simp: pick_def)
  moreover have "invalid_factors (factor_codes c) (dr_factors d) (dr_limits d) = [] \<and> factor_codes c \<subseteq> keys (dr_factors d) \<and>
      factor_codes c \<subseteq> keys (dr_limits d) \<longleftrightarrow> (\<forall>code\<in>factor_codes c. factor_complete d code)"
    unfolding invalid_factors_def concat_map_Nil[OF f(3)] factor_complete_def by auto
  moreover have "invalid_masters (all_codes c) (dr_masters d) = [] \<and> all_codes c \<subseteq> keys (dr_masters d) \<longleftrightarrow>
      (\<forall>code\<in>all_codes c. master_complete d code)"
    unfolding invalid_masters_def concat_map_Nil[OF f(1)] master_complete_def by auto
  moreover have "invalid_industries (stock_codes c) (dr_industries d) = [] \<and> stock_codes c \<subseteq> keys (dr_industries d) \<longleftrightarrow>
      (\<forall>code\<in>stock_codes c. industry_complete d code)"
    unfolding invalid_industries_def concat_map_Nil[OF f(4)] industry_complete_def by auto
  ultimately show ?thesis
    by (simp add: day_errors_def evidence_complete_def invalid_required_fields_def missing_rows_Nil) blast
qed

text \<open>The standardized row of a code, told without the order of the steps.\<close>

definition row_of_day :: "day_rows \<Rightarrow> date \<Rightarrow> string \<Rightarrow> std_row \<Rightarrow> bool" where
  "row_of_day d day code r \<longleftrightarrow> sr_symbol r = code \<and> sr_date r = day \<and> sr_available_at r = day_available_at day \<and>
     day_prices d code = Some (sr_open r, sr_high r, sr_low r, sr_close r) \<and> day_factor d code = Some (sr_factor r) \<and>
     dv_mul (sr_open r) (sr_factor r) = Inr (sr_adj_open r) \<and> dv_mul (sr_high r) (sr_factor r) = Inr (sr_adj_high r) \<and>
     dv_mul (sr_low r) (sr_factor r) = Inr (sr_adj_low r) \<and> dv_mul (sr_close r) (sr_factor r) = Inr (sr_adj_close r) \<and>
     (code \<in> index_codes \<longrightarrow> sr_factor r = Finite 1 \<and> sr_close_up r = Some False \<and> sr_close_down r = Some False) \<and>
     (code \<notin> index_codes \<longrightarrow>
       sr_close_up r = map_option (dv_equal (sr_close r)) (as_decimal (pick (row_at (dr_limits d) code) [''up_limit'', ''upper_limit''])) \<and>
       sr_close_down r = map_option (dv_equal (sr_close r)) (as_decimal (pick (row_at (dr_limits d) code) [''down_limit'', ''lower_limit''])))"

lemma standard_row_of_day:
  assumes "readable d code" and "standard_row d day code (the (day_factor d code)) (the (day_prices d code)) = Inr r"
  shows "row_of_day d day code r"
proof -
  obtain f o1 h l c where p: "day_factor d code = Some f" "day_prices d code = Some (o1, h, l, c)"
    using assms(1) by (cases "day_factor d code"; cases "day_prices d code") (auto simp: readable_def)
  have "code \<in> index_codes \<Longrightarrow> f = Finite 1" using p(1) by (simp add: day_factor_def)
  then show ?thesis using assms(2) p
    by (auto simp: standard_row_def row_of_day_def at_limit_def Let_def result_simps)
qed

lemma standardize_rows:
  assumes "standardize codes day d = Inr rows" and "finite codes"
  shows "map sr_symbol rows = filter (readable d) (sorted_list_of_set codes)"
    and "\<forall>r\<in>set rows. row_of_day d day (sr_symbol r) r"
proof -
  let ?cs = "filter (readable d) (sorted_list_of_set codes)"
  have all: "list_all2 (\<lambda>code r. standard_row d day code (the (day_factor d code)) (the (day_prices d code)) = Inr r) ?cs rows"
    using map_res_list_all2[OF assms(1)[unfolded standardize_def]] .
  have row: "list_all2 (\<lambda>code r. row_of_day d day code r) ?cs rows"
    using all by (rule list.rel_mono_strong) (auto intro: standard_row_of_day)
  then show "map sr_symbol rows = ?cs"
    by (induction rule: list_all2_induct) (auto simp: row_of_day_def)
  have "row_of_day d day (sr_symbol r) r" if "r \<in> set rows" for r
    using row that by (auto simp: list_all2_conv_all_nth in_set_conv_nth row_of_day_def)
  then show "\<forall>r\<in>set rows. row_of_day d day (sr_symbol r) r" by blast
qed

section \<open>What is handed over\<close>

lemma stock_codes_of_day [simp]: "stock_codes (codes_of_day stocks suspensions bars) = stocks"
  by (simp add: codes_of_day_def Let_def)

lemma gather_errors:
  assumes "gather p pilot day scope = Inr f"
  shows "df_errors f = day_errors (df_calendar f) day (df_codes f) (df_rows f)"
  using assms by (auto simp: gather_def Let_def result_simps)

lemma gather_codes:
  assumes "gather p pilot day scope = Inr f"
  obtains masters suspensions st where
    "df_codes f = codes_of_day (stock_pool pilot scope masters day) suspensions (dr_bars (df_rows f))"
    "dr_statuses (df_rows f) = status_rows day (stock_pool pilot scope masters day) st suspensions"
proof -
  have "\<exists>masters suspensions st.
      df_codes f = codes_of_day (stock_pool pilot scope masters day) suspensions (dr_bars (df_rows f)) \<and>
      dr_statuses (df_rows f) = status_rows day (stock_pool pilot scope masters day) st suspensions"
    using assms by (clarsimp simp: gather_def Let_def result_simps) (intro exI conjI, (rule refl)+)
  then show thesis by (elim exE conjE) (rule that)
qed

lemma stock_pool_finite: "finite pilot \<Longrightarrow> finite (stock_pool pilot scope masters day)"
  by (simp add: stock_pool_def listed_stock_codes_def)

lemma codes_of_day_finite: "finite stocks \<Longrightarrow> codes_finite (codes_of_day stocks suspensions bars)"
  by (simp add: codes_finite_def codes_of_day_def Let_def index_codes_def)

lemma gather_finite:
  assumes "gather p pilot day scope = Inr f" and "finite pilot"
  shows "codes_finite (df_codes f)"
  by (rule gather_codes[OF assms(1)]) (simp only: codes_of_day_finite[OF stock_pool_finite[OF assms(2)]])

lemma row_at_status:
  assumes "finite stocks" and "code \<in> stocks"
  shows "row_at (status_rows day stocks st suspensions) code = status_row day (code_of ` set st) (suspended_codes suspensions) code"
proof -
  have "map_of (map (\<lambda>c. (c, f c)) cs) code = (if code \<in> set cs then Some (f code) else None)" for f :: "string \<Rightarrow> row" and cs
    by (induction cs) auto
  then show ?thesis using assms by (simp add: row_at_def dict_get_def status_rows_def)
qed

lemma left_out_suspended:
  assumes "gather p pilot day scope = Inr f" and "finite pilot"
    and "code \<in> stock_codes (df_codes f)" and "code \<notin> daily_codes (df_codes f)"
  shows "code \<notin> keys (dr_bars (df_rows f)) \<and> row_get (row_at (dr_statuses (df_rows f)) code) ''is_suspended'' = PBool True"
proof -
  obtain masters suspensions st where
    c: "df_codes f = codes_of_day (stock_pool pilot scope masters day) suspensions (dr_bars (df_rows f))"
    and st: "dr_statuses (df_rows f) = status_rows day (stock_pool pilot scope masters day) st suspensions"
    by (rule gather_codes[OF assms(1)])
  have code: "code \<in> stock_pool pilot scope masters day" using assms(3) c by simp
  have "daily_codes (df_codes f) = stock_pool pilot scope masters day - (suspended_codes suspensions -
      (stock_pool pilot scope masters day \<inter> keys (dr_bars (df_rows f)))) \<union> index_codes"
    by (subst c) (simp add: codes_of_day_def Let_def)
  then have "code \<in> suspended_codes suspensions" "code \<notin> keys (dr_bars (df_rows f))"
    using assms(4) code by auto
  then show ?thesis using code row_at_status[OF stock_pool_finite[OF assms(2)] code]
    by (simp add: st status_row_def row_get_def dict_get_def)
qed

lemma prepare_batch_Inr:
  assumes "prepare_batch e business_date scope pulled_at now t = (Inr (b, rows), t')"
  obtains day facts all m where
    "as_date business_date = Some day" "scope \<in> {''pilot'', ''full''}" "preflight (ie_provider e) = Inr ()"
    "gather (ie_provider e) (ie_pilot e) day scope = Inr facts"
    "standardize (daily_codes (df_codes facts)) day (df_rows facts) = Inr all"
    "write_records (ie_store e) (ie_base e) ''tushare_daily_bars'' (map (ie_json e) all) ''standardized''
       (Some (batch_version e all day)) now t = (Inr m, t')"
    "bt_date b = day" "bt_facts b = facts" "bt_errors b = df_errors facts" "bt_manifest b = m"
    "bt_warnings b = cross_check (ie_checker e) (ie_tolerances e) all day (all_codes (df_codes facts))"
    "rows = (if df_errors facts = [] then all else [])"
  using assms unfolding prepare_batch_def
  by (auto split: option.splits if_splits sum.splits prod.splits simp: result_simps)

text \<open>
  C36: the repository is given rows of a day only when the evidence is complete: an open day, a stock pool,
  master data for every code, bars for the codes that trade, factors and limits for the stocks that trade, and
  industries. Then there is one row per code that trades and is readable, in the order of the codes, made of that
  code's rows; and a stock left out of the day was reported suspended and has no bar.
\<close>

theorem publication_complete:
  assumes "prepare_batch e business_date scope pulled_at now t = (Inr (b, rows), t')" and "finite (ie_pilot e)"
  defines "f \<equiv> bt_facts b"
  shows "(rows \<noteq> [] \<longrightarrow> bt_errors b = []) \<and>
    (bt_errors b = [] \<longleftrightarrow> evidence_complete (df_calendar f) (bt_date b) (df_codes f) (df_rows f)) \<and>
    (bt_errors b = [] \<longrightarrow>
      map sr_symbol rows = filter (readable (df_rows f)) (sorted_list_of_set (daily_codes (df_codes f))) \<and>
      (\<forall>r\<in>set rows. row_of_day (df_rows f) (bt_date b) (sr_symbol r) r)) \<and>
    (\<forall>code\<in>stock_codes (df_codes f) - daily_codes (df_codes f). code \<notin> keys (dr_bars (df_rows f)) \<and>
      row_get (row_at (dr_statuses (df_rows f)) code) ''is_suspended'' = PBool True)"
proof -
  obtain day all where g: "gather (ie_provider e) (ie_pilot e) day scope = Inr f"
    and s: "standardize (daily_codes (df_codes f)) day (df_rows f) = Inr all"
    and b: "bt_date b = day" "bt_errors b = df_errors f" "rows = (if df_errors f = [] then all else [])"
    unfolding f_def by (rule prepare_batch_Inr[OF assms(1)]) auto
  have fin: "codes_finite (df_codes f)" by (rule gather_finite[OF g assms(2)])
  then have daily: "finite (daily_codes (df_codes f))" by (simp add: codes_finite_def)
  have "bt_errors b = [] \<longleftrightarrow> evidence_complete (df_calendar f) (bt_date b) (df_codes f) (df_rows f)"
    using no_errors_iff[OF fin] gather_errors[OF g] b by simp
  then show ?thesis
    using standardize_rows[OF s daily] left_out_suspended[OF g assms(2)] b by simp
qed

lemma prepare_again:
  assumes "prepare_batch e business_date scope pulled_at now t = (Inr (b, rows), t')" and "tree_ok t"
  shows "prepare_batch e business_date scope pulled_at' now' (store_run (ie_store e) t' ops) =
    (Inl FileExists, store_run (ie_store e) t' ops)"
proof -
  obtain day facts all m where p: "as_date business_date = Some day" "scope \<in> {''pilot'', ''full''}"
    "preflight (ie_provider e) = Inr ()" "gather (ie_provider e) (ie_pilot e) day scope = Inr facts"
    "standardize (daily_codes (df_codes facts)) day (df_rows facts) = Inr all"
    and w: "write_records (ie_store e) (ie_base e) ''tushare_daily_bars'' (map (ie_json e) all) ''standardized''
       (Some (batch_version e all day)) now t = (Inr m, t')"
    by (rule prepare_batch_Inr[OF assms(1)]) auto
  show ?thesis using p version_taken[OF w assms(2), of now' ops] by (simp add: prepare_batch_def result_simps)
qed

text \<open>
  a day whose rows were once written to the store can not be imported again with the same provider data: the
  directory of its version exists, so the call raises before the repository is asked, whatever became of the
  first publication and whatever was stored since, and changes nothing.
\<close>

theorem import_rerun_refused:
  assumes "prepare_batch e business_date scope pulled_at now t = (Inr (b, rows), t')" and "tree_ok t"
  shows "import_business_date e publish business_date scope pulled_at' now' (store_run (ie_store e) t' ops, s) =
    (Inl FileExists, store_run (ie_store e) t' ops, s)"
  by (simp add: import_business_date_def prepare_again[OF assms])

section \<open>A day at the market\<close>

definition sample_bar :: "string \<Rightarrow> row" where
  "sample_bar code = [(''ts_code'', PText code), (''trade_date'', PText ''20240424''), (''open'', PText ''10''), (''high'', PText ''11''),
     (''low'', PText ''9''), (''close'', PText ''10.5''), (''vol'', PText ''100''), (''amount'', PText ''1000'')]"

definition sample_master_row :: "string \<Rightarrow> row" where
  "sample_master_row code = [(''ts_code'', PText code), (''list_date'', PText ''20000101''), (''market'', PText ''Main'')]"

definition sample_feed :: "(string \<times> row list) list" where
  "sample_feed =
     [(''trading_calendar'', [[(''cal_date'', PText ''20240424''), (''is_open'', PText ''1'')]]),
      (''security_master'', [sample_master_row ''600000.SH'', sample_master_row ''000001.SZ'']),
      (''index_master'', [sample_master_row ''000300.SH'', sample_master_row ''000001.SH'']),
      (''daily_bars'', [sample_bar ''600000.SH'']),
      (''index_daily_bars'', [sample_bar ''000300.SH'', sample_bar ''000001.SH'']),
      (''adjustment_factors'', [[(''ts_code'', PText ''600000.SH''), (''adj_factor'', PText ''2'')]]),
      (''price_limits'', [[(''ts_code'', PText ''600000.SH''), (''up_limit'', PText ''10.5''), (''down_limit'', PText ''8.5'')]]),
      (''suspensions'', [[(''ts_code'', PText ''000001.SZ''), (''suspend_type'', PText ''S'')]]),
      (''industry_membership'', [[(''ts_code'', PText ''600000.SH''), (''l3_code'', PText ''i1''), (''in_date'', PText ''20000101'')],
        [(''ts_code'', PText ''000001.SZ''), (''l3_code'', PText ''i2''), (''in_date'', PText ''20000101'')]])]"

definition sample_provider :: provider where
  "sample_provider = \<lparr>pv_preflight = Inr (),
     pv_fetch = (\<lambda>dataset codes day status. Inr (case map_of sample_feed dataset of None \<Rightarrow> [] | Some rows \<Rightarrow> rows))\<rparr>"

definition sample_stocks :: "string set" where "sample_stocks = {''600000.SH'', ''000001.SZ''}"

text \<open>The pilot codes of the service.\<close>

definition pilot_default :: "string set" where
  "pilot_default = {''000001.SZ'', ''600000.SH'', ''000300.SH'', ''000001.SH''}"

definition sample_import :: import_env where
  "sample_import = \<lparr>ie_provider = sample_provider, ie_checker = None,
     ie_tolerances = finite_tolerances 0 0 0,
     ie_pilot = pilot_default, ie_store = sample_store, ie_base = [''data''],
     ie_hash = (\<lambda>rows. sha_hex sample_store (concat (map sr_symbol rows))), ie_json = (\<lambda>r. [(''symbol'', JText (sr_symbol r))])\<rparr>"

lemma sample_day: "as_date (PText ''2024-04-24'') = Some 739000"
  by code_simp

definition sample_of :: "string \<Rightarrow> row list" where
  "sample_of name = (case map_of sample_feed name of None \<Rightarrow> [] | Some rows \<Rightarrow> rows)"

lemma sample_fetch: "fetch sample_provider dataset codes day status = Inr (sample_of dataset)"
  by (simp add: fetch_def sample_provider_def sample_of_def)

definition sample_rows_of_day :: day_rows where
  "sample_rows_of_day = \<lparr>dr_bars = index_rows (sample_of ''daily_bars'' @ sample_of ''index_daily_bars''),
     dr_factors = index_rows (sample_of ''adjustment_factors''), dr_limits = index_rows (sample_of ''price_limits''),
     dr_statuses = status_rows 739000 sample_stocks [] (sample_of ''suspensions''),
     dr_masters = index_rows (sample_of ''security_master'' @ sample_of ''index_master''),
     dr_industries = index_rows (sample_of ''industry_membership'')\<rparr>"

definition sample_codes :: day_codes where
  "sample_codes = codes_of_day sample_stocks (sample_of ''suspensions'') (dr_bars sample_rows_of_day)"

definition sample_facts :: day_facts where
  "sample_facts = \<lparr>df_calendar = sample_of ''trading_calendar'',
     df_master = sample_of ''security_master'' @ sample_of ''index_master'', df_industries = sample_of ''industry_membership'',
     df_codes = sample_codes, df_rows = sample_rows_of_day, df_errors = []\<rparr>"

lemma sample_no_errors: "day_errors (sample_of ''trading_calendar'') 739000 sample_codes sample_rows_of_day = []"
  by code_simp

lemma sample_pool: "stock_pool pilot_default ''pilot'' masters day = sample_stocks"
  by (auto simp: stock_pool_def sample_stocks_def pilot_default_def index_codes_def)

lemma sample_gather: "gather sample_provider pilot_default 739000 ''pilot'' = Inr sample_facts"
  using sample_no_errors
  by (simp add: gather_def Let_def sample_fetch sample_pool list_statuses_def sample_facts_def sample_codes_def sample_rows_of_day_def
    sample_of_def[of "''historical_status''"] sample_feed_def)

lemma sample_readable:
  "sorted_list_of_set (daily_codes sample_codes) = [''000001.SH'', ''000300.SH'', ''600000.SH'']"
  "day_factor sample_rows_of_day ''600000.SH'' = Some (Finite 2)"
  by code_simp+

lemma sample_prices:
  "code \<in> set [''000001.SH'', ''000300.SH'', ''600000.SH''] \<Longrightarrow>
     day_prices sample_rows_of_day code = Some (Finite 10, Finite 11, Finite 9, Finite (21 / 2))"
proof -
  have "list_all (\<lambda>code. day_prices sample_rows_of_day code = Some (Finite 10, Finite 11, Finite 9, Finite (21 / 2)))
      [''000001.SH'', ''000300.SH'', ''600000.SH'']"
    by code_simp
  then show "code \<in> set [''000001.SH'', ''000300.SH'', ''600000.SH''] \<Longrightarrow>
     day_prices sample_rows_of_day code = Some (Finite 10, Finite 11, Finite 9, Finite (21 / 2))"
    by (simp only: list_all_iff)
qed

lemma sample_standardize:
  obtains rows where "standardize (daily_codes sample_codes) 739000 sample_rows_of_day = Inr rows"
    "map sr_symbol rows = [''000001.SH'', ''000300.SH'', ''600000.SH'']"
proof -
  have f: "day_factor sample_rows_of_day ''000001.SH'' = Some (Finite 1)" "day_factor sample_rows_of_day ''000300.SH'' = Some (Finite 1)"
    by (simp_all add: day_factor_def index_codes_def)
  have "\<exists>rows. standardize (daily_codes sample_codes) 739000 sample_rows_of_day = Inr rows \<and>
      map sr_symbol rows = [''000001.SH'', ''000300.SH'', ''600000.SH'']"
    by (simp add: standardize_def sample_readable readable_def f sample_prices standard_row_def Let_def)
  then show thesis by (elim exE conjE) (rule that)
qed

lemma sample_hash_of_rows: "sha_hex sample_store (concat [''000001.SH'', ''000300.SH'', ''600000.SH'']) = ''4c44''"
  by code_simp

lemma path_of_part: "part_ok s \<Longrightarrow> path_of s = [s]"
  using path_of_str[of "[s]"] by (cases s) (auto simp: path_str_def absolute_def normal_def part_ok_def)

lemma sample_version_dir:
  "safe_dataset ''tushare_daily_bars''"
  "artifact_dir [''data''] ''standardized'' ''tushare_daily_bars'' ''v-4c44'' = [''data'', ''standardized'', ''tushare_daily_bars'', ''v-4c44'']"
  by (simp_all add: path_of_part part_ok_def safe_dataset_def artifact_dir_def path_join_def absolute_def)

lemma sample_version_made: "\<exists>u. make_directory [''data'', ''standardized'', ''tushare_daily_bars'', ''v-4c44''] empty_tree = Inr u"
  by (simp add: make_directory_def empty_tree_def is_file_def)

lemma sample_prepare:
  assumes "as_date business_date = Some 739000"
  obtains b rows t' where
    "prepare_batch sample_import business_date ''pilot'' sample_now sample_now empty_tree = (Inr (b, rows), t')"
    "bt_errors b = []" "bt_date b = 739000" "bt_facts b = sample_facts" "map sr_symbol rows = [''000001.SH'', ''000300.SH'', ''600000.SH'']"
proof -
  obtain rows where rows: "standardize (daily_codes sample_codes) 739000 sample_rows_of_day = Inr rows"
    "map sr_symbol rows = [''000001.SH'', ''000300.SH'', ''600000.SH'']"
    by (rule sample_standardize)
  have "rows \<noteq> []" using rows(2) by auto
  then have v: "batch_version sample_import rows 739000 = ''v-4c44''"
    using sample_hash_of_rows by (simp add: batch_version_def sample_import_def rows(2))
  let ?v = "batch_version sample_import rows 739000"
  obtain u where "make_directory (artifact_dir [''data''] ''standardized'' ''tushare_daily_bars'' ?v) empty_tree = Inr u"
    using sample_version_made unfolding v sample_version_dir(2) by blast
  moreover have "?v \<noteq> []" by (simp add: v)
  ultimately obtain m t' where "write_records sample_store [''data''] ''tushare_daily_bars'' (map (ie_json sample_import) rows) ''standardized''
      (Some ?v) sample_now empty_tree = (Inr m, t')"
    using sample_version_dir(1) sample_store_ok(4)
    by (simp add: write_records_def encode_records_def version_of_def Let_def)
  then show thesis
    using that[OF _ _ _ _ rows(2)] rows(1)
    by (simp add: prepare_batch_def assms sample_import_def preflight_def sample_provider_def
      sample_gather[unfolded sample_provider_def] sample_facts_def)
qed

lemma publication_complete_witness:
  "\<exists>b rows t'. prepare_batch sample_import (PText ''2024-04-24'') ''pilot'' sample_now sample_now empty_tree = (Inr (b, rows), t') \<and>
     bt_errors b = [] \<and> length rows = 3 \<and> evidence_complete (df_calendar (bt_facts b)) (bt_date b) (df_codes (bt_facts b)) (df_rows (bt_facts b))"
proof -
  obtain b rows t' where p: "prepare_batch sample_import (PText ''2024-04-24'') ''pilot'' sample_now sample_now empty_tree = (Inr (b, rows), t')"
    "bt_errors b = []" "map sr_symbol rows = [''000001.SH'', ''000300.SH'', ''600000.SH'']"
    by (rule sample_prepare[OF sample_day])
  have "finite (ie_pilot sample_import)" by (simp add: sample_import_def pilot_default_def)
  then have "evidence_complete (df_calendar (bt_facts b)) (bt_date b) (df_codes (bt_facts b)) (df_rows (bt_facts b))"
    using publication_complete[OF p(1)] p(2) by simp
  moreover have "length rows = 3" using arg_cong[OF p(3), of length] by simp
  ultimately show ?thesis using p(1,2) by blast
qed

text \<open>The first publication failed with the repository; the second is refused by the store.\<close>

lemma import_rerun_refused_witness:
  "\<exists>t'. import_business_date sample_import (\<lambda>s b rows. (Inl (DependencyError ''database''), s)) (PText ''2024-04-24'') ''pilot'' sample_now sample_now
       (empty_tree, ()) = (Inl (DependencyError ''database''), t', ()) \<and>
     import_business_date sample_import (\<lambda>s b rows. (Inr [], s)) (PText ''2024-04-24'') ''pilot'' sample_now sample_now (t', ()) =
       (Inl FileExists, t', ())"
proof -
  obtain b rows t' where p: "prepare_batch sample_import (PText ''2024-04-24'') ''pilot'' sample_now sample_now empty_tree = (Inr (b, rows), t')"
    by (rule sample_prepare[OF sample_day])
  show ?thesis
    using import_rerun_refused[OF p, of _ sample_now sample_now "[]" "()"] p sample_store_ok(1)
    by (intro exI[of _ t']) (simp add: import_business_date_def store_run_def)
qed

end
