(* ===== verification/ProviderJobs.thy ===== *)
theory ProviderJobs
  imports Settings Publishing DurableJobs
begin

text \<open>
  The named job entry points of \<open>app/jobs/tasks.py\<close>: each runs a service under the idempotent runner of
  \<open>JobTasks\<close>. The provider entries read the settings, refuse a provider that is not enabled, build its client
  and import a day. The service acts on a world of its own; \<open>run_task\<close> is told how it would end and says whether
  it was run, and only then the world is the changed one. How an exception of a service looks (its class names
  and text) is an argument.
\<close>

section \<open>Plain jobs\<close>

definition update_calendar where
  "update_calendar ops s audit day = run_task ops s audit ''calendar'' day None ''execute''"

definition import_authorized_data where
  "import_authorized_data ops s audit day = run_task ops s audit ''data-import'' day None ''execute''"

definition validate_data_quality where
  "validate_data_quality ops s audit day = run_task ops s audit ''data-quality'' day None ''execute''"

definition run_daily_report where
  "run_daily_report ops s audit day = run_task ops s audit ''daily-report'' day None ''execute''"

definition run_backtest where
  "run_backtest ops s audit day scope = run_task ops s audit ''backtest'' day (Some scope) ''execute''"

definition run_backup where
  "run_backup ops s audit day scope = run_task ops s audit ''backup'' day (Some scope) ''execute''"

section \<open>Provider imports\<close>

definition provider_scope :: "string \<Rightarrow> string \<Rightarrow> string" where
  "provider_scope provider scope = provider @ ''-'' @ scope"

definition provider_key :: "string \<Rightarrow> date \<Rightarrow> string \<Rightarrow> string" where
  "provider_key provider day scope = make_idempotency_key ''data-import'' day (Some (provider_scope provider scope))"

definition run_provider_task ::
    "('s, 'v) store_ops \<Rightarrow> 's \<Rightarrow> audit_event list \<Rightarrow> string \<Rightarrow> date \<Rightarrow> string \<Rightarrow> string \<Rightarrow> datetime \<Rightarrow> 'v outcome \<Rightarrow> datetime
      \<Rightarrow> ('v ending \<times> bool) \<times> 's \<times> audit_event list" where
  "run_provider_task ops s audit provider day scope =
     run_task ops s audit ''data-import'' day (Some (provider_scope provider scope)) ''provider-import''"

definition scope_error :: "'v ending" where
  "scope_error = StoreError (ValueError ''scope must be pilot or full'')"

definition import_provider_data where
  "import_provider_data ops s audit provider day scope uuid now out end_time =
     (if scope \<notin> {''pilot'', ''full''} then ((scope_error, False), s, audit)
      else run_provider_task ops s audit provider day scope uuid now out end_time)"

definition import_ifind_data where
  "import_ifind_data ops s audit day scope = import_provider_data ops s audit ''ifind'' day scope"

definition import_tushare_data where
  "import_tushare_data ops s audit day scope = import_provider_data ops s audit ''tushare'' day scope"

text \<open>The job is moved to failed, and the error raised whatever the runner returned.\<close>

definition record_provider_failure where
  "record_provider_failure ops s audit provider day scope err uuid now end_time =
     (case run_provider_task ops s audit provider day scope uuid now (Raised err) end_time of
        ((Result res, executed), s', audit') \<Rightarrow> (Reraised err, s', audit')
      | ((ending, executed), s', audit') \<Rightarrow> (ending, s', audit'))"

definition configuration_error :: "string \<Rightarrow> raised" where
  "configuration_error msg = \<lparr>type_name = ''ConfigurationError'',
     class_names = [''ConfigurationError'', ''ValueError'', ''Exception'', ''BaseException'', ''object''], exc_text = msg\<rparr>"

definition dependency_error :: "string \<Rightarrow> raised" where
  "dependency_error msg = \<lparr>type_name = ''DependencyError'',
     class_names = [''DependencyError'', ''ApplicationError'', ''Exception'', ''BaseException'', ''object''], exc_text = msg\<rparr>"

definition provider_gate :: "string \<Rightarrow> 'a provider_settings_scheme \<Rightarrow> string \<Rightarrow> raised option" where
  "provider_gate label p scope =
     (if \<not> cf_enabled p then Some (configuration_error (label @ '' import is disabled''))
      else if scope = ''full'' \<and> \<not> cf_full_enabled p
      then Some (configuration_error (label @ '' full import is disabled pending pilot acceptance''))
      else None)"

text \<open>What the constructors of the two clients refuse.\<close>

definition tushare_client :: "tushare_settings \<Rightarrow> unit res" where
  "tushare_client p =
     (if cf_token p = [] then Inl (ValueError ''Tushare token is required'')
      else if (case cf_timeout p of Finite q \<Rightarrow> q \<le> 0 | Infinite neg \<Rightarrow> neg | NotANumber \<Rightarrow> False) \<or>
         \<not> (1 \<le> cf_max_codes p \<and> cf_max_codes p \<le> 5000) \<or> \<not> (1 \<le> cf_concurrency p \<and> cf_concurrency p \<le> 32) \<or> cf_rate_limit p < 1
      then Inl (ValueError ''invalid Tushare timeout, batching, concurrency, or rate limit'')
      else Inr ())"

definition ifind_client :: "(string \<Rightarrow> bool) \<Rightarrow> ifind_settings \<Rightarrow> unit res" where
  "ifind_client bracketed p =
     (if cf_token p = [] \<or> strip (cf_token p) = [] then Inl (ValueError ''refresh_token is required'')
      else andThen (url_parse bracketed (rstrip_slash (cf_base_url p))) (\<lambda>parsed.
        if parsed \<noteq> (''https'', Some ''quantapi.51ifind.com'') then Inl (ValueError ''base_url must use https://quantapi.51ifind.com'')
        else if cf_max_codes p < 1 \<or> 200 < cf_max_codes p then Inl (ValueError ''max_codes_per_request must be between 1 and 200'')
        else if cf_concurrency p < 1 then Inl (ValueError ''max_concurrency must be positive'')
        else Inr ()))"

section \<open>The worker's entry points\<close>

text \<open>A call whose operation would take the world from \<open>w\<close> to the one \<open>service\<close> leaves.\<close>

definition in_world ::
    "('v outcome \<Rightarrow> ('v ending \<times> bool) \<times> 's \<times> audit_event list) \<Rightarrow> ('w \<Rightarrow> 'v outcome \<times> 'w) \<Rightarrow> 'w
      \<Rightarrow> 'v ending \<times> 's \<times> audit_event list \<times> 'w" where
  "in_world call service w = (case call (fst (service w)) of
     ((ending, executed), s', audit') \<Rightarrow> (ending, s', audit', if executed then snd (service w) else w))"

text \<open>
  \<open>gate\<close> says why the import may not run, \<open>client\<close> whether its client can be built, and \<open>service\<close> imports
  the day for the owner.
\<close>

definition owner_id :: "string option \<Rightarrow> uuid res" where
  "owner_id owner = (case owner of None \<Rightarrow> Inr ''00000000-0000-0000-0000-000000000000'' | Some u \<Rightarrow> as_uuid u)"

definition run_provider_import where
  "run_provider_import ops s audit provider loaded gate client service date_text scope owner uuid now end_time w =
     (if scope \<notin> {''pilot'', ''full''} then (scope_error, s, audit, w)
      else case date_fromisoformat (take 10 date_text) of
        None \<Rightarrow> (StoreError (ValueError ''Invalid isoformat string''), s, audit, w)
      | Some day \<Rightarrow> (case andThen (owner_id owner) (\<lambda>u. andThen loaded (\<lambda>cfg. Inr (u, cfg))) of
          Inl err \<Rightarrow> (StoreError err, s, audit, w)
        | Inr (u, cfg) \<Rightarrow> (case gate cfg scope of
            Some err \<Rightarrow> (case record_provider_failure ops s audit provider day scope err uuid now end_time of
               (ending, s', audit') \<Rightarrow> (ending, s', audit', w))
          | None \<Rightarrow> (case client cfg of
              Inl err \<Rightarrow> (StoreError err, s, audit, w)
            | Inr u2 \<Rightarrow> in_world (\<lambda>out. import_provider_data ops s audit provider day scope uuid now out end_time)
                (service cfg u day scope) w))))"

text \<open>The Tushare service: the settings decide its tolerances, pilot codes and cross-check.\<close>

definition service_env :: "settings \<Rightarrow> import_env \<Rightarrow> import_env" where
  "service_env cfg base = base\<lparr>ie_tolerances := cf_tolerances cfg, ie_pilot := upper ` set (cf_pilot_codes (cf_tushare cfg)),
     ie_checker := if cf_akshare cfg then ie_checker base else None\<rparr>"

definition tushare_service ::
    "import_env \<Rightarrow> (uuid \<Rightarrow> 'r \<Rightarrow> batch \<Rightarrow> std_row list \<Rightarrow> row res \<times> 'r) \<Rightarrow> (py_error \<Rightarrow> raised) \<Rightarrow> (row \<times> manifest \<times> datetime \<Rightarrow> 'v)
      \<Rightarrow> datetime \<Rightarrow> settings \<Rightarrow> uuid \<Rightarrow> date \<Rightarrow> string \<Rightarrow> tree \<times> 'r \<Rightarrow> 'v outcome \<times> tree \<times> 'r" where
  "tushare_service base publish raised_of value_of now cfg owner day scope w =
     (case import_business_date (service_env cfg base) (publish owner) (PDate day) scope now now w of
        (Inl err, w') \<Rightarrow> (Raised (raised_of err), w')
      | (Inr reply, w') \<Rightarrow> (Returned (Some (value_of reply)), w'))"

definition run_tushare_import where
  "run_tushare_import ops s audit loaded base publish raised_of value_of pulled_at =
     run_provider_import ops s audit ''tushare'' loaded (\<lambda>cfg. provider_gate ''Tushare'' (cf_tushare cfg))
       (\<lambda>cfg. tushare_client (cf_tushare cfg)) (tushare_service base publish raised_of value_of pulled_at)"

text \<open>\<open>installed\<close> tells whether the HTTP package is there.\<close>

definition run_ifind_import where
  "run_ifind_import ops s audit installed bracketed loaded service =
     run_provider_import ops s audit ''ifind'' loaded
       (\<lambda>cfg scope. case provider_gate ''iFinD'' (cf_ifind cfg) scope of
          Some err \<Rightarrow> Some err
        | None \<Rightarrow> if installed then None else Some (dependency_error ''iFinD HTTP dependencies are not installed''))
       (\<lambda>cfg. ifind_client bracketed (cf_ifind cfg)) service"

section \<open>With loaded settings the clients can be built\<close>

lemma tushare_client_built:
  assumes "load_settings e file environ overrides = Inr cfg" and "provider_gate label (cf_tushare cfg) scope = None"
  shows "tushare_client (cf_tushare cfg) = Inr ()"
proof -
  have "tushare_safe (cf_tushare cfg)"
    by (rule load_settings_Inr[OF assms(1)]) (rule load_tushare_safe)
  moreover have "cf_enabled (cf_tushare cfg)" using assms(2) by (auto simp: provider_gate_def split: if_splits)
  ultimately show ?thesis
    by (auto simp: tushare_client_def tushare_safe_def provider_safe_def float_between_def split: dec_value.splits)
qed

section \<open>One call of an entry point\<close>

lemma provider_key_of: "make_idempotency_key ''data-import'' day (Some (provider_scope provider scope)) = provider_key provider day scope"
  by (simp add: provider_key_def)

lemma import_open:
  assumes "scope \<in> {''pilot'', ''full''}" and "date_fromisoformat (take 10 date_text) = Some day"
    and "owner_id owner = Inr u"
    and "gate cfg scope = None" and "client cfg = Inr ()"
  shows "run_provider_import ops s audit provider (Inr cfg) gate client service date_text scope owner uuid now end_time w =
    in_world (\<lambda>out. run_provider_task ops s audit provider day scope uuid now out end_time) (service cfg u day scope) w"
  using assms by (auto simp: run_provider_import_def import_provider_data_def)

lemma import_closed:
  assumes "scope \<in> {''pilot'', ''full''}" and "date_fromisoformat (take 10 date_text) = Some day"
    and "owner_id owner = Inr u"
    and "gate cfg scope = Some err"
  shows "run_provider_import ops s audit provider (Inr cfg) gate client service date_text scope owner uuid now end_time w =
    (case record_provider_failure ops s audit provider day scope err uuid now end_time of (ending, s', audit') \<Rightarrow> (ending, s', audit', w))"
  using assms by (auto simp: run_provider_import_def)

context job_store
begin

lemma provider_task_fails:
  assumes "ok s" and "may_run s (provider_key provider day scope) ''data-import'' day"
    and "unused s uuid" and "timely s (provider_key provider day scope) now" and "phase_ok ''provider-import''"
  shows "\<exists>r s' audit'. run_provider_task ops s audit provider day scope uuid now (Raised e) end_time =
      ((Reraised e, True), s', audit') \<and> ok s' \<and> length audit' = Suc (length audit) \<and>
    op_latest ops s' (provider_key provider day scope) = Some r \<and> job_status r = Failed \<and>
    error_summary r = Some (summarize_error e) \<and> fits r ''data-import'' day"
proof -
  obtain r s' where c: "run_task ops s audit ''data-import'' day (Some (provider_scope provider scope)) ''provider-import'' uuid now (Raised e) end_time =
      ((Reraised e, True), s', audit @ [finish_event ''data-import'' (provider_key provider day scope) r (Raised e) end_time])" "ok s'"
    "op_latest ops s' (provider_key provider day scope) = Some (finished_record r (Raised e) end_time)" "fits r ''data-import'' day"
    using call_executes[OF assms(1) provider_key_def assms(2-5), of "Raised e" audit end_time] by auto
  have "fits (finished_record r (Raised e) end_time) ''data-import'' day"
    by (rule fits_kept[OF _ _ c(4)]) (simp_all add: finished_record_def)
  then show ?thesis using c(1-3) by (auto simp: run_provider_task_def finished_record_def)
qed

lemma provider_task_once:
  assumes "ok s" and "may_run s (provider_key provider day scope) ''data-import'' day"
    and "unused s uuid" and "timely s (provider_key provider day scope) now" and "phase_ok ''provider-import''" and "value_ok v"
  shows "\<exists>res s' audit'. run_provider_task ops s audit provider day scope uuid now (Returned v) end_time =
      ((Result res, True), s', audit') \<and> result_value res = v \<and> ok s' \<and> length audit' = Suc (length audit) \<and>
    (\<forall>uuid2 now2 out2 end2. \<exists>res2.
      run_provider_task ops s' audit' provider day scope uuid2 now2 out2 end2 = ((Result res2, False), s', audit') \<and>
      result_value res2 = v \<and> result_run_id res2 = result_run_id res \<and> replayed res2)"
  using success_is_replayed[OF assms(1) provider_key_def assms(2-6), of audit end_time]
  by (auto simp: run_provider_task_def) 

end

section \<open>The Tushare import over the database\<close>

text \<open>The job table lets the job of the key run: it was never run, failed, or is queued.\<close>

definition job_ready :: "('v \<Rightarrow> 'v) \<Rightarrow> 'v job_table \<Rightarrow> string \<Rightarrow> date \<Rightarrow> uuid \<Rightarrow> datetime \<Rightarrow> bool" where
  "job_ready to_json t key day uuid now \<longleftrightarrow> table_ok to_json t \<and>
     (\<forall>p. db_latest t key = Some p \<longrightarrow> job_status p \<in> {Failed, Queued} \<and> same_job p ''data-import'' day) \<and>
     db_unused t uuid \<and> db_timely t key now"

lemma job_readyD:
  assumes "job_ready to_json t key day uuid now"
  shows "table_ok to_json t" and "db.may_run to_json t key ''data-import'' day" and "db_unused t uuid" and "db_timely t key now"
proof -
  have l: "op_latest (db_ops to_json) t key = db_latest t key" by (simp add: db_ops_def)
  show "db.may_run to_json t key ''data-import'' day" using assms by (simp add: db.may_run_def job_ready_def l)
qed (use assms in \<open>simp_all add: job_ready_def\<close>)

lemma db_task_fails:
  assumes "job_ready to_json t (provider_key provider day scope) day uuid now"
  shows "\<exists>r t' audit'. run_provider_task (db_ops to_json) t audit provider day scope uuid now (Raised e) end_time =
      ((Reraised e, True), t', audit') \<and> length audit' = Suc (length audit) \<and>
    db_latest t' (provider_key provider day scope) = Some r \<and> job_status r = Failed \<and> error_summary r = Some (summarize_error e)"
  using db.provider_task_fails[OF job_readyD[OF assms], of audit e end_time] by (auto simp: db_ops_def)

lemma db_task_once:
  assumes "job_ready to_json t (provider_key provider day scope) day uuid now" and "map_option to_json v = v"
  shows "\<exists>res t' audit'. run_provider_task (db_ops to_json) t audit provider day scope uuid now (Returned v) end_time =
      ((Result res, True), t', audit') \<and> result_value res = v \<and>
    (\<forall>uuid2 now2 out2 end2. \<exists>res2.
      run_provider_task (db_ops to_json) t' audit' provider day scope uuid2 now2 out2 end2 = ((Result res2, False), t', audit') \<and>
      result_value res2 = v \<and> replayed res2)"
  using db.provider_task_once[OF job_readyD[OF assms(1)], of v audit end_time] assms(2) by (auto simp: storable_def) metis

text \<open>
  a Tushare import that the settings do not allow never reaches the provider, the repository or the
  store: the world is as it was, the job is recorded as failed with the reason, one audit event is written, and
  the configuration error, which is not a retryable one, is raised.
\<close>

theorem closed_import_recorded:
  assumes "scope \<in> {''pilot'', ''full''}" and "date_fromisoformat (take 10 date_text) = Some day" and "owner_id owner = Inr u"
    and "provider_gate ''Tushare'' (cf_tushare cfg) scope = Some err"
    and "job_ready to_json t (provider_key ''tushare'' day scope) day uuid now"
  shows "\<not> is_retryable err \<and> (\<exists>r t' audit'.
    run_tushare_import (db_ops to_json) t audit (Inr cfg) base publish raised_of value_of pulled_at date_text scope owner uuid now end_time w =
      (Reraised err, t', audit', w) \<and>
    db_latest t' (provider_key ''tushare'' day scope) = Some r \<and> job_status r = Failed \<and>
    error_summary r = Some (summarize_error err) \<and> length audit' = Suc (length audit))"
proof -
  have "\<not> is_retryable err"
    using assms(4) by (auto simp: provider_gate_def is_retryable_def configuration_error_def split: if_splits)
  moreover note c = import_closed[OF assms(1-3), of "\<lambda>cfg. provider_gate ''Tushare'' (cf_tushare cfg)" cfg err, OF assms(4)]
  ultimately show ?thesis
    using db_task_fails[OF assms(5), of audit err end_time]
    by (auto simp: run_tushare_import_def c record_provider_failure_def)
qed

text \<open>
  once a Tushare import of a day and scope returned, no later call for them imports again: whatever settings
  are loaded and whatever the world is, the job table, the audit log and the world stay as they are, and the call
  returns the first value as a replay, or raises the configuration error when the settings do not allow the import.
\<close>

theorem import_runs_once:
  assumes "scope \<in> {''pilot'', ''full''}" and "date_fromisoformat (take 10 date_text) = Some day" and "owner_id owner = Inr u"
    and "load_settings e file environ overrides = Inr cfg" and "provider_gate ''Tushare'' (cf_tushare cfg) scope = None"
    and "job_ready to_json t (provider_key ''tushare'' day scope) day uuid now"
    and "tushare_service base publish raised_of value_of pulled_at cfg u day scope w = (Returned v, w')" and "map_option to_json v = v"
  shows "\<exists>res t' audit'.
    run_tushare_import (db_ops to_json) t audit (Inr cfg) base publish raised_of value_of pulled_at date_text scope owner uuid now end_time w =
      (Result res, t', audit', w') \<and> result_value res = v \<and>
    (\<forall>environ2 cfg2 uuid2 now2 end2 w2. load_settings e file environ2 overrides = Inr cfg2 \<longrightarrow>
      (\<exists>ending. run_tushare_import (db_ops to_json) t' audit' (Inr cfg2) base publish raised_of value_of pulled_at date_text scope owner uuid2 now2 end2 w2 =
        (ending, t', audit', w2) \<and>
        (case provider_gate ''Tushare'' (cf_tushare cfg2) scope of Some err \<Rightarrow> ending = Reraised err
         | None \<Rightarrow> \<exists>res2. ending = Result res2 \<and> replayed res2 \<and> result_value res2 = v)))"
proof -
  let ?gate = "\<lambda>cfg. provider_gate ''Tushare'' (cf_tushare cfg)" and ?client = "\<lambda>cfg. tushare_client (cf_tushare cfg)"
  obtain res t' audit' where r: "run_provider_task (db_ops to_json) t audit ''tushare'' day scope uuid now (Returned v) end_time =
      ((Result res, True), t', audit')" "result_value res = v"
    and again: "\<And>uuid2 now2 out2 end2. \<exists>res2. run_provider_task (db_ops to_json) t' audit' ''tushare'' day scope uuid2 now2 out2 end2 =
      ((Result res2, False), t', audit') \<and> result_value res2 = v \<and> replayed res2"
    using db_task_once[OF assms(6,8), of audit end_time] by blast
  have "run_tushare_import (db_ops to_json) t audit (Inr cfg) base publish raised_of value_of pulled_at date_text scope owner uuid now end_time w =
      (Result res, t', audit', w')"
    using assms(7) r
    by (simp add: run_tushare_import_def in_world_def
      import_open[OF assms(1-3), of ?gate cfg ?client, OF assms(5) tushare_client_built[OF assms(4,5)]])
  moreover have "\<exists>ending. run_tushare_import (db_ops to_json) t' audit' (Inr cfg2) base publish raised_of value_of pulled_at date_text scope owner uuid2 now2 end2 w2 =
        (ending, t', audit', w2) \<and>
        (case ?gate cfg2 scope of Some err \<Rightarrow> ending = Reraised err
         | None \<Rightarrow> \<exists>res2. ending = Result res2 \<and> replayed res2 \<and> result_value res2 = v)"
    if l: "load_settings e file environ2 overrides = Inr cfg2" for environ2 cfg2 uuid2 now2 end2 w2
  proof (cases "?gate cfg2 scope")
    case None
    obtain res2 where "run_provider_task (db_ops to_json) t' audit' ''tushare'' day scope uuid2 now2
        (fst (tushare_service base publish raised_of value_of pulled_at cfg2 u day scope w2)) end2 = ((Result res2, False), t', audit')"
      "result_value res2 = v" "replayed res2"
      using again by blast
    then show ?thesis
      using None
      by (simp add: run_tushare_import_def in_world_def
        import_open[OF assms(1-3), of ?gate cfg2 ?client, OF None tushare_client_built[OF l None]])
  next
    case (Some err)
    obtain res2 where "run_provider_task (db_ops to_json) t' audit' ''tushare'' day scope uuid2 now2 (Raised err) end2 = ((Result res2, False), t', audit')"
      using again by blast
    then show ?thesis
      using Some
      by (simp add: run_tushare_import_def record_provider_failure_def import_closed[OF assms(1-3), of ?gate cfg2 err, OF Some])
  qed
  ultimately show ?thesis using r(2) by blast
qed

text \<open>
  C39: a day whose rows were written but whose publication failed stays unpublished: every retry with the same
  provider data, however the store was used since, raises FileExistsError, records the job as failed and changes
  neither the store nor the repository.
\<close>

theorem failed_publication_stuck:
  assumes "scope \<in> {''pilot'', ''full''}" and "date_fromisoformat (take 10 date_text) = Some day" and "owner_id owner = Inr u"
    and "load_settings e file environ overrides = Inr cfg" and "provider_gate ''Tushare'' (cf_tushare cfg) scope = None"
    and "job_ready to_json t (provider_key ''tushare'' day scope) day uuid now"
    and "prepare_batch (service_env cfg base) (PDate day) scope earlier earlier files = (Inr (b, rows), files')" and "tree_ok files"
  shows "\<exists>r t' audit'.
    run_tushare_import (db_ops to_json) t audit (Inr cfg) base publish raised_of value_of pulled_at date_text scope owner uuid now end_time
        (store_run (ie_store base) files' ops, repository) =
      (Reraised (raised_of FileExists), t', audit', (store_run (ie_store base) files' ops, repository)) \<and>
    db_latest t' (provider_key ''tushare'' day scope) = Some r \<and> job_status r = Failed"
proof -
  have store: "ie_store (service_env cfg base) = ie_store base" by (simp add: service_env_def)
  have "tushare_service base publish raised_of value_of pulled_at cfg u day scope (store_run (ie_store base) files' ops, repository) =
      (Raised (raised_of FileExists), store_run (ie_store base) files' ops, repository)"
    using prepare_again[OF assms(7,8), of pulled_at pulled_at ops]
    by (simp add: tushare_service_def import_business_date_def store)
  then show ?thesis
    using db_task_fails[OF assms(6), of audit "raised_of FileExists" end_time]
    by (auto simp: run_tushare_import_def in_world_def
      import_open[OF assms(1-3), of "\<lambda>cfg. provider_gate ''Tushare'' (cf_tushare cfg)" cfg "\<lambda>cfg. tushare_client (cf_tushare cfg)",
        OF assms(5) tushare_client_built[OF assms(4,5)]])
qed

section \<open>A day imported\<close>

definition sample_clock :: datetime where "sample_clock = \<lparr>wall = 5, utcoff = Some 0\<rparr>"

lemma sample_ready: "job_ready (\<lambda>v. v) [] key day (sample_uuid CHR ''a'') sample_clock"
  by (simp add: job_ready_def table_ok_def db_latest_def latest_row_def newest_first_def db_unused_def db_timely_def
      sample_uuid_ok is_lower_hex_def)

lemma sample_date_read: "date_fromisoformat (take 10 ''2024-04-24'') = Some 739000"
  by code_simp

lemma sample_service_env:
  assumes "load_settings e file environ overrides = Inr cfg" and "cf_tolerances cfg = finite_tolerances 0 0 0"
  shows "service_env cfg sample_import = sample_import"
proof -
  have "tushare_safe (cf_tushare cfg)"
    by (rule load_settings_Inr[OF assms(1)]) (rule load_tushare_safe)
  then have "upper ` set (cf_pilot_codes (cf_tushare cfg)) = upper ` approved_codes" by (simp add: tushare_safe_def)
  also have "\<dots> = pilot_default" by (simp add: approved_codes_def pilot_default_def upper_def upper_char_def)
  finally show ?thesis by (simp add: service_env_def sample_import_def assms(2))
qed

definition sample_raised :: "py_error \<Rightarrow> raised" where
  "sample_raised err = \<lparr>type_name = ''OSError'', class_names = [''OSError''], exc_text = ''storage''\<rparr>"

text \<open>The repository of the samples counts its batches.\<close>

definition sample_publish :: "uuid \<Rightarrow> nat \<Rightarrow> batch \<Rightarrow> std_row list \<Rightarrow> row res \<times> nat" where
  "sample_publish u n b rows = (Inr [], Suc n)"

lemma sample_call:
  "''full'' \<in> {''pilot'', ''full''}" "''pilot'' \<in> {''pilot'', ''full''}"
  "owner_id None = Inr ''00000000-0000-0000-0000-000000000000''"
  by (simp_all add: owner_id_def)

lemma closed_import_recorded_witness:
  "\<exists>cfg r t' audit'. run_tushare_import (db_ops (\<lambda>v. v)) ([] :: nat job_table) [] (Inr cfg) sample_import sample_publish sample_raised (\<lambda>x. 1) sample_now
      ''2024-04-24'' ''full'' None (sample_uuid CHR ''a'') sample_clock sample_clock (empty_tree, 0) =
      (Reraised (configuration_error ''Tushare full import is disabled pending pilot acceptance''), t', audit', (empty_tree, 0)) \<and>
    db_latest t' (provider_key ''tushare'' 739000 ''full'') = Some r \<and> job_status r = Failed"
proof -
  obtain cfg :: settings where "cf_enabled (cf_tushare cfg)" "\<not> cf_full_enabled (cf_tushare cfg)" by (rule sample_settings) (rule that)
  then have "provider_gate ''Tushare'' (cf_tushare cfg) ''full'' =
      Some (configuration_error ''Tushare full import is disabled pending pilot acceptance'')"
    by (simp add: provider_gate_def)
  from closed_import_recorded[OF sample_call(1) sample_date_read sample_call(3) this sample_ready, where audit = "[]" and end_time = sample_clock]
  show ?thesis by blast
qed

lemma import_runs_once_witness:
  "\<exists>cfg res t' audit' files'. run_tushare_import (db_ops (\<lambda>v. v)) ([] :: nat job_table) [] (Inr cfg) sample_import sample_publish sample_raised (\<lambda>x. 1) sample_now
      ''2024-04-24'' ''pilot'' None (sample_uuid CHR ''a'') sample_clock sample_clock (empty_tree, 0) = (Result res, t', audit', (files', 1)) \<and>
    result_value res = Some 1"
proof -
  obtain cfg where l: "load_settings sample_settings_env Map.empty sample_environ None = Inr cfg" "cf_enabled (cf_tushare cfg)"
    "cf_tolerances cfg = finite_tolerances 0 0 0" by (rule sample_settings) (rule that)
  have gate: "provider_gate ''Tushare'' (cf_tushare cfg) ''pilot'' = None" using l(2) by (simp add: provider_gate_def)
  obtain b rows files' where p: "prepare_batch sample_import (PDate 739000) ''pilot'' sample_now sample_now empty_tree = (Inr (b, rows), files')"
    by (rule sample_prepare[of "PDate 739000"]) (simp_all add: as_date_def blank_def)
  have "tushare_service sample_import sample_publish sample_raised (\<lambda>x. 1) sample_now cfg u 739000 ''pilot'' (empty_tree, 0) =
      (Returned (Some (1 :: nat)), files', 1)" for u
    by (simp add: tushare_service_def sample_service_env[OF l(1,3)] import_business_date_def p sample_publish_def)
  from import_runs_once[OF sample_call(2) sample_date_read sample_call(3) l(1) gate sample_ready this,
      where audit = "[]" and end_time = sample_clock]
  show ?thesis unfolding option.map by blast
qed

lemma failed_publication_stuck_witness:
  "\<exists>cfg r t' audit' files'. run_tushare_import (db_ops (\<lambda>v. v)) ([] :: nat job_table) [] (Inr cfg) sample_import sample_publish sample_raised (\<lambda>x. 1) sample_now
      ''2024-04-24'' ''pilot'' None (sample_uuid CHR ''a'') sample_clock sample_clock (files', 0) =
      (Reraised (sample_raised FileExists), t', audit', (files', 0)) \<and>
    db_latest t' (provider_key ''tushare'' 739000 ''pilot'') = Some r \<and> job_status r = Failed"
proof -
  obtain cfg where l: "load_settings sample_settings_env Map.empty sample_environ None = Inr cfg" "cf_enabled (cf_tushare cfg)"
    "cf_tolerances cfg = finite_tolerances 0 0 0" by (rule sample_settings) (rule that)
  have gate: "provider_gate ''Tushare'' (cf_tushare cfg) ''pilot'' = None" using l(2) by (simp add: provider_gate_def)
  obtain b rows files' where p: "prepare_batch sample_import (PDate 739000) ''pilot'' sample_now sample_now empty_tree = (Inr (b, rows), files')"
    by (rule sample_prepare[of "PDate 739000"]) (simp add: as_date_def blank_def)
  have q: "prepare_batch (service_env cfg sample_import) (PDate 739000) ''pilot'' sample_now sample_now empty_tree = (Inr (b, rows), files')"
    using p by (simp add: sample_service_env[OF l(1,3)])
  show ?thesis
    using failed_publication_stuck[OF sample_call(2) sample_date_read sample_call(3) l(1) gate sample_ready q sample_store_ok(1),
      where ops = "[]" and audit = "[]" and end_time = sample_clock and repository = 0 and publish = sample_publish and
        raised_of = sample_raised and value_of = "\<lambda>x. 1" and pulled_at = sample_now]
    unfolding store_run_def foldl.simps by blast
qed

end
