(* ===== verification/JobQueue.thy ===== *)
theory JobQueue
  imports Settings Redaction JobRuns "HOL-Library.Multiset"
begin

text \<open>
  How a provider import reaches a worker: the Redis queue of \<open>app/jobs/queue.py\<close> (its settings and the errors
  it raises; the redis and rq packages are arguments) and the in-process dispatcher of
  \<open>app/jobs/provider_execution.py\<close> as a step relation over its executors.
\<close>

section \<open>The settings of the queue\<close>

record queue_settings =
  qs_host :: string
  qs_port :: int
  qs_password :: "string option"
  qs_queue :: string
  qs_db :: int

definition get_or :: "sources \<Rightarrow> string \<Rightarrow> string \<Rightarrow> string" where
  "get_or values k d = (case values k of None \<Rightarrow> d | Some v \<Rightarrow> v)"

text \<open>\<open>re.fullmatch(r"[A-Za-z0-9_.:-]{1,64}", s)\<close>\<close>

definition safe_name :: "string \<Rightarrow> bool" where
  "safe_name s \<longleftrightarrow> 1 \<le> length s \<and> length s \<le> 64 \<and>
     list_all (\<lambda>c. is_alpha c \<or> is_digit c \<or> c \<in> {CHR ''_'', CHR ''.'', CHR '':'', CHR ''-''}) s"

definition queue_from_env :: "sources \<Rightarrow> sources \<Rightarrow> sources option \<Rightarrow> queue_settings res" where
  "queue_from_env file environ given =
     (let values = (case given of None \<Rightarrow> file ++ environ | Some m \<Rightarrow> m); password = cfg_get values ''REDIS_PASSWORD'';
          host = strip (get_or values ''REDIS_HOST'' ''127.0.0.1''); name = strip (get_or values ''RQ_QUEUE'' ''default'') in
      case (parse_int (get_or values ''REDIS_PORT'' ''6379''), parse_int (get_or values ''REDIS_DB'' ''0'')) of
        (Some port, Some db) \<Rightarrow>
          andThen (require (host \<noteq> []) ''REDIS_HOST must be configured'') (\<lambda>_.
          andThen (require (1 \<le> port \<and> port \<le> 65535) ''REDIS_PORT must be between 1 and 65535'') (\<lambda>_.
          andThen (require (0 \<le> db) ''REDIS_DB must be non-negative'') (\<lambda>_.
          andThen (require (safe_name name) ''RQ_QUEUE must contain 1-64 safe characters'') (\<lambda>_.
          Inr \<lparr>qs_host = host, qs_port = port, qs_password = (if password = [] then None else Some password),
            qs_queue = name, qs_db = db\<rparr>))))
      | _ \<Rightarrow> Inl (ConfigurationError ''REDIS_PORT and REDIS_DB must be integers''))"

section \<open>Queueing a job\<close>

text \<open>
  The packages: whether each is installed, whether the server answers a ping, whether a queue can be made,
  and how adding the job ends, with the class name and text of an exception.
\<close>

record queue_packages =
  has_redis :: bool
  has_rq :: bool
  redis_answers :: "queue_settings \<Rightarrow> bool"
  rq_queue_made :: "queue_settings \<Rightarrow> bool"
  rq_enqueue :: "queue_settings \<Rightarrow> string \<Rightarrow> (string \<times> string) + string"

definition place_text :: "queue_settings \<Rightarrow> string" where
  "place_text q = qs_host q @ '':'' @ int_str (qs_port q) @ ''/'' @ int_str (qs_db q)"

definition redis_connection :: "queue_packages \<Rightarrow> queue_settings \<Rightarrow> unit res" where
  "redis_connection p q =
     (if \<not> has_redis p then Inl (DependencyError ''Redis client is not installed'')
      else if \<not> redis_answers p q then Inl (DependencyError (''Redis is unavailable at '' @ place_text q))
      else Inr ())"

definition rq_queue :: "queue_packages \<Rightarrow> queue_settings \<Rightarrow> unit res" where
  "rq_queue p q =
     (if \<not> has_rq p then Inl (DependencyError ''RQ is not installed'')
      else andThen (redis_connection p q) (\<lambda>_.
        if \<not> rq_queue_made p q then Inl (DependencyError (''RQ queue is unavailable at '' @ place_text q)) else Inr ()))"

definition error_detail :: "string option \<Rightarrow> string \<Rightarrow> string" where
  "error_detail password text =
     (let detail = take 160 (strip (map (\<lambda>c. if c \<in> {CHR 0x0A, CHR 0x0D} then CHR '' '' else c) text)) in
      case password of None \<Rightarrow> detail | Some w \<Rightarrow> replace_all w ''[REDACTED]'' detail)"

definition queue_job :: "queue_packages \<Rightarrow> queue_settings \<Rightarrow> string \<Rightarrow> string res" where
  "queue_job p q job_id = andThen (rq_queue p q) (\<lambda>_. case rq_enqueue p q job_id of
     Inl (name, text) \<Rightarrow> Inl (DependencyError (''Redis queue is unavailable ('' @ name @ ''): '' @ error_detail (qs_password q) text))
   | Inr i \<Rightarrow> Inr i)"

text \<open>
  The text is cut before the password is replaced: a password that straddles the cut is not recognised and its
  first part is shown.
\<close>

lemma cut_password_shown: "error_detail (Some ''hunter2hunter2'') (replicate 156 CHR ''x'' @ ''hunter2hunter2'') = replicate 156 CHR ''x'' @ ''hunt''"
  by code_simp

section \<open>The in-process dispatcher\<close>

text \<open>
  An executor runs its jobs one after the other; \<open>submitted\<close> remembers all it ever got. The dispatcher has the
  index of the executor it submits to; executors that were shut down finish what they have. \<open>reported\<close> are the
  calls of \<open>on_failure\<close>.
\<close>

record 'j executor =
  submitted :: "'j list"
  waiting :: "'j list"
  working :: "'j option"
  completed :: "('j \<times> raised option) list"

record 'j dispatcher =
  executors :: "'j executor list"
  current :: "nat option"
  accepting :: bool
  reported :: "('j \<times> raised) list"

definition new_executor :: "'j executor" where
  "new_executor = \<lparr>submitted = [], waiting = [], working = None, completed = []\<rparr>"

definition new_dispatcher :: "'j dispatcher" where
  "new_dispatcher = \<lparr>executors = [], current = None, accepting = False, reported = []\<rparr>"

definition available :: "'j dispatcher \<Rightarrow> bool" where
  "available d \<longleftrightarrow> accepting d \<and> current d \<noteq> None"

definition start :: "'j dispatcher \<Rightarrow> 'j dispatcher" where
  "start d = (if current d \<noteq> None then d
     else d\<lparr>executors := executors d @ [new_executor], current := Some (length (executors d)), accepting := True\<rparr>)"

definition submit :: "'j \<Rightarrow> 'j executor \<Rightarrow> 'j executor" where
  "submit j x = x\<lparr>submitted := submitted x @ [j], waiting := waiting x @ [j]\<rparr>"

definition enqueue :: "'j dispatcher \<Rightarrow> 'j \<Rightarrow> 'j res \<times> 'j dispatcher" where
  "enqueue d j = (case (accepting d, current d) of
     (True, Some i) \<Rightarrow> (Inr j, d\<lparr>executors := (executors d)[i := submit j (executors d ! i)]\<rparr>)
   | _ \<Rightarrow> (Inl (DependencyError ''Background provider execution is unavailable''), d))"

definition shutdown :: "'j dispatcher \<Rightarrow> 'j dispatcher" where
  "shutdown d = d\<lparr>accepting := False, current := None\<rparr>"

text \<open>\<open>Executor.shutdown(wait=True)\<close> returns when the executor has nothing left.\<close>

definition drained :: "'j executor \<Rightarrow> bool" where
  "drained x \<longleftrightarrow> waiting x = [] \<and> working x = None"

definition handle_completion :: "'j \<Rightarrow> raised option \<Rightarrow> 'j dispatcher \<Rightarrow> 'j dispatcher" where
  "handle_completion j err d = (case err of None \<Rightarrow> d | Some e \<Rightarrow> d\<lparr>reported := reported d @ [(j, e)]\<rparr>)"

inductive dispatch_step :: "'j dispatcher \<Rightarrow> 'j dispatcher \<Rightarrow> bool" where
  starts: "dispatch_step d (start d)"
| enqueues: "dispatch_step d (snd (enqueue d j))"
| shuts: "dispatch_step d (shutdown d)"
| takes: "\<lbrakk>i < length (executors d); working (executors d ! i) = None; waiting (executors d ! i) = j # js\<rbrakk> \<Longrightarrow>
    dispatch_step d (d\<lparr>executors := (executors d)[i := (executors d ! i)\<lparr>waiting := js, working := Some j\<rparr>]\<rparr>)"
| finishes: "\<lbrakk>i < length (executors d); working (executors d ! i) = Some j\<rbrakk> \<Longrightarrow>
    dispatch_step d (handle_completion j err (d\<lparr>executors := (executors d)[i :=
      (executors d ! i)\<lparr>working := None, completed := completed (executors d ! i) @ [(j, err)]\<rparr>]\<rparr>))"

inductive dispatch_reach :: "'j dispatcher \<Rightarrow> bool" where
  initial: "dispatch_reach new_dispatcher"
| further: "dispatch_reach d \<Longrightarrow> dispatch_step d d' \<Longrightarrow> dispatch_reach d'"

section \<open>Every job once\<close>

definition executor_ok :: "'j executor \<Rightarrow> bool" where
  "executor_ok x \<longleftrightarrow> submitted x = map fst (completed x) @ (case working x of None \<Rightarrow> [] | Some j \<Rightarrow> [j]) @ waiting x"

definition failed_jobs :: "'j executor \<Rightarrow> ('j \<times> raised) multiset" where
  "failed_jobs x = image_mset (\<lambda>c. (fst c, the (snd c))) (filter_mset (\<lambda>c. snd c \<noteq> None) (mset (completed x)))"

definition dispatcher_ok :: "'j dispatcher \<Rightarrow> bool" where
  "dispatcher_ok d \<longleftrightarrow> (accepting d \<longleftrightarrow> current d \<noteq> None) \<and> (\<forall>i. current d = Some i \<longrightarrow> Suc i = length (executors d)) \<and>
     list_all executor_ok (executors d) \<and> mset (reported d) = sum_list (map failed_jobs (executors d))"

lemma failed_jobs_simps [simp]:
  "failed_jobs new_executor = {#}"
  "failed_jobs (submit j x) = failed_jobs x"
  "failed_jobs (x\<lparr>waiting := js, working := w\<rparr>) = failed_jobs x"
  by (simp_all add: failed_jobs_def new_executor_def submit_def)

lemma failed_jobs_finish:
  "failed_jobs (x\<lparr>working := None, completed := completed x @ [(j, err)]\<rparr>) =
     failed_jobs x + (case err of None \<Rightarrow> {#} | Some e \<Rightarrow> {#(j, e)#})"
  by (simp add: failed_jobs_def split: option.split)

lemma sum_list_update_add:
  fixes f :: "'x \<Rightarrow> 'm multiset"
  assumes "i < length xs" and "f y = f (xs ! i) + m"
  shows "sum_list (map f (xs[i := y])) = sum_list (map f xs) + m"
  using assms
proof (induction xs arbitrary: i)
  case (Cons x xs)
  then show ?case by (cases i) (auto simp: ac_simps)
qed simp

lemma list_all_update: "list_all P xs \<Longrightarrow> P y \<Longrightarrow> list_all P (xs[i := y])"
  by (induction xs arbitrary: i) (auto split: nat.split)

lemma executor_ok_steps:
  "executor_ok new_executor"
  "executor_ok x \<Longrightarrow> executor_ok (submit j x)"
  "executor_ok x \<Longrightarrow> working x = None \<Longrightarrow> waiting x = j # js \<Longrightarrow> executor_ok (x\<lparr>waiting := js, working := Some j\<rparr>)"
  "executor_ok x \<Longrightarrow> working x = Some j \<Longrightarrow> executor_ok (x\<lparr>working := None, completed := completed x @ [(j, err)]\<rparr>)"
  by (auto simp: executor_ok_def new_executor_def submit_def)

lemma enqueue_keeps:
  assumes "dispatcher_ok d"
  shows "dispatcher_ok (snd (enqueue d j))"
proof (cases "current d")
  case (Some i)
  then have a: "accepting d" "i < length (executors d)" using assms by (auto simp: dispatcher_ok_def)
  have "executor_ok (executors d ! i)" using assms a(2) by (auto simp: dispatcher_ok_def list_all_length)
  then show ?thesis
    using assms a Some sum_list_update_add[OF a(2), of failed_jobs "submit j (executors d ! i)" "{#}"]
    by (auto simp: enqueue_def dispatcher_ok_def intro: list_all_update executor_ok_steps)
qed (use assms in \<open>auto simp: enqueue_def split: bool.splits\<close>)

lemma step_keeps_dispatcher:
  assumes "dispatch_step d d'" and "dispatcher_ok d"
  shows "dispatcher_ok d'"
  using assms(1)
proof (cases rule: dispatch_step.cases)
  case starts
  then show ?thesis using assms(2) by (auto simp: dispatcher_ok_def start_def executor_ok_steps)
next
  case (enqueues j)
  then show ?thesis using enqueue_keeps[OF assms(2)] by simp
next
  case shuts
  then show ?thesis using assms(2) by (auto simp: dispatcher_ok_def shutdown_def)
next
  case (takes i j js)
  have "executor_ok (executors d ! i)" using assms(2) takes(2) by (auto simp: dispatcher_ok_def list_all_length)
  then show ?thesis
    using assms(2) takes sum_list_update_add[OF takes(2), of failed_jobs "(executors d ! i)\<lparr>waiting := js, working := Some j\<rparr>" "{#}"]
    by (auto simp: dispatcher_ok_def intro!: list_all_update executor_ok_steps(3))
next
  case (finishes i j err)
  let ?y = "(executors d ! i)\<lparr>working := None, completed := completed (executors d ! i) @ [(j, err)]\<rparr>"
  have "executor_ok (executors d ! i)" using assms(2) finishes(2) by (auto simp: dispatcher_ok_def list_all_length)
  then have ok: "list_all executor_ok ((executors d)[i := ?y])"
    using assms(2) finishes(3) by (intro list_all_update executor_ok_steps(4)) (auto simp: dispatcher_ok_def)
  have sum: "sum_list (map failed_jobs ((executors d)[i := ?y])) =
      sum_list (map failed_jobs (executors d)) + (case err of None \<Rightarrow> {#} | Some e \<Rightarrow> {#(j, e)#})"
    by (rule sum_list_update_add[OF finishes(2)]) (rule failed_jobs_finish)
  show ?thesis
    using assms(2) ok sum by (cases err) (simp_all add: finishes(1) dispatcher_ok_def handle_completion_def)
qed

lemma reach_dispatcher_ok: "dispatch_reach d \<Longrightarrow> dispatcher_ok d"
  by (induction rule: dispatch_reach.induct) (simp add: dispatcher_ok_def new_dispatcher_def, blast intro: step_keeps_dispatcher)

text \<open>
  C40: in every state the dispatcher can reach each executor has treated the jobs it accepted in their order, each
  once: finished, then the one at work, then those that wait; a drained executor finished them all. The failures
  reported are exactly the failures of finished jobs, each once. The dispatcher is available exactly while it has
  an executor, a job accepted then goes to the newest one, and at any other time a job is refused.
\<close>

theorem dispatcher_runs_each_once:
  assumes "dispatch_reach d"
  shows "list_all (\<lambda>x. submitted x = map fst (completed x) @ (case working x of None \<Rightarrow> [] | Some j \<Rightarrow> [j]) @ waiting x \<and>
      (drained x \<longrightarrow> map fst (completed x) = submitted x)) (executors d) \<and>
    mset (reported d) = sum_list (map failed_jobs (executors d)) \<and>
    (available d \<longleftrightarrow> current d \<noteq> None) \<and>
    (available d \<longrightarrow> enqueue d j = (Inr j, d\<lparr>executors := butlast (executors d) @ [submit j (last (executors d))]\<rparr>)) \<and>
    (\<not> available d \<longrightarrow> enqueue d j = (Inl (DependencyError ''Background provider execution is unavailable''), d))"
proof -
  have ok: "dispatcher_ok d" by (rule reach_dispatcher_ok[OF assms])
  have "(executors d)[i := submit j (executors d ! i)] = butlast (executors d) @ [submit j (last (executors d))]"
    if "Suc i = length (executors d)" for i
    using that by (cases "executors d" rule: rev_cases) (auto simp: list_update_append nth_append)
  then show ?thesis
    using ok by (cases "current d") (auto simp: dispatcher_ok_def executor_ok_def available_def drained_def enqueue_def list_all_iff)
qed

text \<open>A failing job, then a second executor started while the first still works: two imports at once.\<close>

definition sample_failure :: raised where
  "sample_failure = \<lparr>type_name = ''DependencyError'', class_names = [''DependencyError''], exc_text = ''down''\<rparr>"

definition sample_first :: "nat dispatcher" where
  "sample_first = \<lparr>executors = [\<lparr>submitted = [1, 2], waiting = [], working = Some 2, completed = [(1, Some sample_failure)]\<rparr>],
     current = Some 0, accepting = True, reported = [(1, sample_failure)]\<rparr>"

lemma sample_first_reached: "dispatch_reach sample_first"
proof -
  let ?d0 = "start (new_dispatcher :: nat dispatcher)"
  have 0: "dispatch_reach ?d0" by (rule further[OF initial starts])
  let ?d1 = "snd (enqueue ?d0 1)" and ?d2 = "snd (enqueue (snd (enqueue ?d0 1)) 2)"
  have 2: "dispatch_reach ?d2" by (rule further[OF further[OF 0 enqueues] enqueues])
  let ?d3 = "?d2\<lparr>executors := (executors ?d2)[0 := (executors ?d2 ! 0)\<lparr>waiting := [2], working := Some 1\<rparr>]\<rparr>"
  have 3: "dispatch_reach ?d3"
    by (rule further[OF 2 takes]) (simp_all add: start_def new_dispatcher_def enqueue_def submit_def new_executor_def)
  let ?d4 = "handle_completion 1 (Some sample_failure) (?d3\<lparr>executors := (executors ?d3)[0 :=
      (executors ?d3 ! 0)\<lparr>working := None, completed := completed (executors ?d3 ! 0) @ [(1, Some sample_failure)]\<rparr>]\<rparr>)"
  have 4: "dispatch_reach ?d4"
    by (rule further[OF 3 finishes]) (simp_all add: start_def new_dispatcher_def enqueue_def submit_def new_executor_def)
  have "dispatch_reach (?d4\<lparr>executors := (executors ?d4)[0 := (executors ?d4 ! 0)\<lparr>waiting := [], working := Some 2\<rparr>]\<rparr>)"
    by (rule further[OF 4 takes]) (simp_all add: start_def new_dispatcher_def enqueue_def submit_def new_executor_def handle_completion_def)
  then show ?thesis
    by (simp add: sample_first_def start_def new_dispatcher_def enqueue_def submit_def new_executor_def handle_completion_def)
qed

lemma dispatcher_runs_each_once_witness:
  "dispatch_reach sample_first \<and> mset (reported sample_first) = sum_list (map failed_jobs (executors sample_first)) \<and>
     enqueue sample_first 3 = (Inr 3, sample_first\<lparr>executors := [submit 3 (last (executors sample_first))]\<rparr>)"
  using dispatcher_runs_each_once[OF sample_first_reached, of 3] sample_first_reached
  by (simp add: sample_first_def available_def)

lemma restart_overlaps:
  "\<exists>d :: nat dispatcher. dispatch_reach d \<and> list_all (\<lambda>x. working x \<noteq> None) (executors d) \<and> length (executors d) = 2"
proof -
  let ?d1 = "snd (enqueue (start (shutdown sample_first)) 3)"
  have 1: "dispatch_reach ?d1"
    by (rule further[OF further[OF further[OF sample_first_reached shuts] starts] enqueues])
  have "dispatch_reach (?d1\<lparr>executors := (executors ?d1)[1 := (executors ?d1 ! 1)\<lparr>waiting := [], working := Some 3\<rparr>]\<rparr>)"
    by (rule further[OF 1 takes]) (simp_all add: start_def shutdown_def enqueue_def submit_def new_executor_def sample_first_def)
  then show ?thesis
    by (intro exI conjI, assumption) (simp_all add: start_def shutdown_def enqueue_def submit_def new_executor_def sample_first_def)
qed

end
