(* ===== verification/MarketHistory.thy ===== *)
theory MarketHistory
  imports EngineInputs Importer Uuids
begin

text \<open>
  The market a backtest replays, read from the research tables of \<open>app/infrastructure/db/models/all_models.py\<close>:
  which batches may be combined, which status and industry of a security were known on a day, which
  securities were eligible, and the market bars made of them. These are the parts of
  \<open>app/infrastructure/repositories/research.py\<close> between the tables and the engine of
  \<open>EngineRun\<close>. A table is the list of its rows in the order the database returns them; Shanghai keeps
  UTC+8 all year, as it has since 1992.
\<close>

section \<open>Tables\<close>

text \<open>The parts of \<open>quality_summary\<close> the program reads back; an issue is a text or a dictionary.\<close>

datatype issue_entry = IssueText string | IssueRow row

record batch_summary =
  sm_blocking :: bool
  sm_records :: int
  sm_issues :: "issue_entry list"
  sm_warnings :: "row list"
  sm_mapping :: "string option"
  sm_adjustment :: "string option"
  sm_field :: "string option"

record data_batch =
  ba_id :: uuid
  ba_source :: uuid
  ba_owner :: "string option"
  ba_dataset :: string
  ba_as_of :: date
  ba_available_at :: datetime
  ba_cutoff :: datetime
  ba_version :: string
  ba_status :: string
  ba_summary :: batch_summary
  ba_content_hash :: string
  ba_file_hash :: "string option"
  ba_start :: "date option"
  ba_end :: "date option"
  ba_records :: int
  ba_file_location :: "string option"
  ba_license :: "string option"

record calendar_row =
  tc_exchange :: string
  tc_date :: date
  tc_open :: bool
  tc_prev :: "date option"
  tc_next :: "date option"

record security_row =
  se_id :: uuid
  se_symbol :: string
  se_exchange :: string
  se_type :: string
  se_listed :: date
  se_delisted :: "date option"

record status_row =
  st_security :: uuid
  st_effective :: date
  st_st :: bool
  st_suspended :: bool
  st_delisting :: bool
  st_board :: string
  st_batch :: uuid
  st_observed :: datetime

record membership_row =
  im_security :: uuid
  im_code :: string
  im_from :: date
  im_until :: "date option"
  im_batch :: uuid
  im_observed :: datetime

record bar_row =
  br_security :: uuid
  br_date :: date
  br_raw :: "dec \<times> dec \<times> dec \<times> dec"
  br_open :: dec
  br_high :: dec
  br_low :: dec
  br_close :: dec
  br_volume :: dec
  br_amount :: dec
  br_factor :: dec
  br_available_at :: "datetime option"
  br_open_up :: "bool option"
  br_open_down :: "bool option"
  br_close_up :: "bool option"
  br_close_down :: "bool option"
  br_limit_up :: "bool option"
  br_limit_down :: "bool option"
  br_batch :: uuid

record market_tables =
  mt_batches :: "data_batch list"
  mt_calendar :: "calendar_row list"
  mt_securities :: "security_row list"
  mt_statuses :: "status_row list"
  mt_industries :: "membership_row list"
  mt_bars :: "bar_row list"

section \<open>The batches of a request\<close>

text \<open>
  \<open>_ordered_batch_ids\<close>: \<open>None\<close> for a missing list (or one that is no list), and a list that is empty
  counts as missing. The texts are what \<open>str\<close> makes of the values.
\<close>

definition ordered_batch_ids :: "string option \<Rightarrow> string list option \<Rightarrow> uuid list res" where
  "ordered_batch_ids primary_text ids =
     (let primary = parse_uuid (case primary_text of None \<Rightarrow> '''' | Some s \<Rightarrow> s);
          identifiers = (case ids of
              Some (v # vs) \<Rightarrow> map parse_uuid (v # vs)
            | _ \<Rightarrow> [case primary of None \<Rightarrow> None | Some p \<Rightarrow> parse_uuid p])
      in case primary of
           None \<Rightarrow> Inl (ValueError ''data batch identifiers must be UUIDs'')
         | Some p \<Rightarrow>
             if None \<in> set identifiers then Inl (ValueError ''data batch identifiers must be UUIDs'')
             else let typed = map the identifiers in
               if hd typed \<noteq> p then Inl (ValueError ''data_batch_ids must start with data_batch_id'')
               else if \<not> distinct typed then Inl (ValueError ''data_batch_ids cannot contain duplicates'')
               else Inr typed)"

text \<open>\<open>{batch_id: ordinal for ordinal, batch_id in enumerate(batch_ids)}\<close>.\<close>

definition batch_priority :: "uuid list \<Rightarrow> uuid \<Rightarrow> nat option" where
  "batch_priority ids = map_of (rev (zip ids [0..<length ids]))"

definition ordinal :: "(uuid \<Rightarrow> nat option) \<Rightarrow> uuid \<Rightarrow> nat" where
  "ordinal priority b = (case priority b of None \<Rightarrow> 0 | Some n \<Rightarrow> n)"

definition batch_span :: "data_batch \<Rightarrow> date \<times> date" where
  "batch_span b = (case ba_start b of None \<Rightarrow> ba_as_of b | Some d \<Rightarrow> d,
                   case ba_end b of None \<Rightarrow> ba_as_of b | Some d \<Rightarrow> d)"

definition conventions :: "data_batch \<Rightarrow> string option \<times> string option \<times> string option" where
  "conventions b = (sm_mapping (ba_summary b), sm_adjustment (ba_summary b), sm_field (ba_summary b))"

definition proven_conventions :: "data_batch list \<Rightarrow> bool" where
  "proven_conventions bs \<longleftrightarrow> length (remdups (map conventions bs)) = 1 \<and>
     (case hd (remdups (map conventions bs)) of (m, a, f) \<Rightarrow> m \<noteq> None \<and> a \<noteq> None \<and> f \<noteq> None)"

text \<open>The two grouped queries: a market date of two selected batches, and two industries of one group.\<close>

definition overlapping_dates :: "market_tables \<Rightarrow> uuid list \<Rightarrow> date \<Rightarrow> date \<Rightarrow> date list" where
  "overlapping_dates t ids start end_date =
     (let bars = filter (\<lambda>b. br_batch b \<in> set ids \<and> start \<le> br_date b \<and> br_date b \<le> end_date) (mt_bars t)
      in filter (\<lambda>d. 1 < length (remdups (map br_batch (filter (\<lambda>b. br_date b = d) bars))))
           (remdups (map br_date bars)))"

definition membership_group :: "membership_row \<Rightarrow> uuid \<times> date \<times> uuid" where
  "membership_group m = (im_security m, im_from m, im_batch m)"

definition tied_groups :: "market_tables \<Rightarrow> uuid list \<Rightarrow> date \<Rightarrow> (uuid \<times> date \<times> uuid) list" where
  "tied_groups t ids end_date =
     (let ms = filter (\<lambda>m. im_batch m \<in> set ids \<and> im_from m \<le> end_date) (mt_industries t)
      in filter (\<lambda>g. 1 < length (remdups (map im_code (filter (\<lambda>m. membership_group m = g) ms))))
           (remdups (map membership_group ms)))"

text \<open>The distinct open dates, in order, that lie in a range.\<close>

definition open_dates :: "market_tables \<Rightarrow> (date \<Rightarrow> bool) \<Rightarrow> date list" where
  "open_dates t range_ok =
     sorted_set (map tc_date (filter (\<lambda>c. tc_open c \<and> range_ok (tc_date c)) (mt_calendar t)))"

fun strictly_increasing :: "date list \<Rightarrow> bool" where
  "strictly_increasing (a # b # ds) \<longleftrightarrow> a < b \<and> strictly_increasing (b # ds)"
| "strictly_increasing _ \<longleftrightarrow> True"

definition batch_set_error :: "market_tables \<Rightarrow> data_batch list \<Rightarrow> date \<Rightarrow> date \<Rightarrow> string option" where
  "batch_set_error t batches start end_date =
     (let ids = map ba_id batches; days = open_dates t (\<lambda>d. start \<le> d \<and> d \<le> end_date) in
      if batches = [] then Some ''data batch set is empty''
      else if length (remdups (map ba_source batches)) \<noteq> 1
      then Some ''data batches must use the same supplier''
      else if length (remdups (map ba_dataset batches)) \<noteq> 1
      then Some ''data batches must use the same dataset type''
      else if \<not> strictly_increasing (map ba_as_of batches)
      then Some ''data batches must be ordered by strictly increasing dates''
      else if \<not> proven_conventions batches
      then Some ''data batches have incompatible or unproven field conventions''
      else if overlapping_dates t ids start end_date \<noteq> []
      then Some ''each market date must resolve to exactly one selected batch version''
      else if tied_groups t ids end_date \<noteq> []
      then Some ''industry history has an unresolved selected-batch tie''
      else if days = [] then Some ''authoritative trading calendar is unavailable''
      else if \<not> list_all (\<lambda>d. list_ex (\<lambda>b. fst (batch_span b) \<le> d \<and> d \<le> snd (batch_span b)) batches) days
      then Some ''data batch set does not cover every requested trading date''
      else None)"

section \<open>What was known on a day\<close>

text \<open>\<open>max(xs, key=key)\<close>: the first of the greatest, \<open>None\<close> for an empty list.\<close>

definition first_max :: "('a \<Rightarrow> 'k::linorder) \<Rightarrow> 'a list \<Rightarrow> 'a option" where
  "first_max key xs = (case xs of [] \<Rightarrow> None
     | x # rest \<Rightarrow> Some (foldl (\<lambda>m y. if key m < key y then y else m) x rest))"

text \<open>The last microsecond of a day in Shanghai, in UTC, and the earlier of it and the cutoff.\<close>

definition end_of_day :: "date \<Rightarrow> datetime" where
  "end_of_day d = \<lparr>wall = (d + 1) * day_us - 1 - 8 * 3600 * 1000000, utcoff = Some 0\<rparr>"

definition known_by :: "datetime \<Rightarrow> date \<Rightarrow> datetime" where
  "known_by cutoff d = (if instant (end_of_day d) < instant (as_utc cutoff) then end_of_day d else as_utc cutoff)"

definition status_seen :: "(uuid \<Rightarrow> nat option) \<Rightarrow> date \<Rightarrow> datetime \<Rightarrow> status_row \<Rightarrow> bool" where
  "status_seen priority d cutoff r \<longleftrightarrow> priority (st_batch r) \<noteq> None \<and> st_effective r \<le> d \<and>
     dt_le (as_utc (st_observed r)) (as_utc cutoff)"

definition status_as_of :: "status_row list \<Rightarrow> date \<Rightarrow> datetime \<Rightarrow> (uuid \<Rightarrow> nat option) \<Rightarrow> status_row option" where
  "status_as_of rows d cutoff priority =
     first_max (\<lambda>r. (st_effective r, ordinal priority (st_batch r))) (filter (status_seen priority d cutoff) rows)"

definition membership_seen :: "(uuid \<Rightarrow> nat option) \<Rightarrow> date \<Rightarrow> datetime \<Rightarrow> membership_row \<Rightarrow> bool" where
  "membership_seen priority d cutoff m \<longleftrightarrow> priority (im_batch m) \<noteq> None \<and> im_from m \<le> d \<and>
     dt_le (as_utc (im_observed m)) (as_utc cutoff)"

definition membership_rank :: "(uuid \<Rightarrow> nat option) \<Rightarrow> membership_row \<Rightarrow> date \<times> nat" where
  "membership_rank priority m = (im_from m, ordinal priority (im_batch m))"

definition industry_as_of ::
    "membership_row list \<Rightarrow> date \<Rightarrow> datetime \<Rightarrow> (uuid \<Rightarrow> nat option) \<Rightarrow> membership_row option \<times> string option" where
  "industry_as_of rows d cutoff priority =
     (let candidates = filter (membership_seen priority d cutoff) rows; rank = membership_rank priority in
      case candidates of [] \<Rightarrow> (None, None)
      | c # cs \<Rightarrow>
          let winning = foldl max (rank c) (map rank cs);
              winners = filter (\<lambda>m. rank m = winning) candidates
          in if length (remdups (map im_code winners)) \<noteq> 1
             then (None, Some ''industry history has an unresolved selected-batch tie'')
             else (case im_until (hd winners) of
                 Some e \<Rightarrow> if e < d then (None, None) else (Some (hd winners), None)
               | None \<Rightarrow> (Some (hd winners), None)))"

section \<open>The market of a backtest\<close>

record history_window =
  hw_ids :: "uuid list"
  hw_start :: date
  hw_end :: date
  hw_cutoff :: datetime

definition security_of :: "market_tables \<Rightarrow> uuid \<Rightarrow> security_row option" where
  "security_of t i = List.find (\<lambda>s. se_id s = i) (mt_securities t)"

text \<open>The join of bars and securities up to the end of the window, ordered by date and symbol.\<close>

definition stored_rows :: "market_tables \<Rightarrow> history_window \<Rightarrow> (bar_row \<times> security_row) list" where
  "stored_rows t w = sort_key (\<lambda>(b, s). (br_date b, se_symbol s))
     (List.map_filter (\<lambda>b. map_option (Pair b) (security_of t (br_security b)))
        (filter (\<lambda>b. br_batch b \<in> set (hw_ids w) \<and> br_date b \<le> hw_end w) (mt_bars t)))"

definition available_rows :: "market_tables \<Rightarrow> history_window \<Rightarrow> (bar_row \<times> security_row) list" where
  "available_rows t w =
     filter (\<lambda>(b, s). available_at_or_before (br_available_at b) (Some (hw_cutoff w))) (stored_rows t w)"

definition calendar_dates :: "market_tables \<Rightarrow> history_window \<Rightarrow> date list" where
  "calendar_dates t w = open_dates t (\<lambda>d. d \<le> hw_end w)"

definition run_trade_dates :: "market_tables \<Rightarrow> history_window \<Rightarrow> date list" where
  "run_trade_dates t w = filter (\<lambda>d. hw_start w \<le> d \<and> d \<le> hw_end w) (calendar_dates t w)"

definition status_on :: "market_tables \<Rightarrow> history_window \<Rightarrow> uuid \<Rightarrow> date \<Rightarrow> status_row option" where
  "status_on t w i d =
     status_as_of (filter (\<lambda>r. st_batch r \<in> set (hw_ids w) \<and> st_security r = i) (mt_statuses t)) d
       (known_by (hw_cutoff w) d) (batch_priority (hw_ids w))"

definition industry_on :: "market_tables \<Rightarrow> history_window \<Rightarrow> uuid \<Rightarrow> date \<Rightarrow> string option" where
  "industry_on t w i d = map_option im_code (fst (
     industry_as_of (filter (\<lambda>m. im_batch m \<in> set (hw_ids w) \<and> im_security m = i) (mt_industries t)) d
       (known_by (hw_cutoff w) d) (batch_priority (hw_ids w))))"

text \<open>\<open>bisect_right(dates, d) - bisect_left(dates, listed)\<close> on the sorted calendar dates.\<close>

definition listing_days :: "date list \<Rightarrow> date \<Rightarrow> date \<Rightarrow> int" where
  "listing_days dates d listed =
     int (length (filter (\<lambda>c. c \<le> d) dates)) - int (length (filter (\<lambda>c. c < listed) dates))"

text \<open>\<open>statistics.median\<close> of decimals; the list is not empty.\<close>

definition median_amount_of :: "dec list \<Rightarrow> dec" where
  "median_amount_of xs = (let data = sort xs; n = length data in
     if odd n then data ! (n div 2) else drnd (dadd (data ! (n div 2 - 1)) (data ! (n div 2)) / 2))"

definition tradable_status :: "status_row option \<Rightarrow> bool" where
  "tradable_status st = (case st of None \<Rightarrow> False
     | Some r \<Rightarrow> st_board r = ''MAIN'' \<and> \<not> st_st r \<and> \<not> st_suspended r \<and> \<not> st_delisting r)"

definition eligible_row ::
    "market_tables \<Rightarrow> history_window \<Rightarrow> dec list \<Rightarrow> bar_row \<Rightarrow> security_row \<Rightarrow> bool" where
  "eligible_row t w history b s \<longleftrightarrow>
     se_type s = ''COMMON'' \<and> tradable_status (status_on t w (se_id s) (br_date b)) \<and>
     (case se_delisted s of None \<Rightarrow> True | Some e \<Rightarrow> br_date b < e) \<and>
     60 \<le> listing_days (calendar_dates t w) (br_date b) (se_listed s) \<and>
     20 \<le> length history \<and> 20000000 \<le> median_amount_of history"

text \<open>The amounts of the last twenty rows of a security, and who was eligible when.\<close>

type_synonym pool_state = "(uuid, dec list) dict \<times> (uuid \<times> date, bool) dict"

definition pool_step ::
    "market_tables \<Rightarrow> history_window \<Rightarrow> pool_state \<Rightarrow> bar_row \<times> security_row \<Rightarrow> pool_state" where
  "pool_step t w = (\<lambda>(amounts, pool) (b, s).
     let longer = dict_get amounts (se_id s) [] @ [br_amount b];
         history = (if 20 < length longer then tl longer else longer)
     in (dict_set (se_id s) history amounts,
         dict_set (se_id s, br_date b) (eligible_row t w history b s) pool))"

definition universe_eligibility :: "market_tables \<Rightarrow> history_window \<Rightarrow> (uuid \<times> date, bool) dict" where
  "universe_eligibility t w = snd (foldl (pool_step t w) ([], []) (available_rows t w))"

definition traded_securities :: "market_tables \<Rightarrow> history_window \<Rightarrow> security_row list" where
  "traded_securities t w =
     map snd (foldl (\<lambda>d (b, s). dict_set (se_id s) s d) [] (available_rows t w))"

definition is_suspended_on :: "market_tables \<Rightarrow> history_window \<Rightarrow> date \<Rightarrow> security_row \<Rightarrow> bool" where
  "is_suspended_on t w d s \<longleftrightarrow> (case status_on t w (se_id s) d of None \<Rightarrow> False | Some r \<Rightarrow> st_suspended r)"

definition suspended_by_date :: "market_tables \<Rightarrow> history_window \<Rightarrow> (date, string list) dict" where
  "suspended_by_date t w = map (\<lambda>d. (d, map se_symbol (filter (is_suspended_on t w d) (traded_securities t w))))
     (run_trade_dates t w)"

definition limit_state :: "bar_row \<Rightarrow> bool \<times> bool \<times> bool" where
  "limit_state b = (case (br_open_up b, br_open_down b) of
     (Some u, Some d) \<Rightarrow> (u, d, True) | _ \<Rightarrow> (False, False, False))"

definition build_market_bar ::
    "market_tables \<Rightarrow> history_window \<Rightarrow> (uuid \<times> date, bool) dict \<Rightarrow> bar_row \<times> security_row \<Rightarrow> market_bar" where
  "build_market_bar t w pool = (\<lambda>(b, s).
     let status = status_on t w (se_id s) (br_date b) in case limit_state b of (up, down, known) \<Rightarrow>
     \<lparr>mb_symbol = se_symbol s, mb_date = br_date b, mb_open = Some (br_open b), mb_low = Some (br_low b),
      mb_high = Some (br_high b), mb_close = Some (br_close b),
      mb_suspended = (case status of None \<Rightarrow> False | Some r \<Rightarrow> st_suspended r),
      limit_up = up, limit_down = down, limit_status_known = known,
      close_limit_up = br_close_up b, close_limit_down = br_close_down b,
      mb_available_quantity = None, mb_amount = Some (br_amount b), mb_available_at = br_available_at b,
      mb_st = (case status of None \<Rightarrow> False | Some r \<Rightarrow> st_st r),
      mb_delisted = ((case status of None \<Rightarrow> False | Some r \<Rightarrow> st_delisting r) \<or>
         (case se_delisted s of None \<Rightarrow> False | Some e \<Rightarrow> e \<le> br_date b)),
      mb_industry = industry_on t w (se_id s) (br_date b), mb_list_date = Some (se_listed s),
      security_type = Some (se_type s), board = map_option st_board status,
      universe_eligible = Some (dict_get pool (se_id s, br_date b) False)\<rparr>)"

definition market_bars :: "market_tables \<Rightarrow> history_window \<Rightarrow> market_bar list" where
  "market_bars t w = map (build_market_bar t w (universe_eligibility t w))
     (filter (\<lambda>(b, s). se_listed s \<le> br_date b) (available_rows t w))"

text \<open>The rows of the window, and the trading dates on which the benchmark has none.\<close>

definition requested_rows :: "market_tables \<Rightarrow> history_window \<Rightarrow> (bar_row \<times> security_row) list" where
  "requested_rows t w = filter (\<lambda>(b, s). hw_start w \<le> br_date b \<and> br_date b \<le> hw_end w) (available_rows t w)"

definition missing_benchmark :: "market_tables \<Rightarrow> history_window \<Rightarrow> string \<Rightarrow> date list" where
  "missing_benchmark t w symbol = filter (\<lambda>d.
     d \<notin> set (map (br_date \<circ> fst) (filter (\<lambda>(b, s). se_symbol s = symbol) (requested_rows t w))))
     (run_trade_dates t w)"

section \<open>Lemmas\<close>

lemma foldl_max_in: "foldl (\<lambda>m y. if (key m :: 'k::linorder) < key y then y else m) x xs \<in> insert x (set xs)"
  by (induction xs arbitrary: x) auto

lemma foldl_max_ge:
  "z \<in> insert x (set xs) \<Longrightarrow> (key z :: 'k::linorder) \<le> key (foldl (\<lambda>m y. if key m < key y then y else m) x xs)"
proof (induction xs arbitrary: x z)
  case (Cons y ys)
  let ?m = "if key x < key y then y else x"
  have "key x \<le> key ?m" "key y \<le> key ?m" by auto
  moreover have "key ?m \<le> key (foldl (\<lambda>m y. if key m < key y then y else m) ?m ys)"
    by (rule Cons.IH) simp
  ultimately show ?case using Cons.IH[of z ?m] Cons.prems by (auto intro: order_trans)
qed simp

lemma first_max_None [simp]: "first_max key xs = None \<longleftrightarrow> xs = []"
  by (simp add: first_max_def split: list.splits)

lemma first_max_Some:
  assumes "first_max key xs = Some m"
  shows "m \<in> set xs" and "\<And>y. y \<in> set xs \<Longrightarrow> key y \<le> key m"
  using assms foldl_max_in[of key] foldl_max_ge[of _ _ _ key] by (auto simp: first_max_def split: list.splits)

text \<open>With distinct keys the order of the rows does not matter.\<close>

lemma first_max_perm:
  assumes "set xs = set ys" and "inj_on key (set xs)"
  shows "first_max key xs = first_max key ys"
proof (cases "first_max key xs")
  case None
  then show ?thesis using assms(1) by (cases ys) auto
next
  case (Some m)
  then have "xs \<noteq> []" by (auto simp: first_max_def)
  then have "ys \<noteq> []" using assms(1) by auto
  then obtain k where k: "first_max key ys = Some k" by (cases "first_max key ys") auto
  have "key m = key k" using first_max_Some[OF Some] first_max_Some[OF k] assms(1) by (intro antisym) auto
  then have "m = k" using assms(2) first_max_Some(1)[OF Some] first_max_Some(1)[OF k] assms(1)
    by (auto dest: inj_onD)
  then show ?thesis by (simp add: Some k)
qed

lemma batch_priority_None: "batch_priority ids b = None \<longleftrightarrow> b \<notin> set ids"
proof -
  have "fst ` set (rev (zip ids [0..<length ids])) = set (map fst (zip ids [0..<length ids]))"
    by (simp only: set_rev set_map)
  also have "\<dots> = set ids" by (subst map_fst_zip) simp_all
  finally show ?thesis by (simp add: batch_priority_def map_of_eq_None_iff)
qed

lemma batch_priority_Some:
  assumes "distinct ids"
  shows "batch_priority ids b = Some n \<longleftrightarrow> n < length ids \<and> ids ! n = b"
proof -
  have "distinct (map fst (rev (zip ids [0..<length ids])))"
    using assms by (simp add: rev_map [symmetric])
  then show ?thesis
    by (auto simp: batch_priority_def map_of_eq_Some_iff in_set_zip)
qed

lemma ordinal_inj: "distinct ids \<Longrightarrow> inj_on (ordinal (batch_priority ids)) (set ids)"
proof (rule inj_onI)
  fix a b
  assume d: "distinct ids" and ab: "a \<in> set ids" "b \<in> set ids"
    and eq: "ordinal (batch_priority ids) a = ordinal (batch_priority ids) b"
  obtain n where n: "batch_priority ids a = Some n" using ab(1) batch_priority_None[of ids a] by auto
  obtain m where m: "batch_priority ids b = Some m" using ab(2) batch_priority_None[of ids b] by auto
  from eq n m have "n = m" by (simp add: ordinal_def)
  then show "a = b" using n m d by (auto simp: batch_priority_Some)
qed

section \<open>The order of the rows does not matter\<close>

text \<open>The primary keys of the two history tables.\<close>

definition status_key :: "status_row \<Rightarrow> uuid \<times> date \<times> uuid" where
  "status_key r = (st_security r, st_effective r, st_batch r)"

definition membership_key :: "membership_row \<Rightarrow> uuid \<times> string \<times> date \<times> uuid" where
  "membership_key m = (im_security m, im_code m, im_from m, im_batch m)"

definition keys_ok :: "market_tables \<Rightarrow> bool" where
  "keys_ok t \<longleftrightarrow> distinct (map status_key (mt_statuses t)) \<and> distinct (map membership_key (mt_industries t)) \<and>
     distinct (map se_id (mt_securities t))"

lemma status_as_of_rows:
  assumes "set rows = set rows'" and "inj_on status_key (set rows)" and "\<forall>r\<in>set rows. st_security r = i"
    and "distinct ids"
  shows "status_as_of rows d c (batch_priority ids) = status_as_of rows' d c (batch_priority ids)"
  unfolding status_as_of_def
proof (rule first_max_perm)
  let ?p = "batch_priority ids"
  show "inj_on (\<lambda>r. (st_effective r, ordinal ?p (st_batch r))) (set (filter (status_seen ?p d c) rows))"
  proof (rule inj_onI)
    fix x y
    assume x: "x \<in> set (filter (status_seen ?p d c) rows)" and y: "y \<in> set (filter (status_seen ?p d c) rows)"
      and eq: "(st_effective x, ordinal ?p (st_batch x)) = (st_effective y, ordinal ?p (st_batch y))"
    have "st_batch x \<in> set ids" "st_batch y \<in> set ids"
      using x y batch_priority_None[of ids] by (auto simp: status_seen_def)
    then have "st_batch x = st_batch y"
      using eq ordinal_inj[OF assms(4)] by (auto dest: inj_onD)
    then have "status_key x = status_key y" using eq x y assms(3) by (simp add: status_key_def)
    then show "x = y" using x y assms(2) by (auto dest: inj_onD)
  qed
qed (use assms(1) in auto)

lemma foldl_max_Max: "foldl max (x :: 'a::linorder) xs = Max (set (x # xs))"
  by (simp only: foldl_conv_fold Max.set_eq_fold max.commute)

lemma hd_of_singleton: "set xs = {x} \<Longrightarrow> hd xs = x"
  by (cases xs) auto

lemma one_code:
  assumes "length (remdups (map f xs)) = 1" and "x \<in> set xs" and "y \<in> set xs"
  shows "f x = f y"
proof -
  obtain a where "f ` set xs = {a}"
    using assms(1) by (auto simp: length_remdups_card_conv card_1_singleton_iff)
  then have "f x \<in> {a}" "f y \<in> {a}" using assms(2,3) by blast+
  then show ?thesis by simp
qed

text \<open>The winners of the industry selection as a set.\<close>

definition winners_of :: "membership_row list \<Rightarrow> (uuid \<Rightarrow> nat option) \<Rightarrow> membership_row list" where
  "winners_of cs p = filter (\<lambda>m. membership_rank p m = Max (set (map (membership_rank p) cs))) cs"

lemma industry_as_of_winners:
  "industry_as_of rows d c p =
     (let cs = filter (membership_seen p d c) rows; ws = winners_of cs p in
      if cs = [] then (None, None)
      else if length (remdups (map im_code ws)) \<noteq> 1
      then (None, Some ''industry history has an unresolved selected-batch tie'')
      else (case im_until (hd ws) of
          Some e \<Rightarrow> if e < d then (None, None) else (Some (hd ws), None) | None \<Rightarrow> (Some (hd ws), None)))"
proof (cases "filter (membership_seen p d c) rows")
  case (Cons x xs)
  then show ?thesis
    by (simp only: industry_as_of_def Let_def list.case winners_of_def foldl_max_Max list.map list.distinct if_False)
qed (simp add: industry_as_of_def)

lemma one_winner:
  assumes "inj_on membership_key (set rows)" and "\<forall>m\<in>set rows. im_security m = i" and "distinct ids"
    and "ws = winners_of (filter (membership_seen (batch_priority ids) d c) rows) (batch_priority ids)"
    and "length (remdups (map im_code ws)) = 1" and "x \<in> set ws" and "y \<in> set ws"
  shows "x = y"
proof -
  let ?p = "batch_priority ids"
  have in_ids: "im_batch z \<in> set ids" if "z \<in> set ws" for z
    using that batch_priority_None[of ids] by (auto simp: assms(4) winners_of_def membership_seen_def)
  have rank: "membership_rank ?p x = membership_rank ?p y" using assms(6,7) by (simp add: assms(4) winners_of_def)
  then have "im_batch x = im_batch y"
    using ordinal_inj[OF assms(3)] in_ids[OF assms(6)] in_ids[OF assms(7)]
    by (auto simp: membership_rank_def dest: inj_onD)
  moreover have "im_code x = im_code y" using one_code[OF assms(5-7)] .
  ultimately have "membership_key x = membership_key y"
    using rank assms(2,4,6,7) by (simp add: membership_key_def membership_rank_def winners_of_def)
  moreover have "x \<in> set rows" "y \<in> set rows" using assms(4,6,7) by (auto simp: winners_of_def)
  ultimately show ?thesis using assms(1) by (auto dest: inj_onD)
qed

lemma industry_as_of_rows:
  assumes "set rows = set rows'" and "inj_on membership_key (set rows)" and "\<forall>m\<in>set rows. im_security m = i"
    and "distinct ids"
  shows "industry_as_of rows d c (batch_priority ids) = industry_as_of rows' d c (batch_priority ids)"
proof -
  let ?p = "batch_priority ids"
  let ?cs = "filter (membership_seen ?p d c) rows" and ?cs' = "filter (membership_seen ?p d c) rows'"
  have ws: "set (winners_of ?cs ?p) = set (winners_of ?cs' ?p)" and none: "?cs = [] \<longleftrightarrow> ?cs' = []"
    using assms(1) by (auto simp: winners_of_def filter_empty_conv)
  have codes: "length (remdups (map im_code (winners_of ?cs ?p))) = length (remdups (map im_code (winners_of ?cs' ?p)))"
    by (simp add: length_remdups_card_conv ws)
  have first: "hd (winners_of ?cs ?p) = hd (winners_of ?cs' ?p)"
    if "length (remdups (map im_code (winners_of ?cs ?p))) = 1"
  proof -
    have "winners_of ?cs ?p \<noteq> []" using that by auto
    then obtain x where x: "x \<in> set (winners_of ?cs ?p)" by (cases "winners_of ?cs ?p") auto
    have "set (winners_of ?cs ?p) = {x}"
      using one_winner[OF assms(2,3,4) refl that] x by blast
    then show ?thesis using ws by (simp add: hd_of_singleton)
  qed
  show ?thesis
  proof (cases "length (remdups (map im_code (winners_of ?cs ?p))) = 1")
    case True
    then show ?thesis by (simp only: industry_as_of_winners Let_def first[OF True] codes none)
  next
    case False
    then show ?thesis unfolding industry_as_of_winners Let_def using none codes by simp
  qed
qed

text \<open>Two tables that differ in the order of the history rows only.\<close>

definition same_history :: "market_tables \<Rightarrow> market_tables \<Rightarrow> bool" where
  "same_history t t' \<longleftrightarrow> set (mt_statuses t) = set (mt_statuses t') \<and> set (mt_industries t) = set (mt_industries t') \<and>
     mt_bars t = mt_bars t' \<and> mt_securities t = mt_securities t' \<and> mt_calendar t = mt_calendar t'"

lemma keys_inj:
  assumes "keys_ok t"
  shows "inj_on status_key (set (filter P (mt_statuses t)))" and "inj_on membership_key (set (filter Q (mt_industries t)))"
  using assms by (auto simp: keys_ok_def distinct_map intro: inj_on_subset)

lemma status_on_rows:
  assumes "keys_ok t" and "same_history t t'" and "distinct (hw_ids w)"
  shows "status_on t w i d = status_on t' w i d"
  unfolding status_on_def
  by (rule status_as_of_rows[OF _ keys_inj(1)[OF assms(1)] _ assms(3), where i = i]) (use assms(2) in \<open>auto simp: same_history_def\<close>)

lemma industry_on_rows:
  assumes "keys_ok t" and "same_history t t'" and "distinct (hw_ids w)"
  shows "industry_on t w i d = industry_on t' w i d"
  unfolding industry_on_def
  by (subst industry_as_of_rows[OF _ keys_inj(2)[OF assms(1)] _ assms(3), where i = i])
    (use assms(2) in \<open>auto simp: same_history_def\<close>)

text \<open>The rest of the market reads the history through these two functions only.\<close>

lemma market_reads:
  assumes "available_rows t w = available_rows t' w" and "calendar_dates t w = calendar_dates t' w"
    and "\<And>i d. status_on t w i d = status_on t' w i d" and "\<And>i d. industry_on t w i d = industry_on t' w i d"
  shows "market_bars t w = market_bars t' w" and "suspended_by_date t w = suspended_by_date t' w"
proof -
  have step: "pool_step t w = pool_step t' w"
    by (simp add: pool_step_def eligible_row_def[abs_def] assms fun_eq_iff)
  have build: "build_market_bar t w = build_market_bar t' w"
    by (simp add: build_market_bar_def[abs_def] assms fun_eq_iff)
  show "market_bars t w = market_bars t' w"
    by (simp add: market_bars_def universe_eligibility_def step build assms(1))
  show "suspended_by_date t w = suspended_by_date t' w"
    by (simp add: suspended_by_date_def traded_securities_def is_suspended_on_def[abs_def] run_trade_dates_def assms)
qed

lemma rows_order_free:
  assumes "same_history t t'"
  shows "available_rows t w = available_rows t' w" and "calendar_dates t w = calendar_dates t' w"
  using assms
  by (simp_all add: available_rows_def stored_rows_def security_of_def[abs_def] calendar_dates_def open_dates_def same_history_def)

section \<open>No look-ahead\<close>

text \<open>What was known at the end of a day, under the cutoff of the window.\<close>

definition status_known :: "datetime \<Rightarrow> date \<Rightarrow> status_row \<Rightarrow> bool" where
  "status_known cutoff d r \<longleftrightarrow> st_effective r \<le> d \<and> instant (st_observed r) \<le> instant (known_by cutoff d)"

definition membership_known :: "datetime \<Rightarrow> date \<Rightarrow> membership_row \<Rightarrow> bool" where
  "membership_known cutoff d m \<longleftrightarrow> im_from m \<le> d \<and> instant (im_observed m) \<le> instant (known_by cutoff d)"

definition bar_known :: "datetime \<Rightarrow> date \<Rightarrow> bar_row \<Rightarrow> bool" where
  "bar_known cutoff d b \<longleftrightarrow> br_date b \<le> d \<and> available_at_or_before (br_available_at b) (Some cutoff)"

definition same_until :: "date \<Rightarrow> datetime \<Rightarrow> market_tables \<Rightarrow> market_tables \<Rightarrow> bool" where
  "same_until d cutoff t t' \<longleftrightarrow>
     mt_securities t' = mt_securities t \<and>
     filter (\<lambda>c. tc_date c \<le> d) (mt_calendar t') = filter (\<lambda>c. tc_date c \<le> d) (mt_calendar t) \<and>
     filter (bar_known cutoff d) (mt_bars t') = filter (bar_known cutoff d) (mt_bars t) \<and>
     filter (status_known cutoff d) (mt_statuses t') = filter (status_known cutoff d) (mt_statuses t) \<and>
     filter (membership_known cutoff d) (mt_industries t') = filter (membership_known cutoff d) (mt_industries t)"

lemma known_by_mono: "d \<le> e \<Longrightarrow> instant (known_by c d) \<le> instant (known_by c e)"
  by (simp add: known_by_def end_of_day_def instant_def day_us_def)

lemma filter_through:
  assumes "filter K xs = filter K ys" and "\<And>x. P x \<Longrightarrow> K x"
  shows "filter P xs = filter P ys"
proof -
  have *: "filter P zs = filter P (filter K zs)" for zs
    using assms(2) by (auto intro: filter_cong)
  show ?thesis unfolding *[of xs] *[of ys] assms(1) ..
qed

lemma status_on_known:
  assumes "same_until D (hw_cutoff w) t t'" and "d \<le> D"
  shows "status_on t' w i d = status_on t w i d"
proof -
  have "filter (\<lambda>r. (st_batch r \<in> set (hw_ids w) \<and> st_security r = i) \<and>
        status_seen (batch_priority (hw_ids w)) d (known_by (hw_cutoff w) d) r) (mt_statuses t') =
      filter (\<lambda>r. (st_batch r \<in> set (hw_ids w) \<and> st_security r = i) \<and>
        status_seen (batch_priority (hw_ids w)) d (known_by (hw_cutoff w) d) r) (mt_statuses t)"
  proof (rule filter_through)
    show "filter (status_known (hw_cutoff w) D) (mt_statuses t') = filter (status_known (hw_cutoff w) D) (mt_statuses t)"
      using assms(1) by (simp add: same_until_def)
  qed (use assms(2) known_by_mono[OF assms(2), of "hw_cutoff w"] in \<open>auto simp: status_seen_def status_known_def dt_le_def\<close>)
  then show ?thesis by (simp add: status_on_def status_as_of_def conj_commute)
qed

lemma industry_on_known:
  assumes "same_until D (hw_cutoff w) t t'" and "d \<le> D"
  shows "industry_on t' w i d = industry_on t w i d"
proof -
  have "filter (\<lambda>m. (im_batch m \<in> set (hw_ids w) \<and> im_security m = i) \<and>
        membership_seen (batch_priority (hw_ids w)) d (known_by (hw_cutoff w) d) m) (mt_industries t') =
      filter (\<lambda>m. (im_batch m \<in> set (hw_ids w) \<and> im_security m = i) \<and>
        membership_seen (batch_priority (hw_ids w)) d (known_by (hw_cutoff w) d) m) (mt_industries t)"
  proof (rule filter_through)
    show "filter (membership_known (hw_cutoff w) D) (mt_industries t') =
        filter (membership_known (hw_cutoff w) D) (mt_industries t)"
      using assms(1) by (simp add: same_until_def)
  qed (use assms(2) known_by_mono[OF assms(2), of "hw_cutoff w"] in \<open>auto simp: membership_seen_def membership_known_def dt_le_def\<close>)
  then show ?thesis by (simp add: industry_on_def industry_as_of_def conj_commute)
qed

definition row_until :: "date \<Rightarrow> bar_row \<times> security_row \<Rightarrow> bool" where
  "row_until d x \<longleftrightarrow> br_date (fst x) \<le> d"

lemma filter_map_filter: "filter P (List.map_filter f xs) = List.map_filter (\<lambda>x. Option.bind (f x) (\<lambda>y. if P y then Some y else None)) xs"
  by (induction xs) (auto split: option.split)

lemma available_rows_known:
  assumes "same_until D (hw_cutoff w) t t'"
  shows "filter (row_until D) (available_rows t' w) = filter (row_until D) (available_rows t w)"
proof -
  let ?bars = "\<lambda>t. filter (\<lambda>b. (br_batch b \<in> set (hw_ids w) \<and> br_date b \<le> hw_end w) \<and> bar_known (hw_cutoff w) D b) (mt_bars t)"
  let ?join = "\<lambda>t. List.map_filter (\<lambda>b. map_option (Pair b) (security_of t (br_security b)))"
  have join: "filter (\<lambda>x. row_until D x \<and> available_at_or_before (br_available_at (fst x)) (Some (hw_cutoff w)))
      (?join t bs) = ?join t (filter (bar_known (hw_cutoff w) D) bs)" for t bs
    by (induction bs) (auto simp: row_until_def bar_known_def split: option.splits)
  have rows: "filter (row_until D) (available_rows t w) =
      sort_key (\<lambda>(b, s). (br_date b, se_symbol s)) (?join t (?bars t))" for t
    by (simp add: available_rows_def stored_rows_def filter_sort join split_def conj_commute)
  have "?bars t' = ?bars t"
    by (rule filter_through[where K = "bar_known (hw_cutoff w) D"]) (use assms in \<open>auto simp: same_until_def\<close>)
  moreover have "security_of t' = security_of t" using assms by (simp add: security_of_def[abs_def] same_until_def)
  ultimately show ?thesis unfolding rows by simp
qed

lemma sorted_split:
  assumes "sorted (map f xs)" and "\<And>x y. f x \<le> f y \<Longrightarrow> P y \<Longrightarrow> P x"
  shows "xs = filter P xs @ filter (\<lambda>x. \<not> P x) xs"
  using assms(1)
proof (induction xs)
  case (Cons x xs)
  show ?case
  proof (cases "P x")
    case False
    then have "\<not> P y" if "y \<in> set xs" for y using Cons.prems that assms(2)[of x y] by auto
    then have "filter P xs = []" and "filter (\<lambda>x. \<not> P x) xs = xs"
      by (auto simp: filter_empty_conv filter_id_conv)
    then show ?thesis using False by simp
  qed (use Cons in simp)
qed simp

lemma available_rows_split:
  "available_rows t w = filter (row_until D) (available_rows t w) @ filter (\<lambda>x. \<not> row_until D x) (available_rows t w)"
proof (rule sorted_split)
  show "sorted (map (\<lambda>(b, s). (br_date b, se_symbol s)) (available_rows t w))"
    by (simp add: available_rows_def stored_rows_def sorted_filter)
qed (auto simp: row_until_def less_eq_prod_def)

lemma listing_days_known:
  assumes "filter (\<lambda>c. c \<le> D) cal' = filter (\<lambda>c. c \<le> D) cal" and "d \<le> D"
  shows "60 \<le> listing_days cal' d l \<longleftrightarrow> 60 \<le> listing_days cal d l"
proof (cases "l \<le> d")
  case True
  have "filter (\<lambda>c. c \<le> d) cal' = filter (\<lambda>c. c \<le> d) cal" "filter (\<lambda>c. c < l) cal' = filter (\<lambda>c. c < l) cal"
    using assms True by (auto intro!: filter_through[OF assms(1)])
  then show ?thesis by (simp add: listing_days_def)
next
  case False
  have "length (filter (\<lambda>c. c \<le> d) xs) \<le> length (filter (\<lambda>c. c < l) xs)" for xs :: "date list"
    by (induction xs) (use False in auto)
  then have "listing_days xs d l \<le> 0" for xs by (simp add: listing_days_def)
  then show ?thesis by (smt (verit))
qed

lemma calendar_dates_known:
  assumes "same_until D c t t'"
  shows "filter (\<lambda>d. d \<le> D) (calendar_dates t' w) = filter (\<lambda>d. d \<le> D) (calendar_dates t w)"
proof -
  have *: "filter (\<lambda>d. d \<le> D) (calendar_dates t w) =
      sorted_set (map tc_date (filter (\<lambda>c. tc_date c \<le> D \<and> tc_open c \<and> tc_date c \<le> hw_end w) (mt_calendar t)))" for t
    by (simp add: calendar_dates_def open_dates_def sorted_set_def filter_sort remdups_filter [symmetric] filter_map comp_def conj_ac)
  have "filter (\<lambda>c. tc_date c \<le> D \<and> tc_open c \<and> tc_date c \<le> hw_end w) (mt_calendar t') =
      filter (\<lambda>c. tc_date c \<le> D \<and> tc_open c \<and> tc_date c \<le> hw_end w) (mt_calendar t)"
    by (rule filter_through[where K = "\<lambda>c. tc_date c \<le> D"]) (use assms in \<open>auto simp: same_until_def\<close>)
  then show ?thesis unfolding * by simp
qed

lemma pool_step_known:
  assumes "same_until D (hw_cutoff w) t t'" and "row_until D x"
  shows "pool_step t' w st x = pool_step t w st x"
  using assms(2) status_on_known[OF assms(1)] listing_days_known[OF calendar_dates_known[OF assms(1)]]
  by (cases x, cases st) (simp add: pool_step_def eligible_row_def row_until_def Let_def)

lemma pool_later:
  assumes "list_all (\<lambda>x. \<not> row_until D x) rows" and "d \<le> D"
  shows "dict_get (snd (foldl (pool_step t w) st rows)) (i, d) v = dict_get (snd st) (i, d) v"
  using assms(1)
proof (induction rows arbitrary: st)
  case (Cons x rows)
  have "dict_get (snd (pool_step t w st x)) (i, d) v = dict_get (snd st) (i, d) v"
    using Cons.prems assms(2)
    by (cases x, cases st) (auto simp: pool_step_def Let_def dict_get_def dict_simps row_until_def)
  then show ?case using Cons by simp
qed simp

lemma pool_known:
  assumes "same_until D (hw_cutoff w) t t'" and "d \<le> D"
  shows "dict_get (universe_eligibility t' w) (i, d) v = dict_get (universe_eligibility t w) (i, d) v"
proof -
  let ?early = "\<lambda>t. foldl (pool_step t w) ([], []) (filter (row_until D) (available_rows t w))"
  have cut: "dict_get (universe_eligibility t w) (i, d) v = dict_get (snd (?early t)) (i, d) v" for t
  proof -
    have "foldl (pool_step t w) ([], []) (available_rows t w) =
        foldl (pool_step t w) (?early t) (filter (\<lambda>x. \<not> row_until D x) (available_rows t w))"
      by (subst available_rows_split[of t w D]) simp
    then show ?thesis
      unfolding universe_eligibility_def
      by (simp add: pool_later[OF _ assms(2)] list_all_iff)
  qed
  have "?early t' = ?early t"
    by (rule foldl_cong) (simp_all add: available_rows_known[OF assms(1)] pool_step_known[OF assms(1)])
  then show ?thesis by (simp add: cut)
qed

lemma build_known:
  assumes "same_until D (hw_cutoff w) t t'" and "row_until D x"
  shows "build_market_bar t' w (universe_eligibility t' w) x = build_market_bar t w (universe_eligibility t w) x"
  using assms(2) status_on_known[OF assms(1)] industry_on_known[OF assms(1)] pool_known[OF assms(1)]
  by (cases x) (simp add: build_market_bar_def row_until_def)

lemma build_date: "mb_date (build_market_bar t w pool x) = br_date (fst x)"
  by (cases x) (simp add: build_market_bar_def Let_def split: prod.split)

lemma market_until:
  "filter (\<lambda>m. mb_date m \<le> D) (market_bars t w) = map (build_market_bar t w (universe_eligibility t w))
     (filter (\<lambda>(b, s). se_listed s \<le> br_date b) (filter (row_until D) (available_rows t w)))"
  by (simp add: market_bars_def filter_map comp_def build_date row_until_def split_def conj_commute)

lemma market_known:
  assumes "same_until D (hw_cutoff w) t t'"
  shows "filter (\<lambda>m. mb_date m \<le> D) (market_bars t' w) = filter (\<lambda>m. mb_date m \<le> D) (market_bars t w)"
  unfolding market_until available_rows_known[OF assms]
  by (rule map_cong[OF refl]) (auto intro: build_known[OF assms])

section \<open>What holds of the market\<close>

definition sample_id :: "char \<Rightarrow> uuid" where
  "sample_id c = ''00000000-0000-4000-8000-00000000000'' @ [c]"

definition sample_listing :: security_row where
  "sample_listing = \<lparr>se_id = sample_id (CHR ''a''), se_symbol = ''600000.SH'', se_exchange = ''SSE'',
     se_type = ''COMMON'', se_listed = 730000, se_delisted = None\<rparr>"

definition sample_status :: "date \<Rightarrow> bool \<Rightarrow> status_row" where
  "sample_status d st = \<lparr>st_security = sample_id (CHR ''a''), st_effective = d, st_st = st, st_suspended = False,
     st_delisting = False, st_board = ''MAIN'', st_batch = sample_id (CHR ''1''), st_observed = end_of_day d\<rparr>"

definition sample_stored_bar :: "date \<Rightarrow> dec \<Rightarrow> bar_row" where
  "sample_stored_bar d p = \<lparr>br_security = sample_id (CHR ''a''), br_date = d, br_raw = (p, p, p, p), br_open = p,
     br_high = p, br_low = p, br_close = p, br_volume = 100, br_amount = 30000000, br_factor = 1,
     br_available_at = Some (end_of_day d), br_open_up = Some False, br_open_down = Some False,
     br_close_up = Some False, br_close_down = Some False, br_limit_up = None, br_limit_down = None,
     br_batch = sample_id (CHR ''1'')\<rparr>"

definition sample_market :: market_tables where
  "sample_market = \<lparr>mt_batches = [],
     mt_calendar = [\<lparr>tc_exchange = ''SSE'', tc_date = 738000, tc_open = True, tc_prev = None, tc_next = None\<rparr>],
     mt_securities = [sample_listing], mt_statuses = [sample_status 737990 True, sample_status 738000 False],
     mt_industries = [], mt_bars = [sample_stored_bar 738000 10]\<rparr>"

definition sample_window :: history_window where
  "sample_window = \<lparr>hw_ids = [sample_id (CHR ''1'')], hw_start = 738000, hw_end = 738001, hw_cutoff = end_of_day 738001\<rparr>"

lemmas sample_market_simps = sample_market_def sample_window_def sample_status_def sample_stored_bar_def
  sample_listing_def sample_id_def

text \<open>
  C5: The database returns the rows of a table in any order, and the queries of the history ask for
  none. The market of a backtest does not depend on it: two tables that hold the same status and
  industry rows, whose primary keys are distinct, give the same bars and the same suspensions.
\<close>

theorem market_order_free:
  assumes "keys_ok t" and "same_history t t'" and "distinct (hw_ids w)"
  shows "market_bars t w = market_bars t' w \<and> suspended_by_date t w = suspended_by_date t' w"
  using market_reads[OF rows_order_free[OF assms(2)] status_on_rows[OF assms] industry_on_rows[OF assms]]
  by blast

lemma market_order_free_witness:
  "market_bars sample_market sample_window =
     market_bars (sample_market\<lparr>mt_statuses := rev (mt_statuses sample_market)\<rparr>) sample_window \<and>
   suspended_by_date sample_market sample_window =
     suspended_by_date (sample_market\<lparr>mt_statuses := rev (mt_statuses sample_market)\<rparr>) sample_window"
  by (rule market_order_free)
    (simp_all add: keys_ok_def same_history_def sample_market_simps status_key_def insert_commute)


text \<open>A bar of the next day and a correction of the old status that was observed then.\<close>

definition sample_later_market :: market_tables where
  "sample_later_market = sample_market\<lparr>
     mt_bars := mt_bars sample_market @ [sample_stored_bar 738001 11],
     mt_statuses := mt_statuses sample_market @ [(sample_status 738001 True)\<lparr>st_effective := 737999\<rparr>]\<rparr>"


end
