(* ===== verification/BacktestRuns.thy ===== *)
theory BacktestRuns
  imports Lookahead MarketHistory
begin

text \<open>
  Stored backtest runs of \<open>app/infrastructure/repositories/research.py\<close>: \<open>create_run\<close> pins the
  inputs of a run, \<open>execute_run\<close> replays it from the tables and stores what the engine of
  \<open>EngineRun\<close> returned. Each of the two transactions of \<open>execute_run\<close> is atomic here, the engine runs
  between them. The JSON columns give back what was stored. SHA-256 over JSON, \<open>uuid5\<close> of the
  aliases, fresh ids and the clock are arguments; of the stored summary of a result the model keeps
  the result its texts are made of.
\<close>

section \<open>Tables\<close>

record strategy_row =
  sv_id :: uuid
  sv_code :: string
  sv_type :: string
  sv_version :: string
  sv_status :: string
  sv_parameters :: parameters
  sv_owner :: uuid

record cost_row =
  cc_id :: uuid
  cc_version :: string
  cc_commission_rate :: dec
  cc_commission_min :: dec
  cc_stamp_tax :: dec
  cc_transfer_rate :: dec
  cc_regulatory_rate :: dec
  cc_handling_rate :: dec
  cc_includes_regulatory :: bool
  cc_includes_handling :: bool
  cc_slippage_buy :: dec
  cc_slippage_sell :: dec
  cc_price_mode :: string
  cc_fill_mode :: string
  cc_config :: "(string \<times> config_value) list"

record rule_row =
  rl_id :: uuid
  rl_version :: string
  rl_status :: string
  rl_config :: row

text \<open>What \<open>create_run\<close> pins in \<open>config_snapshot\<close>, as far as it is read again.\<close>

record data_snapshot =
  sn_batches :: "row list"
  sn_set_hash :: string
  sn_status_hash :: string
  sn_industry_hash :: string
  sn_security_hash :: string
  sn_calendar_hash :: string

record pinned_config =
  pc_batch_ids :: "string list"
  pc_data :: data_snapshot
  pc_cutoff :: string
  pc_strategy_type :: string
  pc_parameters :: parameters
  pc_implementation :: string
  pc_rule_version :: string
  pc_rule_config :: row
  pc_rule_hash :: string
  pc_cost_config :: "(string, config_value) dict"
  pc_cost_hash :: string

datatype run_summary = Unusable string | Replayed backtest_result string

record backtest_run =
  bt_id :: uuid
  bt_no :: string
  bt_batch :: uuid
  bt_strategy :: uuid
  bt_cost :: uuid
  bt_rule :: uuid
  bt_start :: date
  bt_end :: date
  bt_train_end :: "date option"
  bt_valid_end :: "date option"
  bt_oos :: "date option"
  bt_benchmark :: string
  bt_secondary :: string
  bt_universe :: bool
  bt_mode :: string
  bt_equity :: dec
  bt_pinned :: pinned_config
  bt_status :: string
  bt_usable :: bool
  bt_hash :: "string option"
  bt_summary :: "run_summary option"
  bt_owner :: uuid
  bt_created :: datetime

record run_stage =
  rg_run :: uuid
  rg_code :: string
  rg_status :: string
  rg_started :: "datetime option"
  rg_ended :: "datetime option"
  rg_error :: "string option"

record stored_snapshot =
  ss_run :: uuid
  ss_account :: uuid
  ss_date :: date
  ss_cash :: dec
  ss_market_value :: dec
  ss_equity :: dec
  ss_high_water :: dec
  ss_drawdown :: dec
  ss_risk :: string

record stored_point =
  sp_run :: uuid
  sp_series :: string
  sp_date :: date
  sp_value :: dec
  sp_availability :: string

record stored_metric =
  pm_run :: uuid
  pm_series :: string
  pm_segment :: string
  pm_code :: string
  pm_value :: dec

record run_tables =
  rt_market :: market_tables
  rt_strategies :: "strategy_row list"
  rt_costs :: "cost_row list"
  rt_rules :: "rule_row list"
  rt_users :: "uuid list"
  rt_runs :: "backtest_run list"
  rt_stages :: "run_stage list"
  rt_snapshots :: "stored_snapshot list"
  rt_points :: "stored_point list"
  rt_metrics :: "stored_metric list"
  rt_reports :: "(uuid \<times> string \<times> string) list"

text \<open>The digests and \<open>_stable_uuid\<close>.\<close>

record run_env =
  re_digests :: digests
  re_contents :: hashing
  re_hash_rule :: "row \<Rightarrow> string"
  re_hash_batches :: "row list \<Rightarrow> string"
  re_stable_uuid :: "string \<Rightarrow> uuid"

section \<open>Configurations\<close>

definition cost_model_of :: "cost_row \<Rightarrow> cost_model" where
  "cost_model_of c = \<lparr>commission_rate = cc_commission_rate c, minimum_commission = cc_commission_min c,
     sell_stamp_duty_rate = cc_stamp_tax c, transfer_fee_rate = cc_transfer_rate c,
     regulatory_fee_rate = cc_regulatory_rate c, handling_fee_rate = cc_handling_rate c,
     commission_includes_regulatory = cc_includes_regulatory c,
     commission_includes_handling = cc_includes_handling c,
     slippage_buy = cc_slippage_buy c, slippage_sell = cc_slippage_sell c, cost_version = cc_version c\<rparr>"

definition cost_config_snapshot :: "cost_row \<Rightarrow> (string, config_value) dict" where
  "cost_config_snapshot c =
     [(''version'', CfgText (cc_version c)), (''commission_rate'', CfgDecimal (cc_commission_rate c)),
      (''minimum_commission'', CfgDecimal (cc_commission_min c)),
      (''sell_stamp_duty_rate'', CfgDecimal (cc_stamp_tax c)),
      (''transfer_fee_rate'', CfgDecimal (cc_transfer_rate c)),
      (''regulatory_fee_rate'', CfgDecimal (cc_regulatory_rate c)),
      (''handling_fee_rate'', CfgDecimal (cc_handling_rate c)),
      (''commission_includes_regulatory'', CfgBool (cc_includes_regulatory c)),
      (''commission_includes_handling'', CfgBool (cc_includes_handling c)),
      (''slippage_buy'', CfgDecimal (cc_slippage_buy c)), (''slippage_sell'', CfgDecimal (cc_slippage_sell c)),
      (''execution_price_mode'', CfgText (cc_price_mode c)), (''partial_fill_mode'', CfgText (cc_fill_mode c)),
      (''config'', CfgEntries (cc_config c))]"

definition stored_batch :: "run_tables \<Rightarrow> uuid \<Rightarrow> data_batch option" where
  "stored_batch t i = List.find (\<lambda>b. ba_id b = i) (mt_batches (rt_market t))"

definition stored_strategy :: "run_tables \<Rightarrow> uuid \<Rightarrow> strategy_row option" where
  "stored_strategy t i = List.find (\<lambda>s. sv_id s = i) (rt_strategies t)"

definition stored_cost :: "run_tables \<Rightarrow> uuid \<Rightarrow> cost_row option" where
  "stored_cost t i = List.find (\<lambda>c. cc_id c = i) (rt_costs t)"

definition stored_rule :: "run_tables \<Rightarrow> uuid \<Rightarrow> rule_row option" where
  "stored_rule t i = List.find (\<lambda>r. rl_id r = i) (rt_rules t)"

text \<open>\<open>_resolve_config_id\<close>: a UUID, or the stable one of an alias.\<close>

definition config_id :: "run_env \<Rightarrow> string \<Rightarrow> uuid" where
  "config_id env s = (case parse_uuid s of Some i \<Rightarrow> i | None \<Rightarrow> re_stable_uuid env s)"

definition usable_batch :: "data_batch \<Rightarrow> bool" where
  "usable_batch b \<longleftrightarrow> ba_status b = ''AVAILABLE'' \<or> ba_status b = ''WARNING_AVAILABLE''"

text \<open>\<open>dict == dict\<close>: the order of the keys does not count.\<close>

definition same_dict :: "('k, 'v) dict \<Rightarrow> ('k, 'v) dict \<Rightarrow> bool" where
  "same_dict a b \<longleftrightarrow> list_all (\<lambda>(k, v). map_of b k = map_of a k) a \<and> list_all (\<lambda>(k, v). map_of b k = map_of a k) b"

lemma same_dict_refl [simp]: "same_dict a a"
  by (auto simp: same_dict_def list_all_iff)

section \<open>The snapshot of the data\<close>

definition utc_text :: "datetime \<Rightarrow> string" where
  "utc_text t = datetime_text (CHR ''T'') (as_utc t)"

definition date_value :: "date option \<Rightarrow> pyval" where
  "date_value d = (case d of None \<Rightarrow> PNone | Some x \<Rightarrow> PDate x)"

definition text_value :: "string option \<Rightarrow> pyval" where
  "text_value s = (case s of None \<Rightarrow> PNone | Some x \<Rightarrow> PText x)"

definition status_payload :: "market_tables \<Rightarrow> uuid list \<Rightarrow> row list" where
  "status_payload t ids = List.map_filter (\<lambda>r. map_option (\<lambda>s.
       [(''source_batch_id'', PText (st_batch r)), (''symbol'', PText (se_symbol s)),
        (''effective_date'', PDate (st_effective r)), (''is_st'', PBool (st_st r)),
        (''is_suspended'', PBool (st_suspended r)), (''is_delist_period'', PBool (st_delisting r)),
        (''board'', PText (st_board r)), (''observed_at'', PText (utc_text (st_observed r)))])
       (security_of t (st_security r)))
     (filter (\<lambda>r. st_batch r \<in> set ids) (mt_statuses t))"

definition membership_payload :: "market_tables \<Rightarrow> uuid list \<Rightarrow> row list" where
  "membership_payload t ids = List.map_filter (\<lambda>m. map_option (\<lambda>s.
       [(''source_batch_id'', PText (im_batch m)), (''symbol'', PText (se_symbol s)),
        (''industry_code'', PText (im_code m)), (''effective_from'', PDate (im_from m)),
        (''effective_to'', date_value (im_until m)), (''observed_at'', PText (utc_text (im_observed m)))])
       (security_of t (im_security m)))
     (filter (\<lambda>m. im_batch m \<in> set ids) (mt_industries t))"

definition security_payload :: "market_tables \<Rightarrow> uuid list \<Rightarrow> row list" where
  "security_payload t ids = map (\<lambda>s.
       [(''security_id'', PText (se_id s)), (''symbol'', PText (se_symbol s)), (''exchange'', PText (se_exchange s)),
        (''security_type'', PText (se_type s)), (''list_date'', PDate (se_listed s)),
        (''delist_date'', date_value (se_delisted s))])
     (filter (\<lambda>s. list_ex (\<lambda>b. br_security b = se_id s \<and> br_batch b \<in> set ids) (mt_bars t)) (mt_securities t))"

definition calendar_payload :: "market_tables \<Rightarrow> date \<Rightarrow> row list" where
  "calendar_payload t end_date = map (\<lambda>c.
       [(''exchange'', PText (tc_exchange c)), (''trade_date'', PDate (tc_date c)), (''is_open'', PBool (tc_open c)),
        (''prev_trade_date'', date_value (tc_prev c)), (''next_trade_date'', date_value (tc_next c))])
     (sort_key (\<lambda>c. (tc_exchange c, tc_date c)) (filter (\<lambda>c. tc_date c \<le> end_date) (mt_calendar t)))"

definition batch_payload :: "nat \<Rightarrow> data_batch \<Rightarrow> row" where
  "batch_payload i b =
     [(''ordinal'', PInt (int i)), (''batch_id'', PText (ba_id b)), (''source_id'', PText (ba_source b)),
      (''dataset_type'', PText (ba_dataset b)), (''as_of_date'', PText (isoformat (ba_as_of b))),
      (''start_date'', text_value (map_option isoformat (ba_start b))),
      (''end_date'', text_value (map_option isoformat (ba_end b))),
      (''available_at'', PText (utc_text (ba_available_at b))),
      (''information_cutoff_at'', PText (utc_text (ba_cutoff b))), (''version'', PText (ba_version b)),
      (''status'', PText (ba_status b)), (''content_hash'', PText (ba_content_hash b)),
      (''file_hash'', text_value (ba_file_hash b)), (''record_count'', PInt (ba_records b)),
      (''mapping_version'', text_value (sm_mapping (ba_summary b))),
      (''adjustment_convention'', text_value (sm_adjustment (ba_summary b))),
      (''field_convention'', text_value (sm_field (ba_summary b)))]"

definition backtest_data_snapshot :: "run_env \<Rightarrow> market_tables \<Rightarrow> data_batch list \<Rightarrow> date \<Rightarrow> data_snapshot" where
  "backtest_data_snapshot env t batches end_date =
     (let ids = map ba_id batches; rows = map (\<lambda>(i, b). batch_payload i b) (enumerate 0 batches) in
      \<lparr>sn_batches = rows, sn_set_hash = re_hash_batches env rows,
       sn_status_hash = canonical_content_hash (re_contents env) (status_payload t ids),
       sn_industry_hash = canonical_content_hash (re_contents env) (membership_payload t ids),
       sn_security_hash = canonical_content_hash (re_contents env) (security_payload t ids),
       sn_calendar_hash = canonical_content_hash (re_contents env) (calendar_payload t end_date)\<rparr>)"

section \<open>Creating a run\<close>

text \<open>
  The payload of a request; \<open>None\<close> for a key that is missing (or \<open>None\<close>, except for the flag
  \<open>universe_benchmark_enabled\<close>, which the schema makes a Boolean).
\<close>

record run_payload =
  rp_batch :: "string option"
  rp_batches :: "string list option"
  rp_strategy :: string
  rp_start :: string
  rp_end :: string
  rp_train_end :: string
  rp_valid_end :: string
  rp_oos :: string
  rp_cost :: string
  rp_rule :: string
  rp_benchmark :: string
  rp_secondary :: "string option"
  rp_universe :: "bool option"
  rp_cutoff :: "string option"
  rp_equity :: dec
  rp_run_no :: "string option"

definition read_day :: "string \<Rightarrow> date res" where
  "read_day s = (case date_fromisoformat s of None \<Rightarrow> Inl (ValueError ''Invalid isoformat string'') | Some d \<Rightarrow> Inr d)"

text \<open>\<open>_timestamp\<close> of a JSON value: a text that is no timestamp counts as none.\<close>

definition timestamp_of :: "string option \<Rightarrow> datetime option" where
  "timestamp_of s = map_option as_utc (Option.bind s datetime_fromisoformat)"

definition maximum_cutoff :: "data_batch list \<Rightarrow> data_batch" where
  "maximum_cutoff bs = the (first_max (\<lambda>b. instant (as_utc (ba_cutoff b))) bs)"

definition chosen_cutoff :: "string option \<Rightarrow> data_batch list \<Rightarrow> datetime" where
  "chosen_cutoff s bs = (case timestamp_of s of Some c \<Rightarrow> c | None \<Rightarrow> ba_cutoff (maximum_cutoff bs))"

definition cutoff_invalid :: "datetime \<Rightarrow> data_batch list \<Rightarrow> bool" where
  "cutoff_invalid c bs \<longleftrightarrow> \<not> dt_le (as_utc c) (as_utc (ba_cutoff (maximum_cutoff bs))) \<or>
     list_ex (\<lambda>b. \<not> dt_le (as_utc (ba_available_at b)) (as_utc c)) bs"

record split_dates =
  sd_start :: date
  sd_end :: date
  sd_train_end :: date
  sd_valid_end :: date
  sd_oos :: date

definition read_split :: "run_payload \<Rightarrow> split_dates res" where
  "read_split p = andThen (read_day (rp_start p)) (\<lambda>a. andThen (read_day (rp_end p)) (\<lambda>b.
     andThen (read_day (rp_train_end p)) (\<lambda>c. andThen (read_day (rp_valid_end p)) (\<lambda>d.
     andThen (read_day (rp_oos p)) (\<lambda>e.
       if a \<le> c \<and> c < d \<and> d < e \<and> e \<le> b
       then Inr \<lparr>sd_start = a, sd_end = b, sd_train_end = c, sd_valid_end = d, sd_oos = e\<rparr>
       else Inl (ValueError ''invalid train/validation/out-of-sample date split''))))))"

text \<open>What a run is made of, once all of it has been found and checked.\<close>

record prerequisites =
  pq_batches :: "data_batch list"
  pq_strategy :: strategy_row
  pq_cost :: cost_row
  pq_rule :: rule_row

definition find_all :: "('a \<Rightarrow> 'b option) \<Rightarrow> 'a list \<Rightarrow> 'b list option" where
  "find_all f xs = (if list_all (\<lambda>x. f x \<noteq> None) xs then Some (map (the \<circ> f) xs) else None)"

definition known_config :: "'a option \<Rightarrow> string \<Rightarrow> 'a res" where
  "known_config found s = (case found of
     None \<Rightarrow> Inl (ValueError (''unknown configuration version: '' @ s)) | Some c \<Rightarrow> Inr c)"

definition owned_batch :: "run_tables \<Rightarrow> uuid \<Rightarrow> uuid \<Rightarrow> data_batch option" where
  "owned_batch t owner i = (case stored_batch t i of
     Some b \<Rightarrow> if ba_owner b = Some owner \<and> usable_batch b then Some b else None | None \<Rightarrow> None)"

definition published_strategy :: "run_tables \<Rightarrow> uuid \<Rightarrow> uuid \<Rightarrow> strategy_row option" where
  "published_strategy t owner i = (case stored_strategy t i of
     Some s \<Rightarrow> if sv_owner s = owner \<and> sv_status s = ''PUBLISHED'' then Some s else None | None \<Rightarrow> None)"

definition run_prerequisites ::
    "run_env \<Rightarrow> run_tables \<Rightarrow> uuid \<Rightarrow> uuid list \<Rightarrow> uuid \<Rightarrow> run_payload \<Rightarrow> prerequisites res" where
  "run_prerequisites env t owner ids strategy_id p =
     andThen (known_config (stored_cost t (config_id env (rp_cost p))) (rp_cost p)) (\<lambda>cost.
     andThen (known_config (stored_rule t (config_id env (rp_rule p))) (rp_rule p)) (\<lambda>rule.
       case (find_all (owned_batch t owner) ids, published_strategy t owner strategy_id) of
         (Some bs, Some s) \<Rightarrow>
           if rl_status rule \<noteq> ''PUBLISHED'' then Inl (StateConflict ''backtest prerequisites are unavailable'')
           else Inr \<lparr>pq_batches = bs, pq_strategy = s, pq_cost = cost, pq_rule = rule\<rparr>
       | _ \<Rightarrow> Inl (StateConflict ''backtest prerequisites are unavailable'')))"

definition pin_config ::
    "run_env \<Rightarrow> run_tables \<Rightarrow> prerequisites \<Rightarrow> strategy_definition \<Rightarrow> datetime \<Rightarrow> date \<Rightarrow> pinned_config" where
  "pin_config env t pq d cutoff end_date =
     \<lparr>pc_batch_ids = map ba_id (pq_batches pq),
      pc_data = backtest_data_snapshot env (rt_market t) (pq_batches pq) end_date,
      pc_cutoff = utc_text cutoff, pc_strategy_type = sv_type (pq_strategy pq),
      pc_parameters = sv_parameters (pq_strategy pq), pc_implementation = implementation_version d,
      pc_rule_version = rl_version (pq_rule pq), pc_rule_config = rl_config (pq_rule pq),
      pc_rule_hash = re_hash_rule env (rl_config (pq_rule pq)),
      pc_cost_config = cost_config_snapshot (pq_cost pq),
      pc_cost_hash = hash_cost (re_digests env) (cost_config_snapshot (pq_cost pq))\<rparr>"

text \<open>The ids a call draws: the key of the row and the digits of the number it is given.\<close>

definition new_run ::
    "run_env \<Rightarrow> uuid \<Rightarrow> uuid \<Rightarrow> string \<Rightarrow> run_payload \<Rightarrow> split_dates \<Rightarrow> prerequisites \<Rightarrow> pinned_config
      \<Rightarrow> datetime \<Rightarrow> backtest_run" where
  "new_run env owner i no p sd pq pinned now =
     \<lparr>bt_id = i, bt_no = no, bt_batch = ba_id (hd (pq_batches pq)), bt_strategy = sv_id (pq_strategy pq),
      bt_cost = cc_id (pq_cost pq), bt_rule = rl_id (pq_rule pq), bt_start = sd_start sd, bt_end = sd_end sd,
      bt_train_end = Some (sd_train_end sd), bt_valid_end = Some (sd_valid_end sd), bt_oos = Some (sd_oos sd),
      bt_benchmark = rp_benchmark p,
      bt_secondary = (case rp_secondary p of None \<Rightarrow> ''000001.SH'' | Some s \<Rightarrow> if s = [] then ''000001.SH'' else s),
      bt_universe = (case rp_universe p of None \<Rightarrow> True | Some b \<Rightarrow> b), bt_mode = ''NEXT_OPEN_ADJUSTED'',
      bt_equity = rp_equity p, bt_pinned = pinned, bt_status = ''QUEUED'', bt_usable = False, bt_hash = None,
      bt_summary = None, bt_owner = owner, bt_created = now\<rparr>"

definition run_numbered :: "run_tables \<Rightarrow> string \<Rightarrow> backtest_run option" where
  "run_numbered t no = List.find (\<lambda>r. bt_no r = no) (rt_runs t)"

text \<open>The end of \<open>create_run\<close>: a run number that is asked for is made once.\<close>

definition insert_run ::
    "run_env \<Rightarrow> run_tables \<Rightarrow> uuid \<Rightarrow> uuid \<Rightarrow> string \<Rightarrow> run_payload \<Rightarrow> split_dates \<Rightarrow> prerequisites \<Rightarrow> pinned_config
      \<Rightarrow> datetime \<Rightarrow> (backtest_run \<times> run_tables) res" where
  "insert_run env t owner i drawn p sd pq pinned now =
     (let users = List.insert owner (rt_users t); requested = (case rp_run_no p of None \<Rightarrow> [] | Some s \<Rightarrow> s);
          run = new_run env owner i (if requested = [] then drawn else requested) p sd pq pinned now
      in case (if requested = [] then None else run_numbered t requested) of
           Some old \<Rightarrow>
             if bt_owner old \<noteq> owner then Inl (StateConflict ''backtest run identifier belongs to another owner'')
             else Inr (old, t\<lparr>rt_users := users\<rparr>)
         | None \<Rightarrow>
             if run_numbered t (bt_no run) \<noteq> None then Inl (DatabaseError ''IntegrityError'')
             else Inr (run, t\<lparr>rt_users := users, rt_runs := rt_runs t @ [run]\<rparr>))"

definition create_run ::
    "run_env \<Rightarrow> run_tables \<Rightarrow> uuid \<Rightarrow> run_payload \<Rightarrow> uuid \<Rightarrow> string \<Rightarrow> datetime \<Rightarrow> (backtest_run \<times> run_tables) res" where
  "create_run env t owner p i drawn now =
     andThen (ordered_batch_ids (rp_batch p) (rp_batches p)) (\<lambda>ids.
     case parse_uuid (rp_strategy p) of
       None \<Rightarrow> Inl (ValueError ''data_batch_id and strategy_version_id must be UUIDs'')
     | Some strategy_id \<Rightarrow>
     andThen (read_split p) (\<lambda>sd.
     andThen (run_prerequisites env t owner ids strategy_id p) (\<lambda>pq.
       if map_of (rl_config (pq_rule pq)) ''baseline'' \<noteq> Some (PText ''engine-v2'')
       then Inl (StateConflict ''engine-v2 backtests require an engine-v2 rule version'')
       else andThen (get_strategy_definition (sv_type (pq_strategy pq))) (\<lambda>d.
         case batch_set_error (rt_market t) (pq_batches pq) (sd_start sd) (sd_end sd) of
           Some e \<Rightarrow> Inl (StateConflict e)
         | None \<Rightarrow>
             let cutoff = chosen_cutoff (rp_cutoff p) (pq_batches pq) in
             if cutoff_invalid cutoff (pq_batches pq)
             then Inl (StateConflict ''one or more data batches are not available by the information cutoff'')
             else insert_run env t owner i drawn p sd pq
               (pin_config env t pq d cutoff (sd_end sd)) now))))"

section \<open>Executing a run\<close>

definition put_run :: "backtest_run \<Rightarrow> run_tables \<Rightarrow> run_tables" where
  "put_run r t = t\<lparr>rt_runs := map (\<lambda>x. if bt_id x = bt_id r then r else x) (rt_runs t)\<rparr>"

definition put_stage :: "run_stage \<Rightarrow> run_stage list \<Rightarrow> run_stage list" where
  "put_stage g gs = (if list_ex (\<lambda>x. rg_run x = rg_run g \<and> rg_code x = rg_code g) gs
     then map (\<lambda>x. if rg_run x = rg_run g \<and> rg_code x = rg_code g then g else x) gs else gs @ [g])"

definition set_stage ::
    "uuid \<Rightarrow> string \<Rightarrow> string \<Rightarrow> string option \<Rightarrow> datetime \<Rightarrow> run_tables \<Rightarrow> run_tables" where
  "set_stage run code status err now t =
     (let old = List.find (\<lambda>x. rg_run x = run \<and> rg_code x = code) (rt_stages t);
          started = (case old of None \<Rightarrow> if status = ''RUNNING'' then Some now else None
            | Some g \<Rightarrow> (case rg_started g of Some s \<Rightarrow> Some s | None \<Rightarrow> Some now));
          ended = (if status \<noteq> ''RUNNING'' then Some now else None)
      in t\<lparr>rt_stages := put_stage \<lparr>rg_run = run, rg_code = code, rg_status = status, rg_started = started,
           rg_ended = ended, rg_error = err\<rparr> (rt_stages t)\<rparr>)"

definition owned_run :: "run_tables \<Rightarrow> string \<Rightarrow> uuid \<Rightarrow> backtest_run option" where
  "owned_run t no owner = List.find (\<lambda>r. bt_no r = no \<and> bt_owner r = owner) (rt_runs t)"

text \<open>The run is set aside: its inputs are not there, not the pinned ones, or hold no market.\<close>

definition refuse :: "string \<Rightarrow> datetime \<Rightarrow> backtest_run \<Rightarrow> run_tables \<Rightarrow> backtest_run \<times> run_tables" where
  "refuse why now r t =
     (let r' = r\<lparr>bt_status := ''UNAVAILABLE'', bt_usable := False, bt_summary := Some (Unusable why)\<rparr>
      in (r', set_stage (bt_id r) ''data_quality'' ''UNAVAILABLE'' (Some why) now (put_run r' t)))"

definition run_inputs ::
    "run_tables \<Rightarrow> uuid \<Rightarrow> backtest_run \<Rightarrow> prerequisites option" where
  "run_inputs t owner r =
     (case ordered_batch_ids (Some (bt_batch r)) (Some (pc_batch_ids (bt_pinned r))) of
        Inl e \<Rightarrow> None
      | Inr ids \<Rightarrow>
          (case (find_all (owned_batch t owner) ids, stored_strategy t (bt_strategy r), stored_cost t (bt_cost r),
                 stored_rule t (bt_rule r)) of
             (Some bs, Some s, Some c, Some l) \<Rightarrow>
               if sv_status s = ''PUBLISHED'' \<and> rl_status l = ''PUBLISHED''
               then Some \<lparr>pq_batches = bs, pq_strategy = s, pq_cost = c, pq_rule = l\<rparr> else None
           | _ \<Rightarrow> None))"

text \<open>The comparison of what the run was created with and what the tables hold now.\<close>

definition inputs_match :: "run_env \<Rightarrow> run_tables \<Rightarrow> backtest_run \<Rightarrow> prerequisites \<Rightarrow> bool" where
  "inputs_match env t r pq \<longleftrightarrow>
     (let pin = bt_pinned r; cost = cost_config_snapshot (pq_cost pq) in
      (case get_strategy_definition (pc_strategy_type pin) of
         Inl e \<Rightarrow> False | Inr d \<Rightarrow> implementation_version d = pc_implementation pin) \<and>
      batch_set_error (rt_market t) (pq_batches pq) (bt_start r) (bt_end r) = None \<and>
      rl_version (pq_rule pq) = pc_rule_version pin \<and> same_dict (rl_config (pq_rule pq)) (pc_rule_config pin) \<and>
      re_hash_rule env (pc_rule_config pin) = pc_rule_hash pin \<and>
      same_dict cost (pc_cost_config pin) \<and> hash_cost (re_digests env) cost = pc_cost_hash pin \<and>
      backtest_data_snapshot env (rt_market t) (pq_batches pq) (bt_end r) = pc_data pin)"

definition mismatch_reason :: string where
  "mismatch_reason = ''snapshotted implementation is unavailable because strategy, rule, cost, or data inputs no longer match''"

definition run_cutoff :: "backtest_run \<Rightarrow> prerequisites \<Rightarrow> datetime" where
  "run_cutoff r pq = chosen_cutoff (Some (pc_cutoff (bt_pinned r))) (pq_batches pq)"

definition run_window :: "backtest_run \<Rightarrow> prerequisites \<Rightarrow> history_window" where
  "run_window r pq = \<lparr>hw_ids = map ba_id (pq_batches pq), hw_start = bt_start r, hw_end = bt_end r,
     hw_cutoff = run_cutoff r pq\<rparr>"

text \<open>Why the market of the run cannot be replayed, if it cannot.\<close>

definition market_problem :: "run_tables \<Rightarrow> backtest_run \<Rightarrow> prerequisites \<Rightarrow> string option" where
  "market_problem t r pq =
     (let w = run_window r pq; m = rt_market t in
      if cutoff_invalid (run_cutoff r pq) (pq_batches pq)
      then Some ''information cutoff is later than the data batch cutoff''
      else if run_trade_dates m w = [] then Some ''authoritative trading calendar is unavailable''
      else if requested_rows m w = []
      then Some ''backtest data contains no bars available before the information cutoff''
      else (case missing_benchmark m w (bt_benchmark r) of
          d # _ \<Rightarrow> Some (''benchmark market snapshot is unavailable on '' @ isoformat d)
        | [] \<Rightarrow> None))"

definition run_request :: "run_env \<Rightarrow> run_tables \<Rightarrow> backtest_run \<Rightarrow> prerequisites \<Rightarrow> engine_request" where
  "run_request env t r pq =
     (let w = run_window r pq; m = rt_market t; pin = bt_pinned r; s = pq_strategy pq;
          current = backtest_data_snapshot env m (pq_batches pq) (bt_end r) in
      \<lparr>er_config = \<lparr>bc_start = bt_start r, bc_end = bt_end r, initial_equity = bt_equity r,
         benchmark = bt_benchmark r, training_end = bt_train_end r, validation_end = bt_valid_end r,
         execution_mode = bt_mode r, fill_mode = ''FULL_OR_NONE'', oos_start = bt_oos r\<rparr>,
       er_bars = market_bars m w, er_data_version = sn_set_hash current,
       er_strategy_version = sv_code s @ '':'' @ sv_version s, er_strategy_type = pc_strategy_type pin,
       er_parameters = pc_parameters pin, er_cutoff = run_cutoff r pq,
       er_implementation_version = pc_implementation pin, er_trading_dates = run_trade_dates m w,
       er_rule_version = pc_rule_version pin, er_rule_config = Some (pc_rule_config pin),
       er_secondary = Some (bt_secondary r), er_universe_enabled = bt_universe r,
       er_suspended = suspended_by_date m w, er_batches = sn_batches current,
       er_cost_config = Some (cost_config_snapshot (pq_cost pq)), er_cost_hash = Some (pc_cost_hash pin),
       er_cost_model = cost_model_of (pq_cost pq), er_limits = None\<rparr>)"

datatype claim = Missing | Stored backtest_run | Replay backtest_run engine_request

text \<open>The first transaction of \<open>execute_run\<close>, from the comparison of the inputs on.\<close>

definition start_run :: "run_env \<Rightarrow> run_tables \<Rightarrow> backtest_run \<Rightarrow> prerequisites \<Rightarrow> datetime \<Rightarrow> claim \<times> run_tables" where
  "start_run env t r pq now =
     (case market_problem t r pq of
        Some why \<Rightarrow> (case refuse why now r t of (r', t') \<Rightarrow> (Stored r', t'))
      | None \<Rightarrow>
          let r' = r\<lparr>bt_status := ''RUNNING''\<rparr>;
              t' = set_stage (bt_id r) ''replay'' ''RUNNING'' None now
                     (set_stage (bt_id r) ''data_quality'' ''SUCCEEDED'' None now (put_run r' t))
          in (Replay r' (run_request env t r pq), t'))"

definition begin_run :: "run_env \<Rightarrow> run_tables \<Rightarrow> string \<Rightarrow> uuid \<Rightarrow> datetime \<Rightarrow> (claim \<times> run_tables) res" where
  "begin_run env t no owner now =
     (case owned_run t no owner of
        None \<Rightarrow> Inr (Missing, t)
      | Some r \<Rightarrow>
          if bt_status r = ''SUCCEEDED'' then Inr (Stored r, t)
          else if bt_status r = ''RUNNING'' then Inl (StateConflict ''backtest run is already executing'')
          else (case run_inputs t owner r of
              None \<Rightarrow> (case refuse ''backtest prerequisites are unavailable'' now r t of (r', t') \<Rightarrow> Inr (Stored r', t'))
            | Some pq \<Rightarrow>
                if \<not> inputs_match env t r pq
                then (case refuse mismatch_reason now r t of (r', t') \<Rightarrow> Inr (Stored r', t'))
                else Inr (start_run env t r pq now)))"

section \<open>Storing the result\<close>

definition stored_risk :: "dec \<Rightarrow> dec \<Rightarrow> string \<Rightarrow> dec \<Rightarrow> string" where
  "stored_risk warning review risk dd =
     (if review \<le> dd then ''REVIEW_REQUIRED''
      else if warning \<le> dd \<and> risk = ''NORMAL'' then ''STOP_NEW'' else risk)"

fun risk_states :: "dec \<Rightarrow> dec \<Rightarrow> string \<Rightarrow> ledger_snapshot list \<Rightarrow> string list" where
  "risk_states warning review risk [] = []"
| "risk_states warning review risk (s # ss) =
     (let risk' = stored_risk warning review risk (ls_drawdown s) in risk' # risk_states warning review risk' ss)"

definition stored_snapshots ::
    "backtest_run \<Rightarrow> dec \<Rightarrow> dec \<Rightarrow> date list \<Rightarrow> ledger_snapshot list \<Rightarrow> stored_snapshot list" where
  "stored_snapshots r warning review dates snaps =
     map (\<lambda>(d, s, risk). \<lparr>ss_run = bt_id r, ss_account = bt_owner r, ss_date = d, ss_cash = ls_cash s,
         ss_market_value = dsub (equity s) (ls_cash s), ss_equity = equity s, ss_high_water = ls_high_water_mark s,
         ss_drawdown = ls_drawdown s, ss_risk = risk\<rparr>)
       (zip dates (zip snaps (risk_states warning review ''NORMAL'' snaps)))"

definition stored_points :: "backtest_run \<Rightarrow> backtest_result \<Rightarrow> stored_point list" where
  "stored_points r res = concat (map (\<lambda>s. map (\<lambda>(d, v).
       \<lparr>sp_run = bt_id r, sp_series = series_code s, sp_date = d, sp_value = v, sp_availability = availability s\<rparr>)
     (points s)) (br_series res))"

definition metric_values :: "segment_metrics \<Rightarrow> (string \<times> dec option) list" where
  "metric_values g = (let m = sm_metrics g in
     [(''total_return'', total_return m), (''max_drawdown'', max_drawdown m), (''sharpe'', sharpe m)] @
     (if sm_series g = ''STRATEGY''
      then [(''win_rate'', win_rate m), (''profit_loss_ratio'', profit_loss_ratio m),
            (''average_holding_period'', average_holding_period m), (''turnover'', turnover m),
            (''total_cost'', total_cost m)] else []))"

definition stored_metrics :: "backtest_run \<Rightarrow> backtest_result \<Rightarrow> stored_metric list" where
  "stored_metrics r res = concat (map (\<lambda>g. List.map_filter (\<lambda>(code, v). map_option (\<lambda>x.
       \<lparr>pm_run = bt_id r, pm_series = sm_series g, pm_segment = sm_segment g, pm_code = code, pm_value = x\<rparr>) v)
     (metric_values g)) (br_segments res))"

text \<open>\<open>Decimal(str(rule_config[key]))\<close>; a number that is not finite is left out of the model.\<close>

definition rule_threshold :: "row \<Rightarrow> string \<Rightarrow> dec res" where
  "rule_threshold config key = (case map_of config key of
     None \<Rightarrow> Inl (KeyError key)
   | Some v \<Rightarrow> (case decimal_of v of Some (Finite d) \<Rightarrow> Inr d | _ \<Rightarrow> Inl InvalidOperation))"

definition report_path :: "backtest_run \<Rightarrow> string" where
  "report_path r = ''reports/'' @ bt_no r @ ''.json''"

text \<open>The dates the code gives to the snapshots: those of the bars, not the ones the engine used.\<close>

definition snapshot_dates :: "backtest_run \<Rightarrow> engine_request \<Rightarrow> date list" where
  "snapshot_dates r q = sorted_set (filter (\<lambda>d. bt_start r \<le> d \<and> d \<le> bt_end r) (map mb_date (er_bars q)))"

definition store_result ::
    "engine_request \<Rightarrow> backtest_result \<Rightarrow> datetime \<Rightarrow> backtest_run \<Rightarrow> run_tables \<Rightarrow> (backtest_run \<times> run_tables) res" where
  "store_result q res now r t =
     (let r' = r\<lparr>bt_status := ''SUCCEEDED'', bt_usable := available (br_metrics res),
             bt_hash := Some (br_snapshot_hash res), bt_summary := Some (Replayed res (report_path r))\<rparr>;
          t' = set_stage (bt_id r) ''metrics'' ''SUCCEEDED'' None now
                 (set_stage (bt_id r) ''replay'' ''SUCCEEDED'' None now (put_run r' t));
          config = (case er_rule_config q of None \<Rightarrow> [] | Some c \<Rightarrow> c)
      in andThen (rule_threshold config ''drawdown_stop_new'') (\<lambda>warning.
         andThen (rule_threshold config ''drawdown_review_required'') (\<lambda>review.
           Inr (r', t'\<lparr>
             rt_snapshots := rt_snapshots t @
               stored_snapshots r' warning review (snapshot_dates r' q) (br_ledger_snapshots res),
             rt_points := rt_points t @ stored_points r' res,
             rt_metrics := rt_metrics t @ stored_metrics r' res,
             rt_reports := rt_reports t @ [(bt_id r', report_path r', br_snapshot_hash res)]\<rparr>))))"

text \<open>\<open>type(exc).__name__\<close> and \<open>str(exc)\<close> of the exceptions of the engine are an argument.\<close>

definition fail_run ::
    "(py_error \<Rightarrow> string \<times> string) \<Rightarrow> py_error \<Rightarrow> datetime \<Rightarrow> backtest_run \<Rightarrow> run_tables \<Rightarrow> backtest_run \<times> run_tables" where
  "fail_run look e now r t =
     (let status = (case e of BenchmarkUnavailable _ \<Rightarrow> ''UNAVAILABLE'' | _ \<Rightarrow> ''FAILED'');
          r' = r\<lparr>bt_status := status, bt_usable := False,
             bt_summary := Some (Unusable (fst (look e) @ '': '' @ snd (look e)))\<rparr>
      in (r', set_stage (bt_id r) ''replay'' status (Some (snd (look e))) now (put_run r' t)))"

text \<open>The second transaction, after the engine returned or raised.\<close>

definition finish_run ::
    "(py_error \<Rightarrow> string \<times> string) \<Rightarrow> run_tables \<Rightarrow> string \<Rightarrow> uuid \<Rightarrow> engine_request \<Rightarrow> backtest_result res
      \<Rightarrow> datetime \<Rightarrow> (backtest_run option \<times> run_tables) res" where
  "finish_run look t no owner q outcome now =
     (case owned_run t no owner of
        None \<Rightarrow> Inr (None, t)
      | Some r \<Rightarrow> (case outcome of
            Inl e \<Rightarrow> (case fail_run look e now r t of (r', t') \<Rightarrow> Inr (Some r', t'))
          | Inr res \<Rightarrow> andThen (store_result q res now r t) (\<lambda>(r', t'). Inr (Some r', t'))))"

definition execute_run ::
    "run_env \<Rightarrow> 'f float_ops \<Rightarrow> (py_error \<Rightarrow> string \<times> string) \<Rightarrow> run_tables \<Rightarrow> string \<Rightarrow> uuid \<Rightarrow> datetime \<Rightarrow> datetime
      \<Rightarrow> (backtest_run option \<times> run_tables) res \<times> run_tables" where
  "execute_run env fo look t no owner now later =
     (case begin_run env t no owner now of
        Inl e \<Rightarrow> (Inl e, t)
      | Inr (Missing, t') \<Rightarrow> (Inr (None, t'), t')
      | Inr (Stored r, t') \<Rightarrow> (Inr (Some r, t'), t')
      | Inr (Replay r q, t') \<Rightarrow>
          (case finish_run look t' no owner q (engine_run fo (re_digests env) q) later of
             Inl e \<Rightarrow> (Inl e, t')
           | Inr (reply, t'') \<Rightarrow> (Inr (reply, t''), t'')))"

text \<open>
  The stored risk states are not always those of the monitor the engine trades under: booking a fill
  takes a snapshot at cost, which may raise the high-water mark of the ledger above every equity at
  market prices. Here the equity is 1000 before and after the sale, and the monitor sees no drawdown.
\<close>

definition sample_marked :: ledger where
  "sample_marked = \<lparr>cash = 500, positions =
     [(''A'', \<lparr>lp_symbol = ''A'', lp_quantity = 1, cost_basis = 250, lp_available = 1\<rparr>),
      (''B'', \<lparr>lp_symbol = ''B'', lp_quantity = 1, cost_basis = 350, lp_available = 1\<rparr>)],
     entries = [], high_water = 1000\<rparr>"

lemma fills_raise_high_water:
  "andThen (snapshot [(''A'', 400), (''B'', 100)] sample_marked) (\<lambda>(s, l). Inr (equity s, ls_drawdown s)) = Inr (1000, 0)"
  "andThen (apply_fill sample_marked ''SELL'' ''A'' 1 400 0) (\<lambda>l. andThen (snapshot [(''B'', 100)] l) (\<lambda>(s, l').
     Inr (equity s, stored_risk (6/100) (8/100) ''NORMAL'' (ls_drawdown s)))) = Inr (1000, ''REVIEW_REQUIRED'')"
  "andThen (new_monitor 1000 (6/100) (8/100)) (\<lambda>m. andThen (observe 1000 m) (\<lambda>m'. Inr (dm_state m'))) = Inr NORMAL"
  by (simp_all add: snapshot_def sample_marked_def add_mark_def dict_get_def dadd_def dsub_def dmul_def ddiv_def Let_def
      apply_fill_def fill_effect_def sell_effect_def position_def write_position_def stored_risk_def new_monitor_def
      observe_def classify_def upper_def upper_char_def)

section \<open>Lemmas\<close>

lemma find_holds: "List.find P xs = Some x \<Longrightarrow> P x \<and> x \<in> set xs"
  by (auto simp: find_Some_iff)

lemma stored_batch_id: "stored_batch t i = Some b \<Longrightarrow> ba_id b = i"
  unfolding stored_batch_def by (drule find_holds) simp

lemma stored_ids:
  "stored_strategy t i = Some s \<Longrightarrow> sv_id s = i" "stored_cost t i = Some c \<Longrightarrow> cc_id c = i"
  "stored_rule t i = Some l \<Longrightarrow> rl_id l = i"
  unfolding stored_strategy_def stored_cost_def stored_rule_def by (drule find_holds, simp)+

lemma owned_batch_Some:
  assumes "owned_batch t owner i = Some b"
  shows "ba_id b = i \<and> ba_owner b = Some owner \<and> usable_batch b"
  using assms stored_batch_id by (auto simp: owned_batch_def split: option.splits if_splits)

lemma find_all_Some:
  assumes "find_all f xs = Some ys"
  shows "ys = map (the \<circ> f) xs" and "\<And>x. x \<in> set xs \<Longrightarrow> f x = Some (the (f x))"
  using assms by (auto simp: find_all_def list_all_iff split: if_splits)

lemma find_owned:
  assumes "find_all (owned_batch t owner) ids = Some bs"
  shows "map ba_id bs = ids" and "list_all (\<lambda>b. ba_owner b = Some owner \<and> usable_batch b) bs"
proof -
  have each: "ba_id (the (owned_batch t owner i)) = i \<and> ba_owner (the (owned_batch t owner i)) = Some owner \<and>
      usable_batch (the (owned_batch t owner i))" if "i \<in> set ids" for i
    using owned_batch_Some[OF find_all_Some(2)[OF assms that]] .
  show "map ba_id bs = ids" unfolding find_all_Some(1)[OF assms] using each by (simp add: map_idI)
  show "list_all (\<lambda>b. ba_owner b = Some owner \<and> usable_batch b) bs"
    unfolding find_all_Some(1)[OF assms] using each by (simp add: list_all_iff)
qed

lemma ordered_ids:
  assumes "ordered_batch_ids primary ids = Inr typed"
  shows "typed \<noteq> []" and "distinct typed" and "\<And>i. i \<in> set typed \<Longrightarrow> \<exists>s. parse_uuid s = Some i"
proof -
  define texts where "texts = (case ids of Some (v # vs) \<Rightarrow> map parse_uuid (v # vs)
     | _ \<Rightarrow> [case parse_uuid (case primary of None \<Rightarrow> '''' | Some s \<Rightarrow> s) of None \<Rightarrow> None | Some p \<Rightarrow> parse_uuid p])"
  have t: "typed = map the texts" "None \<notin> set texts" "distinct typed"
    using assms unfolding ordered_batch_ids_def Let_def texts_def [symmetric]
    by (auto split: option.splits if_splits)
  have read: "\<exists>s. parse_uuid s = Some i" if "Some i \<in> set texts" for i
    using that unfolding texts_def by (auto split: option.splits list.splits)
  have "texts \<noteq> []" unfolding texts_def by (auto split: option.splits list.splits)
  then show ne: "typed \<noteq> []" using t(1) by simp
  show each: "\<exists>s. parse_uuid s = Some i" if i: "i \<in> set typed" for i
  proof -
    obtain x where x: "x \<in> set texts" "i = the x" using i unfolding t(1) by auto
    then have "x \<noteq> None" using t(2) by metis
    then obtain j where "x = Some j" by blast
    then show ?thesis using x by (intro read) simp
  qed
  show "distinct typed" by (rule t(3))
qed

lemma ordered_again:
  assumes "ordered_batch_ids primary ids = Inr typed"
  shows "ordered_batch_ids (Some (hd typed)) (Some typed) = Inr typed"
proof -
  have again: "parse_uuid i = Some i" if "i \<in> set typed" for i
    using ordered_ids(3)[OF assms that] parse_uuid_ok uuid_round_trip by blast
  obtain a as where t: "typed = a # as" using ordered_ids(1)[OF assms] by (cases typed) auto
  have p: "map parse_uuid typed = map Some typed" using again by simp
  have "parse_uuid a = Some a" using again t by simp
  moreover have "map the (map parse_uuid typed) = typed" unfolding p by (simp add: comp_def)
  moreover have "None \<notin> set (map parse_uuid typed)" unfolding p by auto
  moreover have "distinct typed" by (rule ordered_ids(2)[OF assms])
  ultimately show ?thesis unfolding ordered_batch_ids_def Let_def by (simp add: t)
qed

text \<open>What is known of a run that was just made.\<close>

definition made_of ::
    "run_env \<Rightarrow> run_tables \<Rightarrow> uuid \<Rightarrow> run_payload \<Rightarrow> backtest_run \<Rightarrow> split_dates \<Rightarrow> prerequisites \<Rightarrow> strategy_definition \<Rightarrow> bool" where
  "made_of env t owner p r sd pq d \<longleftrightarrow>
     (\<exists>ids. ordered_batch_ids (rp_batch p) (rp_batches p) = Inr ids \<and> find_all (owned_batch t owner) ids = Some (pq_batches pq)) \<and>
     (\<exists>s. published_strategy t owner s = Some (pq_strategy pq)) \<and>
     stored_cost t (config_id env (rp_cost p)) = Some (pq_cost pq) \<and>
     stored_rule t (config_id env (rp_rule p)) = Some (pq_rule pq) \<and> rl_status (pq_rule pq) = ''PUBLISHED'' \<and>
     get_strategy_definition (sv_type (pq_strategy pq)) = Inr d \<and>
     batch_set_error (rt_market t) (pq_batches pq) (sd_start sd) (sd_end sd) = None \<and>
     (\<exists>i no now. r = new_run env owner i no p sd pq
        (pin_config env t pq d (chosen_cutoff (rp_cutoff p) (pq_batches pq)) (sd_end sd)) now)"

lemma prerequisites_found:
  assumes "run_prerequisites env t owner ids strategy_id p = Inr pq"
  shows "find_all (owned_batch t owner) ids = Some (pq_batches pq)"
    and "published_strategy t owner strategy_id = Some (pq_strategy pq)"
    and "stored_cost t (config_id env (rp_cost p)) = Some (pq_cost pq)"
    and "stored_rule t (config_id env (rp_rule p)) = Some (pq_rule pq)" and "rl_status (pq_rule pq) = ''PUBLISHED''"
  using assms
  by (auto simp: run_prerequisites_def known_config_def andThen_Inr_iff split: option.splits if_splits)

lemma create_run_new:
  assumes "create_run env t owner p i drawn now = Inr (r, t')" and "r \<notin> set (rt_runs t)"
  obtains sd pq d where "made_of env t owner p r sd pq d" and "run_numbered t (bt_no r) = None"
    and "t' = t\<lparr>rt_users := List.insert owner (rt_users t), rt_runs := rt_runs t @ [r]\<rparr>"
proof -
  obtain ids where ids: "ordered_batch_ids (rp_batch p) (rp_batches p) = Inr ids"
    using assms(1) unfolding create_run_def by (elim andThen_InrE)
  obtain sid where sid: "parse_uuid (rp_strategy p) = Some sid"
    using assms(1) ids by (auto simp: create_run_def split: option.splits)
  obtain sd where sd: "read_split p = Inr sd"
    using assms(1) ids sid by (auto simp: create_run_def elim!: andThen_InrE)
  obtain pq where pq: "run_prerequisites env t owner ids sid p = Inr pq"
    using assms(1) ids sid sd by (auto simp: create_run_def elim!: andThen_InrE)
  obtain d where base: "map_of (rl_config (pq_rule pq)) ''baseline'' = Some (PText ''engine-v2'')"
    and d: "get_strategy_definition (sv_type (pq_strategy pq)) = Inr d"
    using assms(1) ids sid sd pq by (auto simp: create_run_def elim!: andThen_InrE split: if_splits)
  have err: "batch_set_error (rt_market t) (pq_batches pq) (sd_start sd) (sd_end sd) = None"
    using assms(1) ids sid sd pq base d by (auto simp: create_run_def split: option.splits)
  let ?pin = "pin_config env t pq d (chosen_cutoff (rp_cutoff p) (pq_batches pq)) (sd_end sd)"
  have step: "insert_run env t owner i drawn p sd pq ?pin now = Inr (r, t')"
    using assms(1) ids sid sd pq base d err by (simp add: create_run_def Let_def split: if_splits)
  then obtain no where r: "r = new_run env owner i no p sd pq ?pin now" and none: "run_numbered t (bt_no r) = None"
    and t': "t' = t\<lparr>rt_users := List.insert owner (rt_users t), rt_runs := rt_runs t @ [r]\<rparr>"
    using assms(2) find_holds[of _ "rt_runs t"]
    by (auto simp: insert_run_def Let_def run_numbered_def split: option.splits if_splits)
  have "made_of env t owner p r sd pq d"
    unfolding made_of_def using ids prerequisites_found[OF pq] d err r by blast
  then show thesis using that none t' by blast
qed

text \<open>Tables that hold the same inputs.\<close>

definition same_inputs :: "run_tables \<Rightarrow> run_tables \<Rightarrow> bool" where
  "same_inputs t t' \<longleftrightarrow> rt_market t' = rt_market t \<and> rt_strategies t' = rt_strategies t \<and>
     rt_costs t' = rt_costs t \<and> rt_rules t' = rt_rules t"

lemma made_inputs:
  assumes "made_of env t owner p r sd pq d" and "same_inputs t t'"
  shows "run_inputs t' owner r = Some pq"
proof -
  obtain ids s i no now where ids: "ordered_batch_ids (rp_batch p) (rp_batches p) = Inr ids"
    and bs: "find_all (owned_batch t owner) ids = Some (pq_batches pq)"
    and s: "published_strategy t owner s = Some (pq_strategy pq)"
    and r: "r = new_run env owner i no p sd pq
        (pin_config env t pq d (chosen_cutoff (rp_cutoff p) (pq_batches pq)) (sd_end sd)) now"
    using assms(1) unfolding made_of_def by blast
  have l: "stored_cost t (config_id env (rp_cost p)) = Some (pq_cost pq)"
    "stored_rule t (config_id env (rp_rule p)) = Some (pq_rule pq)" "rl_status (pq_rule pq) = ''PUBLISHED''"
    using assms(1) unfolding made_of_def by blast+
  have same: "owned_batch t' owner = owned_batch t owner" "stored_strategy t' = stored_strategy t"
    "stored_cost t' = stored_cost t" "stored_rule t' = stored_rule t"
    using assms(2) by (auto simp: same_inputs_def owned_batch_def[abs_def] stored_batch_def stored_strategy_def[abs_def]
        stored_cost_def[abs_def] stored_rule_def[abs_def])
  have batch_ids: "map ba_id (pq_batches pq) = ids" by (rule find_owned(1)[OF bs])
  then have first: "ba_id (hd (pq_batches pq)) = hd ids"
    using ordered_ids(1)[OF ids] by (metis hd_map map_is_Nil_conv)
  have again: "ordered_batch_ids (Some (bt_batch r)) (Some (pc_batch_ids (bt_pinned r))) = Inr ids"
    using ordered_again[OF ids] by (simp add: r new_run_def pin_config_def batch_ids first)
  have st: "stored_strategy t s = Some (pq_strategy pq)" "sv_status (pq_strategy pq) = ''PUBLISHED''"
    using s by (auto simp: published_strategy_def split: option.splits if_splits)
  have "stored_strategy t (bt_strategy r) = Some (pq_strategy pq)"
    using st(1) stored_ids(1)[OF st(1)] by (simp add: r new_run_def)
  moreover have "stored_cost t (bt_cost r) = Some (pq_cost pq)"
    using l(1) stored_ids(2)[OF l(1)] by (simp add: r new_run_def)
  moreover have "stored_rule t (bt_rule r) = Some (pq_rule pq)"
    using l(2) stored_ids(3)[OF l(2)] by (simp add: r new_run_def)
  ultimately show ?thesis using st(2) l(3) by (simp add: run_inputs_def again same bs)
qed

lemma made_match:
  assumes "made_of env t owner p r sd pq d" and "same_inputs t t'"
  shows "inputs_match env t' r pq" and "bt_status r = ''QUEUED''" and "bt_owner r = owner"
  using assms
  by (auto simp: made_of_def inputs_match_def Let_def new_run_def pin_config_def same_inputs_def)

section \<open>The request and the pinned inputs\<close>

definition replays_pinned :: "run_env \<Rightarrow> backtest_run \<Rightarrow> engine_request \<Rightarrow> bool" where
  "replays_pinned env r q \<longleftrightarrow>
     (let pin = bt_pinned r in
      er_strategy_type q = pc_strategy_type pin \<and> er_parameters q = pc_parameters pin \<and>
      er_implementation_version q = pc_implementation pin \<and>
      er_rule_config q = Some (pc_rule_config pin) \<and> re_hash_rule env (pc_rule_config pin) = pc_rule_hash pin \<and>
      (\<exists>c. er_cost_config q = Some c \<and> same_dict c (pc_cost_config pin) \<and> hash_cost (re_digests env) c = pc_cost_hash pin) \<and>
      er_cost_hash q = Some (pc_cost_hash pin) \<and>
      er_data_version q = sn_set_hash (pc_data pin) \<and> er_batches q = sn_batches (pc_data pin) \<and>
      bc_start (er_config q) = bt_start r \<and> bc_end (er_config q) = bt_end r \<and>
      initial_equity (er_config q) = bt_equity r \<and> benchmark (er_config q) = bt_benchmark r \<and>
      list_all (usable q) (er_bars q))"

lemma stored_rows_date: "x \<in> set (stored_rows t w) \<Longrightarrow> br_date (fst x) \<le> hw_end w"
  by (auto simp: stored_rows_def List.map_filter_def split: option.splits)

lemma market_bars_usable:
  assumes "m \<in> set (market_bars t w)"
  shows "mb_date m \<le> hw_end w" and "available_at_or_before (mb_available_at m) (Some (hw_cutoff w))"
proof -
  obtain b s where bs: "(b, s) \<in> set (stored_rows t w)" "available_at_or_before (br_available_at b) (Some (hw_cutoff w))"
    and m: "m = build_market_bar t w (universe_eligibility t w) (b, s)"
    using assms by (auto simp: market_bars_def available_rows_def)
  show "mb_date m \<le> hw_end w" using stored_rows_date[OF bs(1)] by (simp add: m build_date)
  show "available_at_or_before (mb_available_at m) (Some (hw_cutoff w))"
    using bs(2) by (simp add: m build_market_bar_def Let_def split: prod.split)
qed

lemma request_pinned:
  assumes "inputs_match env t r pq"
  shows "replays_pinned env r (run_request env t r pq)"
proof -
  have "list_all (usable (run_request env t r pq)) (er_bars (run_request env t r pq))"
    using market_bars_usable[of _ "rt_market t" "run_window r pq"]
    by (auto simp: list_all_iff usable_def run_request_def Let_def run_window_def)
  then show ?thesis
    using assms unfolding replays_pinned_def
    by (simp add: run_request_def inputs_match_def Let_def)
qed

lemma replays_pinned_cong:
  "bt_pinned r' = bt_pinned r \<Longrightarrow> bt_start r' = bt_start r \<Longrightarrow> bt_end r' = bt_end r \<Longrightarrow> bt_equity r' = bt_equity r \<Longrightarrow>
   bt_benchmark r' = bt_benchmark r \<Longrightarrow> replays_pinned env r' q = replays_pinned env r q"
  by (simp add: replays_pinned_def)

text \<open>What the two transactions do to the table of runs.\<close>

lemma stages_keep [simp]: "rt_runs (set_stage i c st e now t) = rt_runs t" "rt_reports (set_stage i c st e now t) = rt_reports t"
  by (simp_all add: set_stage_def Let_def)

lemma put_run_keeps [simp]: "rt_reports (put_run r t) = rt_reports t"
  by (simp add: put_run_def)

lemma refuse_runs:
  assumes "refuse why now r t = (r', t')"
  shows "rt_runs t' = rt_runs (put_run r' t)" and "rt_reports t' = rt_reports t"
    and "r' = r\<lparr>bt_status := ''UNAVAILABLE'', bt_usable := False, bt_summary := Some (Unusable why)\<rparr>"
  using assms by (auto simp: refuse_def Let_def)

lemma begin_cases:
  assumes "begin_run env t no owner now = Inr (c, t')"
  obtains (Unchanged) "t' = t" and "\<forall>r q. c \<noteq> Replay r q"
  | (Refused) r r' why where "owned_run t no owner = Some r" and "bt_status r \<noteq> ''SUCCEEDED''" and "bt_status r \<noteq> ''RUNNING''"
      and "refuse why now r t = (r', t')" and "c = Stored r'"
  | (Started) r pq where "owned_run t no owner = Some r" and "bt_status r \<noteq> ''SUCCEEDED''" and "bt_status r \<noteq> ''RUNNING''"
      and "inputs_match env t r pq" and "c = Replay (r\<lparr>bt_status := ''RUNNING''\<rparr>) (run_request env t r pq)"
      and "rt_runs t' = rt_runs (put_run (r\<lparr>bt_status := ''RUNNING''\<rparr>) t)" and "rt_reports t' = rt_reports t"
proof (cases "owned_run t no owner")
  case None
  then show ?thesis using assms Unchanged by (simp add: begin_run_def)
next
  case (Some r)
  consider (ended) "bt_status r = ''SUCCEEDED''" | (ready) "bt_status r \<noteq> ''SUCCEEDED''" "bt_status r \<noteq> ''RUNNING''"
    using assms Some by (auto simp: begin_run_def split: if_splits)
  then show ?thesis
  proof cases
    case ended
    then show ?thesis using assms Some Unchanged by (auto simp: begin_run_def)
  next
    case ready
    show ?thesis
    proof (cases "run_inputs t owner r")
      case None
      obtain r' t2 where x: "refuse ''backtest prerequisites are unavailable'' now r t = (r', t2)" by fastforce
      then have "c = Stored r'" "t2 = t'" using assms ready None by (auto simp: begin_run_def Some)
      then show ?thesis using Refused[OF Some ready] x by blast
    next
      case pq: (Some pq)
      show ?thesis
      proof (cases "inputs_match env t r pq")
        case False
        obtain r' t2 where x: "refuse mismatch_reason now r t = (r', t2)" by fastforce
        then have "c = Stored r'" "t2 = t'" using assms ready pq False by (auto simp: begin_run_def Some)
        then show ?thesis using Refused[OF Some ready] x by blast
      next
        case match: True
        have s: "start_run env t r pq now = (c, t')" using assms ready pq match by (simp add: begin_run_def Some)
        show ?thesis
        proof (cases "market_problem t r pq")
          case None
          then show ?thesis using s Started[OF Some ready match] by (auto simp: start_run_def Let_def)
        next
          case why: (Some why)
          obtain r' t2 where x: "refuse why now r t = (r', t2)" by fastforce
          then have "c = Stored r'" "t2 = t'" using s why by (auto simp: start_run_def)
          then show ?thesis using Refused[OF Some ready] x by blast
        qed
      qed
    qed
  qed
qed

lemma finish_cases:
  assumes "finish_run look t no owner q outcome now = Inr (reply, t')"
  obtains (Unchanged) "t' = t"
  | (Failed) r status why where "owned_run t no owner = Some r" and "status \<noteq> ''SUCCEEDED''"
      and "rt_runs t' = rt_runs (put_run (r\<lparr>bt_status := status, bt_usable := False, bt_summary := Some (Unusable why)\<rparr>) t)"
      and "rt_reports t' = rt_reports t"
  | (Succeeded) r res where "owned_run t no owner = Some r" and "outcome = Inr res"
      and "rt_runs t' = rt_runs (put_run (r\<lparr>bt_status := ''SUCCEEDED'', bt_usable := available (br_metrics res),
             bt_hash := Some (br_snapshot_hash res), bt_summary := Some (Replayed res (report_path r))\<rparr>) t)"
      and "rt_reports t' = rt_reports t @ [(bt_id r, report_path r, br_snapshot_hash res)]"
proof (cases "owned_run t no owner")
  case None
  then show ?thesis using assms Unchanged by (simp add: finish_run_def)
next
  case (Some r)
  show ?thesis
  proof (cases outcome)
    case (Inl e)
    define status where "status = (case e of BenchmarkUnavailable _ \<Rightarrow> ''UNAVAILABLE'' | _ \<Rightarrow> ''FAILED'')"
    have "status \<noteq> ''SUCCEEDED''" by (simp add: status_def split: py_error.splits)
    moreover have "rt_runs t' = rt_runs (put_run (r\<lparr>bt_status := status, bt_usable := False,
        bt_summary := Some (Unusable (fst (look e) @ '': '' @ snd (look e)))\<rparr>) t) \<and> rt_reports t' = rt_reports t"
      using assms Inl Some
      by (auto simp: finish_run_def fail_run_def Let_def status_def [symmetric])
    ultimately show ?thesis using Failed[OF Some] by blast
  next
    case (Inr res)
    then obtain r' where "store_result q res now r t = Inr (r', t')"
      using assms Some by (auto simp: finish_run_def elim!: andThen_InrE)
    then show ?thesis
      by (intro Succeeded[OF Some Inr])
        (auto simp: store_result_def Let_def report_path_def elim!: andThen_InrE)
  qed
qed

section \<open>Histories\<close>

text \<open>
  The tables and the executions under way, each with the run it holds and the request it replays.
  An execution may be lost (\<open>Crash\<close>: the process ends, or storing its result fails), and other
  operations may change every other table at any time (\<open>Other\<close>).
\<close>

record run_system =
  sys_tables :: run_tables
  sys_jobs :: "(string \<times> uuid \<times> engine_request) list"

definition with_claim :: "string \<Rightarrow> uuid \<Rightarrow> claim \<Rightarrow> (string \<times> uuid \<times> engine_request) list
    \<Rightarrow> (string \<times> uuid \<times> engine_request) list" where
  "with_claim no owner c jobs = (case c of Replay r q \<Rightarrow> (no, owner, q) # jobs | _ \<Rightarrow> jobs)"

inductive run_step ::
    "run_env \<Rightarrow> 'f float_ops \<Rightarrow> (py_error \<Rightarrow> string \<times> string) \<Rightarrow> run_system \<Rightarrow> run_system \<Rightarrow> bool" for env fo look where
  Create: "\<lbrakk>create_run env (sys_tables s) owner p i drawn now = Inr (r, t'); i \<notin> bt_id ` set (rt_runs (sys_tables s))\<rbrakk> \<Longrightarrow>
   run_step env fo look s (s\<lparr>sys_tables := t'\<rparr>)"
| Begin: "begin_run env (sys_tables s) no owner now = Inr (c, t') \<Longrightarrow>
   run_step env fo look s \<lparr>sys_tables = t', sys_jobs = with_claim no owner c (sys_jobs s)\<rparr>"
| Finish: "\<lbrakk>(no, owner, q) \<in> set (sys_jobs s);
     finish_run look (sys_tables s) no owner q (engine_run fo (re_digests env) q) now = Inr (reply, t')\<rbrakk> \<Longrightarrow>
   run_step env fo look s \<lparr>sys_tables = t', sys_jobs = remove1 (no, owner, q) (sys_jobs s)\<rparr>"
| Crash: "job \<in> set (sys_jobs s) \<Longrightarrow> run_step env fo look s (s\<lparr>sys_jobs := remove1 job (sys_jobs s)\<rparr>)"
| Other: "\<lbrakk>rt_runs t' = rt_runs (sys_tables s); rt_reports t' = rt_reports (sys_tables s)\<rbrakk> \<Longrightarrow>
   run_step env fo look s (s\<lparr>sys_tables := t'\<rparr>)"

inductive run_reach :: "run_env \<Rightarrow> 'f float_ops \<Rightarrow> (py_error \<Rightarrow> string \<times> string) \<Rightarrow> run_system \<Rightarrow> bool" for env fo look where
  Init: "\<lbrakk>rt_runs (sys_tables s) = []; rt_reports (sys_tables s) = []; sys_jobs s = []\<rbrakk> \<Longrightarrow> run_reach env fo look s"
| Step: "run_reach env fo look s \<Longrightarrow> run_step env fo look s s' \<Longrightarrow> run_reach env fo look s'"

text \<open>A stored success is what the engine returns for the pinned inputs of the run.\<close>

definition reproducible :: "run_env \<Rightarrow> 'f float_ops \<Rightarrow> backtest_run \<Rightarrow> bool" where
  "reproducible env fo r \<longleftrightarrow> (\<exists>q res. replays_pinned env r q \<and> engine_run fo (re_digests env) q = Inr res \<and>
     bt_hash r = Some (br_snapshot_hash res) \<and> bt_usable r = available (br_metrics res))"

definition reports_of :: "run_tables \<Rightarrow> backtest_run \<Rightarrow> nat" where
  "reports_of t r = length (filter (\<lambda>x. fst x = bt_id r) (rt_reports t))"

definition run_ok :: "run_env \<Rightarrow> 'f float_ops \<Rightarrow> run_tables \<Rightarrow> backtest_run \<Rightarrow> bool" where
  "run_ok env fo t r \<longleftrightarrow>
     (if bt_status r = ''SUCCEEDED'' then reproducible env fo r \<and> reports_of t r = 1 else reports_of t r = 0)"

definition job_ok :: "run_env \<Rightarrow> run_tables \<Rightarrow> string \<times> uuid \<times> engine_request \<Rightarrow> bool" where
  "job_ok env t = (\<lambda>(no, owner, q). \<exists>r\<in>set (rt_runs t). bt_no r = no \<and> bt_owner r = owner \<and>
     bt_status r = ''RUNNING'' \<and> replays_pinned env r q)"

definition run_system_ok :: "run_env \<Rightarrow> 'f float_ops \<Rightarrow> run_system \<Rightarrow> bool" where
  "run_system_ok env fo s \<longleftrightarrow>
     distinct (map bt_id (rt_runs (sys_tables s))) \<and> distinct (map bt_no (rt_runs (sys_tables s))) \<and>
     fst ` set (rt_reports (sys_tables s)) \<subseteq> bt_id ` set (rt_runs (sys_tables s)) \<and>
     distinct (map fst (sys_jobs s)) \<and> (\<forall>j\<in>set (sys_jobs s). job_ok env (sys_tables s) j) \<and>
     (\<forall>r\<in>set (rt_runs (sys_tables s)). run_ok env fo (sys_tables s) r)"

lemma owned_run_in:
  "owned_run t no owner = Some r \<Longrightarrow> r \<in> set (rt_runs t) \<and> bt_no r = no \<and> bt_owner r = owner"
  unfolding owned_run_def by (drule find_holds) simp

lemma backtest_put_run_ids:
  assumes "r0 \<in> set (rt_runs t)" and "bt_id r = bt_id r0" and "bt_no r = bt_no r0" and "distinct (map bt_id (rt_runs t))"
  shows "map bt_id (rt_runs (put_run r t)) = map bt_id (rt_runs t)" and "map bt_no (rt_runs (put_run r t)) = map bt_no (rt_runs t)"
    and "set (rt_runs (put_run r t)) = insert r (set (rt_runs t) - {r0})"
proof -
  have only: "x = r0" if "x \<in> set (rt_runs t)" "bt_id x = bt_id r" for x
    using assms that by (auto simp: distinct_map dest: inj_onD)
  show "map bt_id (rt_runs (put_run r t)) = map bt_id (rt_runs t)" by (auto simp: put_run_def)
  show "map bt_no (rt_runs (put_run r t)) = map bt_no (rt_runs t)" using only assms(3) by (auto simp: put_run_def)
  show "set (rt_runs (put_run r t)) = insert r (set (rt_runs t) - {r0})"
    using only assms(1,2) by (auto simp: put_run_def)
qed

lemma step_parts:
  assumes "run_system_ok env fo s"
  shows "distinct (map bt_id (rt_runs (sys_tables s)))" and "distinct (map bt_no (rt_runs (sys_tables s)))"
    and "fst ` set (rt_reports (sys_tables s)) \<subseteq> bt_id ` set (rt_runs (sys_tables s))"
    and "distinct (map fst (sys_jobs s))" and "\<And>j. j \<in> set (sys_jobs s) \<Longrightarrow> job_ok env (sys_tables s) j"
    and "\<And>r. r \<in> set (rt_runs (sys_tables s)) \<Longrightarrow> run_ok env fo (sys_tables s) r"
  using assms by (auto simp: run_system_ok_def)

lemma run_by_number:
  assumes "distinct (map bt_no (rt_runs t))" and "r \<in> set (rt_runs t)" and "r' \<in> set (rt_runs t)" and "bt_no r = bt_no r'"
  shows "r = r'"
  using assms by (auto simp: distinct_map dest: inj_onD)

text \<open>
  Replacing one run: the other runs and their reports stay, and executions of other runs are not touched.
\<close>

lemma replace_run_ok:
  assumes ok: "run_system_ok env fo s" and r0: "r0 \<in> set (rt_runs (sys_tables s))"
    and same: "bt_id r = bt_id r0" "bt_no r = bt_no r0"
    and runs: "rt_runs t' = rt_runs (put_run r (sys_tables s))"
    and reports: "rt_reports t' = rt_reports (sys_tables s) @ new" and own: "fst ` set new \<subseteq> {bt_id r0}"
    and r: "run_ok env fo t' r"
    and jobs: "distinct (map fst js)" "\<And>j. j \<in> set js \<Longrightarrow> fst j = bt_no r0 \<Longrightarrow> job_ok env t' j"
      "\<And>j. j \<in> set js \<Longrightarrow> fst j \<noteq> bt_no r0 \<Longrightarrow> j \<in> set (sys_jobs s)"
  shows "run_system_ok env fo \<lparr>sys_tables = t', sys_jobs = js\<rparr>"
proof -
  note parts = step_parts[OF ok]
  note put = backtest_put_run_ids[OF r0 same parts(1)]
  have set: "set (rt_runs t') = insert r (set (rt_runs (sys_tables s)) - {r0})" by (simp add: runs put(3))
  have rest: "run_ok env fo t' x" if "x \<in> set (rt_runs (sys_tables s))" "x \<noteq> r0" for x
  proof -
    have "bt_id x \<noteq> bt_id r0" using that r0 parts(1) by (auto simp: distinct_map dest: inj_onD)
    then have "reports_of t' x = reports_of (sys_tables s) x"
      using own by (auto simp: reports_of_def reports filter_empty_conv)
    then show ?thesis using parts(6)[OF that(1)] by (simp add: run_ok_def)
  qed
  have job: "job_ok env t' j" if j_in: "j \<in> set js" for j
  proof (cases "fst j = bt_no r0")
    case False
    then obtain no owner q x where j: "j = (no, owner, q)" and x: "x \<in> set (rt_runs (sys_tables s))" "bt_no x = no"
      "bt_owner x = owner" "bt_status x = ''RUNNING''" "replays_pinned env x q"
      using parts(5)[OF jobs(3)[OF j_in False]] by (cases j) (auto simp: job_ok_def)
    then have "x \<in> set (rt_runs t')" using False set by auto
    then show ?thesis using j x by (auto simp: job_ok_def)
  qed (use jobs(2)[OF j_in] in simp)
  have "fst ` set (rt_reports t') \<subseteq> bt_id ` set (rt_runs t')"
    using parts(3) own same(1) r0 unfolding reports set by auto
  moreover have "distinct (map bt_id (rt_runs t'))" "distinct (map bt_no (rt_runs t'))"
    using parts(1,2) by (simp_all add: runs put(1,2))
  moreover have "run_ok env fo t' x" if "x \<in> set (rt_runs t')" for x
    using that r rest by (auto simp: set)
  ultimately show ?thesis using jobs(1) job by (simp add: run_system_ok_def)
qed

lemma fewer_jobs:
  assumes "run_system_ok env fo s" and "set js \<subseteq> set (sys_jobs s)" and "distinct (map fst js)"
    and "rt_runs t' = rt_runs (sys_tables s)" and "rt_reports t' = rt_reports (sys_tables s)"
  shows "run_system_ok env fo \<lparr>sys_tables = t', sys_jobs = js\<rparr>"
  using assms by (auto simp: run_system_ok_def job_ok_def run_ok_def reports_of_def)

lemma distinct_fst_remove1: "distinct (map fst js) \<Longrightarrow> distinct (map fst (remove1 j js))"
  by (induction js) (auto dest: notin_set_remove1 simp: image_iff)

lemma idle_run:
  assumes "run_system_ok env fo s" and "r \<in> set (rt_runs (sys_tables s))" and "bt_status r \<noteq> ''RUNNING''"
    and "j \<in> set (sys_jobs s)"
  shows "fst j \<noteq> bt_no r"
proof
  assume same: "fst j = bt_no r"
  obtain x where x: "x \<in> set (rt_runs (sys_tables s))" "bt_no x = fst j" "bt_status x = ''RUNNING''"
    using step_parts(5)[OF assms(1,4)] by (cases j) (auto simp: job_ok_def)
  have "r = x" by (rule run_by_number[OF step_parts(2)[OF assms(1)] assms(2) x(1)]) (simp add: x(2) same)
  then show False using assms(3) x(3) by simp
qed

lemma unreported:
  assumes "run_system_ok env fo s" and "r \<in> set (rt_runs (sys_tables s))" and "bt_status r \<noteq> ''SUCCEEDED''"
  shows "reports_of (sys_tables s) r = 0"
  using step_parts(6)[OF assms(1,2)] assms(3) by (simp add: run_ok_def)

lemma begin_keeps_ok:
  assumes ok: "run_system_ok env fo s" and b: "begin_run env (sys_tables s) no owner now = Inr (c, t')"
  shows "run_system_ok env fo \<lparr>sys_tables = t', sys_jobs = with_claim no owner c (sys_jobs s)\<rparr>"
  using b
proof (cases rule: begin_cases)
  case Unchanged
  then have "with_claim no owner c (sys_jobs s) = sys_jobs s" by (cases c) (auto simp: with_claim_def)
  then show ?thesis using fewer_jobs[OF ok subset_refl step_parts(4)[OF ok]] Unchanged(1) by simp
next
  case (Refused r r' why)
  note r = owned_run_in[OF Refused(1)] and out = refuse_runs[OF Refused(4)]
  show ?thesis
    by (rule replace_run_ok[OF ok, where ?r0.0 = r and r = r' and new = "[]"])
      (use r out Refused step_parts(4,5)[OF ok] unreported[OF ok, of r] idle_run[OF ok, of r] in
        \<open>auto simp: with_claim_def run_ok_def reports_of_def\<close>)
next
  case (Started r pq)
  note r = owned_run_in[OF Started(1)]
  have pinned: "replays_pinned env (r\<lparr>bt_status := ''RUNNING''\<rparr>) (run_request env (sys_tables s) r pq)"
    using request_pinned[OF Started(4)] by (simp add: replays_pinned_def)
  have mem: "r\<lparr>bt_status := ''RUNNING''\<rparr> \<in> set (rt_runs t')"
    using backtest_put_run_ids(3)[of r "sys_tables s" "r\<lparr>bt_status := ''RUNNING''\<rparr>"] r step_parts(1)[OF ok] Started(6) by simp
  have idle: "fst j \<noteq> no" if "j \<in> set (sys_jobs s)" for j
    using idle_run[OF ok _ Started(3) that] r by simp
  have none: "reports_of (sys_tables s) r = 0" using unreported[OF ok _ Started(2)] r by simp
  show ?thesis
  proof (rule replace_run_ok[OF ok, where ?r0.0 = r and r = "r\<lparr>bt_status := ''RUNNING''\<rparr>" and new = "[]"])
    show "distinct (map fst (with_claim no owner c (sys_jobs s)))"
      using idle step_parts(4)[OF ok] by (auto simp: with_claim_def Started(5))
    show "run_ok env fo t' (r\<lparr>bt_status := ''RUNNING''\<rparr>)"
      using none by (simp add: run_ok_def reports_of_def Started(7))
    show "job_ok env t' j" if "j \<in> set (with_claim no owner c (sys_jobs s))" "fst j = bt_no r" for j
    proof -
      have "j = (no, owner, run_request env (sys_tables s) r pq)"
        using that idle[of j] r by (auto simp: with_claim_def Started(5))
      then show ?thesis using mem pinned r unfolding job_ok_def by (intro case_prodI2 bexI[of _ "r\<lparr>bt_status := ''RUNNING''\<rparr>"]) auto
    qed
    show "j \<in> set (sys_jobs s)" if "j \<in> set (with_claim no owner c (sys_jobs s))" "fst j \<noteq> bt_no r" for j
      using that r by (auto simp: with_claim_def Started(5))
  qed (use r Started(6,7) in simp_all)
qed

lemma finish_keeps_ok:
  assumes ok: "run_system_ok env fo s" and job: "(no, owner, q) \<in> set (sys_jobs s)"
    and f: "finish_run look (sys_tables s) no owner q (engine_run fo (re_digests env) q) now = Inr (reply, t')"
  shows "run_system_ok env fo \<lparr>sys_tables = t', sys_jobs = remove1 (no, owner, q) (sys_jobs s)\<rparr>"
proof -
  let ?js = "remove1 (no, owner, q) (sys_jobs s)"
  have js: "distinct (map fst ?js)" "set ?js \<subseteq> set (sys_jobs s)"
    by (rule distinct_fst_remove1[OF step_parts(4)[OF ok]], rule set_remove1_subset)
  have gone: "fst j \<noteq> no" if "j \<in> set ?js" for j
    using that job step_parts(4)[OF ok] by (auto simp: distinct_map inj_on_def)
  obtain x where x: "x \<in> set (rt_runs (sys_tables s))" "bt_no x = no" "bt_status x = ''RUNNING''" "replays_pinned env x q"
    using step_parts(5)[OF ok job] by (auto simp: job_ok_def)
  have the_run: "r = x" if "owned_run (sys_tables s) no owner = Some r" for r
    using owned_run_in[OF that] run_by_number[OF step_parts(2)[OF ok] _ x(1)] x(2) by simp
  have none: "reports_of (sys_tables s) x = 0" using unreported[OF ok x(1)] x(3) by simp
  show ?thesis
    using f
  proof (cases rule: finish_cases)
    case Unchanged
    then show ?thesis using fewer_jobs[OF ok js(2,1)] by simp
  next
    case (Failed r status why)
    note r = the_run[OF Failed(1)]
    show ?thesis
      by (rule replace_run_ok[OF ok x(1), where new = "[]", OF _ _ Failed(3)])
        (use x r js gone none Failed in \<open>auto simp: run_ok_def reports_of_def\<close>)
  next
    case (Succeeded r res)
    note r = the_run[OF Succeeded(1)]
    have "reproducible env fo (r\<lparr>bt_status := ''SUCCEEDED'', bt_usable := available (br_metrics res),
        bt_hash := Some (br_snapshot_hash res), bt_summary := Some (Replayed res (report_path r))\<rparr>)"
      unfolding reproducible_def using x(4) Succeeded(2) r
      by (intro exI[of _ q] exI[of _ res]) (simp add: replays_pinned_def)
    then show ?thesis
      by (intro replace_run_ok[OF ok x(1), OF _ _ Succeeded(3,4)])
        (use x r js gone none in \<open>auto simp: run_ok_def reports_of_def Succeeded(4)\<close>)
  qed
qed

lemma create_inserts:
  assumes "create_run env t owner p i drawn now = Inr x"
  obtains sd pq pin where "insert_run env t owner i drawn p sd pq pin now = Inr x"
  using assms by (auto simp: create_run_def Let_def elim!: andThen_InrE split: option.splits if_splits)

lemma insert_cases:
  assumes "insert_run env t owner i drawn p sd pq pin now = Inr (r, t')"
  obtains (Old) "rt_runs t' = rt_runs t" and "rt_reports t' = rt_reports t"
  | (New) "rt_runs t' = rt_runs t @ [r]" and "rt_reports t' = rt_reports t" and "run_numbered t (bt_no r) = None"
      and "bt_id r = i" and "bt_status r = ''QUEUED''"
  using assms by (auto simp: insert_run_def Let_def new_run_def split: option.splits if_splits)

lemma create_keeps_ok:
  assumes ok: "run_system_ok env fo s" and c: "create_run env (sys_tables s) owner p i drawn now = Inr (r, t')"
    and fresh: "i \<notin> bt_id ` set (rt_runs (sys_tables s))"
  shows "run_system_ok env fo (s\<lparr>sys_tables := t'\<rparr>)"
proof -
  obtain sd pq pin where ins: "insert_run env (sys_tables s) owner i drawn p sd pq pin now = Inr (r, t')"
    using create_inserts[OF c] by blast
  have ext: "s\<lparr>sys_tables := t'\<rparr> = \<lparr>sys_tables = t', sys_jobs = sys_jobs s\<rparr>" by simp
  show ?thesis
    using ins
  proof (cases rule: insert_cases)
    case Old
    then show ?thesis unfolding ext by (intro fewer_jobs[OF ok subset_refl step_parts(4)[OF ok]])
  next
    case New
    have number: "bt_no r \<notin> bt_no ` set (rt_runs (sys_tables s))"
      using New(3) by (auto simp: run_numbered_def find_None_iff)
    have "reports_of t' r = 0"
      using step_parts(3)[OF ok] fresh New(2,4) by (auto simp: reports_of_def filter_empty_conv)
    then have "run_ok env fo t' r" using New(5) by (simp add: run_ok_def)
    moreover have "run_ok env fo t' x" if "x \<in> set (rt_runs (sys_tables s))" for x
    proof -
      have "reports_of t' x = reports_of (sys_tables s) x" by (simp add: reports_of_def New(2))
      then show ?thesis using step_parts(6)[OF ok that] by (simp add: run_ok_def)
    qed
    moreover have "job_ok env t' j" if "j \<in> set (sys_jobs s)" for j
      using step_parts(5)[OF ok that] by (auto simp: job_ok_def New(1))
    moreover have "fst ` set (rt_reports t') \<subseteq> bt_id ` set (rt_runs t')"
      using step_parts(3)[OF ok] by (auto simp: New(1,2))
    ultimately show ?thesis
      unfolding run_system_ok_def using step_parts(1,2,4)[OF ok] fresh number by (simp add: New(1,4) image_iff)
  qed
qed

lemma run_step_keeps_ok:
  assumes "run_step env fo look s s'" and "run_system_ok env fo s"
  shows "run_system_ok env fo s'"
  using assms
proof (cases rule: run_step.cases)
  case (Create owner p i drawn now r t')
  then show ?thesis using create_keeps_ok[OF assms(2)] by simp
next
  case (Begin no owner now c t')
  then show ?thesis using begin_keeps_ok[OF assms(2)] by simp
next
  case (Finish no owner q now reply t')
  then show ?thesis using finish_keeps_ok[OF assms(2)] by simp
next
  case (Crash job)
  have "s\<lparr>sys_jobs := remove1 job (sys_jobs s)\<rparr> = \<lparr>sys_tables = sys_tables s, sys_jobs = remove1 job (sys_jobs s)\<rparr>"
    by simp
  then show ?thesis unfolding Crash(1)
    by (simp only:) (rule fewer_jobs[OF assms(2) set_remove1_subset distinct_fst_remove1[OF step_parts(4)[OF assms(2)]]], simp_all)
next
  case (Other t')
  have "s\<lparr>sys_tables := t'\<rparr> = \<lparr>sys_tables = t', sys_jobs = sys_jobs s\<rparr>" by simp
  then show ?thesis unfolding Other(1)
    by (simp only:) (rule fewer_jobs[OF assms(2) subset_refl step_parts(4)[OF assms(2)] Other(2,3)])
qed

lemma run_reach_ok: "run_reach env fo look s \<Longrightarrow> run_system_ok env fo s"
proof (induction rule: run_reach.induct)
  case (Init s)
  then show ?case by (simp add: run_system_ok_def)
next
  case (Step s s')
  then show ?case by (blast intro: run_step_keeps_ok)
qed

text \<open>A run that succeeded is never changed again.\<close>

lemma put_keeps_other:
  assumes "distinct (map bt_id (rt_runs t))" and "x \<in> set (rt_runs t)" and "r0 \<in> set (rt_runs t)" and "x \<noteq> r0"
    and "bt_id r = bt_id r0"
  shows "x \<in> set (rt_runs (put_run r t))"
proof -
  have "bt_id x \<noteq> bt_id r" using assms by (auto simp: distinct_map dest: inj_onD)
  then show ?thesis using assms(2) by (force simp: put_run_def)
qed

lemma success_stays:
  assumes step: "run_step env fo look s s'" and ok: "run_system_ok env fo s"
    and r: "r \<in> set (rt_runs (sys_tables s))" "bt_status r = ''SUCCEEDED''"
  shows "r \<in> set (rt_runs (sys_tables s'))"
  using step
proof (cases rule: run_step.cases)
  case (Create owner p i drawn now r' t')
  obtain sd pq pin where "insert_run env (sys_tables s) owner i drawn p sd pq pin now = Inr (r', t')"
    using create_inserts[OF Create(2)] by blast
  then show ?thesis using r Create(1) by (cases rule: insert_cases) auto
next
  case (Begin no owner now c t')
  have keep: "r \<in> set (rt_runs (put_run r' (sys_tables s)))"
    if "owned_run (sys_tables s) no owner = Some r0" "bt_status r0 \<noteq> ''SUCCEEDED''" "bt_id r' = bt_id r0" for r0 r'
    using put_keeps_other[OF step_parts(1)[OF ok] r(1) _ _ that(3)] owned_run_in[OF that(1)] r(2) that(2) by auto
  show ?thesis using Begin(2)
  proof (cases rule: begin_cases)
    case Unchanged
    then show ?thesis using r Begin(1) by simp
  next
    case (Refused r0 r' why)
    then show ?thesis using keep[OF Refused(1,2), of r'] refuse_runs[OF Refused(4)] Begin(1) by simp
  next
    case (Started r0 pq)
    then show ?thesis using keep[OF Started(1,2), of "r0\<lparr>bt_status := ''RUNNING''\<rparr>"] Begin(1) by simp
  qed
next
  case (Finish no owner q now reply t')
  obtain x where x: "x \<in> set (rt_runs (sys_tables s))" "bt_no x = no" "bt_status x = ''RUNNING''"
    using step_parts(5)[OF ok Finish(2)] by (auto simp: job_ok_def)
  have keep: "r \<in> set (rt_runs (put_run r' (sys_tables s)))"
    if o: "owned_run (sys_tables s) no owner = Some r0" and i: "bt_id r' = bt_id r0" for r0 r'
  proof -
    have "r0 = x" using owned_run_in[OF o] x by (intro run_by_number[OF step_parts(2)[OF ok]]) auto
    then have "r \<noteq> r0" using x(3) r(2) by auto
    then show ?thesis using put_keeps_other[OF step_parts(1)[OF ok] r(1) _ _ i] owned_run_in[OF o] by simp
  qed
  show ?thesis using Finish(3)
  proof (cases rule: finish_cases)
    case Unchanged
    then show ?thesis using r Finish(1) by simp
  next
    case (Failed r0 status why)
    then show ?thesis using keep[OF Failed(1)] Finish(1) by simp
  next
    case (Succeeded r0 res)
    then show ?thesis using keep[OF Succeeded(1)] Finish(1) by simp
  qed
qed (use r in simp_all)

section \<open>What holds of the runs\<close>

definition sample_owner :: uuid where "sample_owner = sample_id (CHR ''f'')"

definition sample_batch :: data_batch where
  "sample_batch = \<lparr>ba_id = sample_id (CHR ''1''), ba_source = sample_id (CHR ''2''), ba_owner = Some sample_owner,
     ba_dataset = ''DAILY_BAR'', ba_as_of = 738000, ba_available_at = end_of_day 738001, ba_cutoff = end_of_day 738002,
     ba_version = ''v1'', ba_status = ''AVAILABLE'', ba_summary = \<lparr>sm_blocking = False, sm_records = 1, sm_issues = [],
       sm_warnings = [], sm_mapping = Some ''m'', sm_adjustment = Some ''a'', sm_field = Some ''f''\<rparr>,
     ba_content_hash = ''c'', ba_file_hash = None, ba_start = Some 738000, ba_end = Some 738002, ba_records = 1,
     ba_file_location = None, ba_license = None\<rparr>"

definition sample_strategy :: strategy_row where
  "sample_strategy = \<lparr>sv_id = sample_id (CHR ''3''), sv_code = ''trend'', sv_type = ''STRONG_TREND'', sv_version = ''1'',
     sv_status = ''PUBLISHED'', sv_parameters = StrongParams default_strong_config, sv_owner = sample_owner\<rparr>"

definition sample_cost :: cost_row where
  "sample_cost = \<lparr>cc_id = sample_id (CHR ''4''), cc_version = ''cost_v1'', cc_commission_rate = 3/10000,
     cc_commission_min = 5, cc_stamp_tax = 5/10000, cc_transfer_rate = 1/100000, cc_regulatory_rate = 0,
     cc_handling_rate = 0, cc_includes_regulatory = True, cc_includes_handling = True, cc_slippage_buy = 2/1000,
     cc_slippage_sell = 2/1000, cc_price_mode = ''NEXT_OPEN_ADJUSTED'', cc_fill_mode = ''FULL_OR_NONE'', cc_config = []\<rparr>"

definition sample_rule :: rule_row where
  "sample_rule = \<lparr>rl_id = sample_id (CHR ''5''), rl_version = ''rule_v2'', rl_status = ''PUBLISHED'',
     rl_config = (''baseline'', PText ''engine-v2'') # default_rule_config\<rparr>"

definition sample_tables :: run_tables where
  "sample_tables = \<lparr>rt_market = sample_market\<lparr>mt_batches := [sample_batch]\<rparr>, rt_strategies = [sample_strategy],
     rt_costs = [sample_cost], rt_rules = [sample_rule], rt_users = [], rt_runs = [], rt_stages = [],
     rt_snapshots = [], rt_points = [], rt_metrics = [], rt_reports = []\<rparr>"

definition sample_run_env :: run_env where
  "sample_run_env = \<lparr>re_digests = \<lparr>hash_cost = (\<lambda>c. ''h''), hash_input = (\<lambda>x. ''h''), hash_snapshot = (\<lambda>x. ''h'')\<rparr>,
     re_contents = sample_hashing, re_hash_rule = (\<lambda>r. ''h''), re_hash_batches = (\<lambda>b. ''h''),
     re_stable_uuid = (\<lambda>s. s)\<rparr>"

definition sample_payload :: run_payload where
  "sample_payload = \<lparr>rp_batch = Some (sample_id (CHR ''1'')), rp_batches = None, rp_strategy = sample_id (CHR ''3''),
     rp_start = ''2021-07-29'', rp_end = ''2021-07-31'', rp_train_end = ''2021-07-29'', rp_valid_end = ''2021-07-30'',
     rp_oos = ''2021-07-31'', rp_cost = sample_id (CHR ''4''), rp_rule = sample_id (CHR ''5''),
     rp_benchmark = ''600000.SH'', rp_secondary = None, rp_universe = None, rp_cutoff = None, rp_equity = 100000,
     rp_run_no = None\<rparr>"

lemma sample_reading:
  "ordered_batch_ids (rp_batch sample_payload) (rp_batches sample_payload) = Inr [sample_id (CHR ''1'')]"
  "parse_uuid (rp_strategy sample_payload) = Some (sample_id (CHR ''3''))"
  "config_id sample_run_env (rp_cost sample_payload) = sample_id (CHR ''4'')"
  "config_id sample_run_env (rp_rule sample_payload) = sample_id (CHR ''5'')"
  "read_split sample_payload = Inr \<lparr>sd_start = 738000, sd_end = 738002, sd_train_end = 738000,
     sd_valid_end = 738001, sd_oos = 738002\<rparr>"
  by code_simp+

definition sample_prerequisites :: prerequisites where
  "sample_prerequisites = \<lparr>pq_batches = [sample_batch], pq_strategy = sample_strategy, pq_cost = sample_cost,
     pq_rule = sample_rule\<rparr>"

lemma sample_found:
  "run_prerequisites sample_run_env sample_tables sample_owner [sample_id (CHR ''1'')] (sample_id (CHR ''3'')) sample_payload =
     Inr sample_prerequisites"
  unfolding run_prerequisites_def sample_reading
  by (simp add: stored_cost_def stored_rule_def known_config_def find_all_def owned_batch_def stored_batch_def
      published_strategy_def stored_strategy_def sample_tables_def sample_cost_def sample_rule_def sample_batch_def
      sample_strategy_def sample_prerequisites_def usable_batch_def)

lemma sample_set_ok: "batch_set_error (rt_market sample_tables) [sample_batch] 738000 738002 = None"
  by (simp add: batch_set_error_def Let_def sample_tables_def sample_market_simps sample_batch_def proven_conventions_def
      conventions_def overlapping_dates_def tied_groups_def open_dates_def sorted_set_def batch_span_def)

lemma sample_cutoff_ok:
  "\<not> cutoff_invalid (chosen_cutoff (rp_cutoff sample_payload) [sample_batch]) [sample_batch]"
  by (simp add: cutoff_invalid_def chosen_cutoff_def timestamp_of_def maximum_cutoff_def first_max_def sample_payload_def
      sample_batch_def dt_le_def end_of_day_def day_us_def instant_def as_utc_def)

definition sample_run :: backtest_run where
  "sample_run = new_run sample_run_env sample_owner (sample_id (CHR ''9'')) ''run_1'' sample_payload
     \<lparr>sd_start = 738000, sd_end = 738002, sd_train_end = 738000, sd_valid_end = 738001, sd_oos = 738002\<rparr>
     sample_prerequisites
     (pin_config sample_run_env sample_tables sample_prerequisites (registry STRONG_TREND)
        (chosen_cutoff (rp_cutoff sample_payload) [sample_batch]) 738002)
     (end_of_day 738002)"

definition sample_after :: run_tables where
  "sample_after = sample_tables\<lparr>rt_users := [sample_owner], rt_runs := [sample_run]\<rparr>"

lemma sample_created:
  "create_run sample_run_env sample_tables sample_owner sample_payload (sample_id (CHR ''9'')) ''run_1'' (end_of_day 738002) =
     Inr (sample_run, sample_after)"
proof -
  have parts: "pq_batches sample_prerequisites = [sample_batch]" "pq_strategy sample_prerequisites = sample_strategy"
    "sv_type sample_strategy = ''STRONG_TREND''" "pq_rule sample_prerequisites = sample_rule"
    "map_of (rl_config sample_rule) ''baseline'' = Some (PText ''engine-v2'')" "rp_run_no sample_payload = None"
    "rt_users sample_tables = []" "rt_runs sample_tables = []"
    by (simp_all add: sample_prerequisites_def sample_strategy_def sample_rule_def sample_payload_def sample_tables_def)
  have ins: "insert_run sample_run_env sample_tables sample_owner (sample_id (CHR ''9'')) ''run_1'' sample_payload
      \<lparr>sd_start = 738000, sd_end = 738002, sd_train_end = 738000, sd_valid_end = 738001, sd_oos = 738002\<rparr>
      sample_prerequisites (pin_config sample_run_env sample_tables sample_prerequisites (registry STRONG_TREND)
        (chosen_cutoff (rp_cutoff sample_payload) [sample_batch]) 738002) (end_of_day 738002) = Inr (sample_run, sample_after)"
    by (simp add: insert_run_def Let_def parts run_numbered_def sample_after_def sample_run_def)
  show ?thesis
    unfolding create_run_def sample_reading option.case
    by (simp add: sample_reading sample_found parts get_strategy_definition_def sample_set_ok sample_cutoff_ok Let_def ins)
qed

text \<open>
  C6: A run that was just made can be executed: while the market, the strategies and the
  configurations stay as they are, its execution is never refused because a prerequisite is missing
  or because an input no longer matches what was pinned. It is replayed, or set aside for what the
  market lacks.
\<close>

theorem created_run_starts:
  assumes "create_run env t owner p i drawn now = Inr (r, t')" and "r \<notin> set (rt_runs t)"
    and "same_inputs t t2" and "owned_run t2 (bt_no r) owner = Some r"
  shows "\<exists>pq. begin_run env t2 (bt_no r) owner later = Inr (start_run env t2 r pq later) \<and>
    map ba_id (pq_batches pq) = pc_batch_ids (bt_pinned r) \<and> sv_id (pq_strategy pq) = bt_strategy r"
proof -
  obtain sd pq d where m: "made_of env t owner p r sd pq d"
    using create_run_new[OF assms(1,2)] by blast
  have "begin_run env t2 (bt_no r) owner later = Inr (start_run env t2 r pq later)"
    using made_inputs[OF m assms(3)] made_match[OF m assms(3)] by (simp add: begin_run_def assms(4))
  moreover have "map ba_id (pq_batches pq) = pc_batch_ids (bt_pinned r)" "sv_id (pq_strategy pq) = bt_strategy r"
    using m by (auto simp: made_of_def new_run_def pin_config_def)
  ultimately show ?thesis by blast
qed

lemma created_run_starts_witness:
  "\<exists>pq. begin_run sample_run_env sample_after ''run_1'' sample_owner (end_of_day 738003) =
     Inr (start_run sample_run_env sample_after sample_run pq (end_of_day 738003))"
proof -
  have no: "bt_no sample_run = ''run_1''" by (simp add: sample_run_def new_run_def)
  have "\<exists>pq. begin_run sample_run_env sample_after (bt_no sample_run) sample_owner (end_of_day 738003) =
      Inr (start_run sample_run_env sample_after sample_run pq (end_of_day 738003)) \<and>
      map ba_id (pq_batches pq) = pc_batch_ids (bt_pinned sample_run) \<and> sv_id (pq_strategy pq) = bt_strategy sample_run"
  proof (rule created_run_starts[OF sample_created])
    show "sample_run \<notin> set (rt_runs sample_tables)" by (simp add: sample_tables_def)
    show "same_inputs sample_tables sample_after" by (simp add: same_inputs_def sample_after_def)
    show "owned_run sample_after (bt_no sample_run) sample_owner = Some sample_run"
      by (simp add: owned_run_def sample_after_def sample_run_def new_run_def)
  qed
  then show ?thesis unfolding no by blast
qed


text \<open>The run of the example is started.\<close>

lemma sample_inputs: "run_inputs sample_after sample_owner sample_run = Some sample_prerequisites"
proof -
  have again: "ordered_batch_ids (Some (bt_batch sample_run)) (Some (pc_batch_ids (bt_pinned sample_run))) =
      Inr [sample_id (CHR ''1'')]"
    using ordered_again[OF sample_reading(1)]
    by (simp add: sample_run_def new_run_def pin_config_def sample_prerequisites_def sample_batch_def)
  show ?thesis
    unfolding run_inputs_def again
    by (simp add: sample_run_def new_run_def stored_cost_def stored_rule_def find_all_def owned_batch_def stored_batch_def
        stored_strategy_def sample_after_def sample_tables_def sample_cost_def sample_rule_def sample_batch_def
        sample_strategy_def sample_prerequisites_def usable_batch_def)
qed

lemma sample_cutoff_text: "timestamp_of (Some (utc_text (end_of_day 738002))) = Some (end_of_day 738002)"
proof -
  have "utc_text (end_of_day 738002) = ''2021-07-31T15:59:59.999999+00:00''"
    by (simp add: utc_text_def as_utc_def end_of_day_def day_us_def datetime_text_def clock_text_def offset_text_def two_def
        pad0_def int_str_def nat_str_small nat_str_step digit_char_def isoformat_def dt_date_def ord_to_ymd_def Let_def month_at_def
        days_before_month_def char_of_def bit_simps)
  moreover have "datetime_fromisoformat ''2021-07-31T15:59:59.999999+00:00'' = Some (end_of_day 738002)"
  proof -
    have "scan_clock 3 True False ''15:59:59.999999'' = Some ([15, 59, 59], Inr ''999999'')"
      by (simp add: numeral_3_eq_3 take_digits_def starts_with_def is_digit_def digits_value_def)
    then have "parse_clock ''15:59:59.999999'' = Some (([15, 59, 59], 999999), False)"
      by (simp add: parse_clock_def take_digits_def is_digit_def digits_value_def)
    moreover have "scan_clock 3 True False ''00:00'' = Some ([0, 0], Inl False)"
      by (simp add: numeral_3_eq_3 take_digits_def starts_with_def is_digit_def digits_value_def)
    then have "parse_offset False ''00:00'' = Some 0"
      by (simp add: parse_offset_def parse_clock_def clock_seconds_def day_us_def)
    moreover have "date_fromisoformat ''2021-07-31'' = Some 738002" by code_simp
    ultimately show ?thesis
      by (simp add: datetime_fromisoformat_def separator_at_def char_at_def parse_time_def clock_seconds_def
          end_of_day_def day_us_def)
  qed
  ultimately show ?thesis by (simp add: timestamp_of_def end_of_day_def as_utc_def)
qed

lemma sample_window_of:
  "run_window sample_run sample_prerequisites = \<lparr>hw_ids = [sample_id (CHR ''1'')], hw_start = 738000, hw_end = 738002,
     hw_cutoff = end_of_day 738002\<rparr>"
proof -
  have "pc_cutoff (bt_pinned sample_run) = utc_text (end_of_day 738002)"
    by (simp add: sample_run_def new_run_def pin_config_def chosen_cutoff_def timestamp_of_def maximum_cutoff_def
        first_max_def sample_payload_def sample_batch_def)
  then show ?thesis
    by (simp add: run_window_def run_cutoff_def chosen_cutoff_def sample_cutoff_text)
      (simp add: sample_run_def new_run_def sample_prerequisites_def sample_batch_def)
qed

lemma sample_market_ok: "market_problem sample_after sample_run sample_prerequisites = None"
proof -
  let ?w = "\<lparr>hw_ids = [sample_id (CHR ''1'')], hw_start = 738000, hw_end = 738002, hw_cutoff = end_of_day 738002\<rparr>"
  let ?m = "rt_market sample_after"
  have dates: "run_trade_dates ?m ?w = [738000]"
    by (simp add: run_trade_dates_def calendar_dates_def open_dates_def sorted_set_def sample_after_def sample_tables_def
        sample_market_def)
  have rows: "requested_rows ?m ?w = [(sample_stored_bar 738000 10, sample_listing)]"
    by (simp add: requested_rows_def available_rows_def stored_rows_def security_of_def sample_after_def sample_tables_def
        sample_market_def available_iff List.map_filter_def)
      (simp add: sample_stored_bar_def sample_listing_def sample_id_def end_of_day_def instant_def day_us_def)
  have "missing_benchmark ?m ?w (bt_benchmark sample_run) = []"
    by (simp add: missing_benchmark_def dates rows)
      (simp add: sample_listing_def sample_stored_bar_def sample_run_def new_run_def sample_payload_def)
  moreover have "run_cutoff sample_run sample_prerequisites = end_of_day 738002"
    using sample_window_of by (simp add: run_window_def)
  moreover have "\<not> cutoff_invalid (end_of_day 738002) (pq_batches sample_prerequisites)"
    by (simp add: cutoff_invalid_def maximum_cutoff_def first_max_def sample_prerequisites_def sample_batch_def dt_le_def
        end_of_day_def day_us_def instant_def as_utc_def)
  ultimately show ?thesis by (simp add: market_problem_def Let_def sample_window_of dates rows)
qed

lemma sample_started:
  "begin_run sample_run_env sample_after ''run_1'' sample_owner (end_of_day 738003) =
     Inr (start_run sample_run_env sample_after sample_run sample_prerequisites (end_of_day 738003))"
proof -
  obtain sd pq d where m: "made_of sample_run_env sample_tables sample_owner sample_payload sample_run sd pq d"
  proof (rule create_run_new[OF sample_created])
    show "sample_run \<notin> set (rt_runs sample_tables)" by (simp add: sample_tables_def)
  qed (rule that)
  have same: "same_inputs sample_tables sample_after" by (simp add: same_inputs_def sample_after_def)
  have "pq = sample_prerequisites" using made_inputs[OF m same] sample_inputs by simp
  then have match: "inputs_match sample_run_env sample_after sample_run sample_prerequisites"
    using made_match(1)[OF m same] by simp
  have "owned_run sample_after ''run_1'' sample_owner = Some sample_run"
    by (simp add: owned_run_def sample_after_def sample_run_def new_run_def)
  moreover have "bt_status sample_run = ''QUEUED''" by (simp add: sample_run_def new_run_def)
  ultimately show ?thesis by (simp add: begin_run_def sample_inputs match)
qed

definition sample_claim :: "claim \<times> run_tables" where
  "sample_claim = start_run sample_run_env sample_after sample_run sample_prerequisites (end_of_day 738003)"

definition sample_job :: "string \<times> uuid \<times> engine_request" where
  "sample_job = (''run_1'', sample_owner, run_request sample_run_env sample_after sample_run sample_prerequisites)"


end
