(* ===== verification/Spec2Isabelle.thy ===== *)
theory Spec2Isabelle
  imports Lookahead JobSystem Calendar Quality Universe Security DurableRequests DurableJobs DailyPlan DailyFlow Importer DurableAccounts
    OrderPlans MemoryDesk Artifacts CrossCheck ProviderJobs JobQueue BacktestRuns
begin

text \<open>
  Verification of the A-share strategy validation service: a Python service that imports daily market
  data, keeps it with its evidence, replays trading strategies over it, plans the orders of the next
  day for manual execution, and guards the writes around these. Every path below is relative to
  \<open>src/app/\<close>.

  THE PROGRAM AND ITS PARTS. A worker or a request of the HTTP API asks for an import of one trading
  day (\<open>jobs/tasks.py\<close>, \<open>application/tushare_ingestion.py\<close>). The import runs under the idempotent task
  runner (\<open>jobs/idempotency.py\<close>), fetches the provider's rows, archives them without credentials
  (\<open>infrastructure/providers/raw_archive.py\<close>, \<open>infrastructure/storage/parquet_store.py\<close>), compares them
  with a second source (\<open>infrastructure/akshare/validation.py\<close>), passes them through the quality checks
  (\<open>domain/data/quality.py\<close>) and hands them to the research repository
  (\<open>infrastructure/repositories/research.py\<close>). A backtest is created there with its inputs pinned and is
  executed later: the market history is read back as it was known, the event-loop engine
  (\<open>domain/backtest/event_loop.py\<close>) replays the strategy (\<open>domain/strategy/\<close>), sizes positions
  (\<open>domain/risk/allocation.py\<close>), executes orders at the next open (\<open>domain/execution/\<close>), books them
  (\<open>domain/portfolio/ledger.py\<close>), watches the drawdown (\<open>domain/risk/drawdown.py\<close>) and computes metrics.
  The daily run (\<open>application/daily_flow_service.py\<close>) uses the same strategy and pool code to make plans
  that a person confirms and fills by hand. Accounts, sessions and request keys
  (\<open>core/security.py\<close>, \<open>core/contracts.py\<close>, \<open>infrastructure/repositories/runtime.py\<close>) guard every write.

  THEORIES AND CODE. Each theory opens with a note on its own source. In the order of their imports:

  \<^item> Foundations. Prelude: exceptions, the result type \<open>res\<close>, sequencing \<open>andThen\<close>, insertion-ordered
    dictionaries, slices. Decimal28: \<open>decimal.Decimal\<close> under the default context, with the rounding as the
    only inexact operation. PyText, PyValue, Rows: \<open>str\<close> methods, dynamically typed values, rows of data.
    Timestamps, IsoDates: dates as ordinals, datetimes as microseconds with an optional offset, ISO texts
    in both directions. Json: the printer and the parser of JSON texts. Uuids: canonical UUID texts.

  \<^item> Execution and accounting. Costs (\<open>domain/execution/costs.py\<close>), Simulator
    (\<open>domain/execution/simulator.py\<close>), Settlement (the contract of a T+1 ledger) and Ledger
    (\<open>domain/portfolio/ledger.py\<close>), Drawdown (\<open>domain/risk/drawdown.py\<close>), Allocation
    (\<open>domain/risk/allocation.py\<close>).

  \<^item> Strategies. Features, StrongTrend, MATrend, Registry: the files of the same names in
    \<open>domain/strategy/\<close>, \<open>ma_trend.py\<close> and \<open>strong_trend.py\<close> with candidates, ranking, selection and exits.

  \<^item> Engines. Metrics (\<open>domain/backtest/metrics.py\<close>), Runner (\<open>domain/backtest/runner.py\<close>, engine v1), and
    engine v2 of \<open>domain/backtest/event_loop.py\<close> in four steps: EngineInputs (the checks and data before the
    first day), EventLoop (one definition per phase of a day), EngineRun (benchmarks, segments, hashes, the
    run as a whole), Lookahead (what the run may depend on).

  \<^item> Data. Calendar, Quality, Universe, Importer: the files of the same names in \<open>domain/data/\<close>.
    Redaction and Artifacts: the archives and the artifact store. CrossCheck: \<open>compare_ohlcv\<close>.
    Publishing: the import of a day. MarketHistory: what a backtest reads from the research tables.
    BacktestRuns: \<open>create_run\<close> and \<open>execute_run\<close> with the tables they write.

  \<^item> Jobs and settings. JobRuns, JobTasks, JobSystem: records and keys, the task runner over any store, and
    the interleavings of tasks (\<open>jobs/idempotency.py\<close>). DurableJobs: the database store of the same contract.
    ProviderJobs: the entry points of \<open>jobs/tasks.py\<close>. JobQueue: \<open>jobs/queue.py\<close> and
    \<open>jobs/provider_execution.py\<close>. Settings: \<open>load_settings\<close> of \<open>core/config.py\<close>.

  \<^item> Requests and accounts. Idempotency (\<open>core/contracts.py\<close>), DurableRequests, Sessions, DurableAccounts
    (\<open>infrastructure/repositories/runtime.py\<close>), Security (\<open>core/security.py\<close>).

  \<^item> Plans and manual fills. DailyPlan (\<open>application/daily_flow_service.py\<close>), DailyFlow
    (\<open>application/daily_flow.py\<close>), OrderPlans (\<open>confirm_plan\<close> and \<open>create_execution\<close> of the research
    repository), MemoryDesk (the in-memory repository of \<open>api/v1/common.py\<close>).

  HOW CODE BECOMES DEFINITIONS. A dataclass or a row of a table is a \<open>record\<close> with the fields of the
  source, an enumeration a \<open>datatype\<close>; a method that mutates returns the changed record; an exception is
  the left value of a result, one constructor per class in \<open>py_error\<close>, and each \<open>raise\<close>, early return and
  unhandled built-in exception is a branch. Loops over lists are recursion or folds in the order of the
  code. A transaction is one definition: an exception in it gives back the tables as they were, and where
  a session commits between two blocks the model has two definitions with the tables between them.
  Concurrency is a step relation over these atomic operations: \<open>job_reach\<close> of JobSystem,
  \<open>run_reach\<close> of BacktestRuns, the dispatcher of JobQueue, and sequences of operations elsewhere.

  INTERFACES. Where a client relies on a provider the laws are a locale, interpreted on the code's
  own definitions:

  \<^item> \<open>rounding_context\<close> (a monotone rounding that is exact on what fits) for the 28-digit context: \<open>d28\<close>.

  \<^item> \<open>settlement_ledger\<close> (what a fill and a settlement may change) for the ledger: \<open>lg\<close>. T+1 is proved from
    the contract.

  \<^item> \<open>request_store\<close> for the in-memory and the durable idempotency store: \<open>mem_requests\<close>, \<open>db_requests\<close>.

  \<^item> \<open>job_store\<close> for the in-memory and the durable job run store: \<open>mem\<close>, \<open>db\<close>. The task runner is proved
    once against the contract.

  \<^item> \<open>session_registry\<close> for both registries: \<open>mem_sessions\<close>, \<open>db_sessions\<close>.

  \<^item> \<open>plan_desk\<close> for the durable and the in-memory desk: \<open>plans\<close>, \<open>memory_plans\<close>.

  \<^item> \<open>append_only\<close> for the artifact store: \<open>artifacts\<close>.

  WHAT THE LEMMAS SHOW. Engine: no decision depends on later or unpublished data, fills follow earlier
  signals, cash and equity stay non-negative, drawdowns are between 0 and 1, entries respect the risk
  state and the caps, every metric is computed. Accounting: the ledger refines an abstract book of shares,
  conserves shares and cash and keeps T+1; sizes are affordable and within every limit; the drawdown
  monitor is left only by two confirmations. Strategies: rankings are total and bounded, selections within
  caps. Stored runs: over any history a succeeded run holds the result of its pinned inputs and never changes;
  the market is the one known by the end of each day whatever order the database returns rows in.
  Jobs: one open run per key, success is final, failures are retried, keys round-trip, the dispatcher runs
  each job once. Data: exactly which batches pass, what makes a symbol eligible, hashes independent of
  row order, publications complete, secrets removed, artifacts immutable and verified, fallback rows
  read back. Accounts and requests: tokens are single use, disabled accounts have no session, the
  durable and the in-memory stores agree, and exactly where they do not. Plans: a fill is
  recorded only after a review, in board lots and within the planned quantity.

  PARAMETERS. What is not code of the repository is an argument of the definitions: SHA-256 (over JSON or
  bytes), JWT and Argon2, the Parquet library, pandas' readers and the files they read, the redis and rq
  packages, SQLAlchemy's \<open>make_url\<close>, dotenv, binary floating point in the Sharpe ratio, the clock, fresh
  ids (\<open>uuid4\<close>, \<open>uuid5\<close>), what a column gives back for a stored value, the providers' rows. A theorem that
  needs a property of one of them (that a hash is injective on the texts at hand, that a token decodes to
  what was encoded) has it as a hypothesis, and its witness instantiates it with a concrete function.

  BOUNDS AND FUEL. Python's integers are \<open>int\<close>; decimals are rationals of at most 28 digits and the
  exponent limits of the context are not modelled. The JSON parser takes one more than the length of its text as fuel,
  and each step consumes a character, so that the round trip shows it is enough. The search for the scale
  of a decimal in Importer takes four times the digits of the denominator, which is at least its number of
  twos and fives. The lot loop of Allocation is a partial function: \<open>None\<close> is a loop that does not end,
  and a theorem shows that it returns for every positive lot size. Other recursions are total.
  Texts are ASCII, or the bytes of UTF-8 where files are concerned.

  NOT MODELLED. The HTTP clients and field contracts of the providers, the second ingestion service for
  iFinD, the batch imports and presentation queries of the research repository, FastAPI routing,
  SQLAlchemy plumbing and migrations, logging and wiring, scripts, and the front end. They are input and
  output around the modelled operations, or presentation of what these store.
\<close>

end
